(* ===== verification/BTree_Map.thy ===== *)
theory BTree_Map
  imports Main
begin

text \<open>
  Ordered maps. The crate keeps almost all of its state in \<^verbatim>\<open>std::collections::BTreeMap\<close>
  and \<^verbatim>\<open>BTreeSet\<close>, and relies on their iteration order: pruning of skipped keys drops the
  smallest message number, devices are tried in key order, and snapshots list records in key
  order. The type \<open>btmap\<close> is the list of entries in strictly increasing key order, so equal
  contents are equal values, as with the derived \<^verbatim>\<open>PartialEq\<close>. The locale \<open>ordered_map\<close>
  states what a client may rely on; its interpretation discharges the laws for \<open>btmap\<close>.
\<close>

section \<open>Entry lists\<close>

fun al_get :: "('k \<times> 'v) list \<Rightarrow> 'k \<Rightarrow> 'v option" where
  "al_get [] k = None"
| "al_get ((a, b) # xs) k = (if k = a then Some b else al_get xs k)"

fun al_insert :: "'k::linorder \<Rightarrow> 'v \<Rightarrow> ('k \<times> 'v) list \<Rightarrow> ('k \<times> 'v) list" where
  "al_insert k v [] = [(k, v)]"
| "al_insert k v ((a, b) # xs) =
     (if k < a then (k, v) # (a, b) # xs
      else if k = a then (k, v) # xs
      else (a, b) # al_insert k v xs)"

definition al_remove :: "'k \<Rightarrow> ('k \<times> 'v) list \<Rightarrow> ('k \<times> 'v) list" where
  "al_remove k xs = filter (\<lambda>e. fst e \<noteq> k) xs"

abbreviation ordered_keys :: "('k::linorder \<times> 'v) list \<Rightarrow> bool" where
  "ordered_keys xs \<equiv> sorted_wrt (<) (map fst xs)"

lemma al_get_None_iff: "al_get xs k = None \<longleftrightarrow> k \<notin> fst ` set xs"
  by (induction xs k rule: al_get.induct) auto

lemma al_get_SomeD: "al_get xs k = Some v \<Longrightarrow> (k, v) \<in> set xs"
  by (induction xs k rule: al_get.induct) (auto split: if_splits)

lemma al_get_Some_iff:
  "ordered_keys xs \<Longrightarrow> al_get xs k = Some v \<longleftrightarrow> (k, v) \<in> set xs"
  by (induction xs k rule: al_get.induct) (auto dest: al_get_SomeD)

lemma set_al_insert_keys: "fst ` set (al_insert k v xs) = insert k (fst ` set xs)"
  by (induction k v xs rule: al_insert.induct) auto

lemma ordered_al_insert: "ordered_keys xs \<Longrightarrow> ordered_keys (al_insert k v xs)"
proof (induction k v xs rule: al_insert.induct)
  case (2 k v a b xs)
  have "\<forall>x \<in> fst ` set (al_insert k v xs). x = k \<or> x \<in> fst ` set xs"
    by (simp add: set_al_insert_keys)
  with 2 show ?case by fastforce
qed simp

lemma ordered_filter: "ordered_keys xs \<Longrightarrow> ordered_keys (filter P xs)"
  by (induction xs) auto

lemma al_get_al_insert:
  "al_get (al_insert k v xs) k' = (if k' = k then Some v else al_get xs k')"
  by (induction k v xs rule: al_insert.induct) auto

lemma al_get_filter_keys:
  "al_get (filter (\<lambda>e. P (fst e)) xs) k = (if P k then al_get xs k else None)"
  by (induction xs) auto

lemma al_get_map_values:
  "al_get (map (\<lambda>(k, v). (k, f k v)) xs) k = map_option (f k) (al_get xs k)"
  by (induction xs k rule: al_get.induct) auto

lemma al_insert_last:
  "\<forall>x \<in> fst ` set xs. x < k \<Longrightarrow> al_insert k v xs = xs @ [(k, v)]"
  by (induction k v xs rule: al_insert.induct) fastforce+

lemma length_al_insert:
  "ordered_keys xs \<Longrightarrow>
   length (al_insert k v xs) = (if k \<in> fst ` set xs then length xs else Suc (length xs))"
  by (induction k v xs rule: al_insert.induct) auto

lemma ordered_get_ext:
  assumes "ordered_keys xs" "ordered_keys ys" "al_get xs = al_get ys"
  shows "xs = ys"
proof -
  have same: "set xs = set ys"
    using al_get_Some_iff [OF assms(1)] al_get_Some_iff [OF assms(2)] assms(3)
    by (simp add: set_eq_iff)
  then have "map fst xs = map fst ys"
    using assms(1,2) by (intro sorted_distinct_set_unique) (auto simp: strict_sorted_iff)
  moreover have "inj_on fst (set xs \<union> set ys)"
    using same assms(1) by (auto simp: strict_sorted_iff distinct_map)
  ultimately show ?thesis by (metis map_inj_on)
qed

section \<open>The map type\<close>

typedef (overloaded) ('k::linorder, 'v) btmap = "{xs :: ('k \<times> 'v) list. ordered_keys xs}"
  morphisms bt_entries BTMap
  by (rule exI [of _ "[]"]) simp

setup_lifting type_definition_btmap

lift_definition bt_empty :: "('k::linorder, 'v) btmap" is "[]" by simp

lift_definition bt_get :: "('k::linorder, 'v) btmap \<Rightarrow> 'k \<Rightarrow> 'v option" is al_get .

lift_definition bt_insert :: "'k \<Rightarrow> 'v \<Rightarrow> ('k::linorder, 'v) btmap \<Rightarrow> ('k, 'v) btmap"
  is al_insert by (rule ordered_al_insert)

lift_definition bt_remove :: "'k \<Rightarrow> ('k::linorder, 'v) btmap \<Rightarrow> ('k, 'v) btmap"
  is al_remove unfolding al_remove_def by (rule ordered_filter)

lift_definition bt_len :: "('k::linorder, 'v) btmap \<Rightarrow> nat" is length .

text \<open>\<^verbatim>\<open>retain\<close> on entries, \<^verbatim>\<open>values_mut\<close> as a key-dependent map, and dropping a prefix in order.\<close>

lift_definition bt_retain :: "('k \<Rightarrow> 'v \<Rightarrow> bool) \<Rightarrow> ('k::linorder, 'v) btmap \<Rightarrow> ('k, 'v) btmap"
  is "\<lambda>P. filter (\<lambda>(k, v). P k v)" by (rule ordered_filter)

lift_definition bt_map :: "('k \<Rightarrow> 'v \<Rightarrow> 'w) \<Rightarrow> ('k::linorder, 'v) btmap \<Rightarrow> ('k, 'w) btmap"
  is "\<lambda>f. map (\<lambda>(k, v). (k, f k v))"
  by (simp add: case_prod_unfold comp_def)

lift_definition bt_drop :: "nat \<Rightarrow> ('k::linorder, 'v) btmap \<Rightarrow> ('k, 'v) btmap"
  is drop by (simp add: drop_map [symmetric] sorted_wrt_drop)

definition bt_keys :: "('k::linorder, 'v) btmap \<Rightarrow> 'k list" where
  "bt_keys m = map fst (bt_entries m)"

definition bt_values :: "('k::linorder, 'v) btmap \<Rightarrow> 'v list" where
  "bt_values m = map snd (bt_entries m)"

definition bt_contains_key :: "('k::linorder, 'v) btmap \<Rightarrow> 'k \<Rightarrow> bool" where
  "bt_contains_key m k \<longleftrightarrow> bt_get m k \<noteq> None"

definition bt_is_empty :: "('k::linorder, 'v) btmap \<Rightarrow> bool" where
  "bt_is_empty m \<longleftrightarrow> bt_entries m = []"

text \<open>\<^verbatim>\<open>collect()\<close> of an iterator of pairs: a later pair replaces an earlier one.\<close>

definition bt_of_list :: "('k::linorder \<times> 'v) list \<Rightarrow> ('k, 'v) btmap" where
  "bt_of_list xs = fold (\<lambda>(k, v). bt_insert k v) xs bt_empty"

instantiation btmap :: (linorder, equal) equal
begin
definition equal_btmap :: "('a, 'b) btmap \<Rightarrow> ('a, 'b) btmap \<Rightarrow> bool" where
  "equal_btmap m n \<longleftrightarrow> HOL.equal (bt_entries m) (bt_entries n)"
instance
  by standard (simp add: equal_btmap_def equal_eq bt_entries_inject)
end

text \<open>A \<^verbatim>\<open>BTreeSet\<close> is a \<^verbatim>\<open>BTreeMap\<close> with unit values.\<close>

type_synonym 'k btset = "('k, unit) btmap"

abbreviation bs_insert :: "'k::linorder \<Rightarrow> 'k btset \<Rightarrow> 'k btset" where
  "bs_insert k s \<equiv> bt_insert k () s"

abbreviation bs_of_list :: "'k::linorder list \<Rightarrow> 'k btset" where
  "bs_of_list ks \<equiv> bt_of_list (map (\<lambda>k. (k, ())) ks)"

section \<open>The contract\<close>

lemma bt_get_empty [simp]: "bt_get bt_empty k = None"
  by transfer simp

lemma bt_get_insert [simp]: "bt_get (bt_insert k v m) k' = (if k' = k then Some v else bt_get m k')"
  by transfer (rule al_get_al_insert)

lemma bt_get_remove [simp]: "bt_get (bt_remove k m) k' = (if k' = k then None else bt_get m k')"
  by transfer (simp add: al_remove_def al_get_filter_keys [of "\<lambda>x. x \<noteq> _", simplified])

lemma bt_get_map [simp]: "bt_get (bt_map f m) k = map_option (f k) (bt_get m k)"
  by transfer (rule al_get_map_values)

lemma bt_ext: "(\<And>k. bt_get m k = bt_get n k) \<Longrightarrow> m = n"
  by transfer (auto intro: ordered_get_ext)

lemma bt_get_entries: "bt_get m k = Some v \<longleftrightarrow> (k, v) \<in> set (bt_entries m)"
  by transfer (rule al_get_Some_iff)

lemma set_bt_keys: "set (bt_keys m) = {k. bt_get m k \<noteq> None}"
  unfolding bt_keys_def by transfer (auto simp: al_get_None_iff)

lemma bt_keys_ordered: "sorted_wrt (<) (bt_keys m)"
  unfolding bt_keys_def by transfer

lemma distinct_bt_keys [simp]: "distinct (bt_keys m)"
  using bt_keys_ordered [of m] by (simp add: strict_sorted_iff)

lemma length_bt_keys [simp]: "length (bt_keys m) = bt_len m"
  unfolding bt_keys_def by transfer simp

lemma bt_len_card: "bt_len m = card {k. bt_get m k \<noteq> None}"
proof -
  have "bt_len m = card (set (bt_keys m))"
    by (simp add: distinct_card)
  then show ?thesis by (simp add: set_bt_keys)
qed

locale ordered_map =
  fixes empty :: "'m"
    and get :: "'m \<Rightarrow> 'k::linorder \<Rightarrow> 'v option"
    and ins :: "'k \<Rightarrow> 'v \<Rightarrow> 'm \<Rightarrow> 'm"
    and del :: "'k \<Rightarrow> 'm \<Rightarrow> 'm"
    and keys :: "'m \<Rightarrow> 'k list"
    and len :: "'m \<Rightarrow> nat"
  assumes get_empty: "get empty k = None"
    and get_ins: "get (ins k v m) k' = (if k' = k then Some v else get m k')"
    and get_del: "get (del k m) k' = (if k' = k then None else get m k')"
    and ext: "(\<And>k. get m k = get n k) \<Longrightarrow> m = n"
    and keys_get: "set (keys m) = {k. get m k \<noteq> None}"
    and keys_order: "sorted_wrt (<) (keys m)"
    and len_keys: "len m = length (keys m)"
begin

lemma finite_dom: "finite {k. get m k \<noteq> None}"
  using keys_get [of m] by (metis List.finite_set)

lemma len_card: "len m = card {k. get m k \<noteq> None}"
  using keys_order [of m] keys_get [of m]
  by (simp add: len_keys strict_sorted_iff flip: distinct_card)

lemma len_empty: "len empty = 0"
  by (simp add: len_card get_empty)

lemma len_ins: "len (ins k v m) = (if get m k = None then Suc (len m) else len m)"
proof -
  have "{x. get (ins k v m) x \<noteq> None} = insert k {x. get m x \<noteq> None}"
    by (auto simp: get_ins)
  then show ?thesis using finite_dom [of m] by (simp add: len_card card_insert_if)
qed

lemma len_del: "len (del k m) = (if get m k = None then len m else len m - 1)"
proof -
  have "{x. get (del k m) x \<noteq> None} = {x. get m x \<noteq> None} - {k}"
    by (auto simp: get_del)
  then show ?thesis using finite_dom [of m] by (simp add: len_card card_Diff_singleton_if)
qed

lemma ins_overwrite: "ins k v (ins k w m) = ins k v m"
  by (rule ext) (simp add: get_ins)

lemma ins_commute: "k \<noteq> k' \<Longrightarrow> ins k v (ins k' w m) = ins k' w (ins k v m)"
  by (rule ext) (simp add: get_ins)

lemma ins_same: "get m k = Some v \<Longrightarrow> ins k v m = m"
  by (rule ext) (simp add: get_ins)

lemma del_ins: "get m k = None \<Longrightarrow> del k (ins k v m) = m"
  by (rule ext) (simp add: get_ins get_del)

lemma del_absent: "get m k = None \<Longrightarrow> del k m = m"
  by (rule ext) (simp add: get_del)

lemma len_0_iff: "len m = 0 \<longleftrightarrow> m = empty"
proof
  assume "len m = 0"
  then have "{k. get m k \<noteq> None} = {}" using finite_dom [of m] by (simp add: len_card)
  then have "get m k = get empty k" for k by (auto simp: get_empty)
  then show "m = empty" by (rule ext)
qed (simp add: len_empty)

end

interpretation bt: ordered_map bt_empty bt_get bt_insert bt_remove bt_keys bt_len
  by unfold_locales (auto simp: set_bt_keys bt_keys_ordered intro: bt_ext)

lemmas bt_len_simps [simp] = bt.len_empty bt.len_ins bt.len_del

section \<open>Further facts on the representation\<close>

lemma bt_entries_empty [simp]: "bt_entries bt_empty = []"
  by transfer simp

lemma bt_entries_insert: "bt_entries (bt_insert k v m) = al_insert k v (bt_entries m)"
  by transfer simp

lemma bt_entries_remove: "bt_entries (bt_remove k m) = al_remove k (bt_entries m)"
  by transfer simp

lemma bt_entries_drop: "bt_entries (bt_drop n m) = drop n (bt_entries m)"
  by transfer simp

lemma bt_entries_retain: "bt_entries (bt_retain P m) = filter (\<lambda>(k, v). P k v) (bt_entries m)"
  by transfer simp

lemma bt_entries_map: "bt_entries (bt_map f m) = map (\<lambda>(k, v). (k, f k v)) (bt_entries m)"
  by transfer simp

lemmas bt_entries_simps =
  bt_entries_insert bt_entries_remove bt_entries_drop bt_entries_retain bt_entries_map

lemma bt_get_code: "bt_get m k = al_get (bt_entries m) k"
  by transfer simp

lemma bt_len_entries: "bt_len m = length (bt_entries m)"
  by transfer simp

lemma bt_eq_iff: "m = n \<longleftrightarrow> bt_entries m = bt_entries n"
  by (simp add: bt_entries_inject)

lemma bt_is_empty_iff: "bt_is_empty m \<longleftrightarrow> m = bt_empty"
  by (simp add: bt_is_empty_def bt_eq_iff)

lemma bt_is_empty_get: "bt_is_empty m \<longleftrightarrow> (\<forall>k. bt_get m k = None)"
  unfolding bt_is_empty_iff by (auto intro: bt_ext)

lemma bt_len_drop [simp]: "bt_len (bt_drop n m) = bt_len m - n"
  by (simp add: bt_len_entries bt_entries_drop)

lemma bt_keys_empty [simp]: "bt_keys bt_empty = []"
  by (simp add: bt_keys_def)

lemma bt_get_retain [simp]:
  "bt_get (bt_retain P m) k = (case bt_get m k of None \<Rightarrow> None
     | Some v \<Rightarrow> if P k v then Some v else None)"
proof -
  have *: "bt_get (bt_retain P m) k = Some v \<longleftrightarrow> bt_get m k = Some v \<and> P k v" for v
    by (simp add: bt_get_entries bt_entries_retain)
  show ?thesis
  proof (cases "bt_get m k")
    case None
    with * have "bt_get (bt_retain P m) k \<noteq> Some v" for v by simp
    with None show ?thesis by (cases "bt_get (bt_retain P m) k") auto
  next
    case (Some v)
    with * have "bt_get (bt_retain P m) k = Some w \<longleftrightarrow> v = w \<and> P k v" for w by auto
    with Some show ?thesis by (cases "bt_get (bt_retain P m) k") auto
  qed
qed

lemma bt_get_drop_SomeD: "bt_get (bt_drop n m) k = Some v \<Longrightarrow> bt_get m k = Some v"
  by (auto simp: bt_get_entries bt_entries_drop dest: in_set_dropD)

lemma bt_keys_remove: "bt_keys (bt_remove k m) = filter (\<lambda>x. x \<noteq> k) (bt_keys m)"
  by (simp add: bt_keys_def bt_entries_remove al_remove_def filter_map comp_def)

lemma bt_remove_first:
  assumes "bt_keys m = k # ks"
  shows "bt_remove k m = bt_drop 1 m"
proof -
  from assms obtain v xs where xs: "bt_entries m = (k, v) # xs" "map fst xs = ks"
    by (cases "bt_entries m") (auto simp: bt_keys_def)
  have "k \<notin> set ks" using distinct_bt_keys [of m] assms by simp
  then have "filter (\<lambda>e. fst e \<noteq> k) xs = xs"
    using xs(2) by (force simp: filter_id_conv)
  then show ?thesis
    using xs(1) by (simp add: bt_eq_iff bt_entries_remove bt_entries_drop al_remove_def)
qed

lemma bt_insert_last:
  assumes "\<And>k'. bt_get m k' \<noteq> None \<Longrightarrow> k' < k"
  shows "bt_entries (bt_insert k v m) = bt_entries m @ [(k, v)]"
proof -
  have "\<forall>x \<in> fst ` set (bt_entries m). x < k"
    using assms by (fastforce simp flip: bt_get_entries)
  then show ?thesis by (simp add: bt_entries_insert al_insert_last)
qed

lemma bt_get_of_list: "bt_get (bt_of_list xs) k = map_of (rev xs) k"
proof -
  have "bt_get (fold (\<lambda>(k, v). bt_insert k v) xs m) k =
      (case map_of (rev xs) k of None \<Rightarrow> bt_get m k | Some v \<Rightarrow> Some v)" for m
    by (induction xs arbitrary: m) (auto simp: map_add_def split: option.splits)
  then show ?thesis by (simp add: bt_of_list_def split: option.splits)
qed

lemma bt_of_list_entries: "bt_of_list (bt_entries m) = m"
proof (rule bt_ext)
  fix k
  have "distinct (map fst (bt_entries m))" using distinct_bt_keys [of m] by (simp add: bt_keys_def)
  then have "map_of (rev (bt_entries m)) k = Some v \<longleftrightarrow> (k, v) \<in> set (bt_entries m)" for v
    by (simp add: rev_map [symmetric] map_of_eq_Some_iff)
  then show "bt_get (bt_of_list (bt_entries m)) k = bt_get m k"
    by (metis bt_get_of_list bt_get_entries not_None_eq)
qed

end
