(* ===== verification/Prelude.thy ===== *)
theory Prelude
  imports BTree_Map "HOL-Library.Word" "HOL-Library.List_Lexorder" "HOL-Library.Product_Lexorder"
    "HOL-Library.Option_ord" "HOL-Library.Char_ord"
begin

text \<open>
  Shared vocabulary of the development: machine integers at their width, byte strings, results
  (\<^verbatim>\<open>Result<T, E>\<close> as a sum with the error on the left), and the lemmas on them that the component
  proofs use through the collections \<open>result_simps\<close> and \<open>word_step\<close>.
\<close>

named_theorems result_simps \<open>elimination of \<open>and_then\<close> and \<open>ok_or\<close> in equations with a result\<close>
named_theorems word_step \<open>counting up on machine words below a bound\<close>

type_synonym u8 = "8 word"
type_synonym u32 = "32 word"
type_synonym u64 = "64 word"
type_synonym bytes = "u8 list"

section \<open>Results\<close>

text \<open>\<^verbatim>\<open>Result::and_then\<close>, which is also what the \<^verbatim>\<open>?\<close> operator does.\<close>

fun and_then :: "'e + 'a \<Rightarrow> ('a \<Rightarrow> 'e + 'b) \<Rightarrow> 'e + 'b" where
  "and_then (Inl e) f = Inl e"
| "and_then (Inr x) f = f x"

fun ok_or :: "'a option \<Rightarrow> 'e \<Rightarrow> 'e + 'a" where
  "ok_or None e = Inl e"
| "ok_or (Some x) e = Inr x"

fun map_err :: "('e \<Rightarrow> 'f) \<Rightarrow> 'e + 'a \<Rightarrow> 'f + 'a" where
  "map_err f (Inl e) = Inl (f e)"
| "map_err f (Inr x) = Inr x"

definition is_ok :: "'e + 'a \<Rightarrow> bool" where
  "is_ok r \<longleftrightarrow> (case r of Inl _ \<Rightarrow> False | Inr _ \<Rightarrow> True)"

lemma is_ok_simps [simp]: "is_ok (Inr x)" "\<not> is_ok (Inl e)"
  by (simp_all add: is_ok_def)

lemma is_ok_iff: "is_ok r \<longleftrightarrow> (\<exists>x. r = Inr x)"
  by (cases r) auto

lemma and_then_eq_Inr [result_simps]:
  "and_then m f = Inr y \<longleftrightarrow> (\<exists>x. m = Inr x \<and> f x = Inr y)"
  by (cases m) auto

lemma and_then_eq_Inl [result_simps]:
  "and_then m f = Inl e \<longleftrightarrow> m = Inl e \<or> (\<exists>x. m = Inr x \<and> f x = Inl e)"
  by (cases m) auto

lemma ok_or_eq_Inr [result_simps]: "ok_or r e = Inr x \<longleftrightarrow> r = Some x"
  by (cases r) auto

lemma ok_or_eq_Inl [result_simps]: "ok_or r e = Inl e' \<longleftrightarrow> r = None \<and> e' = e"
  by (cases r) auto

lemma map_err_eq_Inr [result_simps]: "map_err f r = Inr x \<longleftrightarrow> r = Inr x"
  by (cases r) auto

lemma if_Inl_eq_Inr [result_simps]: "((if b then Inl e else r) = Inr x) \<longleftrightarrow> \<not> b \<and> r = Inr x"
  by simp

lemma is_ok_and_then: "is_ok (and_then m f) \<longleftrightarrow> (\<exists>x. m = Inr x \<and> is_ok (f x))"
  by (cases m) auto

lemma is_ok_map_err [simp]: "is_ok (map_err f r) \<longleftrightarrow> is_ok r"
  by (cases r) auto

section \<open>Counters on machine words\<close>

lemma unat_plus_one [word_step]:
  fixes a b :: "'a::len word"
  assumes "a < b"
  shows "unat (a + 1) = Suc (unat a)"
proof -
  have "unat a < unat b" and "unat b < 2 ^ LENGTH('a)"
    using assms by (simp_all add: word_less_nat_alt)
  then have "Suc (unat a) < 2 ^ LENGTH('a)" by linarith
  then show ?thesis by (simp add: unat_word_ariths)
qed

lemma word_less_Suc_le [word_step]:
  fixes a b :: "'a::len word"
  assumes "a < b"
  shows "a + 1 \<le> b"
  using assms by (simp add: inc_le)

lemma word_diff_step [word_step]:
  fixes a b :: "'a::len word"
  assumes "a < b"
  shows "unat b - unat (a + 1) < unat b - unat a"
  using assms by (simp add: unat_plus_one word_less_nat_alt)

lemma unat_sub_le: "b \<le> a \<Longrightarrow> unat (a - b) = unat a - unat (b :: 'a::len word)"
  by (rule unat_sub)

text \<open>Induction for a loop that counts a word up to a bound.\<close>

lemma word_count_induct [consumes 1, case_names stop step]:
  fixes n until :: "'a::len word"
  assumes "n \<le> until"
    and stop: "P until"
    and step: "\<And>n. n < until \<Longrightarrow> n + 1 \<le> until \<Longrightarrow> unat (n + 1) = Suc (unat n) \<Longrightarrow> P (n + 1) \<Longrightarrow> P n"
  shows "P n"
  using assms(1)
proof (induction "unat until - unat n" arbitrary: n rule: less_induct)
  case less
  show ?case
  proof (cases "n = until")
    case True
    then show ?thesis using stop by simp
  next
    case False
    then have "n < until" using less.prems by simp
    then show ?thesis
      using less.hyps [of "n + 1"] step [of n] word_step [of n until] by simp
  qed
qed

text \<open>\<^verbatim>\<open>checked_add(1)\<close>, \<^verbatim>\<open>checked_add\<close>, \<^verbatim>\<open>saturating_add\<close> and \<^verbatim>\<open>saturating_sub\<close> at width \<open>'a\<close>.\<close>

definition checked_add :: "'a::len word \<Rightarrow> 'a word \<Rightarrow> 'a word option" where
  "checked_add a b = (if unat a + unat b < 2 ^ LENGTH('a) then Some (a + b) else None)"

definition saturating_add :: "'a::len word \<Rightarrow> 'a word \<Rightarrow> 'a word" where
  "saturating_add a b = (if unat a + unat b < 2 ^ LENGTH('a) then a + b else - 1)"

definition saturating_sub :: "'a::len word \<Rightarrow> 'a word \<Rightarrow> 'a word" where
  "saturating_sub a b = (if b \<le> a then a - b else 0)"

lemma checked_add_Some:
  "checked_add a b = Some c \<longleftrightarrow> unat c = unat a + unat (b :: 'a::len word)"
proof -
  have "unat c = unat a + unat b \<Longrightarrow> unat a + unat b < 2 ^ LENGTH('a)"
    by (metis unsigned_less)
  then show ?thesis
    by (auto simp: checked_add_def unat_word_ariths word_unat_eq_iff)
qed

text \<open>For evaluation, overflow is seen in the wrapped sum.\<close>

lemma sum_overflow_iff:
  fixes a b :: "'a::len word"
  shows "unat a + unat b < 2 ^ LENGTH('a) \<longleftrightarrow> a \<le> a + b"
  by (metis add.commute no_olen_add_nat)

lemmas checked_add_code [code] = checked_add_def [unfolded sum_overflow_iff]
lemmas saturating_add_code [code] = saturating_add_def [unfolded sum_overflow_iff]

lemma unat_minus_one_max: "unat (- 1 :: 'a::len word) = 2 ^ LENGTH('a) - 1"
  by (simp add: unsigned_minus_1_eq_mask mask_eq_exp_minus_1)

lemma checked_add_one_None:
  "checked_add a 1 = None \<longleftrightarrow> a = (- 1 :: 'a::len word)"
proof -
  have "unat a + unat (1 :: 'a word) < 2 ^ LENGTH('a) \<longleftrightarrow> a \<noteq> - 1"
    using unsigned_less [of a, where ?'a = nat] less_Suc_eq_le [of "unat a" "2 ^ LENGTH('a) - 1"]
    by (simp add: word_unat_eq_iff unat_minus_one_max del: unsigned_less) linarith
  then show ?thesis by (simp add: checked_add_def)
qed

lemma checked_add_one:
  "checked_add a 1 = (if a = (- 1 :: 'a::len word) then None else Some (a + 1))"
proof (cases "a = - 1")
  case True
  then show ?thesis using checked_add_one_None [of a] by simp
next
  case False
  then show ?thesis using checked_add_one_None [of a] by (auto simp: checked_add_def split: if_splits)
qed

lemma unat_plus_one_max: "a \<noteq> - 1 \<Longrightarrow> unat (a + 1 :: 'a::len word) = Suc (unat a)"
  using checked_add_one [of a] checked_add_Some [of a 1 "a + 1"] by simp

lemma unat_saturating_add:
  "unat (saturating_add a b) = min (unat a + unat b) (2 ^ LENGTH('a) - 1)"
  for a b :: "'a::len word"
  by (auto simp: saturating_add_def unat_word_ariths unat_minus_one_max)

lemma unat_saturating_sub: "unat (saturating_sub a b) = unat a - unat b"
  for a b :: "'a::len word"
  by (auto simp: saturating_sub_def unat_sub_le word_le_nat_alt)

section \<open>Options and lists\<close>

text \<open>\<^verbatim>\<open>Option::or\<close>, \<^verbatim>\<open>Option::is_none_or\<close> and \<^verbatim>\<open>Option::is_some_and\<close>.\<close>

fun option_or :: "'a option \<Rightarrow> 'a option \<Rightarrow> 'a option" where
  "option_or (Some x) y = Some x"
| "option_or None y = y"

fun is_none_or :: "'a option \<Rightarrow> ('a \<Rightarrow> bool) \<Rightarrow> bool" where
  "is_none_or None P = True"
| "is_none_or (Some x) P = P x"

fun is_some_and :: "'a option \<Rightarrow> ('a \<Rightarrow> bool) \<Rightarrow> bool" where
  "is_some_and None P = False"
| "is_some_and (Some x) P = P x"

text \<open>\<^verbatim>\<open>Iterator::find\<close>.\<close>

definition find_first :: "('a \<Rightarrow> bool) \<Rightarrow> 'a list \<Rightarrow> 'a option" where
  "find_first P xs = List.find P xs"

text \<open>\<^verbatim>\<open>Vec::remove(i)\<close> for an index in range.\<close>

definition remove_at :: "nat \<Rightarrow> 'a list \<Rightarrow> 'a list" where
  "remove_at i xs = take i xs @ drop (Suc i) xs"

lemma length_remove_at: "i < length xs \<Longrightarrow> length (remove_at i xs) = length xs - 1"
  by (simp add: remove_at_def)

lemma set_remove_at: "set (remove_at i xs) \<subseteq> set xs"
  by (auto simp: remove_at_def dest: in_set_takeD in_set_dropD)

section \<open>Results with state\<close>

text \<open>
  A Rust method that borrows mutable state returns a result and the state as it left it, also on an
  error: \<open>then_do\<close> is the \<^verbatim>\<open>?\<close> operator, which stops at an error and keeps the state reached so far.
\<close>

fun then_do :: "('e + 'a) \<times> 's \<Rightarrow> ('a \<Rightarrow> 's \<Rightarrow> ('e + 'b) \<times> 's) \<Rightarrow> ('e + 'b) \<times> 's" where
  "then_do (Inl e, s) f = (Inl e, s)"
| "then_do (Inr x, s) f = f x s"

lemma then_do_eq_Inr [result_simps]:
  "then_do m f = (Inr y, s') \<longleftrightarrow> (\<exists>x s. m = (Inr x, s) \<and> f x s = (Inr y, s'))"
  by (cases "(m, f)" rule: then_do.cases) auto

lemma then_do_res: "then_do (r, s) f = (case r of Inl e \<Rightarrow> (Inl e, s) | Inr x \<Rightarrow> f x s)"
  by (cases r) auto

lemma pair_eq_Inr [result_simps]: "(r, s) = (Inr x, s') \<longleftrightarrow> r = Inr x \<and> s = s'"
  by simp

section \<open>Bytes and characters\<close>

definition byte_char :: "u8 \<Rightarrow> char" where
  "byte_char w = char_of (unat w)"

lemma byte_char_code [code]:
  "byte_char w = Char (bit w 0) (bit w 1) (bit w 2) (bit w 3) (bit w 4) (bit w 5) (bit w 6) (bit w 7)"
  by (simp add: byte_char_def char_of_def bit_unsigned_iff flip: bit_iff_odd_drop_bit bit_0)

lemma byte_of_byte_char [simp]: "of_char (byte_char w) = w"
proof -
  have "unat w mod 256 = unat w" using unsigned_less [of w, where ?'a = nat] by simp
  then have "of_nat (of_char (byte_char w)) = w" by (simp add: byte_char_def)
  then show ?thesis by (simp only: of_nat_of_char)
qed

lemma byte_char_of_byte [simp]: "byte_char (of_char c) = c"
proof -
  have "(of_char c :: u8) = of_nat (of_char c)" by (rule of_nat_of_char [symmetric])
  then have "unat (of_char c :: u8) = of_char c"
    using nat_of_char_less_256 [of c] by (simp add: unat_of_nat)
  then show ?thesis by (simp add: byte_char_def)
qed

end
