(* ===== verification/Protocol_Types.thy ===== *)
theory Protocol_Types
  imports Prelude
begin

text \<open>
  Identifiers, errors and constants (\<^verbatim>\<open>ids.rs\<close>, \<^verbatim>\<open>error.rs\<close>, \<^verbatim>\<open>protocol_types.rs\<close>), the helper
  functions of \<^verbatim>\<open>utils.rs\<close>, the responder-key blinding of \<^verbatim>\<open>metadata_privacy.rs\<close>, and the interface
  to the third-party crates.

  The cryptographic crates (\<^verbatim>\<open>nostr\<close>, \<^verbatim>\<open>secp256k1\<close>, \<^verbatim>\<open>hkdf\<close>, \<^verbatim>\<open>sha2\<close>, \<^verbatim>\<open>base64\<close>, \<^verbatim>\<open>hex\<close>) are the
  fields of the record \<open>crypto\<close>, the first argument of every definition that uses them; what the
  code relies on of them is stated by the predicates of the last section, which appear as
  hypotheses of the properties that need them. Encryption is randomised by the operating system;
  the index of the draw is an argument of the encryption functions. The caller's random number
  generator is the list of byte blocks its next \<^verbatim>\<open>fill_bytes\<close> calls return.
\<close>

section \<open>Identifiers (ids.rs)\<close>

type_synonym UnixSeconds = u64
type_synonym PublicKey = bytes

datatype OwnerPubkey = OwnerPubkey (owner_bytes: bytes)
datatype DevicePubkey = DevicePubkey (device_bytes: bytes)

instantiation OwnerPubkey :: linorder
begin
definition less_eq_OwnerPubkey :: "OwnerPubkey \<Rightarrow> OwnerPubkey \<Rightarrow> bool" where
  "less_eq_OwnerPubkey a b \<longleftrightarrow> owner_bytes a \<le> owner_bytes b"
definition less_OwnerPubkey :: "OwnerPubkey \<Rightarrow> OwnerPubkey \<Rightarrow> bool" where
  "less_OwnerPubkey a b \<longleftrightarrow> owner_bytes a < owner_bytes b"
instance
  by standard (auto simp: less_eq_OwnerPubkey_def less_OwnerPubkey_def OwnerPubkey.expand)
end

instantiation DevicePubkey :: linorder
begin
definition less_eq_DevicePubkey :: "DevicePubkey \<Rightarrow> DevicePubkey \<Rightarrow> bool" where
  "less_eq_DevicePubkey a b \<longleftrightarrow> device_bytes a \<le> device_bytes b"
definition less_DevicePubkey :: "DevicePubkey \<Rightarrow> DevicePubkey \<Rightarrow> bool" where
  "less_DevicePubkey a b \<longleftrightarrow> device_bytes a < device_bytes b"
instance
  by standard (auto simp: less_eq_DevicePubkey_def less_DevicePubkey_def DevicePubkey.expand)
end

lemmas pubkey_order_simps =
  less_eq_OwnerPubkey_def less_OwnerPubkey_def less_eq_DevicePubkey_def less_DevicePubkey_def

definition owner_pubkey_from_device_pubkey :: "DevicePubkey \<Rightarrow> OwnerPubkey" where
  "owner_pubkey_from_device_pubkey d = OwnerPubkey (device_bytes d)"

lemma owner_pubkey_from_device_pubkey_inj:
  "owner_pubkey_from_device_pubkey d = owner_pubkey_from_device_pubkey d' \<longleftrightarrow> d = d'"
  by (cases d; cases d') (simp add: owner_pubkey_from_device_pubkey_def)

section \<open>Errors (error.rs)\<close>

datatype DomainError =
    SessionNotReady
  | CannotSendYet
  | UnexpectedSender
  | TooManySkippedMessages
  | InviteAlreadyUsed
  | InviteExhausted
  | InvalidGroupOperation string
  | PendingGroupRevision string u64 u64
  | InvalidState string

text \<open>
  \<open>RngExhausted\<close> is not an error of the code: it is the outcome of the model when the finite list of
  random blocks given to it ends inside the rejection loop of \<^verbatim>\<open>random_secret_key_bytes\<close>. Likewise
  \<open>Panicked\<close> stands for a failed \<^verbatim>\<open>expect\<close> or an index out of range.
\<close>

datatype Error =
    Domain DomainError
  | Parse string
  | Encryption string
  | Decryption string
  | InvalidEvent string
  | Serialization string
  | Storage string
  | DeviceIdRequired
  | InviteError string
  | Json string
  | Hex string
  | NostrKey string
  | NostrEvent string
  | Nip44 string
  | RngExhausted
  | Panicked

type_synonym 'a res = "Error + 'a"

definition MAX_SKIP :: nat where "MAX_SKIP = 1000"
definition METADATA_PRIVACY_VERSION :: u8 where "METADATA_PRIVACY_VERSION = 2"

section \<open>Third-party crates\<close>

record crypto =
  sk_from_slice :: "bytes \<Rightarrow> bool" \<comment> \<open>\<^verbatim>\<open>SecretKey::from_slice\<close> accepts\<close>
  pk_from_slice :: "bytes \<Rightarrow> bool" \<comment> \<open>\<^verbatim>\<open>PublicKey::from_slice\<close> accepts\<close>
  pk_xonly :: "bytes \<Rightarrow> bool" \<comment> \<open>\<^verbatim>\<open>PublicKey::xonly\<close> accepts\<close>
  pk_of_sk :: "bytes \<Rightarrow> bytes" \<comment> \<open>\<^verbatim>\<open>Keys::new(sk).public_key()\<close>\<close>
  ck_derive :: "bytes \<Rightarrow> bytes \<Rightarrow> bytes res" \<comment> \<open>\<^verbatim>\<open>nip44::v2::ConversationKey::derive\<close>\<close>
  v2_encrypt :: "nat \<Rightarrow> bytes \<Rightarrow> bytes \<Rightarrow> bytes res" \<comment> \<open>\<^verbatim>\<open>nip44::v2::encrypt_to_bytes\<close>\<close>
  v2_decrypt :: "bytes \<Rightarrow> bytes \<Rightarrow> bytes res" \<comment> \<open>\<^verbatim>\<open>nip44::v2::decrypt_to_bytes\<close>\<close>
  nip44_encrypt :: "nat \<Rightarrow> bytes \<Rightarrow> bytes \<Rightarrow> string \<Rightarrow> string res"
  nip44_decrypt :: "bytes \<Rightarrow> bytes \<Rightarrow> string \<Rightarrow> string res"
  hkdf_sha256 :: "bytes \<Rightarrow> bytes \<Rightarrow> bytes \<Rightarrow> bytes" \<comment> \<open>salt, input key, info to 32 bytes\<close>
  sha256 :: "bytes \<Rightarrow> bytes"
  b64_encode :: "bytes \<Rightarrow> string"
  b64_decode :: "string \<Rightarrow> string + bytes"
  hex_decode :: "string \<Rightarrow> string + bytes"
  hex_encode :: "bytes \<Rightarrow> string"
  scalar_from_be_bytes :: "bytes \<Rightarrow> nat option" \<comment> \<open>\<^verbatim>\<open>secp256k1::Scalar\<close>\<close>
  pk_add_tweak :: "bytes \<Rightarrow> nat \<Rightarrow> bytes option" \<comment> \<open>\<^verbatim>\<open>XOnlyPublicKey::add_tweak\<close>\<close>
  sk_odd_parity :: "bytes \<Rightarrow> bool" \<comment> \<open>parity of the public point of a secret key\<close>
  sk_negate :: "bytes \<Rightarrow> bytes"
  sk_add_tweak :: "bytes \<Rightarrow> nat \<Rightarrow> bytes option"

section \<open>Helpers (utils.rs, ids.rs)\<close>

definition kdf :: "'x crypto_scheme \<Rightarrow> bytes \<Rightarrow> bytes \<Rightarrow> nat \<Rightarrow> bytes list" where
  "kdf cr input1 input2 num_outputs =
     map (\<lambda>i. hkdf_sha256 cr input2 input1 [of_nat i]) [1..<Suc num_outputs]"

definition kdf2 :: "'x crypto_scheme \<Rightarrow> bytes \<Rightarrow> bytes \<Rightarrow> bytes \<times> bytes" where
  "kdf2 cr input1 input2 =
     (hkdf_sha256 cr input2 input1 [1], hkdf_sha256 cr input2 input1 [2])"

lemma kdf2_kdf: "kdf cr a b 2 = [fst (kdf2 cr a b), snd (kdf2 cr a b)]"
  by (simp add: kdf_def kdf2_def numeral_2_eq_2)

definition secret_key_from_bytes :: "'x crypto_scheme \<Rightarrow> bytes \<Rightarrow> bytes res" where
  "secret_key_from_bytes cr bs =
     (if sk_from_slice cr bs then Inr bs else Inl (NostrKey ''secret key''))"

definition device_pubkey_from_secret_bytes :: "'x crypto_scheme \<Rightarrow> bytes \<Rightarrow> DevicePubkey res" where
  "device_pubkey_from_secret_bytes cr bs =
     and_then (secret_key_from_bytes cr bs) (\<lambda>secret. Inr (DevicePubkey (pk_of_sk cr secret)))"

definition device_to_nostr :: "'x crypto_scheme \<Rightarrow> DevicePubkey \<Rightarrow> PublicKey res" where
  "device_to_nostr cr d =
     (if pk_from_slice cr (device_bytes d) then Inr (device_bytes d) else Inl (Parse ''public key''))"

definition owner_to_nostr :: "'x crypto_scheme \<Rightarrow> OwnerPubkey \<Rightarrow> PublicKey res" where
  "owner_to_nostr cr d =
     (if pk_from_slice cr (owner_bytes d) then Inr (owner_bytes d) else Inl (Parse ''public key''))"

definition pubkey_from_hex :: "'x crypto_scheme \<Rightarrow> string \<Rightarrow> PublicKey res" where
  "pubkey_from_hex cr s =
     and_then (map_err Hex (hex_decode cr s)) (\<lambda>bs.
       if length bs \<noteq> 32 then Inl (InvalidEvent ''Invalid pubkey length'')
       else if pk_from_slice cr bs then Inr bs else Inl (InvalidEvent ''public key''))"

text \<open>The rejection loop draws blocks until one is a valid secret key.\<close>

fun random_secret_key_bytes ::
  "'x crypto_scheme \<Rightarrow> bytes list \<Rightarrow> bytes res \<times> bytes list" where
  "random_secret_key_bytes cr [] = (Inl RngExhausted, [])"
| "random_secret_key_bytes cr (candidate # rng) =
     (if sk_from_slice cr candidate then (Inr candidate, rng) else random_secret_key_bytes cr rng)"

lemma random_secret_key_bytes_ok:
  assumes "\<exists>c \<in> set rng. sk_from_slice cr c"
  obtains k where "fst (random_secret_key_bytes cr rng) = Inr k" "sk_from_slice cr k"
proof -
  from assms have "\<exists>k. fst (random_secret_key_bytes cr rng) = Inr k \<and> sk_from_slice cr k"
    by (induction rng) auto
  then show ?thesis using that by blast
qed

lemma random_secret_key_bytes_valid:
  "random_secret_key_bytes cr rng = (Inr k, rng') \<Longrightarrow> sk_from_slice cr k \<and> k \<in> set rng"
  by (induction rng) (auto split: if_splits)

record SendOptions =
  expires_at :: "u64 option"
  ttl_seconds :: "u64 option"

definition resolve_expiration_seconds :: "SendOptions \<Rightarrow> u64 \<Rightarrow> u64 option res" where
  "resolve_expiration_seconds opts now_seconds =
     (if expires_at opts \<noteq> None \<and> ttl_seconds opts \<noteq> None
      then Inl (InvalidEvent ''Provide either expires_at or ttl_seconds, not both'')
      else case expires_at opts of
        Some e \<Rightarrow> Inr (Some e)
      | None \<Rightarrow> (case ttl_seconds opts of
          Some ttl \<Rightarrow> (case checked_add now_seconds ttl of
              None \<Rightarrow> Inl (InvalidEvent ''ttl_seconds overflow'')
            | Some t \<Rightarrow> Inr (Some t))
        | None \<Rightarrow> Inr None))"

section \<open>Responder key blinding (metadata\_privacy.rs)\<close>

definition invalid_key :: Error where
  "invalid_key = Domain (InvalidState ''invalid responder key tweak'')"

definition DOMAIN :: bytes where
  "DOMAIN = map of_char ''NIP-118/responder-key-blinding/v2''"

definition responder_tweak ::
  "'x crypto_scheme \<Rightarrow> bytes \<Rightarrow> DevicePubkey \<Rightarrow> DevicePubkey \<Rightarrow> DevicePubkey \<Rightarrow> nat res" where
  "responder_tweak cr our_secret their_public inviter_public initiator_public =
     and_then (secret_key_from_bytes cr our_secret) (\<lambda>sk.
     and_then (device_to_nostr cr their_public) (\<lambda>pk.
     and_then (ck_derive cr sk pk) (\<lambda>shared.
       case scalar_from_be_bytes cr
              (sha256 cr (DOMAIN @ shared @ device_bytes inviter_public @ device_bytes initiator_public)) of
         None \<Rightarrow> Inl invalid_key
       | Some scalar \<Rightarrow> if scalar = 0 then Inl invalid_key else Inr scalar)))"

definition private_responder_public_key ::
  "'x crypto_scheme \<Rightarrow> bytes \<Rightarrow> DevicePubkey \<Rightarrow> DevicePubkey res" where
  "private_responder_public_key cr initiator_secret inviter_public =
     and_then (device_pubkey_from_secret_bytes cr initiator_secret) (\<lambda>initiator_public.
     and_then (responder_tweak cr initiator_secret inviter_public inviter_public initiator_public) (\<lambda>tweak.
     and_then (device_to_nostr cr inviter_public) (\<lambda>pk.
       if \<not> pk_xonly cr pk then Inl invalid_key
       else and_then (ok_or (pk_add_tweak cr pk tweak) invalid_key) (\<lambda>blinded.
         Inr (DevicePubkey blinded)))))"

definition private_responder_secret_key ::
  "'x crypto_scheme \<Rightarrow> bytes \<Rightarrow> DevicePubkey \<Rightarrow> bytes res" where
  "private_responder_secret_key cr inviter_secret initiator_public =
     and_then (device_pubkey_from_secret_bytes cr inviter_secret) (\<lambda>inviter_public.
     and_then (responder_tweak cr inviter_secret initiator_public inviter_public initiator_public) (\<lambda>tweak.
       if \<not> sk_from_slice cr inviter_secret then Inl invalid_key
       else let normalized = (if sk_odd_parity cr inviter_secret then sk_negate cr inviter_secret
                              else inviter_secret)
            in ok_or (sk_add_tweak cr normalized tweak) invalid_key))"

section \<open>What the code relies on of the crates\<close>

text \<open>Keys derived from a valid secret are valid, and Diffie-Hellman is symmetric.\<close>

definition keys_ok :: "'x crypto_scheme \<Rightarrow> bool" where
  "keys_ok cr \<longleftrightarrow> (\<forall>a. sk_from_slice cr a \<longrightarrow>
     pk_from_slice cr (pk_of_sk cr a) \<and> pk_xonly cr (pk_of_sk cr a))"

definition dh_symmetric :: "'x crypto_scheme \<Rightarrow> bool" where
  "dh_symmetric cr \<longleftrightarrow> (\<forall>a b. sk_from_slice cr a \<longrightarrow> sk_from_slice cr b \<longrightarrow>
     ck_derive cr a (pk_of_sk cr b) = ck_derive cr b (pk_of_sk cr a)
     \<and> is_ok (ck_derive cr a (pk_of_sk cr b)))"

text \<open>Decryption inverts encryption under the same conversation key.\<close>

definition v2_roundtrip :: "'x crypto_scheme \<Rightarrow> bool" where
  "v2_roundtrip cr \<longleftrightarrow> (\<forall>n k m c. v2_encrypt cr n k m = Inr c \<longrightarrow> v2_decrypt cr k c = Inr m)"

definition nip44_roundtrip :: "'x crypto_scheme \<Rightarrow> bool" where
  "nip44_roundtrip cr \<longleftrightarrow> (\<forall>n a b m c. sk_from_slice cr a \<longrightarrow> sk_from_slice cr b \<longrightarrow>
     nip44_encrypt cr n a (pk_of_sk cr b) m = Inr c \<longrightarrow>
     nip44_decrypt cr b (pk_of_sk cr a) c = Inr m)"

text \<open>
  The MAC: a ciphertext does not open under another conversation key. In terms of key pairs, the
  conversation key is determined by the unordered pair of public keys.
\<close>

definition v2_authentic :: "'x crypto_scheme \<Rightarrow> bool" where
  "v2_authentic cr \<longleftrightarrow> (\<forall>n k k' m c. v2_encrypt cr n k m = Inr c \<longrightarrow> k' \<noteq> k \<longrightarrow>
     \<not> is_ok (v2_decrypt cr k' c))"

definition nip44_authentic :: "'x crypto_scheme \<Rightarrow> bool" where
  "nip44_authentic cr \<longleftrightarrow> (\<forall>n a b m c b'. nip44_encrypt cr n a (pk_of_sk cr b) m = Inr c \<longrightarrow>
     pk_of_sk cr b' \<noteq> pk_of_sk cr b \<longrightarrow> \<not> is_ok (nip44_decrypt cr b' (pk_of_sk cr a) c))"

definition b64_roundtrip :: "'x crypto_scheme \<Rightarrow> bool" where
  "b64_roundtrip cr \<longleftrightarrow> (\<forall>bs. b64_decode cr (b64_encode cr bs) = Inr bs)"

text \<open>Tweaking the even-Y secret and tweaking the x-only public key agree.\<close>

definition tweak_agrees :: "'x crypto_scheme \<Rightarrow> bool" where
  "tweak_agrees cr \<longleftrightarrow> (\<forall>a t b. sk_from_slice cr a \<longrightarrow>
     pk_add_tweak cr (pk_of_sk cr a) t = Some b \<longrightarrow>
     (\<exists>s. sk_add_tweak cr (if sk_odd_parity cr a then sk_negate cr a else a) t = Some s
        \<and> sk_from_slice cr s \<and> pk_of_sk cr s = b))"

section \<open>Facts about the helpers\<close>

lemma device_pubkey_from_secret_bytes_eq_Inr [result_simps]:
  "device_pubkey_from_secret_bytes cr bs = Inr d \<longleftrightarrow>
     sk_from_slice cr bs \<and> d = DevicePubkey (pk_of_sk cr bs)"
  by (auto simp: device_pubkey_from_secret_bytes_def secret_key_from_bytes_def)

lemma secret_key_from_bytes_eq_Inr [result_simps]:
  "secret_key_from_bytes cr bs = Inr k \<longleftrightarrow> sk_from_slice cr bs \<and> k = bs"
  by (auto simp: secret_key_from_bytes_def)

lemma device_to_nostr_eq_Inr [result_simps]:
  "device_to_nostr cr d = Inr k \<longleftrightarrow> pk_from_slice cr (device_bytes d) \<and> k = device_bytes d"
  by (auto simp: device_to_nostr_def)

lemma secret_key_from_bytes_valid [simp]:
  "sk_from_slice cr bs \<Longrightarrow> secret_key_from_bytes cr bs = Inr bs"
  by (simp add: secret_key_from_bytes_def)

lemma device_pubkey_from_secret_bytes_valid [simp]:
  "sk_from_slice cr bs \<Longrightarrow> device_pubkey_from_secret_bytes cr bs = Inr (DevicePubkey (pk_of_sk cr bs))"
  by (simp add: device_pubkey_from_secret_bytes_def)

lemma device_to_nostr_valid [simp]:
  "keys_ok cr \<Longrightarrow> sk_from_slice cr a \<Longrightarrow>
   device_to_nostr cr (DevicePubkey (pk_of_sk cr a)) = Inr (pk_of_sk cr a)"
  by (simp add: device_to_nostr_def keys_ok_def)

lemma responder_tweak_agrees:
  assumes "keys_ok cr" "dh_symmetric cr" "sk_from_slice cr a" "sk_from_slice cr b"
  shows "responder_tweak cr a (DevicePubkey (pk_of_sk cr b)) p q =
         responder_tweak cr b (DevicePubkey (pk_of_sk cr a)) p q"
  using assms by (simp add: responder_tweak_def dh_symmetric_def)

lemma private_responder_keys_agree:
  assumes "keys_ok cr" "dh_symmetric cr" "tweak_agrees cr"
    and "sk_from_slice cr inviter" "sk_from_slice cr initiator"
    and blinded: "private_responder_public_key cr initiator (DevicePubkey (pk_of_sk cr inviter)) = Inr d"
  obtains s where
    "private_responder_secret_key cr inviter (DevicePubkey (pk_of_sk cr initiator)) = Inr s"
    "sk_from_slice cr s" "d = DevicePubkey (pk_of_sk cr s)"
proof -
  let ?I = "DevicePubkey (pk_of_sk cr inviter)" and ?N = "DevicePubkey (pk_of_sk cr initiator)"
  from blinded assms obtain t b where
    t: "responder_tweak cr initiator ?I ?I ?N = Inr t"
    and b: "pk_add_tweak cr (pk_of_sk cr inviter) t = Some b" "d = DevicePubkey b"
    by (auto simp: private_responder_public_key_def result_simps split: if_splits)
  from \<open>tweak_agrees cr\<close> b(1) \<open>sk_from_slice cr inviter\<close> obtain s where
    "sk_add_tweak cr (if sk_odd_parity cr inviter then sk_negate cr inviter else inviter) t = Some s"
    "sk_from_slice cr s" "pk_of_sk cr s = b"
    unfolding tweak_agrees_def by blast
  moreover have "responder_tweak cr inviter ?N ?I ?N = Inr t"
    using t responder_tweak_agrees [OF assms(1,2,4,5)] by simp
  ultimately show ?thesis
    using that [of s] assms b(2) by (simp add: private_responder_secret_key_def Let_def)
qed

end
