(* ===== verification/Symmetric_Chain.thy ===== *)
theory Symmetric_Chain
  imports Prelude
begin

text \<open>
  Symmetric-key chains. Both the double ratchet session and the group sender key walk a chain of
  keys one message at a time, keep the message keys of numbers they had to skip, and bound what they
  keep by dropping the smallest numbers. The locale \<open>symmetric_chain\<close> describes the skip loop
  of such a component by its two equations and derives, once, what it computes; the session and
  sender-key theories interpret it on their own loops.
\<close>

section \<open>The reference chain\<close>

text \<open>Chain key and message key after a number of steps of a one-step derivation.\<close>

fun chain_at :: "('c \<Rightarrow> 'c \<times> 'k) \<Rightarrow> nat \<Rightarrow> 'c \<Rightarrow> 'c" where
  "chain_at f 0 c = c"
| "chain_at f (Suc n) c = chain_at f n (fst (f c))"

definition key_at :: "('c \<Rightarrow> 'c \<times> 'k) \<Rightarrow> nat \<Rightarrow> 'c \<Rightarrow> 'k" where
  "key_at f n c = snd (f (chain_at f n c))"

lemma chain_at_add: "chain_at f (m + n) c = chain_at f n (chain_at f m c)"
  by (induction m arbitrary: c) auto

lemma chain_at_Suc_outer: "chain_at f (Suc n) c = fst (f (chain_at f n c))"
  using chain_at_add [of f n 1 c] by simp

lemma key_at_Suc: "key_at f (Suc n) c = key_at f n (fst (f c))"
  by (simp add: key_at_def)

lemma key_at_add: "key_at f (m + n) c = key_at f n (chain_at f m c)"
  by (simp add: key_at_def chain_at_add)

section \<open>Pruning to the newest keys\<close>

text \<open>The loop \<^verbatim>\<open>while map.len() > max { remove the first key }\<close>.\<close>

function prune_oldest :: "nat \<Rightarrow> ('k::linorder, 'v) btmap \<Rightarrow> ('k, 'v) btmap" where
  "prune_oldest mx m =
     (if bt_len m > mx
      then case bt_keys m of [] \<Rightarrow> m | first # _ \<Rightarrow> prune_oldest mx (bt_remove first m)
      else m)"
  by pat_completeness auto
termination
proof (relation "measure (\<lambda>(mx, m). bt_len m)")
  fix mx :: nat and m :: "('k::linorder, 'v) btmap" and first rest
  assume "mx < bt_len m" and k: "bt_keys m = first # rest"
  then have "bt_get m first \<noteq> None" using set_bt_keys [of m] by auto
  with \<open>mx < bt_len m\<close>
  show "((mx, bt_remove first m), mx, m) \<in> measure (\<lambda>(mx, m). bt_len m)" by simp
qed simp

declare prune_oldest.simps [simp del]

lemma bt_drop_drop: "bt_drop a (bt_drop b m) = bt_drop (a + b) m"
  by (simp add: bt_eq_iff bt_entries_drop)

lemma prune_oldest_drop: "prune_oldest mx m = bt_drop (bt_len m - mx) m"
proof (induction mx m rule: prune_oldest.induct)
  case (1 mx m)
  show ?case
  proof (cases "bt_len m > mx")
    case True
    then obtain k ks where k: "bt_keys m = k # ks"
      using length_bt_keys [of m] by (cases "bt_keys m") auto
    have "prune_oldest mx m = prune_oldest mx (bt_remove k m)"
      using True k by (simp add: prune_oldest.simps [of mx m])
    also have "\<dots> = bt_drop (bt_len (bt_remove k m) - mx) (bt_remove k m)"
      using 1 True k by simp
    also have "\<dots> = bt_drop (bt_len m - mx) m"
      using True bt_remove_first [OF k] by (simp add: bt_drop_drop Suc_diff_Suc)
    finally show ?thesis .
  next
    case False
    then show ?thesis
      by (simp add: prune_oldest.simps [of mx m] bt_eq_iff bt_entries_drop)
  qed
qed

lemma bt_len_prune_oldest [simp]: "bt_len (prune_oldest mx m) = min mx (bt_len m)"
  by (simp add: prune_oldest_drop)

lemma prune_oldest_id: "bt_len m \<le> mx \<Longrightarrow> prune_oldest mx m = m"
  by (subst prune_oldest.simps) simp

lemma prune_oldest_get: "bt_get (prune_oldest mx m) k = Some v \<Longrightarrow> bt_get m k = Some v"
  unfolding prune_oldest_drop by (rule bt_get_drop_SomeD)

text \<open>What is dropped is older than what is kept.\<close>

lemma prune_oldest_newest:
  assumes kept: "bt_get (prune_oldest mx m) k \<noteq> None"
    and dropped: "bt_get (prune_oldest mx m) k' = None" "bt_get m k' \<noteq> None"
  shows "k' < k"
proof -
  let ?n = "bt_len m - mx" and ?ks = "bt_keys m"
  have split: "?ks = take ?n ?ks @ drop ?n ?ks" by simp
  have keys: "bt_keys (prune_oldest mx m) = drop ?n ?ks"
    by (simp add: prune_oldest_drop bt_keys_def bt_entries_drop drop_map)
  have "k \<in> set (drop ?n ?ks)" using kept keys set_bt_keys [of "prune_oldest mx m"] by auto
  moreover have "k' \<in> set ?ks" "k' \<notin> set (drop ?n ?ks)"
    using dropped keys set_bt_keys [of m] set_bt_keys [of "prune_oldest mx m"] by auto
  then have "k' \<in> set (take ?n ?ks)" using split by (metis UnE set_append)
  moreover have "sorted_wrt (<) (take ?n ?ks @ drop ?n ?ks)"
    using bt_keys_ordered [of m] by simp
  ultimately show ?thesis unfolding sorted_wrt_append by blast
qed

section \<open>The skip loop\<close>

locale symmetric_chain =
  fixes derive :: "'c \<Rightarrow> 'c \<times> 'k"
    and skip :: "u32 \<Rightarrow> 'c \<Rightarrow> u32 \<Rightarrow> (u32, 'k) btmap \<Rightarrow> 'c \<times> u32 \<times> (u32, 'k) btmap"
  assumes skip_stop: "until \<le> n \<Longrightarrow> skip until c n m = (c, n, m)"
    and skip_step: "n < until \<Longrightarrow>
      skip until c n m = skip until (fst (derive c)) (n + 1) (bt_insert n (snd (derive c)) m)"
begin

lemma skip_chain:
  assumes "n \<le> until"
  shows "fst (skip until c n m) = chain_at derive (unat until - unat n) c"
    and "fst (snd (skip until c n m)) = until"
  using assms
proof (induction n arbitrary: c m rule: word_count_induct)
  case stop
  { case 1 show ?case by (simp add: skip_stop)
  next
    case 2 show ?case by (simp add: skip_stop) }
next
  case (step n)
  then have "unat until - unat n = Suc (unat until - unat (n + 1))"
    by (simp add: word_less_nat_alt)
  with step show "fst (skip until c n m) = chain_at derive (unat until - unat n) c"
    and "fst (snd (skip until c n m)) = until" for c m
    by (simp_all add: skip_step)
qed

lemma skip_keys:
  assumes "n \<le> until"
  shows "bt_get (snd (snd (skip until c n m))) k =
    (if n \<le> k \<and> k < until then Some (key_at derive (unat k - unat n) c) else bt_get m k)"
  using assms
proof (induction n arbitrary: c m rule: word_count_induct)
  case stop
  then show ?case by (auto simp: skip_stop)
next
  case (step n)
  consider "k = n" | "k < n" | "n + 1 \<le> k" by (meson inc_le linorder_less_linear)
  then show ?case
  proof cases
    case 1
    then show ?thesis using step by (simp add: skip_step word_le_nat_alt key_at_def)
  next
    case 2
    then show ?thesis using step by (auto simp: skip_step word_le_nat_alt word_less_nat_alt)
  next
    case 3
    then have "n \<noteq> k" "n \<le> k" "unat k - unat n = Suc (unat k - unat (n + 1))"
      using step(3) by (auto simp: word_le_nat_alt)
    then show ?thesis using 3 step by (simp add: skip_step key_at_Suc)
  qed
qed

lemma skip_len:
  assumes "n \<le> until"
  shows "bt_len (snd (snd (skip until c n m))) \<le> bt_len m + (unat until - unat n)"
  using assms
proof (induction n arbitrary: c m rule: word_count_induct)
  case stop
  then show ?case by (simp add: skip_stop)
next
  case (step n)
  have "bt_len (snd (snd (skip until c n m)))
      \<le> bt_len (bt_insert n (snd (derive c)) m) + (unat until - unat (n + 1))"
    unfolding skip_step [OF step(1)] by (rule step.IH)
  also have "\<dots> \<le> bt_len m + (unat until - unat n)"
    using step(1-3) by (auto simp: word_less_nat_alt)
  finally show ?case .
qed

text \<open>Skipping in two stages is skipping once.\<close>

lemma skip_compose:
  assumes "n \<le> mid" "mid \<le> until"
  shows "skip until c n m =
    (let (c', n', m') = skip mid c n m in skip until c' n' m')"
  using assms
proof (induction n arbitrary: c m rule: word_count_induct)
  case stop
  then show ?case by (simp add: skip_stop)
next
  case (step n)
  then have "n < until" by simp
  then show ?case using step by (simp add: skip_step)
qed

end

end
