(* ===== verification/Session_Ratchet.thy ===== *)
theory Session_Ratchet
  imports Protocol_Types Symmetric_Chain
begin

text \<open>
  The double ratchet session (\<^verbatim>\<open>session.rs\<close>): session state, the send and receive plans, the
  root and chain ratchets, skipped message keys and header decryption. A plan is computed on a copy
  of the state and committed by \<open>apply_send\<close> or \<open>apply_receive\<close>; an error leaves the session as
  it was. The counters are the code's \<^verbatim>\<open>u32\<close> with the wrapping addition of a release build.
\<close>

section \<open>State\<close>

record Header =
  number :: u32
  previous_chain_length :: u32
  next_public_key :: DevicePubkey

record SerializableKeyPair =
  public_key :: DevicePubkey
  private_key :: bytes

datatype SkippedKeysEntry = SkippedKeysEntry (message_keys: "(u32, bytes) btmap")

record SessionState =
  metadata_privacy_version :: u8
  root_key :: bytes
  their_current_nostr_public_key :: "DevicePubkey option"
  their_next_nostr_public_key :: "DevicePubkey option"
  our_previous_nostr_key :: "SerializableKeyPair option"
  our_current_nostr_key :: "SerializableKeyPair option"
  our_next_nostr_key :: SerializableKeyPair
  receiving_chain_key :: "bytes option"
  sending_chain_key :: "bytes option"
  sending_chain_message_number :: u32
  receiving_chain_message_number :: u32
  previous_sending_chain_message_count :: u32
  skipped_keys :: "(DevicePubkey, SkippedKeysEntry) btmap"

record MessageEnvelope =
  env_version :: u8
  env_sender :: DevicePubkey
  env_recipient :: "DevicePubkey option"
  env_signer_secret_key :: bytes
  env_created_at :: UnixSeconds
  encrypted_header :: string
  env_ciphertext :: string

record SendPlan =
  send_next_state :: SessionState
  send_envelope :: MessageEnvelope
  send_payload :: bytes

record ReceivePlan =
  receive_next_state :: SessionState
  receive_payload :: bytes
  receive_sender :: DevicePubkey

record Session =
  state :: SessionState
  name :: string

datatype HeaderDecryptionTarget = Current | Next | Previous

text \<open>The JSON codec of the header (\<^verbatim>\<open>serde_json\<close> on the derived implementations).\<close>

record session_crypto = crypto +
  header_to_json :: "Header \<Rightarrow> string res"
  header_from_json :: "string \<Rightarrow> Header res"

section \<open>Construction\<close>

definition session_from_state :: "SessionState \<Rightarrow> Session" where
  "session_from_state st = \<lparr>state = st, name = []\<rparr>"

definition initial_state ::
  "bytes \<Rightarrow> bytes option \<Rightarrow> SerializableKeyPair option \<Rightarrow> SerializableKeyPair \<Rightarrow>
   DevicePubkey \<Rightarrow> SessionState" where
  "initial_state root send_key our_current our_next their_ephemeral_public_key =
     \<lparr>metadata_privacy_version = METADATA_PRIVACY_VERSION,
      root_key = root,
      their_current_nostr_public_key = None,
      their_next_nostr_public_key = Some their_ephemeral_public_key,
      our_previous_nostr_key = None,
      our_current_nostr_key = our_current,
      our_next_nostr_key = our_next,
      receiving_chain_key = None,
      sending_chain_key = send_key,
      sending_chain_message_number = 0,
      receiving_chain_message_number = 0,
      previous_sending_chain_message_count = 0,
      skipped_keys = bt_empty\<rparr>"

definition init_initiator ::
  "'x crypto_scheme \<Rightarrow> bytes list \<Rightarrow> DevicePubkey \<Rightarrow> bytes \<Rightarrow> bytes \<Rightarrow> Session res \<times> bytes list" where
  "init_initiator cr rng their_pub our_priv shared_secret =
     (case private_responder_public_key cr our_priv their_pub of
        Inl e \<Rightarrow> (Inl e, rng)
      | Inr their \<Rightarrow>
        (case secret_key_from_bytes cr our_priv of
           Inl e \<Rightarrow> (Inl e, rng)
         | Inr our_keys \<Rightarrow>
           (case random_secret_key_bytes cr rng of
              (Inl e, rng') \<Rightarrow> (Inl e, rng')
            | (Inr our_next, rng') \<Rightarrow>
              (and_then (secret_key_from_bytes cr our_next) (\<lambda>next_sk.
               and_then (device_to_nostr cr their) (\<lambda>their_pk.
               and_then (ck_derive cr next_sk their_pk) (\<lambda>conversation_key.
                 let out = kdf2 cr shared_secret conversation_key in
                 Inr (session_from_state (initial_state (fst out) (Some (snd out))
                   (Some \<lparr>public_key = DevicePubkey (pk_of_sk cr our_keys), private_key = our_priv\<rparr>)
                   \<lparr>public_key = DevicePubkey (pk_of_sk cr next_sk), private_key = our_next\<rparr>
                   their))))), rng'))))"

definition init_responder ::
  "'x crypto_scheme \<Rightarrow> bytes list \<Rightarrow> DevicePubkey \<Rightarrow> bytes \<Rightarrow> bytes \<Rightarrow> Session res \<times> bytes list" where
  "init_responder cr rng their_pub our_priv shared_secret =
     (case private_responder_secret_key cr our_priv their_pub of
        Inl e \<Rightarrow> (Inl e, rng)
      | Inr blinded \<Rightarrow>
        (case secret_key_from_bytes cr blinded of
           Inl e \<Rightarrow> (Inl e, rng)
         | Inr our_keys \<Rightarrow>
           (case random_secret_key_bytes cr rng of
              (Inl e, rng') \<Rightarrow> (Inl e, rng')
            | (Inr our_next, rng') \<Rightarrow>
              (and_then (secret_key_from_bytes cr our_next) (\<lambda>_.
                 Inr (session_from_state (initial_state shared_secret None None
                   \<lparr>public_key = DevicePubkey (pk_of_sk cr our_keys), private_key = blinded\<rparr>
                   their_pub))), rng'))))"

definition init_with_context ::
  "'x crypto_scheme \<Rightarrow> bytes list \<Rightarrow> DevicePubkey \<Rightarrow> bytes \<Rightarrow> bool \<Rightarrow> bytes \<Rightarrow> Session res \<times> bytes list" where
  "init_with_context cr rng their_pub our_priv is_initiator shared_secret =
     (if is_initiator then init_initiator cr rng their_pub our_priv shared_secret
      else init_responder cr rng their_pub our_priv shared_secret)"

definition new_initiator where
  "new_initiator cr rng their_pub our_priv shared_secret =
     init_with_context cr rng their_pub our_priv True shared_secret"

definition new_responder where
  "new_responder cr rng their_pub our_priv shared_secret =
     init_with_context cr rng their_pub our_priv False shared_secret"

section \<open>Sending\<close>

definition can_send :: "Session \<Rightarrow> bool" where
  "can_send s \<longleftrightarrow> metadata_privacy_version (state s) = METADATA_PRIVACY_VERSION
     \<and> their_next_nostr_public_key (state s) \<noteq> None
     \<and> our_current_nostr_key (state s) \<noteq> None"

definition matches_sender :: "Session \<Rightarrow> DevicePubkey \<Rightarrow> bool" where
  "matches_sender s sender \<longleftrightarrow> metadata_privacy_version (state s) = METADATA_PRIVACY_VERSION
     \<and> (their_current_nostr_public_key (state s) = Some sender
        \<or> their_next_nostr_public_key (state s) = Some sender
        \<or> bt_contains_key (skipped_keys (state s)) sender)"

definition ratchet_encrypt ::
  "'x crypto_scheme \<Rightarrow> nat \<Rightarrow> SessionState \<Rightarrow> bytes \<Rightarrow> (SessionState \<times> Header \<times> string) res" where
  "ratchet_encrypt cr draw st plaintext =
     and_then (ok_or (sending_chain_key st) (Domain SessionNotReady)) (\<lambda>chain_key.
       let out = kdf2 cr chain_key [1];
           header = \<lparr>number = sending_chain_message_number st,
                     previous_chain_length = previous_sending_chain_message_count st,
                     next_public_key = public_key (our_next_nostr_key st)\<rparr>;
           st' = st\<lparr>sending_chain_key := Some (fst out),
                    sending_chain_message_number := sending_chain_message_number st + 1\<rparr>
       in and_then (v2_encrypt cr draw (snd out) plaintext) (\<lambda>encrypted_bytes.
            Inr (st', header, b64_encode cr encrypted_bytes)))"

text \<open>\<^verbatim>\<open>plan_send\<close> draws twice from the operating system: the payload nonce and the header nonce.\<close>

definition plan_send ::
  "'x session_crypto_scheme \<Rightarrow> nat \<Rightarrow> Session \<Rightarrow> bytes \<Rightarrow> UnixSeconds \<Rightarrow> SendPlan res" where
  "plan_send cr draw s payload now =
     (if \<not> can_send s then Inl (Domain CannotSendYet)
      else
        and_then (ratchet_encrypt cr draw (state s) payload) (\<lambda>(next_state, header, ciphertext).
        and_then (ok_or (our_current_nostr_key (state s)) (Domain SessionNotReady)) (\<lambda>our_current.
        and_then (secret_key_from_bytes cr (private_key our_current)) (\<lambda>our_secret.
        and_then (ok_or (their_next_nostr_public_key (state s)) (Domain SessionNotReady)) (\<lambda>their_next.
        and_then (device_to_nostr cr their_next) (\<lambda>their_pk.
        and_then (header_to_json cr header) (\<lambda>json.
        and_then (nip44_encrypt cr (Suc draw) our_secret their_pk json) (\<lambda>enc_header.
          Inr \<lparr>send_next_state = next_state,
               send_envelope = \<lparr>env_version = METADATA_PRIVACY_VERSION,
                                env_sender = public_key our_current,
                                env_recipient = None,
                                env_signer_secret_key = private_key our_current,
                                env_created_at = now,
                                encrypted_header = enc_header,
                                env_ciphertext = ciphertext\<rparr>,
               send_payload = payload\<rparr>))))))))"

definition apply_send :: "Session \<Rightarrow> SendPlan \<Rightarrow> Session \<times> MessageEnvelope \<times> bytes" where
  "apply_send s plan =
     (s\<lparr>state := send_next_state plan\<rparr>, send_envelope plan, send_payload plan)"

section \<open>Receiving\<close>

definition prune_skipped_message_keys :: "(u32, bytes) btmap \<Rightarrow> (u32, bytes) btmap" where
  "prune_skipped_message_keys m = prune_oldest MAX_SKIP m"

function skip_loop ::
  "'x crypto_scheme \<Rightarrow> u32 \<Rightarrow> bytes option \<Rightarrow> u32 \<Rightarrow> (u32, bytes) btmap \<Rightarrow>
   (bytes option \<times> u32 \<times> (u32, bytes) btmap) res" where
  "skip_loop cr until chain n keys =
     (if n < until
      then case chain of
             None \<Rightarrow> Inl (Domain SessionNotReady)
           | Some chain_key \<Rightarrow>
             (let out = kdf2 cr chain_key [1]
              in skip_loop cr until (Some (fst out)) (n + 1) (bt_insert n (snd out) keys))
      else Inr (chain, n, keys))"
  by pat_completeness auto
termination
  by (relation "measure (\<lambda>(cr, until, chain, n, keys). unat until - unat n)")
     (auto simp: word_diff_step)

declare skip_loop.simps [simp del]

definition skip_message_keys ::
  "'x crypto_scheme \<Rightarrow> SessionState \<Rightarrow> u32 \<Rightarrow> DevicePubkey \<Rightarrow> SessionState res" where
  "skip_message_keys cr st until sender =
     (if until \<le> receiving_chain_message_number st then Inr st
      else if unat (until - receiving_chain_message_number st) > MAX_SKIP
      then Inl (Domain TooManySkippedMessages)
      else
        let entry = (case bt_get (skipped_keys st) sender of
                       Some e \<Rightarrow> message_keys e | None \<Rightarrow> bt_empty)
        in and_then (skip_loop cr until (receiving_chain_key st)
                       (receiving_chain_message_number st) entry)
             (\<lambda>(chain, n, keys).
               Inr (st\<lparr>receiving_chain_key := chain,
                       receiving_chain_message_number := n,
                       skipped_keys := bt_insert sender
                         (SkippedKeysEntry (prune_skipped_message_keys keys)) (skipped_keys st)\<rparr>)))"

definition try_skipped_message_keys ::
  "'x crypto_scheme \<Rightarrow> SessionState \<Rightarrow> Header \<Rightarrow> string \<Rightarrow> DevicePubkey \<Rightarrow>
   (SessionState \<times> bytes) option res" where
  "try_skipped_message_keys cr st header ciphertext sender =
     (case bt_get (skipped_keys st) sender of
        None \<Rightarrow> Inr None
      | Some entry \<Rightarrow>
        (case bt_get (message_keys entry) (number header) of
           None \<Rightarrow> Inr None
         | Some message_key \<Rightarrow>
           (let rest = bt_remove (number header) (message_keys entry)
            in and_then (map_err Decryption (b64_decode cr ciphertext)) (\<lambda>ciphertext_bytes.
               and_then (v2_decrypt cr message_key ciphertext_bytes) (\<lambda>plaintext.
                 Inr (Some (st\<lparr>skipped_keys :=
                   (if bt_is_empty rest then bt_remove sender (skipped_keys st)
                    else bt_insert sender (SkippedKeysEntry rest) (skipped_keys st))\<rparr>,
                   plaintext)))))))"

definition ratchet_decrypt ::
  "'x crypto_scheme \<Rightarrow> SessionState \<Rightarrow> Header \<Rightarrow> string \<Rightarrow> DevicePubkey \<Rightarrow>
   (SessionState \<times> bytes) res" where
  "ratchet_decrypt cr st header ciphertext sender =
     and_then (try_skipped_message_keys cr st header ciphertext sender) (\<lambda>hit.
       case hit of
         Some (st', plaintext) \<Rightarrow> Inr (st', plaintext)
       | None \<Rightarrow>
         if receiving_chain_key st = None then Inl (Domain SessionNotReady)
         else and_then (skip_message_keys cr st (number header) sender) (\<lambda>st1.
              and_then (ok_or (receiving_chain_key st1) (Domain SessionNotReady)) (\<lambda>chain_key.
                let out = kdf2 cr chain_key [1];
                    st2 = st1\<lparr>receiving_chain_key := Some (fst out),
                              receiving_chain_message_number :=
                                receiving_chain_message_number st1 + 1\<rparr>
                in and_then (map_err Decryption (b64_decode cr ciphertext)) (\<lambda>ciphertext_bytes.
                   and_then (v2_decrypt cr (snd out) ciphertext_bytes) (\<lambda>plaintext.
                     Inr (st2, plaintext))))))"

definition ratchet_step ::
  "'x crypto_scheme \<Rightarrow> SessionState \<Rightarrow> bytes list \<Rightarrow> SessionState res \<times> bytes list" where
  "ratchet_step cr st rng =
     (case and_then (secret_key_from_bytes cr (private_key (our_next_nostr_key st))) (\<lambda>our_next_sk.
           and_then (ok_or (their_next_nostr_public_key st) (Domain SessionNotReady)) (\<lambda>their_next.
           and_then (device_to_nostr cr their_next) (\<lambda>their_next_pk.
           and_then (ck_derive cr our_next_sk their_next_pk) (\<lambda>conversation_key1.
             Inr (their_next_pk, kdf2 cr (root_key st) conversation_key1))))) of
        Inl e \<Rightarrow> (Inl e, rng)
      | Inr (their_next_pk, out) \<Rightarrow>
        (case random_secret_key_bytes cr rng of
           (Inl e, rng') \<Rightarrow> (Inl e, rng')
         | (Inr our_next_private_key, rng') \<Rightarrow>
           (and_then (device_pubkey_from_secret_bytes cr our_next_private_key) (\<lambda>our_next_public_key.
            and_then (secret_key_from_bytes cr our_next_private_key) (\<lambda>our_next_sk2.
            and_then (ck_derive cr our_next_sk2 their_next_pk) (\<lambda>conversation_key2.
              let out2 = kdf2 cr (fst out) conversation_key2 in
              Inr (st\<lparr>previous_sending_chain_message_count := sending_chain_message_number st,
                      sending_chain_message_number := 0,
                      receiving_chain_message_number := 0,
                      receiving_chain_key := Some (snd out),
                      our_previous_nostr_key := our_current_nostr_key st,
                      our_current_nostr_key := Some (our_next_nostr_key st),
                      our_next_nostr_key := \<lparr>public_key = our_next_public_key,
                                            private_key = our_next_private_key\<rparr>,
                      root_key := fst out2,
                      sending_chain_key := Some (snd out2)\<rparr>)))), rng')))"

definition open_header ::
  "'x session_crypto_scheme \<Rightarrow> bytes \<Rightarrow> DevicePubkey \<Rightarrow> string \<Rightarrow> Header res option res" where
  "open_header cr secret sender enc =
     and_then (secret_key_from_bytes cr secret) (\<lambda>sk.
     and_then (device_to_nostr cr sender) (\<lambda>pk.
       Inr (case nip44_decrypt cr sk pk enc of
              Inr decrypted \<Rightarrow> Some (header_from_json cr decrypted)
            | Inl _ \<Rightarrow> None)))"

definition decrypt_header ::
  "'x session_crypto_scheme \<Rightarrow> SessionState \<Rightarrow> string \<Rightarrow> DevicePubkey \<Rightarrow>
   (Header \<times> HeaderDecryptionTarget) res" where
  "decrypt_header cr st enc sender =
     and_then (case our_current_nostr_key st of
                 None \<Rightarrow> Inr None
               | Some current \<Rightarrow> open_header cr (private_key current) sender enc) (\<lambda>hit.
     case hit of
       Some r \<Rightarrow> and_then r (\<lambda>h. Inr (h, Current))
     | None \<Rightarrow>
       and_then (open_header cr (private_key (our_next_nostr_key st)) sender enc) (\<lambda>hit.
       case hit of
         Some r \<Rightarrow> and_then r (\<lambda>h. Inr (h, Next))
       | None \<Rightarrow>
         and_then (case our_previous_nostr_key st of
                     None \<Rightarrow> Inr None
                   | Some previous \<Rightarrow> open_header cr (private_key previous) sender enc) (\<lambda>hit.
         case hit of
           Some r \<Rightarrow> and_then r (\<lambda>h. Inr (h, Previous))
         | None \<Rightarrow> Inl (Parse ''invalid header''))))"

text \<open>The state changes of \<^verbatim>\<open>plan_receive\<close> between header decryption and payload decryption.\<close>

definition follow_sender_key :: "SessionState \<Rightarrow> Header \<Rightarrow> SessionState" where
  "follow_sender_key st header =
     (if their_next_nostr_public_key st \<noteq> Some (next_public_key header)
      then st\<lparr>their_current_nostr_public_key := their_next_nostr_public_key st,
              their_next_nostr_public_key := Some (next_public_key header)\<rparr>
      else st)"

definition receive_ratchet ::
  "'x crypto_scheme \<Rightarrow> SessionState \<Rightarrow> bytes list \<Rightarrow> Header \<Rightarrow> DevicePubkey option \<Rightarrow>
   SessionState res \<times> bytes list" where
  "receive_ratchet cr st rng header previous_chain_sender =
     (let st1 = follow_sender_key st header in
      case (if receiving_chain_key st1 \<noteq> None
            then and_then (ok_or previous_chain_sender (Domain SessionNotReady)) (\<lambda>skipped_sender.
                   skip_message_keys cr st1 (previous_chain_length header) skipped_sender)
            else Inr st1) of
        Inl e \<Rightarrow> (Inl e, rng)
      | Inr st2 \<Rightarrow> ratchet_step cr st2 rng)"

definition plan_receive ::
  "'x session_crypto_scheme \<Rightarrow> Session \<Rightarrow> bytes list \<Rightarrow> MessageEnvelope \<Rightarrow>
   ReceivePlan res \<times> bytes list" where
  "plan_receive cr s rng envelope =
     (if env_version envelope \<noteq> METADATA_PRIVACY_VERSION \<or> \<not> matches_sender s (env_sender envelope)
      then (Inl (Domain UnexpectedSender), rng)
      else
        let previous_chain_sender = option_or (their_current_nostr_public_key (state s))
                                              (their_next_nostr_public_key (state s))
        in case decrypt_header cr (state s) (encrypted_header envelope) (env_sender envelope) of
             Inl e \<Rightarrow> (Inl e, rng)
           | Inr (header, target) \<Rightarrow>
             (case (if target = Next
                    then receive_ratchet cr (state s) rng header previous_chain_sender
                    else (Inr (state s), rng)) of
                (Inl e, rng') \<Rightarrow> (Inl e, rng')
              | (Inr st, rng') \<Rightarrow>
                (and_then (ratchet_decrypt cr st header (env_ciphertext envelope) (env_sender envelope))
                   (\<lambda>(st', payload).
                     Inr \<lparr>receive_next_state = st', receive_payload = payload,
                          receive_sender = env_sender envelope\<rparr>), rng')))"

definition apply_receive :: "Session \<Rightarrow> ReceivePlan \<Rightarrow> Session \<times> bytes \<times> DevicePubkey" where
  "apply_receive s plan =
     (s\<lparr>state := receive_next_state plan\<rparr>, receive_payload plan, receive_sender plan)"

text \<open>For evaluation, the skip bound as comparisons on machine words and integers.\<close>

lemma skip_bound_word: "unat (w :: u32) > MAX_SKIP \<longleftrightarrow> 1000 < w"
  by (simp add: MAX_SKIP_def word_less_nat_alt)

lemmas skip_message_keys_code [code] = skip_message_keys_def [unfolded skip_bound_word]

lemma prune_skipped_message_keys_code [code]:
  "prune_skipped_message_keys m = bt_drop (nat (int (bt_len m) - 1000)) m"
  by (simp add: prune_skipped_message_keys_def prune_oldest_drop MAX_SKIP_def nat_diff_distrib')

section \<open>The receiving chain\<close>

text \<open>One step of the message chain, and the stored message key of a number.\<close>

abbreviation chain_step :: "'x crypto_scheme \<Rightarrow> bytes \<Rightarrow> bytes \<times> bytes" where
  "chain_step cr ck \<equiv> kdf2 cr ck [1]"

definition skipped_key :: "SessionState \<Rightarrow> DevicePubkey \<Rightarrow> u32 \<Rightarrow> bytes option" where
  "skipped_key st sender k =
     (case bt_get (skipped_keys st) sender of None \<Rightarrow> None | Some e \<Rightarrow> bt_get (message_keys e) k)"

definition skip_run ::
  "'x crypto_scheme \<Rightarrow> u32 \<Rightarrow> bytes \<Rightarrow> u32 \<Rightarrow> (u32, bytes) btmap \<Rightarrow> bytes \<times> u32 \<times> (u32, bytes) btmap" where
  "skip_run cr until c n m =
     (case skip_loop cr until (Some c) n m of Inr (Some c', n', m') \<Rightarrow> (c', n', m') | _ \<Rightarrow> (c, n, m))"

lemma skip_loop_stop: "\<not> n < until \<Longrightarrow> skip_loop cr until c n m = Inr (c, n, m)"
  by (simp add: skip_loop.simps)

lemma skip_loop_step:
  "n < until \<Longrightarrow> skip_loop cr until (Some c) n m =
   skip_loop cr until (Some (fst (chain_step cr c))) (n + 1) (bt_insert n (snd (chain_step cr c)) m)"
  by (subst skip_loop.simps) (simp add: Let_def)

lemma skip_loop_total: "\<exists>c' n' m'. skip_loop cr until (Some c) n m = Inr (Some c', n', m')"
proof (cases "n \<le> until")
  case True
  then show ?thesis
    by (induction n arbitrary: c m rule: word_count_induct)
       (auto simp: skip_loop_stop skip_loop_step)
qed (simp add: skip_loop_stop)

lemma skip_loop_run:
  "skip_loop cr until (Some c) n m =
   (case skip_run cr until c n m of (c', n', m') \<Rightarrow> Inr (Some c', n', m'))"
  using skip_loop_total [of cr until c n m] by (auto simp: skip_run_def)

interpretation session_chain: symmetric_chain "chain_step cr" "skip_run cr" for cr :: "'x crypto_scheme"
proof
  fix until n :: u32 and c m
  show "until \<le> n \<Longrightarrow> skip_run cr until c n m = (c, n, m)"
    by (simp add: skip_run_def skip_loop_stop)
  show "n < until \<Longrightarrow> skip_run cr until c n m =
      skip_run cr until (fst (chain_step cr c)) (n + 1) (bt_insert n (snd (chain_step cr c)) m)"
    using skip_loop_total [of cr until "fst (chain_step cr c)" "n + 1" "bt_insert n (snd (chain_step cr c)) m"]
    by (auto simp: skip_run_def skip_loop_step split: sum.splits option.splits)
qed

text \<open>What a successful skip stores, for any previous content of the sender's entry.\<close>

definition entry_keys :: "SessionState \<Rightarrow> DevicePubkey \<Rightarrow> (u32, bytes) btmap" where
  "entry_keys st sender =
     (case bt_get (skipped_keys st) sender of Some e \<Rightarrow> message_keys e | None \<Rightarrow> bt_empty)"

lemma skipped_key_entry: "skipped_key st sender k = bt_get (entry_keys st sender) k"
  by (simp add: skipped_key_def entry_keys_def split: option.splits)

lemma entry_keys_insert [simp]:
  "entry_keys (st\<lparr>skipped_keys := bt_insert s e m\<rparr>) sender =
     (if sender = s then message_keys e else entry_keys (st\<lparr>skipped_keys := m\<rparr>) sender)"
  by (simp add: entry_keys_def)

lemma skip_message_keys_noop:
  "until \<le> receiving_chain_message_number st \<Longrightarrow> skip_message_keys cr st until sender = Inr st"
  by (simp add: skip_message_keys_def)

lemma skip_message_keys_too_many:
  assumes "unat (receiving_chain_message_number st) + MAX_SKIP < unat until"
  shows "skip_message_keys cr st until sender = Inl (Domain TooManySkippedMessages)"
proof -
  have "\<not> unat until \<le> unat (receiving_chain_message_number st)"
    and "MAX_SKIP < unat until - unat (receiving_chain_message_number st)" using assms by linarith+
  then show ?thesis by (simp add: skip_message_keys_def word_le_nat_alt unat_sub_le)
qed

lemma skip_message_keys_run:
  assumes "receiving_chain_key st = Some c" "receiving_chain_message_number st < until"
    and "unat until \<le> unat (receiving_chain_message_number st) + MAX_SKIP"
  shows "skip_message_keys cr st until sender =
    (case skip_run cr until c (receiving_chain_message_number st) (entry_keys st sender) of
       (c', n', m') \<Rightarrow> Inr (st\<lparr>receiving_chain_key := Some c', receiving_chain_message_number := n',
         skipped_keys := bt_insert sender (SkippedKeysEntry (prune_skipped_message_keys m'))
           (skipped_keys st)\<rparr>))"
proof -
  have "unat (until - receiving_chain_message_number st) \<le> MAX_SKIP"
    using assms(2,3) by (simp add: unat_sub_le le_diff_conv add.commute)
  then show ?thesis using assms(1,2)
    by (simp add: skip_message_keys_def skip_loop_run entry_keys_def [symmetric]
          Let_def case_prod_unfold)
qed

lemma skip_message_keys_cases:
  assumes "skip_message_keys cr st until sender = Inr st'"
  obtains (noop) "until \<le> receiving_chain_message_number st" "st' = st"
  | (skipped) c where "receiving_chain_key st = Some c"
      "receiving_chain_message_number st < until"
      "unat until \<le> unat (receiving_chain_message_number st) + MAX_SKIP"
      "st' = st\<lparr>receiving_chain_key :=
             Some (chain_at (chain_step cr) (unat until - unat (receiving_chain_message_number st)) c),
           receiving_chain_message_number := until,
           skipped_keys := bt_insert sender (SkippedKeysEntry (prune_skipped_message_keys
             (snd (snd (skip_run cr until c (receiving_chain_message_number st) (entry_keys st sender))))))
             (skipped_keys st)\<rparr>"
proof (cases "until \<le> receiving_chain_message_number st")
  case True
  with assms have "st' = st" by (simp add: skip_message_keys_noop)
  with True show ?thesis by (rule noop)
next
  case False
  then have lt: "receiving_chain_message_number st < until" by simp
  have le: "unat until \<le> unat (receiving_chain_message_number st) + MAX_SKIP"
  proof (rule ccontr)
    assume "\<not> ?thesis"
    then show False using assms skip_message_keys_too_many [of st until cr sender] by simp
  qed
  obtain c where c: "receiving_chain_key st = Some c"
  proof (cases "receiving_chain_key st")
    case None
    have "skip_loop cr until None (receiving_chain_message_number st) m =
        Inl (Domain SessionNotReady)" for m
      using lt by (subst skip_loop.simps) simp
    then show ?thesis using assms None lt
      by (auto simp: skip_message_keys_def Let_def split: if_splits)
  qed (use that in blast)
  let ?n = "receiving_chain_message_number st"
  let ?run = "skip_run cr until c ?n (entry_keys st sender)"
  have "fst ?run = chain_at (chain_step cr) (unat until - unat ?n) c" "fst (snd ?run) = until"
    using lt by (simp_all add: session_chain.skip_chain)
  then show ?thesis
    using skipped [OF c lt le] assms
    by (simp add: skip_message_keys_run [OF c lt le] case_prod_unfold)
qed

end
