(* ===== verification/Session_Invariants.thy ===== *)
theory Session_Invariants
  imports Session_Ratchet
begin

text \<open>
  Invariants of the session state, the state machine of a session (creation, committed sends and
  committed receives) with its reachable states.
\<close>

section \<open>The invariant\<close>

definition keypair_ok :: "'x crypto_scheme \<Rightarrow> SerializableKeyPair \<Rightarrow> bool" where
  "keypair_ok cr kp \<longleftrightarrow> sk_from_slice cr (private_key kp)
     \<and> public_key kp = DevicePubkey (pk_of_sk cr (private_key kp))"

definition skipped_ok :: "SessionState \<Rightarrow> bool" where
  "skipped_ok st \<longleftrightarrow> (\<forall>sender e. bt_get (skipped_keys st) sender = Some e \<longrightarrow>
     \<not> bt_is_empty (message_keys e) \<and> bt_len (message_keys e) \<le> MAX_SKIP)"

definition session_inv :: "'x crypto_scheme \<Rightarrow> SessionState \<Rightarrow> bool" where
  "session_inv cr st \<longleftrightarrow> metadata_privacy_version st = METADATA_PRIVACY_VERSION
     \<and> skipped_ok st
     \<and> keypair_ok cr (our_next_nostr_key st)
     \<and> pred_option (keypair_ok cr) (our_current_nostr_key st)
     \<and> pred_option (keypair_ok cr) (our_previous_nostr_key st)
     \<and> their_next_nostr_public_key st \<noteq> None
     \<and> (sending_chain_key st = None \<longleftrightarrow> our_current_nostr_key st = None)"

text \<open>The states the operations derive from a state satisfying the invariant.\<close>

lemma session_inv_cong:
  assumes "session_inv cr st" "skipped_ok st'"
    and "metadata_privacy_version st' = metadata_privacy_version st"
    and "our_next_nostr_key st' = our_next_nostr_key st"
    and "our_current_nostr_key st' = our_current_nostr_key st"
    and "our_previous_nostr_key st' = our_previous_nostr_key st"
    and "their_next_nostr_public_key st' \<noteq> None"
    and "sending_chain_key st' = None \<longleftrightarrow> sending_chain_key st = None"
  shows "session_inv cr st'"
  using assms by (simp add: session_inv_def)

lemma skipped_ok_insert:
  assumes "skipped_ok st" "\<not> bt_is_empty m" "bt_len m \<le> MAX_SKIP"
    and "skipped_keys st' = bt_insert sender (SkippedKeysEntry m) (skipped_keys st)"
  shows "skipped_ok st'"
  using assms by (auto simp: skipped_ok_def)

lemma skipped_ok_remove:
  assumes "skipped_ok st" "skipped_keys st' = bt_remove sender (skipped_keys st)"
  shows "skipped_ok st'"
  using assms by (auto simp: skipped_ok_def)

lemma prune_nonempty:
  assumes "\<not> bt_is_empty m"
  shows "\<not> bt_is_empty (prune_skipped_message_keys m)"
proof -
  have "bt_len m \<noteq> 0" using assms by (simp add: bt_is_empty_iff bt.len_0_iff)
  then have "bt_len (prune_skipped_message_keys m) \<noteq> 0"
    by (simp add: prune_skipped_message_keys_def MAX_SKIP_def)
  then show ?thesis by (simp add: bt_is_empty_iff bt.len_0_iff)
qed

lemma skip_message_keys_frame:
  assumes "skip_message_keys cr st until sender = Inr st'"
  shows "metadata_privacy_version st' = metadata_privacy_version st"
    "our_next_nostr_key st' = our_next_nostr_key st"
    "our_current_nostr_key st' = our_current_nostr_key st"
    "our_previous_nostr_key st' = our_previous_nostr_key st"
    "their_next_nostr_public_key st' = their_next_nostr_public_key st"
    "their_current_nostr_public_key st' = their_current_nostr_public_key st"
    "sending_chain_key st' = sending_chain_key st"
    "root_key st' = root_key st"
    "sending_chain_message_number st' = sending_chain_message_number st"
    "previous_sending_chain_message_count st' = previous_sending_chain_message_count st"
  using assms by (auto elim!: skip_message_keys_cases)

lemma skip_run_nonempty:
  assumes "n < until"
  shows "\<not> bt_is_empty (snd (snd (skip_run cr until c n m)))"
proof -
  have "n \<le> until" using assms by simp
  then have "bt_get (snd (snd (skip_run cr until c n m))) n \<noteq> None"
    using assms by (simp add: session_chain.skip_keys)
  then show ?thesis by (auto simp: bt_is_empty_get)
qed

lemma skip_message_keys_ok:
  assumes "skip_message_keys cr st until sender = Inr st'" "skipped_ok st"
  shows "skipped_ok st'"
  using assms(1)
proof (cases rule: skip_message_keys_cases)
  case noop
  then show ?thesis using assms(2) by simp
next
  case (skipped c)
  let ?m = "snd (snd (skip_run cr until c (receiving_chain_message_number st) (entry_keys st sender)))"
  show ?thesis
  proof (rule skipped_ok_insert [OF assms(2)])
    show "\<not> bt_is_empty (prune_skipped_message_keys ?m)"
      using skipped(2) by (intro prune_nonempty skip_run_nonempty)
    show "bt_len (prune_skipped_message_keys ?m) \<le> MAX_SKIP"
      by (simp add: prune_skipped_message_keys_def)
  qed (simp add: skipped(4))
qed

lemma try_skipped_cases:
  assumes "try_skipped_message_keys cr st header ct sender = Inr (Some (st', p))"
  obtains e key bs where "bt_get (skipped_keys st) sender = Some e"
    "bt_get (message_keys e) (number header) = Some key"
    "b64_decode cr ct = Inr bs" "v2_decrypt cr key bs = Inr p"
    "st' = st\<lparr>skipped_keys :=
       (if bt_is_empty (bt_remove (number header) (message_keys e)) then bt_remove sender (skipped_keys st)
        else bt_insert sender (SkippedKeysEntry (bt_remove (number header) (message_keys e))) (skipped_keys st))\<rparr>"
  using assms
  by (auto simp: try_skipped_message_keys_def Let_def result_simps split: option.splits)

lemma try_skipped_none:
  "skipped_key st sender (number header) = None \<Longrightarrow>
   try_skipped_message_keys cr st header ct sender = Inr None"
  by (auto simp: try_skipped_message_keys_def skipped_key_def split: option.splits)

lemma try_skipped_None_iff:
  "try_skipped_message_keys cr st header ct sender = Inr None \<longleftrightarrow>
   skipped_key st sender (number header) = None"
  by (auto simp: try_skipped_message_keys_def skipped_key_def Let_def result_simps
        split: option.splits)

lemma ratchet_decrypt_cases:
  assumes "ratchet_decrypt cr st header ct sender = Inr (st', p)"
  obtains (hit) "try_skipped_message_keys cr st header ct sender = Inr (Some (st', p))"
  | (advance) st1 c bs where "skipped_key st sender (number header) = None"
      "skip_message_keys cr st (number header) sender = Inr st1"
      "receiving_chain_key st1 = Some c" "b64_decode cr ct = Inr bs"
      "v2_decrypt cr (snd (chain_step cr c)) bs = Inr p"
      "st' = st1\<lparr>receiving_chain_key := Some (fst (chain_step cr c)),
               receiving_chain_message_number := receiving_chain_message_number st1 + 1\<rparr>"
proof -
  from assms obtain x where x: "try_skipped_message_keys cr st header ct sender = Inr x"
    by (auto simp: ratchet_decrypt_def result_simps)
  show ?thesis
  proof (cases x)
    case None
    then have "skipped_key st sender (number header) = None" using x by (simp add: try_skipped_None_iff)
    then show ?thesis
      using advance assms x None
      by (auto simp: ratchet_decrypt_def Let_def result_simps split: if_splits)
  next
    case (Some y)
    then show ?thesis using hit assms x by (cases y) (simp add: ratchet_decrypt_def)
  qed
qed

lemma try_skipped_ok:
  assumes "try_skipped_message_keys cr st header ct sender = Inr (Some (st', p))" "skipped_ok st"
  shows "skipped_ok st'"
  using assms(1)
proof (cases rule: try_skipped_cases)
  case (1 e key bs)
  let ?rest = "bt_remove (number header) (message_keys e)"
  have "bt_len (message_keys e) \<le> MAX_SKIP" using assms(2) 1(1) by (auto simp: skipped_ok_def)
  then have "bt_len ?rest \<le> MAX_SKIP" by simp linarith
  then show ?thesis
    using 1(5) assms(2)
    by (cases "bt_is_empty ?rest")
       (simp_all add: skipped_ok_insert [OF assms(2)] skipped_ok_remove [OF assms(2)])
qed

lemma ratchet_decrypt_inv:
  assumes "ratchet_decrypt cr st header ct sender = Inr (st', p)" "session_inv cr st"
  shows "session_inv cr st'"
  using assms(1)
proof (cases rule: ratchet_decrypt_cases)
  case hit
  from hit have "skipped_ok st'" using assms(2) by (simp add: try_skipped_ok session_inv_def)
  moreover from hit obtain m where "st' = st\<lparr>skipped_keys := m\<rparr>" by (rule try_skipped_cases)
  ultimately show ?thesis using assms(2) by (simp add: session_inv_def)
next
  case (advance st1 c bs)
  have "skipped_ok st1" using advance(2) assms(2) by (simp add: skip_message_keys_ok session_inv_def)
  then have "skipped_ok st'" by (simp add: advance(6) skipped_ok_def)
  then show ?thesis
    using assms(2) skip_message_keys_frame [OF advance(2)] advance(6) by (simp add: session_inv_def)
qed

lemma ratchet_step_cases:
  assumes "ratchet_step cr st rng = (Inr st', rng')"
  obtains their_next c1 next_key c2 where
    "their_next_nostr_public_key st = Some their_next"
    "sk_from_slice cr (private_key (our_next_nostr_key st))"
    "ck_derive cr (private_key (our_next_nostr_key st)) (device_bytes their_next) = Inr c1"
    "random_secret_key_bytes cr rng = (Inr next_key, rng')"
    "sk_from_slice cr next_key"
    "ck_derive cr next_key (device_bytes their_next) = Inr c2"
    "st' = st\<lparr>previous_sending_chain_message_count := sending_chain_message_number st,
              sending_chain_message_number := 0,
              receiving_chain_message_number := 0,
              receiving_chain_key := Some (snd (kdf2 cr (root_key st) c1)),
              our_previous_nostr_key := our_current_nostr_key st,
              our_current_nostr_key := Some (our_next_nostr_key st),
              our_next_nostr_key := \<lparr>public_key = DevicePubkey (pk_of_sk cr next_key),
                                    private_key = next_key\<rparr>,
              root_key := fst (kdf2 cr (fst (kdf2 cr (root_key st) c1)) c2),
              sending_chain_key := Some (snd (kdf2 cr (fst (kdf2 cr (root_key st) c1)) c2))\<rparr>"
  using assms
  by (auto simp: ratchet_step_def Let_def result_simps split: sum.splits prod.splits)

lemma ratchet_step_inv:
  assumes "ratchet_step cr st rng = (Inr st', rng')" "session_inv cr st"
  shows "session_inv cr st'"
  using assms(1)
proof (cases rule: ratchet_step_cases)
  case (1 their_next c1 next_key c2)
  then show ?thesis using assms(2) by (simp add: session_inv_def keypair_ok_def skipped_ok_def)
qed

lemma follow_sender_key_inv: "session_inv cr st \<Longrightarrow> session_inv cr (follow_sender_key st header)"
  by (simp add: follow_sender_key_def session_inv_def skipped_ok_def)

lemma receive_ratchet_inv:
  assumes "receive_ratchet cr st rng header prev = (Inr st', rng')" "session_inv cr st"
  shows "session_inv cr st'"
proof -
  let ?st1 = "follow_sender_key st header"
  from assms(1) obtain st2 where
    st2: "st2 = ?st1 \<or> (\<exists>s. skip_message_keys cr ?st1 (previous_chain_length header) s = Inr st2)"
    and step: "ratchet_step cr st2 rng = (Inr st', rng')"
    by (auto simp: receive_ratchet_def Let_def result_simps split: sum.splits if_splits)
  have inv1: "session_inv cr ?st1" using assms(2) by (rule follow_sender_key_inv)
  have "session_inv cr st2"
    using st2
  proof
    assume "\<exists>s. skip_message_keys cr ?st1 (previous_chain_length header) s = Inr st2"
    then obtain s where s: "skip_message_keys cr ?st1 (previous_chain_length header) s = Inr st2" ..
    have "skipped_ok ?st1" using inv1 by (simp add: session_inv_def)
    with s have "skipped_ok st2" by (rule skip_message_keys_ok)
    then show ?thesis using inv1 skip_message_keys_frame [OF s] by (simp add: session_inv_def)
  qed (use inv1 in simp)
  with step show ?thesis by (rule ratchet_step_inv)
qed

lemma plan_receive_cases:
  assumes "plan_receive cr s rng env = (Inr plan, rng')"
  obtains header target st st' p where
    "env_version env = METADATA_PRIVACY_VERSION" "matches_sender s (env_sender env)"
    "decrypt_header cr (state s) (encrypted_header env) (env_sender env) = Inr (header, target)"
    "(if target = Next
      then receive_ratchet cr (state s) rng header
             (option_or (their_current_nostr_public_key (state s)) (their_next_nostr_public_key (state s)))
      else (Inr (state s), rng)) = (Inr st, rng')"
    "ratchet_decrypt cr st header (env_ciphertext env) (env_sender env) = Inr (st', p)"
    "plan = \<lparr>receive_next_state = st', receive_payload = p, receive_sender = env_sender env\<rparr>"
proof -
  from assms have ok: "env_version env = METADATA_PRIVACY_VERSION" "matches_sender s (env_sender env)"
    by (auto simp: plan_receive_def split: if_splits)
  with assms obtain header target where
    h: "decrypt_header cr (state s) (encrypted_header env) (env_sender env) = Inr (header, target)"
    by (auto simp: plan_receive_def Let_def split: sum.splits)
  let ?r = "if target = Next
      then receive_ratchet cr (state s) rng header
             (option_or (their_current_nostr_public_key (state s)) (their_next_nostr_public_key (state s)))
      else (Inr (state s), rng)"
  obtain r rng1 where r: "?r = (r, rng1)" by force
  with assms ok h obtain st where st: "r = Inr st" and "rng1 = rng'"
    and "and_then (ratchet_decrypt cr st header (env_ciphertext env) (env_sender env))
       (\<lambda>(st', p). Inr \<lparr>receive_next_state = st', receive_payload = p,
          receive_sender = env_sender env\<rparr>) = Inr plan"
    by (cases r) (simp_all add: plan_receive_def Let_def del: if_split)
  then obtain st' p where "ratchet_decrypt cr st header (env_ciphertext env) (env_sender env) = Inr (st', p)"
    "plan = \<lparr>receive_next_state = st', receive_payload = p, receive_sender = env_sender env\<rparr>"
    by (auto simp: result_simps)
  with that [OF ok h] r st \<open>rng1 = rng'\<close> show ?thesis by blast
qed

lemma plan_receive_inv:
  assumes "plan_receive cr s rng env = (Inr plan, rng')" "session_inv cr (state s)"
  shows "session_inv cr (receive_next_state plan)"
  using assms(1)
proof (cases rule: plan_receive_cases)
  case (1 header target st st' p)
  have "session_inv cr st"
    using 1(4) assms(2) by (auto split: if_splits intro: receive_ratchet_inv)
  with 1(5,6) show ?thesis by (auto dest: ratchet_decrypt_inv)
qed

lemma plan_send_cases:
  assumes "plan_send cr draw s payload now = Inr plan"
  obtains kp chain their_next enc json c where
    "can_send s" "our_current_nostr_key (state s) = Some kp" "sk_from_slice cr (private_key kp)"
    "their_next_nostr_public_key (state s) = Some their_next"
    "sending_chain_key (state s) = Some chain"
    "v2_encrypt cr draw (snd (chain_step cr chain)) payload = Inr c"
    "header_to_json cr \<lparr>number = sending_chain_message_number (state s),
        previous_chain_length = previous_sending_chain_message_count (state s),
        next_public_key = public_key (our_next_nostr_key (state s))\<rparr> = Inr json"
    "nip44_encrypt cr (Suc draw) (private_key kp) (device_bytes their_next) json = Inr enc"
    "plan = \<lparr>send_next_state = (state s)\<lparr>sending_chain_key := Some (fst (chain_step cr chain)),
                 sending_chain_message_number := sending_chain_message_number (state s) + 1\<rparr>,
             send_envelope = \<lparr>env_version = METADATA_PRIVACY_VERSION, env_sender = public_key kp,
                 env_recipient = None, env_signer_secret_key = private_key kp, env_created_at = now,
                 encrypted_header = enc, env_ciphertext = b64_encode cr c\<rparr>,
             send_payload = payload\<rparr>"
  using assms
  by (auto simp: plan_send_def ratchet_encrypt_def Let_def result_simps split: if_splits)

lemma plan_send_inv:
  assumes "plan_send cr draw s payload now = Inr plan" "session_inv cr (state s)"
  shows "session_inv cr (send_next_state plan)"
  using assms(1)
proof (cases rule: plan_send_cases)
  case (1 kp chain their_next enc json c)
  then show ?thesis using assms(2) by (simp add: session_inv_def skipped_ok_def)
qed

lemma initial_state_inv:
  assumes "keypair_ok cr our_next" "pred_option (keypair_ok cr) our_current"
    and "send_key = None \<longleftrightarrow> our_current = None"
  shows "session_inv cr (initial_state root send_key our_current our_next their)"
  using assms by (simp add: initial_state_def session_inv_def skipped_ok_def)

lemma init_with_context_inv:
  assumes "init_with_context cr rng their our is_initiator shared = (Inr s, rng')"
  shows "session_inv cr (state s)"
proof (cases is_initiator)
  case True
  with assms show ?thesis
    by (auto simp: init_with_context_def init_initiator_def Let_def result_simps session_from_state_def
          keypair_ok_def intro!: initial_state_inv split: sum.splits prod.splits)
next
  case False
  with assms show ?thesis
    by (auto simp: init_with_context_def init_responder_def result_simps session_from_state_def
          keypair_ok_def intro!: initial_state_inv split: sum.splits prod.splits)
qed

section \<open>The session as a state machine\<close>

text \<open>One committed operation on a session.\<close>

inductive session_step :: "'x session_crypto_scheme \<Rightarrow> Session \<Rightarrow> Session \<Rightarrow> bool"
  for cr :: "'x session_crypto_scheme" where
  send: "plan_send cr draw s payload now = Inr plan \<Longrightarrow> session_step cr s (fst (apply_send s plan))"
| receive: "plan_receive cr s rng env = (Inr plan, rng') \<Longrightarrow> session_step cr s (fst (apply_receive s plan))"

inductive session_reachable :: "'x session_crypto_scheme \<Rightarrow> Session \<Rightarrow> bool"
  for cr :: "'x session_crypto_scheme" where
  start: "init_with_context cr rng their our is_initiator shared = (Inr s, rng') \<Longrightarrow>
     session_reachable cr s"
| step: "session_reachable cr s \<Longrightarrow> session_step cr s s' \<Longrightarrow> session_reachable cr s'"

inductive_cases session_step_elim: "session_step cr s s'"

lemma session_step_inv:
  assumes "session_step cr s s'" "session_inv cr (state s)"
  shows "session_inv cr (state s')"
  using assms
  by (auto elim!: session_step_elim simp: apply_send_def apply_receive_def
        intro: plan_send_inv plan_receive_inv)

lemma session_reachable_inv: "session_reachable cr s \<Longrightarrow> session_inv cr (state s)"
proof (induction rule: session_reachable.induct)
  case (start rng their our is_initiator shared s rng')
  then show ?case by (rule init_with_context_inv)
next
  case (step s s')
  from step.hyps(2) step.IH show ?case by (rule session_step_inv)
qed

section \<open>What decryption leaves alone\<close>

lemma ratchet_decrypt_frame:
  assumes "ratchet_decrypt cr st header ct sender = Inr (st', p)"
  shows "our_current_nostr_key st' = our_current_nostr_key st"
    "our_next_nostr_key st' = our_next_nostr_key st"
    "our_previous_nostr_key st' = our_previous_nostr_key st"
    "their_current_nostr_public_key st' = their_current_nostr_public_key st"
    "their_next_nostr_public_key st' = their_next_nostr_public_key st"
    "metadata_privacy_version st' = metadata_privacy_version st"
    "sending_chain_key st' = sending_chain_key st"
    "sending_chain_message_number st' = sending_chain_message_number st"
    "root_key st' = root_key st"
    "previous_sending_chain_message_count st' = previous_sending_chain_message_count st"
  using assms skip_message_keys_frame [of cr st "number header" sender]
  by (auto elim!: ratchet_decrypt_cases try_skipped_cases)

lemma decrypt_header_current:
  assumes "our_current_nostr_key st = Some kp"
    and "open_header cr (private_key kp) sender enc = Inr (Some (Inr h))"
  shows "decrypt_header cr st enc sender = Inr (h, Current)"
  using assms by (simp add: decrypt_header_def)

end
