(* ===== verification/Session_Sync.thy ===== *)
theory Session_Sync
  imports Session_Invariants
begin

text \<open>
  Two sessions that talk to each other. \<open>receives_chain\<close> relates a receiver to the chain a sender
  produces: which message keys it has consumed, stored and not yet derived. On top of it, messages
  of one chain are decrypted in any order of delivery, and a first message of a new chain makes the
  receiver ratchet into step with the sender and leaves the two ready for the reply.
\<close>

section \<open>One chain, any order\<close>

definition receives_chain ::
  "'x crypto_scheme \<Rightarrow> DevicePubkey \<Rightarrow> bytes \<Rightarrow> u32 set \<Rightarrow> SessionState \<Rightarrow> bool" where
  "receives_chain cr sender ck R st \<longleftrightarrow>
     (let n = receiving_chain_message_number st in
      receiving_chain_key st = Some (chain_at (chain_step cr) (unat n) ck)
      \<and> (\<forall>k. skipped_key st sender k =
           (if k < n \<and> k \<notin> R then Some (key_at (chain_step cr) (unat k) ck) else None))
      \<and> (\<forall>k \<in> R. k < n) \<and> unat n \<le> MAX_SKIP)"

lemma receives_chain_step:
  assumes rc: "receives_chain cr sender ck R st"
    and "k \<notin> R" "receiving_chain_message_number st \<le> k" "unat k < MAX_SKIP"
    and ct: "b64_decode cr ct = Inr bs" "v2_decrypt cr (key_at (chain_step cr) (unat k) ck) bs = Inr p"
    and "number header = k"
  obtains st' where "ratchet_decrypt cr st header ct sender = Inr (st', p)"
    "receives_chain cr sender ck (insert k R) st'"
proof -
  let ?n = "receiving_chain_message_number st" and ?f = "chain_step cr"
  have Sk: "unat (k + 1) = Suc (unat k)"
    using assms(4) by (simp add: unat_word_ariths MAX_SKIP_def)
  have key: "receiving_chain_key st = Some (chain_at ?f (unat ?n) ck)"
    and stored: "\<And>j. skipped_key st sender j =
          (if j < ?n \<and> j \<notin> R then Some (key_at ?f (unat j) ck) else None)"
    and R: "\<And>j. j \<in> R \<Longrightarrow> j < ?n"
    using rc by (auto simp: receives_chain_def Let_def)
  have none: "skipped_key st sender k = None" using stored [of k] assms(3) by auto
  have "\<exists>st1. skip_message_keys cr st k sender = Inr st1
    \<and> receiving_chain_key st1 = Some (chain_at ?f (unat k) ck)
    \<and> receiving_chain_message_number st1 = k
    \<and> (\<forall>j. skipped_key st1 sender j =
          (if j < k \<and> j \<notin> R then Some (key_at ?f (unat j) ck) else None))"
  proof (cases "?n = k")
    case True
    then show ?thesis using key stored by (simp add: skip_message_keys_noop)
  next
    case False
    then have lt: "?n < k" using assms(3) by simp
    have gap: "unat k \<le> unat ?n + MAX_SKIP" using assms(4) by simp
    let ?m = "snd (snd (skip_run cr k (chain_at ?f (unat ?n) ck) ?n (entry_keys st sender)))"
    have get: "bt_get ?m j = (if j < k \<and> j \<notin> R then Some (key_at ?f (unat j) ck) else None)" for j
      using lt stored [of j] R [of j]
      by (auto simp: session_chain.skip_keys skipped_key_entry [symmetric] key_at_add [symmetric]
            word_le_nat_alt word_less_nat_alt)
    have "{j. bt_get ?m j \<noteq> None} \<subseteq> {..<k}" using get by (auto split: if_splits)
    then have "bt_len ?m \<le> card {..<k}" unfolding bt_len_card by (rule card_mono [rotated]) simp
    also have "\<dots> = card (unat ` {..<k})" by (subst card_image) (auto simp: inj_on_def word_unat_eq_iff)
    also have "\<dots> \<le> card {..<unat k}"
      by (rule card_mono) (auto simp: word_less_nat_alt)
    finally have "bt_len ?m \<le> MAX_SKIP" using assms(4) by simp
    then have prune: "prune_skipped_message_keys ?m = ?m"
      by (simp add: prune_skipped_message_keys_def prune_oldest_id)
    have run: "fst (skip_run cr k (chain_at ?f (unat ?n) ck) ?n (entry_keys st sender)) =
        chain_at ?f (unat k) ck"
    proof -
      have "?n \<le> k" "unat ?n + (unat k - unat ?n) = unat k"
        using lt by (auto simp: word_less_nat_alt word_le_nat_alt)
      then show ?thesis by (simp add: session_chain.skip_chain(1) chain_at_add [symmetric])
    qed
    have "fst (snd (skip_run cr k (chain_at ?f (unat ?n) ck) ?n (entry_keys st sender))) = k"
      using lt by (simp add: session_chain.skip_chain)
    with run prune get show ?thesis
      by (simp add: skip_message_keys_run [OF key lt gap] case_prod_unfold skipped_key_entry)
  qed
  then obtain st1 where st1: "skip_message_keys cr st k sender = Inr st1"
    "receiving_chain_key st1 = Some (chain_at ?f (unat k) ck)"
    "receiving_chain_message_number st1 = k"
    "\<And>j. skipped_key st1 sender j =
          (if j < k \<and> j \<notin> R then Some (key_at ?f (unat j) ck) else None)" by blast
  let ?st' = "st1\<lparr>receiving_chain_key := Some (fst (?f (chain_at ?f (unat k) ck))),
                  receiving_chain_message_number := k + 1\<rparr>"
  have lt_iff: "j < k + 1 \<longleftrightarrow> j < k \<or> j = k" for j
    using Sk by (auto simp: word_less_nat_alt word_unat_eq_iff)
  have sk: "skipped_key ?st' sender j = skipped_key st1 sender j" for j
    by (simp add: skipped_key_def)
  have Rk: "j < k" if "j \<in> R" for j using R [OF that] assms(3) by (rule order_less_le_trans)
  have "ratchet_decrypt cr st header ct sender = Inr (?st', p)"
    using key none st1 ct assms(7)
    by (simp add: ratchet_decrypt_def try_skipped_none key_at_def Let_def)
  moreover have "receives_chain cr sender ck (insert k R) ?st'"
    unfolding receives_chain_def Let_def
    using st1(4) Sk Rk assms(4) chain_at_Suc_outer [of ?f "unat k" ck]
    by (auto simp: sk lt_iff)
  ultimately show ?thesis using that by blast
qed

lemma receives_chain_late:
  assumes rc: "receives_chain cr sender ck R st"
    and "k \<notin> R" "k < receiving_chain_message_number st"
    and ct: "b64_decode cr ct = Inr bs" "v2_decrypt cr (key_at (chain_step cr) (unat k) ck) bs = Inr p"
    and "number header = k"
  obtains st' where "ratchet_decrypt cr st header ct sender = Inr (st', p)"
    "receives_chain cr sender ck (insert k R) st'"
proof -
  have "skipped_key st sender k = Some (key_at (chain_step cr) (unat k) ck)"
    using rc assms(2,3) by (simp add: receives_chain_def Let_def)
  then obtain e where e: "bt_get (skipped_keys st) sender = Some e"
    "bt_get (message_keys e) k = Some (key_at (chain_step cr) (unat k) ck)"
    by (auto simp: skipped_key_def split: option.splits)
  let ?rest = "bt_remove k (message_keys e)"
  let ?st' = "st\<lparr>skipped_keys := if bt_is_empty ?rest then bt_remove sender (skipped_keys st)
       else bt_insert sender (SkippedKeysEntry ?rest) (skipped_keys st)\<rparr>"
  have sk: "skipped_key ?st' sender j = (if j = k then None else skipped_key st sender j)" for j
    using e by (auto simp: skipped_key_def bt_is_empty_get)
  have "try_skipped_message_keys cr st header ct sender = Inr (Some (?st', p))"
    using e ct assms(6) by (simp add: try_skipped_message_keys_def Let_def)
  then have "ratchet_decrypt cr st header ct sender = Inr (?st', p)"
    by (simp add: ratchet_decrypt_def)
  moreover have "receives_chain cr sender ck (insert k R) ?st'"
    using rc assms(3) by (auto simp: receives_chain_def Let_def sk)
  ultimately show ?thesis using that by blast
qed

lemma receives_chain_deliver:
  assumes "receives_chain cr sender ck R st" "k \<notin> R" "unat k < MAX_SKIP"
    and "b64_decode cr ct = Inr bs" "v2_decrypt cr (key_at (chain_step cr) (unat k) ck) bs = Inr p"
    and "number header = k"
  obtains st' where "ratchet_decrypt cr st header ct sender = Inr (st', p)"
    "receives_chain cr sender ck (insert k R) st'"
proof (cases "k < receiving_chain_message_number st")
  case True
  then show ?thesis using receives_chain_late [OF assms(1,2) _ assms(4,5,6)] that by metis
next
  case False
  then show ?thesis using receives_chain_step [OF assms(1,2) _ assms(3,4,5,6)] that by (metis leI)
qed

lemma receives_chain_in_order:
  assumes rc: "receives_chain cr sender ck R st"
    and d: "ratchet_decrypt cr st header ct sender = Inr (st', p)"
    and h: "number header = receiving_chain_message_number st"
  shows "receiving_chain_message_number st' = receiving_chain_message_number st + 1
    \<and> skipped_keys st' = skipped_keys st"
  using d
proof (cases rule: ratchet_decrypt_cases)
  case hit
  have "skipped_key st sender (number header) = None"
    using rc h by (simp add: receives_chain_def Let_def)
  then show ?thesis using hit by (auto elim!: try_skipped_cases simp: skipped_key_def)
next
  case (advance st1 c bs)
  then show ?thesis using h by (simp add: skip_message_keys_noop)
qed

section \<open>Envelopes of a chain\<close>

definition header_roundtrip :: "'x session_crypto_scheme \<Rightarrow> bool" where
  "header_roundtrip cr \<longleftrightarrow> (\<forall>h j. header_to_json cr h = Inr j \<longrightarrow> header_from_json cr j = Inr h)"

text \<open>The laws of the crates that delivery relies on.\<close>

definition delivery_crypto :: "'x session_crypto_scheme \<Rightarrow> bool" where
  "delivery_crypto cr \<longleftrightarrow> keys_ok cr \<and> dh_symmetric cr \<and> v2_roundtrip cr \<and> nip44_roundtrip cr
     \<and> nip44_authentic cr \<and> b64_roundtrip cr \<and> header_roundtrip cr"

abbreviation key_pair :: "'x crypto_scheme \<Rightarrow> bytes \<Rightarrow> SerializableKeyPair" where
  "key_pair cr sk \<equiv> \<lparr>public_key = DevicePubkey (pk_of_sk cr sk), private_key = sk\<rparr>"

text \<open>
  \<open>sends_chain\<close>: the sender's half of \<open>receives_chain\<close>; \<open>chain_envelope\<close>: message number \<open>k\<close> of
  the chain with payload \<open>p\<close>, addressed from the key pair of \<open>sa\<close> to that of \<open>sb\<close>.
\<close>

definition sends_chain ::
  "'x crypto_scheme \<Rightarrow> bytes \<Rightarrow> bytes \<Rightarrow> bytes \<Rightarrow> SessionState \<Rightarrow> bool" where
  "sends_chain cr sa sb ck st \<longleftrightarrow> sk_from_slice cr sa \<and> sk_from_slice cr sb
     \<and> our_current_nostr_key st = Some (key_pair cr sa)
     \<and> their_next_nostr_public_key st = Some (DevicePubkey (pk_of_sk cr sb))
     \<and> sending_chain_key st = Some (chain_at (chain_step cr) (unat (sending_chain_message_number st)) ck)"

definition chain_header :: "SessionState \<Rightarrow> Header" where
  "chain_header st = \<lparr>number = sending_chain_message_number st,
     previous_chain_length = previous_sending_chain_message_count st,
     next_public_key = public_key (our_next_nostr_key st)\<rparr>"

definition chain_envelope ::
  "'x session_crypto_scheme \<Rightarrow> bytes \<Rightarrow> bytes \<Rightarrow> bytes \<Rightarrow> Header \<Rightarrow> bytes \<Rightarrow> MessageEnvelope \<Rightarrow> bool" where
  "chain_envelope cr sa sb ck header p env \<longleftrightarrow>
     env_version env = METADATA_PRIVACY_VERSION
     \<and> env_sender env = DevicePubkey (pk_of_sk cr sa)
     \<and> open_header cr sb (env_sender env) (encrypted_header env) = Inr (Some (Inr header))
     \<and> (\<forall>b. sk_from_slice cr b \<longrightarrow> pk_of_sk cr b \<noteq> pk_of_sk cr sb \<longrightarrow>
          open_header cr b (env_sender env) (encrypted_header env) = Inr None)
     \<and> (\<exists>bs. b64_decode cr (env_ciphertext env) = Inr bs
          \<and> v2_decrypt cr (key_at (chain_step cr) (unat (number header)) ck) bs = Inr p)"

lemma plan_send_envelope:
  assumes "delivery_crypto cr" "sends_chain cr sa sb ck (state s)"
    and "plan_send cr draw s p now = Inr plan"
  shows "chain_envelope cr sa sb ck (chain_header (state s)) p (send_envelope plan)"
  using assms(3)
proof (cases rule: plan_send_cases)
  case (1 kp chain their_next enc json c)
  have crypto: "keys_ok cr" "v2_roundtrip cr" "nip44_roundtrip cr" "nip44_authentic cr"
      "b64_roundtrip cr" "header_roundtrip cr" using assms(1) by (simp_all add: delivery_crypto_def)
  have link: "sk_from_slice cr sa" "sk_from_slice cr sb" "kp = key_pair cr sa"
      "their_next = DevicePubkey (pk_of_sk cr sb)"
      "chain = chain_at (chain_step cr) (unat (sending_chain_message_number (state s))) ck"
    using assms(2) 1 by (simp_all add: sends_chain_def)
  have enc: "nip44_encrypt cr (Suc draw) sa (pk_of_sk cr sb) json = Inr enc" using 1(8) link by simp
  have "header_from_json cr json = Inr (chain_header (state s))"
    using crypto(6) 1(7) by (simp add: header_roundtrip_def chain_header_def)
  moreover have "nip44_decrypt cr sb (pk_of_sk cr sa) enc = Inr json"
    using crypto(3) enc link by (auto simp: nip44_roundtrip_def)
  moreover have "\<exists>e. nip44_decrypt cr b (pk_of_sk cr sa) enc = Inl e"
    if "pk_of_sk cr b \<noteq> pk_of_sk cr sb" for b
  proof -
    have "\<not> is_ok (nip44_decrypt cr b (pk_of_sk cr sa) enc)"
      using crypto(4) enc that unfolding nip44_authentic_def by blast
    then show ?thesis by (cases "nip44_decrypt cr b (pk_of_sk cr sa) enc") auto
  qed
  moreover have "v2_decrypt cr (snd (chain_step cr chain)) c = Inr p"
    using crypto(2) 1(6) by (auto simp: v2_roundtrip_def)
  ultimately show ?thesis
    using 1(9) link crypto(1,5)
    by (fastforce simp: chain_envelope_def open_header_def chain_header_def key_at_def
          b64_roundtrip_def)
qed

text \<open>What a send leaves alone.\<close>

definition send_frame :: "SessionState \<Rightarrow> SessionState \<Rightarrow> bool" where
  "send_frame st st' \<longleftrightarrow> root_key st' = root_key st
     \<and> our_next_nostr_key st' = our_next_nostr_key st
     \<and> our_current_nostr_key st' = our_current_nostr_key st
     \<and> their_next_nostr_public_key st' = their_next_nostr_public_key st
     \<and> their_current_nostr_public_key st' = their_current_nostr_public_key st
     \<and> metadata_privacy_version st' = metadata_privacy_version st
     \<and> skipped_keys st' = skipped_keys st
     \<and> receiving_chain_key st' = receiving_chain_key st
     \<and> receiving_chain_message_number st' = receiving_chain_message_number st
     \<and> previous_sending_chain_message_count st' = previous_sending_chain_message_count st"

lemma plan_send_frame:
  "plan_send cr draw s p now = Inr plan \<Longrightarrow> send_frame (state s) (send_next_state plan)"
  by (auto elim!: plan_send_cases simp: send_frame_def)

lemma plan_send_sends_chain:
  assumes "sends_chain cr sa sb ck (state s)" "plan_send cr draw s p now = Inr plan"
    and "unat (sending_chain_message_number (state s)) < MAX_SKIP"
  shows "sends_chain cr sa sb ck (send_next_state plan)"
    "unat (sending_chain_message_number (send_next_state plan)) =
       Suc (unat (sending_chain_message_number (state s)))"
proof -
  have u: "unat (sending_chain_message_number (state s) + 1) =
      Suc (unat (sending_chain_message_number (state s)))"
    using assms(3) by (simp add: unat_word_ariths MAX_SKIP_def)
  from assms(2) show "sends_chain cr sa sb ck (send_next_state plan)"
    "unat (sending_chain_message_number (send_next_state plan)) =
       Suc (unat (sending_chain_message_number (state s)))"
    using assms(1) u chain_at_Suc_outer [of "chain_step cr" _ ck]
    by (auto elim!: plan_send_cases simp: sends_chain_def)
qed

section \<open>Delivery within a chain\<close>

definition hears_chain ::
  "'x crypto_scheme \<Rightarrow> bytes \<Rightarrow> bytes \<Rightarrow> bytes \<Rightarrow> u32 set \<Rightarrow> SessionState \<Rightarrow> bool" where
  "hears_chain cr sa sb ck R st \<longleftrightarrow>
     metadata_privacy_version st = METADATA_PRIVACY_VERSION
     \<and> our_current_nostr_key st = Some (key_pair cr sb)
     \<and> their_current_nostr_public_key st = Some (DevicePubkey (pk_of_sk cr sa))
     \<and> receives_chain cr (DevicePubkey (pk_of_sk cr sa)) ck R st"

lemma plan_receive_current:
  assumes "hears_chain cr sa sb ck R (state b)" "chain_envelope cr sa sb ck header p env"
  shows "plan_receive cr b rng env =
    (and_then (ratchet_decrypt cr (state b) header (env_ciphertext env) (env_sender env))
       (\<lambda>(st', payload). Inr \<lparr>receive_next_state = st', receive_payload = payload,
          receive_sender = env_sender env\<rparr>), rng)"
proof -
  have "matches_sender b (env_sender env)"
    using assms by (simp add: matches_sender_def hears_chain_def chain_envelope_def)
  moreover have "decrypt_header cr (state b) (encrypted_header env) (env_sender env) = Inr (header, Current)"
    by (rule decrypt_header_current [of _ "key_pair cr sb"])
       (use assms in \<open>auto simp: hears_chain_def chain_envelope_def\<close>)
  ultimately show ?thesis
    using assms(2) by (simp add: plan_receive_def Let_def chain_envelope_def)
qed

lemma hears_chain_deliver:
  assumes "hears_chain cr sa sb ck R (state b)" "chain_envelope cr sa sb ck header p env"
    and "number header \<notin> R" "unat (number header) < MAX_SKIP"
  obtains st' where
    "plan_receive cr b rng env = (Inr \<lparr>receive_next_state = st', receive_payload = p,
       receive_sender = env_sender env\<rparr>, rng)"
    "hears_chain cr sa sb ck (insert (number header) R) st'"
proof -
  let ?sender = "DevicePubkey (pk_of_sk cr sa)"
  obtain bs where bs: "b64_decode cr (env_ciphertext env) = Inr bs"
      "v2_decrypt cr (key_at (chain_step cr) (unat (number header)) ck) bs = Inr p"
    using assms(2) by (auto simp: chain_envelope_def)
  have "receives_chain cr ?sender ck R (state b)" using assms(1) by (simp add: hears_chain_def)
  then obtain st' where st':
      "ratchet_decrypt cr (state b) header (env_ciphertext env) ?sender = Inr (st', p)"
      "receives_chain cr ?sender ck (insert (number header) R) st'"
    using receives_chain_deliver [OF _ assms(3,4) bs refl] by metis
  moreover have "hears_chain cr sa sb ck (insert (number header) R) st'"
    using assms(1) st'(2) ratchet_decrypt_frame [OF st'(1)] by (simp add: hears_chain_def)
  moreover have "env_sender env = ?sender" using assms(2) by (simp add: chain_envelope_def)
  ultimately show ?thesis
    using plan_receive_current [OF assms(1,2)] that by simp
qed

text \<open>A run of sends and a run of receives, each committed before the next.\<close>

fun send_all ::
  "'x session_crypto_scheme \<Rightarrow> nat \<Rightarrow> Session \<Rightarrow> bytes list \<Rightarrow> UnixSeconds \<Rightarrow>
   (Session \<times> MessageEnvelope list) res" where
  "send_all cr draw s [] now = Inr (s, [])"
| "send_all cr draw s (p # ps) now =
     (case plan_send cr draw s p now of
        Inl e \<Rightarrow> Inl e
      | Inr plan \<Rightarrow> and_then (send_all cr (draw + 2) (fst (apply_send s plan)) ps now)
          (\<lambda>(s', es). Inr (s', fst (snd (apply_send s plan)) # es)))"

fun receive_all ::
  "'x session_crypto_scheme \<Rightarrow> Session \<Rightarrow> bytes list \<Rightarrow> MessageEnvelope list \<Rightarrow>
   (Session \<times> bytes list) res \<times> bytes list" where
  "receive_all cr s rng [] = (Inr (s, []), rng)"
| "receive_all cr s rng (e # es) =
     (case plan_receive cr s rng e of
        (Inl err, rng') \<Rightarrow> (Inl err, rng')
      | (Inr plan, rng') \<Rightarrow>
        (case receive_all cr (fst (apply_receive s plan)) rng' es of
           (r, rng'') \<Rightarrow> (and_then r (\<lambda>(s', ps). Inr (s', fst (snd (apply_receive s plan)) # ps)), rng'')))"

lemma send_all_envelopes:
  assumes "delivery_crypto cr" "sends_chain cr sa sb ck (state s)"
    and "send_all cr draw s ps now = Inr (s', es)"
    and "unat (sending_chain_message_number (state s)) + length ps \<le> MAX_SKIP"
  shows "length es = length ps \<and> sends_chain cr sa sb ck (state s') \<and> send_frame (state s) (state s')
    \<and> unat (sending_chain_message_number (state s')) =
        unat (sending_chain_message_number (state s)) + length ps \<and>
    (\<forall>i < length ps. \<exists>header. chain_envelope cr sa sb ck header (ps ! i) (es ! i)
      \<and> unat (number header) = unat (sending_chain_message_number (state s)) + i
      \<and> next_public_key header = public_key (our_next_nostr_key (state s))
      \<and> previous_chain_length header = previous_sending_chain_message_count (state s))"
  using assms(2-)
proof (induction ps arbitrary: draw s es)
  case Nil
  then show ?case by (simp add: send_frame_def)
next
  case (Cons p ps)
  from Cons.prems(2) obtain plan es' where plan: "plan_send cr draw s p now = Inr plan"
    and rest: "send_all cr (draw + 2) (fst (apply_send s plan)) ps now = Inr (s', es')"
    and es: "es = send_envelope plan # es'"
    by (auto simp: result_simps apply_send_def split: sum.splits)
  let ?s1 = "fst (apply_send s plan)"
  have lt: "unat (sending_chain_message_number (state s)) < MAX_SKIP" using Cons.prems(3) by simp
  have s1: "sends_chain cr sa sb ck (state ?s1)"
      "unat (sending_chain_message_number (state ?s1)) =
         Suc (unat (sending_chain_message_number (state s)))"
    using plan_send_sends_chain [OF Cons.prems(1) plan lt] by (simp_all add: apply_send_def)
  have le: "unat (sending_chain_message_number (state ?s1)) + length ps \<le> MAX_SKIP"
    using Cons.prems(3) s1(2) by simp
  note IH = Cons.IH [OF s1(1) rest le]
  have head: "chain_envelope cr sa sb ck (chain_header (state s)) p (send_envelope plan)"
    by (rule plan_send_envelope [OF assms(1) Cons.prems(1) plan])
  have frame: "send_frame (state s) (state ?s1)"
    using plan_send_frame [OF plan] by (simp add: apply_send_def)
  have "\<exists>header. chain_envelope cr sa sb ck header ((p # ps) ! i) (es ! i)
      \<and> unat (number header) = unat (sending_chain_message_number (state s)) + i
      \<and> next_public_key header = public_key (our_next_nostr_key (state s))
      \<and> previous_chain_length header = previous_sending_chain_message_count (state s)"
    if "i < length (p # ps)" for i
  proof (cases i)
    case 0
    then show ?thesis using head es by (auto simp: chain_header_def)
  next
    case (Suc j)
    then show ?thesis using IH that es s1(2) frame by (auto simp: send_frame_def)
  qed
  then show ?case using IH es s1(2) frame by (simp add: send_frame_def)
qed

lemma receive_all_any_order:
  assumes "hears_chain cr sa sb ck R (state b)"
    and "\<And>i. i \<in> set idx \<Longrightarrow> \<exists>header. chain_envelope cr sa sb ck header (ps ! i) (es ! i)
       \<and> unat (number header) = i \<and> i < MAX_SKIP"
    and "distinct idx" "unat ` R \<inter> set idx = {}"
  shows "\<exists>b'. receive_all cr b rng (map ((!) es) idx) = (Inr (b', map ((!) ps) idx), rng)"
  using assms
proof (induction idx arbitrary: b R)
  case Nil
  then show ?case by simp
next
  case (Cons i idx)
  obtain header where h: "chain_envelope cr sa sb ck header (ps ! i) (es ! i)"
    "unat (number header) = i" "i < MAX_SKIP" using Cons.prems(2) [of i] by auto
  then have "number header \<notin> R" using Cons.prems(4) by auto
  then obtain st' where st':
    "plan_receive cr b rng (es ! i) = (Inr \<lparr>receive_next_state = st', receive_payload = ps ! i,
       receive_sender = env_sender (es ! i)\<rparr>, rng)"
    "hears_chain cr sa sb ck (insert (number header) R) st'"
    using hears_chain_deliver [OF Cons.prems(1) h(1)] h(2,3) by metis
  have "\<exists>b'. receive_all cr (b\<lparr>state := st'\<rparr>) rng (map ((!) es) idx) = (Inr (b', map ((!) ps) idx), rng)"
    using Cons.prems st'(2) h(2) by (intro Cons.IH [of "insert (number header) R"]) auto
  then show ?case using st'(1) by (auto simp: apply_receive_def)
qed

section \<open>The first message of a new chain\<close>

lemma skip_message_keys_succeeds:
  assumes "receiving_chain_key st \<noteq> None"
    and "unat until \<le> unat (receiving_chain_message_number st) + MAX_SKIP"
  obtains st' where "skip_message_keys cr st until sender = Inr st'"
proof (cases "until \<le> receiving_chain_message_number st")
  case True
  then show ?thesis using that by (simp add: skip_message_keys_noop)
next
  case False
  then show ?thesis
    using that assms skip_message_keys_run [of st _ until cr sender]
    by (auto simp: case_prod_unfold not_le)
qed

lemma skip_message_keys_other_sender:
  assumes "skip_message_keys cr st until sender = Inr st'" "other \<noteq> sender"
  shows "bt_get (skipped_keys st') other = bt_get (skipped_keys st) other"
  using assms by (auto elim!: skip_message_keys_cases)

text \<open>
  The sender \<open>a\<close> has key pair \<open>sa\<close> as its current and \<open>na\<close> as its next key, and starts the chain
  \<open>ck\<close> towards the next key \<open>sb\<close> of the receiver \<open>b\<close>, who has not seen any message of it.
\<close>

definition new_chain ::
  "'x crypto_scheme \<Rightarrow> bytes \<Rightarrow> bytes \<Rightarrow> bytes \<Rightarrow> bytes \<Rightarrow> SessionState \<Rightarrow> SessionState \<Rightarrow> bool" where
  "new_chain cr sa na sb ck a b \<longleftrightarrow>
     sends_chain cr sa sb ck a
     \<and> metadata_privacy_version a = METADATA_PRIVACY_VERSION
     \<and> metadata_privacy_version b = METADATA_PRIVACY_VERSION
     \<and> sk_from_slice cr na \<and> our_next_nostr_key a = key_pair cr na
     \<and> pk_of_sk cr na \<noteq> pk_of_sk cr sa
     \<and> (\<exists>c. ck_derive cr na (pk_of_sk cr sb) = Inr c
          \<and> kdf2 cr (root_key b) c = (root_key a, ck))
     \<and> their_next_nostr_public_key b = Some (DevicePubkey (pk_of_sk cr sa))
     \<and> our_next_nostr_key b = key_pair cr sb
     \<and> pred_option (\<lambda>kp. keypair_ok cr kp \<and> pk_of_sk cr (private_key kp) \<noteq> pk_of_sk cr sb)
         (our_current_nostr_key b)
     \<and> bt_get (skipped_keys b) (DevicePubkey (pk_of_sk cr sa)) = None
     \<and> (receiving_chain_key b \<noteq> None \<longrightarrow>
          (\<exists>q. their_current_nostr_public_key b = Some q \<and> q \<noteq> DevicePubkey (pk_of_sk cr sa))
          \<and> unat (previous_sending_chain_message_count a)
              \<le> unat (receiving_chain_message_number b) + MAX_SKIP)"

lemma receive_ratchet_new_chain:
  assumes crypto: "delivery_crypto cr" and nc: "new_chain cr sa na sb ck a b"
    and h: "next_public_key header = DevicePubkey (pk_of_sk cr na)"
      "previous_chain_length header = previous_sending_chain_message_count a"
    and rng: "random_secret_key_bytes cr rng = (Inr nb, rng')"
  obtains st c2 where
    "receive_ratchet cr b rng header (option_or (their_current_nostr_public_key b)
       (their_next_nostr_public_key b)) = (Inr st, rng')"
    "hears_chain cr sa sb ck {} st"
    "ck_derive cr nb (pk_of_sk cr na) = Inr c2"
    "their_next_nostr_public_key st = Some (DevicePubkey (pk_of_sk cr na))"
    "our_next_nostr_key st = key_pair cr nb" "our_current_nostr_key st = Some (key_pair cr sb)"
    "kdf2 cr (root_key a) c2 = (root_key st, the (sending_chain_key st))"
    "sending_chain_key st \<noteq> None" "sending_chain_message_number st = 0"
    "previous_sending_chain_message_count st = sending_chain_message_number b"
    "receiving_chain_message_number st = 0"
    "previous_sending_chain_message_count a \<le> receiving_chain_message_number b \<longrightarrow>
       skipped_keys st = skipped_keys b"
proof -
  let ?sa = "DevicePubkey (pk_of_sk cr sa)" and ?st1 = "follow_sender_key b header"
  have keys: "sk_from_slice cr sa" "sk_from_slice cr sb" "sk_from_slice cr na" "sk_from_slice cr nb"
    using nc rng random_secret_key_bytes_valid [of cr rng nb] by (auto simp: new_chain_def sends_chain_def)
  have laws: "keys_ok cr" "dh_symmetric cr" using crypto by (simp_all add: delivery_crypto_def)
  obtain c1 where c1: "ck_derive cr na (pk_of_sk cr sb) = Inr c1"
    "kdf2 cr (root_key b) c1 = (root_key a, ck)" using nc by (auto simp: new_chain_def)
  then have c1': "ck_derive cr sb (pk_of_sk cr na) = Inr c1"
    using laws(2) keys by (metis dh_symmetric_def)
  obtain c2 where c2: "ck_derive cr nb (pk_of_sk cr na) = Inr c2"
    using laws(2) keys by (auto simp: dh_symmetric_def is_ok_iff)
  have st1: "?st1 = b\<lparr>their_current_nostr_public_key := Some ?sa,
                      their_next_nostr_public_key := Some (DevicePubkey (pk_of_sk cr na))\<rparr>"
    using nc h(1) by (auto simp: follow_sender_key_def new_chain_def)
  obtain st2 where st2: "(if receiving_chain_key ?st1 \<noteq> None
            then and_then (ok_or (option_or (their_current_nostr_public_key b)
                   (their_next_nostr_public_key b)) (Domain SessionNotReady)) (\<lambda>skipped_sender.
                   skip_message_keys cr ?st1 (previous_chain_length header) skipped_sender)
            else Inr ?st1) = Inr st2"
    and frame: "root_key st2 = root_key b" "our_next_nostr_key st2 = our_next_nostr_key b"
      "their_next_nostr_public_key st2 = Some (DevicePubkey (pk_of_sk cr na))"
      "their_current_nostr_public_key st2 = Some ?sa"
      "metadata_privacy_version st2 = METADATA_PRIVACY_VERSION"
      "sending_chain_message_number st2 = sending_chain_message_number b"
      "bt_get (skipped_keys st2) ?sa = None"
      "previous_sending_chain_message_count a \<le> receiving_chain_message_number b \<longrightarrow>
         skipped_keys st2 = skipped_keys b"
  proof (cases "receiving_chain_key b = None")
    case True
    then show ?thesis using that [of ?st1] nc by (simp add: st1 new_chain_def)
  next
    case False
    then obtain q where q: "their_current_nostr_public_key b = Some q" "q \<noteq> ?sa"
      and le: "unat (previous_sending_chain_message_count a)
              \<le> unat (receiving_chain_message_number b) + MAX_SKIP"
      using nc by (auto simp: new_chain_def)
    obtain st2 where s: "skip_message_keys cr ?st1 (previous_chain_length header) q = Inr st2"
      using skip_message_keys_succeeds [of ?st1 "previous_chain_length header" cr q] False le h(2)
      by (auto simp: st1)
    have "bt_get (skipped_keys st2) ?sa = None"
      using skip_message_keys_other_sender [OF s, of ?sa] q(2) nc by (simp add: st1 new_chain_def)
    moreover have "skipped_keys st2 = skipped_keys b"
      if "previous_sending_chain_message_count a \<le> receiving_chain_message_number b"
      using s that h(2) by (auto simp: st1 skip_message_keys_noop)
    ultimately show ?thesis
      using that [of st2] s q(1) False nc skip_message_keys_frame [OF s]
      by (simp add: st1 new_chain_def)
  qed
  have next_kp: "our_next_nostr_key st2 = key_pair cr sb" using frame(2) nc by (simp add: new_chain_def)
  let ?out2 = "kdf2 cr (root_key a) c2"
  let ?st = "st2\<lparr>previous_sending_chain_message_count := sending_chain_message_number st2,
      sending_chain_message_number := 0, receiving_chain_message_number := 0,
      receiving_chain_key := Some ck, our_previous_nostr_key := our_current_nostr_key st2,
      our_current_nostr_key := Some (our_next_nostr_key st2), our_next_nostr_key := key_pair cr nb,
      root_key := fst ?out2, sending_chain_key := Some (snd ?out2)\<rparr>"
  have "ratchet_step cr st2 rng = (Inr ?st, rng')"
    using rng c1(2) c1' c2 keys laws(1) frame(1,3) next_kp by (simp add: ratchet_step_def Let_def)
  then have "receive_ratchet cr b rng header (option_or (their_current_nostr_public_key b)
       (their_next_nostr_public_key b)) = (Inr ?st, rng')"
    unfolding receive_ratchet_def Let_def st2 by simp
  moreover have "hears_chain cr sa sb ck {} ?st"
    using frame next_kp by (simp add: hears_chain_def receives_chain_def skipped_key_def)
  ultimately show ?thesis
    using that [of ?st c2] c2 frame next_kp by simp
qed

lemma plan_receive_new_chain:
  assumes crypto: "delivery_crypto cr" and nc: "new_chain cr sa na sb ck a (state b)"
    and env: "chain_envelope cr sa sb ck header p env"
    and h: "next_public_key header = DevicePubkey (pk_of_sk cr na)"
      "previous_chain_length header = previous_sending_chain_message_count a"
      "unat (number header) < MAX_SKIP"
    and rng: "random_secret_key_bytes cr rng = (Inr nb, rng')"
  obtains st' c2 where
    "plan_receive cr b rng env = (Inr \<lparr>receive_next_state = st', receive_payload = p,
       receive_sender = env_sender env\<rparr>, rng')"
    "hears_chain cr sa sb ck {number header} st'"
    "ck_derive cr nb (pk_of_sk cr na) = Inr c2"
    "their_next_nostr_public_key st' = Some (DevicePubkey (pk_of_sk cr na))"
    "our_next_nostr_key st' = key_pair cr nb"
    "kdf2 cr (root_key a) c2 = (root_key st', the (sending_chain_key st'))"
    "sending_chain_key st' \<noteq> None" "sending_chain_message_number st' = 0"
    "previous_sending_chain_message_count st' = sending_chain_message_number (state b)"
    "number header = 0 \<longrightarrow> receiving_chain_message_number st' = 1"
    "number header = 0 \<longrightarrow>
       previous_sending_chain_message_count a \<le> receiving_chain_message_number (state b) \<longrightarrow>
       skipped_keys st' = skipped_keys (state b)"
proof -
  let ?sa = "DevicePubkey (pk_of_sk cr sa)"
  have sender: "env_sender env = ?sa" using env by (simp add: chain_envelope_def)
  have m: "env_version env = METADATA_PRIVACY_VERSION" "matches_sender b (env_sender env)"
    using env nc by (simp_all add: chain_envelope_def matches_sender_def new_chain_def)
  have open_next: "open_header cr sb ?sa (encrypted_header env) = Inr (Some (Inr header))"
    using env by (auto simp: chain_envelope_def)
  have "(case our_current_nostr_key (state b) of None \<Rightarrow> Inr None
       | Some current \<Rightarrow> open_header cr (private_key current) ?sa (encrypted_header env)) = Inr None"
    using env nc by (auto simp: chain_envelope_def new_chain_def keypair_ok_def split: option.splits)
  then have dh: "decrypt_header cr (state b) (encrypted_header env) (env_sender env) = Inr (header, Next)"
    using open_next nc sender by (simp add: decrypt_header_def new_chain_def)
  obtain st c2 where st: "receive_ratchet cr (state b) rng header
       (option_or (their_current_nostr_public_key (state b))
         (their_next_nostr_public_key (state b))) = (Inr st, rng')"
    "hears_chain cr sa sb ck {} st" "ck_derive cr nb (pk_of_sk cr na) = Inr c2"
    "their_next_nostr_public_key st = Some (DevicePubkey (pk_of_sk cr na))"
    "our_next_nostr_key st = key_pair cr nb" "our_current_nostr_key st = Some (key_pair cr sb)"
    "kdf2 cr (root_key a) c2 = (root_key st, the (sending_chain_key st))"
    "sending_chain_key st \<noteq> None" "sending_chain_message_number st = 0"
    "previous_sending_chain_message_count st = sending_chain_message_number (state b)"
    "receiving_chain_message_number st = 0"
    "previous_sending_chain_message_count a \<le> receiving_chain_message_number (state b) \<longrightarrow>
       skipped_keys st = skipped_keys (state b)"
    by (rule receive_ratchet_new_chain [OF crypto nc h(1,2) rng])
  obtain bs where bs: "b64_decode cr (env_ciphertext env) = Inr bs"
      "v2_decrypt cr (key_at (chain_step cr) (unat (number header)) ck) bs = Inr p"
    using env by (auto simp: chain_envelope_def)
  have "receives_chain cr ?sa ck {} st" using st(2) by (simp add: hears_chain_def)
  then obtain st' where st':
      "ratchet_decrypt cr st header (env_ciphertext env) ?sa = Inr (st', p)"
      "receives_chain cr ?sa ck {number header} st'"
    using receives_chain_deliver [OF _ _ h(3) bs refl, of ?sa "{}" st] by auto
  note frame = ratchet_decrypt_frame [OF st'(1)]
  have order: "receiving_chain_message_number st' = 1 \<and> skipped_keys st' = skipped_keys st"
    if "number header = 0"
    using receives_chain_in_order [OF _ st'(1), of ck "{}"] st(2,11) that
    by (simp add: hears_chain_def)
  have "plan_receive cr b rng env = (Inr \<lparr>receive_next_state = st', receive_payload = p,
       receive_sender = env_sender env\<rparr>, rng')"
    using m dh st(1) st'(1) sender by (simp add: plan_receive_def Let_def)
  moreover have "hears_chain cr sa sb ck {number header} st'"
    using st(2) st'(2) frame by (simp add: hears_chain_def)
  ultimately show ?thesis using that [of st' c2] st frame order by simp
qed

text \<open>After the receive, the roles are exchanged: the receiver starts the next chain.\<close>

lemma new_chain_reply:
  assumes nc: "new_chain cr sa na sb ck a b"
    and st': "hears_chain cr sa sb ck R st'"
      "ck_derive cr nb (pk_of_sk cr na) = Inr c2" "sk_from_slice cr nb"
      "their_next_nostr_public_key st' = Some (DevicePubkey (pk_of_sk cr na))"
      "our_next_nostr_key st' = key_pair cr nb"
      "kdf2 cr (root_key a) c2 = (root_key st', the (sending_chain_key st'))"
      "sending_chain_key st' \<noteq> None" "sending_chain_message_number st' = 0"
    and fresh: "pk_of_sk cr nb \<noteq> pk_of_sk cr sb"
    and a': "root_key a' = root_key a" "our_next_nostr_key a' = our_next_nostr_key a"
      "our_current_nostr_key a' = our_current_nostr_key a"
      "their_next_nostr_public_key a' = their_next_nostr_public_key a"
      "metadata_privacy_version a' = metadata_privacy_version a"
    and clean: "bt_get (skipped_keys a') (DevicePubkey (pk_of_sk cr sb)) = None"
      "receiving_chain_key a' \<noteq> None \<longrightarrow>
          (\<exists>q. their_current_nostr_public_key a' = Some q \<and> q \<noteq> DevicePubkey (pk_of_sk cr sb))
          \<and> unat (previous_sending_chain_message_count st')
              \<le> unat (receiving_chain_message_number a') + MAX_SKIP"
  shows "new_chain cr sb nb na (the (sending_chain_key st')) st' a'"
  using assms by (auto simp: new_chain_def sends_chain_def hears_chain_def keypair_ok_def)

text \<open>A freshly initialised pair: the initiator starts the first chain.\<close>

lemma new_chain_init:
  assumes laws: "keys_ok cr" "dh_symmetric cr" "tweak_agrees cr"
    and keys: "sk_from_slice cr inviter" "sk_from_slice cr initiator"
    and a: "new_initiator cr rng1 (DevicePubkey (pk_of_sk cr inviter)) initiator shared = (Inr a, rng1')"
    and b: "new_responder cr rng2 (DevicePubkey (pk_of_sk cr initiator)) inviter shared = (Inr b, rng2')"
    and fresh: "public_key (our_next_nostr_key (state a)) \<noteq> DevicePubkey (pk_of_sk cr initiator)"
  obtains na sb ck where "new_chain cr initiator na sb ck (state a) (state b)"
    "sending_chain_message_number (state a) = 0"
proof -
  from a keys obtain their na c where
    their: "private_responder_public_key cr initiator (DevicePubkey (pk_of_sk cr inviter)) = Inr their"
    and na: "sk_from_slice cr na" "ck_derive cr na (device_bytes their) = Inr c"
    and sa: "state a = initial_state (fst (kdf2 cr shared c)) (Some (snd (kdf2 cr shared c)))
        (Some (key_pair cr initiator)) (key_pair cr na) their"
    by (auto simp: new_initiator_def init_with_context_def init_initiator_def Let_def result_simps
          session_from_state_def split: sum.splits prod.splits)
  obtain s where s: "private_responder_secret_key cr inviter (DevicePubkey (pk_of_sk cr initiator)) = Inr s"
    "sk_from_slice cr s" "their = DevicePubkey (pk_of_sk cr s)"
    by (rule private_responder_keys_agree [OF laws keys their])
  have sb: "state b = initial_state shared None None (key_pair cr s) (DevicePubkey (pk_of_sk cr initiator))"
    using b s by (auto simp: new_responder_def init_with_context_def init_responder_def result_simps
          session_from_state_def split: sum.splits prod.splits)
  have "new_chain cr initiator na s (snd (kdf2 cr shared c)) (state a) (state b)"
    using na s keys fresh
    by (auto simp: new_chain_def sends_chain_def sa sb initial_state_def)
  then show ?thesis using that sa by (simp add: initial_state_def)
qed

section \<open>Turns of a conversation\<close>

text \<open>What receiving within a chain leaves alone.\<close>

definition receive_frame :: "SessionState \<Rightarrow> SessionState \<Rightarrow> bool" where
  "receive_frame st st' \<longleftrightarrow> root_key st' = root_key st
     \<and> our_next_nostr_key st' = our_next_nostr_key st
     \<and> their_next_nostr_public_key st' = their_next_nostr_public_key st
     \<and> sending_chain_key st' = sending_chain_key st
     \<and> sending_chain_message_number st' = sending_chain_message_number st
     \<and> previous_sending_chain_message_count st' = previous_sending_chain_message_count st
     \<and> skipped_keys st' = skipped_keys st"

lemma receive_all_in_order:
  assumes "hears_chain cr sa sb ck R (state b)" "length es = length ps"
    and "\<And>i. i < length ps \<Longrightarrow> \<exists>header. chain_envelope cr sa sb ck header (ps ! i) (es ! i)
       \<and> unat (number header) = unat (receiving_chain_message_number (state b)) + i"
    and "unat (receiving_chain_message_number (state b)) + length ps \<le> MAX_SKIP"
  shows "\<exists>b' R'. receive_all cr b rng es = (Inr (b', ps), rng) \<and> hears_chain cr sa sb ck R' (state b')
    \<and> unat (receiving_chain_message_number (state b')) =
        unat (receiving_chain_message_number (state b)) + length ps
    \<and> receive_frame (state b) (state b')"
  using assms
proof (induction ps arbitrary: b R es)
  case Nil
  then show ?case by (auto simp: receive_frame_def)
next
  case (Cons p ps)
  let ?n = "receiving_chain_message_number (state b)"
  obtain e es' where es: "es = e # es'" using Cons.prems(2) by (cases es) auto
  obtain header where h: "chain_envelope cr sa sb ck header p e" "unat (number header) = unat ?n"
    using Cons.prems(3) [of 0] es by auto
  have hn: "number header = ?n" using h(2) by (simp add: word_unat_eq_iff)
  have rc: "receives_chain cr (DevicePubkey (pk_of_sk cr sa)) ck R (state b)"
    using Cons.prems(1) by (simp add: hears_chain_def)
  have "number header \<notin> R" using rc hn by (auto simp: receives_chain_def Let_def)
  moreover have "unat (number header) < MAX_SKIP" using h(2) Cons.prems(4) by simp
  ultimately obtain st' where st':
    "plan_receive cr b rng e = (Inr \<lparr>receive_next_state = st', receive_payload = p,
       receive_sender = env_sender e\<rparr>, rng)"
    "hears_chain cr sa sb ck (insert (number header) R) st'"
    using hears_chain_deliver [OF Cons.prems(1) h(1)] by metis
  then have d: "ratchet_decrypt cr (state b) header (env_ciphertext e)
      (DevicePubkey (pk_of_sk cr sa)) = Inr (st', p)"
    using plan_receive_current [OF Cons.prems(1) h(1), of rng] h(1)
    by (auto simp: result_simps chain_envelope_def)
  have step: "receiving_chain_message_number st' = ?n + 1" "skipped_keys st' = skipped_keys (state b)"
    using receives_chain_in_order [OF rc d hn] by simp_all
  have Sn: "unat (?n + 1) = Suc (unat ?n)"
    using Cons.prems(4) by (simp add: unat_word_ariths MAX_SKIP_def)
  let ?b1 = "b\<lparr>state := st'\<rparr>"
  have "\<exists>b' R'. receive_all cr ?b1 rng es' = (Inr (b', ps), rng) \<and> hears_chain cr sa sb ck R' (state b')
    \<and> unat (receiving_chain_message_number (state b')) =
        unat (receiving_chain_message_number (state ?b1)) + length ps
    \<and> receive_frame (state ?b1) (state b')"
  proof (rule Cons.IH)
    show "hears_chain cr sa sb ck (insert (number header) R) (state ?b1)" using st'(2) by simp
    show "length es' = length ps" using Cons.prems(2) es by simp
    show "\<exists>header. chain_envelope cr sa sb ck header (ps ! i) (es' ! i)
        \<and> unat (number header) = unat (receiving_chain_message_number (state ?b1)) + i"
      if "i < length ps" for i
      using Cons.prems(3) [of "Suc i"] that es step(1) Sn by simp
    show "unat (receiving_chain_message_number (state ?b1)) + length ps \<le> MAX_SKIP"
      using Cons.prems(4) step(1) Sn by simp
  qed
  then obtain b' R' where b': "receive_all cr ?b1 rng es' = (Inr (b', ps), rng)"
    "hears_chain cr sa sb ck R' (state b')"
    "unat (receiving_chain_message_number (state b')) = Suc (unat ?n) + length ps"
    "receive_frame st' (state b')" using step(1) Sn by auto
  have "receive_frame (state b) (state b')"
    using b'(4) ratchet_decrypt_frame [OF d] step(2) by (simp add: receive_frame_def)
  then show ?case using b' st'(1) es by (auto simp: apply_receive_def)
qed

text \<open>
  \<open>in_turn cr a b\<close>: it is the turn of \<open>a\<close>, who has sent nothing in its chain yet; all earlier
  messages in both directions have been received.
\<close>

definition in_turn :: "'x crypto_scheme \<Rightarrow> SessionState \<Rightarrow> SessionState \<Rightarrow> bool" where
  "in_turn cr a b \<longleftrightarrow> (\<exists>sa na sb ck. new_chain cr sa na sb ck a b
     \<and> sending_chain_message_number a = 0
     \<and> skipped_keys a = bt_empty \<and> skipped_keys b = bt_empty
     \<and> previous_sending_chain_message_count a \<le> receiving_chain_message_number b
     \<and> sending_chain_message_number b \<le> receiving_chain_message_number a
     \<and> (receiving_chain_key a \<noteq> None \<longrightarrow>
          (\<exists>q. their_current_nostr_public_key a = Some q \<and> q \<noteq> DevicePubkey (pk_of_sk cr sb))))"

lemma turn_exchange_aux:
  assumes crypto: "delivery_crypto cr"
    and turn: "in_turn cr (state a) (state b)"
    and send: "send_all cr draw a ps now = Inr (a', es)"
    and ps: "ps \<noteq> []" "length ps \<le> MAX_SKIP"
    and rng: "random_secret_key_bytes cr rng = (Inr nb, rng')"
    and fresh: "pk_of_sk cr nb \<noteq> pk_of_sk cr (private_key (our_next_nostr_key (state b)))"
  shows "\<exists>b'. receive_all cr b rng es = (Inr (b', ps), rng') \<and> in_turn cr (state b') (state a')"
proof -
  obtain sa na sb ck where nc: "new_chain cr sa na sb ck (state a) (state b)"
    and zero: "sending_chain_message_number (state a) = 0"
    and clean: "skipped_keys (state a) = bt_empty" "skipped_keys (state b) = bt_empty"
    and counts: "previous_sending_chain_message_count (state a) \<le> receiving_chain_message_number (state b)"
      "sending_chain_message_number (state b) \<le> receiving_chain_message_number (state a)"
    and cur: "receiving_chain_key (state a) \<noteq> None \<longrightarrow>
      (\<exists>q. their_current_nostr_public_key (state a) = Some q \<and> q \<noteq> DevicePubkey (pk_of_sk cr sb))"
    using turn unfolding in_turn_def by blast
  have sc: "sends_chain cr sa sb ck (state a)" using nc by (simp add: new_chain_def)
  have "unat (sending_chain_message_number (state a)) + length ps \<le> MAX_SKIP" using zero ps(2) by simp
  note sent = send_all_envelopes [OF crypto sc send this]
  obtain p ps' e es' where cons: "ps = p # ps'" "es = e # es'" "length es' = length ps'"
    using ps(1) sent by (cases ps; cases es) auto
  obtain header where h: "chain_envelope cr sa sb ck header p e" "unat (number header) = 0"
    "next_public_key header = DevicePubkey (pk_of_sk cr na)"
    "previous_chain_length header = previous_sending_chain_message_count (state a)"
    using sent cons zero nc by (force simp: new_chain_def)
  have h0: "number header = 0" using h(2) by (simp add: unat_eq_0)
  have "unat (number header) < MAX_SKIP" using h(2) by (simp add: MAX_SKIP_def)
  from plan_receive_new_chain [OF crypto nc h(1,3,4) this rng]
  obtain st' c2 where st':
    "plan_receive cr b rng e = (Inr \<lparr>receive_next_state = st', receive_payload = p,
       receive_sender = env_sender e\<rparr>, rng')"
    "hears_chain cr sa sb ck {number header} st'"
    "ck_derive cr nb (pk_of_sk cr na) = Inr c2"
    "their_next_nostr_public_key st' = Some (DevicePubkey (pk_of_sk cr na))"
    "our_next_nostr_key st' = key_pair cr nb"
    "kdf2 cr (root_key (state a)) c2 = (root_key st', the (sending_chain_key st'))"
    "sending_chain_key st' \<noteq> None" "sending_chain_message_number st' = 0"
    "previous_sending_chain_message_count st' = sending_chain_message_number (state b)"
    "receiving_chain_message_number st' = 1" "skipped_keys st' = bt_empty"
    using h0 counts(1) clean(2) by metis
  let ?b1 = "b\<lparr>state := st'\<rparr>"
  have "\<exists>b' R'. receive_all cr ?b1 rng' es' = (Inr (b', ps'), rng') \<and> hears_chain cr sa sb ck R' (state b')
    \<and> unat (receiving_chain_message_number (state b')) =
        unat (receiving_chain_message_number (state ?b1)) + length ps'
    \<and> receive_frame (state ?b1) (state b')"
  proof (rule receive_all_in_order)
    show "hears_chain cr sa sb ck {number header} (state ?b1)" using st'(2) by simp
    show "\<exists>header. chain_envelope cr sa sb ck header (ps' ! i) (es' ! i)
        \<and> unat (number header) = unat (receiving_chain_message_number (state ?b1)) + i"
      if "i < length ps'" for i
      using sent cons that zero st'(10) by (auto dest!: spec [of _ "Suc i"])
  qed (use cons ps(2) st'(10) in simp_all)
  then obtain b' R' where b': "receive_all cr ?b1 rng' es' = (Inr (b', ps'), rng')"
    "hears_chain cr sa sb ck R' (state b')"
    "unat (receiving_chain_message_number (state b')) = length ps"
    "receive_frame st' (state b')" using st'(10) cons(1) by auto
  have a': "send_frame (state a) (state a')"
      "unat (sending_chain_message_number (state a')) = length ps" using sent zero by auto
  have nb: "sk_from_slice cr nb" using rng random_secret_key_bytes_valid by blast
  have fresh': "pk_of_sk cr nb \<noteq> pk_of_sk cr sb" using fresh nc by (simp add: new_chain_def)
  have "new_chain cr sb nb na (the (sending_chain_key (state b'))) (state b') (state a')"
    using b'(4) st'(3-9) a'(1) clean counts cur fresh' nb
    by (intro new_chain_reply [OF nc b'(2)])
       (auto simp: receive_frame_def send_frame_def word_le_nat_alt)
  moreover have "their_current_nostr_public_key (state b') = Some (DevicePubkey (pk_of_sk cr sa))"
    using b'(2) by (simp add: hears_chain_def)
  moreover have "pk_of_sk cr sa \<noteq> pk_of_sk cr na" using nc by (auto simp: new_chain_def)
  ultimately have "in_turn cr (state b') (state a')"
    unfolding in_turn_def
    using b'(3,4) st'(8,9,11) a' clean(1) counts(2)
    by (intro exI [of _ sb] exI [of _ nb] exI [of _ na] exI [of _ "the (sending_chain_key (state b'))"])
       (auto simp: receive_frame_def send_frame_def word_le_nat_alt)
  moreover have "receive_all cr b rng es = (Inr (b', ps), rng')"
    using st'(1) b'(1) cons by (simp add: apply_receive_def)
  ultimately show ?thesis by blast
qed

section \<open>From the handshake to delivery\<close>

lemma bootstrap_delivery:
  assumes "delivery_crypto cr" "tweak_agrees cr"
    and "sk_from_slice cr inviter" "sk_from_slice cr initiator"
    and "new_initiator cr rng1 (DevicePubkey (pk_of_sk cr inviter)) initiator shared = (Inr alice, rng1')"
    and "new_responder cr rng2 (DevicePubkey (pk_of_sk cr initiator)) inviter shared = (Inr bob, rng2')"
    and "public_key (our_next_nostr_key (state alice)) \<noteq> DevicePubkey (pk_of_sk cr initiator)"
    and "send_all cr draw alice ps now = Inr (alice', es)" "length ps \<le> MAX_SKIP"
    and "distinct order" "set order \<subseteq> {..<length ps}"
    and "\<exists>c \<in> set rng. sk_from_slice cr c"
  shows "\<exists>bob' rng'. receive_all cr bob rng (map ((!) es) order) = (Inr (bob', map ((!) ps) order), rng')"
proof (cases order)
  case (Cons i idx)
  have laws: "keys_ok cr" "dh_symmetric cr" using assms(1) by (simp_all add: delivery_crypto_def)
  from new_chain_init [OF laws assms(2-7)] obtain na sb ck where
    nc: "new_chain cr initiator na sb ck (state alice) (state bob)"
    and zero: "sending_chain_message_number (state alice) = 0" .
  have sc: "sends_chain cr initiator sb ck (state alice)" using nc by (simp add: new_chain_def)
  have "unat (sending_chain_message_number (state alice)) + length ps \<le> MAX_SKIP"
    using zero assms(9) by simp
  note sent = send_all_envelopes [OF assms(1) sc assms(8) this]
  have env: "\<exists>header. chain_envelope cr initiator sb ck header (ps ! j) (es ! j)
      \<and> unat (number header) = j \<and> j < MAX_SKIP
      \<and> next_public_key header = DevicePubkey (pk_of_sk cr na)
      \<and> previous_chain_length header = previous_sending_chain_message_count (state alice)"
    if "j \<in> set order" for j
    using sent that assms(9,11) zero nc by (force simp: new_chain_def)
  obtain header where h: "chain_envelope cr initiator sb ck header (ps ! i) (es ! i)"
    "unat (number header) = i" "i < MAX_SKIP"
    "next_public_key header = DevicePubkey (pk_of_sk cr na)"
    "previous_chain_length header = previous_sending_chain_message_count (state alice)"
    using env [of i] Cons by auto
  have lt: "unat (number header) < MAX_SKIP" using h(2,3) by simp
  obtain nb rng' where rng: "random_secret_key_bytes cr rng = (Inr nb, rng')"
    using random_secret_key_bytes_ok [OF assms(12)] by (metis prod.collapse)
  from plan_receive_new_chain [OF assms(1) nc h(1,4,5) lt rng] obtain st' where st':
    "plan_receive cr bob rng (es ! i) = (Inr \<lparr>receive_next_state = st', receive_payload = ps ! i,
       receive_sender = env_sender (es ! i)\<rparr>, rng')"
    "hears_chain cr initiator sb ck {number header} st'" by metis
  have "\<exists>b'. receive_all cr (bob\<lparr>state := st'\<rparr>) rng' (map ((!) es) idx) =
      (Inr (b', map ((!) ps) idx), rng')"
    using st'(2) env assms(10) Cons h(2) by (intro receive_all_any_order) auto
  then show ?thesis using st'(1) Cons by (auto simp: apply_receive_def)
qed simp

end
