(* ===== verification/Crate_Instance.thy ===== *)
theory Crate_Instance
  imports Session_Sync
begin

text \<open>
  A concrete instance of the third-party interface, on which the properties that assume laws of the
  crates are instantiated. It is not the cryptography of the crates: keys are public, a ciphertext
  is the plaintext behind a self-delimiting code of its key. What matters is that it computes and
  satisfies every law assumed in the development, so that no assumption is contradictory.
\<close>

section \<open>A prefix code\<close>

text \<open>Each byte is announced by \<open>x\<close>; the whole ends in \<open>z\<close>.\<close>

fun code :: "'c \<Rightarrow> 'c \<Rightarrow> (u8 \<Rightarrow> 'c) \<Rightarrow> bytes \<Rightarrow> 'c list" where
  "code x z f [] = [z]"
| "code x z f (w # ws) = x # f w # code x z f ws"

lemma code_inj:
  assumes "x \<noteq> z" "inj f" "code x z f ws @ r = code x z f vs @ r'"
  shows "ws = vs \<and> r = r'"
  using assms(3)
proof (induction ws arbitrary: vs)
  case Nil
  then show ?case using assms(1) by (cases vs) auto
next
  case (Cons w ws)
  then show ?case using assms(1,2) by (cases vs) (auto dest: injD)
qed

fun uncode :: "string \<Rightarrow> bytes \<times> string" where
  "uncode (c # d # cs) =
     (if c = CHR ''a'' then (case uncode cs of (ws, r) \<Rightarrow> (of_char d # ws, r)) else ([], d # cs))"
| "uncode cs = ([], [])"

abbreviation code_str :: "bytes \<Rightarrow> string" where
  "code_str \<equiv> code (CHR ''a'') (CHR ''c'') byte_char"

lemma inj_byte_char: "inj byte_char"
  by (metis byte_of_byte_char injI)

lemma uncode_code: "uncode (code_str ws @ r) = (ws, r)"
  by (induction ws) (cases r, auto)

section \<open>The instance\<close>

definition open_with :: "'c list \<Rightarrow> 'c list \<Rightarrow> 'c list res" where
  "open_with prefix c =
     (if take (length prefix) c = prefix then Inr (drop (length prefix) c) else Inl (Nip44 ''mac''))"

abbreviation code_bytes :: "bytes \<Rightarrow> bytes" where
  "code_bytes \<equiv> code 0 1 id"

definition unary :: "nat \<Rightarrow> string" where
  "unary n = replicate n (CHR ''a'') @ ''b''"

definition read_unary :: "string \<Rightarrow> nat \<times> string" where
  "read_unary s = (let n = length (takeWhile (\<lambda>c. c = CHR ''a'') s) in (n, drop (Suc n) s))"

lemma read_unary [simp]: "read_unary (unary n @ r) = (n, r)"
proof -
  have "takeWhile (\<lambda>c. c = CHR ''a'') (replicate n (CHR ''a'') @ ''b'' @ r) = replicate n (CHR ''a'')"
    by (induction n) auto
  then show ?thesis by (simp add: read_unary_def unary_def)
qed

definition pair_str :: "bytes \<Rightarrow> bytes \<Rightarrow> string" where
  "pair_str a b = code_str (min a b) @ code_str (max a b)"

text \<open>The last argument holds the fields of extensions of the interface.\<close>

definition demo_ext :: "'x \<Rightarrow> 'x session_crypto_scheme" where
  "demo_ext x = \<lparr>
     sk_from_slice = (\<lambda>bs. bs \<noteq> []),
     pk_from_slice = (\<lambda>bs. bs \<noteq> []),
     pk_xonly = (\<lambda>bs. True),
     pk_of_sk = (\<lambda>bs. bs),
     ck_derive = (\<lambda>a b. Inr (min a b @ max a b)),
     v2_encrypt = (\<lambda>n k m. Inr (code_bytes k @ m)),
     v2_decrypt = (\<lambda>k c. open_with (code_bytes k) c),
     nip44_encrypt = (\<lambda>n a b m. Inr (pair_str a b @ m)),
     nip44_decrypt = (\<lambda>a b c. open_with (pair_str a b) c),
     hkdf_sha256 = (\<lambda>salt ikm info. info @ ikm @ salt),
     sha256 = (\<lambda>bs. [1]),
     b64_encode = code_str,
     b64_decode = (\<lambda>s. Inr (fst (uncode s))),
     hex_decode = (\<lambda>s. Inr (fst (uncode s))),
     hex_encode = code_str,
     scalar_from_be_bytes = (\<lambda>bs. Some 1),
     pk_add_tweak = (\<lambda>p t. Some (0 # p)),
     sk_odd_parity = (\<lambda>s. False),
     sk_negate = (\<lambda>s. s),
     sk_add_tweak = (\<lambda>s t. Some (0 # s)),
     header_to_json = (\<lambda>h. Inr (unary (unat (number h)) @ unary (unat (previous_chain_length h))
       @ code_str (device_bytes (next_public_key h)))),
     header_from_json = (\<lambda>s.
       case read_unary s of (n, r) \<Rightarrow> case read_unary r of (p, r') \<Rightarrow>
         Inr \<lparr>number = of_nat n, previous_chain_length = of_nat p,
              next_public_key = DevicePubkey (fst (uncode r'))\<rparr>),
     \<dots> = x\<rparr>"

abbreviation demo_crypto :: session_crypto where
  "demo_crypto \<equiv> demo_ext ()"

lemma demo_simps:
  "sk_from_slice (demo_ext x) = (\<lambda>bs. bs \<noteq> [])"
  "pk_from_slice (demo_ext x) = (\<lambda>bs. bs \<noteq> [])"
  "pk_xonly (demo_ext x) = (\<lambda>bs. True)"
  "pk_of_sk (demo_ext x) = (\<lambda>bs. bs)"
  "ck_derive (demo_ext x) = (\<lambda>a b. Inr (min a b @ max a b))"
  "v2_encrypt (demo_ext x) = (\<lambda>n k m. Inr (code_bytes k @ m))"
  "v2_decrypt (demo_ext x) = (\<lambda>k c. open_with (code_bytes k) c)"
  "nip44_encrypt (demo_ext x) = (\<lambda>n a b m. Inr (pair_str a b @ m))"
  "nip44_decrypt (demo_ext x) = (\<lambda>a b c. open_with (pair_str a b) c)"
  "hkdf_sha256 (demo_ext x) = (\<lambda>salt ikm info. info @ ikm @ salt)"
  "sha256 (demo_ext x) = (\<lambda>bs. [1])"
  "b64_encode (demo_ext x) = code_str"
  "b64_decode (demo_ext x) = (\<lambda>s. Inr (fst (uncode s)))"
  "hex_decode (demo_ext x) = (\<lambda>s. Inr (fst (uncode s)))"
  "hex_encode (demo_ext x) = code_str"
  "scalar_from_be_bytes (demo_ext x) = (\<lambda>bs. Some 1)"
  "pk_add_tweak (demo_ext x) = (\<lambda>p t. Some (0 # p))"
  "sk_odd_parity (demo_ext x) = (\<lambda>s. False)"
  "sk_negate (demo_ext x) = (\<lambda>s. s)"
  "sk_add_tweak (demo_ext x) = (\<lambda>s t. Some (0 # s))"
  "header_to_json (demo_ext x) = (\<lambda>h. Inr (unary (unat (number h)) @ unary (unat (previous_chain_length h)) @ code_str (device_bytes (next_public_key h))))"
  "header_from_json (demo_ext x) = (\<lambda>s. case read_unary s of (n, r) \<Rightarrow> case read_unary r of (p, r') \<Rightarrow> Inr \<lparr>number = of_nat n, previous_chain_length = of_nat p, next_public_key = DevicePubkey (fst (uncode r'))\<rparr>)"
  by (simp_all only: demo_ext_def crypto.select_convs session_crypto.select_convs)

lemma open_with_append [simp]: "open_with p (p @ m) = Inr m"
  by (simp add: open_with_def)

lemma open_with_ok:
  assumes "is_ok (open_with p c)"
  shows "\<exists>m. c = p @ m"
proof
  have "take (length p) c = p" using assms by (simp add: open_with_def split: if_splits)
  then show "c = p @ drop (length p) c" using append_take_drop_id [of "length p" c] by simp
qed

lemma demo_keys_ok: "keys_ok (demo_ext x)"
  by (simp add: keys_ok_def demo_simps)

lemma demo_dh: "dh_symmetric (demo_ext x)"
  by (simp add: dh_symmetric_def demo_simps min.commute max.commute)

lemma demo_v2_roundtrip: "v2_roundtrip (demo_ext x)"
  by (simp add: v2_roundtrip_def demo_simps)

lemma pair_str_commute: "pair_str a b = pair_str b a"
  by (simp add: pair_str_def min.commute max.commute)

lemma demo_nip44_roundtrip: "nip44_roundtrip (demo_ext x)"
  by (auto simp: nip44_roundtrip_def demo_simps pair_str_commute)

lemma demo_one_key:
  assumes "is_ok (v2_decrypt (demo_ext x) k c)" "is_ok (v2_decrypt (demo_ext x) k' c)"
  shows "k = k'"
proof -
  have "is_ok (open_with (code_bytes k) c)" "is_ok (open_with (code_bytes k') c)"
    using assms by (simp_all add: demo_simps)
  from open_with_ok [OF this(1)] open_with_ok [OF this(2)] show ?thesis
    using code_inj [of "0 :: u8" 1 id k _ k'] by auto
qed

lemma pair_str_inj:
  assumes "pair_str a b @ r = pair_str a b' @ r'"
  shows "b = b'"
proof -
  have d: "CHR ''a'' \<noteq> CHR ''c''" by simp
  from assms have e: "code_str (min a b) @ (code_str (max a b) @ r) = code_str (min a b') @ (code_str (max a b') @ r')"
    by (simp add: pair_str_def)
  then have "min a b = min a b'" "code_str (max a b) @ r = code_str (max a b') @ r'"
    using code_inj [OF d inj_byte_char e] by auto
  then have "min a b = min a b' \<and> max a b = max a b'"
    using code_inj [OF d inj_byte_char, of "max a b" r "max a b'" r'] by auto
  then show ?thesis by (metis max_def min_def)
qed

lemma demo_nip44_authentic: "nip44_authentic (demo_ext x)"
proof -
  have "\<not> is_ok (open_with (pair_str b' a) (pair_str a b @ m))" if "b' \<noteq> b" for a b b' m
    using open_with_ok [of "pair_str b' a" "pair_str a b @ m"] that pair_str_inj [of a b m b']
    by (auto simp: pair_str_commute [of b' a])
  then show ?thesis by (simp add: nip44_authentic_def demo_simps)
qed

lemma demo_b64: "b64_roundtrip (demo_ext x)"
  using uncode_code [of _ "[]"] by (simp add: b64_roundtrip_def demo_simps)

lemma demo_tweak: "tweak_agrees (demo_ext x)"
  by (simp add: tweak_agrees_def demo_simps)

lemma demo_chain_step: "chain_step (demo_ext x) c = (1 # c @ [1], 2 # c @ [1])"
  by (simp add: kdf2_def demo_simps)

lemma demo_header: "header_roundtrip (demo_ext x)"
  using uncode_code [of _ "[]"] by (auto simp: header_roundtrip_def demo_simps)

lemma demo_delivery: "delivery_crypto (demo_ext x)"
  by (simp add: delivery_crypto_def demo_keys_ok demo_dh demo_v2_roundtrip demo_nip44_roundtrip
        demo_nip44_authentic demo_b64 demo_header)

end
