(* ===== verification/Session_Replay.thy ===== *)
theory Session_Replay
  imports Session_Invariants
begin

text \<open>
  Replay protection over the life of a session. Beside the session runs a history: the message keys its
  receiving chains have yielded so far, and the ciphertexts it has accepted. The invariant says that stored
  keys come from the history, that no two slots hold one key, and that the key of every accepted
  ciphertext has left the store.
\<close>

section \<open>The history of a session\<close>

text \<open>A message key opens a ciphertext of an envelope.\<close>

definition opens :: "'x crypto_scheme \<Rightarrow> bytes \<Rightarrow> string \<Rightarrow> bool" where
  "opens cr key ct \<longleftrightarrow> (case b64_decode cr ct of Inl _ \<Rightarrow> False | Inr bs \<Rightarrow> is_ok (v2_decrypt cr key bs))"

text \<open>The message keys the receiving chain yields on the way to a number, and \<open>extra\<close> more.\<close>

definition keys_until :: "'x crypto_scheme \<Rightarrow> SessionState \<Rightarrow> u32 \<Rightarrow> nat \<Rightarrow> bytes list" where
  "keys_until cr st until extra =
     (case receiving_chain_key st of
        None \<Rightarrow> []
      | Some c \<Rightarrow> map (\<lambda>i. key_at (chain_step cr) i c)
          [0..<unat until - unat (receiving_chain_message_number st) + extra])"

text \<open>The keys derived while the payload of a message is decrypted: none when its key is stored.\<close>

definition payload_keys ::
  "'x crypto_scheme \<Rightarrow> SessionState \<Rightarrow> u32 \<Rightarrow> DevicePubkey \<Rightarrow> bytes list" where
  "payload_keys cr st n sender =
     (if skipped_key st sender n = None then keys_until cr st n 1 else [])"

text \<open>All message keys one call of \<^verbatim>\<open>plan_receive\<close> derives, in the order of their derivation: the rest
  of the old chain when the envelope starts a new one, then the keys of the chain it is on.\<close>

definition receive_keys ::
  "'x session_crypto_scheme \<Rightarrow> Session \<Rightarrow> bytes list \<Rightarrow> MessageEnvelope \<Rightarrow> bytes list" where
  "receive_keys cr s rng env =
     (case decrypt_header cr (state s) (encrypted_header env) (env_sender env) of
        Inl _ \<Rightarrow> []
      | Inr (header, target) \<Rightarrow>
        if target = Next
        then keys_until cr (state s) (previous_chain_length header) 0 @
          (case fst (receive_ratchet cr (state s) rng header
                  (option_or (their_current_nostr_public_key (state s))
                             (their_next_nostr_public_key (state s)))) of
             Inl _ \<Rightarrow> [] | Inr st \<Rightarrow> payload_keys cr st (number header) (env_sender env))
        else payload_keys cr (state s) (number header) (env_sender env))"

text \<open>
  The life of a session: \<open>D\<close> lists the message keys its receiving chains have yielded since it was
  created, \<open>cts\<close> the ciphertexts of the envelopes it has accepted.
\<close>

inductive session_history ::
  "'x session_crypto_scheme \<Rightarrow> Session \<Rightarrow> bytes list \<Rightarrow> string list \<Rightarrow> bool"
  for cr :: "'x session_crypto_scheme" where
  start: "init_with_context cr rng their our is_initiator shared = (Inr s, rng') \<Longrightarrow>
     session_history cr s [] []"
| send: "session_history cr s D cts \<Longrightarrow> plan_send cr draw s payload now = Inr plan \<Longrightarrow>
     session_history cr (fst (apply_send s plan)) D cts"
| receive: "session_history cr s D cts \<Longrightarrow> plan_receive cr s rng env = (Inr plan, rng') \<Longrightarrow>
     session_history cr (fst (apply_receive s plan)) (D @ receive_keys cr s rng env)
       (env_ciphertext env # cts)"

section \<open>Spent keys\<close>

text \<open>Stored keys have been derived, no two slots share a key, and accepted ciphertexts opened under
  a derived key that is stored no longer.\<close>

definition keys_spent :: "'x crypto_scheme \<Rightarrow> bytes list \<Rightarrow> string list \<Rightarrow> SessionState \<Rightarrow> bool" where
  "keys_spent cr D cts st \<longleftrightarrow>
     (\<forall>a k key. skipped_key st a k = Some key \<longrightarrow> key \<in> set D)
     \<and> (\<forall>a k b j key. skipped_key st a k = Some key \<longrightarrow> skipped_key st b j = Some key \<longrightarrow> a = b \<and> k = j)
     \<and> (\<forall>ct \<in> set cts. \<exists>key \<in> set D. opens cr key ct \<and> (\<forall>a k. skipped_key st a k \<noteq> Some key))"

lemma keys_spent_skipped_cong:
  assumes "skipped_keys st' = skipped_keys st"
  shows "keys_spent cr D cts st' = keys_spent cr D cts st"
  unfolding keys_spent_def skipped_key_def assms ..

lemma skipped_key_skip:
  assumes "skip_message_keys cr st until sender = Inr st'" "skipped_key st' a j = Some key"
  shows "skipped_key st a j = Some key
    \<or> (\<exists>i < length (keys_until cr st until 0). a = sender \<and> key = keys_until cr st until 0 ! i
         \<and> unat j = unat (receiving_chain_message_number st) + i)"
  using assms(1)
proof (cases rule: skip_message_keys_cases)
  case noop
  then show ?thesis using assms(2) by simp
next
  case (skipped c)
  let ?n = "receiving_chain_message_number st"
  let ?m = "snd (snd (skip_run cr until c ?n (entry_keys st sender)))"
  show ?thesis
  proof (cases "a = sender")
    case True
    then have "bt_get (prune_skipped_message_keys ?m) j = Some key"
      using assms(2) by (simp add: skipped(4) skipped_key_entry)
    then have "bt_get ?m j = Some key"
      unfolding prune_skipped_message_keys_def by (rule prune_oldest_get)
    moreover have "bt_get ?m j = (if ?n \<le> j \<and> j < until then Some (key_at (chain_step cr) (unat j - unat ?n) c)
        else bt_get (entry_keys st sender) j)"
      using skipped(2) by (intro session_chain.skip_keys) simp
    ultimately have g: "(if ?n \<le> j \<and> j < until then Some (key_at (chain_step cr) (unat j - unat ?n) c)
        else skipped_key st sender j) = Some key"
      by (simp only: skipped_key_entry)
    show ?thesis
    proof (cases "?n \<le> j \<and> j < until")
      case inside: True
      then have "unat ?n \<le> unat j" "unat j < unat until"
        by (simp_all add: word_le_nat_alt word_less_nat_alt)
      then have i: "unat j - unat ?n < unat until - unat ?n" "unat j = unat ?n + (unat j - unat ?n)" by linarith+
      have "key = key_at (chain_step cr) (unat j - unat ?n) c" using g inside by simp
      then show ?thesis using i True skipped(1)
        by (intro disjI2 exI [of _ "unat j - unat ?n"]) (simp add: keys_until_def)
    next
      case False
      then show ?thesis using g True by auto
    qed
  next
    case False
    then show ?thesis using assms(2) by (simp add: skipped(4) skipped_key_def)
  qed
qed

lemma keys_spent_skip:
  assumes "skip_message_keys cr st until sender = Inr st'" "keys_spent cr D cts st"
    and "distinct (D @ keys_until cr st until 0)"
  shows "keys_spent cr (D @ keys_until cr st until 0) cts st'"
proof -
  let ?ks = "keys_until cr st until 0"
  note cases = skipped_key_skip [OF assms(1)]
  have old: "\<And>a k key. skipped_key st a k = Some key \<Longrightarrow> key \<in> set D"
    and inj: "\<And>a k b j key. skipped_key st a k = Some key \<Longrightarrow> skipped_key st b j = Some key \<Longrightarrow> a = b \<and> k = j"
    and spent: "\<And>ct. ct \<in> set cts \<Longrightarrow>
      \<exists>key \<in> set D. opens cr key ct \<and> (\<forall>a k. skipped_key st a k \<noteq> Some key)"
    using assms(2) unfolding keys_spent_def by blast+
  have dist: "key \<in> set D \<Longrightarrow> i < length ?ks \<Longrightarrow> key \<noteq> ?ks ! i" for key i
    using assms(3) by (auto dest: nth_mem)
  have nth: "i < length ?ks \<Longrightarrow> j < length ?ks \<Longrightarrow> ?ks ! i = ?ks ! j \<Longrightarrow> i = j" for i j
    using assms(3) by (simp add: nth_eq_iff_index_eq)
  show ?thesis
    unfolding keys_spent_def
  proof (intro conjI allI impI ballI)
    fix a k key assume "skipped_key st' a k = Some key"
    from cases [OF this] show "key \<in> set (D @ ?ks)" using old by auto
  next
    fix a k b j key assume "skipped_key st' a k = Some key" "skipped_key st' b j = Some key"
    note cs = cases [OF this(1)] cases [OF this(2)]
    show "a = b" using cs inj old dist by metis
    show "k = j" using cs inj old dist nth by (metis word_unat_eq_iff)
  next
    fix ct assume "ct \<in> set cts"
    then obtain key where key: "key \<in> set D" "opens cr key ct" "\<And>a k. skipped_key st a k \<noteq> Some key"
      using spent by blast
    then have "skipped_key st' a k \<noteq> Some key" for a k using cases [of a k key] dist by blast
    then show "\<exists>key \<in> set (D @ ?ks). opens cr key ct \<and> (\<forall>a k. skipped_key st' a k \<noteq> Some key)"
      using key by auto
  qed
qed

lemma keys_until_snoc:
  assumes "skip_message_keys cr st until sender = Inr st1" "receiving_chain_key st1 = Some c"
  shows "keys_until cr st until 1 = keys_until cr st until 0 @ [snd (chain_step cr c)]"
  using assms(1)
proof (cases rule: skip_message_keys_cases)
  case noop
  then show ?thesis using assms(2) by (simp add: keys_until_def word_le_nat_alt key_at_def)
next
  case (skipped c0)
  then show ?thesis using assms(2) by (simp add: keys_until_def key_at_def)
qed

lemma keys_spent_hit:
  assumes "try_skipped_message_keys cr st header ct sender = Inr (Some (st', p))"
    and "keys_spent cr D cts st"
  shows "keys_spent cr D (ct # cts) st'"
  using assms(1)
proof (cases rule: try_skipped_cases)
  case (1 e key bs)
  have key: "skipped_key st sender (number header) = Some key" using 1 by (simp add: skipped_key_def)
  have less: "skipped_key st a k = Some v \<and> (a, k) \<noteq> (sender, number header)"
    if "skipped_key st' a k = Some v" for a k v
    using that 1 by (auto simp: skipped_key_def bt_is_empty_get split: if_splits option.splits)
  have "opens cr key ct" using 1 by (simp add: opens_def)
  moreover have "skipped_key st' a k \<noteq> Some key" for a k
    using less [of a k key] key assms(2) unfolding keys_spent_def by blast
  moreover have "key \<in> set D" using key assms(2) unfolding keys_spent_def by blast
  ultimately show ?thesis
    using assms(2) less unfolding keys_spent_def by (auto; metis)
qed

lemma keys_spent_decrypt:
  assumes "ratchet_decrypt cr st header ct sender = Inr (st', p)" "keys_spent cr D cts st"
    and "distinct (D @ payload_keys cr st (number header) sender)"
  shows "keys_spent cr (D @ payload_keys cr st (number header) sender) (ct # cts) st'"
  using assms(1)
proof (cases rule: ratchet_decrypt_cases)
  case hit
  then have "payload_keys cr st (number header) sender = []"
    by (auto simp: payload_keys_def try_skipped_none)
  then show ?thesis using keys_spent_hit [OF hit assms(2)] by simp
next
  case (advance st1 c bs)
  let ?ks = "keys_until cr st (number header) 0" and ?key = "snd (chain_step cr c)"
  have keys: "payload_keys cr st (number header) sender = ?ks @ [?key]"
    using advance(1) keys_until_snoc [OF advance(2,3)] by (simp add: payload_keys_def)
  have s1: "keys_spent cr (D @ ?ks) cts st1"
    using keys_spent_skip [OF advance(2) assms(2)] assms(3) keys by simp
  have new: "?key \<notin> set (D @ ?ks)" using assms(3) keys by simp
  then have "skipped_key st1 a k \<noteq> Some ?key" for a k using s1 unfolding keys_spent_def by blast
  moreover have "opens cr ?key ct" using advance by (simp add: opens_def)
  ultimately have "keys_spent cr ((D @ ?ks) @ [?key]) (ct # cts) st1"
    using s1 unfolding keys_spent_def by auto
  moreover have same: "skipped_keys st' = skipped_keys st1" using advance(6) by simp
  ultimately show ?thesis unfolding keys keys_spent_skipped_cong [OF same] by simp
qed

lemma keys_spent_ratchet:
  assumes "receive_ratchet cr st rng header prev = (Inr st', rng')" "keys_spent cr D cts st"
    and "distinct (D @ keys_until cr st (previous_chain_length header) 0)"
  shows "keys_spent cr (D @ keys_until cr st (previous_chain_length header) 0) cts st'"
proof -
  let ?st1 = "follow_sender_key st header" and ?n = "previous_chain_length header"
  have f: "keys_until cr ?st1 ?n 0 = keys_until cr st ?n 0" "skipped_keys ?st1 = skipped_keys st"
    by (auto simp: follow_sender_key_def keys_until_def split: option.splits)
  have s1: "keys_spent cr D cts ?st1" unfolding keys_spent_skipped_cong [OF f(2)] by (rule assms(2))
  from assms(1) obtain st2 where
    st2: "(receiving_chain_key ?st1 = None \<and> st2 = ?st1) \<or> (\<exists>s. skip_message_keys cr ?st1 ?n s = Inr st2)"
    and step: "ratchet_step cr st2 rng = (Inr st', rng')"
    by (auto simp: receive_ratchet_def Let_def result_simps split: sum.splits if_splits)
  have "keys_spent cr (D @ keys_until cr ?st1 ?n 0) cts st2"
    using st2
  proof (elim disjE conjE exE)
    assume "receiving_chain_key ?st1 = None" "st2 = ?st1"
    then show ?thesis using s1 by (simp add: keys_until_def)
  next
    fix s assume "skip_message_keys cr ?st1 ?n s = Inr st2"
    then show ?thesis using s1 assms(3) unfolding f(1) [symmetric] by (rule keys_spent_skip)
  qed
  moreover have same: "skipped_keys st' = skipped_keys st2" using step by (auto elim!: ratchet_step_cases)
  ultimately show ?thesis unfolding f(1) keys_spent_skipped_cong [OF same] by simp
qed

text \<open>One accepted envelope: the state in which its payload is opened, and what is spent there.\<close>

lemma plan_receive_keys:
  assumes "plan_receive cr s rng env = (Inr plan, rng')" "keys_spent cr D cts (state s)"
    and "distinct (D @ receive_keys cr s rng env)"
  obtains E st header where "receive_keys cr s rng env =
      E @ payload_keys cr st (number header) (env_sender env)"
    "keys_spent cr (D @ E) cts st"
    "ratchet_decrypt cr st header (env_ciphertext env) (env_sender env) =
       Inr (receive_next_state plan, receive_payload plan)"
  using assms(1)
proof (cases rule: plan_receive_cases)
  case (1 header target st st' p)
  note d = 1(5) [folded 1(6)]
  show ?thesis
  proof (cases "target = Next")
    case True
    let ?E = "keys_until cr (state s) (previous_chain_length header) 0"
    have r: "receive_ratchet cr (state s) rng header (option_or (their_current_nostr_public_key (state s))
        (their_next_nostr_public_key (state s))) = (Inr st, rng')" using 1(4) True by simp
    then have ks: "receive_keys cr s rng env = ?E @ payload_keys cr st (number header) (env_sender env)"
      using 1(3) True by (simp add: receive_keys_def)
    then have "distinct (D @ ?E)" using assms(3) by auto
    then have "keys_spent cr (D @ ?E) cts st" by (rule keys_spent_ratchet [OF r assms(2)])
    then show ?thesis using that [OF ks] 1(5,6) by simp
  next
    case False
    then have "st = state s" using 1(4) by simp
    then show ?thesis using that [of "[]" st header] 1(3,5,6) False assms(2)
      by (simp add: receive_keys_def)
  qed
qed

lemma session_history_spent:
  assumes "session_history cr s D cts" "distinct D"
  shows "keys_spent cr D cts (state s)"
  using assms
proof (induction rule: session_history.induct)
  case (start rng their our is_initiator shared s rng')
  then have "skipped_keys (state s) = bt_empty" 
    by (auto simp: init_with_context_def init_initiator_def init_responder_def session_from_state_def initial_state_def Let_def result_simps split: sum.splits prod.splits if_splits)
  then show ?case by (simp add: keys_spent_def skipped_key_def)
next
  case (send s D cts draw payload now plan)
  then have "skipped_keys (send_next_state plan) = skipped_keys (state s)"
    by (auto simp: plan_send_def ratchet_encrypt_def Let_def result_simps split: if_splits)
  from keys_spent_skipped_cong [OF this, of cr] show ?case using send by (simp add: apply_send_def)
next
  case (receive s D cts rng env plan rng')
  from receive have "keys_spent cr D cts (state s)" by simp
  from plan_receive_keys [OF receive.hyps(2) this receive.prems]
  obtain E st header where ks: "receive_keys cr s rng env = E @ payload_keys cr st (number header) (env_sender env)"
    "keys_spent cr (D @ E) cts st"
    "ratchet_decrypt cr st header (env_ciphertext env) (env_sender env) =
       Inr (receive_next_state plan, receive_payload plan)" .
  have "distinct ((D @ E) @ payload_keys cr st (number header) (env_sender env))"
    using receive.prems ks(1) by simp
  from keys_spent_decrypt [OF ks(3,2) this] show ?case by (simp add: ks(1) apply_receive_def)
qed

lemma ratchet_decrypt_key:
  assumes "ratchet_decrypt cr st header ct sender = Inr (st', p)"
  obtains key where "opens cr key ct"
    "skipped_key st sender (number header) = Some key \<or> key \<in> set (payload_keys cr st (number header) sender)"
  using assms
proof (cases rule: ratchet_decrypt_cases)
  case hit
  then obtain e key bs where "bt_get (skipped_keys st) sender = Some e" "bt_get (message_keys e) (number header) = Some key"
    "b64_decode cr ct = Inr bs" "v2_decrypt cr key bs = Inr p" by (rule try_skipped_cases)
  then show ?thesis using that [of key] by (simp add: skipped_key_def opens_def)
next
  case (advance st1 c bs)
  then show ?thesis using that [of "snd (chain_step cr c)"] keys_until_snoc [OF advance(2,3)]
    by (simp add: payload_keys_def opens_def)
qed

text \<open>An envelope whose ciphertext has been accepted before is refused.\<close>

lemma replay_refused:
  assumes history: "session_history cr s D cts" and replay: "env_ciphertext env \<in> set cts"
    and dist: "distinct (D @ receive_keys cr s rng env)"
    and one_key: "\<And>k k'. k \<in> set (D @ receive_keys cr s rng env) \<Longrightarrow>
      k' \<in> set (D @ receive_keys cr s rng env) \<Longrightarrow>
      opens cr k (env_ciphertext env) \<Longrightarrow> opens cr k' (env_ciphertext env) \<Longrightarrow> k = k'"
  shows "\<not> is_ok (fst (plan_receive cr s rng env))"
proof
  assume "is_ok (fst (plan_receive cr s rng env))"
  then obtain plan rng' where r: "plan_receive cr s rng env = (Inr plan, rng')"
    by (cases "plan_receive cr s rng env") (auto simp: is_ok_iff)
  have "keys_spent cr D cts (state s)" using session_history_spent [OF history] dist by simp
  from plan_receive_keys [OF r this dist]
  obtain E st header where ks: "receive_keys cr s rng env = E @ payload_keys cr st (number header) (env_sender env)"
    "keys_spent cr (D @ E) cts st"
    "ratchet_decrypt cr st header (env_ciphertext env) (env_sender env) =
       Inr (receive_next_state plan, receive_payload plan)" .
  from ks(2) replay obtain old where old: "old \<in> set (D @ E)" "opens cr old (env_ciphertext env)"
    "\<And>a k. skipped_key st a k \<noteq> Some old" unfolding keys_spent_def by blast
  from ks(3) obtain key where key: "opens cr key (env_ciphertext env)"
    "skipped_key st (env_sender env) (number header) = Some key
      \<or> key \<in> set (payload_keys cr st (number header) (env_sender env))" by (rule ratchet_decrypt_key)
  have "key \<in> set (D @ E) \<or> key \<in> set (payload_keys cr st (number header) (env_sender env))"
    using key(2) ks(2) unfolding keys_spent_def by blast
  then have "key = old" using one_key [OF _ _ key(1) old(2)] old(1) ks(1) by auto
  then show False using key(2) old dist ks(1) by auto
qed

end
