(* ===== verification/Session_Properties.thy ===== *)
theory Session_Properties
  imports Crate_Instance Session_Replay
begin

text \<open>
  The properties of the double ratchet session, each with a concrete instance on \<open>demo_crypto\<close>
  where it has hypotheses.
\<close>

section \<open>A concrete conversation\<close>

definition demo_alice :: Session where
  "demo_alice = projr (fst (new_initiator demo_crypto [[3]] (DevicePubkey [1]) [2] [9]))"

definition demo_bob :: Session where
  "demo_bob = projr (fst (new_responder demo_crypto [[4]] (DevicePubkey [2]) [1] [9]))"

definition demo_sent :: "Session \<times> MessageEnvelope list" where
  "demo_sent = projr (send_all demo_crypto 0 demo_alice [[5], [6]] 100)"

lemma demo_alice_init:
  "new_initiator demo_crypto [[3]] (DevicePubkey [1]) [2] [9] = (Inr demo_alice, [])"
  unfolding demo_alice_def by code_simp

lemma demo_bob_init:
  "new_responder demo_crypto [[4]] (DevicePubkey [2]) [1] [9] = (Inr demo_bob, [])"
  unfolding demo_bob_def by code_simp

lemma demo_sent_ok: "send_all demo_crypto 0 demo_alice [[5], [6]] 100 = Inr demo_sent"
  unfolding demo_sent_def by code_simp

lemma demo_alice_next: "public_key (our_next_nostr_key (state demo_alice)) = DevicePubkey [3]"
  unfolding demo_alice_def by code_simp

lemma demo_sk: "sk_from_slice demo_crypto [w]" "pk_of_sk demo_crypto bs = bs"
  by (simp_all add: demo_simps)

section \<open>Delivery\<close>

text \<open>
  C1. Bootstrap and out-of-order delivery: after an initiator and a responder are initialised from
  the same invite (same shared secret, each other's keys), any number up to \<^verbatim>\<open>MAX_SKIP\<close> of messages
  the initiator sends is decrypted by the responder to the original payloads, whatever subset of them
  arrives and in whatever order, including when the first message to arrive is not the first sent.
\<close>

theorem bootstrap_any_order_delivery:
  assumes "delivery_crypto cr" "tweak_agrees cr"
    and "sk_from_slice cr inviter" "sk_from_slice cr initiator"
    and "new_initiator cr rng1 (DevicePubkey (pk_of_sk cr inviter)) initiator shared = (Inr alice, rng1')"
    and "new_responder cr rng2 (DevicePubkey (pk_of_sk cr initiator)) inviter shared = (Inr bob, rng2')"
    and "public_key (our_next_nostr_key (state alice)) \<noteq> DevicePubkey (pk_of_sk cr initiator)"
    and "send_all cr draw alice ps now = Inr (alice', es)" "length ps \<le> MAX_SKIP"
    and "distinct order" "set order \<subseteq> {..<length ps}"
    and "\<exists>c \<in> set rng. sk_from_slice cr c"
  shows "\<exists>bob' rng'. receive_all cr bob rng (map ((!) es) order) = (Inr (bob', map ((!) ps) order), rng')"
  by (rule bootstrap_delivery [OF assms])

theorem bootstrap_any_order_delivery_witness:
  "\<exists>bob' rng'. receive_all demo_crypto demo_bob [[7]] (map ((!) (snd demo_sent)) [1, 0]) =
     (Inr (bob', [[6], [5]]), rng')"
proof -
  have "\<exists>bob' rng'. receive_all demo_crypto demo_bob [[7]] (map ((!) (snd demo_sent)) [1, 0]) =
     (Inr (bob', map ((!) [[5], [6]]) [1, 0]), rng')"
  proof (rule bootstrap_any_order_delivery [OF demo_delivery demo_tweak])
    show "new_initiator demo_crypto [[3]] (DevicePubkey (pk_of_sk demo_crypto [1])) [2] [9] = (Inr demo_alice, [])"
      using demo_alice_init by (simp add: demo_sk)
    show "new_responder demo_crypto [[4]] (DevicePubkey (pk_of_sk demo_crypto [2])) [1] [9] = (Inr demo_bob, [])"
      using demo_bob_init by (simp add: demo_sk)
    show "send_all demo_crypto 0 demo_alice [[5], [6]] 100 = Inr (fst demo_sent, snd demo_sent)"
      using demo_sent_ok by simp
  qed (auto simp: demo_sk demo_alice_next MAX_SKIP_def)
  then show ?thesis by simp
qed

lemma demo_in_turn: "in_turn demo_crypto (state demo_alice) (state demo_bob)"
proof -
  obtain na sb ck where "new_chain demo_crypto [2] na sb ck (state demo_alice) (state demo_bob)"
    by (rule new_chain_init [OF demo_keys_ok demo_dh demo_tweak,
          of "()" "[1]" "[2]" "[[3]]" "[9]" demo_alice "[]" "[[4]]" demo_bob "[]"])
       (use demo_alice_init demo_bob_init in \<open>simp_all add: demo_sk demo_alice_next\<close>)
  moreover have "state demo_alice = initial_state (root_key (state demo_alice)) (sending_chain_key (state demo_alice))
      (our_current_nostr_key (state demo_alice)) (our_next_nostr_key (state demo_alice)) (DevicePubkey [0, 1])"
    unfolding demo_alice_def by code_simp
  moreover have "state demo_bob = initial_state [9] None None (our_next_nostr_key (state demo_bob)) (DevicePubkey [2])"
    unfolding demo_bob_def by code_simp
  ultimately show ?thesis
    unfolding in_turn_def by (metis (no_types, lifting) SessionState.select_convs initial_state_def order_refl)
qed

text \<open>
  C2. Turn taking: when it is the turn of one party and all earlier messages have been received, the
  messages of its turn are decrypted by the other party in order, and afterwards the two states are
  again in the same relation with the roles exchanged, so a conversation can go on for ever.
\<close>

theorem turn_exchange:
  assumes "delivery_crypto cr" "in_turn cr (state a) (state b)"
    and "send_all cr draw a ps now = Inr (a', es)" "ps \<noteq> []" "length ps \<le> MAX_SKIP"
    and "random_secret_key_bytes cr rng = (Inr nb, rng')"
    and "pk_of_sk cr nb \<noteq> pk_of_sk cr (private_key (our_next_nostr_key (state b)))"
  shows "\<exists>b'. receive_all cr b rng es = (Inr (b', ps), rng') \<and> in_turn cr (state b') (state a')"
  by (rule turn_exchange_aux [OF assms])

theorem turn_exchange_witness:
  "\<exists>b'. receive_all demo_crypto demo_bob [[7]] (snd demo_sent) = (Inr (b', [[5], [6]]), [])
     \<and> in_turn demo_crypto (state b') (state (fst demo_sent))"
proof (rule turn_exchange [OF demo_delivery demo_in_turn])
  show "send_all demo_crypto 0 demo_alice [[5], [6]] 100 = Inr (fst demo_sent, snd demo_sent)"
    using demo_sent_ok by simp
  show "pk_of_sk demo_crypto [7] \<noteq> pk_of_sk demo_crypto (private_key (our_next_nostr_key (state demo_bob)))"
    unfolding demo_bob_def by code_simp
qed (simp_all add: demo_simps MAX_SKIP_def)

section \<open>Safety\<close>

text \<open>
  C3. The invariant of a session: in every state reachable from initialisation by committed sends and
  receives, under any envelopes an attacker may present, our key pairs are valid pairs, there is a
  peer key to encrypt to, a sending chain exists exactly when there is a current key, no sender keeps
  an empty entry of skipped keys and none keeps more than \<^verbatim>\<open>MAX_SKIP\<close> of them.
\<close>

theorem session_reachable_invariant:
  assumes "session_reachable cr s"
  shows "session_inv cr (state s)"
  using assms by (rule session_reachable_inv)

theorem session_reachable_invariant_witness: "session_inv demo_crypto (state (fst demo_sent))"
proof (rule session_reachable_invariant)
  let ?s1 = "fst (apply_send demo_alice (projr (plan_send demo_crypto 0 demo_alice [5] 100)))"
  let ?s2 = "fst (apply_send ?s1 (projr (plan_send demo_crypto 2 ?s1 [6] 100)))"
  have "session_step demo_crypto demo_alice ?s1"
    by (rule session_step.send [of _ 0 _ "[5]" 100]) (unfold demo_alice_def, code_simp)
  moreover have "session_step demo_crypto ?s1 ?s2"
    by (rule session_step.send [of _ 2 _ "[6]" 100]) (unfold demo_alice_def, code_simp)
  moreover have "fst demo_sent = ?s2" unfolding demo_sent_def demo_alice_def by code_simp
  moreover have "session_reachable demo_crypto demo_alice"
    using demo_alice_init unfolding new_initiator_def by (rule session_reachable.start)
  ultimately show "session_reachable demo_crypto (fst demo_sent)"
    using session_reachable.step by metis
qed


definition demo_received :: ReceivePlan where
  "demo_received = projr (fst (plan_receive demo_crypto demo_bob [[7]] (hd (snd demo_sent))))"

text \<open>The second message arrives first, the first one is opened with its stored key, then comes back.\<close>

definition demo_late :: Session where
  "demo_late = fst (apply_receive demo_bob (projr (fst (plan_receive demo_crypto demo_bob [[7]] (snd demo_sent ! 1)))))"

definition demo_caught_up :: Session where
  "demo_caught_up = fst (apply_receive demo_late (projr (fst (plan_receive demo_crypto demo_late [] (snd demo_sent ! 0)))))"

lemma demo_history:
  "session_history demo_crypto demo_caught_up
     (([] @ receive_keys demo_crypto demo_bob [[7]] (snd demo_sent ! 1)) @ receive_keys demo_crypto demo_late [] (snd demo_sent ! 0))
     [env_ciphertext (snd demo_sent ! 0), env_ciphertext (snd demo_sent ! 1)]"
  unfolding demo_caught_up_def
proof (rule session_history.receive)
  have "session_history demo_crypto demo_bob [] []"
    using demo_bob_init unfolding new_responder_def by (rule session_history.start)
  moreover have "plan_receive demo_crypto demo_bob [[7]] (snd demo_sent ! 1) =
      (Inr (projr (fst (plan_receive demo_crypto demo_bob [[7]] (snd demo_sent ! 1)))), [])"
    unfolding demo_sent_def demo_alice_def demo_bob_def by code_simp
  ultimately show "session_history demo_crypto demo_late ([] @ receive_keys demo_crypto demo_bob [[7]] (snd demo_sent ! 1))
      [env_ciphertext (snd demo_sent ! 1)]"
    unfolding demo_late_def by (rule session_history.receive)
  show "plan_receive demo_crypto demo_late [] (snd demo_sent ! 0) =
      (Inr (projr (fst (plan_receive demo_crypto demo_late [] (snd demo_sent ! 0)))), [])"
    unfolding demo_late_def demo_sent_def demo_alice_def demo_bob_def by code_simp
qed


text \<open>
  Bounded work and memory under a hostile header: on a chain that is already receiving, a message
  number more than \<^verbatim>\<open>MAX_SKIP\<close> ahead of the chain is refused before any key is derived, unless its
  key had been stored.
\<close>

theorem far_ahead_message_refused:
  assumes "env_version env = METADATA_PRIVACY_VERSION" "matches_sender s (env_sender env)"
    and "decrypt_header cr (state s) (encrypted_header env) (env_sender env) = Inr (header, target)"
    and "target \<noteq> Next" "receiving_chain_key (state s) \<noteq> None"
    and "skipped_key (state s) (env_sender env) (number header) = None"
    and "unat (receiving_chain_message_number (state s)) + MAX_SKIP < unat (number header)"
  shows "plan_receive cr s rng env = (Inl (Domain TooManySkippedMessages), rng)"
  using assms
  by (simp add: plan_receive_def Let_def ratchet_decrypt_def try_skipped_none skip_message_keys_too_many)

definition demo_far :: MessageEnvelope where
  "demo_far = (hd (snd demo_sent))\<lparr>encrypted_header :=
     projr (nip44_encrypt demo_crypto 0 [2] [0, 1]
       (projr (header_to_json demo_crypto \<lparr>number = 1002, previous_chain_length = 0,
          next_public_key = DevicePubkey [3]\<rparr>)))\<rparr>"

lemma demo_open_sealed:
  "open_header demo_crypto [0, 1] (DevicePubkey [2])
     (projr (nip44_encrypt demo_crypto 0 [2] [0, 1] (projr (header_to_json demo_crypto h)))) =
   Inr (Some (Inr h))"
  using demo_nip44_roundtrip demo_header
  by (auto simp: open_header_def nip44_roundtrip_def header_roundtrip_def secret_key_from_bytes_def
        device_to_nostr_def demo_simps)

theorem far_ahead_message_refused_witness:
  "plan_receive demo_crypto (fst (apply_receive demo_bob demo_received)) [] demo_far =
     (Inl (Domain TooManySkippedMessages), [])"
proof (rule far_ahead_message_refused)
  let ?b = "fst (apply_receive demo_bob demo_received)"
  note defs = demo_received_def demo_sent_def demo_alice_def demo_bob_def
  have far: "env_version demo_far = env_version (hd (snd demo_sent))"
    "env_sender demo_far = env_sender (hd (snd demo_sent))"
    by (simp_all add: demo_far_def)
  show "env_version demo_far = METADATA_PRIVACY_VERSION" unfolding far defs by code_simp
  show "matches_sender ?b (env_sender demo_far)" unfolding far defs by code_simp
  have "env_sender demo_far = DevicePubkey [2]" unfolding far defs by code_simp
  moreover have "map_option private_key (our_current_nostr_key (state ?b)) = Some [0, 1]"
    unfolding defs by code_simp
  ultimately show "decrypt_header demo_crypto (state ?b) (encrypted_header demo_far) (env_sender demo_far) =
      Inr (\<lparr>number = 1002, previous_chain_length = 0, next_public_key = DevicePubkey [3]\<rparr>, Current)"
    using demo_open_sealed by (auto intro: decrypt_header_current simp: demo_far_def)
  have "skipped_keys (state ?b) = bt_empty" unfolding defs by code_simp
  then show "skipped_key (state ?b) (env_sender demo_far)
      (number \<lparr>number = 1002, previous_chain_length = 0, next_public_key = DevicePubkey [3]\<rparr>) = None"
    by (simp add: skipped_key_def)
  have "receiving_chain_message_number (state ?b) = 1" unfolding defs by code_simp
  then show "unat (receiving_chain_message_number (state ?b)) + MAX_SKIP
      < unat (number \<lparr>number = 1002, previous_chain_length = 0, next_public_key = DevicePubkey [3]\<rparr>)"
    by (simp add: MAX_SKIP_def)
  have "receiving_chain_key (state ?b) = None \<longleftrightarrow> False" unfolding defs by code_simp
  then show "receiving_chain_key (state ?b) \<noteq> None" by simp
qed simp

end
