(* ===== verification/Sender_Key.thy ===== *)
theory Sender_Key
  imports Protocol_Types Symmetric_Chain
begin

text \<open>
  The group sender key (\<^verbatim>\<open>sender_key.rs\<close>) and the budgeted blind decryption search
  (\<^verbatim>\<open>sender_key/blind.rs\<close>), in which the receiver tries every stored and future message key because
  the message number is not on the wire. The text of an error that formats numbers keeps its fixed
  part only.
\<close>

section \<open>State\<close>

definition SENDER_KEY_MAX_SKIP :: nat where "SENDER_KEY_MAX_SKIP = 10000"
definition SENDER_KEY_MAX_STORED_SKIPPED_KEYS :: nat where "SENDER_KEY_MAX_STORED_SKIPPED_KEYS = 2000"

definition SENDER_KEY_KDF_SALT :: bytes where
  "SENDER_KEY_KDF_SALT = map of_char ''ndr-sender-key-v1''"

record SenderKeyState =
  key_id :: u32
  chain_key :: bytes
  iteration :: u32
  skipped_message_keys :: "(u32, bytes) btmap"

record SenderKeyMessageContent =
  content_key_id :: u32
  content_message_number :: u32
  content_ciphertext :: bytes

record SenderKeyEncryptPlan =
  encrypt_next_state :: SenderKeyState
  encrypt_key_id :: u32
  encrypt_message_number :: u32
  encrypt_ciphertext :: bytes
  encrypt_plaintext :: bytes

record SenderKeyDecryptPlan =
  decrypt_next_state :: SenderKeyState
  decrypt_plaintext :: bytes

record SenderKeyBlindDecryptPlan =
  blind_next_state :: SenderKeyState
  blind_key_id :: u32
  blind_message_number :: u32
  blind_plaintext :: bytes

definition sender_key_new :: "u32 \<Rightarrow> bytes \<Rightarrow> u32 \<Rightarrow> SenderKeyState" where
  "sender_key_new kid ck n =
     \<lparr>key_id = kid, chain_key = ck, iteration = n, skipped_message_keys = bt_empty\<rparr>"

section \<open>Key derivation\<close>

definition derive_message_key :: "'x crypto_scheme \<Rightarrow> bytes \<Rightarrow> bytes \<times> bytes" where
  "derive_message_key cr ck =
     (hkdf_sha256 cr SENDER_KEY_KDF_SALT ck [1], hkdf_sha256 cr SENDER_KEY_KDF_SALT ck [2])"

definition decrypt_with_message_key :: "'x crypto_scheme \<Rightarrow> bytes \<Rightarrow> bytes \<Rightarrow> bytes res" where
  "decrypt_with_message_key cr message_key ciphertext = v2_decrypt cr message_key ciphertext"

definition prune_skipped :: "(u32, bytes) btmap \<Rightarrow> (u32, bytes) btmap" where
  "prune_skipped m = prune_oldest SENDER_KEY_MAX_STORED_SKIPPED_KEYS m"

section \<open>Encryption\<close>

definition plan_encrypt ::
  "'x crypto_scheme \<Rightarrow> nat \<Rightarrow> SenderKeyState \<Rightarrow> bytes \<Rightarrow> SenderKeyEncryptPlan res" where
  "plan_encrypt cr draw st plaintext =
     (let (next_chain_key, message_key) = derive_message_key cr (chain_key st)
      in and_then (ok_or (checked_add (iteration st) 1) (Encryption ''sender-key iteration overflow''))
           (\<lambda>next_iteration.
         and_then (v2_encrypt cr draw message_key plaintext) (\<lambda>ciphertext.
           Inr \<lparr>encrypt_next_state = st\<lparr>chain_key := next_chain_key, iteration := next_iteration\<rparr>,
                encrypt_key_id = key_id st,
                encrypt_message_number = iteration st,
                encrypt_ciphertext = ciphertext,
                encrypt_plaintext = plaintext\<rparr>)))"

definition apply_encrypt :: "SenderKeyState \<Rightarrow> SenderKeyEncryptPlan \<Rightarrow> SenderKeyState \<times> SenderKeyMessageContent" where
  "apply_encrypt st plan = (encrypt_next_state plan,
     \<lparr>content_key_id = encrypt_key_id plan, content_message_number = encrypt_message_number plan,
      content_ciphertext = encrypt_ciphertext plan\<rparr>)"

definition sk_encrypt_to_bytes ::
  "'x crypto_scheme \<Rightarrow> nat \<Rightarrow> SenderKeyState \<Rightarrow> bytes \<Rightarrow> (u32 \<times> bytes) res \<times> SenderKeyState" where
  "sk_encrypt_to_bytes cr draw st plaintext =
     (case plan_encrypt cr draw st plaintext of
        Inl e \<Rightarrow> (Inl e, st)
      | Inr plan \<Rightarrow>
        (let (st', out) = apply_encrypt st plan
         in (Inr (content_message_number out, content_ciphertext out), st')))"

definition sk_encrypt ::
  "'x crypto_scheme \<Rightarrow> nat \<Rightarrow> SenderKeyState \<Rightarrow> bytes \<Rightarrow> (u32 \<times> string) res \<times> SenderKeyState" where
  "sk_encrypt cr draw st plaintext =
     (case sk_encrypt_to_bytes cr draw st plaintext of
        (Inl e, st') \<Rightarrow> (Inl e, st')
      | (Inr (message_number, ciphertext), st') \<Rightarrow> (Inr (message_number, b64_encode cr ciphertext), st'))"

section \<open>Decryption by message number\<close>

definition sk_overflow :: Error where
  "sk_overflow = Decryption ''sender-key iteration overflow''"

function sk_skip_loop ::
  "'x crypto_scheme \<Rightarrow> u32 \<Rightarrow> bytes \<Rightarrow> u32 \<Rightarrow> (u32, bytes) btmap \<Rightarrow>
   (bytes \<times> u32 \<times> (u32, bytes) btmap) res" where
  "sk_skip_loop cr message_number ck n keys =
     (if n < message_number
      then let (next_chain_key, message_key) = derive_message_key cr ck
           in case checked_add n 1 of
                None \<Rightarrow> Inl sk_overflow
              | Some n' \<Rightarrow> sk_skip_loop cr message_number next_chain_key n' (bt_insert n message_key keys)
      else Inr (ck, n, keys))"
  by pat_completeness auto
termination
  by (relation "measure (\<lambda>(cr, until, ck, n, keys). unat until - unat n)")
     (auto simp: word_diff_step checked_add_def split: if_splits)

declare sk_skip_loop.simps [simp del]

definition decrypt_in_place ::
  "'x crypto_scheme \<Rightarrow> SenderKeyState \<Rightarrow> u32 \<Rightarrow> bytes \<Rightarrow> (SenderKeyState \<times> bytes) res" where
  "decrypt_in_place cr st message_number ciphertext =
     (if message_number < iteration st
      then case bt_get (skipped_message_keys st) message_number of
             None \<Rightarrow> Inl (Decryption ''duplicate or missing sender-key message'')
           | Some message_key \<Rightarrow>
             and_then (decrypt_with_message_key cr message_key ciphertext) (\<lambda>plaintext.
               Inr (st\<lparr>skipped_message_keys := bt_remove message_number (skipped_message_keys st)\<rparr>,
                    plaintext))
      else if unat (message_number - iteration st) > SENDER_KEY_MAX_SKIP
      then Inl (Domain TooManySkippedMessages)
      else and_then (sk_skip_loop cr message_number (chain_key st) (iteration st) (skipped_message_keys st))
        (\<lambda>(ck, n, keys).
          let (next_chain_key, message_key) = derive_message_key cr ck
          in and_then (ok_or (checked_add n 1) sk_overflow) (\<lambda>n'.
             and_then (decrypt_with_message_key cr message_key ciphertext) (\<lambda>plaintext.
               Inr (st\<lparr>chain_key := next_chain_key, iteration := n',
                       skipped_message_keys := prune_skipped keys\<rparr>, plaintext)))))"

definition plan_decrypt ::
  "'x crypto_scheme \<Rightarrow> SenderKeyState \<Rightarrow> SenderKeyMessageContent \<Rightarrow> SenderKeyDecryptPlan res" where
  "plan_decrypt cr st message =
     (if content_key_id message \<noteq> key_id st
      then Inl (Decryption ''sender-key id mismatch'')
      else and_then (decrypt_in_place cr st (content_message_number message) (content_ciphertext message))
        (\<lambda>(next_state, plaintext).
          Inr \<lparr>decrypt_next_state = next_state, decrypt_plaintext = plaintext\<rparr>))"

definition apply_decrypt :: "SenderKeyState \<Rightarrow> SenderKeyDecryptPlan \<Rightarrow> SenderKeyState \<times> bytes" where
  "apply_decrypt st plan = (decrypt_next_state plan, decrypt_plaintext plan)"

definition sk_decrypt_from_bytes ::
  "'x crypto_scheme \<Rightarrow> SenderKeyState \<Rightarrow> u32 \<Rightarrow> bytes \<Rightarrow> bytes res \<times> SenderKeyState" where
  "sk_decrypt_from_bytes cr st message_number ciphertext =
     (case plan_decrypt cr st \<lparr>content_key_id = key_id st, content_message_number = message_number,
                              content_ciphertext = ciphertext\<rparr> of
        Inl e \<Rightarrow> (Inl e, st)
      | Inr plan \<Rightarrow> (Inr (snd (apply_decrypt st plan)), fst (apply_decrypt st plan)))"

definition sk_decrypt ::
  "'x crypto_scheme \<Rightarrow> SenderKeyState \<Rightarrow> u32 \<Rightarrow> string \<Rightarrow> bytes res \<times> SenderKeyState" where
  "sk_decrypt cr st message_number ciphertext =
     (if iteration st \<le> message_number \<and> unat (message_number - iteration st) > SENDER_KEY_MAX_SKIP
      then (Inl (Domain TooManySkippedMessages), st)
      else case map_err Decryption (b64_decode cr ciphertext) of
             Inl e \<Rightarrow> (Inl e, st)
           | Inr bs \<Rightarrow> sk_decrypt_from_bytes cr st message_number bs)"

section \<open>Blind decryption\<close>

record BlindDecryptCursor =
  cursor_key_id :: u32
  cursor_chain_key :: bytes
  cursor_iteration :: u32
  cursor_skipped :: "(u32 \<times> bytes) list"
  next_skipped :: nat
  searching_skipped :: bool
  max_message_number :: u32

datatype BlindDecryptStep = Pending | Exhausted | Complete SenderKeyBlindDecryptPlan

definition blind_cursor_new :: "SenderKeyState \<Rightarrow> BlindDecryptCursor" where
  "blind_cursor_new st =
     \<lparr>cursor_key_id = key_id st,
      cursor_chain_key = chain_key st,
      cursor_iteration = iteration st,
      cursor_skipped = bt_entries (skipped_message_keys st),
      next_skipped = 0,
      searching_skipped = True,
      max_message_number = saturating_add (iteration st) (of_nat SENDER_KEY_MAX_SKIP)\<rparr>"

definition planned_state :: "BlindDecryptCursor \<Rightarrow> u32 option \<Rightarrow> SenderKeyState" where
  "planned_state cur consumed_skipped =
     \<lparr>key_id = cursor_key_id cur,
      chain_key = cursor_chain_key cur,
      iteration = cursor_iteration cur,
      skipped_message_keys =
        bt_of_list (filter (\<lambda>(number, _). Some number \<noteq> consumed_skipped) (cursor_skipped cur))\<rparr>"

text \<open>\<^verbatim>\<open>binary_search_by_key\<close> on a sorted sequence: the position of the key, or where it belongs.\<close>

definition binary_search_by_key :: "'k::linorder \<Rightarrow> ('k \<times> 'v) list \<Rightarrow> nat + nat" where
  "binary_search_by_key k xs =
     (let p = length (takeWhile (\<lambda>(k', _). k' < k) xs)
      in if p < length xs \<and> fst (xs ! p) = k then Inr p else Inl p)"

text \<open>The loop \<^verbatim>\<open>while deque.len() > max { deque.pop_front() }\<close>.\<close>

fun pop_front_while_longer :: "nat \<Rightarrow> 'a list \<Rightarrow> 'a list" where
  "pop_front_while_longer mx [] = []"
| "pop_front_while_longer mx (x # xs) =
     (if length (x # xs) > mx then pop_front_while_longer mx xs else x # xs)"

definition cursor_prune_skipped :: "BlindDecryptCursor \<Rightarrow> BlindDecryptCursor" where
  "cursor_prune_skipped cur =
     cur\<lparr>cursor_skipped :=
       pop_front_while_longer SENDER_KEY_MAX_STORED_SKIPPED_KEYS (cursor_skipped cur)\<rparr>"

definition retain_failed_key :: "BlindDecryptCursor \<Rightarrow> u32 \<Rightarrow> bytes \<Rightarrow> BlindDecryptCursor" where
  "retain_failed_key cur number key =
     (let xs = cursor_skipped cur;
          ys = (if xs = [] \<or> fst (last xs) < number then xs @ [(number, key)]
                else case binary_search_by_key number xs of
                       Inr index \<Rightarrow> xs[index := (fst (xs ! index), key)]
                     | Inl index \<Rightarrow> take index xs @ (number, key) # drop index xs)
      in cursor_prune_skipped (cur\<lparr>cursor_skipped := ys\<rparr>))"

text \<open>
  One iteration of the search loop: a failed trial to go on from, or a return value with the cursor
  and the number of trials it consumed.
\<close>

datatype Trial = Retry BlindDecryptCursor | Return "BlindDecryptStep res" BlindDecryptCursor nat

definition chain_trial :: "'x crypto_scheme \<Rightarrow> bytes \<Rightarrow> BlindDecryptCursor \<Rightarrow> Trial" where
  "chain_trial cr ciphertext cur =
     (if cursor_iteration cur > max_message_number cur then Return (Inr Exhausted) cur 0
      else
        let number = cursor_iteration cur;
            (next_chain_key, message_key) = derive_message_key cr (cursor_chain_key cur);
            cur = cur\<lparr>cursor_chain_key := next_chain_key\<rparr>
        in case checked_add number 1 of
             None \<Rightarrow> Return (Inl sk_overflow) cur 1
           | Some n' \<Rightarrow>
             (let cur = cur\<lparr>cursor_iteration := n'\<rparr>
              in case decrypt_with_message_key cr message_key ciphertext of
                   Inr plaintext \<Rightarrow>
                     (let cur = cursor_prune_skipped cur
                      in Return (Inr (Complete \<lparr>blind_next_state = planned_state cur None,
                           blind_key_id = cursor_key_id cur, blind_message_number = number,
                           blind_plaintext = plaintext\<rparr>)) cur 1)
                 | Inl _ \<Rightarrow> Retry (retain_failed_key cur number message_key)))"

definition blind_trial :: "'x crypto_scheme \<Rightarrow> bytes \<Rightarrow> BlindDecryptCursor \<Rightarrow> Trial" where
  "blind_trial cr ciphertext cur =
     (if searching_skipped cur
      then if next_skipped cur < length (cursor_skipped cur)
           then let (number, key) = cursor_skipped cur ! next_skipped cur;
                    cur = cur\<lparr>next_skipped := next_skipped cur + 1\<rparr>
                in case decrypt_with_message_key cr key ciphertext of
                     Inr plaintext \<Rightarrow>
                       Return (Inr (Complete \<lparr>blind_next_state = planned_state cur (Some number),
                         blind_key_id = cursor_key_id cur, blind_message_number = number,
                         blind_plaintext = plaintext\<rparr>)) cur 1
                   | Inl _ \<Rightarrow> Retry cur
           else chain_trial cr ciphertext (cur\<lparr>searching_skipped := False\<rparr>)
      else chain_trial cr ciphertext cur)"

fun advance ::
  "'x crypto_scheme \<Rightarrow> bytes \<Rightarrow> BlindDecryptCursor \<Rightarrow> nat \<Rightarrow> BlindDecryptStep res \<times> BlindDecryptCursor \<times> nat" where
  "advance cr ciphertext cur 0 = (Inr Pending, cur, 0)"
| "advance cr ciphertext cur (Suc remaining) =
     (case blind_trial cr ciphertext cur of
        Retry cur' \<Rightarrow> advance cr ciphertext cur' remaining
      | Return r cur' used \<Rightarrow> (r, cur', Suc remaining - used))"

text \<open>\<^verbatim>\<open>usize::MAX\<close> on a 64-bit target.\<close>

definition USIZE_MAX :: nat where "USIZE_MAX = 2 ^ 64 - 1"

definition plan_decrypt_blind ::
  "'x crypto_scheme \<Rightarrow> SenderKeyState \<Rightarrow> bytes \<Rightarrow> SenderKeyBlindDecryptPlan res" where
  "plan_decrypt_blind cr st ciphertext =
     (case fst (advance cr ciphertext (blind_cursor_new st) USIZE_MAX) of
        Inl e \<Rightarrow> Inl e
      | Inr (Complete plan) \<Rightarrow> Inr plan
      | Inr Exhausted \<Rightarrow> Inl (Decryption ''sender-key blind decrypt failed'')
      | Inr Pending \<Rightarrow> Inl (Decryption ''sender-key blind decrypt failed''))"

text \<open>For evaluation, the bounds as comparisons on machine words.\<close>

lemma max_skip_word: "unat (w :: u32) > SENDER_KEY_MAX_SKIP \<longleftrightarrow> 10000 < w"
  by (simp add: SENDER_KEY_MAX_SKIP_def word_less_nat_alt)

lemma prune_skipped_code [code]: "prune_skipped m = bt_drop (nat (int (bt_len m) - 2000)) m"
  by (simp add: prune_skipped_def prune_oldest_drop SENDER_KEY_MAX_STORED_SKIPPED_KEYS_def nat_diff_distrib')

lemmas decrypt_in_place_code [code] = decrypt_in_place_def [unfolded max_skip_word]
lemmas sk_decrypt_code [code] = sk_decrypt_def [unfolded max_skip_word]

section \<open>The message chain\<close>

lemma derive_message_key_kdf2: "derive_message_key cr ck = kdf2 cr ck SENDER_KEY_KDF_SALT"
  by (simp add: derive_message_key_def kdf2_def)

lemma sk_skip_loop_stop: "\<not> n < until \<Longrightarrow> sk_skip_loop cr until c n m = Inr (c, n, m)"
  by (simp add: sk_skip_loop.simps)

lemma checked_add_one_less: "n < (m :: u32) \<Longrightarrow> checked_add n 1 = Some (n + 1)"
  by (simp add: checked_add_Some unat_plus_one)

lemma sk_skip_loop_step:
  "n < until \<Longrightarrow> sk_skip_loop cr until c n m =
   sk_skip_loop cr until (fst (derive_message_key cr c)) (n + 1) (bt_insert n (snd (derive_message_key cr c)) m)"
  by (subst sk_skip_loop.simps) (simp add: checked_add_one_less case_prod_unfold Let_def)

text \<open>The overflow check inside the loop never fires, so the loop always ends with a key chain.\<close>

lemma sk_skip_loop_total: "\<exists>r. sk_skip_loop cr until c n m = Inr r"
proof (cases "n \<le> until")
  case True
  then show ?thesis
    by (induction n arbitrary: c m rule: word_count_induct)
       (auto simp: sk_skip_loop_stop sk_skip_loop_step)
qed (simp add: sk_skip_loop_stop)

definition sk_skip_run ::
  "'x crypto_scheme \<Rightarrow> u32 \<Rightarrow> bytes \<Rightarrow> u32 \<Rightarrow> (u32, bytes) btmap \<Rightarrow> bytes \<times> u32 \<times> (u32, bytes) btmap" where
  "sk_skip_run cr until c n m = projr (sk_skip_loop cr until c n m)"

lemma sk_skip_loop_run: "sk_skip_loop cr until c n m = Inr (sk_skip_run cr until c n m)"
  using sk_skip_loop_total [of cr until c n m] by (auto simp: sk_skip_run_def)

interpretation sender_chain: symmetric_chain "derive_message_key cr" "sk_skip_run cr"
  for cr :: "'x crypto_scheme"
  by unfold_locales (simp_all add: sk_skip_run_def sk_skip_loop_stop sk_skip_loop_step)

text \<open>Decryption ahead of the chain, in terms of the reference chain.\<close>

lemma decrypt_in_place_ahead:
  assumes "iteration st \<le> n" "unat n \<le> unat (iteration st) + SENDER_KEY_MAX_SKIP"
  shows "decrypt_in_place cr st n ct =
    (let d = unat n - unat (iteration st) in
     and_then (ok_or (checked_add n 1) sk_overflow) (\<lambda>n'.
     and_then (decrypt_with_message_key cr (key_at (derive_message_key cr) d (chain_key st)) ct) (\<lambda>p.
       Inr (st\<lparr>chain_key := chain_at (derive_message_key cr) (Suc d) (chain_key st), iteration := n',
               skipped_message_keys := prune_skipped (snd (snd
                 (sk_skip_run cr n (chain_key st) (iteration st) (skipped_message_keys st))))\<rparr>, p))))"
proof -
  have "\<not> unat (n - iteration st) > SENDER_KEY_MAX_SKIP"
    using assms by (simp add: unat_sub_le le_diff_conv add.commute)
  then show ?thesis
    using assms sender_chain.skip_chain [OF assms(1), of cr "chain_key st" "skipped_message_keys st"]
    by (auto simp: decrypt_in_place_def sk_skip_loop_run case_prod_unfold Let_def key_at_def
          chain_at_Suc_outer simp del: chain_at.simps)
qed

lemma decrypt_in_place_too_far:
  assumes "unat (iteration st) + SENDER_KEY_MAX_SKIP < unat n"
  shows "decrypt_in_place cr st n ct = Inl (Domain TooManySkippedMessages)"
proof -
  have "iteration st \<le> n" "SENDER_KEY_MAX_SKIP < unat n - unat (iteration st)"
    using assms by (simp_all add: word_le_nat_alt)
  then show ?thesis by (auto simp: decrypt_in_place_def unat_sub_le)
qed

end
