(* ===== verification/Sender_Key_Search.thy ===== *)
theory Sender_Key_Search
  imports Sender_Key
begin

text \<open>
  The blind search of a sender key finds what decryption by message number would find: facts about
  pruning in stages, the invariant of the search cursor, and the effect of a trial.
\<close>

section \<open>Keeping the newest keys in stages\<close>

lemma pop_front_drop: "pop_front_while_longer mx xs = drop (length xs - mx) xs"
  by (induction xs) (auto simp: Suc_diff_le not_less_eq)

lemma prune_oldest_idem: "prune_oldest mx (prune_oldest mx m) = prune_oldest mx m"
  by (simp add: prune_oldest_id)

lemma prune_oldest_insert_prune:
  assumes "\<And>k'. bt_get m k' \<noteq> None \<Longrightarrow> k' < k"
  shows "prune_oldest mx (bt_insert k v (prune_oldest mx m)) = prune_oldest mx (bt_insert k v m)"
proof -
  have "k' < k" if "bt_get (prune_oldest mx m) k' \<noteq> None" for k'
    using that assms prune_oldest_get [of mx m k'] by auto
  then have "bt_entries (bt_insert k v (prune_oldest mx m)) = bt_entries (prune_oldest mx m) @ [(k, v)]"
    by (rule bt_insert_last)
  moreover have "bt_entries (bt_insert k v m) = bt_entries m @ [(k, v)]"
    using assms by (rule bt_insert_last)
  moreover have "bt_len x = length (bt_entries x)" for x :: "('a, 'b) btmap"
    by (simp add: bt_len.rep_eq)
  ultimately show ?thesis
    by (cases "bt_len m \<le> mx")
       (simp_all add: bt_eq_iff prune_oldest_drop bt_entries_drop Suc_diff_le)
qed

text \<open>
  The deque of the cursor is updated as the ordered map would be, whatever numbers it holds.
\<close>

lemma deque_insert:
  assumes "ordered_keys xs"
  shows "(if xs = [] \<or> fst (last xs) < k then xs @ [(k, v)]
          else case binary_search_by_key k xs of
                 Inr index \<Rightarrow> xs[index := (fst (xs ! index), v)]
               | Inl index \<Rightarrow> take index xs @ (k, v) # drop index xs) = al_insert k v xs"
  using assms
proof (induction xs)
  case (Cons x xs)
  obtain k' v' where x: "x = (k', v')" by fastforce
  consider "k < k'" | "k = k'" | "k' < k" by fastforce
  then show ?case
  proof cases
    case 1
    have "\<not> fst (last (x # xs)) < k"
      using 1 x Cons.prems by (cases "xs = []") (auto dest!: bspec [OF _ last_in_set])
    moreover have "\<not> k' < k" "k' \<noteq> k" using 1 by auto
    ultimately show ?thesis using 1 x by (simp add: binary_search_by_key_def)
  next
    case 2
    have "\<not> fst (last (x # xs)) < k"
      using 2 x Cons.prems by (cases "xs = []") (auto dest!: bspec [OF _ last_in_set])
    then show ?thesis using 2 x by (simp add: binary_search_by_key_def)
  next
    case 3
    then show ?thesis using x Cons
      by (auto simp: binary_search_by_key_def Let_def split: if_splits sum.splits)
  qed
qed simp

lemma retain_failed_key_map:
  assumes "cursor_skipped cur = bt_entries m"
  shows "retain_failed_key cur n key =
    cur\<lparr>cursor_skipped := bt_entries (prune_skipped (bt_insert n key m))\<rparr>"
proof -
  have "ordered_keys (bt_entries m)" using bt_entries [of m] by simp
  from deque_insert [OF this, of n key] show ?thesis
    by (simp add: retain_failed_key_def Let_def assms cursor_prune_skipped_def pop_front_drop prune_skipped_def
          prune_oldest_drop bt_entries_drop bt_entries_insert bt_len.rep_eq)
qed

section \<open>The search invariant\<close>

text \<open>Stored keys belong to numbers the chain has passed.\<close>

definition skipped_past :: "SenderKeyState \<Rightarrow> bool" where
  "skipped_past st \<longleftrightarrow> (\<forall>k. bt_get (skipped_message_keys st) k \<noteq> None \<longrightarrow> k < iteration st)"

definition opens :: "'x crypto_scheme \<Rightarrow> bytes \<Rightarrow> bytes \<Rightarrow> bool" where
  "opens cr ct key \<longleftrightarrow> is_ok (decrypt_with_message_key cr key ct)"

text \<open>The keys kept when the chain has been walked to a number without success.\<close>

definition walked_keys :: "'x crypto_scheme \<Rightarrow> SenderKeyState \<Rightarrow> u32 \<Rightarrow> (u32, bytes) btmap" where
  "walked_keys cr st n = snd (snd (sk_skip_run cr n (chain_key st) (iteration st) (skipped_message_keys st)))"

definition chain_searched :: "'x crypto_scheme \<Rightarrow> SenderKeyState \<Rightarrow> bytes \<Rightarrow> BlindDecryptCursor \<Rightarrow> bool" where
  "chain_searched cr st ct cur \<longleftrightarrow>
     (let n = cursor_iteration cur; d = unat n - unat (iteration st) in
      iteration st \<le> n \<and> d \<le> Suc SENDER_KEY_MAX_SKIP
      \<and> cursor_chain_key cur = chain_at (derive_message_key cr) d (chain_key st)
      \<and> (\<forall>(k, key) \<in> set (bt_entries (skipped_message_keys st)). \<not> opens cr ct key)
      \<and> (\<forall>j < d. \<not> opens cr ct (key_at (derive_message_key cr) j (chain_key st)))
      \<and> cursor_skipped cur = bt_entries (if d = 0 then skipped_message_keys st
                                       else prune_skipped (walked_keys cr st n)))"

definition skipped_searched :: "'x crypto_scheme \<Rightarrow> SenderKeyState \<Rightarrow> bytes \<Rightarrow> BlindDecryptCursor \<Rightarrow> bool" where
  "skipped_searched cr st ct cur \<longleftrightarrow>
     cursor_skipped cur = bt_entries (skipped_message_keys st)
     \<and> cursor_iteration cur = iteration st \<and> cursor_chain_key cur = chain_key st
     \<and> next_skipped cur \<le> length (cursor_skipped cur)
     \<and> (\<forall>(k, key) \<in> set (take (next_skipped cur) (cursor_skipped cur)). \<not> opens cr ct key)"

definition cursor_inv :: "'x crypto_scheme \<Rightarrow> SenderKeyState \<Rightarrow> bytes \<Rightarrow> BlindDecryptCursor \<Rightarrow> bool" where
  "cursor_inv cr st ct cur \<longleftrightarrow> cursor_key_id cur = key_id st
     \<and> max_message_number cur = saturating_add (iteration st) (of_nat SENDER_KEY_MAX_SKIP)
     \<and> (if searching_skipped cur then skipped_searched cr st ct cur else chain_searched cr st ct cur)"

text \<open>The plan that decryption by message number would make.\<close>

definition decrypts_to :: "'x crypto_scheme \<Rightarrow> SenderKeyState \<Rightarrow> bytes \<Rightarrow> SenderKeyBlindDecryptPlan \<Rightarrow> bool" where
  "decrypts_to cr st ct plan \<longleftrightarrow> blind_key_id plan = key_id st \<and>
     decrypt_in_place cr st (blind_message_number plan) ct =
       Inr (blind_next_state plan, blind_plaintext plan)"

lemma cursor_inv_new: "cursor_inv cr st ct (blind_cursor_new st)"
  by (simp add: cursor_inv_def blind_cursor_new_def skipped_searched_def)

lemma walked_keys_less:
  assumes "skipped_past st" "iteration st \<le> n" "bt_get (walked_keys cr st n) k \<noteq> None"
  shows "k < n"
  using assms sender_chain.skip_keys [OF assms(2), of cr "chain_key st" "skipped_message_keys st" k]
  by (fastforce simp: walked_keys_def skipped_past_def split: if_splits)

lemma walked_keys_start: "walked_keys cr st (iteration st) = skipped_message_keys st"
  by (simp add: walked_keys_def sender_chain.skip_stop)

lemma walked_keys_step:
  assumes "iteration st \<le> n" "unat (n + 1) = Suc (unat n)"
  shows "walked_keys cr st (n + 1) =
    bt_insert n (key_at (derive_message_key cr) (unat n - unat (iteration st)) (chain_key st))
      (walked_keys cr st n)"
proof -
  have "n < n + 1" "n \<le> n + 1" using assms(2) by (simp_all add: word_less_nat_alt word_le_nat_alt)
  then show ?thesis
    using sender_chain.skip_compose [OF assms(1) \<open>n \<le> n + 1\<close>, of cr "chain_key st" "skipped_message_keys st"]
      sender_chain.skip_chain [OF assms(1), of cr "chain_key st" "skipped_message_keys st"]
    by (simp add: walked_keys_def case_prod_unfold Let_def sender_chain.skip_step sender_chain.skip_stop
          key_at_def)
qed

section \<open>One trial\<close>

lemma unat_max_skip: "unat (saturating_add n (of_nat SENDER_KEY_MAX_SKIP :: u32)) =
    min (unat n + SENDER_KEY_MAX_SKIP) (2 ^ 32 - 1)"
  by (simp add: unat_saturating_add unat_of_nat SENDER_KEY_MAX_SKIP_def)

text \<open>Decryption by number fails for every number once all keys within reach have failed.\<close>

lemma no_number_opens:
  assumes "\<forall>(k, key) \<in> set (bt_entries (skipped_message_keys st)). \<not> opens cr ct key"
    and "\<And>n. iteration st \<le> n \<Longrightarrow> unat n \<le> unat (iteration st) + SENDER_KEY_MAX_SKIP \<Longrightarrow> n \<noteq> - 1 \<Longrightarrow>
      \<not> opens cr ct (key_at (derive_message_key cr) (unat n - unat (iteration st)) (chain_key st))"
  shows "\<not> is_ok (decrypt_in_place cr st n ct)"
proof -
  consider "n < iteration st" | "unat (iteration st) + SENDER_KEY_MAX_SKIP < unat n"
    | "iteration st \<le> n" "unat n \<le> unat (iteration st) + SENDER_KEY_MAX_SKIP"
    by fastforce
  then show ?thesis
  proof cases
    case 1
    then show ?thesis using assms(1)
      by (auto simp: decrypt_in_place_def opens_def is_ok_and_then bt_get_entries split: option.splits)
  next
    case 2
    then show ?thesis by (simp add: decrypt_in_place_too_far)
  next
    case 3
    show ?thesis
    proof (cases "checked_add n 1")
      case None
      then show ?thesis by (simp add: decrypt_in_place_ahead [OF 3] Let_def)
    next
      case (Some n')
      then have "n \<noteq> - 1" by (metis checked_add_one_None option.distinct(1))
      then show ?thesis using assms(2) [OF 3]
        by (auto simp: decrypt_in_place_ahead [OF 3] opens_def is_ok_and_then Let_def)
    qed
  qed
qed

text \<open>The chain key a cursor is about to try.\<close>

lemma chain_trial_unfold:
  assumes "cursor_inv cr st ct cur" "\<not> searching_skipped cur"
    and "cursor_iteration cur \<le> max_message_number cur"
  shows "chain_trial cr ct cur =
    (let d = unat (cursor_iteration cur) - unat (iteration st);
         cur' = cur\<lparr>cursor_chain_key := chain_at (derive_message_key cr) (Suc d) (chain_key st)\<rparr>;
         key = key_at (derive_message_key cr) d (chain_key st)
     in if cursor_iteration cur = - 1 then Return (Inl sk_overflow) cur' 1
        else let cur' = cur'\<lparr>cursor_iteration := cursor_iteration cur + 1\<rparr>
             in case decrypt_with_message_key cr key ct of
                  Inr p \<Rightarrow> (let c = cursor_prune_skipped cur' in
                    Return (Inr (Complete \<lparr>blind_next_state = planned_state c None,
                      blind_key_id = cursor_key_id c, blind_message_number = cursor_iteration cur,
                      blind_plaintext = p\<rparr>)) c 1)
                | Inl _ \<Rightarrow> Retry (retain_failed_key cur' (cursor_iteration cur) key))"
proof -
  have "cursor_chain_key cur = chain_at (derive_message_key cr)
      (unat (cursor_iteration cur) - unat (iteration st)) (chain_key st)"
    using assms(1,2) by (simp add: cursor_inv_def chain_searched_def Let_def)
  moreover have "\<not> max_message_number cur < cursor_iteration cur" using assms(3) by simp
  ultimately show ?thesis
    by (simp add: chain_trial_def checked_add_one case_prod_unfold Let_def key_at_def chain_at_Suc_outer
          del: chain_at.simps)
qed

lemma chain_trial_retry:
  assumes inv: "cursor_inv cr st ct cur" "\<not> searching_skipped cur" and past: "skipped_past st"
    and retry: "chain_trial cr ct cur = Retry cur'"
  shows "cursor_inv cr st ct cur'" "\<not> searching_skipped cur'"
    "max_message_number cur' = max_message_number cur"
    "unat (cursor_iteration cur') = Suc (unat (cursor_iteration cur))"
    "cursor_iteration cur \<le> max_message_number cur"
proof -
  let ?n = "cursor_iteration cur" and ?f = "derive_message_key cr"
  let ?d = "unat ?n - unat (iteration st)"
  have le: "?n \<le> max_message_number cur"
    using retry by (auto simp: chain_trial_def split: if_splits)
  have max: "?n \<noteq> - 1" and fails: "\<not> opens cr ct (key_at ?f ?d (chain_key st))"
    and cur': "cur' = retain_failed_key (cur\<lparr>cursor_chain_key := chain_at ?f (Suc ?d) (chain_key st),
      cursor_iteration := ?n + 1\<rparr>) ?n (key_at ?f ?d (chain_key st))"
    using retry unfolding chain_trial_unfold [OF inv le]
    by (auto simp: Let_def opens_def split: if_splits sum.splits)
  note up = unat_plus_one_max [OF max]
  have it: "iteration st \<le> ?n" and sk: "cursor_skipped cur = bt_entries
      (if ?d = 0 then skipped_message_keys st else prune_skipped (walked_keys cr st ?n))"
    using inv by (simp_all add: cursor_inv_def chain_searched_def Let_def)
  have d': "unat (?n + 1) - unat (iteration st) = Suc ?d"
    using it up by (simp add: word_le_nat_alt Suc_diff_le)
  have "?d = 0 \<longleftrightarrow> ?n = iteration st" using it by (auto simp: word_le_nat_alt word_unat_eq_iff)
  then have "prune_skipped (bt_insert ?n (key_at ?f ?d (chain_key st))
      (if ?d = 0 then skipped_message_keys st else prune_skipped (walked_keys cr st ?n))) =
    prune_skipped (walked_keys cr st (?n + 1))"
    using walked_keys_step [OF it up, of cr] prune_oldest_insert_prune [OF walked_keys_less [OF past it]]
    by (auto simp: prune_skipped_def walked_keys_start)
  then have c: "cur' = cur\<lparr>cursor_chain_key := chain_at ?f (Suc ?d) (chain_key st),
      cursor_iteration := ?n + 1, cursor_skipped := bt_entries (prune_skipped (walked_keys cr st (?n + 1)))\<rparr>"
    using cur' sk by (simp add: retain_failed_key_map)
  show "\<not> searching_skipped cur'" "max_message_number cur' = max_message_number cur"
    "unat (cursor_iteration cur') = Suc (unat ?n)" "?n \<le> max_message_number cur"
    using c up inv(2) le by simp_all
  have "unat ?n \<le> unat (iteration st) + SENDER_KEY_MAX_SKIP"
    using le inv(1) unat_max_skip [of "iteration st"] by (simp add: cursor_inv_def word_le_nat_alt)
  then show "cursor_inv cr st ct cur'"
    using inv fails it d' up
    by (auto simp: cursor_inv_def chain_searched_def c Let_def less_Suc_eq word_le_nat_alt
          simp del: chain_at.simps)
qed

lemma chain_trial_complete:
  assumes inv: "cursor_inv cr st ct cur" "\<not> searching_skipped cur"
    and hit: "chain_trial cr ct cur = Return (Inr (Complete plan)) cur' used"
  shows "decrypts_to cr st ct plan"
proof -
  let ?n = "cursor_iteration cur" and ?f = "derive_message_key cr"
  let ?d = "unat ?n - unat (iteration st)"
  have le: "?n \<le> max_message_number cur"
    using hit by (auto simp: chain_trial_def split: if_splits)
  have max: "?n \<noteq> - 1" using hit unfolding chain_trial_unfold [OF inv le] by (auto simp: Let_def)
  obtain p where p: "decrypt_with_message_key cr (key_at ?f ?d (chain_key st)) ct = Inr p"
    and plan: "plan = \<lparr>blind_next_state = planned_state (cursor_prune_skipped
        (cur\<lparr>cursor_chain_key := chain_at ?f (Suc ?d) (chain_key st), cursor_iteration := ?n + 1\<rparr>)) None,
      blind_key_id = cursor_key_id cur, blind_message_number = ?n, blind_plaintext = p\<rparr>"
    using hit max unfolding chain_trial_unfold [OF inv le]
    by (auto simp: Let_def cursor_prune_skipped_def split: sum.splits)
  have it: "iteration st \<le> ?n" and sk: "cursor_skipped cur = bt_entries
      (if ?d = 0 then skipped_message_keys st else prune_skipped (walked_keys cr st ?n))"
    using inv by (simp_all add: cursor_inv_def chain_searched_def Let_def)
  have reach: "unat ?n \<le> unat (iteration st) + SENDER_KEY_MAX_SKIP"
    using le inv(1) unat_max_skip [of "iteration st"] by (simp add: cursor_inv_def word_le_nat_alt)
  have "?d = 0 \<Longrightarrow> skipped_message_keys st = walked_keys cr st ?n"
    using it walked_keys_start [of cr st] by (metis order.antisym diff_is_0_eq word_le_nat_alt)
  then have "bt_of_list (pop_front_while_longer SENDER_KEY_MAX_STORED_SKIPPED_KEYS (cursor_skipped cur)) =
      prune_skipped (walked_keys cr st ?n)"
    by (simp add: sk pop_front_drop prune_skipped_def bt_len_entries [symmetric]
          bt_entries_drop [symmetric] bt_of_list_entries prune_oldest_drop [symmetric] prune_oldest_idem)
  then show ?thesis
    using inv p max unfolding decrypts_to_def plan
    by (simp add: decrypt_in_place_ahead [OF it reach] Let_def checked_add_one planned_state_def
          cursor_prune_skipped_def cursor_inv_def walked_keys_def case_prod_unfold del: chain_at.simps)
qed

lemma chain_trial_end:
  assumes inv: "cursor_inv cr st ct cur" "\<not> searching_skipped cur"
    and stop: "chain_trial cr ct cur = Return r cur' used" "\<nexists>plan. r = Inr (Complete plan)"
  shows "\<not> is_ok (decrypt_in_place cr st n ct) \<and> r \<noteq> Inr Pending"
proof -
  let ?n = "cursor_iteration cur" and ?f = "derive_message_key cr"
  have chain: "chain_searched cr st ct cur"
    and max: "max_message_number cur = saturating_add (iteration st) (of_nat SENDER_KEY_MAX_SKIP)"
    using inv by (simp_all add: cursor_inv_def)
  have "?n > max_message_number cur \<or> ?n = - 1" and r: "r \<noteq> Inr Pending"
    using stop chain_trial_unfold [OF inv]
    by (cases "?n \<le> max_message_number cur";
        auto simp: Let_def chain_trial_def not_le split: if_splits sum.splits)+
  then have "unat m < unat ?n" if "unat m \<le> unat (iteration st) + SENDER_KEY_MAX_SKIP" "m \<noteq> - 1" for m :: u32
  proof -
    have "unat m < 2 ^ 32" using unsigned_less [of m, where ?'a = nat] by simp
    then show ?thesis
      using that \<open>?n > max_message_number cur \<or> ?n = - 1\<close> unat_max_skip [of "iteration st"]
      by (auto simp: max word_less_nat_alt word_unat_eq_iff unat_minus_one_max min_def split: if_splits)
  qed
  then have "\<not> opens cr ct (key_at ?f (unat m - unat (iteration st)) (chain_key st))"
    if "iteration st \<le> m" "unat m \<le> unat (iteration st) + SENDER_KEY_MAX_SKIP" "m \<noteq> - 1" for m
    using chain that by (auto simp: chain_searched_def Let_def word_le_nat_alt diff_less_mono)
  then show ?thesis
    using chain r no_number_opens [of st cr ct n] by (simp add: chain_searched_def Let_def)
qed

text \<open>The switch from stored keys to the chain keeps the invariant.\<close>

lemma cursor_inv_switch:
  assumes "cursor_inv cr st ct cur" "searching_skipped cur"
    and "\<not> next_skipped cur < length (cursor_skipped cur)"
  shows "cursor_inv cr st ct (cur\<lparr>searching_skipped := False\<rparr>)"
  using assms by (auto simp: cursor_inv_def skipped_searched_def chain_searched_def Let_def)

lemma skipped_trial_retry:
  assumes "cursor_inv cr st ct cur" "searching_skipped cur" "next_skipped cur < length (cursor_skipped cur)"
    and "blind_trial cr ct cur = Retry cur'"
  shows "cursor_inv cr st ct cur'" "cur' = cur\<lparr>next_skipped := next_skipped cur + 1\<rparr>"
proof -
  let ?i = "next_skipped cur"
  have fails: "\<not> opens cr ct (snd (cursor_skipped cur ! ?i))"
    and cur': "cur' = cur\<lparr>next_skipped := ?i + 1\<rparr>"
    using assms(2-4) by (auto simp: blind_trial_def opens_def case_prod_unfold Let_def split: sum.splits)
  show "cur' = cur\<lparr>next_skipped := ?i + 1\<rparr>" by (rule cur')
  show "cursor_inv cr st ct cur'"
    using assms(1-3) fails unfolding cur'
    by (auto simp: cursor_inv_def skipped_searched_def take_Suc_conv_app_nth)
qed

lemma skipped_trial_return:
  assumes inv: "cursor_inv cr st ct cur" "searching_skipped cur" "next_skipped cur < length (cursor_skipped cur)"
    and past: "skipped_past st" and ret: "blind_trial cr ct cur = Return r cur' used"
  obtains plan where "r = Inr (Complete plan)" "decrypts_to cr st ct plan"
proof -
  let ?e = "cursor_skipped cur ! next_skipped cur" and ?m = "skipped_message_keys st"
  have sk: "cursor_skipped cur = bt_entries ?m"
    and same: "cursor_iteration cur = iteration st" "cursor_chain_key cur = chain_key st"
      "cursor_key_id cur = key_id st"
    using inv by (simp_all add: cursor_inv_def skipped_searched_def)
  have "?e \<in> set (bt_entries ?m)" using inv(3) sk by (metis nth_mem)
  then have e: "bt_get ?m (fst ?e) = Some (snd ?e)" by (simp add: bt_get_entries)
  then have lt: "fst ?e < iteration st" using past by (auto simp: skipped_past_def)
  obtain p where p: "decrypt_with_message_key cr (snd ?e) ct = Inr p"
    and r: "r = Inr (Complete \<lparr>blind_next_state = planned_state
        (cur\<lparr>next_skipped := next_skipped cur + 1\<rparr>) (Some (fst ?e)),
      blind_key_id = cursor_key_id cur, blind_message_number = fst ?e, blind_plaintext = p\<rparr>)"
    using ret inv(2,3) by (auto simp: blind_trial_def case_prod_unfold Let_def split: sum.splits)
  have "bt_of_list (filter (\<lambda>(number, _). Some number \<noteq> Some (fst ?e)) (bt_entries ?m)) =
      bt_of_list (bt_entries (bt_remove (fst ?e) ?m))"
    by (simp add: bt_entries_remove al_remove_def case_prod_unfold)
  then show ?thesis
    using that [OF r] lt e p same
    by (simp add: decrypts_to_def decrypt_in_place_def planned_state_def sk bt_of_list_entries)
qed

section \<open>The whole search\<close>

lemma blind_trial_chain:
  assumes "cursor_inv cr st ct cur" "\<not> (searching_skipped cur \<and> next_skipped cur < length (cursor_skipped cur))"
  obtains c where "cursor_inv cr st ct c" "\<not> searching_skipped c" "blind_trial cr ct cur = chain_trial cr ct c"
    "cursor_iteration c = cursor_iteration cur" "max_message_number c = max_message_number cur"
proof (cases "searching_skipped cur")
  case True
  then show ?thesis
    using that [of "cur\<lparr>searching_skipped := False\<rparr>"] assms cursor_inv_switch [OF assms(1) True]
    by (simp add: blind_trial_def)
qed (use that [of cur] assms in \<open>simp add: blind_trial_def\<close>)

lemma blind_trial_retry:
  assumes "cursor_inv cr st ct cur" "skipped_past st" "blind_trial cr ct cur = Retry cur'"
  shows "cursor_inv cr st ct cur'"
proof (cases "searching_skipped cur \<and> next_skipped cur < length (cursor_skipped cur)")
  case True
  then show ?thesis using assms skipped_trial_retry by blast
next
  case False
  then show ?thesis using assms by (metis blind_trial_chain chain_trial_retry(1))
qed

lemma blind_trial_return:
  assumes "cursor_inv cr st ct cur" "skipped_past st" "blind_trial cr ct cur = Return r cur' used"
  shows "(\<exists>plan. r = Inr (Complete plan) \<and> decrypts_to cr st ct plan)
    \<or> (\<forall>n. \<not> is_ok (decrypt_in_place cr st n ct)) \<and> r \<noteq> Inr Pending \<and> (\<nexists>plan. r = Inr (Complete plan))"
proof (cases "searching_skipped cur \<and> next_skipped cur < length (cursor_skipped cur)")
  case True
  then show ?thesis using assms by (metis skipped_trial_return)
next
  case False
  then obtain c where inv: "cursor_inv cr st ct c" "\<not> searching_skipped c"
    and "chain_trial cr ct c = Return r cur' used"
    using assms(1,3) by (metis blind_trial_chain)
  then show ?thesis
    using chain_trial_complete [OF inv] chain_trial_end [OF inv] by blast
qed

lemma advance_sound:
  assumes "cursor_inv cr st ct cur" "skipped_past st" "advance cr ct cur budget = (r, cur', left)"
  shows "cursor_inv cr st ct cur' \<and> r = Inr Pending \<and> left = 0
    \<or> (\<exists>plan. r = Inr (Complete plan) \<and> decrypts_to cr st ct plan)
    \<or> (\<forall>n. \<not> is_ok (decrypt_in_place cr st n ct)) \<and> r \<noteq> Inr Pending \<and> (\<nexists>plan. r = Inr (Complete plan))"
  using assms
proof (induction budget arbitrary: cur)
  case (Suc budget)
  show ?case
  proof (cases "blind_trial cr ct cur")
    case (Retry c)
    then have "advance cr ct c budget = (r, cur', left)" using Suc.prems(3) by simp
    from Suc.IH [OF blind_trial_retry [OF Suc.prems(1,2) Retry] Suc.prems(2) this] show ?thesis .
  next
    case (Return r' c used)
    then show ?thesis using Suc.prems blind_trial_return [OF Suc.prems(1,2) Return] by auto
  qed
qed auto

text \<open>How many trials a cursor has left.\<close>

definition trials_left :: "BlindDecryptCursor \<Rightarrow> nat" where
  "trials_left cur = (if searching_skipped cur then length (cursor_skipped cur) - next_skipped cur else 0)
     + (Suc (unat (max_message_number cur)) - unat (cursor_iteration cur))"

lemma blind_trial_decreases:
  assumes "cursor_inv cr st ct cur" "skipped_past st" "blind_trial cr ct cur = Retry cur'"
  shows "trials_left cur' < trials_left cur"
proof (cases "searching_skipped cur \<and> next_skipped cur < length (cursor_skipped cur)")
  case True
  then show ?thesis using skipped_trial_retry(2) [OF assms(1) _ _ assms(3)] by (auto simp: trials_left_def)
next
  case False
  then obtain c where inv: "cursor_inv cr st ct c" "\<not> searching_skipped c"
    and retry: "chain_trial cr ct c = Retry cur'"
    and same: "cursor_iteration c = cursor_iteration cur" "max_message_number c = max_message_number cur"
    using assms(1,3) by (metis blind_trial_chain)
  from chain_trial_retry [OF inv assms(2) retry] show ?thesis
    using inv(2) same by (simp add: trials_left_def word_le_nat_alt)
qed

lemma advance_decides:
  assumes "cursor_inv cr st ct cur" "skipped_past st" "trials_left cur < budget"
  shows "fst (advance cr ct cur budget) \<noteq> Inr Pending"
  using assms
proof (induction budget arbitrary: cur)
  case (Suc budget)
  show ?case
  proof (cases "blind_trial cr ct cur")
    case (Retry c)
    then show ?thesis
      using Suc blind_trial_retry blind_trial_decreases [OF Suc.prems(1,2) Retry] by fastforce
  next
    case (Return r' c used)
    then show ?thesis using blind_trial_return [OF Suc.prems(1,2) Return] by auto
  qed
qed simp

lemma blind_trial_not_pending:
  assumes "blind_trial cr ct cur = Return r c used"
  shows "r \<noteq> Inr Pending" "used \<le> 1"
  using assms
  by (auto simp: blind_trial_def chain_trial_def Let_def split: if_splits sum.splits prod.splits option.splits)

text \<open>A search may be suspended and resumed: budgets add up.\<close>

lemma advance_add:
  "advance cr ct cur (a + b) =
     (case advance cr ct cur a of
        (Inr Pending, cur', left) \<Rightarrow> advance cr ct cur' b
      | (r, cur', left) \<Rightarrow> (r, cur', left + b))"
proof (induction a arbitrary: cur)
  case (Suc a)
  show ?case
  proof (cases "blind_trial cr ct cur")
    case (Retry c)
    then show ?thesis using Suc by simp
  next
    case (Return r c used)
    have "r \<noteq> Inr Pending" "used \<le> 1" using blind_trial_not_pending [OF Return] by simp_all
    then show ?thesis using Return by (auto split: sum.splits BlindDecryptStep.splits)
  qed
qed simp

text \<open>The unbounded search has enough budget to decide, because message numbers are 32 bits wide.\<close>

lemma trials_left_new: "trials_left (blind_cursor_new st) < USIZE_MAX"
proof -
  have "bt_len (skipped_message_keys st) \<le> card (UNIV :: u32 set)"
    unfolding bt_len_card by (rule card_mono) simp_all
  moreover have "Suc (unat (saturating_add (iteration st) (of_nat SENDER_KEY_MAX_SKIP)))
      - unat (iteration st) \<le> Suc SENDER_KEY_MAX_SKIP"
    using unat_max_skip [of "iteration st"] by simp
  ultimately show ?thesis
    by (simp add: trials_left_def blind_cursor_new_def bt_len_entries [symmetric] USIZE_MAX_def
          SENDER_KEY_MAX_SKIP_def card_word)
qed

lemma plan_decrypt_blind_sound:
  assumes "skipped_past st" "plan_decrypt_blind cr st ct = Inr plan"
  shows "decrypts_to cr st ct plan"
proof -
  obtain c l where adv: "advance cr ct (blind_cursor_new st) USIZE_MAX = (Inr (Complete plan), c, l)"
    using assms(2)
    by (cases "advance cr ct (blind_cursor_new st) USIZE_MAX")
       (auto simp: plan_decrypt_blind_def split: sum.splits BlindDecryptStep.splits)
  from advance_sound [OF cursor_inv_new assms(1) adv] show ?thesis by auto
qed

lemma plan_decrypt_blind_complete:
  assumes past: "skipped_past st" and "is_ok (decrypt_in_place cr st n ct)"
  shows "is_ok (plan_decrypt_blind cr st ct)"
proof -
  obtain r c l where adv: "advance cr ct (blind_cursor_new st) USIZE_MAX = (r, c, l)"
    by (cases "advance cr ct (blind_cursor_new st) USIZE_MAX")
  have "r \<noteq> Inr Pending" using advance_decides [OF cursor_inv_new past trials_left_new, of cr ct] adv by simp
  then obtain plan where "r = Inr (Complete plan)"
    using advance_sound [OF cursor_inv_new past adv] assms(2) by blast
  then show ?thesis using adv by (simp add: plan_decrypt_blind_def)
qed

end
