(* ===== verification/Sender_Key_Properties.thy ===== *)
theory Sender_Key_Properties
  imports Sender_Key_Search Crate_Instance
begin

text \<open>
  The properties of the group sender key: delivery in any order, the invariant of its state, replay
  protection, and the agreement of the blind search with decryption by message number.
\<close>

section \<open>Invariant and replay\<close>

definition sender_key_inv :: "SenderKeyState \<Rightarrow> bool" where
  "sender_key_inv st \<longleftrightarrow> skipped_past st
     \<and> bt_len (skipped_message_keys st) \<le> SENDER_KEY_MAX_STORED_SKIPPED_KEYS"

text \<open>A successful decryption either used a stored key or walked the chain.\<close>

lemma decrypt_in_place_cases:
  assumes "decrypt_in_place cr st n ct = Inr (st', p)"
  obtains (stored) key where "n < iteration st" "bt_get (skipped_message_keys st) n = Some key"
      "decrypt_with_message_key cr key ct = Inr p"
      "st' = st\<lparr>skipped_message_keys := bt_remove n (skipped_message_keys st)\<rparr>"
  | (walked) "iteration st \<le> n" "unat n \<le> unat (iteration st) + SENDER_KEY_MAX_SKIP" "n \<noteq> - 1"
      "decrypt_with_message_key cr
         (key_at (derive_message_key cr) (unat n - unat (iteration st)) (chain_key st)) ct = Inr p"
      "st' = st\<lparr>chain_key := chain_at (derive_message_key cr) (Suc (unat n - unat (iteration st))) (chain_key st),
             iteration := n + 1, skipped_message_keys := prune_skipped (walked_keys cr st n)\<rparr>"
proof (cases "n < iteration st")
  case True
  then show ?thesis using assms stored
    by (auto simp: decrypt_in_place_def result_simps split: option.splits)
next
  case False
  then have it: "iteration st \<le> n" by simp
  have le: "unat n \<le> unat (iteration st) + SENDER_KEY_MAX_SKIP"
    using assms decrypt_in_place_too_far [of st n cr ct] by fastforce
  show ?thesis using assms walked [OF it le] unfolding decrypt_in_place_ahead [OF it le]
    by (auto simp: Let_def checked_add_one walked_keys_def result_simps split: if_splits simp del: chain_at.simps)
qed

lemma decrypt_in_place_key_id:
  "decrypt_in_place cr st n ct = Inr (st', p) \<Longrightarrow> key_id st' = key_id st"
  by (auto elim: decrypt_in_place_cases)

lemma decrypt_in_place_past:
  assumes "decrypt_in_place cr st n ct = Inr (st', p)" "skipped_past st"
  shows "skipped_past st'" "n < iteration st'" "bt_get (skipped_message_keys st') n = None"
  using assms(1)
proof (atomize (full), cases rule: decrypt_in_place_cases)
  case (stored key)
  then show "skipped_past st' \<and> n < iteration st' \<and> bt_get (skipped_message_keys st') n = None"
    using assms(2) by (auto simp: skipped_past_def)
next
  case walked
  have get: "k < n" if "bt_get (prune_skipped (walked_keys cr st n)) k \<noteq> None" for k
    using that prune_oldest_get [of _ "walked_keys cr st n" k] walked_keys_less [OF assms(2) walked(1), of cr k]
    by (auto simp: prune_skipped_def)
  have "n < n + 1" using unat_plus_one_max [OF walked(3)] by (simp add: word_less_nat_alt)
  then show "skipped_past st' \<and> n < iteration st' \<and> bt_get (skipped_message_keys st') n = None"
    using get less_trans [OF get \<open>n < n + 1\<close>] unfolding walked(5) skipped_past_def by fastforce
qed

lemma decrypt_in_place_inv:
  assumes "decrypt_in_place cr st n ct = Inr (st', p)" "sender_key_inv st"
  shows "sender_key_inv st'"
  using assms(1) decrypt_in_place_past(1) [OF assms(1)] assms(2)
  by (auto elim!: decrypt_in_place_cases simp: sender_key_inv_def prune_skipped_def)

lemma plan_decrypt_eq_Inr:
  "plan_decrypt cr st m = Inr plan \<longleftrightarrow> content_key_id m = key_id st \<and>
     decrypt_in_place cr st (content_message_number m) (content_ciphertext m) =
       Inr (decrypt_next_state plan, decrypt_plaintext plan)"
  by (cases plan) (auto simp: plan_decrypt_def result_simps)

text \<open>
  Replay protection of group messages: a sender-key message that was decrypted and applied is
  refused as a duplicate when it arrives again, also when it had been decrypted with a stored key.
\<close>

theorem sender_key_replay_rejected:
  assumes "sender_key_inv st" "plan_decrypt cr st message = Inr plan"
  shows "plan_decrypt cr (fst (apply_decrypt st plan)) message =
    Inl (Decryption ''duplicate or missing sender-key message'')"
proof -
  from assms have d: "decrypt_in_place cr st (content_message_number message) (content_ciphertext message) =
      Inr (decrypt_next_state plan, decrypt_plaintext plan)" and k: "content_key_id message = key_id st"
    by (simp_all add: plan_decrypt_eq_Inr)
  have "skipped_past st" using assms(1) by (simp add: sender_key_inv_def)
  from decrypt_in_place_past [OF d this] decrypt_in_place_key_id [OF d] k show ?thesis
    by (simp add: apply_decrypt_def plan_decrypt_def decrypt_in_place_def)
qed

text \<open>A sender key on the demonstration crates, its first two messages and a receiver.\<close>

definition demo_group_sender :: SenderKeyState where
  "demo_group_sender = sender_key_new 7 [9] 0"

definition demo_plan :: "SenderKeyState \<Rightarrow> bytes \<Rightarrow> SenderKeyEncryptPlan" where
  "demo_plan st p = projr (plan_encrypt demo_crypto 0 st p)"

definition demo_first :: SenderKeyMessageContent where
  "demo_first = snd (apply_encrypt demo_group_sender (demo_plan demo_group_sender [5]))"

definition demo_second :: SenderKeyMessageContent where
  "demo_second = snd (apply_encrypt demo_group_sender
     (demo_plan (fst (apply_encrypt demo_group_sender (demo_plan demo_group_sender [5]))) [6]))"

definition demo_ahead :: SenderKeyDecryptPlan where
  "demo_ahead = projr (plan_decrypt demo_crypto demo_group_sender demo_second)"

lemma demo_ahead_ok: "plan_decrypt demo_crypto demo_group_sender demo_second = Inr demo_ahead"
  unfolding demo_ahead_def by code_simp

lemma demo_group_inv: "sender_key_inv demo_group_sender"
  by (simp add: demo_group_sender_def sender_key_new_def sender_key_inv_def skipped_past_def)

theorem sender_key_replay_rejected_witness:
  "plan_decrypt demo_crypto (fst (apply_decrypt demo_group_sender demo_ahead)) demo_second =
     Inl (Decryption ''duplicate or missing sender-key message'')"
  by (rule sender_key_replay_rejected [OF demo_group_inv demo_ahead_ok])

inductive sender_key_step :: "'x crypto_scheme \<Rightarrow> SenderKeyState \<Rightarrow> SenderKeyState \<Rightarrow> bool"
  for cr :: "'x crypto_scheme" where
  encrypt: "plan_encrypt cr draw st p = Inr plan \<Longrightarrow> sender_key_step cr st (fst (apply_encrypt st plan))"
| decrypt: "plan_decrypt cr st m = Inr plan \<Longrightarrow> sender_key_step cr st (fst (apply_decrypt st plan))"
| blind: "plan_decrypt_blind cr st ct = Inr plan \<Longrightarrow> sender_key_step cr st (blind_next_state plan)"

inductive sender_key_reachable :: "'x crypto_scheme \<Rightarrow> SenderKeyState \<Rightarrow> bool"
  for cr :: "'x crypto_scheme" where
  new: "sender_key_reachable cr (sender_key_new kid ck n)"
| step: "sender_key_reachable cr st \<Longrightarrow> sender_key_step cr st st' \<Longrightarrow> sender_key_reachable cr st'"

inductive_cases sender_key_step_elim: "sender_key_step cr st st'"

lemma plan_encrypt_inv:
  assumes "plan_encrypt cr draw st p = Inr plan" "sender_key_inv st"
  shows "sender_key_inv (encrypt_next_state plan)"
proof -
  have "iteration st \<noteq> - 1" and next_state: "encrypt_next_state plan =
      st\<lparr>chain_key := fst (derive_message_key cr (chain_key st)), iteration := iteration st + 1\<rparr>"
    using assms(1)
    by (auto simp: plan_encrypt_def case_prod_unfold Let_def checked_add_one result_simps split: if_splits)
  then have "iteration st < iteration st + 1"
    using unat_plus_one_max [of "iteration st"] by (simp add: word_less_nat_alt)
  then show ?thesis using assms(2) unfolding next_state
    by (auto simp: sender_key_inv_def skipped_past_def intro: less_trans)
qed

lemma sender_key_step_inv: "sender_key_step cr st st' \<Longrightarrow> sender_key_inv st \<Longrightarrow> sender_key_inv st'"
proof (elim sender_key_step_elim)
  fix ct plan
  assume st: "sender_key_inv st" "plan_decrypt_blind cr st ct = Inr plan" "st' = blind_next_state plan"
  then have "decrypts_to cr st ct plan" by (simp add: plan_decrypt_blind_sound sender_key_inv_def)
  with st show "sender_key_inv st'" by (auto simp: decrypts_to_def dest: decrypt_in_place_inv)
qed (auto simp: apply_encrypt_def apply_decrypt_def plan_decrypt_eq_Inr dest: plan_encrypt_inv decrypt_in_place_inv)

text \<open>
  C7. The invariant of a sender key: in every state reached from a new key by encryptions,
  decryptions and blind decryptions of arbitrary messages, the stored keys belong to numbers the
  chain has passed and there are at most 2000 of them.
\<close>

theorem sender_key_reachable_inv:
  assumes "sender_key_reachable cr st"
  shows "sender_key_inv st"
  using assms
proof induction
  case new
  then show ?case by (simp add: sender_key_inv_def skipped_past_def sender_key_new_def)
qed (rule sender_key_step_inv)

theorem sender_key_reachable_inv_witness: "sender_key_inv (fst (apply_decrypt demo_group_sender demo_ahead))"
proof (rule sender_key_reachable_inv)
  show "sender_key_reachable demo_crypto (fst (apply_decrypt demo_group_sender demo_ahead))"
    using sender_key_reachable.step [OF sender_key_reachable.new
        sender_key_step.decrypt [OF demo_ahead_ok [unfolded demo_group_sender_def]]]
    by (simp add: demo_group_sender_def)
qed

section \<open>Delivery\<close>

text \<open>Runs of encryptions and decryptions, each committed.\<close>

fun encrypt_all ::
  "'x crypto_scheme \<Rightarrow> nat \<Rightarrow> SenderKeyState \<Rightarrow> bytes list \<Rightarrow>
   (SenderKeyState \<times> SenderKeyMessageContent list) res" where
  "encrypt_all cr draw st [] = Inr (st, [])"
| "encrypt_all cr draw st (p # ps) =
     and_then (plan_encrypt cr draw st p) (\<lambda>plan.
     and_then (encrypt_all cr (Suc draw) (fst (apply_encrypt st plan)) ps) (\<lambda>(st', ms).
       Inr (st', snd (apply_encrypt st plan) # ms)))"

fun decrypt_all ::
  "'x crypto_scheme \<Rightarrow> SenderKeyState \<Rightarrow> SenderKeyMessageContent list \<Rightarrow> (SenderKeyState \<times> bytes list) res" where
  "decrypt_all cr st [] = Inr (st, [])"
| "decrypt_all cr st (m # ms) =
     and_then (plan_decrypt cr st m) (\<lambda>plan.
     and_then (decrypt_all cr (fst (apply_decrypt st plan)) ms) (\<lambda>(st', ps).
       Inr (st', snd (apply_decrypt st plan) # ps)))"

text \<open>The message of an offset on a chain that starts with a chain key and a number.\<close>

definition chain_message ::
  "'x crypto_scheme \<Rightarrow> u32 \<Rightarrow> bytes \<Rightarrow> u32 \<Rightarrow> nat \<Rightarrow> bytes \<Rightarrow> SenderKeyMessageContent \<Rightarrow> bool" where
  "chain_message cr kid c n j p m \<longleftrightarrow> content_key_id m = kid
     \<and> unat (content_message_number m) = unat n + j \<and> content_message_number m \<noteq> - 1
     \<and> (\<exists>draw. v2_encrypt cr draw (key_at (derive_message_key cr) j c) p = Inr (content_ciphertext m))"

lemma plan_encrypt_eq_Inr:
  "plan_encrypt cr draw st p = Inr plan \<longleftrightarrow> iteration st \<noteq> - 1 \<and>
     v2_encrypt cr draw (snd (derive_message_key cr (chain_key st))) p = Inr (encrypt_ciphertext plan) \<and>
     encrypt_next_state plan =
       st\<lparr>chain_key := fst (derive_message_key cr (chain_key st)), iteration := iteration st + 1\<rparr> \<and>
     encrypt_key_id plan = key_id st \<and> encrypt_message_number plan = iteration st \<and>
     encrypt_plaintext plan = p"
  by (cases plan)
     (auto simp: plan_encrypt_def case_prod_unfold Let_def checked_add_one result_simps split: if_splits)

lemma encrypt_all_messages:
  assumes "encrypt_all cr draw st ps = Inr (st', ms)"
  shows "length ms = length ps \<and>
    (\<forall>j < length ps. chain_message cr (key_id st) (chain_key st) (iteration st) j (ps ! j) (ms ! j))"
  using assms
proof (induction ps arbitrary: draw st st' ms)
  case (Cons p ps)
  from Cons.prems obtain plan ms' where plan: "plan_encrypt cr draw st p = Inr plan"
    and rest: "encrypt_all cr (Suc draw) (encrypt_next_state plan) ps = Inr (st', ms')"
    and ms: "ms = snd (apply_encrypt st plan) # ms'"
    by (auto simp: result_simps apply_encrypt_def)
  note facts = plan [unfolded plan_encrypt_eq_Inr]
  have up: "unat (iteration st + 1) = Suc (unat (iteration st))"
    using facts by (simp add: unat_plus_one_max)
  have "chain_message cr (key_id st) (chain_key st) (iteration st) j ((p # ps) ! j) (ms ! j)"
    if "j < length (p # ps)" for j
  proof (cases j)
    case 0
    then show ?thesis using facts ms by (auto simp: chain_message_def apply_encrypt_def key_at_def)
  next
    case (Suc i)
    then show ?thesis using Cons.IH [OF rest] that ms facts up
      by (auto simp: chain_message_def key_at_Suc)
  qed
  then show ?case using Cons.IH [OF rest] ms by simp
qed simp

lemma bt_len_remove_le: "bt_len (bt_remove k m) \<le> bt_len m"
  by simp

text \<open>A receiver that has read some numbers of the chain and kept the keys of the others.\<close>

definition follows_chain ::
  "'x crypto_scheme \<Rightarrow> u32 \<Rightarrow> bytes \<Rightarrow> u32 \<Rightarrow> u32 set \<Rightarrow> SenderKeyState \<Rightarrow> bool" where
  "follows_chain cr kid c n seen st \<longleftrightarrow> key_id st = kid \<and> n \<le> iteration st
     \<and> chain_key st = chain_at (derive_message_key cr) (unat (iteration st) - unat n) c
     \<and> bt_len (skipped_message_keys st) \<le> unat (iteration st) - unat n
     \<and> (\<forall>k. n \<le> k \<and> k < iteration st \<and> k \<notin> seen \<longrightarrow>
          bt_get (skipped_message_keys st) k = Some (key_at (derive_message_key cr) (unat k - unat n) c))"

lemma follows_chain_decrypt:
  assumes crypto: "v2_roundtrip cr" and st: "follows_chain cr kid c n seen st"
    and m: "chain_message cr kid c n j p m" "j < SENDER_KEY_MAX_STORED_SKIPPED_KEYS"
    and new: "content_message_number m \<notin> seen"
  obtains plan where "plan_decrypt cr st m = Inr plan" "decrypt_plaintext plan = p"
    "follows_chain cr kid c n (insert (content_message_number m) seen) (decrypt_next_state plan)"
proof -
  let ?f = "derive_message_key cr" and ?n = "content_message_number m" and ?it = "iteration st"
  have num: "unat ?n = unat n + j" "?n \<noteq> - 1" "n \<le> ?n" using m(1) by (auto simp: chain_message_def word_le_nat_alt)
  have key: "decrypt_with_message_key cr (key_at ?f j c) (content_ciphertext m) = Inr p"
    using m(1) crypto by (auto simp: chain_message_def decrypt_with_message_key_def v2_roundtrip_def)
  have kid: "content_key_id m = key_id st" using m(1) st by (simp add: chain_message_def follows_chain_def)
  show ?thesis
  proof (cases "?n < ?it")
    case True
    let ?st' = "st\<lparr>skipped_message_keys := bt_remove ?n (skipped_message_keys st)\<rparr>"
    have "bt_get (skipped_message_keys st) ?n = Some (key_at ?f j c)"
      using st True num new by (simp add: follows_chain_def)
    then have "plan_decrypt cr st m = Inr \<lparr>decrypt_next_state = ?st', decrypt_plaintext = p\<rparr>"
      using True key kid by (simp add: plan_decrypt_def decrypt_in_place_def)
    moreover have "follows_chain cr kid c n (insert ?n seen) ?st'"
      using st bt_len_remove_le [of ?n "skipped_message_keys st"] by (auto simp: follows_chain_def)
    ultimately show ?thesis using that by simp
  next
    case False
    then have it: "?it \<le> ?n" by simp
    have reach: "unat ?n \<le> unat ?it + SENDER_KEY_MAX_SKIP" and off: "unat ?n - unat ?it + (unat ?it - unat n) = j"
      using m(2) num it st
      by (simp_all add: follows_chain_def word_le_nat_alt SENDER_KEY_MAX_SKIP_def
            SENDER_KEY_MAX_STORED_SKIPPED_KEYS_def)
    let ?walked = "walked_keys cr st ?n"
    have chain: "chain_key st = chain_at ?f (unat ?it - unat n) c" using st by (simp add: follows_chain_def)
    have "bt_len ?walked \<le> j"
      using sender_chain.skip_len [OF it, of cr "chain_key st" "skipped_message_keys st"] st off
      by (simp add: walked_keys_def follows_chain_def)
    then have keep: "prune_skipped ?walked = ?walked" using m(2) by (simp add: prune_skipped_def prune_oldest_id)
    have pos: "chain_at ?f (Suc (unat ?n - unat ?it)) (chain_key st) = chain_at ?f (Suc j) c"
      "key_at ?f (unat ?n - unat ?it) (chain_key st) = key_at ?f j c"
      using off unfolding chain chain_at_add [symmetric] key_at_add [symmetric] by (simp_all add: add.commute)
    let ?st' = "st\<lparr>chain_key := chain_at ?f (Suc j) c, iteration := ?n + 1, skipped_message_keys := ?walked\<rparr>"
    have "plan_decrypt cr st m = Inr \<lparr>decrypt_next_state = ?st', decrypt_plaintext = p\<rparr>"
      using key kid num(2) pos
      by (simp add: plan_decrypt_def decrypt_in_place_ahead [OF it reach] checked_add_one Let_def keep
            walked_keys_def [symmetric] del: chain_at.simps)
    moreover have "bt_get ?walked k = Some (key_at ?f (unat k - unat n) c)"
      if "n \<le> k" "k < ?n + 1" "k \<notin> insert ?n seen" for k
    proof -
      have lt: "k < ?n" using that num(2) by (auto simp: word_less_nat_alt word_unat_eq_iff unat_plus_one_max)
      have "unat k - unat n = (unat ?it - unat n) + (unat k - unat ?it)" if "?it \<le> k"
        using that st by (simp add: follows_chain_def word_le_nat_alt)
      then show ?thesis
        using st that lt sender_chain.skip_keys [OF it, of cr "chain_key st" "skipped_message_keys st" k]
        by (auto simp: walked_keys_def follows_chain_def key_at_add)
    qed
    ultimately show ?thesis
      using that st num \<open>bt_len ?walked \<le> j\<close>
      by (auto simp: follows_chain_def unat_plus_one_max word_le_nat_alt simp del: chain_at.simps)
  qed
qed

lemma follows_chain_any_order:
  assumes "v2_roundtrip cr" "follows_chain cr kid c n seen st"
    and "\<And>j. j \<in> set order \<Longrightarrow> j < SENDER_KEY_MAX_STORED_SKIPPED_KEYS \<and> chain_message cr kid c n j (ps ! j) (ms ! j)
           \<and> content_message_number (ms ! j) \<notin> seen"
    and "distinct order"
  shows "\<exists>st'. decrypt_all cr st (map ((!) ms) order) = Inr (st', map ((!) ps) order)"
  using assms(2-)
proof (induction order arbitrary: st seen)
  case (Cons i order)
  have i: "i < SENDER_KEY_MAX_STORED_SKIPPED_KEYS" "chain_message cr kid c n i (ps ! i) (ms ! i)"
    "content_message_number (ms ! i) \<notin> seen" using Cons.prems by auto
  obtain plan where plan: "plan_decrypt cr st (ms ! i) = Inr plan" "decrypt_plaintext plan = ps ! i"
    "follows_chain cr kid c n (insert (content_message_number (ms ! i)) seen) (decrypt_next_state plan)"
    by (rule follows_chain_decrypt [OF assms(1) Cons.prems(1) i(2,1,3)])
  have "content_message_number (ms ! j) \<noteq> content_message_number (ms ! i)" if "j \<in> set order" for j
  proof -
    have "unat (content_message_number (ms ! j)) = unat n + j"
      using Cons.prems(2) [of j] that by (simp add: chain_message_def)
    moreover have "unat (content_message_number (ms ! i)) = unat n + i"
      using i(2) by (simp add: chain_message_def)
    moreover have "j \<noteq> i" using Cons.prems(3) that by auto
    ultimately show ?thesis by force
  qed
  then have "\<exists>st'. decrypt_all cr (decrypt_next_state plan) (map ((!) ms) order) =
      Inr (st', map ((!) ps) order)"
    using Cons.prems(2,3) by (intro Cons.IH [OF plan(3)]) simp_all
  then show ?case using plan by (auto simp: apply_decrypt_def)
qed simp

text \<open>
  C6. Group delivery in any order: a receiver that starts from the sender's chain key and number
  decrypts any subset of the sender's next messages, in any order, to the original payloads, for runs
  of at most 2000 messages, the number of keys it can store.
\<close>

theorem sender_key_any_order_delivery:
  assumes "v2_roundtrip cr" "encrypt_all cr draw sender ps = Inr (sender', ms)"
    and "length ps \<le> SENDER_KEY_MAX_STORED_SKIPPED_KEYS"
    and "receiver = sender_key_new (key_id sender) (chain_key sender) (iteration sender)"
    and "distinct order" "set order \<subseteq> {..<length ps}"
  shows "\<exists>receiver'. decrypt_all cr receiver (map ((!) ms) order) = Inr (receiver', map ((!) ps) order)"
proof (rule follows_chain_any_order [OF assms(1)])
  show "follows_chain cr (key_id sender) (chain_key sender) (iteration sender) {} receiver"
    by (auto simp: assms(4) follows_chain_def sender_key_new_def)
  show "j < SENDER_KEY_MAX_STORED_SKIPPED_KEYS \<and>
      chain_message cr (key_id sender) (chain_key sender) (iteration sender) j (ps ! j) (ms ! j)
      \<and> content_message_number (ms ! j) \<notin> {}" if "j \<in> set order" for j
    using that encrypt_all_messages [OF assms(2)] assms(3,6) by auto
qed (rule assms(5))

definition demo_run :: "SenderKeyState \<times> SenderKeyMessageContent list" where
  "demo_run = projr (encrypt_all demo_crypto 0 demo_group_sender [[5], [6], [7]])"

theorem sender_key_any_order_delivery_witness:
  "\<exists>receiver'. decrypt_all demo_crypto demo_group_sender (map ((!) (snd demo_run)) [2, 0]) =
     Inr (receiver', [[7], [5]])"
proof -
  have "\<exists>receiver'. decrypt_all demo_crypto demo_group_sender (map ((!) (snd demo_run)) [2, 0]) =
     Inr (receiver', map ((!) [[5], [6], [7]]) [2, 0])"
  proof (rule sender_key_any_order_delivery [OF demo_v2_roundtrip, of "()" 0 demo_group_sender _ "fst demo_run"])
    show "encrypt_all demo_crypto 0 demo_group_sender [[5], [6], [7]] = Inr (fst demo_run, snd demo_run)"
      unfolding demo_run_def by code_simp
  qed (auto simp: SENDER_KEY_MAX_STORED_SKIPPED_KEYS_def demo_group_sender_def sender_key_new_def)
  then show ?thesis by simp
qed

section \<open>Blind decryption\<close>

text \<open>
  C5. The blind search is decryption by message number without the number: it succeeds exactly when
  some number would, and what it finds, the payload and the next state with the pruned stored keys, is
  what decryption by the number it reports gives.
\<close>

theorem blind_decrypt_agrees:
  assumes "sender_key_inv st"
  shows "(is_ok (plan_decrypt_blind cr st ct) \<longleftrightarrow>
      (\<exists>n. is_ok (plan_decrypt cr st \<lparr>content_key_id = key_id st, content_message_number = n,
         content_ciphertext = ct\<rparr>)))
    \<and> (\<forall>plan. plan_decrypt_blind cr st ct = Inr plan \<longrightarrow>
        plan_decrypt cr st \<lparr>content_key_id = blind_key_id plan,
          content_message_number = blind_message_number plan, content_ciphertext = ct\<rparr> =
        Inr \<lparr>decrypt_next_state = blind_next_state plan, decrypt_plaintext = blind_plaintext plan\<rparr>)"
proof -
  have past: "skipped_past st" using assms by (simp add: sender_key_inv_def)
  have num: "is_ok (plan_decrypt cr st \<lparr>content_key_id = key_id st, content_message_number = n,
      content_ciphertext = ct\<rparr>) \<longleftrightarrow> is_ok (decrypt_in_place cr st n ct)" for n
    by (auto simp: plan_decrypt_def is_ok_and_then is_ok_def split: sum.splits)
  have agree: "plan_decrypt cr st \<lparr>content_key_id = blind_key_id plan,
      content_message_number = blind_message_number plan, content_ciphertext = ct\<rparr> =
    Inr \<lparr>decrypt_next_state = blind_next_state plan, decrypt_plaintext = blind_plaintext plan\<rparr>"
    if "plan_decrypt_blind cr st ct = Inr plan" for plan
    using plan_decrypt_blind_sound [OF past that] by (simp add: plan_decrypt_eq_Inr decrypts_to_def)
  have "\<exists>n. is_ok (decrypt_in_place cr st n ct)" if "is_ok (plan_decrypt_blind cr st ct)"
  proof -
    from that obtain plan where "plan_decrypt_blind cr st ct = Inr plan" by (auto simp: is_ok_iff)
    from plan_decrypt_blind_sound [OF past this] show ?thesis
      by (auto simp: decrypts_to_def is_ok_def intro!: exI [of _ "blind_message_number plan"])
  qed
  then show ?thesis using agree num plan_decrypt_blind_complete [OF past] by blast
qed

theorem blind_decrypt_agrees_witness:
  "is_ok (plan_decrypt_blind demo_crypto demo_group_sender (content_ciphertext demo_second))"
proof -
  have "demo_second = \<lparr>content_key_id = key_id demo_group_sender, content_message_number = 1,
      content_ciphertext = content_ciphertext demo_second\<rparr>"
    by code_simp
  then have "\<exists>n. is_ok (plan_decrypt demo_crypto demo_group_sender
      \<lparr>content_key_id = key_id demo_group_sender, content_message_number = n,
       content_ciphertext = content_ciphertext demo_second\<rparr>)"
    using demo_ahead_ok by (metis is_ok_simps(1))
  then show ?thesis using blind_decrypt_agrees [OF demo_group_inv] by blast
qed

text \<open>
  A search can be suspended and resumed: running with one budget of key trials and, if the
  outcome is still open, with another from the cursor reached, is running once with their sum, with
  the unused trials accounted for.
\<close>

theorem blind_search_resumes:
  "advance cr ct cur (a + b) =
     (case advance cr ct cur a of
        (Inr Pending, cur', left) \<Rightarrow> advance cr ct cur' b
      | (r, cur', left) \<Rightarrow> (r, cur', left + b))"
  by (rule advance_add)

end
