(* ===== verification/Snapshot_Register.thy ===== *)
theory Snapshot_Register
  imports Prelude
begin

text \<open>
  Registers of timestamped snapshots. A device roster and an AppKeys set are both kept as the latest
  snapshot seen: a newer snapshot replaces the current one, an older one is ignored and one with the
  same timestamp is merged. The locale states what the update and merge operations promise and
  derives that the content depends only on the set of snapshots received, so that devices that
  receive the same snapshots in any order, with any repetition, agree.
\<close>

locale snapshot_register =
  fixes stamp :: "'r \<Rightarrow> u64"
    and ok :: "'r \<Rightarrow> bool"
    and merge :: "'r \<Rightarrow> 'r \<Rightarrow> 'r"
    and update :: "'r option \<Rightarrow> 'r \<Rightarrow> 'r"
  assumes update_first: "update None r = r"
    and update_newer: "stamp c < stamp r \<Longrightarrow> update (Some c) r = r"
    and update_older: "stamp r < stamp c \<Longrightarrow> update (Some c) r = c"
    and update_equal: "stamp r = stamp c \<Longrightarrow> update (Some c) r = merge c r"
    and merge_stamp: "stamp a = stamp b \<Longrightarrow> stamp (merge a b) = stamp a"
    and merge_ok: "ok a \<Longrightarrow> ok b \<Longrightarrow> ok (merge a b)"
    and merge_comm: "ok a \<Longrightarrow> ok b \<Longrightarrow> stamp a = stamp b \<Longrightarrow> merge a b = merge b a"
    and merge_assoc: "ok a \<Longrightarrow> ok b \<Longrightarrow> ok c \<Longrightarrow> merge (merge a b) c = merge a (merge b c)"
    and merge_idem: "ok a \<Longrightarrow> merge a a = a"
begin

text \<open>The order of snapshots: by time, and by content at the same time.\<close>

definition below :: "'r \<Rightarrow> 'r \<Rightarrow> bool" where
  "below a b \<longleftrightarrow> stamp a < stamp b \<or> stamp a = stamp b \<and> merge a b = b"

definition replay :: "'r list \<Rightarrow> 'r option" where
  "replay rs = fold (\<lambda>r cur. Some (update cur r)) rs None"

lemma below_refl: "ok a \<Longrightarrow> below a a"
  by (simp add: below_def merge_idem)

lemma below_trans: "ok a \<Longrightarrow> ok b \<Longrightarrow> ok c \<Longrightarrow> below a b \<Longrightarrow> below b c \<Longrightarrow> below a c"
  unfolding below_def by (metis less_trans merge_assoc)

lemma below_antisym: "ok a \<Longrightarrow> ok b \<Longrightarrow> below a b \<Longrightarrow> below b a \<Longrightarrow> a = b"
  unfolding below_def by (metis less_asym' less_irrefl merge_comm)

lemma update_ok: "ok c \<Longrightarrow> ok r \<Longrightarrow> ok (update (Some c) r)"
  by (metis linorder_cases merge_ok update_equal update_newer update_older)

lemma update_upper:
  assumes "ok c" "ok r"
  shows "below c (update (Some c) r)" "below r (update (Some c) r)"
proof -
  consider "stamp c < stamp r" | "stamp r < stamp c" | "stamp r = stamp c" by fastforce
  then have "below c (update (Some c) r) \<and> below r (update (Some c) r)"
  proof cases
    case 3
    have "merge c (merge c r) = merge c r" using assms by (metis merge_assoc merge_idem)
    moreover have "merge r (merge c r) = merge c r"
      using assms 3 by (metis merge_assoc merge_comm merge_idem)
    ultimately show ?thesis using 3 by (simp add: below_def update_equal merge_stamp)
  qed (auto simp: below_def update_newer update_older merge_idem assms)
  then show "below c (update (Some c) r)" "below r (update (Some c) r)" by auto
qed

lemma update_least:
  assumes "ok c" "ok r" "ok u" "below c u" "below r u"
  shows "below (update (Some c) r) u"
proof -
  consider "stamp c < stamp r" | "stamp r < stamp c" | "stamp r = stamp c" by fastforce
  then show ?thesis
  proof cases
    case 3
    then show ?thesis using assms by (auto simp: below_def update_equal merge_stamp merge_assoc)
  qed (use assms in \<open>auto simp: update_newer update_older\<close>)
qed

text \<open>The content of the register is the least upper bound of what was received.\<close>

lemma replay_from:
  assumes "ok c" "\<forall>r \<in> set rs. ok r"
  shows "\<exists>res. fold (\<lambda>r cur. Some (update cur r)) rs (Some c) = Some res \<and> ok res
    \<and> (\<forall>r \<in> insert c (set rs). below r res)
    \<and> (\<forall>u. ok u \<longrightarrow> (\<forall>r \<in> insert c (set rs). below r u) \<longrightarrow> below res u)"
  using assms
proof (induction rs arbitrary: c)
  case Nil
  then show ?case by (simp add: below_refl)
next
  case (Cons r rs)
  let ?c = "update (Some c) r"
  have ok: "ok ?c" "ok r" "ok c" using Cons.prems update_ok by auto
  obtain res where res: "fold (\<lambda>r cur. Some (update cur r)) rs (Some ?c) = Some res" "ok res"
    "\<forall>r \<in> insert ?c (set rs). below r res"
    "\<forall>u. ok u \<longrightarrow> (\<forall>r \<in> insert ?c (set rs). below r u) \<longrightarrow> below res u"
    using Cons.IH [OF ok(1)] Cons.prems(2) by auto
  have "below c res" "below r res"
    using below_trans [OF _ ok(1) res(2)] update_upper [OF ok(3,2)] ok res(3) by auto
  moreover have "below res u" if "ok u" "\<forall>x \<in> insert c (set (r # rs)). below x u" for u
    using res(4) that update_least [OF ok(3,2) that(1)] by simp
  ultimately show ?case using res by auto
qed

theorem replay_lub:
  assumes "rs \<noteq> []" "\<forall>r \<in> set rs. ok r"
  shows "\<exists>res. replay rs = Some res \<and> ok res \<and> (\<forall>r \<in> set rs. below r res)
    \<and> (\<forall>u. ok u \<longrightarrow> (\<forall>r \<in> set rs. below r u) \<longrightarrow> below res u)"
  using assms replay_from by (cases rs) (auto simp: replay_def update_first)

theorem replay_converges:
  assumes "set rs = set rs'" "\<forall>r \<in> set rs. ok r"
  shows "replay rs = replay rs'"
proof (cases "rs = []")
  case True
  then show ?thesis using assms by simp
next
  case False
  then have "rs' \<noteq> []" using assms(1) by auto
  from replay_lub [OF False assms(2)] replay_lub [OF this] assms
  show ?thesis by (metis below_antisym)
qed

end

end
