(* ===== verification/Roster.thy ===== *)
theory Roster
  imports Protocol_Types Snapshot_Register
begin

text \<open>
  Device rosters (\<^verbatim>\<open>roster.rs\<close>), the roster editor (\<^verbatim>\<open>roster_editor.rs\<close>) and the application of a
  roster snapshot (\<^verbatim>\<open>apply_roster_snapshot\<close> of \<^verbatim>\<open>session_manager.rs\<close>).
\<close>

section \<open>Rosters\<close>

datatype RosterSnapshotDecision = Advanced | Stale | MergedEqualTimestamp

record AuthorizedDevice =
  device_pubkey :: DevicePubkey
  device_created_at :: UnixSeconds

record DeviceRoster =
  roster_created_at :: UnixSeconds
  devices :: "AuthorizedDevice list"

text \<open>\<^verbatim>\<open>entry(..).and_modify(..).or_insert(..)\<close>: the earliest authorization of a device is kept.\<close>

definition insert_earliest ::
  "AuthorizedDevice \<Rightarrow> (DevicePubkey, AuthorizedDevice) btmap \<Rightarrow> (DevicePubkey, AuthorizedDevice) btmap" where
  "insert_earliest d m =
     (case bt_get m (device_pubkey d) of
        None \<Rightarrow> bt_insert (device_pubkey d) d m
      | Some existing \<Rightarrow>
        if device_created_at d < device_created_at existing then bt_insert (device_pubkey d) d m else m)"

definition normalize_devices :: "AuthorizedDevice list \<Rightarrow> AuthorizedDevice list" where
  "normalize_devices ds = bt_values (fold insert_earliest ds bt_empty)"

definition roster_new :: "UnixSeconds \<Rightarrow> AuthorizedDevice list \<Rightarrow> DeviceRoster" where
  "roster_new t ds = \<lparr>roster_created_at = t, devices = normalize_devices ds\<rparr>"

definition roster_get_device :: "DeviceRoster \<Rightarrow> DevicePubkey \<Rightarrow> AuthorizedDevice option" where
  "roster_get_device r k = find_first (\<lambda>d. device_pubkey d = k) (devices r)"

definition roster_merge :: "DeviceRoster \<Rightarrow> DeviceRoster \<Rightarrow> DeviceRoster" where
  "roster_merge self other =
     \<lparr>roster_created_at = roster_created_at self,
      devices = bt_values (fold insert_earliest (devices self @ devices other) bt_empty)\<rparr>"

definition apply_roster_snapshot ::
  "DeviceRoster option \<Rightarrow> DeviceRoster \<Rightarrow> RosterSnapshotDecision \<times> DeviceRoster" where
  "apply_roster_snapshot current incoming =
     (case current of
        None \<Rightarrow> (Advanced, incoming)
      | Some cur \<Rightarrow>
        if roster_created_at incoming > roster_created_at cur then (Advanced, incoming)
        else if roster_created_at incoming < roster_created_at cur then (Stale, cur)
        else (MergedEqualTimestamp, roster_merge cur incoming))"

section \<open>The roster editor\<close>

record RosterEditor =
  editor_devices :: "(DevicePubkey, AuthorizedDevice) btmap"

definition editor_new :: RosterEditor where
  "editor_new = \<lparr>editor_devices = bt_empty\<rparr>"

definition authorize_device :: "RosterEditor \<Rightarrow> DevicePubkey \<Rightarrow> UnixSeconds \<Rightarrow> bool \<times> RosterEditor" where
  "authorize_device ed k t =
     (case bt_get (editor_devices ed) k of
        Some existing \<Rightarrow>
          if t < device_created_at existing
          then (True, ed\<lparr>editor_devices := bt_insert k (existing\<lparr>device_created_at := t\<rparr>) (editor_devices ed)\<rparr>)
          else (False, ed)
      | None \<Rightarrow>
          (True, ed\<lparr>editor_devices := bt_insert k \<lparr>device_pubkey = k, device_created_at = t\<rparr>
                      (editor_devices ed)\<rparr>))"

definition editor_from_roster :: "DeviceRoster option \<Rightarrow> RosterEditor" where
  "editor_from_roster roster =
     (case roster of
        None \<Rightarrow> editor_new
      | Some r \<Rightarrow> fold (\<lambda>d ed. snd (authorize_device ed (device_pubkey d) (device_created_at d)))
                      (devices r) editor_new)"

definition revoke_device :: "RosterEditor \<Rightarrow> DevicePubkey \<Rightarrow> bool \<times> RosterEditor" where
  "revoke_device ed k =
     (bt_contains_key (editor_devices ed) k, ed\<lparr>editor_devices := bt_remove k (editor_devices ed)\<rparr>)"

definition contains_device :: "RosterEditor \<Rightarrow> DevicePubkey \<Rightarrow> bool" where
  "contains_device ed k = bt_contains_key (editor_devices ed) k"

definition editor_build :: "RosterEditor \<Rightarrow> UnixSeconds \<Rightarrow> DeviceRoster" where
  "editor_build ed t = roster_new t (bt_values (editor_devices ed))"

section \<open>Rosters as maps\<close>

text \<open>The time since which a list of devices authorizes a device: the earliest of its entries.\<close>

fun option_min :: "'a::linorder option \<Rightarrow> 'a option \<Rightarrow> 'a option" where
  "option_min None y = y"
| "option_min x None = x"
| "option_min (Some a) (Some b) = Some (min a b)"

lemma option_min_None_right [simp]: "option_min x None = x"
  by (cases x) auto

lemma option_min_assoc: "option_min (option_min a b) c = option_min a (option_min b c)"
  by (cases a; cases b; cases c) (auto simp: min.assoc)

lemma option_min_comm: "option_min a b = option_min b a"
  by (cases a; cases b) (auto simp: min.commute)

lemma option_min_idem: "option_min a a = a"
  by (cases a) auto

fun since :: "AuthorizedDevice list \<Rightarrow> DevicePubkey \<Rightarrow> UnixSeconds option" where
  "since [] k = None"
| "since (d # ds) k = (if device_pubkey d = k then option_min (Some (device_created_at d)) (since ds k)
                      else since ds k)"

lemma since_append: "since (xs @ ys) k = option_min (since xs k) (since ys k)"
  by (induction xs) (auto simp: option_min_assoc)

definition keyed :: "(DevicePubkey, AuthorizedDevice) btmap \<Rightarrow> bool" where
  "keyed m \<longleftrightarrow> (\<forall>k d. bt_get m k = Some d \<longrightarrow> device_pubkey d = k)"

abbreviation times :: "(DevicePubkey, AuthorizedDevice) btmap \<Rightarrow> DevicePubkey \<Rightarrow> UnixSeconds option" where
  "times m k \<equiv> map_option device_created_at (bt_get m k)"

lemma insert_earliest_keyed: "keyed m \<Longrightarrow> keyed (insert_earliest d m)"
  by (auto simp: keyed_def insert_earliest_def split: option.splits)

lemma insert_earliest_times:
  "times (insert_earliest d m) k =
     (if device_pubkey d = k then option_min (Some (device_created_at d)) (times m k) else times m k)"
  by (auto simp: insert_earliest_def min_def split: option.splits)

lemma fold_insert_earliest:
  assumes "keyed m"
  shows "keyed (fold insert_earliest ds m)"
    "times (fold insert_earliest ds m) k = option_min (times m k) (since ds k)"
  using assms
  by (induction ds arbitrary: m)
     (auto simp: insert_earliest_keyed insert_earliest_times option_min_assoc option_min_comm [of "Some _" "map_option _ _"])

text \<open>A normalised roster lists each device once, in key order.\<close>

definition roster_ok :: "DeviceRoster \<Rightarrow> bool" where
  "roster_ok r \<longleftrightarrow> sorted_wrt (<) (map device_pubkey (devices r))"

lemma keyed_values_sorted:
  assumes "keyed m"
  shows "map device_pubkey (bt_values m) = bt_keys m"
proof -
  have "device_pubkey (snd e) = fst e" if "e \<in> set (bt_entries m)" for e
    using assms that by (metis bt_get_entries keyed_def prod.collapse)
  then show ?thesis by (simp add: bt_values_def bt_keys_def)
qed

lemma since_values:
  assumes "keyed m"
  shows "since (bt_values m) k = times m k"
proof -
  have "since (map snd xs) k = map_option device_created_at (al_get xs k)"
    if "\<forall>e \<in> set xs. device_pubkey (snd e) = fst e" "ordered_keys xs" for xs
    using that
  proof (induction xs)
    case (Cons e xs)
    then have "fst e = k \<Longrightarrow> al_get xs k = None" by (auto simp: al_get_None_iff)
    then show ?case using Cons by (cases e) auto
  qed simp
  moreover have "\<forall>e \<in> set (bt_entries m). device_pubkey (snd e) = fst e"
    using assms by (metis bt_get_entries keyed_def prod.collapse)
  ultimately show ?thesis
    using bt_entries [of m] by (simp add: bt_values_def bt_get.rep_eq)
qed

lemma roster_ok_keyed: "keyed m \<Longrightarrow> roster_ok \<lparr>roster_created_at = t, devices = bt_values m\<rparr>"
  using bt_keys_ordered [of m] by (simp add: roster_ok_def keyed_values_sorted)

lemma keyed_empty [simp]: "keyed bt_empty"
  by (simp add: keyed_def)

lemma roster_merge_ok: "roster_ok (roster_merge a b)"
  by (simp add: roster_merge_def roster_ok_keyed fold_insert_earliest(1))

lemma roster_merge_created_at [simp]: "roster_created_at (roster_merge a b) = roster_created_at a"
  by (simp add: roster_merge_def)

lemma roster_merge_since:
  "since (devices (roster_merge a b)) k = option_min (since (devices a) k) (since (devices b) k)"
  by (simp add: roster_merge_def since_values fold_insert_earliest since_append)

lemma roster_new_ok: "roster_ok (roster_new t ds)"
  by (simp add: roster_new_def normalize_devices_def roster_ok_keyed fold_insert_earliest(1))

lemma roster_new_since: "since (devices (roster_new t ds)) k = since ds k"
  by (simp add: roster_new_def normalize_devices_def since_values fold_insert_earliest)

text \<open>A normalised roster is determined by its timestamp and its map.\<close>

lemma roster_ext:
  assumes "roster_ok a" "roster_ok b" "roster_created_at a = roster_created_at b"
    and "\<And>k. since (devices a) k = since (devices b) k"
  shows "a = b"
proof -
  let ?al = "map (\<lambda>d. (device_pubkey d, device_created_at d))"
  have al: "al_get (?al ds) k = since ds k" if "sorted_wrt (<) (map device_pubkey ds)" for ds k
    using that
  proof (induction ds)
    case (Cons d ds)
    have "device_pubkey d = k \<Longrightarrow> since ds k = None"
      using Cons by (auto simp: al_get_None_iff simp flip: Cons.IH)
    then show ?case using Cons by auto
  qed simp
  have "?al (devices a) = ?al (devices b)"
    using assms by (intro ordered_get_ext) (auto simp: roster_ok_def comp_def al fun_eq_iff)
  then have "devices a = devices b"
    by (rule map_injective) (auto intro!: injI AuthorizedDevice.equality)
  then show ?thesis using assms(3) by simp
qed

interpretation roster_register: snapshot_register roster_created_at roster_ok roster_merge
  "\<lambda>cur r. snd (apply_roster_snapshot cur r)"
proof
  fix a b c r :: DeviceRoster
  show "snd (apply_roster_snapshot None r) = r" by (simp add: apply_roster_snapshot_def)
  show "roster_ok (roster_merge a b)" by (rule roster_merge_ok)
  show "roster_created_at a = roster_created_at b \<Longrightarrow> roster_merge a b = roster_merge b a"
    by (rule roster_ext) (simp_all add: roster_merge_ok roster_merge_since option_min_comm)
  show "roster_merge (roster_merge a b) c = roster_merge a (roster_merge b c)"
    by (rule roster_ext) (simp_all add: roster_merge_ok roster_merge_since option_min_assoc)
  show "roster_ok a \<Longrightarrow> roster_merge a a = a"
    by (rule roster_ext) (simp_all add: roster_merge_ok roster_merge_since option_min_idem)
qed (auto simp: apply_roster_snapshot_def)

section \<open>Properties\<close>

text \<open>The roster kept after a sequence of snapshots.\<close>

definition roster_after :: "DeviceRoster list \<Rightarrow> DeviceRoster option" where
  "roster_after rs = fold (\<lambda>r cur. Some (snd (apply_roster_snapshot cur r))) rs None"

text \<open>
  Roster convergence: the roster kept by a device depends only on the set of normalised roster
  snapshots it was given, not on their order or repetition, so that devices that have seen the same
  snapshots authorize the same devices with the same times.
\<close>

theorem roster_convergence:
  assumes "set rs = set rs'" "\<forall>r \<in> set rs. roster_ok r"
  shows "roster_after rs = roster_after rs'"
  using roster_register.replay_converges [OF assms]
  by (simp add: roster_after_def roster_register.replay_def)

theorem roster_convergence_witness:
  "roster_after [roster_new 5 [\<lparr>device_pubkey = DevicePubkey [1], device_created_at = 3\<rparr>],
                 roster_new 5 [\<lparr>device_pubkey = DevicePubkey [2], device_created_at = 4\<rparr>],
                 roster_new 2 []] =
   roster_after [roster_new 2 [],
                 roster_new 5 [\<lparr>device_pubkey = DevicePubkey [2], device_created_at = 4\<rparr>],
                 roster_new 5 [\<lparr>device_pubkey = DevicePubkey [1], device_created_at = 3\<rparr>],
                 roster_new 5 [\<lparr>device_pubkey = DevicePubkey [2], device_created_at = 4\<rparr>]]"
  by (rule roster_convergence) (auto simp: roster_new_ok)

text \<open>
  What an accepted roster says: the decision is \<^verbatim>\<open>Stale\<close> exactly for an older snapshot and then the
  roster is unchanged, a newer one replaces it, and at equal times the result authorizes exactly the
  devices either side authorizes, each since its earliest time.
\<close>

theorem apply_roster_snapshot_spec:
  "case apply_roster_snapshot (Some cur) incoming of
     (Advanced, r) \<Rightarrow> roster_created_at cur < roster_created_at incoming \<and> r = incoming
   | (Stale, r) \<Rightarrow> roster_created_at incoming < roster_created_at cur \<and> r = cur
   | (MergedEqualTimestamp, r) \<Rightarrow> roster_created_at incoming = roster_created_at cur
       \<and> roster_created_at r = roster_created_at cur \<and> roster_ok r
       \<and> (\<forall>k. since (devices r) k = option_min (since (devices cur) k) (since (devices incoming) k))"
  by (auto simp: apply_roster_snapshot_def roster_merge_ok roster_merge_since)

lemma find_first_since:
  assumes "sorted_wrt (<) (map device_pubkey ds)"
  shows "map_option device_created_at (find_first (\<lambda>d. device_pubkey d = k) ds) = since ds k"
  using assms
proof (induction ds)
  case (Cons d ds)
  have "since ds k = None" if "device_pubkey d = k"
  proof -
    have "\<forall>x \<in> set ds. device_pubkey x \<noteq> k" using Cons.prems that by auto
    then show ?thesis by (induction ds) auto
  qed
  then show ?case using Cons by (auto simp: find_first_def)
qed (simp add: find_first_def)

lemma authorize_device_insert:
  assumes "keyed (editor_devices ed)"
  shows "editor_devices (snd (authorize_device ed k t)) =
    insert_earliest \<lparr>device_pubkey = k, device_created_at = t\<rparr> (editor_devices ed)"
proof (cases "bt_get (editor_devices ed) k")
  case (Some e)
  then have "device_pubkey e = k" using assms by (simp add: keyed_def)
  then have "e\<lparr>device_created_at := t\<rparr> = \<lparr>device_pubkey = k, device_created_at = t\<rparr>"
    by (cases e) simp
  then show ?thesis using Some by (simp only: authorize_device_def insert_earliest_def) simp
qed (simp add: authorize_device_def insert_earliest_def)

lemma editor_fold:
  assumes "keyed (editor_devices ed)"
  shows "editor_devices (fold (\<lambda>d ed. snd (authorize_device ed (device_pubkey d) (device_created_at d))) ds ed) =
    fold insert_earliest ds (editor_devices ed)"
  using assms
proof (induction ds arbitrary: ed)
  case (Cons d ds)
  then show ?case by (cases d) (simp add: authorize_device_insert insert_earliest_keyed)
qed simp

lemma editor_from_roster_keyed: "keyed (editor_devices (editor_from_roster r))"
  by (cases r) (simp_all add: editor_from_roster_def editor_new_def editor_fold fold_insert_earliest(1))

text \<open>
  Editing a roster: loading a roster into the editor and building it again gives the same
  normalised roster, and authorizing or revoking a device in between changes exactly that device:
  authorization keeps the earliest time, revocation removes it.
\<close>

theorem roster_editor_edits:
  "roster_ok (editor_build (editor_from_roster (Some r)) t)
   \<and> since (devices (editor_build (editor_from_roster (Some r)) t)) k = since (devices r) k
   \<and> since (devices (editor_build (snd (authorize_device (editor_from_roster (Some r)) d u)) t)) k =
       (if k = d then option_min (Some u) (since (devices r) k) else since (devices r) k)
   \<and> since (devices (editor_build (snd (revoke_device (editor_from_roster (Some r)) d)) t)) k =
       (if k = d then None else since (devices r) k)"
proof -
  let ?ed = "editor_from_roster (Some r)"
  have keyed: "keyed (editor_devices ?ed)" by (rule editor_from_roster_keyed)
  have since: "times (editor_devices ?ed) k = since (devices r) k" for k
    by (simp add: editor_from_roster_def editor_new_def editor_fold fold_insert_earliest(2))
  have "keyed (bt_remove d (editor_devices ?ed))" using keyed by (simp add: keyed_def)
  then show ?thesis using keyed
    by (auto simp: editor_build_def roster_new_ok roster_new_since since_values since revoke_device_def
          authorize_device_insert insert_earliest_keyed insert_earliest_times)
qed

end
