(* ===== verification/Nostr_Event.thy ===== *)
theory Nostr_Event
  imports Session_Ratchet
begin

text \<open>
  Nostr events and the string functions of the Rust standard library that the event parsers use.
  A string is the list of its bytes. \<^verbatim>\<open>trim\<close> and \<^verbatim>\<open>to_lowercase\<close> are modelled on ASCII, the alphabet of
  the hex keys, UUIDs and numbers they are applied to.
\<close>

section \<open>Strings\<close>

definition is_whitespace :: "char \<Rightarrow> bool" where
  "is_whitespace c \<longleftrightarrow> c \<in> set [CHR 0x09, CHR 0x0A, CHR 0x0B, CHR 0x0C, CHR 0x0D, CHR '' '']"

definition trim_start :: "string \<Rightarrow> string" where
  "trim_start s = dropWhile is_whitespace s"

definition trim :: "string \<Rightarrow> string" where
  "trim s = rev (trim_start (rev (trim_start s)))"

definition to_lower_char :: "char \<Rightarrow> char" where
  "to_lower_char c = (let n = (of_char c :: nat) in if 65 \<le> n \<and> n \<le> 90 then char_of (n + 32) else c)"

definition to_lowercase :: "string \<Rightarrow> string" where
  "to_lowercase s = map to_lower_char s"

definition eq_ignore_ascii_case :: "string \<Rightarrow> string \<Rightarrow> bool" where
  "eq_ignore_ascii_case a b \<longleftrightarrow> map to_lower_char a = map to_lower_char b"

definition is_digit :: "char \<Rightarrow> bool" where
  "is_digit c \<longleftrightarrow> c \<in> set ''0123456789''"

definition is_ascii_hexdigit :: "char \<Rightarrow> bool" where
  "is_ascii_hexdigit c \<longleftrightarrow> c \<in> set ''0123456789abcdefABCDEF''"

definition digit_value :: "char \<Rightarrow> int" where
  "digit_value c = of_char c - 48"

fun decimal_value :: "int \<Rightarrow> string \<Rightarrow> int" where
  "decimal_value acc [] = acc"
| "decimal_value acc (c # cs) = decimal_value (10 * acc + digit_value c) cs"

text \<open>\<^verbatim>\<open>str::parse::<u64>\<close>: an optional plus sign and at least one digit, within 64 bits.\<close>

definition parse_u64 :: "string \<Rightarrow> u64 option" where
  "parse_u64 s =
     (let ds = (case s of c # cs \<Rightarrow> if c = CHR ''+'' then cs else s | [] \<Rightarrow> [])
      in if ds = [] \<or> \<not> list_all is_digit ds then None
         else let v = decimal_value 0 ds in if v < 2 ^ 64 then Some (word_of_int v) else None)"

definition digit_char :: "nat \<Rightarrow> char" where
  "digit_char n = char_of (n + 48)"

fun print_nat :: "nat \<Rightarrow> string" where
  "print_nat n = (if n < 10 then [digit_char n] else print_nat (n div 10) @ [digit_char (n mod 10)])"

declare print_nat.simps [simp del]

definition u64_to_string :: "u64 \<Rightarrow> string" where
  "u64_to_string w = print_nat (unat w)"

definition string_bytes :: "string \<Rightarrow> bytes" where
  "string_bytes s = map of_char s"

section \<open>Facts about strings\<close>

lemma dropWhile_none: "list_all (\<lambda>c. \<not> P c) s \<Longrightarrow> dropWhile P s = s"
  by (cases s) auto

lemma trim_id: "list_all (\<lambda>c. \<not> is_whitespace c) s \<Longrightarrow> trim s = s"
  by (simp add: trim_def trim_start_def dropWhile_none)

lemma digit_char_digit:
  assumes "n < 10"
  shows "is_digit (digit_char n)" "digit_value (digit_char n) = int n"
    "digit_char n \<noteq> CHR ''+''" "\<not> is_whitespace (digit_char n)"
proof -
  have "list_all (\<lambda>n. is_digit (digit_char n) \<and> digit_value (digit_char n) = int n
      \<and> digit_char n \<noteq> CHR ''+'' \<and> \<not> is_whitespace (digit_char n)) [0..<10]"
    by code_simp
  then have "is_digit (digit_char n) \<and> digit_value (digit_char n) = int n
      \<and> digit_char n \<noteq> CHR ''+'' \<and> \<not> is_whitespace (digit_char n)"
    using assms unfolding list_all_iff by (elim bspec) simp
  then show "is_digit (digit_char n)" "digit_value (digit_char n) = int n"
    "digit_char n \<noteq> CHR ''+''" "\<not> is_whitespace (digit_char n)"
    by simp_all
qed

lemma decimal_value_append: "decimal_value acc (xs @ [c]) = 10 * decimal_value acc xs + digit_value c"
  by (induction xs arbitrary: acc) auto

lemma print_nat_digits:
  "print_nat n \<noteq> [] \<and> list_all is_digit (print_nat n) \<and> decimal_value 0 (print_nat n) = int n"
proof (induction n rule: print_nat.induct)
  case (1 n)
  show ?case
  proof (cases "n < 10")
    case True
    then show ?thesis by (simp add: print_nat.simps [of n] digit_char_digit)
  next
    case False
    then show ?thesis using 1
      by (simp add: print_nat.simps [of n] digit_char_digit decimal_value_append zmod_int zdiv_int)
  qed
qed

lemma digit_not_plus: "is_digit c \<Longrightarrow> c \<noteq> CHR ''+'' \<and> \<not> is_whitespace c"
  by (auto simp: is_digit_def is_whitespace_def)

lemma parse_u64_print: "parse_u64 (u64_to_string w) = Some w"
proof -
  let ?s = "print_nat (unat w)"
  obtain c cs where s: "?s = c # cs" using print_nat_digits [of "unat w"] by (cases ?s) auto
  then have "c \<noteq> CHR ''+''" using print_nat_digits [of "unat w"] digit_not_plus by auto
  moreover have "int (unat w) < 2 ^ 64" using unsigned_less [of w, where ?'a = int] by simp
  ultimately show ?thesis
    using print_nat_digits [of "unat w"] s by (simp add: parse_u64_def u64_to_string_def)
qed

lemma u64_to_string_trim: "trim (u64_to_string w) = u64_to_string w"
  using print_nat_digits [of "unat w"] digit_not_plus
  by (auto intro!: trim_id simp: u64_to_string_def list_all_iff)

section \<open>Events\<close>

record UnsignedEvent =
  rumor_id :: "bytes option"
  rumor_pubkey :: PublicKey
  rumor_created_at :: u64
  rumor_kind :: "16 word"
  rumor_tags :: "string list list"
  rumor_content :: string

record Event =
  ev_id :: bytes
  ev_pubkey :: PublicKey
  ev_created_at :: u64
  ev_kind :: "16 word"
  ev_tags :: "string list list"
  ev_content :: string
  ev_sig :: bytes

text \<open>What the code uses of the \<^verbatim>\<open>nostr\<close>, \<^verbatim>\<open>serde_json\<close> and \<^verbatim>\<open>uuid\<close> crates on events.\<close>

record event_crypto = session_crypto +
  event_verify :: "Event \<Rightarrow> bool" \<comment> \<open>\<^verbatim>\<open>Event::verify\<close>: id and signature\<close>
  event_json_len :: "Event \<Rightarrow> nat res" \<comment> \<open>length of \<^verbatim>\<open>serde_json::to_vec(event)\<close>\<close>
  builder_keeps :: "PublicKey \<Rightarrow> string list \<Rightarrow> bool" \<comment> \<open>tags \<^verbatim>\<open>EventBuilder::build\<close> keeps\<close>
  uuid_v4 :: "nat \<Rightarrow> string"

definition tag_name :: "string list \<Rightarrow> string option" where
  "tag_name tag = (case tag of [] \<Rightarrow> None | n # _ \<Rightarrow> Some n)"

text \<open>\<^verbatim>\<open>Vec::get\<close>.\<close>

definition list_get :: "'a list \<Rightarrow> nat \<Rightarrow> 'a option" where
  "list_get xs i = (if i < length xs then Some (xs ! i) else None)"

end
