(* ===== verification/App_Keys.thy ===== *)
theory App_Keys
  imports Nostr_Event
begin

text \<open>
  AppKeys (\<^verbatim>\<open>app_keys.rs\<close>): the set of devices an owner has signed, its event format, the merge of two
  sets, and the index of verified heads. The hash maps of the code are ordered maps here: iteration
  order is unspecified in Rust and none of the results modelled depends on it.
\<close>

section \<open>Constants and data\<close>

definition APP_KEYS_SNAPSHOT_KIND :: u32 where "APP_KEYS_SNAPSHOT_KIND = 37368"
definition APP_KEYS_SCHEMA :: u64 where "APP_KEYS_SCHEMA = 1"
definition APP_KEYS_FACT_TYPE :: string where "APP_KEYS_FACT_TYPE = ''app_keys_roster_snapshot''"
definition APP_KEYS_OWNER_PUBKEY_FACT :: string where "APP_KEYS_OWNER_PUBKEY_FACT = ''owner_pubkey''"
definition APP_KEYS_AUTHORIZATION_MAX_EVENT_BYTES :: nat where
  "APP_KEYS_AUTHORIZATION_MAX_EVENT_BYTES = 64 * 1024"
definition APP_KEYS_AUTHORIZATION_MAX_DEVICES :: nat where "APP_KEYS_AUTHORIZATION_MAX_DEVICES = 64"
definition APP_KEYS_AUTHORIZATION_MAX_FUTURE_SKEW_SECS :: u64 where
  "APP_KEYS_AUTHORIZATION_MAX_FUTURE_SKEW_SECS = 5 * 60"

datatype DeviceMembership = Authorized | Excluded | Missing | Ambiguous

record DeviceEntry =
  identity_pubkey :: PublicKey
  entry_created_at :: u64

record DeviceLabels =
  device_label :: "string option"
  client_label :: "string option"
  labels_updated_at :: u64

record AppKeys =
  ak_devices :: "(PublicKey, DeviceEntry) btmap"
  ak_device_labels :: "(PublicKey, DeviceLabels) btmap"

section \<open>Operations on AppKeys\<close>

definition app_keys_new :: "DeviceEntry list \<Rightarrow> AppKeys" where
  "app_keys_new ds = \<lparr>ak_devices = fold (\<lambda>d m. bt_insert (identity_pubkey d) d m) ds bt_empty,
                      ak_device_labels = bt_empty\<rparr>"

definition add_device :: "AppKeys \<Rightarrow> DeviceEntry \<Rightarrow> AppKeys" where
  "add_device ak d =
     (if bt_contains_key (ak_devices ak) (identity_pubkey d) then ak
      else ak\<lparr>ak_devices := bt_insert (identity_pubkey d) d (ak_devices ak)\<rparr>)"

definition remove_device :: "AppKeys \<Rightarrow> PublicKey \<Rightarrow> AppKeys" where
  "remove_device ak k =
     ak\<lparr>ak_devices := bt_remove k (ak_devices ak), ak_device_labels := bt_remove k (ak_device_labels ak)\<rparr>"

definition get_device :: "AppKeys \<Rightarrow> PublicKey \<Rightarrow> DeviceEntry option" where
  "get_device ak k = bt_get (ak_devices ak) k"

definition get_all_devices :: "AppKeys \<Rightarrow> DeviceEntry list" where
  "get_all_devices ak = bt_values (ak_devices ak)"

definition has_equivalent_authorization_roster :: "AppKeys \<Rightarrow> AppKeys \<Rightarrow> bool" where
  "has_equivalent_authorization_roster self other \<longleftrightarrow>
     bt_len (ak_devices self) = bt_len (ak_devices other)
     \<and> list_all (\<lambda>(pubkey, device).
          is_some_and (bt_get (ak_devices other) pubkey)
            (\<lambda>other_device. entry_created_at other_device = entry_created_at device))
         (bt_entries (ak_devices self))"

definition set_device_labels ::
  "AppKeys \<Rightarrow> PublicKey \<Rightarrow> string option \<Rightarrow> string option \<Rightarrow> u64 option \<Rightarrow> u64 \<Rightarrow> AppKeys" where
  "set_device_labels ak k dl cl updated_at now =
     ak\<lparr>ak_device_labels := bt_insert k
        \<lparr>device_label = dl, client_label = cl,
         labels_updated_at = (case updated_at of Some t \<Rightarrow> t | None \<Rightarrow> now)\<rparr> (ak_device_labels ak)\<rparr>"

definition get_device_labels :: "AppKeys \<Rightarrow> PublicKey \<Rightarrow> DeviceLabels option" where
  "get_device_labels ak k = bt_get (ak_device_labels ak) k"

definition get_all_device_labels :: "AppKeys \<Rightarrow> (PublicKey \<times> DeviceLabels) list" where
  "get_all_device_labels ak = bt_entries (ak_device_labels ak)"

definition merge_device :: "DeviceEntry \<Rightarrow> (PublicKey, DeviceEntry) btmap \<Rightarrow> (PublicKey, DeviceEntry) btmap" where
  "merge_device d m =
     (case bt_get m (identity_pubkey d) of
        None \<Rightarrow> bt_insert (identity_pubkey d) d m
      | Some existing \<Rightarrow>
        if entry_created_at d < entry_created_at existing then bt_insert (identity_pubkey d) d m else m)"

definition label_rank :: "DeviceLabels \<Rightarrow> u64 \<times> string option \<times> string option" where
  "label_rank l = (labels_updated_at l, device_label l, client_label l)"

definition merge_label ::
  "PublicKey \<times> DeviceLabels \<Rightarrow> (PublicKey, DeviceLabels) btmap \<Rightarrow> (PublicKey, DeviceLabels) btmap" where
  "merge_label e m =
     (case bt_get m (fst e) of
        None \<Rightarrow> bt_insert (fst e) (snd e) m
      | Some existing \<Rightarrow> if label_rank (snd e) > label_rank existing then bt_insert (fst e) (snd e) m else m)"

definition app_keys_merge :: "AppKeys \<Rightarrow> AppKeys \<Rightarrow> AppKeys" where
  "app_keys_merge self other =
     (let merged = fold merge_device (get_all_devices self @ get_all_devices other) bt_empty;
          merged_labels = fold merge_label (bt_entries (ak_device_labels self) @ bt_entries (ak_device_labels other)) bt_empty
      in \<lparr>ak_devices = merged,
          ak_device_labels = bt_retain (\<lambda>k _. bt_contains_key merged k) merged_labels\<rparr>)"

section \<open>Event format\<close>

definition tag_values :: "Event \<Rightarrow> string \<Rightarrow> string list" where
  "tag_values ev nm =
     filter (\<lambda>v. v \<noteq> [])
       (List.map_filter (\<lambda>tag. if tag_name tag = Some nm then map_option trim (list_get tag 1) else None)
          (ev_tags ev))"

definition required_tag_value :: "Event \<Rightarrow> string \<Rightarrow> string res" where
  "required_tag_value ev nm =
     (case tag_values ev nm of v # _ \<Rightarrow> Inr v | [] \<Rightarrow> Inl (InvalidEvent ''AppKeys roster missing tag''))"

definition required_integer :: "Event \<Rightarrow> string \<Rightarrow> u64 res" where
  "required_integer ev nm =
     and_then (required_tag_value ev nm) (\<lambda>v.
       ok_or (parse_u64 v) (InvalidEvent ''AppKeys tag must be an integer''))"

definition pubkey_from_required_tag :: "'x crypto_scheme \<Rightarrow> Event \<Rightarrow> string \<Rightarrow> PublicKey res" where
  "pubkey_from_required_tag cr ev nm = and_then (required_tag_value ev nm) (pubkey_from_hex cr)"

definition is_uuid_like :: "string \<Rightarrow> bool" where
  "is_uuid_like value \<longleftrightarrow> length value = 36
     \<and> list_all (\<lambda>i. value ! i = CHR ''-'') [8, 13, 18, 23]
     \<and> list_all (\<lambda>(i, c). i \<in> set [8, 13, 18, 23] \<or> is_ascii_hexdigit c) (List.enumerate 0 value)"

definition canonical_profile_id :: "string \<Rightarrow> string res" where
  "canonical_profile_id profile_id =
     (let normalized = to_lowercase (trim profile_id)
      in if \<not> is_uuid_like normalized then Inl (InvalidEvent ''AppKeys profile id must be a UUID'')
         else Inr normalized)"

definition app_keys_profile_id_from_event :: "Event \<Rightarrow> string res" where
  "app_keys_profile_id_from_event ev =
     (case List.map_filter (\<lambda>tag.
             if tag_name tag = Some ''i'' \<and> list_get tag 2 = Some ''subject''
             then map_option (\<lambda>v. to_lowercase (trim v)) (list_get tag 1) else None) (ev_tags ev) of
        [] \<Rightarrow> Inl (InvalidEvent ''AppKeys roster missing profile subject'')
      | profile_id # _ \<Rightarrow> canonical_profile_id profile_id)"

definition is_app_keys_event :: "Event \<Rightarrow> bool" where
  "is_app_keys_event ev \<longleftrightarrow> ev_kind ev = ucast APP_KEYS_SNAPSHOT_KIND
     \<and> list_ex (\<lambda>v. v = APP_KEYS_FACT_TYPE) (tag_values ev ''type'')"

text \<open>The device tags of an event; the first invalid key stops the loop.\<close>

fun devices_from_tags :: "'x crypto_scheme \<Rightarrow> u64 \<Rightarrow> string list list \<Rightarrow> DeviceEntry list res" where
  "devices_from_tags cr created [] = Inr []"
| "devices_from_tags cr created (tag # tags) =
     (if tag_name tag \<noteq> Some ''device'' \<or> length tag < 3 then devices_from_tags cr created tags
      else let created_at = (case parse_u64 (tag ! 2) of Some t \<Rightarrow> t | None \<Rightarrow> created)
           in and_then (pubkey_from_hex cr (tag ! 1)) (\<lambda>pk.
              and_then (devices_from_tags cr created tags) (\<lambda>rest.
                Inr (\<lparr>identity_pubkey = pk, entry_created_at = created_at\<rparr> # rest))))"

definition from_event :: "'x event_crypto_scheme \<Rightarrow> Event \<Rightarrow> AppKeys res" where
  "from_event cr ev =
     (if \<not> event_verify cr ev then Inl (InvalidEvent ''Invalid signature'')
      else if \<not> is_app_keys_event ev then Inl (InvalidEvent ''Event is not an AppKeys roster snapshot'')
      else if ev_content ev \<noteq> [] then Inl (InvalidEvent ''AppKeys roster snapshot content must be empty'')
      else and_then (required_integer ev ''schema'') (\<lambda>schema.
        if schema \<noteq> APP_KEYS_SCHEMA then Inl (InvalidEvent ''Unsupported AppKeys roster schema'')
        else and_then (pubkey_from_required_tag cr ev APP_KEYS_OWNER_PUBKEY_FACT) (\<lambda>owner_pubkey.
          if owner_pubkey \<noteq> ev_pubkey ev then Inl (InvalidEvent ''AppKeys roster owner signer mismatch'')
          else and_then (app_keys_profile_id_from_event ev) (\<lambda>_.
            and_then (devices_from_tags cr (ev_created_at ev) (ev_tags ev)) (\<lambda>ds.
              Inr (app_keys_new ds))))))"

definition resolve_app_keys_owner_for_device ::
  "'x event_crypto_scheme \<Rightarrow> Event \<Rightarrow> PublicKey \<Rightarrow> PublicKey option res" where
  "resolve_app_keys_owner_for_device cr ev k =
     and_then (from_event cr ev) (\<lambda>ak. Inr (map_option (\<lambda>_. ev_pubkey ev) (get_device ak k)))"

definition device_tag :: "'x crypto_scheme \<Rightarrow> DeviceEntry \<Rightarrow> string list" where
  "device_tag cr d = [''device'', hex_encode cr (identity_pubkey d), u64_to_string (entry_created_at d)]"

definition app_keys_fact_tags :: "'x crypto_scheme \<Rightarrow> AppKeys \<Rightarrow> PublicKey \<Rightarrow> string list list" where
  "app_keys_fact_tags cr ak owner =
     [[''type'', APP_KEYS_FACT_TYPE],
      [''schema'', u64_to_string APP_KEYS_SCHEMA],
      [APP_KEYS_OWNER_PUBKEY_FACT, hex_encode cr owner]]
     @ map (device_tag cr)
         (sort_key (\<lambda>d. (entry_created_at d, hex_encode cr (identity_pubkey d))) (get_all_devices ak))"

definition build_unsigned_event_at ::
  "'x event_crypto_scheme \<Rightarrow> nat \<Rightarrow> AppKeys \<Rightarrow> PublicKey \<Rightarrow> u64 \<Rightarrow> UnsignedEvent" where
  "build_unsigned_event_at cr draw ak owner created_at_secs =
     (let profile_id = uuid_v4 cr draw;
          fact_tags = app_keys_fact_tags cr ak owner;
          indexed_pubkeys = bt_keys (bs_of_list (filter (\<lambda>v. is_ok (pubkey_from_hex cr v))
                              (concat (map (drop 1) fact_tags))));
          raw_tags = [[''d'', profile_id], [''i'', profile_id, ''subject'']]
                     @ map (\<lambda>pk. [''p'', pk]) indexed_pubkeys @ fact_tags;
          tags = remdups_adj (sort raw_tags)
      in \<lparr>rumor_id = None, rumor_pubkey = owner, rumor_created_at = created_at_secs,
          rumor_kind = ucast APP_KEYS_SNAPSHOT_KIND,
          rumor_tags = filter (builder_keeps cr owner) tags,
          rumor_content = []\<rparr>)"

section \<open>The index of verified heads\<close>

record AppKeysAuthorizationCandidate =
  candidate_event :: Event
  candidate_app_keys :: AppKeys

record VerifiedAppKeysHead =
  head_created_at_secs :: u64
  candidates :: "(bytes, AppKeysAuthorizationCandidate) btmap"

record VerifiedAppKeysIndex =
  heads :: "(PublicKey, VerifiedAppKeysHead) btmap"

definition index_default :: VerifiedAppKeysIndex where
  "index_default = \<lparr>heads = bt_empty\<rparr>"

definition app_keys_authorization_candidate ::
  "'x event_crypto_scheme \<Rightarrow> PublicKey \<Rightarrow> Event \<Rightarrow> u64 \<Rightarrow> AppKeys res" where
  "app_keys_authorization_candidate cr owner ev now_secs =
     (if ev_pubkey ev \<noteq> owner then Inl (InvalidEvent ''AppKeys authorization owner mismatch'')
      else if ev_created_at ev > saturating_add now_secs APP_KEYS_AUTHORIZATION_MAX_FUTURE_SKEW_SECS
      then Inl (InvalidEvent ''AppKeys authorization event is too far in the future'')
      else and_then (event_json_len cr ev) (\<lambda>len.
        if len > APP_KEYS_AUTHORIZATION_MAX_EVENT_BYTES
        then Inl (InvalidEvent ''AppKeys authorization event is too large'')
        else let device_tags = filter (\<lambda>tag. tag_name tag = Some ''device'') (ev_tags ev)
             in if length device_tags > APP_KEYS_AUTHORIZATION_MAX_DEVICES
                then Inl (InvalidEvent ''AppKeys authorization roster has too many devices'')
                else if list_ex (\<lambda>tag. length tag < 3 \<or> parse_u64 (tag ! 2) = None) device_tags
                then Inl (InvalidEvent ''AppKeys authorization device tag is malformed'')
                else from_event cr ev))"

text \<open>For evaluation, the size bound as a comparison of integers.\<close>

lemma max_event_bytes_int: "len > APP_KEYS_AUTHORIZATION_MAX_EVENT_BYTES \<longleftrightarrow> 65536 < int len"
  by (auto simp: APP_KEYS_AUTHORIZATION_MAX_EVENT_BYTES_def)

lemmas app_keys_authorization_candidate_code [code] =
  app_keys_authorization_candidate_def [unfolded max_event_bytes_int]

definition ingest ::
  "'x event_crypto_scheme \<Rightarrow> VerifiedAppKeysIndex \<Rightarrow> Event \<Rightarrow> u64 \<Rightarrow> bool res \<times> VerifiedAppKeysIndex" where
  "ingest cr idx ev now_secs =
     (let owner = ev_pubkey ev in
      case app_keys_authorization_candidate cr owner ev now_secs of
        Inl e \<Rightarrow> (Inl e, idx)
      | Inr app_keys \<Rightarrow>
        (let created = ev_created_at ev;
             candidate = \<lparr>candidate_event = ev, candidate_app_keys = app_keys\<rparr>
         in case bt_get (heads idx) owner of
              None \<Rightarrow>
                (Inr True, idx\<lparr>heads := bt_insert owner
                   \<lparr>head_created_at_secs = created, candidates = bt_insert (ev_id ev) candidate bt_empty\<rparr>
                   (heads idx)\<rparr>)
            | Some current \<Rightarrow>
              if created < head_created_at_secs current then (Inr False, idx)
              else
                let current = (if created > head_created_at_secs current
                               then \<lparr>head_created_at_secs = created, candidates = bt_empty\<rparr> else current)
                in if list_ex (\<lambda>c. has_equivalent_authorization_roster (candidate_app_keys c) app_keys)
                        (bt_values (candidates current))
                   then (Inr False, idx\<lparr>heads := bt_insert owner current (heads idx)\<rparr>)
                   else (Inr (bt_get (candidates current) (ev_id ev) = None),
                         idx\<lparr>heads := bt_insert owner
                           (current\<lparr>candidates := bt_insert (ev_id ev) candidate (candidates current)\<rparr>)
                           (heads idx)\<rparr>)))"

definition membership :: "VerifiedAppKeysIndex \<Rightarrow> PublicKey \<Rightarrow> PublicKey \<Rightarrow> DeviceMembership" where
  "membership idx owner device =
     (case bt_get (heads idx) owner of
        None \<Rightarrow> Missing
      | Some head \<Rightarrow>
        (let answers = bs_of_list (map (\<lambda>c. get_device (candidate_app_keys c) device \<noteq> None)
                         (bt_values (candidates head)))
         in if bt_len answers \<noteq> 1 then Ambiguous
            else if bt_contains_key answers True then Authorized else Excluded))"

definition events_for_owner :: "VerifiedAppKeysIndex \<Rightarrow> PublicKey \<Rightarrow> Event list" where
  "events_for_owner idx owner =
     (case bt_get (heads idx) owner of
        None \<Rightarrow> [] | Some head \<Rightarrow> map candidate_event (bt_values (candidates head)))"

definition index_events :: "VerifiedAppKeysIndex \<Rightarrow> Event list" where
  "index_events idx = concat (map (\<lambda>head. map candidate_event (bt_values (candidates head))) (bt_values (heads idx)))"

definition index_owners :: "VerifiedAppKeysIndex \<Rightarrow> PublicKey list" where
  "index_owners idx = bt_keys (heads idx)"

definition head_created_at :: "VerifiedAppKeysIndex \<Rightarrow> PublicKey \<Rightarrow> u64 option" where
  "head_created_at idx owner = map_option head_created_at_secs (bt_get (heads idx) owner)"

definition app_keys_for_event :: "VerifiedAppKeysIndex \<Rightarrow> PublicKey \<Rightarrow> bytes \<Rightarrow> AppKeys option" where
  "app_keys_for_event idx owner event_id =
     (case bt_get (heads idx) owner of
        None \<Rightarrow> None | Some head \<Rightarrow> map_option candidate_app_keys (bt_get (candidates head) event_id))"

end
