(* ===== verification/Entry_Merge.thy ===== *)
theory Entry_Merge
  imports Prelude
begin

text \<open>
  Merging of keyed entries. Device rosters, AppKeys devices and device labels are merged by running
  \<^verbatim>\<open>entry(key).and_modify(replace if better).or_insert(value)\<close> over the entries of both sides. The
  locale takes that loop body and the order in which one value beats another and derives what the
  loop computes: at every key the better of the two sides, an associative, commutative and
  idempotent choice.
\<close>

locale entry_merge =
  fixes key :: "'e \<Rightarrow> 'k::linorder"
    and val :: "'e \<Rightarrow> 'v"
    and valid :: "'k \<Rightarrow> 'v \<Rightarrow> bool"
    and better :: "'v \<Rightarrow> 'v \<Rightarrow> bool"
    and put :: "'e \<Rightarrow> ('k, 'v) btmap \<Rightarrow> ('k, 'v) btmap"
  assumes put_eq: "put e m =
      (case bt_get m (key e) of
         None \<Rightarrow> bt_insert (key e) (val e) m
       | Some existing \<Rightarrow> if better (val e) existing then bt_insert (key e) (val e) m else m)"
    and better_irrefl: "\<not> better a a"
    and better_trans: "better a b \<Longrightarrow> better b c \<Longrightarrow> better a c"
    and better_total: "valid k a \<Longrightarrow> valid k b \<Longrightarrow> better a b \<or> a = b \<or> better b a"
begin

fun pick :: "'v option \<Rightarrow> 'v option \<Rightarrow> 'v option" where
  "pick None y = y"
| "pick x None = x"
| "pick (Some a) (Some b) = Some (if better b a then b else a)"

definition valid_at :: "'k \<Rightarrow> 'v option \<Rightarrow> bool" where
  "valid_at k x \<longleftrightarrow> (\<forall>a. x = Some a \<longrightarrow> valid k a)"

definition valid_map :: "('k, 'v) btmap \<Rightarrow> bool" where
  "valid_map m \<longleftrightarrow> (\<forall>k. valid_at k (bt_get m k))"

lemma pick_None [simp]: "pick x None = x"
  by (cases x) auto

lemma pick_eq_None [simp]: "pick x y = None \<longleftrightarrow> x = None \<and> y = None"
  by (cases x; cases y) auto

lemma pick_valid: "valid_at k x \<Longrightarrow> valid_at k y \<Longrightarrow> valid_at k (pick x y)"
  by (cases x; cases y) (auto simp: valid_at_def)

lemma valid_at_simps [simp]: "valid_at k None" "valid_at k (Some a) \<longleftrightarrow> valid k a"
  by (simp_all add: valid_at_def)

lemma pick_idem: "pick x x = x"
  by (cases x) (auto simp: better_irrefl)

lemma pick_comm: "valid_at k x \<Longrightarrow> valid_at k y \<Longrightarrow> pick x y = pick y x"
  using better_total [of k] better_irrefl better_trans
  by (cases x; cases y) (auto simp: valid_at_def, (metis better_irrefl better_trans)+)

lemma pick_assoc:
  assumes "valid_at k x" "valid_at k y" "valid_at k z"
  shows "pick (pick x y) z = pick x (pick y z)"
proof (cases "x = None \<or> y = None \<or> z = None")
  case False
  then obtain a b c where "x = Some a" "y = Some b" "z = Some c" by auto
  then show ?thesis
    using assms better_total [of k a b] better_total [of k b c] better_total [of k a c]
    by (auto simp: valid_at_def) (metis better_irrefl better_trans)+
qed auto

fun best :: "'e list \<Rightarrow> 'k \<Rightarrow> 'v option" where
  "best [] k = None"
| "best (e # es) k = (if key e = k then pick (Some (val e)) (best es k) else best es k)"

lemma put_get: "bt_get (put e m) k = (if key e = k then pick (bt_get m k) (Some (val e)) else bt_get m k)"
  by (auto simp: put_eq split: option.splits)

definition valid_entries :: "'e list \<Rightarrow> bool" where
  "valid_entries es \<longleftrightarrow> (\<forall>e \<in> set es. valid (key e) (val e))"

lemma best_valid: "valid_entries es \<Longrightarrow> valid_at k (best es k)"
proof (induction es)
  case (Cons e es)
  then have "valid (key e) (val e)" "valid_at k (best es k)" by (auto simp: valid_entries_def)
  then show ?case by (auto intro!: pick_valid)
qed simp

lemma fold_put_get:
  assumes "valid_map m" "valid_entries es"
  shows "bt_get (fold put es m) k = pick (bt_get m k) (best es k)"
  using assms
proof (induction es arbitrary: m)
  case (Cons e es)
  have v: "valid (key e) (val e)" and es: "valid_entries es" using Cons.prems(2) by (auto simp: valid_entries_def)
  have m: "valid_at k (bt_get m k)" for k using Cons.prems(1) by (simp add: valid_map_def)
  have "valid_map (put e m)" unfolding valid_map_def put_get
    using m v by (auto intro!: pick_valid)
  then have "bt_get (fold put (e # es) m) k = pick (bt_get (put e m) k) (best es k)"
    using Cons.IH es by simp
  also have "\<dots> = pick (bt_get m k) (best (e # es) k)"
    using v by (auto simp: put_get intro!: pick_assoc [of k] best_valid m es)
  finally show ?case .
qed simp

lemma best_append:
  assumes "valid_entries (xs @ ys)"
  shows "best (xs @ ys) k = pick (best xs k) (best ys k)"
  using assms
proof (induction xs)
  case (Cons x xs)
  then have "valid (key x) (val x)" "valid_entries xs" "valid_entries ys" "valid_entries (xs @ ys)"
    by (auto simp: valid_entries_def)
  then show ?case using Cons.IH
    by (auto intro!: pick_assoc [of k, symmetric] best_valid)
qed simp

text \<open>The entries of a map, in whatever form the code iterates over them.\<close>

lemma best_map:
  assumes "map (\<lambda>e. (key e, val e)) es = bt_entries m"
  shows "best es k = bt_get m k"
proof -
  have "best es k = al_get (map (\<lambda>e. (key e, val e)) es) k" if "distinct (map key es)" for es
    using that
  proof (induction es)
    case (Cons e es)
    have "best es k = None" if "key e = k"
      using Cons that by (auto simp: al_get_None_iff image_iff)
    then show ?case using Cons by auto
  qed simp
  moreover have "distinct (map key es)"
    using distinct_bt_keys [of m] by (simp add: bt_keys_def comp_def flip: assms)
  ultimately show ?thesis using assms by (simp add: bt_get.rep_eq)
qed

lemma valid_entries_map:
  assumes "map (\<lambda>e. (key e, val e)) es = bt_entries m" "valid_map m"
  shows "valid_entries es"
  unfolding valid_entries_def
proof
  fix e assume "e \<in> set es"
  then have "(key e, val e) \<in> set (bt_entries m)" unfolding assms(1) [symmetric] by force
  then show "valid (key e) (val e)"
    using assms(2) unfolding valid_map_def valid_at_def bt_get_entries by blast
qed

theorem merge_get:
  assumes "map (\<lambda>e. (key e, val e)) xs = bt_entries a" "map (\<lambda>e. (key e, val e)) ys = bt_entries b"
    and "valid_map a" "valid_map b"
  shows "bt_get (fold put (xs @ ys) bt_empty) k = pick (bt_get a k) (bt_get b k)"
proof -
  have "valid_map bt_empty" by (simp add: valid_map_def valid_at_def)
  moreover have "valid_entries (xs @ ys)"
    using valid_entries_map [OF assms(1,3)] valid_entries_map [OF assms(2,4)] by (auto simp: valid_entries_def)
  ultimately show ?thesis
    using best_map [OF assms(1)] best_map [OF assms(2)] by (simp only: fold_put_get best_append) simp
qed

end

end
