(* ===== verification/Multi_Device.thy ===== *)
theory Multi_Device
  imports App_Keys Entry_Merge Snapshot_Register
begin

text \<open>
  Multi-device decisions (\<^verbatim>\<open>multi_device.rs\<close>, \<^verbatim>\<open>message_origin.rs\<close>): which AppKeys snapshot to keep, whether
  this device is registered, which peer a decrypted rumor belongs to, under which owner an invite is
  routed, and where a message came from.
\<close>

section \<open>AppKeys snapshots\<close>

datatype AppKeysSnapshotDecision =
  SnapshotAdvanced | SnapshotStale | SnapshotMergedStale | SnapshotMergedEqualTimestamp

record AppKeysSnapshot =
  snapshot_decision :: AppKeysSnapshotDecision
  snapshot_app_keys :: AppKeys
  snapshot_created_at :: u64

definition apply_app_keys_snapshot :: "AppKeys option \<Rightarrow> u64 \<Rightarrow> AppKeys \<Rightarrow> u64 \<Rightarrow> AppKeysSnapshot" where
  "apply_app_keys_snapshot current current_created_at incoming incoming_created_at =
     (case current of
        None \<Rightarrow> \<lparr>snapshot_decision = SnapshotAdvanced, snapshot_app_keys = incoming,
                 snapshot_created_at = incoming_created_at\<rparr>
      | Some cur \<Rightarrow>
        if incoming_created_at > current_created_at
        then \<lparr>snapshot_decision = SnapshotAdvanced, snapshot_app_keys = incoming,
              snapshot_created_at = incoming_created_at\<rparr>
        else if incoming_created_at < current_created_at
        then \<lparr>snapshot_decision = SnapshotStale, snapshot_app_keys = cur,
              snapshot_created_at = current_created_at\<rparr>
        else \<lparr>snapshot_decision = SnapshotMergedEqualTimestamp,
              snapshot_app_keys = app_keys_merge cur incoming,
              snapshot_created_at = current_created_at\<rparr>)"

definition apply_app_keys_snapshot_with_required_device ::
  "AppKeys option \<Rightarrow> u64 \<Rightarrow> AppKeys \<Rightarrow> u64 \<Rightarrow> DeviceEntry option \<Rightarrow> AppKeysSnapshot" where
  "apply_app_keys_snapshot_with_required_device current current_created_at incoming incoming_created_at required =
     (case required of
        None \<Rightarrow> apply_app_keys_snapshot current current_created_at incoming incoming_created_at
      | Some required_device \<Rightarrow>
        (let applied = apply_app_keys_snapshot current current_created_at
                         (add_device incoming required_device) incoming_created_at
         in if get_device (snapshot_app_keys applied) (identity_pubkey required_device) = None
            then applied\<lparr>snapshot_app_keys := add_device (snapshot_app_keys applied) required_device,
                         snapshot_created_at := max (snapshot_created_at applied) (entry_created_at required_device)\<rparr>
            else applied))"

fun select_latest_loop ::
  "'x event_crypto_scheme \<Rightarrow> AppKeysSnapshot option \<Rightarrow> Event list \<Rightarrow> AppKeysSnapshot option" where
  "select_latest_loop cr latest [] = latest"
| "select_latest_loop cr latest (ev # evs) =
     (if \<not> is_app_keys_event ev then select_latest_loop cr latest evs
      else case from_event cr ev of
        Inl _ \<Rightarrow> select_latest_loop cr latest evs
      | Inr app_keys \<Rightarrow>
        select_latest_loop cr (Some (case latest of
            Some current \<Rightarrow> apply_app_keys_snapshot (Some (snapshot_app_keys current))
                             (snapshot_created_at current) app_keys (ev_created_at ev)
          | None \<Rightarrow> \<lparr>snapshot_decision = SnapshotAdvanced, snapshot_app_keys = app_keys,
                     snapshot_created_at = ev_created_at ev\<rparr>)) evs)"

definition select_latest_app_keys_from_events ::
  "'x event_crypto_scheme \<Rightarrow> Event list \<Rightarrow> AppKeysSnapshot option" where
  "select_latest_app_keys_from_events cr evs = select_latest_loop cr None evs"

section \<open>Device registration\<close>

record DeviceRegistrationState =
  is_current_device_registered :: bool
  has_known_registered_devices :: bool
  no_previous_devices_found :: bool
  requires_device_registration :: bool
  can_send_private_messages :: bool

definition option_filter :: "('a \<Rightarrow> bool) \<Rightarrow> 'a option \<Rightarrow> 'a option" where
  "option_filter P x = (case x of Some a \<Rightarrow> if P a then Some a else None | None \<Rightarrow> None)"

definition evaluate_device_registration_state ::
  "string option \<Rightarrow> string list \<Rightarrow> bool \<Rightarrow> bool \<Rightarrow> bool \<Rightarrow> DeviceRegistrationState" where
  "evaluate_device_registration_state current registered has_local_app_keys app_keys_manager_ready
       session_manager_ready =
     (let normalized_current = option_filter (\<lambda>v. v \<noteq> []) (map_option to_lowercase (map_option trim current));
          registered_here = is_some_and normalized_current (\<lambda>cur.
            list_ex (\<lambda>device. eq_ignore_ascii_case (trim device) cur) registered);
          known = (registered \<noteq> [])
      in \<lparr>is_current_device_registered = registered_here,
          has_known_registered_devices = known,
          no_previous_devices_found = (\<not> known),
          requires_device_registration = (normalized_current \<noteq> None \<and> \<not> registered_here),
          can_send_private_messages = (app_keys_manager_ready \<and> session_manager_ready
            \<and> (has_local_app_keys \<or> registered_here \<or> known))\<rparr>)"

definition should_require_relay_registration_confirmation ::
  "string option \<Rightarrow> string list \<Rightarrow> bool \<Rightarrow> bool \<Rightarrow> bool \<Rightarrow> bool" where
  "should_require_relay_registration_confirmation current registered has_local app_ready session_ready =
     (let st = evaluate_device_registration_state current registered has_local app_ready session_ready
      in requires_device_registration st \<and> has_known_registered_devices st)"

section \<open>Rumor peers\<close>

definition normalize_pubkey_hex :: "string \<Rightarrow> string option" where
  "normalize_pubkey_hex v = (let n = to_lowercase (trim v) in if n = [] then None else Some n)"

definition first_tag_value :: "string list list \<Rightarrow> string \<Rightarrow> string option" where
  "first_tag_value tags nm =
     (case find_first (\<lambda>tag. tag_name tag = Some nm \<and> length tag \<ge> 2) tags of
        None \<Rightarrow> None | Some tag \<Rightarrow> normalize_pubkey_hex (tag ! 1))"

definition resolve_rumor_peer_pubkey ::
  "string \<Rightarrow> string \<Rightarrow> string list list \<Rightarrow> string option \<Rightarrow> string option" where
  "resolve_rumor_peer_pubkey owner rumor_hex tags sender =
     (case normalize_pubkey_hex owner of None \<Rightarrow> None | Some normalized_owner \<Rightarrow>
      (case normalize_pubkey_hex rumor_hex of None \<Rightarrow> None | Some normalized_rumor \<Rightarrow>
       (let normalized_sender = (case sender of None \<Rightarrow> None | Some s \<Rightarrow> normalize_pubkey_hex s)
        in if normalized_rumor = normalized_owner \<or> normalized_sender = Some normalized_owner
           then first_tag_value tags ''p'' else Some normalized_rumor)))"

definition add_candidate :: "string option \<Rightarrow> string list \<Rightarrow> string list" where
  "add_candidate c cs = (case c of None \<Rightarrow> cs | Some x \<Rightarrow> if x \<in> set cs then cs else cs @ [x])"

definition resolve_conversation_candidate_pubkeys ::
  "string \<Rightarrow> string \<Rightarrow> string list list \<Rightarrow> string \<Rightarrow> string list" where
  "resolve_conversation_candidate_pubkeys owner_hex rumor_hex tags sender_hex =
     (case normalize_pubkey_hex owner_hex of None \<Rightarrow> [] | Some owner \<Rightarrow>
      (case normalize_pubkey_hex sender_hex of None \<Rightarrow> [] | Some sender \<Rightarrow>
       (case normalize_pubkey_hex rumor_hex of None \<Rightarrow> [] | Some rumor_author \<Rightarrow>
        (let is_self_targeted_rumor = ((rumor_author = owner \<or> sender = owner)
               \<and> (case first_tag_value tags ''p'' of Some p \<Rightarrow> p = [] \<or> p = owner | None \<Rightarrow> True))
         in if is_self_targeted_rumor
            then add_candidate (Some owner)
                   (add_candidate (if sender \<noteq> owner then Some sender else None)
                     (add_candidate (if rumor_author \<noteq> owner then Some rumor_author else None) []))
            else add_candidate (Some sender)
                   (add_candidate (resolve_rumor_peer_pubkey owner rumor_hex tags (Some sender)) [])))))"

section \<open>Invite routing\<close>

record InviteOwnerRoutingResolution =
  routed_owner_pubkey :: PublicKey
  routed_claimed_owner_pubkey :: PublicKey
  verified_with_app_keys :: bool
  used_link_bootstrap_exception :: bool
  fell_back_to_device_identity :: bool

definition resolve_invite_owner_routing ::
  "PublicKey \<Rightarrow> PublicKey \<Rightarrow> string option \<Rightarrow> PublicKey \<Rightarrow> AppKeys option \<Rightarrow> InviteOwnerRoutingResolution" where
  "resolve_invite_owner_routing device claimed purpose current_owner app_keys =
     (if claimed = device
      then \<lparr>routed_owner_pubkey = device, routed_claimed_owner_pubkey = claimed,
            verified_with_app_keys = True, used_link_bootstrap_exception = False,
            fell_back_to_device_identity = False\<rparr>
      else if is_some_and app_keys (\<lambda>keys. get_device keys device \<noteq> None)
      then \<lparr>routed_owner_pubkey = claimed, routed_claimed_owner_pubkey = claimed,
            verified_with_app_keys = True, used_link_bootstrap_exception = False,
            fell_back_to_device_identity = False\<rparr>
      else if purpose = Some ''link'' \<and> claimed = current_owner
      then \<lparr>routed_owner_pubkey = claimed, routed_claimed_owner_pubkey = claimed,
            verified_with_app_keys = False, used_link_bootstrap_exception = True,
            fell_back_to_device_identity = False\<rparr>
      else \<lparr>routed_owner_pubkey = device, routed_claimed_owner_pubkey = claimed,
            verified_with_app_keys = False, used_link_bootstrap_exception = False,
            fell_back_to_device_identity = True\<rparr>)"

section \<open>Message origin\<close>

datatype MessageOrigin = LocalDevice | SameOwnerOtherDevice | RemoteOwner | UnknownOrigin

definition is_self :: "MessageOrigin \<Rightarrow> bool" where
  "is_self orig \<longleftrightarrow> orig = LocalDevice \<or> orig = SameOwnerOtherDevice"

definition is_cross_device_self :: "MessageOrigin \<Rightarrow> bool" where
  "is_cross_device_self orig \<longleftrightarrow> orig = SameOwnerOtherDevice"

definition classify_message_origin ::
  "PublicKey \<Rightarrow> PublicKey option \<Rightarrow> PublicKey option \<Rightarrow> PublicKey option \<Rightarrow> MessageOrigin" where
  "classify_message_origin our_owner our_device sender_owner sender_device =
     (case sender_owner of
        Some owner \<Rightarrow>
          if owner \<noteq> our_owner then RemoteOwner
          else (case (our_device, sender_device) of
                  (Some our, Some sender) \<Rightarrow> if sender = our then LocalDevice else SameOwnerOtherDevice
                | _ \<Rightarrow> UnknownOrigin)
      | None \<Rightarrow>
          (case (our_device, sender_device) of
             (Some our, Some sender) \<Rightarrow> if sender = our then LocalDevice else UnknownOrigin
           | _ \<Rightarrow> UnknownOrigin))"

section \<open>The merge of AppKeys\<close>

interpretation device_merge: entry_merge identity_pubkey id "\<lambda>k d. identity_pubkey d = k"
  "\<lambda>a b. entry_created_at a < entry_created_at b" merge_device
  by unfold_locales (auto simp: merge_device_def split: option.splits)

interpretation label_merge: entry_merge fst snd "\<lambda>k l. True"
  "\<lambda>a b. label_rank b < label_rank a" merge_label
proof
  fix a b :: DeviceLabels
  show "label_rank b < label_rank a \<or> a = b \<or> label_rank a < label_rank b"
    using linorder_less_linear [of "label_rank a" "label_rank b"]
    by (cases a; cases b) (auto simp: label_rank_def)
qed (auto simp: merge_label_def split: option.splits)

text \<open>Devices are stored under their own key, and only devices carry labels.\<close>

definition app_keys_ok :: "AppKeys \<Rightarrow> bool" where
  "app_keys_ok ak \<longleftrightarrow> (\<forall>k d. bt_get (ak_devices ak) k = Some d \<longrightarrow> identity_pubkey d = k)
     \<and> (\<forall>k. bt_get (ak_device_labels ak) k \<noteq> None \<longrightarrow> bt_get (ak_devices ak) k \<noteq> None)"

lemma app_keys_ok_valid: "app_keys_ok ak \<Longrightarrow> device_merge.valid_map (ak_devices ak)"
  by (simp add: app_keys_ok_def device_merge.valid_map_def device_merge.valid_at_def)

lemma label_valid [simp]: "label_merge.valid_map m" "label_merge.valid_at k x"
  by (simp_all add: label_merge.valid_map_def label_merge.valid_at_def)

lemma all_devices_entries:
  assumes "app_keys_ok ak"
  shows "map (\<lambda>d. (identity_pubkey d, id d)) (get_all_devices ak) = bt_entries (ak_devices ak)"
proof -
  have "identity_pubkey (snd e) = fst e" if "e \<in> set (bt_entries (ak_devices ak))" for e
    using assms that by (metis app_keys_ok_def bt_get_entries prod.collapse)
  then show ?thesis by (simp add: get_all_devices_def bt_values_def comp_def map_idI)
qed

lemma merge_devices_get:
  assumes "app_keys_ok a" "app_keys_ok b"
  shows "bt_get (ak_devices (app_keys_merge a b)) k =
    device_merge.pick (bt_get (ak_devices a) k) (bt_get (ak_devices b) k)"
  using device_merge.merge_get [OF all_devices_entries [OF assms(1)] all_devices_entries [OF assms(2)]]
    assms app_keys_ok_valid by (simp add: app_keys_merge_def Let_def)

lemma merge_labels_get:
  assumes "app_keys_ok a" "app_keys_ok b"
  shows "bt_get (ak_device_labels (app_keys_merge a b)) k =
    label_merge.pick (bt_get (ak_device_labels a) k) (bt_get (ak_device_labels b) k)"
proof -
  let ?labels = "label_merge.pick (bt_get (ak_device_labels a) k) (bt_get (ak_device_labels b) k)"
  have "bt_get (fold merge_label (bt_entries (ak_device_labels a) @ bt_entries (ak_device_labels b)) bt_empty) k = ?labels"
    by (rule label_merge.merge_get) simp_all
  moreover have "bt_get (ak_devices (app_keys_merge a b)) k \<noteq> None" if "?labels \<noteq> None"
    using that assms unfolding merge_devices_get [OF assms] app_keys_ok_def
      device_merge.pick_eq_None label_merge.pick_eq_None by blast
  ultimately show ?thesis
    by (cases "?labels = None") (auto simp: app_keys_merge_def Let_def bt_contains_key_def
          simp del: label_merge.pick_eq_None split: option.splits)
qed

lemma app_keys_merge_ok:
  assumes "app_keys_ok a" "app_keys_ok b"
  shows "app_keys_ok (app_keys_merge a b)"
proof -
  have "device_merge.valid_at k (bt_get (ak_devices (app_keys_merge a b)) k)" for k
    unfolding merge_devices_get [OF assms]
    using assms app_keys_ok_valid by (intro device_merge.pick_valid) (simp_all add: device_merge.valid_map_def)
  moreover have "bt_get (ak_devices (app_keys_merge a b)) k \<noteq> None"
    if "bt_get (ak_device_labels (app_keys_merge a b)) k \<noteq> None" for k
    using that by (auto simp: app_keys_merge_def Let_def bt_contains_key_def bt_get_retain split: if_splits option.splits)
  ultimately show ?thesis by (simp add: app_keys_ok_def device_merge.valid_at_def)
qed

lemma app_keys_ext:
  fixes a b :: AppKeys
  assumes "\<And>k. bt_get (ak_devices a) k = bt_get (ak_devices b) k"
    and "\<And>k. bt_get (ak_device_labels a) k = bt_get (ak_device_labels b) k"
  shows "a = b"
  using assms by (intro AppKeys.equality bt_ext) auto

lemma ok_valid_at: "app_keys_ok a \<Longrightarrow> device_merge.valid_at k (bt_get (ak_devices a) k)"
  using app_keys_ok_valid by (simp add: device_merge.valid_map_def)

lemma app_keys_merge_comm: "app_keys_ok a \<Longrightarrow> app_keys_ok b \<Longrightarrow> app_keys_merge a b = app_keys_merge b a"
  by (rule app_keys_ext)
     (simp_all add: merge_devices_get merge_labels_get device_merge.pick_comm [OF ok_valid_at ok_valid_at]
        label_merge.pick_comm [OF label_valid(2) label_valid(2)])

lemma app_keys_merge_assoc:
  assumes "app_keys_ok a" "app_keys_ok b" "app_keys_ok c"
  shows "app_keys_merge (app_keys_merge a b) c = app_keys_merge a (app_keys_merge b c)"
  by (rule app_keys_ext)
     (simp_all add: assms merge_devices_get merge_labels_get app_keys_merge_ok
        device_merge.pick_assoc [OF ok_valid_at ok_valid_at ok_valid_at]
        label_merge.pick_assoc [OF label_valid(2) label_valid(2) label_valid(2)])

lemma app_keys_merge_idem: "app_keys_ok a \<Longrightarrow> app_keys_merge a a = a"
  by (rule app_keys_ext)
     (simp_all add: merge_devices_get merge_labels_get device_merge.pick_idem label_merge.pick_idem)

definition app_keys_update :: "(AppKeys \<times> u64) option \<Rightarrow> AppKeys \<times> u64 \<Rightarrow> AppKeys \<times> u64" where
  "app_keys_update cur incoming =
     (let s = apply_app_keys_snapshot (map_option fst cur) (case cur of Some c \<Rightarrow> snd c | None \<Rightarrow> 0)
                (fst incoming) (snd incoming)
      in (snapshot_app_keys s, snapshot_created_at s))"

interpretation app_keys_register: snapshot_register snd "\<lambda>r. app_keys_ok (fst r)"
  "\<lambda>a b. (app_keys_merge (fst a) (fst b), snd a)" app_keys_update
  by unfold_locales
     (auto simp: app_keys_update_def apply_app_keys_snapshot_def app_keys_merge_ok app_keys_merge_idem
        app_keys_merge_assoc intro: app_keys_merge_comm)

section \<open>Properties\<close>

text \<open>The AppKeys kept after a sequence of timestamped snapshots.\<close>

definition app_keys_after :: "(AppKeys \<times> u64) list \<Rightarrow> (AppKeys \<times> u64) option" where
  "app_keys_after rs = fold (\<lambda>r cur. Some (app_keys_update cur r)) rs None"

text \<open>
  C11. AppKeys convergence: the AppKeys and the timestamp kept after a sequence of snapshots depend only
  on the set of snapshots, not on order or repetition: devices that have seen the same owner snapshots
  agree on the authorized devices, their times and their labels.
\<close>

theorem app_keys_convergence:
  assumes "set rs = set rs'" "\<forall>r \<in> set rs. app_keys_ok (fst r)"
  shows "app_keys_after rs = app_keys_after rs'"
  using app_keys_register.replay_converges [OF assms]
  by (simp add: app_keys_after_def app_keys_register.replay_def)

lemma app_keys_new_ok: "app_keys_ok (app_keys_new ds)"
proof -
  have "\<forall>k d. bt_get (fold (\<lambda>d m. bt_insert (identity_pubkey d) d m) ds m) k = Some d \<longrightarrow> identity_pubkey d = k"
    if "\<forall>k d. bt_get m k = Some d \<longrightarrow> identity_pubkey d = k" for m
    using that
  proof (induction ds arbitrary: m)
    case (Cons e ds)
    have "\<forall>k d. bt_get (bt_insert (identity_pubkey e) e m) k = Some d \<longrightarrow> identity_pubkey d = k"
      using Cons.prems by auto
    then show ?case unfolding fold_Cons comp_apply by (rule Cons.IH)
  qed (unfold fold_Nil id_apply)
  from this [of bt_empty] show ?thesis by (simp add: app_keys_ok_def app_keys_new_def)
qed

theorem app_keys_convergence_witness:
  "app_keys_after [(app_keys_new [\<lparr>identity_pubkey = [1], entry_created_at = 4\<rparr>], 9),
                   (app_keys_new [\<lparr>identity_pubkey = [1], entry_created_at = 3\<rparr>], 9)] =
   app_keys_after [(app_keys_new [\<lparr>identity_pubkey = [1], entry_created_at = 3\<rparr>], 9),
                   (app_keys_new [\<lparr>identity_pubkey = [1], entry_created_at = 4\<rparr>], 9)]"
  by (rule app_keys_convergence) (auto simp: app_keys_new_ok)

text \<open>
  Invite routing: an invite is routed under an owner other than the device itself only when that
  owner's AppKeys list the device, or for a link invite that claims our own owner; the three flags say
  which of the cases applied and in the remaining one the device stands for itself.
\<close>

theorem invite_routing_sound:
  "case resolve_invite_owner_routing device claimed purpose current_owner app_keys of r \<Rightarrow>
     routed_claimed_owner_pubkey r = claimed
     \<and> (verified_with_app_keys r \<longleftrightarrow> claimed = device
          \<or> (\<exists>keys. app_keys = Some keys \<and> get_device keys device \<noteq> None))
     \<and> (used_link_bootstrap_exception r \<longleftrightarrow> \<not> verified_with_app_keys r
          \<and> purpose = Some ''link'' \<and> claimed = current_owner)
     \<and> (fell_back_to_device_identity r \<longleftrightarrow> \<not> verified_with_app_keys r \<and> \<not> used_link_bootstrap_exception r)
     \<and> routed_owner_pubkey r = (if fell_back_to_device_identity r then device else claimed)"
  by (cases app_keys) (auto simp: resolve_invite_owner_routing_def)

lemma get_add_device:
  "get_device (add_device ak d) k =
     (if k = identity_pubkey d \<and> get_device ak k = None then Some d else get_device ak k)"
  by (auto simp: get_device_def add_device_def bt_contains_key_def)

text \<open>
  The device that must stay registered is registered after every snapshot, whatever the incoming
  AppKeys and timestamps, and no device of an accepted incoming snapshot is lost.
\<close>

theorem required_device_kept:
  "get_device (snapshot_app_keys (apply_app_keys_snapshot_with_required_device cur t inc u (Some d)))
     (identity_pubkey d) \<noteq> None
   \<and> (cur = None \<or> t < u \<longrightarrow>
      (\<forall>k. get_device inc k \<noteq> None \<longrightarrow>
         get_device (snapshot_app_keys
           (apply_app_keys_snapshot_with_required_device cur t inc u (Some d))) k \<noteq> None))"
proof -
  let ?applied = "apply_app_keys_snapshot cur t (add_device inc d) u"
  have "get_device (snapshot_app_keys ?applied) k \<noteq> None"
    if "cur = None \<or> t < u" "get_device inc k \<noteq> None" for k
    using that by (auto simp: apply_app_keys_snapshot_def get_add_device split: option.splits)
  moreover have "get_device (snapshot_app_keys
        (apply_app_keys_snapshot_with_required_device cur t inc u (Some d))) k \<noteq> None \<longleftrightarrow>
      get_device (snapshot_app_keys ?applied) k \<noteq> None \<or> k = identity_pubkey d" for k
    by (auto simp: apply_app_keys_snapshot_with_required_device_def Let_def get_add_device)
  ultimately show ?thesis by blast
qed

theorem required_device_kept_witness:
  "get_device (snapshot_app_keys (apply_app_keys_snapshot_with_required_device None 0
       (app_keys_new [\<lparr>identity_pubkey = [2], entry_created_at = 3\<rparr>]) 5
       (Some \<lparr>identity_pubkey = [1], entry_created_at = 4\<rparr>))) [2] \<noteq> None"
proof -
  have "get_device (app_keys_new [\<lparr>identity_pubkey = [2], entry_created_at = 3\<rparr>]) [2] \<noteq> None"
    by (simp add: get_device_def app_keys_new_def)
  then show ?thesis
    using required_device_kept [of None 0 "app_keys_new [\<lparr>identity_pubkey = [2], entry_created_at = 3\<rparr>]" 5
        "\<lparr>identity_pubkey = [1], entry_created_at = 4\<rparr>"] by blast
qed

end
