(* ===== verification/Invite.thy ===== *)
theory Invite
  imports Nostr_Event
begin

text \<open>
  Invites (\<^verbatim>\<open>invite.rs\<close>): creation, acceptance by an invitee, processing of the response by the
  inviter, and the bookkeeping that limits and de-duplicates responses.
\<close>

section \<open>Data\<close>

record Invite =
  invite_metadata_privacy_version :: u8
  inviter_device_pubkey :: DevicePubkey
  inviter_ephemeral_public_key :: DevicePubkey
  shared_secret :: bytes
  inviter_ephemeral_private_key :: "bytes option"
  max_uses :: "nat option"
  used_by :: "DevicePubkey list"
  used_response_contents :: "string list"
  invite_created_at :: UnixSeconds
  inviter_owner_pubkey :: "OwnerPubkey option"
  purpose :: "string option"
  inviter :: PublicKey
  invite_device_id :: "string option"
  invite_owner_public_key :: "PublicKey option"

record InviteResponse =
  response_session :: Session
  invitee_device_pubkey :: DevicePubkey
  invitee_owner_pubkey :: "OwnerPubkey option"
  invitee_identity :: PublicKey
  response_device_id :: "string option"
  response_owner_public_key :: "PublicKey option"

record InviteResponseEnvelope =
  response_metadata_privacy_version :: u8
  response_sender :: DevicePubkey
  signer_secret_key :: bytes
  response_recipient :: DevicePubkey
  response_created_at :: UnixSeconds
  response_content :: string

record InviteResponsePayload =
  payload_session_key :: DevicePubkey
  payload_session_proof :: bytes
  payload_device_id :: "string option"
  payload_owner_pubkey :: "OwnerPubkey option"

record InviteResponseRumor =
  irr_id :: bytes
  irr_pubkey :: PublicKey
  irr_created_at :: u64
  irr_kind :: "16 word"
  irr_tags :: "string list list"
  irr_content :: string

text \<open>What the handshake uses of the \<^verbatim>\<open>nostr\<close>, \<^verbatim>\<open>secp256k1\<close> and \<^verbatim>\<open>serde_json\<close> crates.\<close>

record invite_crypto = event_crypto +
  rumor_hash :: "UnsignedEvent \<Rightarrow> bytes" \<comment> \<open>the event id of the other fields\<close>
  rumor_to_json :: "UnsignedEvent \<Rightarrow> string res" \<comment> \<open>\<^verbatim>\<open>try_as_json\<close>\<close>
  rumor_from_json :: "string \<Rightarrow> InviteResponseRumor res" \<comment> \<open>\<^verbatim>\<open>serde_json::from_str\<close>\<close>
  payload_to_json :: "InviteResponsePayload \<Rightarrow> string res"
  payload_from_json :: "string \<Rightarrow> InviteResponsePayload res"
  schnorr_sign :: "bytes \<Rightarrow> bytes \<Rightarrow> bytes \<Rightarrow> bytes" \<comment> \<open>secret key, auxiliary randomness, digest\<close>
  schnorr_verify :: "bytes \<Rightarrow> bytes \<Rightarrow> bytes \<Rightarrow> bool" \<comment> \<open>public key, digest, signature\<close>
  utf8_valid :: "bytes \<Rightarrow> bool"

definition resolved_owner_pubkey :: "InviteResponse \<Rightarrow> PublicKey" where
  "resolved_owner_pubkey r = (case response_owner_public_key r of Some k \<Rightarrow> k | None \<Rightarrow> invitee_identity r)"

definition has_verified_owner_claim ::
  "InviteResponse \<Rightarrow> (DevicePubkey \<Rightarrow> PublicKey \<Rightarrow> bool) option \<Rightarrow> bool" where
  "has_verified_owner_claim r verifier =
     (let self_owner = owner_pubkey_from_device_pubkey (invitee_device_pubkey r);
          owner = (case invitee_owner_pubkey r of Some owner \<Rightarrow> owner | None \<Rightarrow> self_owner)
      in owner = self_owner
         \<or> is_some_and verifier (\<lambda>has_device. has_device (invitee_device_pubkey r) (invitee_identity r)))"

section \<open>Random draws\<close>

text \<open>One \<^verbatim>\<open>fill_bytes\<close>, and \<^verbatim>\<open>next_u64\<close> as the little-endian value of a block.\<close>

definition draw_block :: "bytes list \<Rightarrow> bytes res \<times> bytes list" where
  "draw_block rng = (case rng of [] \<Rightarrow> (Inl RngExhausted, []) | b # rest \<Rightarrow> (Inr b, rest))"

definition block_u64 :: "bytes \<Rightarrow> u64" where
  "block_u64 bs = foldr (\<lambda>b acc. ucast b + 256 * acc) bs 0"

definition next_u64 :: "bytes list \<Rightarrow> u64 res \<times> bytes list" where
  "next_u64 rng = then_do (draw_block rng) (\<lambda>b rng. (Inr (block_u64 b), rng))"

section \<open>Creation\<close>

definition create_new_with_context ::
  "'x crypto_scheme \<Rightarrow> UnixSeconds \<Rightarrow> bytes list \<Rightarrow> DevicePubkey \<Rightarrow> OwnerPubkey option \<Rightarrow> nat option \<Rightarrow>
   Invite res \<times> bytes list" where
  "create_new_with_context cr now rng device owner mx =
     then_do (random_secret_key_bytes cr rng) (\<lambda>ephemeral rng.
     then_do (device_pubkey_from_secret_bytes cr ephemeral, rng) (\<lambda>ephemeral_public rng.
     then_do (random_secret_key_bytes cr rng) (\<lambda>secret rng.
     then_do (device_to_nostr cr device, rng) (\<lambda>inviter_pk rng.
     then_do (case owner of None \<Rightarrow> Inr None
              | Some ow \<Rightarrow> and_then (owner_to_nostr cr ow) (\<lambda>pk. Inr (Some pk)), rng) (\<lambda>owner_pk rng.
       (Inr \<lparr>invite_metadata_privacy_version = METADATA_PRIVACY_VERSION,
             inviter_device_pubkey = device,
             inviter_ephemeral_public_key = ephemeral_public,
             shared_secret = secret,
             inviter_ephemeral_private_key = Some ephemeral,
             max_uses = mx,
             used_by = [],
             used_response_contents = [],
             invite_created_at = now,
             inviter_owner_pubkey = owner,
             purpose = None,
             inviter = inviter_pk,
             invite_device_id = None,
             invite_owner_public_key = owner_pk\<rparr>, rng))))))"

definition create_new ::
  "'x crypto_scheme \<Rightarrow> UnixSeconds \<Rightarrow> bytes list \<Rightarrow> PublicKey \<Rightarrow> string option \<Rightarrow> nat option \<Rightarrow>
   Invite res \<times> bytes list" where
  "create_new cr now rng inviter_pk dev_id mx =
     then_do (create_new_with_context cr now rng (DevicePubkey inviter_pk) None mx) (\<lambda>invite rng.
       (Inr (invite\<lparr>invite_device_id := dev_id\<rparr>), rng))"

section \<open>Bookkeeping\<close>

definition ensure_accept_allowed :: "Invite \<Rightarrow> DevicePubkey \<Rightarrow> unit res" where
  "ensure_accept_allowed iv invitee =
     (if invitee \<in> set (used_by iv) then Inr ()
      else if is_some_and (max_uses iv) (\<lambda>mx. length (used_by iv) \<ge> mx) then Inl (Domain InviteExhausted)
      else Inr ())"

definition record_use :: "Invite \<Rightarrow> DevicePubkey \<Rightarrow> Invite" where
  "record_use iv invitee =
     (if invitee \<in> set (used_by iv) then iv else iv\<lparr>used_by := sort (used_by iv @ [invitee])\<rparr>)"

definition record_response_content :: "Invite \<Rightarrow> string \<Rightarrow> Invite" where
  "record_response_content iv content =
     (if content \<in> set (used_response_contents iv) then iv
      else iv\<lparr>used_response_contents := sort (used_response_contents iv @ [content])\<rparr>)"

definition INVITE_RESPONSE_INNER_RUMOR_KIND :: u32 where "INVITE_RESPONSE_INNER_RUMOR_KIND = 1060"

definition SESSION_PROOF_DOMAIN :: bytes where
  "SESSION_PROOF_DOMAIN = map of_char ''NIP-118/session-proof/v1''"

definition invite_session_proof_digest ::
  "'x crypto_scheme \<Rightarrow> DevicePubkey \<Rightarrow> DevicePubkey \<Rightarrow> DevicePubkey \<Rightarrow> DevicePubkey \<Rightarrow> bytes \<Rightarrow> bytes" where
  "invite_session_proof_digest cr inviter_identity inviter_ephemeral invitee session_key secret =
     sha256 cr (SESSION_PROOF_DOMAIN @ device_bytes inviter_identity @ device_bytes inviter_ephemeral
       @ device_bytes invitee @ device_bytes session_key @ secret)"

definition into_unsigned_event :: "InviteResponseRumor \<Rightarrow> UnsignedEvent" where
  "into_unsigned_event r =
     \<lparr>rumor_id = Some (irr_id r), rumor_pubkey = irr_pubkey r, rumor_created_at = irr_created_at r,
      rumor_kind = irr_kind r, rumor_tags = irr_tags r, rumor_content = irr_content r\<rparr>"

definition validate_invite_response_inner_rumor :: "'x invite_crypto_scheme \<Rightarrow> UnsignedEvent \<Rightarrow> unit res" where
  "validate_invite_response_inner_rumor cr rumor =
     (case rumor_id rumor of
        None \<Rightarrow> Inl (Parse ''invite response rumor missing id'')
      | Some ident \<Rightarrow>
        if ident \<noteq> rumor_hash cr rumor then Inl (NostrEvent ''invalid id'')
        else if ucast (rumor_kind rumor) \<noteq> INVITE_RESPONSE_INNER_RUMOR_KIND
        then Inl (Parse ''invalid invite response rumor kind'')
        else if rumor_tags rumor \<noteq> [] then Inl (Parse ''invite response rumor tags must be empty'')
        else Inr ())"

section \<open>Acceptance\<close>

text \<open>The payload and the two layers of encryption around it; \<open>draw\<close> counts operating-system draws.\<close>

definition seal_response ::
  "'x invite_crypto_scheme \<Rightarrow> nat \<Rightarrow> UnixSeconds \<Rightarrow> Invite \<Rightarrow> DevicePubkey \<Rightarrow> bytes \<Rightarrow>
   InviteResponsePayload \<Rightarrow> UnsignedEvent res" where
  "seal_response cr draw now iv invitee_public invitee_private payload =
     and_then (secret_key_from_bytes cr invitee_private) (\<lambda>invitee_sk.
     and_then (device_to_nostr cr (inviter_device_pubkey iv)) (\<lambda>inviter_pk.
     and_then (payload_to_json cr payload) (\<lambda>payload_json.
     and_then (nip44_encrypt cr draw invitee_sk inviter_pk payload_json) (\<lambda>dh_encrypted.
     and_then (v2_encrypt cr (draw + 1) (shared_secret iv) (string_bytes dh_encrypted)) (\<lambda>encrypted_bytes.
     and_then (device_to_nostr cr invitee_public) (\<lambda>invitee_pk.
       let inner = \<lparr>rumor_id = None, rumor_pubkey = invitee_pk, rumor_created_at = now,
                    rumor_kind = ucast INVITE_RESPONSE_INNER_RUMOR_KIND, rumor_tags = [],
                    rumor_content = b64_encode cr encrypted_bytes\<rparr>
       in Inr (inner\<lparr>rumor_id := Some (rumor_hash cr inner)\<rparr>)))))))"

definition accept_with_owner_context_and_device ::
  "'x invite_crypto_scheme \<Rightarrow> nat \<Rightarrow> UnixSeconds \<Rightarrow> bytes list \<Rightarrow> Invite \<Rightarrow> DevicePubkey \<Rightarrow> bytes \<Rightarrow>
   OwnerPubkey option \<Rightarrow> string option \<Rightarrow> (Session \<times> InviteResponseEnvelope) res \<times> bytes list" where
  "accept_with_owner_context_and_device cr draw now rng iv invitee_public invitee_private owner dev_id =
     (if invite_metadata_privacy_version iv \<noteq> METADATA_PRIVACY_VERSION
      then (Inl (InviteError ''invite requires a privacy upgrade''), rng)
      else
      then_do (ensure_accept_allowed iv invitee_public, rng) (\<lambda>_ rng.
      then_do (random_secret_key_bytes cr rng) (\<lambda>session_key rng.
      then_do (device_pubkey_from_secret_bytes cr session_key, rng) (\<lambda>session_public rng.
      then_do (secret_key_from_bytes cr session_key, rng) (\<lambda>session_sk rng.
      then_do (draw_block rng) (\<lambda>aux rng.
        let proof = schnorr_sign cr session_sk aux
              (invite_session_proof_digest cr (inviter_device_pubkey iv) (inviter_ephemeral_public_key iv)
                 invitee_public session_public (shared_secret iv))
        in
      then_do (new_initiator cr rng (inviter_ephemeral_public_key iv) session_key (shared_secret iv))
        (\<lambda>session rng.
      then_do (seal_response cr draw now iv invitee_public invitee_private
                 \<lparr>payload_session_key = session_public, payload_session_proof = proof,
                  payload_device_id = dev_id, payload_owner_pubkey = owner\<rparr>, rng) (\<lambda>inner rng.
      then_do (random_secret_key_bytes cr rng) (\<lambda>sender_secret rng.
      then_do (device_pubkey_from_secret_bytes cr sender_secret, rng) (\<lambda>sender_public rng.
      then_do (and_then (secret_key_from_bytes cr sender_secret) (\<lambda>sender_sk.
               and_then (device_to_nostr cr (inviter_ephemeral_public_key iv)) (\<lambda>ephemeral_pk.
               and_then (rumor_to_json cr inner) (nip44_encrypt cr (draw + 2) sender_sk ephemeral_pk))), rng)
        (\<lambda>content rng.
      then_do (if now = 0 then (Inr 0, rng)
               else then_do (next_u64 rng) (\<lambda>v rng. (Inr (v mod (2 * 24 * 60 * 60)), rng))) (\<lambda>jitter rng.
        (Inr (session,
           \<lparr>response_metadata_privacy_version = METADATA_PRIVACY_VERSION,
            response_sender = sender_public,
            signer_secret_key = sender_secret,
            response_recipient = inviter_ephemeral_public_key iv,
            response_created_at = saturating_sub now jitter,
            response_content = content\<rparr>), rng)))))))))))))"

definition accept_with_owner_context where
  "accept_with_owner_context cr draw now rng iv invitee_public invitee_private owner =
     accept_with_owner_context_and_device cr draw now rng iv invitee_public invitee_private owner None"

definition accept_with_context where
  "accept_with_context cr draw now rng iv invitee_public invitee_private =
     accept_with_owner_context cr draw now rng iv invitee_public invitee_private None"

definition accept_with_owner where
  "accept_with_owner cr draw now rng iv invitee_pk invitee_private dev_id owner_pk =
     accept_with_owner_context_and_device cr draw now rng iv (DevicePubkey invitee_pk) invitee_private
       (map_option OwnerPubkey owner_pk) dev_id"

definition accept where
  "accept cr draw now rng iv invitee_pk invitee_private dev_id =
     accept_with_owner cr draw now rng iv invitee_pk invitee_private dev_id None"

section \<open>Processing a response\<close>

definition open_response ::
  "'x invite_crypto_scheme \<Rightarrow> Invite \<Rightarrow> bytes \<Rightarrow> InviteResponseEnvelope \<Rightarrow> bytes \<Rightarrow>
   (PublicKey \<times> InviteResponsePayload) res" where
  "open_response cr iv ephemeral env inviter_private =
     and_then (secret_key_from_bytes cr ephemeral) (\<lambda>ephemeral_sk.
     and_then (device_to_nostr cr (response_sender env)) (\<lambda>sender_pk.
     and_then (nip44_decrypt cr ephemeral_sk sender_pk (response_content env)) (\<lambda>decrypted.
     and_then (rumor_from_json cr decrypted) (\<lambda>rumor.
       let inner = into_unsigned_event rumor in
     and_then (validate_invite_response_inner_rumor cr inner) (\<lambda>_.
     and_then (map_err Decryption (b64_decode cr (rumor_content inner))) (\<lambda>ciphertext_bytes.
     and_then (v2_decrypt cr (shared_secret iv) ciphertext_bytes) (\<lambda>dh_bytes.
     and_then (if utf8_valid cr dh_bytes then Inr (map byte_char dh_bytes)
               else Inl (Decryption ''invalid utf-8'')) (\<lambda>dh_encrypted.
     and_then (secret_key_from_bytes cr inviter_private) (\<lambda>inviter_sk.
     and_then (nip44_decrypt cr inviter_sk (rumor_pubkey inner) dh_encrypted) (\<lambda>dh_decrypted.
     and_then (payload_from_json cr dh_decrypted) (\<lambda>payload.
       Inr (rumor_pubkey inner, payload))))))))))))"

definition check_owner_key :: "'x crypto_scheme \<Rightarrow> OwnerPubkey option \<Rightarrow> PublicKey option res" where
  "check_owner_key cr owner =
     (case owner of
        None \<Rightarrow> Inr None
      | Some ow \<Rightarrow>
        if \<not> pk_from_slice cr (owner_bytes ow) then Inl (Parse ''invalid owner pubkey'')
        else if \<not> pk_xonly cr (owner_bytes ow) then Inl (Parse ''invalid owner pubkey'')
        else Inr (Some (owner_bytes ow)))"

definition process_response ::
  "'x invite_crypto_scheme \<Rightarrow> Invite \<Rightarrow> bytes list \<Rightarrow> InviteResponseEnvelope \<Rightarrow> bytes \<Rightarrow>
   InviteResponse res \<times> Invite \<times> bytes list" where
  "process_response cr iv rng env inviter_private =
     (if response_metadata_privacy_version env \<noteq> METADATA_PRIVACY_VERSION
      then (Inl (InviteError ''invite response requires a privacy upgrade''), iv, rng)
      else
      then_do (ok_or (inviter_ephemeral_private_key iv) (Parse ''ephemeral key not available''), iv, rng)
        (\<lambda>ephemeral s.
      then_do (open_response cr iv ephemeral env inviter_private, s) (\<lambda>(inner_pubkey, payload) s.
      if response_content env \<in> set (used_response_contents iv)
      then (Inl (Domain InviteAlreadyUsed), s)
      else
      then_do (check_owner_key cr (payload_owner_pubkey payload), s) (\<lambda>owner_pk s.
        let invitee = DevicePubkey inner_pubkey in
      then_do (ensure_accept_allowed iv invitee, s) (\<lambda>_ s.
      then_do (and_then (device_to_nostr cr (payload_session_key payload)) (\<lambda>pk.
               if pk_xonly cr pk then Inr pk else Inl (Parse ''invalid session key'')), s) (\<lambda>session_pk s.
      if \<not> schnorr_verify cr session_pk
             (invite_session_proof_digest cr (inviter_device_pubkey iv) (inviter_ephemeral_public_key iv)
                invitee (payload_session_key payload) (shared_secret iv))
             (payload_session_proof payload)
      then (Inl (Parse ''invalid invite session proof''), s)
      else
        (case new_responder cr rng (payload_session_key payload) ephemeral (shared_secret iv) of
           (Inl e, rng') \<Rightarrow> (Inl e, iv, rng')
         | (Inr session, rng') \<Rightarrow>
           (Inr \<lparr>response_session = session,
                 invitee_device_pubkey = invitee,
                 invitee_owner_pubkey = payload_owner_pubkey payload,
                 invitee_identity = inner_pubkey,
                 response_device_id = payload_device_id payload,
                 response_owner_public_key = owner_pk\<rparr>,
            record_response_content (record_use iv invitee) (response_content env), rng'))))))))"

end
