(* ===== verification/Full_Instance.thy ===== *)
theory Full_Instance
  imports Crate_Instance Invite
begin

text \<open>
  The demonstration crates extended by events and invites, and the laws of those crates that the
  invite handshake relies on.
\<close>

section \<open>Laws of the event and invite crates\<close>

text \<open>A signature made with a secret key verifies under its public key.\<close>

definition schnorr_correct :: "'x invite_crypto_scheme \<Rightarrow> bool" where
  "schnorr_correct cr \<longleftrightarrow> (\<forall>sk aux d. sk_from_slice cr sk \<longrightarrow>
     schnorr_verify cr (pk_of_sk cr sk) d (schnorr_sign cr sk aux d))"

text \<open>The id of an event does not depend on its id field, and a rumor is read back from its JSON.\<close>

definition rumor_json_ok :: "'x invite_crypto_scheme \<Rightarrow> bool" where
  "rumor_json_ok cr \<longleftrightarrow>
     (\<forall>r i. rumor_hash cr (r\<lparr>rumor_id := i\<rparr>) = rumor_hash cr r)
     \<and> (\<forall>r i s. rumor_id r = Some i \<longrightarrow> rumor_kind r = ucast INVITE_RESPONSE_INNER_RUMOR_KIND \<longrightarrow>
          rumor_tags r = [] \<longrightarrow> rumor_to_json cr r = Inr s \<longrightarrow>
          (\<exists>x. rumor_from_json cr s = Inr x \<and> into_unsigned_event x = r))"

definition payload_json_ok :: "'x invite_crypto_scheme \<Rightarrow> bool" where
  "payload_json_ok cr \<longleftrightarrow> (\<forall>p s. payload_to_json cr p = Inr s \<longrightarrow> payload_from_json cr s = Inr p)"

text \<open>Ciphertexts of \<^verbatim>\<open>nip44::encrypt\<close> are text.\<close>

definition nip44_text :: "'x invite_crypto_scheme \<Rightarrow> bool" where
  "nip44_text cr \<longleftrightarrow> (\<forall>n a b m c. nip44_encrypt cr n a b m = Inr c \<longrightarrow> utf8_valid cr (string_bytes c))"

definition invite_laws :: "'x invite_crypto_scheme \<Rightarrow> bool" where
  "invite_laws cr \<longleftrightarrow> keys_ok cr \<and> dh_symmetric cr \<and> tweak_agrees cr \<and> nip44_roundtrip cr \<and> v2_roundtrip cr
     \<and> b64_roundtrip cr \<and> schnorr_correct cr \<and> rumor_json_ok cr \<and> payload_json_ok cr \<and> nip44_text cr"

lemma bytes_of_string: "map byte_char (string_bytes s) = s"
  by (simp add: string_bytes_def comp_def)

section \<open>The instance\<close>

definition code_text :: "string \<Rightarrow> string" where
  "code_text s = code_str (string_bytes s)"

definition uncode_text :: "string \<Rightarrow> string \<times> string" where
  "uncode_text s = (case uncode s of (bs, r) \<Rightarrow> (map byte_char bs, r))"

lemma uncode_text [simp]: "uncode_text (code_text s @ r) = (s, r)"
  by (simp add: uncode_text_def code_text_def uncode_code bytes_of_string)

definition code_option :: "('a \<Rightarrow> string) \<Rightarrow> 'a option \<Rightarrow> string" where
  "code_option f x = (case x of None \<Rightarrow> ''n'' | Some a \<Rightarrow> CHR ''s'' # f a)"

definition uncode_option :: "(string \<Rightarrow> 'a \<times> string) \<Rightarrow> string \<Rightarrow> 'a option \<times> string" where
  "uncode_option g s = (case s of
     [] \<Rightarrow> (None, [])
   | c # cs \<Rightarrow> if c = CHR ''s'' then (case g cs of (a, r) \<Rightarrow> (Some a, r)) else (None, cs))"

lemma uncode_option [simp]:
  "(\<And>a r. g (f a @ r) = (a, r)) \<Longrightarrow> uncode_option g (code_option f x @ r) = (x, r)"
  by (cases x) (simp_all add: uncode_option_def code_option_def)

definition demo_rumor_to_json :: "UnsignedEvent \<Rightarrow> string res" where
  "demo_rumor_to_json r =
     Inr (code_option code_str (rumor_id r) @ code_str (rumor_pubkey r)
       @ unary (unat (rumor_created_at r)) @ rumor_content r)"

definition demo_rumor_from_json :: "string \<Rightarrow> InviteResponseRumor res" where
  "demo_rumor_from_json s =
     (case uncode_option uncode s of (i, r1) \<Rightarrow>
      case uncode r1 of (pk, r2) \<Rightarrow>
      case read_unary r2 of (t, content) \<Rightarrow>
      case i of None \<Rightarrow> Inl (Json ''missing id'')
      | Some ident \<Rightarrow> Inr \<lparr>irr_id = ident, irr_pubkey = pk, irr_created_at = of_nat t,
           irr_kind = ucast INVITE_RESPONSE_INNER_RUMOR_KIND, irr_tags = [], irr_content = content\<rparr>)"

definition demo_payload_to_json :: "InviteResponsePayload \<Rightarrow> string res" where
  "demo_payload_to_json p =
     Inr (code_str (device_bytes (payload_session_key p)) @ code_str (payload_session_proof p)
       @ code_option code_text (payload_device_id p)
       @ code_option (\<lambda>ow. code_str (owner_bytes ow)) (payload_owner_pubkey p))"

definition uncode_owner :: "string \<Rightarrow> OwnerPubkey \<times> string" where
  "uncode_owner s = (case uncode s of (bs, r) \<Rightarrow> (OwnerPubkey bs, r))"

lemma uncode_owner [simp]: "uncode_owner (code_str (owner_bytes ow) @ r) = (ow, r)"
  by (simp add: uncode_owner_def uncode_code)

definition demo_payload_from_json :: "string \<Rightarrow> InviteResponsePayload res" where
  "demo_payload_from_json s =
     (case uncode s of (key, r1) \<Rightarrow>
      case uncode r1 of (proof, r2) \<Rightarrow>
      case uncode_option uncode_text r2 of (dev, r3) \<Rightarrow>
      case uncode_option uncode_owner r3 of (owner, r4) \<Rightarrow>
        Inr \<lparr>payload_session_key = DevicePubkey key, payload_session_proof = proof,
             payload_device_id = dev, payload_owner_pubkey = owner\<rparr>)"

definition demo_full :: invite_crypto where
  "demo_full = demo_ext
     (event_crypto_ext (\<lambda>ev. True) (\<lambda>ev. Inr 100) (\<lambda>pk tag. True)
        (\<lambda>n. ''01234567-0123-0123-0123-0123456789ab'')
       (invite_crypto_ext rumor_pubkey demo_rumor_to_json demo_rumor_from_json demo_payload_to_json
          demo_payload_from_json (\<lambda>sk aux d. sk @ d) (\<lambda>pk d sg. sg = pk @ d) (\<lambda>bs. True) ()))"

lemma demo_full_simps:
  "event_verify demo_full = (\<lambda>ev. True)"
  "event_json_len demo_full = (\<lambda>ev. Inr 100)"
  "builder_keeps demo_full = (\<lambda>pk tag. True)"
  "uuid_v4 demo_full = (\<lambda>n. ''01234567-0123-0123-0123-0123456789ab'')"
  "rumor_hash demo_full = rumor_pubkey"
  "rumor_to_json demo_full = demo_rumor_to_json"
  "rumor_from_json demo_full = demo_rumor_from_json"
  "payload_to_json demo_full = demo_payload_to_json"
  "payload_from_json demo_full = demo_payload_from_json"
  "schnorr_sign demo_full = (\<lambda>sk aux d. sk @ d)"
  "schnorr_verify demo_full = (\<lambda>pk d sg. sg = pk @ d)"
  "utf8_valid demo_full = (\<lambda>bs. True)"
  by (simp_all add: demo_full_def demo_ext_def)

lemma demo_full_laws: "invite_laws demo_full"
proof -
  have base: "keys_ok demo_full" "dh_symmetric demo_full" "tweak_agrees demo_full" "nip44_roundtrip demo_full"
    "v2_roundtrip demo_full" "b64_roundtrip demo_full"
    unfolding demo_full_def
    by (rule demo_keys_ok demo_dh demo_tweak demo_nip44_roundtrip demo_v2_roundtrip demo_b64)+
  have pk: "pk_of_sk demo_full = (\<lambda>bs. bs)" by (simp add: demo_full_def demo_simps)
  have "rumor_json_ok demo_full"
    by (auto simp: rumor_json_ok_def demo_full_simps demo_rumor_to_json_def demo_rumor_from_json_def
          uncode_code into_unsigned_event_def)
  moreover have "payload_json_ok demo_full"
  proof -
    have "demo_payload_from_json s = Inr p" if "demo_payload_to_json p = Inr s" for p s
      using that uncode_option [of uncode_owner "\<lambda>ow. code_str (owner_bytes ow)" "payload_owner_pubkey p" "[]"]
      by (auto simp: demo_payload_to_json_def demo_payload_from_json_def uncode_code)
    then show ?thesis by (simp add: payload_json_ok_def demo_full_simps)
  qed
  moreover have "schnorr_correct demo_full" "nip44_text demo_full"
    by (simp_all add: schnorr_correct_def nip44_text_def demo_full_simps pk)
  ultimately show ?thesis using base by (simp add: invite_laws_def)
qed

end
