(* ===== verification/App_Keys_Index.thy ===== *)
theory App_Keys_Index
  imports Multi_Device Full_Instance
begin

text \<open>
  The index of verified AppKeys heads refines an abstract membership: what it answers for a device is
  determined by the set of valid owner-signed snapshots it was given, and it fails closed when
  the newest ones disagree.
\<close>

section \<open>The abstract membership\<close>

type_synonym ingest_call = "Event \<times> u64"

definition accepted :: "'x event_crypto_scheme \<Rightarrow> ingest_call set \<Rightarrow> PublicKey \<Rightarrow> (Event \<times> AppKeys) set" where
  "accepted cr S owner = {(ev, ak). \<exists>now. (ev, now) \<in> S \<and> ev_pubkey ev = owner
     \<and> app_keys_authorization_candidate cr owner ev now = Inr ak}"

definition newest :: "(Event \<times> AppKeys) set \<Rightarrow> (Event \<times> AppKeys) set" where
  "newest A = {x \<in> A. \<forall>y \<in> A. ev_created_at (fst y) \<le> ev_created_at (fst x)}"

definition lists_device :: "PublicKey \<Rightarrow> Event \<times> AppKeys \<Rightarrow> bool" where
  "lists_device device x \<longleftrightarrow> get_device (snd x) device \<noteq> None"

definition membership_spec ::
  "'x event_crypto_scheme \<Rightarrow> ingest_call set \<Rightarrow> PublicKey \<Rightarrow> PublicKey \<Rightarrow> DeviceMembership" where
  "membership_spec cr S owner device =
     (let A = accepted cr S owner in
      if A = {} then Missing
      else if \<forall>x \<in> newest A. lists_device device x then Authorized
      else if \<forall>x \<in> newest A. \<not> lists_device device x then Excluded
      else Ambiguous)"

text \<open>
  The id of a verified event is the hash of its fields other than the signature, so two verified events
  with one id agree on those fields. Nothing is required of events that do not verify: they may carry
  any id, also that of another event.
\<close>

definition same_content :: "Event \<Rightarrow> Event \<Rightarrow> bool" where
  "same_content ev ev' \<longleftrightarrow> ev\<lparr>ev_sig := []\<rparr> = ev'\<lparr>ev_sig := []\<rparr>"

definition ids_unique :: "'x event_crypto_scheme \<Rightarrow> ingest_call set \<Rightarrow> bool" where
  "ids_unique cr S \<longleftrightarrow> (\<forall>x \<in> S. \<forall>y \<in> S. event_verify cr (fst x) \<longrightarrow> event_verify cr (fst y) \<longrightarrow>
     ev_id (fst x) = ev_id (fst y) \<longrightarrow> same_content (fst x) (fst y))"

lemma ids_unique_subset: "ids_unique cr T \<Longrightarrow> S \<subseteq> T \<Longrightarrow> ids_unique cr S"
  unfolding ids_unique_def by blast

lemma ids_unique_empty [simp]: "ids_unique cr {}"
  by (simp add: ids_unique_def)

section \<open>Equivalent rosters\<close>

lemma equivalent_refl: "has_equivalent_authorization_roster a a"
  by (auto simp: has_equivalent_authorization_roster_def list_all_iff simp flip: bt_get_entries)

lemma equivalent_same_devices:
  assumes "has_equivalent_authorization_roster a b"
  shows "get_device a k \<noteq> None \<longleftrightarrow> get_device b k \<noteq> None"
proof -
  let ?K = "\<lambda>m. set (bt_keys (ak_devices m))"
  have sub: "?K a \<subseteq> ?K b"
    using assms unfolding has_equivalent_authorization_roster_def list_all_iff set_bt_keys
    by (fastforce simp: bt_get_entries is_some_and.simps elim: is_some_and.elims)
  have "card (?K a) = card (?K b)"
    using assms by (simp add: has_equivalent_authorization_roster_def distinct_card distinct_bt_keys)
  with sub have "?K a = ?K b" by (intro card_subset_eq) simp_all
  then show ?thesis by (auto simp: set_bt_keys get_device_def)
qed

section \<open>The invariant of the index\<close>

definition head_inv :: "(Event \<times> AppKeys) set \<Rightarrow> VerifiedAppKeysHead \<Rightarrow> bool" where
  "head_inv A h \<longleftrightarrow>
     (\<exists>k c. bt_get (candidates h) k = Some c)
     \<and> (\<forall>x \<in> A. ev_created_at (fst x) \<le> head_created_at_secs h)
     \<and> (\<forall>k c. bt_get (candidates h) k = Some c \<longrightarrow> ev_id (candidate_event c) = k
          \<and> (candidate_event c, candidate_app_keys c) \<in> A
          \<and> ev_created_at (candidate_event c) = head_created_at_secs h)
     \<and> (\<forall>x \<in> A. ev_created_at (fst x) = head_created_at_secs h \<longrightarrow>
          (\<exists>k c. bt_get (candidates h) k = Some c
             \<and> has_equivalent_authorization_roster (candidate_app_keys c) (snd x)))"

lemma head_invD:
  assumes "head_inv A h"
  shows "\<exists>k c. bt_get (candidates h) k = Some c"
    "x \<in> A \<Longrightarrow> ev_created_at (fst x) \<le> head_created_at_secs h"
    "bt_get (candidates h) k = Some c \<Longrightarrow> ev_id (candidate_event c) = k"
    "bt_get (candidates h) k = Some c \<Longrightarrow> (candidate_event c, candidate_app_keys c) \<in> A"
    "bt_get (candidates h) k = Some c \<Longrightarrow> ev_created_at (candidate_event c) = head_created_at_secs h"
    "x \<in> A \<Longrightarrow> ev_created_at (fst x) = head_created_at_secs h \<Longrightarrow>
      \<exists>k c. bt_get (candidates h) k = Some c
        \<and> has_equivalent_authorization_roster (candidate_app_keys c) (snd x)"
  using assms by (simp_all add: head_inv_def)

definition index_inv :: "'x event_crypto_scheme \<Rightarrow> ingest_call set \<Rightarrow> VerifiedAppKeysIndex \<Rightarrow> bool" where
  "index_inv cr S idx \<longleftrightarrow> 
     (\<forall>owner. bt_get (heads idx) owner = None \<longrightarrow> accepted cr S owner = {})
     \<and> (\<forall>owner h. bt_get (heads idx) owner = Some h \<longrightarrow> head_inv (accepted cr S owner) h)"

lemma accepted_insert:
  "accepted cr (insert (ev, now) S) owner =
     (case app_keys_authorization_candidate cr (ev_pubkey ev) ev now of
        Inr ak \<Rightarrow> if ev_pubkey ev = owner then insert (ev, ak) (accepted cr S owner) else accepted cr S owner
      | Inl _ \<Rightarrow> accepted cr S owner)"
  by (auto simp: accepted_def split: sum.splits)

lemma candidate_from_event:
  assumes "app_keys_authorization_candidate cr owner ev now = Inr ak"
  shows "from_event cr ev = Inr ak" "event_verify cr ev"
proof -
  show "from_event cr ev = Inr ak"
    using assms by (auto simp: app_keys_authorization_candidate_def Let_def result_simps split: if_splits)
  then show "event_verify cr ev" by (auto simp: from_event_def split: if_splits)
qed

text \<open>What a verified event says does not depend on its signature.\<close>

lemma from_event_content:
  assumes "event_verify cr ev" "event_verify cr ev'" "same_content ev ev'"
  shows "from_event cr ev = from_event cr ev'"
proof -
  have fields: "ev_pubkey ev = ev_pubkey ev'" "ev_created_at ev = ev_created_at ev'" "ev_kind ev = ev_kind ev'"
    "ev_tags ev = ev_tags ev'" "ev_content ev = ev_content ev'"
    using assms(3) by (cases ev; cases ev'; simp add: same_content_def)+
  have "\<not> event_verify cr ev \<longleftrightarrow> \<not> event_verify cr ev'" using assms(1,2) by simp
  then show ?thesis
    unfolding from_event_def is_app_keys_event_def required_integer_def pubkey_from_required_tag_def
      required_tag_value_def app_keys_profile_id_from_event_def tag_values_def fields by simp
qed

lemma head_inv_first:
  "head_inv {(ev, ak)} \<lparr>head_created_at_secs = ev_created_at ev, candidates = bt_insert (ev_id ev)
     \<lparr>candidate_event = ev, candidate_app_keys = ak\<rparr> bt_empty\<rparr>"
  by (auto simp: head_inv_def equivalent_refl split: if_splits)

lemma head_inv_newer:
  assumes "head_inv A h" "head_created_at_secs h < ev_created_at ev"
  shows "head_inv (insert (ev, ak) A) \<lparr>head_created_at_secs = ev_created_at ev, candidates = bt_insert (ev_id ev)
     \<lparr>candidate_event = ev, candidate_app_keys = ak\<rparr> bt_empty\<rparr>"
proof -
  have "ev_created_at (fst x) < ev_created_at ev" if "x \<in> A" for x
    using assms that unfolding head_inv_def by fastforce
  then show ?thesis
    by (auto simp: head_inv_def equivalent_refl split: if_splits dest: less_imp_le) fastforce
qed

lemma head_inv_older:
  assumes "head_inv A h" "ev_created_at ev < head_created_at_secs h"
  shows "head_inv (insert (ev, ak) A) h"
  using assms by (auto simp: head_inv_def)

lemma head_inv_equivalent:
  assumes "head_inv A h" "ev_created_at ev = head_created_at_secs h"
    and "bt_get (candidates h) k = Some c" "has_equivalent_authorization_roster (candidate_app_keys c) ak"
  shows "head_inv (insert (ev, ak) A) h"
  using assms unfolding head_inv_def by fastforce

lemma head_inv_added:
  assumes "head_inv A h" "ev_created_at ev = head_created_at_secs h" "bt_get (candidates h) (ev_id ev) = None"
  shows "head_inv (insert (ev, ak) A) (h\<lparr>candidates := bt_insert (ev_id ev)
     \<lparr>candidate_event = ev, candidate_app_keys = ak\<rparr> (candidates h)\<rparr>)"
proof -
  have "\<exists>k c. k \<noteq> ev_id ev \<and> bt_get (candidates h) k = Some c
      \<and> has_equivalent_authorization_roster (candidate_app_keys c) (snd x)"
    if "x \<in> A" "ev_created_at (fst x) = head_created_at_secs h" for x
    using assms that unfolding head_inv_def by (metis option.distinct(1))
  then show ?thesis using assms equivalent_refl [of ak] unfolding head_inv_def
    by (auto split: if_splits) metis+
qed

text \<open>An id that is already a candidate belongs to the same event, so its roster is equivalent.\<close>

lemma known_id_equivalent:
  assumes "head_inv (accepted cr S (ev_pubkey ev)) h" "ids_unique cr (insert (ev, now) S)"
    and "app_keys_authorization_candidate cr (ev_pubkey ev) ev now = Inr ak"
    and "bt_get (candidates h) (ev_id ev) = Some c"
  shows "has_equivalent_authorization_roster (candidate_app_keys c) ak"
proof -
  have "ev_id (candidate_event c) = ev_id ev"
    and acc: "(candidate_event c, candidate_app_keys c) \<in> accepted cr S (ev_pubkey ev)"
    using assms(1,4) by (auto simp: head_inv_def)
  moreover from acc obtain t where c: "(candidate_event c, t) \<in> S"
    "app_keys_authorization_candidate cr (ev_pubkey ev) (candidate_event c) t = Inr (candidate_app_keys c)"
    by (auto simp: accepted_def)
  ultimately have "same_content (candidate_event c) ev"
    using assms(2) candidate_from_event(2) [OF assms(3)] candidate_from_event(2) [OF c(2)]
    unfolding ids_unique_def by force
  then have "from_event cr (candidate_event c) = from_event cr ev"
    using candidate_from_event(2) [OF assms(3)] candidate_from_event(2) [OF c(2)] by (intro from_event_content)
  then have "candidate_app_keys c = ak"
    using candidate_from_event(1) [OF assms(3)] candidate_from_event(1) [OF c(2)] by simp
  then show ?thesis by (simp add: equivalent_refl)
qed

lemma ingest_head:
  assumes inv: "head_inv (accepted cr S (ev_pubkey ev)) h" and ids: "ids_unique cr (insert (ev, now) S)"
    and head: "bt_get (heads idx) (ev_pubkey ev) = Some h"
    and ak: "app_keys_authorization_candidate cr (ev_pubkey ev) ev now = Inr ak"
  obtains h' where "heads (snd (ingest cr idx ev now)) = bt_insert (ev_pubkey ev) h' (heads idx)"
    "head_inv (insert (ev, ak) (accepted cr S (ev_pubkey ev))) h'"
proof -
  let ?t = "ev_created_at ev" and ?T = "head_created_at_secs h"
  let ?c = "\<lparr>candidate_event = ev, candidate_app_keys = ak\<rparr>"
  consider (older) "?t < ?T" | (newer) "?T < ?t" | (equiv) "?t = ?T"
      "list_ex (\<lambda>c. has_equivalent_authorization_roster (candidate_app_keys c) ak) (bt_values (candidates h))"
    | (fresh) "?t = ?T"
      "\<not> list_ex (\<lambda>c. has_equivalent_authorization_roster (candidate_app_keys c) ak) (bt_values (candidates h))"
    by fastforce
  then show ?thesis
  proof cases
    case older
    have "bt_insert (ev_pubkey ev) h (heads idx) = heads idx" by (rule bt_ext) (simp add: head)
    then show ?thesis
      using that [OF _ head_inv_older [OF inv older]] older by (simp add: ingest_def Let_def ak head)
  next
    case newer
    then have "\<not> ?t < ?T" by simp
    moreover have "bt_values (bt_empty :: (bytes, AppKeysAuthorizationCandidate) btmap) = []"
      by (simp add: bt_values_def bt_empty.rep_eq)
    ultimately show ?thesis
      using newer by (intro that [OF _ head_inv_newer [OF inv newer, of ak]]) (simp add: ingest_def Let_def ak head)
  next
    case equiv
    then obtain k c where "bt_get (candidates h) k = Some c"
      "has_equivalent_authorization_roster (candidate_app_keys c) ak"
      by (auto simp: list_ex_iff bt_values_def bt_get_entries)
    then show ?thesis
      using that [OF _ head_inv_equivalent [OF inv equiv(1)]] equiv by (simp add: ingest_def Let_def ak head)
  next
    case fresh
    have "bt_get (candidates h) (ev_id ev) = None"
    proof (cases "bt_get (candidates h) (ev_id ev)")
      case (Some c)
      have "c \<in> set (bt_values (candidates h))" using Some by (force simp: bt_values_def bt_get_entries)
      then show ?thesis
        using fresh(2) known_id_equivalent [OF inv ids ak Some] by (auto simp: list_ex_iff)
    qed simp
    then show ?thesis
      using that [OF _ head_inv_added [OF inv fresh(1)]] fresh by (simp add: ingest_def Let_def ak head)
  qed
qed

lemma ingest_inv:
  assumes inv: "index_inv cr S idx" and ids: "ids_unique cr (insert (ev, now) S)"
  shows "index_inv cr (insert (ev, now) S) (snd (ingest cr idx ev now))"
proof (cases "app_keys_authorization_candidate cr (ev_pubkey ev) ev now")
  case (Inl e)
  then have "accepted cr (insert (ev, now) S) owner = accepted cr S owner" for owner
    by (simp add: accepted_insert)
  then show ?thesis using inv Inl unfolding index_inv_def by (simp add: ingest_def Let_def)
next
  case (Inr ak)
  show ?thesis
  proof (cases "bt_get (heads idx) (ev_pubkey ev)")
    case None
    then have "accepted cr S (ev_pubkey ev) = {}" using inv by (simp add: index_inv_def)
    then show ?thesis
      using inv Inr None head_inv_first by (auto simp: ingest_def Let_def index_inv_def accepted_insert)
  next
    case (Some h)
    then have h: "head_inv (accepted cr S (ev_pubkey ev)) h" using inv by (simp add: index_inv_def)
    from ingest_head [OF h ids Some Inr] obtain h' where
      "heads (snd (ingest cr idx ev now)) = bt_insert (ev_pubkey ev) h' (heads idx)"
      "head_inv (insert (ev, ak) (accepted cr S (ev_pubkey ev))) h'" .
    then show ?thesis using inv Inr by (auto simp: index_inv_def accepted_insert)
  qed
qed

section \<open>Membership\<close>

lemma bs_of_list_get: "bt_get (bs_of_list xs) x = None \<longleftrightarrow> x \<notin> set xs"
  unfolding bt_get_of_list map_of_eq_None_iff by (simp add: image_image)

lemma bs_of_list_mem: "bt_contains_key (bs_of_list xs) x \<longleftrightarrow> x \<in> set xs"
  using bs_of_list_get [of xs x] by (simp add: bt_contains_key_def)

lemma bs_of_list_len: "bt_len (bs_of_list xs) = card (set xs)"
  by (simp only: bt_len_card bs_of_list_get not_not Collect_mem_eq)

lemma head_answers:
  assumes "head_inv A h"
  shows "(\<lambda>c. get_device (candidate_app_keys c) device \<noteq> None) ` set (bt_values (candidates h)) =
    lists_device device ` newest A"
proof -
  let ?T = "head_created_at_secs h"
  have vals: "set (bt_values (candidates h)) = {c. \<exists>k. bt_get (candidates h) k = Some c}"
    by (force simp: bt_values_def bt_get_entries)
  obtain k0 c0 where "bt_get (candidates h) k0 = Some c0" using head_invD(1) [OF assms] by blast
  note c0 = head_invD(4,5) [OF assms this]
  have "x \<in> newest A \<longleftrightarrow> x \<in> A \<and> ev_created_at (fst x) = ?T" for x
  proof
    assume x: "x \<in> newest A"
    then have "?T \<le> ev_created_at (fst x)" using c0 unfolding newest_def by force
    moreover have "x \<in> A" using x unfolding newest_def by simp
    ultimately show "x \<in> A \<and> ev_created_at (fst x) = ?T"
      using head_invD(2) [OF assms, of x] by (simp add: order.antisym)
  next
    assume "x \<in> A \<and> ev_created_at (fst x) = ?T"
    then show "x \<in> newest A" using head_invD(2) [OF assms] by (simp add: newest_def)
  qed
  then have new: "newest A = {x \<in> A. ev_created_at (fst x) = ?T}" by blast
  show ?thesis unfolding vals new
  proof (intro equalityI subsetI; elim imageE CollectE exE conjE)
    fix b c k
    assume b: "b = (get_device (candidate_app_keys c) device \<noteq> None)" and "bt_get (candidates h) k = Some c"
    note c = head_invD(4,5) [OF assms this(2)]
    then show "b \<in> lists_device device ` {x \<in> A. ev_created_at (fst x) = ?T}"
      using c by (intro image_eqI [where x = "(candidate_event c, candidate_app_keys c)"])
         (simp_all add: b lists_device_def)
  next
    fix b x
    assume x: "b = lists_device device x" "x \<in> A" "ev_created_at (fst x) = ?T"
    then obtain k c where "bt_get (candidates h) k = Some c"
      "has_equivalent_authorization_roster (candidate_app_keys c) (snd x)"
      using head_invD(6) [OF assms] by blast
    then show "b \<in> (\<lambda>c. get_device (candidate_app_keys c) device \<noteq> None) ` {c. \<exists>k. bt_get (candidates h) k = Some c}"
      using x(1) equivalent_same_devices [of "candidate_app_keys c" "snd x" device]
      by (intro image_eqI [where x = c]) (auto simp: lists_device_def)
  qed
qed

lemma membership_inv:
  assumes "index_inv cr S idx"
  shows "membership idx owner device = membership_spec cr S owner device"
proof (cases "bt_get (heads idx) owner")
  case None
  then show ?thesis using assms by (auto simp: index_inv_def membership_def membership_spec_def Let_def)
next
  case (Some h)
  let ?A = "accepted cr S owner"
  have h: "head_inv ?A h" using assms Some by (simp add: index_inv_def)
  obtain k c where c: "bt_get (candidates h) k = Some c" using head_invD(1) [OF h] by blast
  then have "?A \<noteq> {}" using head_invD(4) [OF h] by blast
  define B where "B = lists_device device ` newest ?A"
  have "c \<in> set (bt_values (candidates h))" using c by (force simp: bt_values_def bt_get_entries)
  then have "B \<noteq> {}" using head_answers [OF h, of device] unfolding B_def by blast
  moreover have "B = (if True \<in> B then {True} else {}) \<union> (if False \<in> B then {False} else {})"
  proof (rule set_eqI)
    fix b show "b \<in> B \<longleftrightarrow> b \<in> (if True \<in> B then {True} else {}) \<union> (if False \<in> B then {False} else {})"
      by (cases b) auto
  qed
  ultimately consider "B = {True}" | "B = {False}" | "B = {True, False}"
    by (cases "True \<in> B"; cases "False \<in> B") auto
  then have "(if card B \<noteq> 1 then Ambiguous else if True \<in> B then Authorized else Excluded) =
      (if False \<notin> B then Authorized else if True \<notin> B then Excluded else Ambiguous)"
    by cases simp_all
  moreover have "(\<forall>x \<in> newest ?A. lists_device device x) \<longleftrightarrow> False \<notin> B"
    "(\<forall>x \<in> newest ?A. \<not> lists_device device x) \<longleftrightarrow> True \<notin> B"
    unfolding B_def by auto
  moreover have "membership idx owner device =
      (if card B \<noteq> 1 then Ambiguous else if True \<in> B then Authorized else Excluded)"
    unfolding membership_def Some option.case Let_def bs_of_list_len bs_of_list_mem set_map
      head_answers [OF h] B_def ..
  ultimately show ?thesis using \<open>?A \<noteq> {}\<close> by (simp only: membership_spec_def Let_def if_False)
qed

definition index_after :: "'x event_crypto_scheme \<Rightarrow> ingest_call list \<Rightarrow> VerifiedAppKeysIndex" where
  "index_after cr calls = fold (\<lambda>(ev, now) idx. snd (ingest cr idx ev now)) calls index_default"

lemma index_after_inv:
  assumes "ids_unique cr (set calls)"
  shows "index_inv cr (set calls) (index_after cr calls)"
proof -
  have "index_inv cr (S \<union> set calls) (fold (\<lambda>(ev, now) idx. snd (ingest cr idx ev now)) calls idx)"
    if "index_inv cr S idx" "ids_unique cr (S \<union> set calls)" for S idx
    using that
  proof (induction calls arbitrary: S idx)
    case (Cons c calls)
    obtain ev now where c: "c = (ev, now)" by fastforce
    have "ids_unique cr (insert c S)" using Cons.prems(2) by (rule ids_unique_subset) auto
    then have "index_inv cr (insert c S) (snd (ingest cr idx ev now))"
      using ingest_inv Cons.prems(1) c by blast
    then show ?case using Cons.IH [of "insert c S"] Cons.prems(2) c by simp
  qed simp
  from this [of "{}" index_default] show ?thesis
    using assms by (simp add: index_after_def index_inv_def index_default_def accepted_def)
qed

text \<open>A signed snapshot of an owner with one device, on the demonstration crates.\<close>

definition demo_owner :: PublicKey where "demo_owner = replicate 32 1"
definition demo_device :: PublicKey where "demo_device = replicate 32 2"

definition demo_snapshot :: Event where
  "demo_snapshot = \<lparr>ev_id = [7], ev_pubkey = demo_owner, ev_created_at = 50, ev_kind = 37368,
     ev_tags = [[''i'', ''01234567-0123-0123-0123-0123456789ab'', ''subject''],
                [''type'', ''app_keys_roster_snapshot''], [''schema'', ''1''],
                [''owner_pubkey'', code_str demo_owner], [''device'', code_str demo_device, ''40'']],
     ev_content = [], ev_sig = []\<rparr>"

text \<open>Crates on which only events with an empty signature verify, and a forgery that reuses an id.\<close>

definition demo_signed :: invite_crypto where
  "demo_signed = demo_full\<lparr>event_verify := (\<lambda>ev. ev_sig ev = [])\<rparr>"

definition demo_forged :: Event where
  "demo_forged = demo_snapshot\<lparr>ev_tags := butlast (ev_tags demo_snapshot), ev_created_at := 55, ev_sig := [1]\<rparr>"

text \<open>
  C9. Fail-closed membership: after any sequence of AppKeys events, verified or not, the index says a
  device is authorized by an owner exactly when the owner has a valid signed snapshot and every newest one
  lists the device; disagreeing newest snapshots give Ambiguous. The answer does not depend on the order
  of arrival, on duplicates, on rejected events whatever ids they carry, or on which of several equivalent
  events is kept. The hypothesis is that the id hash has no collision among the events of the sequence
  that verify.
\<close>

theorem index_membership_refines:
  assumes "ids_unique cr (set calls)"
  shows "membership (index_after cr calls) owner device = membership_spec cr (set calls) owner device"
  by (rule membership_inv [OF index_after_inv [OF assms]])

theorem index_membership_refines_witness:
  "Authorized = membership_spec demo_signed {(demo_snapshot, 60), (demo_forged, 61)} demo_owner demo_device"
proof -
  have "\<not> event_verify demo_signed demo_forged" by code_simp
  then have "ids_unique demo_signed (set [(demo_snapshot, 60), (demo_forged, 61)])"
    by (auto simp: ids_unique_def same_content_def)
  from index_membership_refines [OF this, of demo_owner demo_device]
  have "membership (index_after demo_signed [(demo_snapshot, 60), (demo_forged, 61)]) demo_owner demo_device =
      membership_spec demo_signed {(demo_snapshot, 60), (demo_forged, 61)} demo_owner demo_device"
    by simp
  moreover have "membership (index_after demo_signed [(demo_snapshot, 60), (demo_forged, 61)]) demo_owner
      demo_device = Authorized" by code_simp
  ultimately show ?thesis by simp
qed

text \<open>
  An event the index reports as new is stored: the roster of exactly that event can be read back,
  which the caller relies on without a check, and it becomes the newest snapshot of its owner.
\<close>

theorem ingest_stored:
  assumes "fst (ingest cr idx ev now) = Inr True"
  shows "\<exists>ak. app_keys_authorization_candidate cr (ev_pubkey ev) ev now = Inr ak
    \<and> app_keys_for_event (snd (ingest cr idx ev now)) (ev_pubkey ev) (ev_id ev) = Some ak
    \<and> head_created_at (snd (ingest cr idx ev now)) (ev_pubkey ev) = Some (ev_created_at ev)"
proof -
  obtain ak where ak: "app_keys_authorization_candidate cr (ev_pubkey ev) ev now = Inr ak"
    using assms by (auto simp: ingest_def Let_def split: sum.splits)
  then show ?thesis
    using assms
    by (auto simp: ingest_def Let_def app_keys_for_event_def head_created_at_def
          split: option.splits if_splits)
qed

theorem ingest_stored_witness:
  "\<exists>ak. app_keys_for_event (snd (ingest demo_full index_default demo_snapshot 60)) demo_owner [7] = Some ak"
proof -
  have "fst (ingest demo_full index_default demo_snapshot 60) = Inr True" by code_simp
  from ingest_stored [OF this] show ?thesis by (auto simp: demo_snapshot_def)
qed

end
