(* ===== verification/App_Keys_Codec.thy ===== *)
theory App_Keys_Codec
  imports Multi_Device Full_Instance
begin

text \<open>
  The AppKeys event format: the event built from a set of devices, once signed, is parsed back to the
  same devices. The facts below say what the sorted, de-duplicated and filtered tag list contains.
\<close>

section \<open>What the format relies on\<close>

text \<open>Hex text is read back and is not padded; UUIDs are accepted; the builder only drops \<^verbatim>\<open>p\<close> tags.\<close>

definition hex_ok :: "'x crypto_scheme \<Rightarrow> PublicKey \<Rightarrow> bool" where
  "hex_ok cr k \<longleftrightarrow> pubkey_from_hex cr (hex_encode cr k) = Inr k
     \<and> trim (hex_encode cr k) = hex_encode cr k \<and> hex_encode cr k \<noteq> []"

definition event_format_laws :: "'x event_crypto_scheme \<Rightarrow> bool" where
  "event_format_laws cr \<longleftrightarrow> (\<forall>n. is_ok (canonical_profile_id (to_lowercase (trim (uuid_v4 cr n)))))
     \<and> (\<forall>pk tag. tag_name tag \<noteq> Some ''p'' \<longrightarrow> builder_keeps cr pk tag)"

text \<open>A signed event carries the fields of the unsigned one.\<close>

definition signs :: "'x event_crypto_scheme \<Rightarrow> UnsignedEvent \<Rightarrow> Event \<Rightarrow> bool" where
  "signs cr r ev \<longleftrightarrow> event_verify cr ev \<and> ev_pubkey ev = rumor_pubkey r \<and> ev_created_at ev = rumor_created_at r
     \<and> ev_kind ev = rumor_kind r \<and> ev_tags ev = rumor_tags r \<and> ev_content ev = rumor_content r"

section \<open>The tags of a built event\<close>

definition built_tags :: "'x event_crypto_scheme \<Rightarrow> nat \<Rightarrow> AppKeys \<Rightarrow> PublicKey \<Rightarrow> string list set" where
  "built_tags cr draw ak owner =
     {[''d'', uuid_v4 cr draw], [''i'', uuid_v4 cr draw, ''subject''], [''type'', APP_KEYS_FACT_TYPE],
      [''schema'', u64_to_string APP_KEYS_SCHEMA], [APP_KEYS_OWNER_PUBKEY_FACT, hex_encode cr owner]}
     \<union> device_tag cr ` set (get_all_devices ak)"

lemma build_tags_set:
  "\<exists>P. set (rumor_tags (build_unsigned_event_at cr draw ak owner t)) =
     {tag \<in> built_tags cr draw ak owner \<union> (\<lambda>pk. [''p'', pk]) ` P. builder_keeps cr owner tag}"
proof -
  have "set (app_keys_fact_tags cr ak owner) = {[''type'', APP_KEYS_FACT_TYPE],
      [''schema'', u64_to_string APP_KEYS_SCHEMA], [APP_KEYS_OWNER_PUBKEY_FACT, hex_encode cr owner]}
    \<union> device_tag cr ` set (get_all_devices ak)"
    unfolding app_keys_fact_tags_def by (simp only: set_append set_map set_sort list.set Un_insert_left Un_empty_left)
  then have "built_tags cr draw ak owner =
      {[''d'', uuid_v4 cr draw], [''i'', uuid_v4 cr draw, ''subject'']} \<union> set (app_keys_fact_tags cr ak owner)"
    unfolding built_tags_def by blast
  then show ?thesis
    unfolding build_unsigned_event_at_def Let_def UnsignedEvent.select_convs
    by (simp only: set_filter remdups_adj_set set_sort set_append set_map list.set Un_assoc) blast
qed

lemma built_tags:
  assumes "tag \<in> set (rumor_tags (build_unsigned_event_at cr draw ak owner t))"
  shows "tag_name tag = Some ''p'' \<or> tag \<in> built_tags cr draw ak owner"
  using assms build_tags_set [of cr draw ak owner t] by (auto simp: tag_name_def)

lemma built_tags_kept:
  assumes "event_format_laws cr" "tag \<in> built_tags cr draw ak owner"
  shows "tag \<in> set (rumor_tags (build_unsigned_event_at cr draw ak owner t))"
proof -
  have "tag_name tag \<noteq> Some ''p''"
    using assms(2) by (auto simp: built_tags_def tag_name_def APP_KEYS_OWNER_PUBKEY_FACT_def device_tag_def)
  then have "builder_keeps cr owner tag" using assms(1) by (simp add: event_format_laws_def)
  then show ?thesis using assms(2) build_tags_set [of cr draw ak owner t] by auto
qed

text \<open>All tags of a name carry one value, so the first value found is it.\<close>

lemma map_filter_const:
  assumes "\<And>x y. x \<in> set xs \<Longrightarrow> f x = Some y \<Longrightarrow> y = v" "\<exists>x \<in> set xs. f x = Some v"
  shows "\<exists>n. List.map_filter f xs = replicate (Suc n) v"
proof -
  let ?ys = "List.map_filter f xs"
  have all: "\<forall>y \<in> set ?ys. y = v"
    using assms(1) by (auto simp: List.map_filter_def)
  have "?ys \<noteq> []" using assms(2) by (auto simp: List.map_filter_def filter_empty_conv)
  then obtain n where "length ?ys = Suc n" by (cases ?ys) auto
  moreover have "replicate (length ?ys) v = ?ys" using all by (intro replicate_length_same) auto
  ultimately show ?thesis by metis
qed

lemma tag_values_const:
  assumes "\<And>tag. tag \<in> set (ev_tags ev) \<Longrightarrow> tag_name tag = Some nm \<Longrightarrow> tag = [nm, v]"
    and "[nm, v] \<in> set (ev_tags ev)" "trim v = v" "v \<noteq> []"
  shows "\<exists>n. tag_values ev nm = replicate (Suc n) v"
proof -
  have "\<exists>n. List.map_filter (\<lambda>tag. if tag_name tag = Some nm then map_option trim (list_get tag 1) else None)
      (ev_tags ev) = replicate (Suc n) v"
  proof (rule map_filter_const)
    fix tag y assume "tag \<in> set (ev_tags ev)"
      "(if tag_name tag = Some nm then map_option trim (list_get tag 1) else None) = Some y"
    then show "y = v" using assms(1) [of tag] assms(3) by (auto simp: list_get_def split: if_splits)
  next
    show "\<exists>tag \<in> set (ev_tags ev). (if tag_name tag = Some nm then map_option trim (list_get tag 1) else None) = Some v"
      using assms(2,3) by (intro bexI [of _ "[nm, v]"]) (auto simp: tag_name_def list_get_def)
  qed
  then show ?thesis using assms(4) by (auto simp: tag_values_def)
qed

section \<open>Devices\<close>

lemma device_tag_inj:
  assumes "hex_ok cr (identity_pubkey d)" "hex_ok cr (identity_pubkey d')" "device_tag cr d = device_tag cr d'"
  shows "d = d'"
proof -
  have "hex_encode cr (identity_pubkey d) = hex_encode cr (identity_pubkey d')"
    using assms(3) by (simp add: device_tag_def)
  then have "Inr (identity_pubkey d) = (Inr (identity_pubkey d') :: PublicKey res)"
    using assms(1,2) unfolding hex_ok_def by metis
  then have "identity_pubkey d = identity_pubkey d'" by simp
  moreover have "parse_u64 (u64_to_string (entry_created_at d)) = parse_u64 (u64_to_string (entry_created_at d'))"
    using assms(3) by (simp add: device_tag_def)
  then have "entry_created_at d = entry_created_at d'" by (simp only: parse_u64_print sum.inject option.inject)
  ultimately show ?thesis by (cases d; cases d') simp
qed

lemma devices_from_tags_ok:
  assumes "\<And>tag. tag \<in> set tags \<Longrightarrow> tag_name tag = Some ''device'' \<Longrightarrow> \<exists>d \<in> D. tag = device_tag cr d"
    and "\<And>d. d \<in> D \<Longrightarrow> hex_ok cr (identity_pubkey d)"
  shows "\<exists>ds. devices_from_tags cr t tags = Inr ds \<and> set ds = {d \<in> D. device_tag cr d \<in> set tags}"
  using assms(1)
proof (induction tags)
  case (Cons tag tags)
  then obtain ds where ds: "devices_from_tags cr t tags = Inr ds" "set ds = {d \<in> D. device_tag cr d \<in> set tags}"
    by auto
  show ?case
  proof (cases "tag_name tag = Some ''device''")
    case True
    then obtain d where d: "d \<in> D" "tag = device_tag cr d" using Cons.prems by auto
    then have "pubkey_from_hex cr (hex_encode cr (identity_pubkey d)) = Inr (identity_pubkey d)"
      using assms(2) by (simp add: hex_ok_def)
    moreover have "\<lparr>identity_pubkey = identity_pubkey d, entry_created_at = entry_created_at d\<rparr> = d" by simp
    ultimately have "devices_from_tags cr t (tag # tags) = Inr (d # ds)"
      using True d ds by (simp add: device_tag_def parse_u64_print)
    moreover have "set (d # ds) = {d \<in> D. device_tag cr d \<in> set (tag # tags)}"
    proof -
      have "x = d" if "x \<in> D" "device_tag cr x = tag" for x
        using device_tag_inj [OF assms(2) [OF that(1)] assms(2) [OF d(1)]] that(2) d(2) by simp
      then show ?thesis using d ds(2) by auto
    qed
    ultimately show ?thesis by blast
  next
    case False
    then have "device_tag cr d \<noteq> tag" for d by (auto simp: device_tag_def tag_name_def)
    then show ?thesis using False ds by auto
  qed
qed simp

lemma app_keys_new_get:
  assumes "\<And>d. d \<in> set ds \<Longrightarrow> f (identity_pubkey d) = Some d" "\<And>k d. f k = Some d \<Longrightarrow> d \<in> set ds \<and> identity_pubkey d = k"
  shows "bt_get (ak_devices (app_keys_new ds)) k = f k"
proof -
  have "bt_get (fold (\<lambda>d m. bt_insert (identity_pubkey d) d m) ds m) k =
      (if k \<in> identity_pubkey ` set ds then f k else bt_get m k)"
    if "\<And>d. d \<in> set ds \<Longrightarrow> f (identity_pubkey d) = Some d" for ds m
    using that by (induction ds arbitrary: m) auto
  then have "bt_get (ak_devices (app_keys_new ds)) k = (if k \<in> identity_pubkey ` set ds then f k else None)"
    using assms(1) by (simp add: app_keys_new_def)
  moreover have "f k = None" if "k \<notin> identity_pubkey ` set ds" using that assms(2) by (cases "f k") auto
  ultimately show ?thesis by simp
qed

section \<open>The round trip\<close>

lemma app_keys_devices_set:
  assumes "app_keys_ok ak"
  shows "d \<in> set (get_all_devices ak) \<longleftrightarrow> get_device ak (identity_pubkey d) = Some d"
proof
  assume "d \<in> set (get_all_devices ak)"
  then obtain k where "bt_get (ak_devices ak) k = Some d"
    by (auto simp: get_all_devices_def bt_values_def bt_get_entries)
  then show "get_device ak (identity_pubkey d) = Some d" using assms by (auto simp: app_keys_ok_def get_device_def)
next
  assume "get_device ak (identity_pubkey d) = Some d"
  then show "d \<in> set (get_all_devices ak)"
    by (force simp: get_device_def get_all_devices_def bt_values_def bt_get_entries)
qed

lemma app_keys_new_of_set:
  assumes "app_keys_ok ak" "set ds = set (get_all_devices ak)"
  shows "bt_get (ak_devices (app_keys_new ds)) k = bt_get (ak_devices ak) k"
proof -
  have "bt_get (ak_devices (app_keys_new ds)) k = get_device ak k"
  proof (rule app_keys_new_get)
    fix d assume "d \<in> set ds"
    then show "get_device ak (identity_pubkey d) = Some d"
      unfolding assms(2) by (simp only: app_keys_devices_set [OF assms(1)])
  next
    fix k d assume d: "get_device ak k = Some d"
    then have "identity_pubkey d = k" using assms(1) unfolding app_keys_ok_def get_device_def by blast
    then show "d \<in> set ds \<and> identity_pubkey d = k"
      unfolding assms(2) using d by (simp only: app_keys_devices_set [OF assms(1)])
  qed
  then show ?thesis by (simp only: get_device_def)
qed

lemma profile_id_of_built:
  assumes "event_format_laws cr" "signs cr (build_unsigned_event_at cr draw ak owner t) ev"
  shows "is_ok (app_keys_profile_id_from_event ev)"
proof -
  let ?f = "\<lambda>tag. if tag_name tag = Some ''i'' \<and> list_get tag 2 = Some ''subject''
      then map_option (\<lambda>v. to_lowercase (trim v)) (list_get tag 1) else None"
  have tags: "set (ev_tags ev) = set (rumor_tags (build_unsigned_event_at cr draw ak owner t))"
    using assms(2) by (simp add: signs_def)
  have "\<exists>n. List.map_filter ?f (ev_tags ev) = replicate (Suc n) (to_lowercase (trim (uuid_v4 cr draw)))"
  proof (rule map_filter_const)
    fix tag y assume "tag \<in> set (ev_tags ev)" "?f tag = Some y"
    then have "tag = [''i'', uuid_v4 cr draw, ''subject'']" "tag_name tag = Some ''i''"
      using built_tags [of tag cr draw ak owner t] tags
      by (auto simp: built_tags_def tag_name_def APP_KEYS_OWNER_PUBKEY_FACT_def device_tag_def split: if_splits)
    then show "y = to_lowercase (trim (uuid_v4 cr draw))" using \<open>?f tag = Some y\<close> by (simp add: list_get_def)
  next
    show "\<exists>tag \<in> set (ev_tags ev). ?f tag = Some (to_lowercase (trim (uuid_v4 cr draw)))"
      using built_tags_kept [OF assms(1), of "[''i'', uuid_v4 cr draw, ''subject'']" draw ak owner t] tags
      by (intro bexI [of _ "[''i'', uuid_v4 cr draw, ''subject'']"])
         (auto simp: built_tags_def tag_name_def list_get_def)
  qed
  then show ?thesis using assms(1) by (auto simp: app_keys_profile_id_from_event_def event_format_laws_def)
qed

lemma built_tag_value:
  assumes "event_format_laws cr" "signs cr (build_unsigned_event_at cr draw ak owner t) ev"
    and "[nm, v] \<in> {[''type'', APP_KEYS_FACT_TYPE], [''schema'', u64_to_string APP_KEYS_SCHEMA],
      [APP_KEYS_OWNER_PUBKEY_FACT, hex_encode cr owner]}" "trim v = v" "v \<noteq> []"
  shows "\<exists>n. tag_values ev nm = replicate (Suc n) v"
proof (rule tag_values_const)
  have tags: "set (ev_tags ev) = set (rumor_tags (build_unsigned_event_at cr draw ak owner t))"
    using assms(2) by (simp add: signs_def)
  show "[nm, v] \<in> set (ev_tags ev)"
    unfolding tags by (rule built_tags_kept [OF assms(1)]) (use assms(3) in \<open>auto simp: built_tags_def\<close>)
  fix tag assume "tag \<in> set (ev_tags ev)" "tag_name tag = Some nm"
  then show "tag = [nm, v]"
    using built_tags [of tag cr draw ak owner t] tags assms(3)
    by (auto simp: built_tags_def tag_name_def APP_KEYS_OWNER_PUBKEY_FACT_def device_tag_def)
qed (rule assms)+

lemma devices_of_built:
  assumes "event_format_laws cr" "signs cr (build_unsigned_event_at cr draw ak owner t) ev"
    and "\<And>d. d \<in> set (get_all_devices ak) \<Longrightarrow> hex_ok cr (identity_pubkey d)"
  shows "\<exists>ds. devices_from_tags cr (ev_created_at ev) (ev_tags ev) = Inr ds \<and> set ds = set (get_all_devices ak)"
proof -
  have tags: "set (ev_tags ev) = set (rumor_tags (build_unsigned_event_at cr draw ak owner t))"
    using assms(2) by (simp add: signs_def)
  have "\<exists>d \<in> set (get_all_devices ak). tag = device_tag cr d"
    if "tag \<in> set (ev_tags ev)" "tag_name tag = Some ''device''" for tag
    using that built_tags [of tag cr draw ak owner t] tags
    by (auto simp: built_tags_def tag_name_def APP_KEYS_OWNER_PUBKEY_FACT_def)
  moreover have "device_tag cr d \<in> set (ev_tags ev)" if "d \<in> set (get_all_devices ak)" for d
    unfolding tags by (rule built_tags_kept [OF assms(1)]) (use that in \<open>simp add: built_tags_def\<close>)
  ultimately show ?thesis
    using devices_from_tags_ok [of "ev_tags ev" "set (get_all_devices ak)" cr "ev_created_at ev"] assms(3) by auto
qed

text \<open>
  AppKeys round trip: the event built from a set of devices, signed by the owner and published, is
  parsed back by every receiver to exactly the same devices with the same times, whatever the order
  of the tags after sorting and de-duplication; private labels are not published.
\<close>

theorem app_keys_event_roundtrip:
  assumes "event_format_laws cr" "app_keys_ok ak" "hex_ok cr owner"
    and "\<forall>d \<in> set (get_all_devices ak). hex_ok cr (identity_pubkey d)"
    and "signs cr (build_unsigned_event_at cr draw ak owner t) ev"
  shows "from_event cr ev = Inr (ak\<lparr>ak_device_labels := bt_empty\<rparr>)"
proof -
  have schema: "trim (u64_to_string APP_KEYS_SCHEMA) = u64_to_string APP_KEYS_SCHEMA"
    by (rule u64_to_string_trim)
  have filled: "u64_to_string APP_KEYS_SCHEMA \<noteq> []"
    unfolding u64_to_string_def using print_nat_digits by blast
  have "trim APP_KEYS_FACT_TYPE = APP_KEYS_FACT_TYPE" "APP_KEYS_FACT_TYPE \<noteq> []" by code_simp+
  from built_tag_value [OF assms(1,5) _ this, of "''type''"]
    built_tag_value [OF assms(1,5) _ schema filled, of "''schema''"]
    built_tag_value [OF assms(1,5), of APP_KEYS_OWNER_PUBKEY_FACT "hex_encode cr owner"] assms(3)
  obtain a b c where vals: "tag_values ev ''type'' = replicate (Suc a) APP_KEYS_FACT_TYPE"
    "tag_values ev ''schema'' = replicate (Suc b) (u64_to_string APP_KEYS_SCHEMA)"
    "tag_values ev APP_KEYS_OWNER_PUBKEY_FACT = replicate (Suc c) (hex_encode cr owner)"
    by (auto simp: hex_ok_def)
  obtain pid where "app_keys_profile_id_from_event ev = Inr pid"
    using profile_id_of_built [OF assms(1,5)] by (auto simp: is_ok_iff)
  moreover obtain ds where ds: "devices_from_tags cr (ev_created_at ev) (ev_tags ev) = Inr ds"
    "set ds = set (get_all_devices ak)"
    using devices_of_built [OF assms(1,5)] assms(4) by blast
  moreover have "app_keys_new ds = ak\<lparr>ak_device_labels := bt_empty\<rparr>"
  proof (rule app_keys_ext)
    show "bt_get (ak_devices (app_keys_new ds)) k = bt_get (ak_devices (ak\<lparr>ak_device_labels := bt_empty\<rparr>)) k" for k
      using app_keys_new_of_set [OF assms(2) ds(2)] by simp
  qed (simp add: app_keys_new_def)
  moreover have "ev_kind ev = ucast APP_KEYS_SNAPSHOT_KIND" "ev_content ev = []" "ev_pubkey ev = owner" "event_verify cr ev"
    using assms(5) by (simp_all add: signs_def build_unsigned_event_at_def Let_def)
  moreover have "pubkey_from_hex cr (hex_encode cr owner) = Inr owner" using assms(3) by (simp add: hex_ok_def)
  ultimately show ?thesis
    using vals by (simp add: from_event_def is_app_keys_event_def required_integer_def required_tag_value_def
        pubkey_from_required_tag_def parse_u64_print)
qed


definition demo_app_keys :: AppKeys where
  "demo_app_keys = app_keys_new [\<lparr>identity_pubkey = replicate 32 1, entry_created_at = 7\<rparr>,
     \<lparr>identity_pubkey = replicate 32 2, entry_created_at = 9\<rparr>]"

definition demo_app_keys_event :: Event where
  "demo_app_keys_event = (let r = build_unsigned_event_at demo_full 0 demo_app_keys (replicate 32 3) 50 in
     \<lparr>ev_id = [], ev_pubkey = rumor_pubkey r, ev_created_at = rumor_created_at r, ev_kind = rumor_kind r,
      ev_tags = rumor_tags r, ev_content = rumor_content r, ev_sig = []\<rparr>)"

theorem app_keys_event_roundtrip_witness:
  "from_event demo_full demo_app_keys_event = Inr (demo_app_keys\<lparr>ak_device_labels := bt_empty\<rparr>)"
proof (rule app_keys_event_roundtrip [where draw = 0 and owner = "replicate 32 3" and t = 50])
  have "is_ok (canonical_profile_id (to_lowercase (trim ''01234567-0123-0123-0123-0123456789ab'')))" by code_simp
  then show "event_format_laws demo_full" by (simp add: event_format_laws_def demo_full_simps)
  show "hex_ok demo_full (replicate 32 3)" by code_simp
  show "\<forall>d \<in> set (get_all_devices demo_app_keys). hex_ok demo_full (identity_pubkey d)" by code_simp
  show "signs demo_full (build_unsigned_event_at demo_full 0 demo_app_keys (replicate 32 3) 50) demo_app_keys_event"
    by (simp add: signs_def demo_full_simps demo_app_keys_event_def Let_def)
  show "app_keys_ok demo_app_keys" unfolding demo_app_keys_def by (rule app_keys_new_ok)
qed

end
