(* ===== verification/Invite_Properties.thy ===== *)
theory Invite_Properties
  imports Full_Instance
begin

text \<open>
  The invite handshake: a response made by \<^verbatim>\<open>accept\<close> is accepted by \<^verbatim>\<open>process_response\<close> and the two
  sessions talk to each other; the use limit and replay protection of an invite.
\<close>

section \<open>What a successful acceptance contains\<close>

lemma then_do_pure_Inr [result_simps]:
  "then_do (r, s) f = (Inr y, s') \<longleftrightarrow> (\<exists>x. r = Inr x \<and> f x s = (Inr y, s'))"
  by (cases r) auto

lemma accept_cases:
  assumes "accept_with_owner_context_and_device cr draw now rng iv pub priv owner dev = (Inr (session, env), rng')"
  obtains session_key aux rng1 rng2 inner sender_secret j draw' where
    "sk_from_slice cr session_key" "ensure_accept_allowed iv pub = Inr ()"
    "new_initiator cr rng1 (inviter_ephemeral_public_key iv) session_key (shared_secret iv) = (Inr session, rng2)"
    "seal_response cr draw now iv pub priv
       \<lparr>payload_session_key = DevicePubkey (pk_of_sk cr session_key),
        payload_session_proof = schnorr_sign cr session_key aux
          (invite_session_proof_digest cr (inviter_device_pubkey iv) (inviter_ephemeral_public_key iv) pub
             (DevicePubkey (pk_of_sk cr session_key)) (shared_secret iv)),
        payload_device_id = dev, payload_owner_pubkey = owner\<rparr> = Inr inner"
    "sk_from_slice cr sender_secret" "pk_from_slice cr (device_bytes (inviter_ephemeral_public_key iv))"
    "rumor_to_json cr inner = Inr j"
    "nip44_encrypt cr draw' sender_secret (device_bytes (inviter_ephemeral_public_key iv)) j = Inr (response_content env)"
    "response_sender env = DevicePubkey (pk_of_sk cr sender_secret)"
    "response_metadata_privacy_version env = METADATA_PRIVACY_VERSION"
  using assms
  by (auto simp: accept_with_owner_context_and_device_def Let_def result_simps split: if_splits intro: that)

lemma seal_cases:
  assumes "seal_response cr draw now iv pub priv payload = Inr inner"
  obtains payload_json dh eb where
    "sk_from_slice cr priv" "payload_to_json cr payload = Inr payload_json"
    "nip44_encrypt cr draw priv (device_bytes (inviter_device_pubkey iv)) payload_json = Inr dh"
    "v2_encrypt cr (draw + 1) (shared_secret iv) (string_bytes dh) = Inr eb"
    "rumor_pubkey inner = device_bytes pub" "rumor_content inner = b64_encode cr eb"
    "rumor_kind inner = ucast INVITE_RESPONSE_INNER_RUMOR_KIND" "rumor_tags inner = []"
    "\<exists>r. inner = r\<lparr>rumor_id := Some (rumor_hash cr r)\<rparr>"
proof -
  from assms obtain payload_json dh eb where ok:
    "sk_from_slice cr priv" "payload_to_json cr payload = Inr payload_json"
    "nip44_encrypt cr draw priv (device_bytes (inviter_device_pubkey iv)) payload_json = Inr dh"
    "v2_encrypt cr (draw + 1) (shared_secret iv) (string_bytes dh) = Inr eb"
    and inner: "inner = (let r = \<lparr>rumor_id = None, rumor_pubkey = device_bytes pub, rumor_created_at = now,
        rumor_kind = ucast INVITE_RESPONSE_INNER_RUMOR_KIND, rumor_tags = [], rumor_content = b64_encode cr eb\<rparr>
      in r\<lparr>rumor_id := Some (rumor_hash cr r)\<rparr>)"
    by (auto simp: seal_response_def Let_def result_simps)
  show ?thesis
  proof (rule that [OF ok])
    show "\<exists>r. inner = r\<lparr>rumor_id := Some (rumor_hash cr r)\<rparr>" unfolding inner Let_def by (rule exI, rule refl)
  qed (simp_all add: inner Let_def)
qed

section \<open>The handshake\<close>

text \<open>An invite that belongs to an inviter who holds its ephemeral key.\<close>

definition invite_of :: "'x crypto_scheme \<Rightarrow> bytes \<Rightarrow> bytes \<Rightarrow> Invite \<Rightarrow> bool" where
  "invite_of cr inviter_sk ephemeral iv \<longleftrightarrow> sk_from_slice cr inviter_sk \<and> sk_from_slice cr ephemeral
     \<and> inviter_device_pubkey iv = DevicePubkey (pk_of_sk cr inviter_sk)
     \<and> inviter_ephemeral_public_key iv = DevicePubkey (pk_of_sk cr ephemeral)
     \<and> inviter_ephemeral_private_key iv = Some ephemeral"

lemma create_new_invite_of:
  assumes "create_new_with_context cr now rng (DevicePubkey (pk_of_sk cr inviter_sk)) owner mx = (Inr iv, rng')"
    and "sk_from_slice cr inviter_sk"
  obtains ephemeral where "invite_of cr inviter_sk ephemeral iv" "used_by iv = []" "used_response_contents iv = []"
  using assms by (auto simp: create_new_with_context_def result_simps invite_of_def)

lemma validate_sealed:
  assumes "rumor_json_ok cr" "rumor_kind inner = ucast INVITE_RESPONSE_INNER_RUMOR_KIND" "rumor_tags inner = []"
    and "\<exists>r. inner = r\<lparr>rumor_id := Some (rumor_hash cr r)\<rparr>"
  shows "validate_invite_response_inner_rumor cr inner = Inr ()"
proof -
  obtain r where r: "inner = r\<lparr>rumor_id := Some (rumor_hash cr r)\<rparr>" using assms(4) by blast
  then have "rumor_id inner = Some (rumor_hash cr inner)" using assms(1) by (simp add: rumor_json_ok_def)
  moreover have "ucast (ucast INVITE_RESPONSE_INNER_RUMOR_KIND :: 16 word) = INVITE_RESPONSE_INNER_RUMOR_KIND"
    by (simp add: INVITE_RESPONSE_INNER_RUMOR_KIND_def)
  ultimately show ?thesis using assms(2,3) by (simp add: validate_invite_response_inner_rumor_def)
qed

lemma open_sealed_response:
  assumes laws: "invite_laws cr" and iv: "invite_of cr inviter_sk ephemeral iv"
    and seal: "seal_response cr draw now iv (DevicePubkey (pk_of_sk cr invitee_sk)) invitee_sk payload = Inr inner"
    and env: "sk_from_slice cr sender_secret" "rumor_to_json cr inner = Inr j"
      "nip44_encrypt cr draw' sender_secret (pk_of_sk cr ephemeral) j = Inr (response_content env)"
      "response_sender env = DevicePubkey (pk_of_sk cr sender_secret)"
  shows "open_response cr iv ephemeral env inviter_sk = Inr (pk_of_sk cr invitee_sk, payload)"
proof -
  from seal show ?thesis
  proof (cases rule: seal_cases)
    case (1 payload_json dh eb)
    have sk: "sk_from_slice cr ephemeral" "sk_from_slice cr inviter_sk"
      and dev: "inviter_device_pubkey iv = DevicePubkey (pk_of_sk cr inviter_sk)"
      using iv by (simp_all add: invite_of_def)
    have "nip44_decrypt cr ephemeral (pk_of_sk cr sender_secret) (response_content env) = Inr j"
      using laws env sk by (auto simp: invite_laws_def nip44_roundtrip_def)
    moreover have "\<exists>i. rumor_id inner = Some i" using 1(9) by auto
    then obtain x where "rumor_from_json cr j = Inr x" "into_unsigned_event x = inner"
      using laws env(2) 1(7,8) unfolding invite_laws_def rumor_json_ok_def by metis
    moreover have "validate_invite_response_inner_rumor cr inner = Inr ()"
      using laws 1(7-9) by (intro validate_sealed) (simp_all add: invite_laws_def)
    moreover have "b64_decode cr (rumor_content inner) = Inr eb"
      using laws 1(6) by (simp add: invite_laws_def b64_roundtrip_def)
    moreover have "v2_decrypt cr (shared_secret iv) eb = Inr (string_bytes dh)"
      using laws 1(4) by (auto simp: invite_laws_def v2_roundtrip_def)
    moreover have "utf8_valid cr (string_bytes dh)" using laws 1(3) by (auto simp: invite_laws_def nip44_text_def)
    moreover have "nip44_decrypt cr inviter_sk (rumor_pubkey inner) dh = Inr payload_json"
      using laws 1(1,3,5) sk dev by (auto simp: invite_laws_def nip44_roundtrip_def)
    moreover have "payload_from_json cr payload_json = Inr payload"
      using laws 1(2) by (auto simp: invite_laws_def payload_json_ok_def)
    moreover have "keys_ok cr" using laws by (simp add: invite_laws_def)
    ultimately show ?thesis using sk env(1,4) 1(5)
      by (simp add: open_response_def bytes_of_string)
  qed
qed

lemma new_responder_ok:
  assumes "keys_ok cr" "dh_symmetric cr" "tweak_agrees cr" "sk_from_slice cr ephemeral" "sk_from_slice cr session_key"
    and "new_initiator cr rng1 (DevicePubkey (pk_of_sk cr ephemeral)) session_key secret = (Inr a, rng1')"
    and "\<exists>c \<in> set rng2. sk_from_slice cr c"
  obtains b rng2' where
    "new_responder cr rng2 (DevicePubkey (pk_of_sk cr session_key)) ephemeral secret = (Inr b, rng2')"
proof -
  from assms(6) obtain d where
    "private_responder_public_key cr session_key (DevicePubkey (pk_of_sk cr ephemeral)) = Inr d"
    by (auto simp: new_initiator_def init_with_context_def init_initiator_def split: sum.splits)
  from private_responder_keys_agree [OF assms(1-5) this] obtain s where
    "private_responder_secret_key cr ephemeral (DevicePubkey (pk_of_sk cr session_key)) = Inr s" "sk_from_slice cr s" .
  moreover obtain k rng2' where "random_secret_key_bytes cr rng2 = (Inr k, rng2')" "sk_from_slice cr k"
    using random_secret_key_bytes_ok [OF assms(7)] by (metis prod.collapse)
  ultimately show ?thesis
    using that by (simp add: new_responder_def init_with_context_def init_responder_def)
qed

lemma process_sealed_response:
  assumes laws: "invite_laws cr" and iv: "invite_of cr inviter_sk ephemeral iv"
    and accept: "accept_with_owner_context_and_device cr draw now rng1 iv (DevicePubkey (pk_of_sk cr invitee_sk))
      invitee_sk owner dev = (Inr (session, env), rng1')"
    and owner: "\<And>ow. owner = Some ow \<Longrightarrow> pk_from_slice cr (owner_bytes ow) \<and> pk_xonly cr (owner_bytes ow)"
    and fresh: "response_content env \<notin> set (used_response_contents iv)"
    and rng: "\<exists>c \<in> set rng2. sk_from_slice cr c"
  obtains session_key rng3 rng4 b rng2' where
    "sk_from_slice cr session_key"
    "new_initiator cr rng3 (DevicePubkey (pk_of_sk cr ephemeral)) session_key (shared_secret iv) = (Inr session, rng4)"
    "new_responder cr rng2 (DevicePubkey (pk_of_sk cr session_key)) ephemeral (shared_secret iv) = (Inr b, rng2')"
    "process_response cr iv rng2 env inviter_sk =
       (Inr \<lparr>response_session = b, invitee_device_pubkey = DevicePubkey (pk_of_sk cr invitee_sk),
             invitee_owner_pubkey = owner, invitee_identity = pk_of_sk cr invitee_sk,
             response_device_id = dev, response_owner_public_key = map_option owner_bytes owner\<rparr>,
        record_response_content (record_use iv (DevicePubkey (pk_of_sk cr invitee_sk))) (response_content env),
        rng2')"
  using accept
proof (cases rule: accept_cases)
  case (1 session_key aux rng3 rng4 inner sender_secret j draw')
  have eph: "inviter_ephemeral_public_key iv = DevicePubkey (pk_of_sk cr ephemeral)" "sk_from_slice cr ephemeral"
    "inviter_ephemeral_private_key iv = Some ephemeral"
    using iv by (simp_all add: invite_of_def)
  have base: "keys_ok cr" "dh_symmetric cr" "tweak_agrees cr" "schnorr_correct cr"
    using laws by (simp_all add: invite_laws_def)
  note init = 1(3) [unfolded eph(1)]
  from new_responder_ok [OF base(1-3) eph(2) 1(1) init rng] obtain b rng2' where
    b: "new_responder cr rng2 (DevicePubkey (pk_of_sk cr session_key)) ephemeral (shared_secret iv) = (Inr b, rng2')" .
  let ?payload = "\<lparr>payload_session_key = DevicePubkey (pk_of_sk cr session_key),
        payload_session_proof = schnorr_sign cr session_key aux
          (invite_session_proof_digest cr (inviter_device_pubkey iv) (inviter_ephemeral_public_key iv)
             (DevicePubkey (pk_of_sk cr invitee_sk)) (DevicePubkey (pk_of_sk cr session_key)) (shared_secret iv)),
        payload_device_id = dev, payload_owner_pubkey = owner\<rparr>"
  have op: "open_response cr iv ephemeral env inviter_sk = Inr (pk_of_sk cr invitee_sk, ?payload)"
    using 1(8) eph(1) by (intro open_sealed_response [OF laws iv 1(4,5,7) _ 1(9)]) simp
  have "check_owner_key cr owner = Inr (map_option owner_bytes owner)"
    using owner by (cases owner) (auto simp: check_owner_key_def)
  moreover have "pk_xonly cr (pk_of_sk cr session_key)" using base(1) 1(1) by (simp add: keys_ok_def)
  moreover have "schnorr_verify cr (pk_of_sk cr session_key) d (schnorr_sign cr session_key aux d)" for d
    using base(4) 1(1) by (simp add: schnorr_correct_def)
  ultimately show ?thesis
    using that [OF 1(1) init b] 1(1,2,10) eph base fresh op b
    by (simp add: process_response_def Let_def)
qed

lemma invite_handshake:
  assumes "invite_laws cr" "delivery_crypto cr"
    and "create_new_with_context cr t rng0 (DevicePubkey (pk_of_sk cr inviter_sk)) inviter_owner mx = (Inr iv, rng0')"
    and "sk_from_slice cr inviter_sk"
    and "accept_with_owner_context_and_device cr draw now rng1 iv (DevicePubkey (pk_of_sk cr invitee_sk))
      invitee_sk owner dev = (Inr (session, env), rng1')"
    and "\<And>ow. owner = Some ow \<Longrightarrow> pk_from_slice cr (owner_bytes ow) \<and> pk_xonly cr (owner_bytes ow)"
    and "\<exists>c \<in> set rng2. sk_from_slice cr c" "\<exists>c \<in> set rng3. sk_from_slice cr c"
    and "map_option public_key (our_current_nostr_key (state session)) \<noteq>
      Some (public_key (our_next_nostr_key (state session)))"
    and "send_all cr draw' session ps now' = Inr (session', es)" "length ps \<le> MAX_SKIP"
    and "distinct order" "set order \<subseteq> {..<length ps}"
  shows "\<exists>resp iv' rng2' b' rng3'. process_response cr iv rng2 env inviter_sk = (Inr resp, iv', rng2')
    \<and> invitee_device_pubkey resp = DevicePubkey (pk_of_sk cr invitee_sk)
    \<and> invitee_owner_pubkey resp = owner \<and> response_device_id resp = dev
    \<and> used_by iv' = [DevicePubkey (pk_of_sk cr invitee_sk)]
    \<and> receive_all cr (response_session resp) rng3 (map ((!) es) order) = (Inr (b', map ((!) ps) order), rng3')"
proof -
  from create_new_invite_of [OF assms(3,4)] obtain ephemeral where iv: "invite_of cr inviter_sk ephemeral iv"
    "used_by iv = []" "used_response_contents iv = []" .
  have eph: "sk_from_slice cr ephemeral" using iv(1) by (simp add: invite_of_def)
  have "response_content env \<notin> set (used_response_contents iv)" using iv(3) by simp
  from process_sealed_response [OF assms(1) iv(1) assms(5,6) this assms(7)]
  obtain session_key r3 r4 b rng2' where
    init: "sk_from_slice cr session_key"
      "new_initiator cr r3 (DevicePubkey (pk_of_sk cr ephemeral)) session_key (shared_secret iv) = (Inr session, r4)"
      "new_responder cr rng2 (DevicePubkey (pk_of_sk cr session_key)) ephemeral (shared_secret iv) = (Inr b, rng2')"
    and proc: "process_response cr iv rng2 env inviter_sk =
       (Inr \<lparr>response_session = b, invitee_device_pubkey = DevicePubkey (pk_of_sk cr invitee_sk),
             invitee_owner_pubkey = owner, invitee_identity = pk_of_sk cr invitee_sk,
             response_device_id = dev, response_owner_public_key = map_option owner_bytes owner\<rparr>,
        record_response_content (record_use iv (DevicePubkey (pk_of_sk cr invitee_sk))) (response_content env),
        rng2')"
    by blast
  have "our_current_nostr_key (state session) = Some (key_pair cr session_key)"
    using init(1,2) by (auto simp: new_initiator_def init_with_context_def init_initiator_def session_from_state_def
        initial_state_def Let_def result_simps split: sum.splits prod.splits)
  then have "public_key (our_next_nostr_key (state session)) \<noteq> DevicePubkey (pk_of_sk cr session_key)"
    using assms(9) by auto
  moreover have "tweak_agrees cr" using assms(1) by (simp add: invite_laws_def)
  ultimately have "\<exists>b' rng3'. receive_all cr b rng3 (map ((!) es) order) = (Inr (b', map ((!) ps) order), rng3')"
    using bootstrap_delivery [OF assms(2) _ eph init _ assms(10-13,8)] by blast
  then show ?thesis
    using proc iv(2) by (auto simp: record_use_def record_response_content_def)
qed

text \<open>
  C8. The invite handshake: when an inviter creates an invite and an invitee accepts it, the inviter's
  processing of the response succeeds and identifies the invitee, its claimed owner and device id, and
  the two sessions are connected: any messages the invitee then sends, up to \<^verbatim>\<open>MAX_SKIP\<close>, in any order
  of arrival, are decrypted by the inviter to what was sent.
\<close>

theorem invite_handshake_delivers:
  assumes "invite_laws cr" "delivery_crypto cr"
    and "create_new_with_context cr t rng0 (DevicePubkey (pk_of_sk cr inviter_sk)) inviter_owner mx = (Inr iv, rng0')"
    and "sk_from_slice cr inviter_sk"
    and "accept_with_owner_context_and_device cr draw now rng1 iv (DevicePubkey (pk_of_sk cr invitee_sk))
      invitee_sk owner dev = (Inr (session, env), rng1')"
    and "\<And>ow. owner = Some ow \<Longrightarrow> pk_from_slice cr (owner_bytes ow) \<and> pk_xonly cr (owner_bytes ow)"
    and "\<exists>c \<in> set rng2. sk_from_slice cr c" "\<exists>c \<in> set rng3. sk_from_slice cr c"
    and "map_option public_key (our_current_nostr_key (state session)) \<noteq>
      Some (public_key (our_next_nostr_key (state session)))"
    and "send_all cr draw' session ps now' = Inr (session', es)" "length ps \<le> MAX_SKIP"
    and "distinct order" "set order \<subseteq> {..<length ps}"
  shows "\<exists>resp iv' rng2' b' rng3'. process_response cr iv rng2 env inviter_sk = (Inr resp, iv', rng2')
    \<and> invitee_device_pubkey resp = DevicePubkey (pk_of_sk cr invitee_sk)
    \<and> invitee_owner_pubkey resp = owner \<and> response_device_id resp = dev
    \<and> used_by iv' = [DevicePubkey (pk_of_sk cr invitee_sk)]
    \<and> receive_all cr (response_session resp) rng3 (map ((!) es) order) = (Inr (b', map ((!) ps) order), rng3')"
  using assms by (rule invite_handshake)

definition demo_invite :: Invite where
  "demo_invite = projr (fst (create_new_with_context demo_full 50 [[5], [6]] (DevicePubkey [1]) None (Some 1)))"

definition demo_accept :: "Session \<times> InviteResponseEnvelope" where
  "demo_accept = projr (fst (accept_with_owner_context_and_device demo_full 0 0 [[7], [8], [9], [10], [11]] demo_invite
     (DevicePubkey [2]) [2] (Some (OwnerPubkey [3])) None))"

definition demo_invite_sent :: "Session \<times> MessageEnvelope list" where
  "demo_invite_sent = projr (send_all demo_full 0 (fst demo_accept) [[21], [22]] 100)"

theorem invite_handshake_delivers_witness:
  "\<exists>resp iv' rng2' b' rng3'. process_response demo_full demo_invite [[12]] (snd demo_accept) [1] = (Inr resp, iv', rng2')
    \<and> invitee_device_pubkey resp = DevicePubkey (pk_of_sk demo_full [2])
    \<and> invitee_owner_pubkey resp = Some (OwnerPubkey [3]) \<and> response_device_id resp = None
    \<and> used_by iv' = [DevicePubkey (pk_of_sk demo_full [2])]
    \<and> receive_all demo_full (response_session resp) [[13]] (map ((!) (snd demo_invite_sent)) [1, 0]) =
        (Inr (b', map ((!) [[21], [22]]) [1, 0]), rng3')"
proof (rule invite_handshake_delivers [OF demo_full_laws])
  show "delivery_crypto demo_full" unfolding demo_full_def by (rule demo_delivery)
  show "create_new_with_context demo_full 50 [[5], [6]] (DevicePubkey (pk_of_sk demo_full [1])) None (Some 1) =
      (Inr demo_invite, [])"
    unfolding demo_invite_def by code_simp
  show "accept_with_owner_context_and_device demo_full 0 0 [[7], [8], [9], [10], [11]] demo_invite
      (DevicePubkey (pk_of_sk demo_full [2])) [2] (Some (OwnerPubkey [3])) None =
      (Inr (fst demo_accept, snd demo_accept), [[11]])"
    unfolding demo_accept_def demo_invite_def by code_simp
  show "send_all demo_full 0 (fst demo_accept) [[21], [22]] 100 = Inr (fst demo_invite_sent, snd demo_invite_sent)"
    unfolding demo_invite_sent_def demo_accept_def demo_invite_def by code_simp
  have "map_option public_key (our_current_nostr_key (state (fst demo_accept))) = Some (DevicePubkey [7])"
    "public_key (our_next_nostr_key (state (fst demo_accept))) = DevicePubkey [9]"
    unfolding demo_accept_def demo_invite_def by code_simp+
  then show "map_option public_key (our_current_nostr_key (state (fst demo_accept))) \<noteq>
      Some (public_key (our_next_nostr_key (state (fst demo_accept))))" by auto
qed (auto simp: demo_full_def demo_simps MAX_SKIP_def)

section \<open>Limits, replay and authenticity\<close>

lemma process_response_state:
  assumes "process_response cr iv rng env sk = (r, iv', rng')"
  shows "(\<exists>e. r = Inl e \<and> iv' = iv) \<or>
    (\<exists>resp. r = Inr resp \<and> ensure_accept_allowed iv (invitee_device_pubkey resp) = Inr ()
      \<and> response_content env \<notin> set (used_response_contents iv)
      \<and> iv' = record_response_content (record_use iv (invitee_device_pubkey resp)) (response_content env))"
  using assms
  by (auto simp: process_response_def Let_def then_do_res split: if_splits sum.splits prod.splits)

text \<open>The uses of an invite are distinct, in order and within its limit.\<close>

definition invite_inv :: "Invite \<Rightarrow> bool" where
  "invite_inv iv \<longleftrightarrow> distinct (used_by iv) \<and> sorted (used_by iv)
     \<and> (\<forall>mx. max_uses iv = Some mx \<longrightarrow> length (used_by iv) \<le> mx)"

lemma record_use_inv:
  assumes "invite_inv iv" "ensure_accept_allowed iv k = Inr ()"
  shows "invite_inv (record_use iv k)"
proof (cases "k \<in> set (used_by iv)")
  case False
  then have "Suc (length (used_by iv)) \<le> mx" if "max_uses iv = Some mx" for mx
    using assms(2) that by (simp add: ensure_accept_allowed_def split: if_splits)
  then show ?thesis using assms(1) False by (simp add: invite_inv_def record_use_def)
qed (use assms in \<open>simp add: record_use_def\<close>)

lemma record_response_content_fields [simp]:
  "used_by (record_response_content iv c) = used_by iv" "max_uses (record_response_content iv c) = max_uses iv"
  "set (used_response_contents (record_response_content iv c)) = insert c (set (used_response_contents iv))"
  by (auto simp: record_response_content_def)

lemma record_use_fields [simp]:
  "max_uses (record_use iv k) = max_uses iv"
  "used_response_contents (record_use iv k) = used_response_contents iv"
  "set (used_by (record_use iv k)) = insert k (set (used_by iv))"
  by (auto simp: record_use_def)

text \<open>
  The use limit of an invite: processing a response, whatever it is and whatever the outcome, keeps
  the number of distinct invitees of an invite within its \<^verbatim>\<open>max_uses\<close>; a failed response changes nothing and a
  successful one adds at most the invitee it returns.
\<close>

theorem invite_use_limit:
  assumes "invite_inv iv" "process_response cr iv rng env sk = (r, iv', rng')"
  shows "invite_inv iv' \<and> max_uses iv' = max_uses iv
    \<and> set (used_by iv') = set (used_by iv) \<union> (case r of Inl _ \<Rightarrow> {} | Inr resp \<Rightarrow> {invitee_device_pubkey resp})"
proof -
  have keep: "invite_inv (record_response_content (record_use iv k) c)"
    if "ensure_accept_allowed iv k = Inr ()" for k c
    using record_use_inv [OF assms(1) that] by (simp add: invite_inv_def)
  from process_response_state [OF assms(2)] show ?thesis
    using assms(1) keep by auto
qed

theorem invite_use_limit_witness: "invite_inv (fst (snd (process_response demo_full demo_invite [[12]] (snd demo_accept) [1])))"
proof -
  have "invite_inv demo_invite"
  proof -
    have "used_by demo_invite = []" unfolding demo_invite_def by code_simp
    then show ?thesis by (simp add: invite_inv_def)
  qed
  then show ?thesis
    using invite_use_limit [of demo_invite demo_full "[[12]]" "snd demo_accept" "[1]"]
    by (metis prod.collapse)
qed

text \<open>
  An invite response is processed once: after it was accepted, any envelope with the same content is
  refused and leaves the invite unchanged.
\<close>

theorem invite_response_replay_rejected:
  assumes "process_response cr iv rng env sk = (Inr resp, iv', rng')" "response_content env' = response_content env"
  shows "\<exists>e. process_response cr iv' rng2 env' sk2 = (Inl e, iv', snd (snd (process_response cr iv' rng2 env' sk2)))"
proof -
  have used: "response_content env' \<in> set (used_response_contents iv')"
    using process_response_state [OF assms(1)] assms(2) by auto
  obtain r iv'' rng'' where p: "process_response cr iv' rng2 env' sk2 = (r, iv'', rng'')"
    by (metis prod.exhaust)
  from process_response_state [OF this] used show ?thesis by (auto simp: p)
qed

theorem invite_response_replay_rejected_witness:
  "\<exists>e. process_response demo_full
      (fst (snd (process_response demo_full demo_invite [[12]] (snd demo_accept) [1]))) [[14]] (snd demo_accept) [1] =
     (Inl e, fst (snd (process_response demo_full demo_invite [[12]] (snd demo_accept) [1])),
      snd (snd (process_response demo_full
        (fst (snd (process_response demo_full demo_invite [[12]] (snd demo_accept) [1]))) [[14]] (snd demo_accept) [1])))"
proof -
  have "is_ok (fst (process_response demo_full demo_invite [[12]] (snd demo_accept) [1]))"
    unfolding demo_accept_def demo_invite_def by code_simp
  then obtain resp iv' rng' where "process_response demo_full demo_invite [[12]] (snd demo_accept) [1] = (Inr resp, iv', rng')"
    by (metis is_ok_iff prod.collapse)
  then show ?thesis using invite_response_replay_rejected [of demo_full demo_invite "[[12]]" "snd demo_accept" "[1]" resp iv' rng'
      "snd demo_accept" "[[14]]" "[1]"] by simp
qed

text \<open>
  What a session proof binds to a session key: the inviter, the ephemeral key of the invite, the invitee
  and the shared secret, each of a fixed length (32 bytes in the code).
\<close>

type_synonym proof_terms = "DevicePubkey \<times> DevicePubkey \<times> DevicePubkey \<times> bytes"

definition proof_input :: "DevicePubkey \<Rightarrow> proof_terms \<Rightarrow> bytes" where
  "proof_input session_key = (\<lambda>(inviter, ephemeral, invitee, secret).
     SESSION_PROOF_DOMAIN @ device_bytes inviter @ device_bytes ephemeral @ device_bytes invitee
       @ device_bytes session_key @ secret)"

definition proof_sized :: "nat \<Rightarrow> proof_terms \<Rightarrow> bool" where
  "proof_sized n = (\<lambda>(inviter, ephemeral, invitee, secret). length (device_bytes inviter) = n
     \<and> length (device_bytes ephemeral) = n \<and> length (device_bytes invitee) = n \<and> length secret = n)"

definition response_terms :: "Invite \<Rightarrow> InviteResponse \<Rightarrow> proof_terms" where
  "response_terms iv resp =
     (inviter_device_pubkey iv, inviter_ephemeral_public_key iv, invitee_device_pubkey resp, shared_secret iv)"

lemma proof_input_inj:
  assumes "proof_sized n x" "proof_sized n y" "proof_input k x = proof_input k y"
  shows "x = y"
  using assms by (auto simp: proof_input_def proof_sized_def intro: DevicePubkey.expand split: prod.splits)

lemma process_response_accepted:
  assumes "process_response cr iv rng env sk = (Inr resp, iv', rng')"
  obtains ephemeral payload where "inviter_ephemeral_private_key iv = Some ephemeral"
    "open_response cr iv ephemeral env sk = Inr (invitee_identity resp, payload)"
    "schnorr_verify cr (device_bytes (payload_session_key payload))
       (sha256 cr (proof_input (payload_session_key payload) (response_terms iv resp))) (payload_session_proof payload)"
    "new_responder cr rng (payload_session_key payload) ephemeral (shared_secret iv) = (Inr (response_session resp), rng')"
    "invitee_device_pubkey resp = DevicePubkey (invitee_identity resp)"
    "invitee_owner_pubkey resp = payload_owner_pubkey payload"
    "\<forall>ow. invitee_owner_pubkey resp = Some ow \<longrightarrow> pk_from_slice cr (owner_bytes ow) \<and> pk_xonly cr (owner_bytes ow)"
  using assms
  by (auto simp: process_response_def Let_def then_do_res check_owner_key_def result_simps response_terms_def
        proof_input_def invite_session_proof_digest_def split: if_splits sum.splits prod.splits option.splits)

lemma new_responder_peer:
  assumes "new_responder cr rng their our secret = (Inr s, rng')"
  shows "their_next_nostr_public_key (state s) = Some their" "root_key (state s) = secret"
  using assms by (auto simp: new_responder_def init_with_context_def init_responder_def session_from_state_def
      initial_state_def result_simps split: sum.splits prod.splits)

text \<open>
  C10. Authenticity of an accepted response: the returned session starts from the invite's shared secret
  and its peer key is one whose holder made a session proof for exactly this inviter, this ephemeral key,
  this invitee and this shared secret, so a proof made for another invite, inviter or invitee identity is
  never accepted, and the invitee reported to the caller is the one in the proof; a claimed owner key is a
  valid point. The hypotheses are that signatures verify under the peer key only for proofs its holder
  has made, that the hash does not collide on those proofs and this one, and that keys and secrets have
  one fixed length, 32 bytes by their Rust types.
\<close>

theorem invite_response_authenticated:
  assumes "process_response cr iv rng env sk = (Inr resp, iv', rng')"
    and "their_next_nostr_public_key (state (response_session resp)) = Some peer"
    and "\<And>d sg. schnorr_verify cr (device_bytes peer) d sg \<Longrightarrow> d \<in> (\<lambda>x. sha256 cr (proof_input peer x)) ` made"
    and "inj_on (sha256 cr) (proof_input peer ` insert (response_terms iv resp) made)"
    and "\<forall>x \<in> insert (response_terms iv resp) made. proof_sized n x"
  shows "(inviter_device_pubkey iv, inviter_ephemeral_public_key iv, invitee_device_pubkey resp, shared_secret iv) \<in> made
    \<and> root_key (state (response_session resp)) = shared_secret iv
    \<and> (\<forall>ow. invitee_owner_pubkey resp = Some ow \<longrightarrow> pk_from_slice cr (owner_bytes ow) \<and> pk_xonly cr (owner_bytes ow))"
  using assms(1)
proof (rule process_response_accepted)
  fix ephemeral payload
  assume "schnorr_verify cr (device_bytes (payload_session_key payload))
       (sha256 cr (proof_input (payload_session_key payload) (response_terms iv resp))) (payload_session_proof payload)"
    and session: "new_responder cr rng (payload_session_key payload) ephemeral (shared_secret iv) = (Inr (response_session resp), rng')"
    and owner: "\<forall>ow. invitee_owner_pubkey resp = Some ow \<longrightarrow> pk_from_slice cr (owner_bytes ow) \<and> pk_xonly cr (owner_bytes ow)"
  moreover have "payload_session_key payload = peer" using new_responder_peer(1) [OF session] assms(2) by simp
  ultimately obtain x where x: "x \<in> made"
    "sha256 cr (proof_input peer (response_terms iv resp)) = sha256 cr (proof_input peer x)"
    using assms(3) by blast
  then have "proof_input peer (response_terms iv resp) = proof_input peer x" using assms(4) by (auto dest: inj_onD)
  then have "response_terms iv resp = x" using assms(5) x(1) by (intro proof_input_inj) auto
  then show ?thesis using x(1) new_responder_peer(2) [OF session] owner by (simp add: response_terms_def)
qed

text \<open>
  Crates on which only the two proofs below verify, made by the holder of one session key for the demo
  invite and for an invite of somebody else.
\<close>

definition demo_proofs :: "proof_terms list" where
  "demo_proofs = [(DevicePubkey [1], DevicePubkey [5], DevicePubkey [2], [6]),
     (DevicePubkey [4], DevicePubkey [5], DevicePubkey [2], [6])]"

definition demo_strict :: invite_crypto where
  "demo_strict = demo_full\<lparr>sha256 := (\<lambda>bs. bs), schnorr_verify := (\<lambda>pk d sg. sg = pk @ d
     \<and> d \<in> set (map (proof_input (DevicePubkey [7])) demo_proofs))\<rparr>"

definition demo_strict_invite :: Invite where
  "demo_strict_invite = projr (fst (create_new_with_context demo_strict 50 [[5], [6]]
     (DevicePubkey [1]) None (Some 1)))"

definition demo_strict_accept :: "Session \<times> InviteResponseEnvelope" where
  "demo_strict_accept = projr (fst (accept_with_owner_context_and_device demo_strict 0 0
     ([[7], [8], [9], [10], [11]]) demo_strict_invite
     (DevicePubkey [2]) [2] (Some (OwnerPubkey [3])) None))"

definition demo_strict_response :: InviteResponse where
  "demo_strict_response = projr (fst (process_response demo_strict demo_strict_invite [[12]] (snd demo_strict_accept) [1]))"

theorem invite_response_authenticated_witness:
  "process_response demo_strict demo_strict_invite [[12]] (snd demo_strict_accept) [1] =
     (Inr demo_strict_response, fst (snd (process_response demo_strict demo_strict_invite [[12]] (snd demo_strict_accept) [1])), [])
   \<and> invitee_device_pubkey demo_strict_response = DevicePubkey [2]
   \<and> (inviter_device_pubkey demo_strict_invite, inviter_ephemeral_public_key demo_strict_invite,
        invitee_device_pubkey demo_strict_response, shared_secret demo_strict_invite) \<in> set demo_proofs
   \<and> root_key (state (response_session demo_strict_response)) = shared_secret demo_strict_invite"
proof -
  note defs = demo_strict_response_def demo_strict_accept_def demo_strict_invite_def
  let ?x = "process_response demo_strict demo_strict_invite [[12]] (snd demo_strict_accept) [1]"
  have "is_ok (fst ?x)" unfolding defs by code_simp
  moreover have "snd (snd ?x) = []" unfolding defs by code_simp
  ultimately have run: "?x = (Inr demo_strict_response, fst (snd ?x), [])"
    unfolding demo_strict_response_def by (metis is_ok_iff prod.collapse sum.sel(2))
  have who: "invitee_device_pubkey demo_strict_response = DevicePubkey [2]" unfolding defs by code_simp
  have peer: "their_next_nostr_public_key (state (response_session demo_strict_response)) = Some (DevicePubkey [7])"
    unfolding defs by code_simp
  have terms: "response_terms demo_strict_invite demo_strict_response = hd demo_proofs" unfolding defs by code_simp
  have sized: "list_all (proof_sized 1) demo_proofs" by code_simp
  have "(inviter_device_pubkey demo_strict_invite, inviter_ephemeral_public_key demo_strict_invite,
        invitee_device_pubkey demo_strict_response, shared_secret demo_strict_invite) \<in> set demo_proofs
    \<and> root_key (state (response_session demo_strict_response)) = shared_secret demo_strict_invite
    \<and> (\<forall>ow. invitee_owner_pubkey demo_strict_response = Some ow \<longrightarrow>
         pk_from_slice demo_strict (owner_bytes ow) \<and> pk_xonly demo_strict (owner_bytes ow))"
  proof (rule invite_response_authenticated [OF run peer])
    show "d \<in> (\<lambda>x. sha256 demo_strict (proof_input (DevicePubkey [7]) x)) ` set demo_proofs"
      if "schnorr_verify demo_strict (device_bytes (DevicePubkey [7])) d sg" for d sg
      using that unfolding image_set [symmetric] by (simp add: demo_strict_def)
    show "inj_on (sha256 demo_strict) (proof_input (DevicePubkey [7]) `
        insert (response_terms demo_strict_invite demo_strict_response) (set demo_proofs))"
      by (simp add: demo_strict_def)
    show "\<forall>x \<in> insert (response_terms demo_strict_invite demo_strict_response) (set demo_proofs). proof_sized 1 x"
      using sized unfolding terms by (simp add: demo_proofs_def)
  qed
  then show ?thesis using run who by blast
qed

end
