(* ===== verification/Session_Manager.thy ===== *)
theory Session_Manager
  imports Device_Record App_Keys_Index
begin

text \<open>
  The session manager (\<^verbatim>\<open>session_manager.rs\<close>, \<^verbatim>\<open>session_manager/rosters.rs\<close>, \<^verbatim>\<open>lifecycle.rs\<close> and
  \<^verbatim>\<open>sending.rs\<close>): the users a device knows, their devices, rosters and sessions, and the proofs of
  authorization it has verified. An operation takes the manager and returns its result with the manager
  as it leaves it, also when it fails. The random source of the protocol context is a list of blocks;
  the nonces that the encryption crate draws itself are numbered by a counter beside it.
\<close>

section \<open>State\<close>

record SessionManager =
  local_owner_pubkey :: OwnerPubkey
  local_device_pubkey :: DevicePubkey
  local_device_secret_key :: bytes
  local_invite :: "Invite option"
  verified_peer_app_keys :: VerifiedAppKeysIndex
  users :: "(OwnerPubkey, UserRecord) btmap"

record SessionManagerSnapshot =
  sn_local_owner_pubkey :: OwnerPubkey
  sn_local_device_pubkey :: DevicePubkey
  sn_local_invite :: "Invite option"
  sn_verified_peer_app_keys_events :: "Event list"
  sn_users :: "UserRecordSnapshot list"

record Delivery =
  delivery_owner_pubkey :: OwnerPubkey
  delivery_device_pubkey :: DevicePubkey
  delivery_envelope :: MessageEnvelope

datatype RelayGap = MissingRoster OwnerPubkey | MissingDeviceInvite OwnerPubkey DevicePubkey

text \<open>The derived order: by variant, then by fields.\<close>

definition gap_key :: "RelayGap \<Rightarrow> nat \<times> OwnerPubkey \<times> DevicePubkey" where
  "gap_key g = (case g of MissingRoster ow \<Rightarrow> (0, ow, DevicePubkey []) | MissingDeviceInvite ow k \<Rightarrow> (1, ow, k))"

lemma gap_key_inj: "gap_key g = gap_key h \<Longrightarrow> g = h"
  by (cases g; cases h) (auto simp: gap_key_def)

instantiation RelayGap :: linorder
begin
definition less_eq_RelayGap :: "RelayGap \<Rightarrow> RelayGap \<Rightarrow> bool" where
  "less_eq_RelayGap g h \<longleftrightarrow> gap_key g \<le> gap_key h"
definition less_RelayGap :: "RelayGap \<Rightarrow> RelayGap \<Rightarrow> bool" where
  "less_RelayGap g h \<longleftrightarrow> gap_key g < gap_key h"
instance
  by standard (auto simp: less_eq_RelayGap_def less_RelayGap_def intro: gap_key_inj)
end

record PreparedSend =
  recipient_owner :: OwnerPubkey
  prepared_payload :: bytes
  deliveries :: "Delivery list"
  invite_responses :: "InviteResponseEnvelope list"
  relay_gaps :: "RelayGap list"

record ProcessedInviteResponse =
  processed_owner_pubkey :: OwnerPubkey
  processed_device_pubkey :: DevicePubkey
  processed_claimed_owner :: "OwnerPubkey option"

record ReceivedMessage =
  received_owner_pubkey :: OwnerPubkey
  received_device_pubkey :: DevicePubkey
  received_payload :: bytes

record MessageSenderRecord =
  sender_owner_pubkey :: OwnerPubkey
  sender_device_pubkey :: DevicePubkey
  sender_claimed_owner :: "OwnerPubkey option"

record PruneReport =
  removed_devices :: "(OwnerPubkey \<times> DevicePubkey) list"
  removed_users :: "OwnerPubkey list"

text \<open>A send target, ordered as the derived order of the struct: by owner, then by device.\<close>

type_synonym TargetDevice = "OwnerPubkey \<times> DevicePubkey"

text \<open>The random blocks left and the number of nonces the encryption crate has drawn.\<close>

type_synonym ctx = "bytes list \<times> nat"

definition session_manager_new :: "'x crypto_scheme \<Rightarrow> OwnerPubkey \<Rightarrow> bytes \<Rightarrow> SessionManager res" where
  "session_manager_new cr owner secret =
     (case device_pubkey_from_secret_bytes cr secret of
        Inl _ \<Rightarrow> Inl Panicked
      | Inr device \<Rightarrow>
        Inr \<lparr>local_owner_pubkey = owner, local_device_pubkey = device, local_device_secret_key = secret,
             local_invite = None, verified_peer_app_keys = index_default, users = bt_empty\<rparr>)"

text \<open>The record behind \<^verbatim>\<open>entry(owner).or_insert_with(..)\<close>, and writing through the reference.\<close>

definition user_record_mut :: "SessionManager \<Rightarrow> OwnerPubkey \<Rightarrow> UserRecord" where
  "user_record_mut m owner =
     (case bt_get (users m) owner of Some u \<Rightarrow> u | None \<Rightarrow> user_record_new owner)"

definition put_user :: "OwnerPubkey \<Rightarrow> UserRecord \<Rightarrow> SessionManager \<Rightarrow> SessionManager" where
  "put_user owner u m = m\<lparr>users := bt_insert owner u (users m)\<rparr>"

section \<open>Rosters and authorization\<close>

definition owner_device_is_authorized ::
  "'x crypto_scheme \<Rightarrow> SessionManager \<Rightarrow> OwnerPubkey \<Rightarrow> DevicePubkey \<Rightarrow> bool" where
  "owner_device_is_authorized cr m owner device =
     (if owner_pubkey_from_device_pubkey device = owner then True
      else if owner = local_owner_pubkey m
      then (case bt_get (users m) owner of
              None \<Rightarrow> False
            | Some u \<Rightarrow> (case roster u of None \<Rightarrow> False | Some r \<Rightarrow> roster_get_device r device \<noteq> None))
      else case owner_to_nostr cr owner of
             Inl _ \<Rightarrow> False
           | Inr ow \<Rightarrow>
             (case device_to_nostr cr device of
                Inl _ \<Rightarrow> False
              | Inr dv \<Rightarrow> membership (verified_peer_app_keys m) ow dv = Authorized))"

definition authorized_devices_for_owner ::
  "'x crypto_scheme \<Rightarrow> SessionManager \<Rightarrow> OwnerPubkey \<Rightarrow> DevicePubkey btset" where
  "authorized_devices_for_owner cr m owner =
     (case bt_get (users m) owner of
        None \<Rightarrow> bt_empty
      | Some u \<Rightarrow>
        (case roster u of
           None \<Rightarrow> bt_empty
         | Some r \<Rightarrow> bs_of_list (map device_pubkey
             (filter (\<lambda>d. owner_device_is_authorized cr m owner (device_pubkey d)) (devices r)))))"

definition recompute_authorization_for_owner ::
  "'x crypto_scheme \<Rightarrow> SessionManager \<Rightarrow> OwnerPubkey \<Rightarrow> SessionManager" where
  "recompute_authorization_for_owner cr m owner =
     (let allowed = authorized_devices_for_owner cr m owner in
      case bt_get (users m) owner of
        None \<Rightarrow> m
      | Some u \<Rightarrow> put_user owner (recompute_authorization u allowed) m)"

definition observe_public_invite ::
  "'x crypto_scheme \<Rightarrow> SessionManager \<Rightarrow> OwnerPubkey \<Rightarrow> Invite \<Rightarrow> unit res \<times> SessionManager" where
  "observe_public_invite cr m owner iv =
     (if is_some_and (inviter_owner_pubkey iv) (\<lambda>inviter_owner. inviter_owner \<noteq> owner)
      then (Inl (Domain (InvalidState (''invite owner mismatch: expected '' @ hex_encode cr (owner_bytes owner)
              @ '', got '' @ hex_encode cr (owner_bytes (the (inviter_owner_pubkey iv)))))), m)
      else
        let public = iv\<lparr>inviter_ephemeral_private_key := None\<rparr>;
            k = inviter_device_pubkey iv;
            u = user_record_mut m owner;
            r = device_record_mut u k (invite_created_at public);
            replace = is_none_or (public_invite r)
              (\<lambda>existing. invite_created_at public \<ge> invite_created_at existing);
            r1 = r\<lparr>dr_created_at := merge_created_at (dr_created_at r) (invite_created_at public)\<rparr>;
            r2 = (if replace then r1\<lparr>public_invite := Some public\<rparr> else r1)
        in (Inr (), put_user owner (put_device k r2 u) m))"

text \<open>Devices of another user that now belong to the owner.\<close>

definition claimed_devices ::
  "'x crypto_scheme \<Rightarrow> SessionManager \<Rightarrow> OwnerPubkey \<Rightarrow> UserRecord \<Rightarrow> DevicePubkey list" where
  "claimed_devices cr m owner u =
     map dr_device_pubkey (filter (\<lambda>r.
       owner_device_is_authorized cr m owner (dr_device_pubkey r)
       \<and> (dr_claimed_owner r = Some owner
          \<or> (case roster u of None \<Rightarrow> None | Some ro \<Rightarrow> roster_get_device ro (dr_device_pubkey r)) = None))
       (bt_values (ur_devices u)))"

definition take_device ::
  "DevicePubkey \<Rightarrow> UserRecord \<times> DeviceRecord list \<Rightarrow> UserRecord \<times> DeviceRecord list" where
  "take_device k = (\<lambda>(u, migrated).
     case bt_get (ur_devices u) k of
       None \<Rightarrow> (u, migrated)
     | Some r \<Rightarrow> (u\<lparr>ur_devices := bt_remove k (ur_devices u)\<rparr>, migrated @ [r\<lparr>dr_claimed_owner := None\<rparr>]))"

definition reconcile_source ::
  "'x crypto_scheme \<Rightarrow> OwnerPubkey \<Rightarrow> OwnerPubkey \<Rightarrow>
   SessionManager \<times> DeviceRecord list \<times> OwnerPubkey list \<Rightarrow> SessionManager \<times> DeviceRecord list \<times> OwnerPubkey list" where
  "reconcile_source cr owner source = (\<lambda>(m, migrated, empty_sources).
     case bt_get (users m) source of
       None \<Rightarrow> (m, migrated, empty_sources)
     | Some u \<Rightarrow>
       (let matching = claimed_devices cr m owner u in
        if matching = [] then (m, migrated, empty_sources)
        else
          let provisional = is_some_and (roster u) (\<lambda>ro. list_all (\<lambda>d. device_pubkey d \<in> set matching
                \<and> owner_pubkey_from_device_pubkey (device_pubkey d) = source) (devices ro));
              (u', migrated') = fold take_device matching (u, migrated)
          in (put_user source u' m, migrated',
              if bt_is_empty (ur_devices u') \<and> (roster u' = None \<or> provisional)
              then empty_sources @ [source] else empty_sources)))"

definition absorb_migrated :: "UnixSeconds \<Rightarrow> DeviceRecord \<Rightarrow> UserRecord \<Rightarrow> UserRecord" where
  "absorb_migrated now r u =
     put_device (dr_device_pubkey r)
       (absorb (device_record_mut u (dr_device_pubkey r) (dr_created_at r)) r now) u"

definition reconcile_verified_claimed_devices ::
  "'x crypto_scheme \<Rightarrow> SessionManager \<Rightarrow> OwnerPubkey \<Rightarrow> UnixSeconds \<Rightarrow> SessionManager" where
  "reconcile_verified_claimed_devices cr m owner now =
     (let source_owners = filter (\<lambda>ow. ow \<noteq> owner) (bt_keys (users m));
          (m1, migrated, empty_sources) = fold (reconcile_source cr owner) source_owners (m, [], []);
          m2 = m1\<lparr>users := fold bt_remove empty_sources (users m1)\<rparr>
      in if migrated = [] then m2
         else put_user owner (fold (absorb_migrated now) migrated (user_record_mut m2 owner)) m2)"

definition apply_roster_for_owner_inner ::
  "'x crypto_scheme \<Rightarrow> SessionManager \<Rightarrow> OwnerPubkey \<Rightarrow> DeviceRoster \<Rightarrow> bool \<Rightarrow>
   RosterSnapshotDecision \<times> SessionManager" where
  "apply_roster_for_owner_inner cr m owner incoming replace_existing =
     (let u = user_record_mut m owner;
          (decision, next_roster) =
            (if replace_existing then (Advanced, incoming) else apply_roster_snapshot (roster u) incoming);
          m1 = put_user owner (u\<lparr>roster := Some next_roster\<rparr>) m;
          m2 = recompute_authorization_for_owner cr m1 owner;
          m3 = reconcile_verified_claimed_devices cr m2 owner (roster_created_at next_roster)
      in (decision, recompute_authorization_for_owner cr m3 owner))"

definition apply_roster_for_owner ::
  "'x crypto_scheme \<Rightarrow> SessionManager \<Rightarrow> OwnerPubkey \<Rightarrow> DeviceRoster \<Rightarrow> RosterSnapshotDecision \<times> SessionManager" where
  "apply_roster_for_owner cr m owner incoming = apply_roster_for_owner_inner cr m owner incoming False"

definition apply_local_roster ::
  "'x crypto_scheme \<Rightarrow> SessionManager \<Rightarrow> DeviceRoster \<Rightarrow> RosterSnapshotDecision \<times> SessionManager" where
  "apply_local_roster cr m r = apply_roster_for_owner cr m (local_owner_pubkey m) r"

definition replace_local_roster ::
  "'x crypto_scheme \<Rightarrow> SessionManager \<Rightarrow> DeviceRoster \<Rightarrow> RosterSnapshotDecision \<times> SessionManager" where
  "replace_local_roster cr m r = apply_roster_for_owner_inner cr m (local_owner_pubkey m) r True"

definition observe_peer_roster ::
  "'x crypto_scheme \<Rightarrow> SessionManager \<Rightarrow> OwnerPubkey \<Rightarrow> DeviceRoster \<Rightarrow> RosterSnapshotDecision \<times> SessionManager" where
  "observe_peer_roster cr m owner r =
     (if owner = local_owner_pubkey m then (Stale, m) else apply_roster_for_owner cr m owner r)"

definition observe_peer_app_keys_event ::
  "'x event_crypto_scheme \<Rightarrow> SessionManager \<Rightarrow> Event \<Rightarrow> UnixSeconds \<Rightarrow> bool res \<times> SessionManager" where
  "observe_peer_app_keys_event cr m ev observed_at =
     (case ingest cr (verified_peer_app_keys m) ev observed_at of
        (r, index) \<Rightarrow>
        (let m1 = m\<lparr>verified_peer_app_keys := index\<rparr> in
         case r of
           Inl e \<Rightarrow> (Inl e, m1)
         | Inr False \<Rightarrow> (Inr False, m1)
         | Inr True \<Rightarrow>
           (case app_keys_for_event index (ev_pubkey ev) (ev_id ev) of
              None \<Rightarrow> (Inl Panicked, m1)
            | Some app_keys \<Rightarrow>
              (let ro = roster_new (ev_created_at ev)
                     (map (\<lambda>d. \<lparr>device_pubkey = DevicePubkey (identity_pubkey d),
                                device_created_at = entry_created_at d\<rparr>) (get_all_devices app_keys))
               in (Inr True, snd (apply_roster_for_owner cr m1 (OwnerPubkey (ev_pubkey ev)) ro))))))"

end
