(* ===== verification/Session_Manager_Traffic.thy ===== *)
theory Session_Manager_Traffic
  imports Session_Manager
begin

text \<open>
  Sending, receiving and the remaining life cycle of the session manager (\<^verbatim>\<open>session_manager/sending.rs\<close>
  and \<^verbatim>\<open>lifecycle.rs\<close>).
\<close>

section \<open>Sending to a device\<close>

type_synonym delivery_result = "(Delivery \<times> InviteResponseEnvelope option) option res"

text \<open>An acceptance draws three nonces, a send two.\<close>

definition accept_public_invite ::
  "'x invite_crypto_scheme \<Rightarrow> SessionManager \<Rightarrow> UnixSeconds \<Rightarrow> Invite \<Rightarrow> ctx \<Rightarrow>
   (Session \<times> InviteResponseEnvelope) res \<times> ctx" where
  "accept_public_invite cr m now iv ctx =
     (case accept_with_owner_context cr (snd ctx) now (fst ctx) iv (local_device_pubkey m)
             (local_device_secret_key m) (Some (local_owner_pubkey m)) of
        (r, rng) \<Rightarrow> (r, rng, snd ctx + 3))"

definition delivery :: "OwnerPubkey \<Rightarrow> DevicePubkey \<Rightarrow> MessageEnvelope \<Rightarrow> Delivery" where
  "delivery owner k env =
     \<lparr>delivery_owner_pubkey = owner, delivery_device_pubkey = k,
      delivery_envelope = env\<lparr>env_recipient := Some k\<rparr>\<rparr>"

definition plan_send_ctx ::
  "'x session_crypto_scheme \<Rightarrow> Session \<Rightarrow> bytes \<Rightarrow> UnixSeconds \<Rightarrow> 'r \<times> ctx \<Rightarrow> SendPlan res \<times> 'r \<times> ctx" where
  "plan_send_ctx cr s payload now = (\<lambda>(r, rng, draw). (plan_send cr draw s payload now, r, rng, draw + 2))"

definition start_session ::
  "'x invite_crypto_scheme \<Rightarrow> UnixSeconds \<Rightarrow> OwnerPubkey \<Rightarrow> DevicePubkey \<Rightarrow> bytes \<Rightarrow>
   Session \<times> InviteResponseEnvelope \<Rightarrow> DeviceRecord \<times> ctx \<Rightarrow> delivery_result \<times> DeviceRecord \<times> ctx" where
  "start_session cr now owner k payload = (\<lambda>(session, response) st.
     then_do (plan_send_ctx cr session payload now st) (\<lambda>plan (r, ctx).
       case apply_send session plan of
         (session', env, _) \<Rightarrow>
           (Inr (Some (delivery owner k env, Some response)),
            upsert_session (r\<lparr>invite_response_generated := True\<rparr>) session' now, ctx)))"

definition deliver_over_invite ::
  "'x invite_crypto_scheme \<Rightarrow> SessionManager \<Rightarrow> UnixSeconds \<Rightarrow> OwnerPubkey \<Rightarrow> DevicePubkey \<Rightarrow> bytes \<Rightarrow>
   DeviceRecord \<times> ctx \<Rightarrow> delivery_result \<times> DeviceRecord \<times> ctx" where
  "deliver_over_invite cr m now owner k payload = (\<lambda>(r, ctx).
     case public_invite r of
       None \<Rightarrow> (Inr None, r, ctx)
     | Some iv \<Rightarrow>
       (case accept_public_invite cr m now iv ctx of
          (Inl e, ctx') \<Rightarrow>
            if e = Domain InviteAlreadyUsed \<or> e = Domain InviteExhausted then (Inr None, r, ctx')
            else (Inl e, r, ctx')
        | (Inr x, ctx') \<Rightarrow> start_session cr now owner k payload x (r, ctx')))"

definition deliver_over_session ::
  "'x session_crypto_scheme \<Rightarrow> UnixSeconds \<Rightarrow> OwnerPubkey \<Rightarrow> DevicePubkey \<Rightarrow> bytes \<Rightarrow> SendSessionSource \<Rightarrow>
   DeviceRecord \<times> ctx \<Rightarrow> delivery_result \<times> DeviceRecord \<times> ctx" where
  "deliver_over_session cr now owner k payload source st =
     (case session_for_send_source (fst st) source of
        None \<Rightarrow> (Inl Panicked, st)
      | Some session \<Rightarrow>
        then_do (plan_send_ctx cr session payload now st) (\<lambda>plan (r, ctx).
          case apply_send session plan of
            (session', env, _) \<Rightarrow>
              (let r1 = (case source of
                           Active \<Rightarrow> r\<lparr>active_session := Some session'\<rparr>
                         | Inactive i \<Rightarrow>
                           upsert_session (r\<lparr>inactive_sessions := remove_at i (inactive_sessions r)\<rparr>) session' now)
               in (Inr (Some (delivery owner k env, None)), r1\<lparr>last_activity := Some now\<rparr>, ctx))))"

definition should_refresh ::
  "SessionManager \<Rightarrow> OwnerPubkey \<Rightarrow> DevicePubkey \<Rightarrow> bool \<Rightarrow> DeviceRecord \<Rightarrow> bool" where
  "should_refresh m owner k refresh r \<longleftrightarrow>
     refresh \<and> owner = local_owner_pubkey m \<and> k \<noteq> local_device_pubkey m \<and> public_invite r \<noteq> None
     \<and> is_some_and (Option.bind (best_send_session_source r) (session_for_send_source r))
         is_one_way_bootstrap_session"

definition record_delivery ::
  "'x invite_crypto_scheme \<Rightarrow> SessionManager \<Rightarrow> UnixSeconds \<Rightarrow> OwnerPubkey \<Rightarrow> DevicePubkey \<Rightarrow> bytes \<Rightarrow> bool \<Rightarrow>
   DeviceRecord \<times> ctx \<Rightarrow> delivery_result \<times> DeviceRecord \<times> ctx" where
  "record_delivery cr m now owner k payload refresh = (\<lambda>(r, ctx).
     if \<not> authorized r \<or> is_stale r then (Inr None, r, ctx)
     else
       let source = best_send_session_source r;
           fall_back = (\<lambda>st. case source of
              Some src \<Rightarrow> deliver_over_session cr now owner k payload src st
            | None \<Rightarrow> deliver_over_invite cr m now owner k payload st)
       in if should_refresh m owner k refresh r
          then then_do (deliver_over_invite cr m now owner k payload (r, ctx)) (\<lambda>out st.
                 case out of Some d \<Rightarrow> (Inr (Some d), st) | None \<Rightarrow> fall_back st)
          else fall_back (r, ctx))"

text \<open>An operation on the record of a device, created when it is missing.\<close>

definition with_record ::
  "UnixSeconds \<Rightarrow> OwnerPubkey \<Rightarrow> DevicePubkey \<Rightarrow> (DeviceRecord \<times> ctx \<Rightarrow> 'a \<times> DeviceRecord \<times> ctx) \<Rightarrow>
   SessionManager \<times> ctx \<Rightarrow> 'a \<times> SessionManager \<times> ctx" where
  "with_record now owner k f = (\<lambda>(m, ctx).
     let u = user_record_mut m owner in
     case f (device_record_mut u k now, ctx) of
       (out, r, ctx') \<Rightarrow> (out, put_user owner (put_device k r u) m, ctx'))"

definition prepare_device_delivery ::
  "'x invite_crypto_scheme \<Rightarrow> UnixSeconds \<Rightarrow> OwnerPubkey \<Rightarrow> DevicePubkey \<Rightarrow> bytes \<Rightarrow> bool \<Rightarrow>
   SessionManager \<times> ctx \<Rightarrow> delivery_result \<times> SessionManager \<times> ctx" where
  "prepare_device_delivery cr now owner k payload refresh st =
     with_record now owner k (record_delivery cr (fst st) now owner k payload refresh) st"

fun deliver_inactive ::
  "'x session_crypto_scheme \<Rightarrow> UnixSeconds \<Rightarrow> OwnerPubkey \<Rightarrow> DevicePubkey \<Rightarrow> bytes \<Rightarrow> Session list \<Rightarrow>
   DeviceRecord \<times> ctx \<Rightarrow> Delivery list res \<times> DeviceRecord \<times> ctx" where
  "deliver_inactive cr now owner k payload [] st = (Inr [], st)"
| "deliver_inactive cr now owner k payload (s # ss) st =
     (if can_send s
      then then_do (plan_send_ctx cr s payload now st) (\<lambda>plan (r, ctx).
             case apply_send s plan of
               (s', env, _) \<Rightarrow>
                 then_do (deliver_inactive cr now owner k payload ss (upsert_session r s' now, ctx)) (\<lambda>ds st.
                   (Inr (delivery owner k env # ds), st)))
      else deliver_inactive cr now owner k payload ss (upsert_session (fst st) s now, snd st))"

definition deliver_active ::
  "'x session_crypto_scheme \<Rightarrow> UnixSeconds \<Rightarrow> OwnerPubkey \<Rightarrow> DevicePubkey \<Rightarrow> bytes \<Rightarrow>
   DeviceRecord \<times> ctx \<Rightarrow> Delivery list res \<times> DeviceRecord \<times> ctx" where
  "deliver_active cr now owner k payload st =
     (case active_session (fst st) of
        None \<Rightarrow> (Inr [], st)
      | Some s \<Rightarrow>
        if can_send s
        then then_do (plan_send_ctx cr s payload now st) (\<lambda>plan (r, ctx).
               case apply_send s plan of
                 (s', env, _) \<Rightarrow> (Inr [delivery owner k env], r\<lparr>active_session := Some s'\<rparr>, ctx))
        else (Inr [], st))"

definition record_deliveries_all ::
  "'x session_crypto_scheme \<Rightarrow> UnixSeconds \<Rightarrow> OwnerPubkey \<Rightarrow> DevicePubkey \<Rightarrow> bytes \<Rightarrow>
   DeviceRecord \<times> ctx \<Rightarrow> Delivery list res \<times> DeviceRecord \<times> ctx" where
  "record_deliveries_all cr now owner k payload st =
     (if \<not> authorized (fst st) \<or> is_stale (fst st) then (Inr [], st)
      else
        then_do (deliver_active cr now owner k payload st) (\<lambda>first (r, ctx).
        then_do (deliver_inactive cr now owner k payload (inactive_sessions r) (r\<lparr>inactive_sessions := []\<rparr>, ctx))
          (\<lambda>rest (r, ctx).
            (Inr (first @ rest), if first @ rest \<noteq> [] then r\<lparr>last_activity := Some now\<rparr> else r, ctx))))"

definition prepare_device_deliveries_for_all_send_sessions ::
  "'x session_crypto_scheme \<Rightarrow> UnixSeconds \<Rightarrow> OwnerPubkey \<Rightarrow> DevicePubkey \<Rightarrow> bytes \<Rightarrow>
   SessionManager \<times> ctx \<Rightarrow> Delivery list res \<times> SessionManager \<times> ctx" where
  "prepare_device_deliveries_for_all_send_sessions cr now owner k payload st =
     with_record now owner k (record_deliveries_all cr now owner k payload) st"

section \<open>Sending to users\<close>

definition collect_recipient_targets ::
  "SessionManager \<Rightarrow> OwnerPubkey \<Rightarrow> TargetDevice btset \<Rightarrow> RelayGap list \<Rightarrow> TargetDevice btset \<times> RelayGap list" where
  "collect_recipient_targets m recipient targets gaps =
     (case bt_get (users m) recipient of
        None \<Rightarrow> (targets, gaps @ [MissingRoster recipient])
      | Some u \<Rightarrow>
        if is_none_or (roster u) (\<lambda>ro. devices ro = []) then (targets, gaps @ [MissingRoster recipient])
        else (fold (\<lambda>k. bs_insert (recipient, k)) (authorized_non_stale_devices u) targets, gaps))"

definition collect_local_sibling_targets ::
  "SessionManager \<Rightarrow> TargetDevice btset \<Rightarrow> TargetDevice btset" where
  "collect_local_sibling_targets m targets =
     (case bt_get (users m) (local_owner_pubkey m) of
        None \<Rightarrow> targets
      | Some u \<Rightarrow>
        if roster u = None then targets
        else fold (\<lambda>k. bs_insert (local_owner_pubkey m, k))
               (filter (\<lambda>k. k \<noteq> local_device_pubkey m) (authorized_non_stale_devices u)) targets)"

fun send_targets ::
  "'x invite_crypto_scheme \<Rightarrow> UnixSeconds \<Rightarrow> bytes \<Rightarrow> bool \<Rightarrow> TargetDevice list \<Rightarrow> SessionManager \<times> ctx \<Rightarrow>
   (Delivery list \<times> InviteResponseEnvelope list \<times> RelayGap list) res \<times> SessionManager \<times> ctx" where
  "send_targets cr now payload refresh [] st = (Inr ([], [], []), st)"
| "send_targets cr now payload refresh ((owner, k) # ts) st =
     then_do (prepare_device_delivery cr now owner k payload refresh st) (\<lambda>out st.
     then_do (send_targets cr now payload refresh ts st) (\<lambda>(ds, rs, gs) st.
       (Inr (case out of
               Some (d, response) \<Rightarrow> (d # ds, (case response of Some x \<Rightarrow> x # rs | None \<Rightarrow> rs), gs)
             | None \<Rightarrow> (ds, rs, MissingDeviceInvite owner k # gs)), st)))"

definition prepare_explicit_send ::
  "'x invite_crypto_scheme \<Rightarrow> UnixSeconds \<Rightarrow> OwnerPubkey \<Rightarrow> TargetDevice btset \<Rightarrow> bytes \<Rightarrow> RelayGap list \<Rightarrow> bool \<Rightarrow>
   SessionManager \<times> ctx \<Rightarrow> PreparedSend res \<times> SessionManager \<times> ctx" where
  "prepare_explicit_send cr now recipient targets payload gaps refresh st =
     then_do (send_targets cr now payload refresh (bt_keys targets) st) (\<lambda>(ds, rs, gs) st.
       (Inr \<lparr>recipient_owner = recipient, prepared_payload = payload, deliveries = ds,
             invite_responses = rs, relay_gaps = sort (gaps @ gs)\<rparr>, st))"

definition prepare_send_inner ::
  "'x invite_crypto_scheme \<Rightarrow> UnixSeconds \<Rightarrow> OwnerPubkey \<Rightarrow> bytes \<Rightarrow> bool \<Rightarrow>
   SessionManager \<times> ctx \<Rightarrow> PreparedSend res \<times> SessionManager \<times> ctx" where
  "prepare_send_inner cr now recipient payload include_local_siblings st =
     (let (targets, gaps) = collect_recipient_targets (fst st) recipient bt_empty [];
          targets' = (if include_local_siblings then collect_local_sibling_targets (fst st) targets else targets)
      in prepare_explicit_send cr now recipient targets' payload gaps False st)"

definition prepare_send ::
  "'x invite_crypto_scheme \<Rightarrow> UnixSeconds \<Rightarrow> OwnerPubkey \<Rightarrow> bytes \<Rightarrow>
   SessionManager \<times> ctx \<Rightarrow> PreparedSend res \<times> SessionManager \<times> ctx" where
  "prepare_send cr now recipient payload st = prepare_send_inner cr now recipient payload True st"

definition prepare_remote_send ::
  "'x invite_crypto_scheme \<Rightarrow> UnixSeconds \<Rightarrow> OwnerPubkey \<Rightarrow> bytes \<Rightarrow>
   SessionManager \<times> ctx \<Rightarrow> PreparedSend res \<times> SessionManager \<times> ctx" where
  "prepare_remote_send cr now recipient payload st = prepare_send_inner cr now recipient payload False st"

definition prepare_remote_send_to_devices ::
  "'x invite_crypto_scheme \<Rightarrow> UnixSeconds \<Rightarrow> OwnerPubkey \<Rightarrow> DevicePubkey list \<Rightarrow> bytes \<Rightarrow>
   SessionManager \<times> ctx \<Rightarrow> PreparedSend res \<times> SessionManager \<times> ctx" where
  "prepare_remote_send_to_devices cr now recipient ks payload st =
     prepare_explicit_send cr now recipient (bs_of_list (map (\<lambda>k. (recipient, k)) ks)) payload [] False st"

definition prepare_local_sibling_send_inner ::
  "'x invite_crypto_scheme \<Rightarrow> UnixSeconds \<Rightarrow> bytes \<Rightarrow> bool \<Rightarrow>
   SessionManager \<times> ctx \<Rightarrow> PreparedSend res \<times> SessionManager \<times> ctx" where
  "prepare_local_sibling_send_inner cr now payload refresh st =
     prepare_explicit_send cr now (local_owner_pubkey (fst st))
       (collect_local_sibling_targets (fst st) bt_empty) payload [] refresh st"

definition prepare_local_sibling_send ::
  "'x invite_crypto_scheme \<Rightarrow> UnixSeconds \<Rightarrow> bytes \<Rightarrow>
   SessionManager \<times> ctx \<Rightarrow> PreparedSend res \<times> SessionManager \<times> ctx" where
  "prepare_local_sibling_send cr now payload st = prepare_local_sibling_send_inner cr now payload False st"

definition prepare_local_sibling_send_to_devices ::
  "'x invite_crypto_scheme \<Rightarrow> UnixSeconds \<Rightarrow> DevicePubkey list \<Rightarrow> bytes \<Rightarrow>
   SessionManager \<times> ctx \<Rightarrow> PreparedSend res \<times> SessionManager \<times> ctx" where
  "prepare_local_sibling_send_to_devices cr now ks payload st =
     (let owner = local_owner_pubkey (fst st)
      in prepare_explicit_send cr now owner (bs_of_list (map (\<lambda>k. (owner, k)) ks)) payload [] False st)"

definition prepare_local_sibling_send_reusing_sessions ::
  "'x invite_crypto_scheme \<Rightarrow> UnixSeconds \<Rightarrow> bytes \<Rightarrow>
   SessionManager \<times> ctx \<Rightarrow> PreparedSend res \<times> SessionManager \<times> ctx" where
  "prepare_local_sibling_send_reusing_sessions cr now payload st =
     prepare_local_sibling_send_inner cr now payload False st"

definition prepare_local_sibling_send_refreshing_one_way_sessions ::
  "'x invite_crypto_scheme \<Rightarrow> UnixSeconds \<Rightarrow> bytes \<Rightarrow>
   SessionManager \<times> ctx \<Rightarrow> PreparedSend res \<times> SessionManager \<times> ctx" where
  "prepare_local_sibling_send_refreshing_one_way_sessions cr now payload st =
     prepare_local_sibling_send_inner cr now payload True st"

fun send_targets_all ::
  "'x invite_crypto_scheme \<Rightarrow> UnixSeconds \<Rightarrow> bytes \<Rightarrow> TargetDevice list \<Rightarrow> SessionManager \<times> ctx \<Rightarrow>
   (Delivery list \<times> InviteResponseEnvelope list \<times> RelayGap list) res \<times> SessionManager \<times> ctx" where
  "send_targets_all cr now payload [] st = (Inr ([], [], []), st)"
| "send_targets_all cr now payload ((owner, k) # ts) st =
     then_do (prepare_device_deliveries_for_all_send_sessions cr now owner k payload st) (\<lambda>target_ds st.
     then_do (if target_ds = [] then prepare_device_delivery cr now owner k payload False st
              else (Inr None, st)) (\<lambda>out st.
     then_do (send_targets_all cr now payload ts st) (\<lambda>(ds, rs, gs) st.
       (Inr (if target_ds \<noteq> [] then (target_ds @ ds, rs, gs)
             else case out of
                    Some (d, response) \<Rightarrow> (d # ds, (case response of Some x \<Rightarrow> x # rs | None \<Rightarrow> rs), gs)
                  | None \<Rightarrow> (ds, rs, MissingDeviceInvite owner k # gs)), st))))"

definition prepare_local_sibling_send_reusing_all_sessions ::
  "'x invite_crypto_scheme \<Rightarrow> UnixSeconds \<Rightarrow> bytes \<Rightarrow>
   SessionManager \<times> ctx \<Rightarrow> PreparedSend res \<times> SessionManager \<times> ctx" where
  "prepare_local_sibling_send_reusing_all_sessions cr now payload st =
     then_do (send_targets_all cr now payload
       (bt_keys (collect_local_sibling_targets (fst st) bt_empty)) st) (\<lambda>(ds, rs, gs) st.
       (Inr \<lparr>recipient_owner = local_owner_pubkey (fst st), prepared_payload = payload, deliveries = ds,
             invite_responses = rs, relay_gaps = sort gs\<rparr>, st))"

definition has_authorized_local_siblings :: "SessionManager \<Rightarrow> bool" where
  "has_authorized_local_siblings m =
     (case bt_get (users m) (local_owner_pubkey m) of
        None \<Rightarrow> False
      | Some u \<Rightarrow> roster u \<noteq> None
          \<and> list_ex (\<lambda>k. k \<noteq> local_device_pubkey m) (authorized_non_stale_devices u))"

end
