(* ===== verification/Session_Manager_Lifecycle.thy ===== *)
theory Session_Manager_Lifecycle
  imports Session_Manager_Traffic
begin

text \<open>
  Receiving messages, invites, imported sessions, pruning and snapshots of the session manager
  (\<^verbatim>\<open>session_manager/lifecycle.rs\<close>).
\<close>

section \<open>Receiving\<close>

fun try_inactive ::
  "'x session_crypto_scheme \<Rightarrow> MessageEnvelope \<Rightarrow> nat \<Rightarrow> Session list \<Rightarrow> Error option \<Rightarrow> bytes list \<Rightarrow>
   (nat \<times> ReceivePlan) option \<times> Error option \<times> bytes list" where
  "try_inactive cr env index [] first_error rng = (None, first_error, rng)"
| "try_inactive cr env index (s # ss) first_error rng =
     (if \<not> matches_sender s (env_sender env) then try_inactive cr env (Suc index) ss first_error rng
      else case plan_receive cr s rng env of
             (Inr plan, rng') \<Rightarrow> (Some (index, plan), first_error, rng')
           | (Inl e, rng') \<Rightarrow> try_inactive cr env (Suc index) ss (option_or first_error (Some e)) rng')"

text \<open>The sessions of one device: the active one first, then the inactive ones in order.\<close>

definition receive_inactive ::
  "'x session_crypto_scheme \<Rightarrow> UnixSeconds \<Rightarrow> MessageEnvelope \<Rightarrow> DeviceRecord \<Rightarrow> Error option \<Rightarrow> bytes list \<Rightarrow>
   bytes option \<times> DeviceRecord \<times> Error option \<times> bytes list" where
  "receive_inactive cr now env r first_error rng =
     (case try_inactive cr env 0 (inactive_sessions r) first_error rng of
        (None, first_error, rng) \<Rightarrow> (None, r, first_error, rng)
      | (Some (index, plan), first_error, rng) \<Rightarrow>
        (case apply_receive (inactive_sessions r ! index) plan of
           (session, payload, _) \<Rightarrow>
             (Some payload,
              (promote_inactive_session (r\<lparr>inactive_sessions := remove_at index (inactive_sessions r)\<rparr>) session)
                \<lparr>last_activity := Some now\<rparr>, first_error, rng)))"

definition receive_record ::
  "'x session_crypto_scheme \<Rightarrow> UnixSeconds \<Rightarrow> MessageEnvelope \<Rightarrow> DeviceRecord \<Rightarrow> Error option \<Rightarrow> bytes list \<Rightarrow>
   bytes option \<times> DeviceRecord \<times> Error option \<times> bytes list" where
  "receive_record cr now env r first_error rng =
     (case active_session r of
        None \<Rightarrow> receive_inactive cr now env r first_error rng
      | Some s \<Rightarrow>
        if \<not> matches_sender s (env_sender env) then receive_inactive cr now env r first_error rng
        else case plan_receive cr s rng env of
               (Inr plan, rng') \<Rightarrow>
                 (case apply_receive s plan of
                    (s', payload, _) \<Rightarrow>
                      (Some payload, r\<lparr>active_session := Some s', last_activity := Some now\<rparr>, first_error, rng'))
             | (Inl e, rng') \<Rightarrow>
                 receive_inactive cr now env r (option_or first_error (Some e)) rng')"

fun receive_devices ::
  "'x session_crypto_scheme \<Rightarrow> UnixSeconds \<Rightarrow> OwnerPubkey \<Rightarrow> DevicePubkey btset \<Rightarrow> MessageEnvelope \<Rightarrow>
   DevicePubkey list \<Rightarrow> UserRecord \<Rightarrow> Error option \<Rightarrow> bytes list \<Rightarrow>
   ReceivedMessage option \<times> UserRecord \<times> Error option \<times> bytes list" where
  "receive_devices cr now owner allowed env [] u first_error rng = (None, u, first_error, rng)"
| "receive_devices cr now owner allowed env (k # ks) u first_error rng =
     (case bt_get (ur_devices u) k of
        None \<Rightarrow> (None, u, Some Panicked, rng)
      | Some r \<Rightarrow>
        if \<not> (owner_pubkey_from_device_pubkey k = owner \<or> bt_contains_key allowed k)
           \<or> \<not> authorized r \<or> is_stale r
        then receive_devices cr now owner allowed env ks u first_error rng
        else case receive_record cr now env r first_error rng of
               (Some payload, r', first_error, rng) \<Rightarrow>
                 (Some \<lparr>received_owner_pubkey = owner, received_device_pubkey = k, received_payload = payload\<rparr>,
                  put_device k r' u, first_error, rng)
             | (None, r', first_error, rng) \<Rightarrow>
                 receive_devices cr now owner allowed env ks (put_device k r' u) first_error rng)"

definition receive ::
  "'x session_crypto_scheme \<Rightarrow> UnixSeconds \<Rightarrow> SessionManager \<Rightarrow> OwnerPubkey \<Rightarrow> MessageEnvelope \<Rightarrow> bytes list \<Rightarrow>
   ReceivedMessage option res \<times> SessionManager \<times> bytes list" where
  "receive cr now m owner env rng =
     (let allowed = authorized_devices_for_owner cr m owner in
      case bt_get (users m) owner of
        None \<Rightarrow> (Inr None, m, rng)
      | Some u \<Rightarrow>
        (case receive_devices cr now owner allowed env (bt_keys (ur_devices u)) u None rng of
           (Some msg, u', _, rng') \<Rightarrow> (Inr (Some msg), put_user owner u' m, rng')
         | (None, u', Some e, rng') \<Rightarrow> (Inl e, put_user owner u' m, rng')
         | (None, u', None, rng') \<Rightarrow> (Inr None, put_user owner u' m, rng')))"

definition matching_device :: "DevicePubkey \<Rightarrow> DeviceRecord \<Rightarrow> bool" where
  "matching_device sender r \<longleftrightarrow>
     list_ex (\<lambda>s. matches_sender s sender)
       ((case active_session r of Some s \<Rightarrow> [s] | None \<Rightarrow> []) @ inactive_sessions r)"

definition message_sender_record :: "SessionManager \<Rightarrow> DevicePubkey \<Rightarrow> MessageSenderRecord option" where
  "message_sender_record m sender =
     map_option (\<lambda>(u, r). \<lparr>sender_owner_pubkey = ur_owner_pubkey u, sender_device_pubkey = dr_device_pubkey r,
                            sender_claimed_owner = dr_claimed_owner r\<rparr>)
       (find_first (\<lambda>(u, r). matching_device sender r)
          (concat (map (\<lambda>u. map (\<lambda>r. (u, r)) (bt_values (ur_devices u))) (bt_values (users m)))))"

definition manager_roster :: "SessionManager \<Rightarrow> OwnerPubkey \<Rightarrow> DeviceRoster option" where
  "manager_roster m owner = (case bt_get (users m) owner of None \<Rightarrow> None | Some u \<Rightarrow> roster u)"

section \<open>Invites and imported sessions\<close>

definition store_claimed_session ::
  "'x crypto_scheme \<Rightarrow> SessionManager \<Rightarrow> OwnerPubkey \<Rightarrow> DevicePubkey \<Rightarrow> Session \<Rightarrow> UnixSeconds \<Rightarrow>
   ProcessedInviteResponse \<times> SessionManager" where
  "store_claimed_session cr m claimed k session now =
     (let device_owner = owner_pubkey_from_device_pubkey k;
          owner = (if owner_device_is_authorized cr m claimed k then claimed else device_owner);
          provisional_claim = (if claimed \<noteq> owner then Some claimed else None);
          seed = (owner = device_owner \<and> manager_roster m owner = None);
          u = user_record_mut m owner;
          u1 = (if seed
                then u\<lparr>roster := Some (roster_new now [\<lparr>device_pubkey = k, device_created_at = now\<rparr>])\<rparr> else u);
          r = device_record_mut u1 k now;
          r1 = upsert_session (r\<lparr>dr_claimed_owner := provisional_claim, invite_response_generated := True\<rparr>)
                 session now
      in (\<lparr>processed_owner_pubkey = owner, processed_device_pubkey = k, processed_claimed_owner = provisional_claim\<rparr>,
          recompute_authorization_for_owner cr (put_user owner (put_device k r1 u1) m) owner))"

definition import_claimed_session_state ::
  "'x crypto_scheme \<Rightarrow> SessionManager \<Rightarrow> OwnerPubkey \<Rightarrow> DevicePubkey \<Rightarrow> SessionState \<Rightarrow> UnixSeconds \<Rightarrow>
   ProcessedInviteResponse \<times> SessionManager" where
  "import_claimed_session_state cr m claimed k st now =
     store_claimed_session cr m claimed k (session_from_state st) now"

definition import_session_state ::
  "'x crypto_scheme \<Rightarrow> SessionManager \<Rightarrow> OwnerPubkey \<Rightarrow> DevicePubkey \<Rightarrow> SessionState \<Rightarrow> UnixSeconds \<Rightarrow> SessionManager" where
  "import_session_state cr m owner k st now = snd (import_claimed_session_state cr m owner k st now)"

definition replace_local_invite :: "SessionManager \<Rightarrow> Invite \<Rightarrow> SessionManager" where
  "replace_local_invite m iv = m\<lparr>local_invite := Some iv\<rparr>"

definition upgrade_invite :: "UnixSeconds \<Rightarrow> Invite \<Rightarrow> Invite" where
  "upgrade_invite now iv =
     (if invite_metadata_privacy_version iv \<noteq> METADATA_PRIVACY_VERSION
      then iv\<lparr>invite_metadata_privacy_version := METADATA_PRIVACY_VERSION,
              invite_created_at := max now (saturating_add (invite_created_at iv) 1)\<rparr>
      else iv)"

definition ensure_local_invite ::
  "'x crypto_scheme \<Rightarrow> UnixSeconds \<Rightarrow> SessionManager \<times> bytes list \<Rightarrow> Invite res \<times> SessionManager \<times> bytes list" where
  "ensure_local_invite cr now = (\<lambda>(m, rng).
     case local_invite m of
       Some iv \<Rightarrow> (Inr (upgrade_invite now iv), m\<lparr>local_invite := Some (upgrade_invite now iv)\<rparr>, rng)
     | None \<Rightarrow>
       (case create_new_with_context cr now rng (local_device_pubkey m) (Some (local_owner_pubkey m)) None of
          (Inl e, rng') \<Rightarrow> (Inl e, m, rng')
        | (Inr iv, rng') \<Rightarrow>
          (case observe_public_invite cr m (local_owner_pubkey m) iv of
             (Inl e, m') \<Rightarrow> (Inl e, m', rng')
           | (Inr _, m') \<Rightarrow> (Inr iv, m'\<lparr>local_invite := Some iv\<rparr>, rng'))))"

definition observe_device_invite ::
  "'x crypto_scheme \<Rightarrow> SessionManager \<Rightarrow> OwnerPubkey \<Rightarrow> Invite \<Rightarrow> unit res \<times> SessionManager" where
  "observe_device_invite cr m owner iv = observe_public_invite cr m owner iv"

definition observe_invite_response ::
  "'x invite_crypto_scheme \<Rightarrow> UnixSeconds \<Rightarrow> InviteResponseEnvelope \<Rightarrow> SessionManager \<times> bytes list \<Rightarrow>
   ProcessedInviteResponse option res \<times> SessionManager \<times> bytes list" where
  "observe_invite_response cr now env = (\<lambda>(m, rng).
     case local_invite m of
       None \<Rightarrow> (Inr None, m, rng)
     | Some iv \<Rightarrow>
       (case process_response cr iv rng env (local_device_secret_key m) of
          (Inl e, iv', rng') \<Rightarrow> (Inl e, m, rng')
        | (Inr response, iv', rng') \<Rightarrow>
          (let m1 = m\<lparr>local_invite := Some iv'\<rparr> in
           case invitee_owner_pubkey response of
             None \<Rightarrow> (Inl (Domain (InvalidState ''invite response missing owner claim'')), m1, rng')
           | Some owner \<Rightarrow>
             (case store_claimed_session cr m1 owner (invitee_device_pubkey response)
                     (response_session response) now of
                (processed, m2) \<Rightarrow> (Inr (Some processed), m2, rng')))))"

section \<open>Pruning\<close>

definition prune_user :: "UserRecord \<Rightarrow> UserRecord" where
  "prune_user u = u\<lparr>ur_devices := bt_retain (\<lambda>_ r. \<not> is_stale r) (ur_devices u)\<rparr>"

definition keep_user :: "UserRecord \<Rightarrow> bool" where
  "keep_user u \<longleftrightarrow> \<not> bt_is_empty (ur_devices u) \<or> roster u \<noteq> None"

definition prune_stale :: "SessionManager \<Rightarrow> PruneReport \<times> SessionManager" where
  "prune_stale m =
     (\<lparr>removed_devices = sort (concat (map (\<lambda>(owner, u). map (\<lambda>(k, r). (owner, k))
          (filter (\<lambda>(k, r). is_stale r) (bt_entries (ur_devices u)))) (bt_entries (users m)))),
       removed_users = sort (map fst (filter (\<lambda>(owner, u). \<not> keep_user (prune_user u)) (bt_entries (users m))))\<rparr>,
      m\<lparr>users := bt_retain (\<lambda>_ u. keep_user u) (bt_map (\<lambda>_. prune_user) (users m))\<rparr>)"

definition delete_user :: "SessionManager \<Rightarrow> OwnerPubkey \<Rightarrow> SessionManager" where
  "delete_user m owner =
     (if owner \<noteq> local_owner_pubkey m then m\<lparr>users := bt_remove owner (users m)\<rparr> else m)"

section \<open>Snapshots\<close>

definition manager_snapshot :: "SessionManager \<Rightarrow> SessionManagerSnapshot" where
  "manager_snapshot m =
     \<lparr>sn_local_owner_pubkey = local_owner_pubkey m, sn_local_device_pubkey = local_device_pubkey m,
      sn_local_invite = local_invite m,
      sn_verified_peer_app_keys_events = index_events (verified_peer_app_keys m),
      sn_users = map user_snapshot (bt_values (users m))\<rparr>"

definition restore_index :: "'x event_crypto_scheme \<Rightarrow> Event list \<Rightarrow> VerifiedAppKeysIndex" where
  "restore_index cr evs = fold (\<lambda>ev index. snd (ingest cr index ev (ev_created_at ev))) evs index_default"

definition restore_verified_owner ::
  "'x crypto_scheme \<Rightarrow> OwnerPubkey \<Rightarrow> SessionManager \<Rightarrow> SessionManager" where
  "restore_verified_owner cr owner m =
     (let now = (case owner_to_nostr cr owner of
                   Inl _ \<Rightarrow> 0
                 | Inr ow \<Rightarrow> (case head_created_at (verified_peer_app_keys m) ow of Some t \<Rightarrow> t | None \<Rightarrow> 0))
      in recompute_authorization_for_owner cr (reconcile_verified_claimed_devices cr m owner now) owner)"

definition manager_from_snapshot ::
  "'x event_crypto_scheme \<Rightarrow> SessionManagerSnapshot \<Rightarrow> bytes \<Rightarrow> SessionManager res" where
  "manager_from_snapshot cr snapshot secret =
     and_then (device_pubkey_from_secret_bytes cr secret) (\<lambda>derived.
       if derived \<noteq> sn_local_device_pubkey snapshot
       then Inl (Domain (InvalidState ''snapshot local device pubkey does not match provided secret key''))
       else
         let index = restore_index cr (sn_verified_peer_app_keys_events snapshot);
             m = \<lparr>local_owner_pubkey = sn_local_owner_pubkey snapshot,
                  local_device_pubkey = sn_local_device_pubkey snapshot,
                  local_device_secret_key = secret, local_invite = sn_local_invite snapshot,
                  verified_peer_app_keys = index,
                  users = bt_of_list (map (\<lambda>u. (ur_owner_pubkey u, u))
                            (map user_from_snapshot (sn_users snapshot)))\<rparr>;
             m1 = fold (\<lambda>owner m. recompute_authorization_for_owner cr m owner) (bt_keys (users m)) m;
             verified_owners = map OwnerPubkey (index_owners index)
         in Inr (fold (restore_verified_owner cr) verified_owners m1))"

end
