(* ===== verification/Device_Record_Properties.thy ===== *)
theory Device_Record_Properties
  imports Device_Record Full_Instance
begin

text \<open>
  Facts on device and user records: the choice of the session to send over, storing of sessions
  without duplicates, the bound on inactive sessions, and what a recomputation of authorization yields.
\<close>

section \<open>Sessions of a record\<close>

definition record_sessions :: "DeviceRecord \<Rightarrow> Session list" where
  "record_sessions r = (case active_session r of Some s \<Rightarrow> [s] | None \<Rightarrow> []) @ inactive_sessions r"

abbreviation record_states :: "DeviceRecord \<Rightarrow> SessionState list" where
  "record_states r \<equiv> map state (record_sessions r)"

lemma contains_state_iff: "contains_state r st \<longleftrightarrow> st \<in> set (record_states r)"
  by (cases "active_session r") (auto simp: contains_state_def record_sessions_def list_ex_iff)

lemma set_compact_loop:
  "state ` set (compact_loop a us ss) = state ` set ss - (set us \<union> set_option a)"
proof (induction a us ss rule: compact_loop.induct)
  case (2 a us s ss)
  show ?case
  proof (cases "is_some_and a (\<lambda>st. st = state s) \<or> state s \<in> set us")
    case True
    then show ?thesis using 2(1) by (cases a) auto
  next
    case False
    then show ?thesis using 2(2) by (cases a) auto
  qed
qed simp

lemma distinct_compact_loop: "distinct (map state (compact_loop a us ss))"
proof (induction a us ss rule: compact_loop.induct)
  case (2 a us s ss)
  then show ?case using set_compact_loop [of a "us @ [state s]" ss] by auto
qed simp

lemma compact_loop_subset: "set (compact_loop a us ss) \<subseteq> set ss"
  by (induction a us ss rule: compact_loop.induct) auto

lemma length_compact_loop: "length (compact_loop a us ss) \<le> length ss"
  by (induction a us ss rule: compact_loop.induct) auto

lemma compact_fields [simp]:
  "active_session (compact_duplicate_sessions r) = active_session r"
  "authorized (compact_duplicate_sessions r) = authorized r"
  "is_stale (compact_duplicate_sessions r) = is_stale r"
  "dr_device_pubkey (compact_duplicate_sessions r) = dr_device_pubkey r"
  "length (inactive_sessions (compact_duplicate_sessions r)) \<le> length (inactive_sessions r)"
  by (simp_all add: compact_duplicate_sessions_def length_compact_loop)

lemma compact_states:
  "set (record_states (compact_duplicate_sessions r)) = set (record_states r)"
  "distinct (record_states (compact_duplicate_sessions r))"
  using set_compact_loop [of "map_option state (active_session r)" "[]" "inactive_sessions r"]
  by (cases "active_session r";
      force simp: record_sessions_def compact_duplicate_sessions_def distinct_compact_loop)+

lemma truncate_fields [simp]:
  "active_session (truncate_inactive r) = active_session r"
  "authorized (truncate_inactive r) = authorized r"
  "is_stale (truncate_inactive r) = is_stale r"
  "dr_device_pubkey (truncate_inactive r) = dr_device_pubkey r"
  "length (inactive_sessions (truncate_inactive r)) \<le> MAX_INACTIVE_SESSIONS"
  by (simp_all add: truncate_inactive_def)

lemma truncate_states:
  "\<exists>n. record_states (truncate_inactive r) = take n (record_states r)"
  "length (inactive_sessions r) \<le> MAX_INACTIVE_SESSIONS \<Longrightarrow> truncate_inactive r = r"
proof -
  show "\<exists>n. record_states (truncate_inactive r) = take n (record_states r)"
  proof (cases "length (inactive_sessions r) > MAX_INACTIVE_SESSIONS")
    case True
    then show ?thesis
      by (intro exI [of _ "length (case active_session r of Some s \<Rightarrow> [s] | None \<Rightarrow> []) + MAX_INACTIVE_SESSIONS"])
         (simp add: truncate_inactive_def record_sessions_def take_map split: option.splits)
  next
    case False
    then show ?thesis by (intro exI [of _ "length (record_states r)"]) (simp add: truncate_inactive_def)
  qed
qed (simp add: truncate_inactive_def)

section \<open>Fields that storing a session keeps\<close>

lemma place_fields [simp]:
  "authorized (place_session r s) = authorized r"
  "is_stale (place_session r s) = is_stale r"
  "dr_device_pubkey (place_session r s) = dr_device_pubkey r"
  by (simp_all add: place_session_def Let_def split: option.splits)

lemma place_states: "set (record_states (place_session r s)) = insert (state s) (set (record_states r))"
  by (auto simp: place_session_def Let_def record_sessions_def split: option.splits)

lemma touch_states [simp]: "record_sessions (r\<lparr>last_activity := t\<rparr>) = record_sessions r"
  by (simp add: record_sessions_def)

lemma upsert_fields [simp]:
  "authorized (upsert_session r s now) = authorized r"
  "is_stale (upsert_session r s now) = is_stale r"
  "dr_device_pubkey (upsert_session r s now) = dr_device_pubkey r"
  by (simp_all add: upsert_session_def)

lemma upsert_bound:
  "length (inactive_sessions r) \<le> MAX_INACTIVE_SESSIONS \<Longrightarrow>
   length (inactive_sessions (upsert_session r s now)) \<le> MAX_INACTIVE_SESSIONS"
  using order_trans [OF compact_fields(5) [of r]] by (auto simp: upsert_session_def)

lemma promote_fields [simp]:
  "authorized (promote_inactive_session r s) = authorized r"
  "is_stale (promote_inactive_session r s) = is_stale r"
  "dr_device_pubkey (promote_inactive_session r s) = dr_device_pubkey r"
  "length (inactive_sessions (promote_inactive_session r s)) \<le> MAX_INACTIVE_SESSIONS"
  by (simp_all add: promote_inactive_session_def Let_def split: option.splits)

lemma fold_upsert_fields:
  "dr_device_pubkey (fold (\<lambda>s r. upsert_session r s now) ss r) = dr_device_pubkey r"
  "length (inactive_sessions r) \<le> MAX_INACTIVE_SESSIONS \<Longrightarrow>
   length (inactive_sessions (fold (\<lambda>s r. upsert_session r s now) ss r)) \<le> MAX_INACTIVE_SESSIONS"
  by (induction ss arbitrary: r) (simp_all add: upsert_bound)

lemma absorb_fields [simp]:
  "dr_device_pubkey (absorb r other now) = dr_device_pubkey r"
  by (simp add: absorb_def Let_def fold_upsert_fields split: option.splits)

lemma absorb_bound:
  assumes "length (inactive_sessions r) \<le> MAX_INACTIVE_SESSIONS"
  shows "length (inactive_sessions (absorb r other now)) \<le> MAX_INACTIVE_SESSIONS"
  using assms by (auto simp: absorb_def Let_def split: option.splits intro!: fold_upsert_fields(2) upsert_bound)

section \<open>The session to send over\<close>

text \<open>The best entry so far is kept unless a later sendable session has a strictly higher priority.\<close>

definition best_ok :: "(SendSessionSource \<Rightarrow> Session option) \<Rightarrow> Session set \<Rightarrow>
    (SendSessionSource \<times> priority) option \<Rightarrow> bool" where
  "best_ok look S best \<longleftrightarrow> (case best of
      None \<Rightarrow> \<forall>s \<in> S. \<not> can_send s
    | Some b \<Rightarrow> (\<exists>s. look (fst b) = Some s \<and> can_send s \<and> session_priority s = snd b)
        \<and> (\<forall>s \<in> S. can_send s \<longrightarrow> session_priority s \<le> snd b))"

lemma best_ok_step:
  assumes "best_ok look S best" "look src = Some s"
  shows "best_ok look (insert s S)
    (if \<not> can_send s then best
     else if is_none_or best (\<lambda>(_, current). session_priority s > current) then Some (src, session_priority s)
     else best)"
proof (cases best)
  case (Some b)
  then show ?thesis using assms by (auto simp: best_ok_def case_prod_beta not_less dest: order_trans less_imp_le)
qed (use assms in \<open>auto simp: best_ok_def\<close>)

lemma best_inactive_ok:
  assumes "best_ok look S best" "\<And>i. i < length ss \<Longrightarrow> look (Inactive (n + i)) = Some (ss ! i)"
  shows "best_ok look (S \<union> set ss) (best_inactive n ss best)"
  using assms
proof (induction ss arbitrary: n S best)
  case (Cons s ss)
  have later: "look (Inactive (Suc n + i)) = Some (ss ! i)" if "i < length ss" for i
    using Cons.prems(2) [of "Suc i"] that by simp
  have "look (Inactive n) = Some s" using Cons.prems(2) [of 0] by simp
  from best_ok_step [OF Cons.prems(1) this] have "best_ok look (insert s S \<union> set ss)
      (best_inactive (Suc n) ss (if \<not> can_send s then best
        else if is_none_or best (\<lambda>(_, current). session_priority s > current)
        then Some (Inactive n, session_priority s) else best))"
    using Cons.IH later by blast
  then show ?case by (auto split: if_splits)
qed simp

lemma best_send_cases:
  "case best_send_session_source r of
     None \<Rightarrow> \<forall>s \<in> set (record_sessions r). \<not> can_send s
   | Some src \<Rightarrow> \<exists>s. session_for_send_source r src = Some s \<and> can_send s
       \<and> (\<forall>s' \<in> set (record_sessions r). can_send s' \<longrightarrow> session_priority s' \<le> session_priority s)"
proof -
  let ?best = "case active_session r of
      Some s \<Rightarrow> if can_send s then Some (Active, session_priority s) else None | None \<Rightarrow> None"
  have "best_ok (session_for_send_source r) (set_option (active_session r)) ?best"
    by (auto simp: best_ok_def session_for_send_source_def split: option.splits)
  then have "best_ok (session_for_send_source r) (set (record_sessions r))
      (best_inactive 0 (inactive_sessions r) ?best)"
    using best_inactive_ok [of "session_for_send_source r" "set_option (active_session r)" ?best
        "inactive_sessions r" 0]
    by (cases "active_session r") (simp_all add: session_for_send_source_def list_get_def record_sessions_def)
  then show ?thesis
    unfolding best_send_session_source_def Let_def best_ok_def by (auto split: option.splits)
qed

text \<open>
  The session a message is sent over: a session that can send, with the highest priority
  (two-way before one-way, then the most received and sent messages) among all sessions of the device
  that can send; none is chosen only when no session can send.
\<close>

theorem best_send_session_optimal:
  assumes "s \<in> set (record_sessions r)" "can_send s"
  shows "\<exists>src best. best_send_session_source r = Some src \<and> session_for_send_source r src = Some best
    \<and> best \<in> set (record_sessions r) \<and> can_send best \<and> session_priority s \<le> session_priority best"
proof -
  obtain src best where b: "best_send_session_source r = Some src" "session_for_send_source r src = Some best"
    "can_send best" "session_priority s \<le> session_priority best"
    using best_send_cases [of r] assms by (cases "best_send_session_source r") auto
  then have "best \<in> set (record_sessions r)"
    by (auto simp: session_for_send_source_def record_sessions_def list_get_def
        split: SendSessionSource.splits option.splits if_splits)
  then show ?thesis using b by blast
qed

definition demo_session :: "u8 \<Rightarrow> bytes option \<Rightarrow> Session" where
  "demo_session i ck = session_from_state (initial_state [i] ck
     (Some \<lparr>public_key = DevicePubkey [i], private_key = [i]\<rparr>)
     \<lparr>public_key = DevicePubkey [i], private_key = [i]\<rparr> (DevicePubkey [i]))"

definition demo_record :: DeviceRecord where
  "demo_record = (device_record_new (DevicePubkey [1]) 5)\<lparr>active_session := Some (demo_session 0 None),
     inactive_sessions := map (\<lambda>i. demo_session i None) [1, 2, 3, 4, 5, 6, 7, 8, 9, 10]\<rparr>"

theorem best_send_session_optimal_witness:
  "\<exists>src best. best_send_session_source (upsert_session (demo_record\<lparr>inactive_sessions := []\<rparr>) (demo_session 11 (Some [1])) 9) = Some src
    \<and> session_for_send_source (upsert_session (demo_record\<lparr>inactive_sessions := []\<rparr>) (demo_session 11 (Some [1])) 9) src = Some best
    \<and> best \<in> set (record_sessions (upsert_session (demo_record\<lparr>inactive_sessions := []\<rparr>) (demo_session 11 (Some [1])) 9))
    \<and> can_send best \<and> session_priority (demo_session 11 (Some [1])) \<le> session_priority best"
proof (rule best_send_session_optimal)
  show "demo_session 11 (Some [1]) \<in>
      set (record_sessions (upsert_session (demo_record\<lparr>inactive_sessions := []\<rparr>) (demo_session 11 (Some [1])) 9))"
    by code_simp
  show "can_send (demo_session 11 (Some [1]))" by code_simp
qed

section \<open>Storing a session\<close>

lemma upsert_states:
  "distinct (record_states (upsert_session r s now))"
  "set (record_states (upsert_session r s now)) \<subseteq> insert (state s) (set (record_states r))"
proof -
  let ?r1 = "compact_duplicate_sessions (place_session r s)"
  obtain n where n: "record_states (truncate_inactive ?r1) = take n (record_states ?r1)"
    using truncate_states(1) by blast
  show "distinct (record_states (upsert_session r s now))"
    using n compact_states(2) [of r] compact_states(2) [of "place_session r s"]
    by (simp add: upsert_session_def distinct_take)
  have "set (record_states (truncate_inactive ?r1)) \<subseteq> insert (state s) (set (record_states r))"
    using set_take_subset [of n "record_states ?r1"] unfolding n compact_states(1) place_states .
  then show "set (record_states (upsert_session r s now)) \<subseteq> insert (state s) (set (record_states r))"
    using compact_states(1) [of r] by (auto simp: upsert_session_def)
qed

lemma upsert_facts:
  shows "distinct (record_states (upsert_session r s now))"
    and "set (record_states (upsert_session r s now)) \<subseteq> insert (state s) (set (record_states r))"
    and "length (inactive_sessions r) < MAX_INACTIVE_SESSIONS \<Longrightarrow>
      set (record_states (upsert_session r s now)) = insert (state s) (set (record_states r))"
    and "active_session r = Some a \<Longrightarrow> \<exists>a'. active_session (upsert_session r s now) = Some a'
      \<and> session_priority a \<le> session_priority a' \<and> (a' = a \<or> a' = s)"
proof -
  show "set (record_states (upsert_session r s now)) = insert (state s) (set (record_states r))"
    if "length (inactive_sessions r) < MAX_INACTIVE_SESSIONS"
  proof (cases "contains_state r (state s)")
    case True
    then show ?thesis
      using compact_states(1) [of r] unfolding contains_state_iff
      by (simp add: upsert_session_def contains_state_iff insert_absorb)
  next
    case False
    have "length (inactive_sessions (place_session r s)) \<le> MAX_INACTIVE_SESSIONS"
      using that by (auto simp: place_session_def Let_def split: option.splits)
    then have "length (inactive_sessions (compact_duplicate_sessions (place_session r s))) \<le> MAX_INACTIVE_SESSIONS"
      using order_trans [OF compact_fields(5)] by blast
    then show ?thesis
      using False compact_states(1) [of "place_session r s"] place_states [of r s]
      by (simp add: upsert_session_def truncate_states(2))
  qed
  show "\<exists>a'. active_session (upsert_session r s now) = Some a'
      \<and> session_priority a \<le> session_priority a' \<and> (a' = a \<or> a' = s)" if "active_session r = Some a"
    using that by (auto simp: upsert_session_def place_session_def Let_def not_le intro: less_imp_le)
qed (rule upsert_states)+

text \<open>
  Storing a session with a device: afterwards no ratchet state is stored twice and none appears that
  was not there before; while fewer than the maximum of inactive sessions are stored nothing is lost and
  the new session is there; the active session is only ever replaced by one of higher priority.
\<close>

theorem upsert_session_spec:
  "distinct (record_states (upsert_session r s now))
    \<and> set (record_states (upsert_session r s now)) \<subseteq> insert (state s) (set (record_states r))
    \<and> (length (inactive_sessions r) < MAX_INACTIVE_SESSIONS \<longrightarrow>
        set (record_states (upsert_session r s now)) = insert (state s) (set (record_states r)))
    \<and> (\<forall>a. active_session r = Some a \<longrightarrow> (\<exists>a'. active_session (upsert_session r s now) = Some a'
        \<and> session_priority a \<le> session_priority a' \<and> (a' = a \<or> a' = s)))"
  using upsert_facts by blast

theorem upsert_session_spec_witness:
  "set (record_states (upsert_session (demo_record\<lparr>inactive_sessions := []\<rparr>) (demo_session 11 None) 9)) =
     insert (state (demo_session 11 None)) (set (record_states (demo_record\<lparr>inactive_sessions := []\<rparr>)))"
  using upsert_session_spec [of "demo_record\<lparr>inactive_sessions := []\<rparr>" "demo_session 11 None" 9]
  by (simp add: MAX_INACTIVE_SESSIONS_def)

text \<open>
  C12. With a full list of inactive sessions, a further session that does not outrank the active one is
  not stored at all: truncation keeps the oldest entries, so the session that was just established is
  the one discarded.
\<close>

theorem upsert_session_full_discards:
  assumes "length (inactive_sessions r) = MAX_INACTIVE_SESSIONS" "distinct (record_states r)"
    and "active_session r = Some a" "\<not> contains_state r (state s)" "session_priority s \<le> session_priority a"
  shows "record_sessions (upsert_session r s now) = record_sessions r"
proof -
  have compact: "compact_loop (Some st) us ss = ss"
    if "distinct (map state ss)" "st \<notin> state ` set ss" "set us \<inter> state ` set ss = {}" for st us ss
    using that by (induction ss arbitrary: us) (auto simp: disjoint_iff)
  have "compact_duplicate_sessions (place_session r s) = place_session r s"
    using assms by (auto simp: compact_duplicate_sessions_def place_session_def Let_def record_sessions_def
        contains_state_iff intro!: DeviceRecord.equality compact)
  then show ?thesis
    using assms by (simp add: upsert_session_def truncate_inactive_def place_session_def Let_def record_sessions_def)
qed

theorem upsert_session_full_discards_witness:
  "record_sessions (upsert_session demo_record (demo_session 11 None) 9) = record_sessions demo_record"
proof (rule upsert_session_full_discards [where a = "demo_session 0 None"])
  show "length (inactive_sessions demo_record) = MAX_INACTIVE_SESSIONS" by code_simp
  show "distinct (record_states demo_record)" by code_simp
  show "active_session demo_record = Some (demo_session 0 None)" by (simp add: demo_record_def)
  show "\<not> contains_state demo_record (state (demo_session 11 None))" by code_simp
  show "session_priority (demo_session 11 None) \<le> session_priority (demo_session 0 None)" by code_simp
qed

end
