(* ===== verification/Session_Manager_Invariants.thy ===== *)
theory Session_Manager_Invariants
  imports Session_Manager_Lifecycle Device_Record_Properties
begin

text \<open>
  The invariant of the session manager: records are stored under their own keys, the number of inactive
  sessions is bounded, and a device is marked authorized for an owner only when the manager holds a
  proof of it. Operations are grouped by what they may change: the ones that only touch sessions and
  invites, the ones that change rosters, and the one that adds evidence.
\<close>

section \<open>The invariant\<close>

definition device_ok :: "DevicePubkey \<Rightarrow> DeviceRecord \<Rightarrow> bool" where
  "device_ok k r \<longleftrightarrow> dr_device_pubkey r = k \<and> length (inactive_sessions r) \<le> MAX_INACTIVE_SESSIONS"

definition user_ok :: "OwnerPubkey \<Rightarrow> UserRecord \<Rightarrow> bool" where
  "user_ok owner u \<longleftrightarrow> ur_owner_pubkey u = owner \<and> (\<forall>k r. bt_get (ur_devices u) k = Some r \<longrightarrow> device_ok k r)"

definition users_ok :: "SessionManager \<Rightarrow> bool" where
  "users_ok m \<longleftrightarrow> (\<forall>owner u. bt_get (users m) owner = Some u \<longrightarrow> user_ok owner u)"

text \<open>The record of a device of an owner.\<close>

definition device_of :: "SessionManager \<Rightarrow> OwnerPubkey \<Rightarrow> DevicePubkey \<Rightarrow> DeviceRecord option" where
  "device_of m owner k =
     (case bt_get (users m) owner of None \<Rightarrow> None | Some u \<Rightarrow> bt_get (ur_devices u) k)"

definition proved_at :: "'x crypto_scheme \<Rightarrow> SessionManager \<Rightarrow> OwnerPubkey \<Rightarrow> bool" where
  "proved_at cr m owner \<longleftrightarrow> (\<forall>k r. device_of m owner k = Some r \<longrightarrow> authorized r \<longrightarrow>
     \<not> is_stale r \<and> owner_device_is_authorized cr m owner k)"

lemma user_okD: "user_ok owner u \<Longrightarrow> bt_get (ur_devices u) k = Some r \<Longrightarrow> device_ok k r"
  by (simp add: user_ok_def)

lemma users_okD: "users_ok m \<Longrightarrow> bt_get (users m) owner = Some u \<Longrightarrow> user_ok owner u"
  by (simp add: users_ok_def)

lemma device_ok_new: "device_ok k (device_record_new k t)"
  by (simp add: device_ok_def device_record_new_def)

lemma user_ok_new: "user_ok owner (user_record_new owner)"
  by (simp add: user_ok_def user_record_new_def)

lemma user_record_mut_ok: "users_ok m \<Longrightarrow> user_ok owner (user_record_mut m owner)"
  by (auto simp: user_record_mut_def user_ok_new users_ok_def split: option.splits)

lemma device_record_mut_ok: "user_ok owner u \<Longrightarrow> device_ok k (device_record_mut u k t)"
  by (auto simp: device_record_mut_def device_ok_new dest: user_okD split: option.splits)

lemma put_device_ok: "user_ok owner u \<Longrightarrow> device_ok k r \<Longrightarrow> user_ok owner (put_device k r u)"
  by (simp add: user_ok_def put_device_def)

lemma put_user_ok: "users_ok m \<Longrightarrow> user_ok owner u \<Longrightarrow> users_ok (put_user owner u m)"
  by (simp add: users_ok_def put_user_def)

lemma put_user_simps [simp]:
  "local_owner_pubkey (put_user owner u m) = local_owner_pubkey m"
  "local_device_pubkey (put_user owner u m) = local_device_pubkey m"
  "local_device_secret_key (put_user owner u m) = local_device_secret_key m"
  "local_invite (put_user owner u m) = local_invite m"
  "verified_peer_app_keys (put_user owner u m) = verified_peer_app_keys m"
  "bt_get (users (put_user owner u m)) ow = (if ow = owner then Some u else bt_get (users m) ow)"
  "device_of (put_user owner u m) ow k = (if ow = owner then bt_get (ur_devices u) k else device_of m ow k)"
  "manager_roster (put_user owner u m) ow = (if ow = owner then roster u else manager_roster m ow)"
  by (simp_all add: put_user_def device_of_def manager_roster_def)

lemma put_device_simps [simp]:
  "ur_owner_pubkey (put_device k r u) = ur_owner_pubkey u"
  "roster (put_device k r u) = roster u"
  "bt_get (ur_devices (put_device k r u)) k' = (if k' = k then Some r else bt_get (ur_devices u) k')"
  by (simp_all add: put_device_def)

lemma user_record_mut_simps:
  "roster (user_record_mut m owner) = manager_roster m owner"
  "bt_get (ur_devices (user_record_mut m owner)) k = device_of m owner k"
  by (simp_all add: user_record_mut_def manager_roster_def device_of_def user_record_new_def split: option.splits)

text \<open>Authorization of an owner's device rests on the local owner's roster or on the verified index.\<close>

lemma authorized_cong:
  assumes "local_owner_pubkey m' = local_owner_pubkey m"
    and "owner = local_owner_pubkey m \<Longrightarrow> manager_roster m' owner = manager_roster m owner"
    and "owner \<noteq> local_owner_pubkey m \<Longrightarrow>
      bt_get (heads (verified_peer_app_keys m')) (owner_bytes owner) = bt_get (heads (verified_peer_app_keys m)) (owner_bytes owner)"
  shows "owner_device_is_authorized cr m' owner k = owner_device_is_authorized cr m owner k"
proof (cases "owner = local_owner_pubkey m")
  case True
  have "owner_device_is_authorized cr x owner k \<longleftrightarrow> owner_pubkey_from_device_pubkey k = owner
      \<or> is_some_and (manager_roster x owner) (\<lambda>r. roster_get_device r k \<noteq> None)"
    if "owner = local_owner_pubkey x" for x
    using that by (auto simp: owner_device_is_authorized_def manager_roster_def split: option.splits)
  from this [of m] this [of m'] show ?thesis using True assms(1,2) by simp
next
  case False
  have "ow = owner_bytes owner" if "owner_to_nostr cr owner = Inr ow" for ow
    using that by (auto simp: owner_to_nostr_def split: if_splits)
  then show ?thesis
    using False assms by (auto simp: owner_device_is_authorized_def membership_def split: sum.splits)
qed

lemma allowed_iff:
  "bt_contains_key (authorized_devices_for_owner cr m owner) k \<longleftrightarrow>
     owner_device_is_authorized cr m owner k
     \<and> (\<exists>ro. manager_roster m owner = Some ro \<and> k \<in> device_pubkey ` set (devices ro))"
proof (cases "manager_roster m owner")
  case None
  then show ?thesis
    by (auto simp: authorized_devices_for_owner_def manager_roster_def bt_contains_key_def split: option.splits)
next
  case (Some ro)
  then have "authorized_devices_for_owner cr m owner = bs_of_list (map device_pubkey
      (filter (\<lambda>d. owner_device_is_authorized cr m owner (device_pubkey d)) (devices ro)))"
    by (cases "bt_get (users m) owner") (simp_all add: authorized_devices_for_owner_def manager_roster_def)
  then show ?thesis using Some by (auto simp only: bs_of_list_mem set_map set_filter)
qed

section \<open>Recomputing authorization\<close>

definition recomputed :: "OwnerPubkey \<Rightarrow> DevicePubkey btset \<Rightarrow> DevicePubkey \<Rightarrow> DeviceRecord \<Rightarrow> bool" where
  "recomputed owner allowed k r \<longleftrightarrow> device_ok k r
     \<and> authorized r = (owner_pubkey_from_device_pubkey k = owner \<or> bt_contains_key allowed k)
     \<and> (authorized r \<longrightarrow> \<not> is_stale r)"

definition recomputed_user :: "OwnerPubkey \<Rightarrow> DevicePubkey btset \<Rightarrow> UserRecord \<Rightarrow> bool" where
  "recomputed_user owner allowed u \<longleftrightarrow> ur_owner_pubkey u = owner
     \<and> (\<forall>k r. bt_get (ur_devices u) k = Some r \<longrightarrow> recomputed owner allowed k r)"

lemma recomputed_user_ok: "recomputed_user owner allowed u \<Longrightarrow> user_ok owner u"
  by (simp add: recomputed_user_def user_ok_def recomputed_def)

lemma recompute_record_ok:
  "device_ok k r \<Longrightarrow> recomputed owner allowed k (recompute_record owner t allowed r)"
  by (auto simp: recompute_record_def recomputed_def device_ok_def Let_def split: option.splits)

lemma recompute_listed_ok:
  assumes "recomputed_user owner allowed u"
  shows "recomputed_user owner allowed (recompute_listed allowed d u) \<and> roster (recompute_listed allowed d u) = roster u"
proof -
  have "device_ok (device_pubkey d) (device_record_mut u (device_pubkey d) (device_created_at d))"
    using device_record_mut_ok recomputed_user_ok [OF assms] by blast
  then show ?thesis
    using assms by (auto simp: recompute_listed_def recomputed_user_def recomputed_def device_ok_def Let_def)
qed

lemma recompute_authorization_ok:
  assumes "user_ok owner u"
  shows "recomputed_user owner allowed (recompute_authorization u allowed)
    \<and> roster (recompute_authorization u allowed) = roster u"
proof -
  have "recomputed_user owner allowed (fold (recompute_listed allowed) ds v)
      \<and> roster (fold (recompute_listed allowed) ds v) = roster v" if "recomputed_user owner allowed v" for ds v
    using that by (induction ds arbitrary: v) (simp_all add: recompute_listed_ok)
  moreover have "recomputed_user owner allowed (u\<lparr>ur_devices := bt_map (\<lambda>_. recompute_record (ur_owner_pubkey u)
      (map_option roster_created_at (roster u)) allowed) (ur_devices u)\<rparr>)"
    using assms recompute_record_ok by (auto simp: recomputed_user_def user_ok_def)
  ultimately show ?thesis by (simp add: recompute_authorization_def Let_def)
qed

definition same_setting :: "SessionManager \<Rightarrow> SessionManager \<Rightarrow> bool" where
  "same_setting m m' \<longleftrightarrow> local_owner_pubkey m' = local_owner_pubkey m
     \<and> local_device_pubkey m' = local_device_pubkey m
     \<and> verified_peer_app_keys m' = verified_peer_app_keys m"

lemma recompute_for_owner:
  assumes "users_ok m"
  shows "users_ok (recompute_authorization_for_owner cr m owner)"
    and "same_setting m (recompute_authorization_for_owner cr m owner)"
    and "manager_roster (recompute_authorization_for_owner cr m owner) ow = manager_roster m ow"
    and "ow \<noteq> owner \<Longrightarrow> bt_get (users (recompute_authorization_for_owner cr m owner)) ow = bt_get (users m) ow"
    and "proved_at cr (recompute_authorization_for_owner cr m owner) owner"
proof -
  let ?m = "recompute_authorization_for_owner cr m owner" and ?A = "authorized_devices_for_owner cr m owner"
  have cases: "(bt_get (users m) owner = None \<and> ?m = m) \<or>
    (\<exists>u. bt_get (users m) owner = Some u \<and> user_ok owner u \<and> ?m = put_user owner (recompute_authorization u ?A) m)"
    using assms by (auto simp: recompute_authorization_for_owner_def Let_def users_ok_def split: option.splits)
  then show "users_ok ?m"
    using assms recompute_authorization_ok recomputed_user_ok put_user_ok by metis
  show "same_setting m ?m" using cases by (auto simp: same_setting_def)
  show *: "manager_roster ?m ow = manager_roster m ow" for ow
    using cases recompute_authorization_ok by (auto simp: manager_roster_def)
  show "bt_get (users ?m) ow = bt_get (users m) ow" if "ow \<noteq> owner" using cases that by auto
  have "owner_device_is_authorized cr ?m owner k = owner_device_is_authorized cr m owner k" for k
    using cases * by (intro authorized_cong) auto
  then show "proved_at cr ?m owner"
    using cases recompute_authorization_ok [of owner _ ?A]
    by (fastforce simp: proved_at_def recomputed_user_def recomputed_def allowed_iff device_of_def
        owner_device_is_authorized_def)
qed

section \<open>Reconciling claimed devices\<close>

text \<open>Users other than the owner only lose devices, or disappear.\<close>

definition shrunk_user :: "UserRecord \<Rightarrow> UserRecord \<Rightarrow> bool" where
  "shrunk_user u u' \<longleftrightarrow> ur_owner_pubkey u' = ur_owner_pubkey u \<and> roster u' = roster u
     \<and> (\<forall>k r. bt_get (ur_devices u') k = Some r \<longrightarrow> bt_get (ur_devices u) k = Some r)"

definition shrunk_at :: "SessionManager \<Rightarrow> SessionManager \<Rightarrow> OwnerPubkey \<Rightarrow> bool" where
  "shrunk_at m m' ow \<longleftrightarrow> bt_get (users m') ow = None
     \<or> (\<exists>u u'. bt_get (users m) ow = Some u \<and> bt_get (users m') ow = Some u' \<and> shrunk_user u u')"

lemma shrunk_user_refl [simp]: "shrunk_user u u"
  by (simp add: shrunk_user_def)

lemma shrunk_user_trans: "shrunk_user u v \<Longrightarrow> shrunk_user v w \<Longrightarrow> shrunk_user u w"
  by (simp add: shrunk_user_def)

lemma shrunk_user_ok: "user_ok ow u \<Longrightarrow> shrunk_user u u' \<Longrightarrow> user_ok ow u'"
  by (simp add: user_ok_def shrunk_user_def)

lemma take_device_Some:
  "bt_get (ur_devices u) k = Some r \<Longrightarrow>
   take_device k (u, mig) = (u\<lparr>ur_devices := bt_remove k (ur_devices u)\<rparr>, mig @ [r\<lparr>dr_claimed_owner := None\<rparr>])"
  by (simp add: take_device_def)

lemma take_devices:
  assumes "user_ok ow u" "\<forall>r \<in> set mig. device_ok (dr_device_pubkey r) r" "fold take_device ks (u, mig) = (u', mig')"
  shows "shrunk_user u u' \<and> (\<forall>r \<in> set mig'. device_ok (dr_device_pubkey r) r)"
  using assms
proof (induction ks arbitrary: u mig)
  case (Cons k ks)
  show ?case
  proof (cases "bt_get (ur_devices u) k")
    case None
    then show ?thesis using Cons by (simp add: take_device_def)
  next
    case (Some r)
    let ?u = "u\<lparr>ur_devices := bt_remove k (ur_devices u)\<rparr>"
    let ?mig = "mig @ [r\<lparr>dr_claimed_owner := None\<rparr>]"
    have shrunk: "shrunk_user u ?u" by (simp add: shrunk_user_def)
    have "device_ok k r" using Cons.prems(1) Some by (rule user_okD)
    then have "\<forall>r \<in> set ?mig. device_ok (dr_device_pubkey r) r" using Cons.prems(2) by (simp add: device_ok_def)
    moreover have "fold take_device ks (?u, ?mig) = (u', mig')" using Cons.prems(3) Some by (simp add: take_device_Some)
    ultimately have "shrunk_user ?u u' \<and> (\<forall>r \<in> set mig'. device_ok (dr_device_pubkey r) r)"
      by (rule Cons.IH [OF shrunk_user_ok [OF Cons.prems(1) shrunk]])
    then show ?thesis using shrunk_user_trans [OF shrunk] by blast
  qed
qed simp

definition reconciling :: "OwnerPubkey \<Rightarrow> SessionManager \<Rightarrow> SessionManager \<times> DeviceRecord list \<times> OwnerPubkey list \<Rightarrow> bool" where
  "reconciling owner m = (\<lambda>(m', mig, emp). same_setting m m' \<and> users_ok m' \<and> (\<forall>ow. shrunk_at m m' ow)
     \<and> bt_get (users m') owner = bt_get (users m) owner
     \<and> (\<forall>r \<in> set mig. device_ok (dr_device_pubkey r) r) \<and> owner \<notin> set emp)"

lemma reconcile_source_step:
  assumes "reconciling owner m x" "source \<noteq> owner"
  shows "reconciling owner m (reconcile_source cr owner source x)"
proof -
  obtain m' mig emp where x: "x = (m', mig, emp)" by (cases x) auto
  show ?thesis
  proof (cases "bt_get (users m') source")
    case None
    then show ?thesis using assms x by (simp add: reconcile_source_def)
  next
    case (Some u)
    let ?ks = "claimed_devices cr m' owner u"
    obtain u' mig' where fold: "fold take_device ?ks (u, mig) = (u', mig')" by fastforce
    have "user_ok source u" using assms(1) x Some by (simp add: reconciling_def users_ok_def)
    then have u': "shrunk_user u u'" "\<forall>r \<in> set mig'. device_ok (dr_device_pubkey r) r" "user_ok source u'"
      using take_devices [OF _ _ fold] shrunk_user_ok assms(1) x by (auto simp: reconciling_def)
    have "shrunk_at m (put_user source u' m') ow" for ow
    proof (cases "ow = source")
      case True
      have "shrunk_at m m' source" using assms(1) x by (simp add: reconciling_def)
      then obtain v where "bt_get (users m) source = Some v" "shrunk_user v u" using Some by (auto simp: shrunk_at_def)
      then show ?thesis using True shrunk_user_trans [OF _ u'(1)] by (auto simp: shrunk_at_def)
    next
      case False
      then show ?thesis using assms(1) x by (simp add: reconciling_def shrunk_at_def)
    qed
    then have "reconciling owner m (put_user source u' m', mig', emp')" if "owner \<notin> set emp'" for emp'
      using assms x u' that put_user_ok [of m' source u'] by (auto simp: reconciling_def same_setting_def)
    then show ?thesis
      using assms x Some fold by (auto simp: reconcile_source_def Let_def reconciling_def)
  qed
qed

lemma fold_bt_remove: "bt_get (fold bt_remove ks m) k = (if k \<in> set ks then None else bt_get m k)"
  by (induction ks arbitrary: m) auto

lemma absorb_migrated_ok:
  assumes "user_ok ow u" "device_ok (dr_device_pubkey r) r"
  shows "user_ok ow (absorb_migrated now r u)" "roster (absorb_migrated now r u) = roster u"
proof -
  let ?k = "dr_device_pubkey r"
  have "device_ok ?k (device_record_mut u ?k (dr_created_at r))" using assms(1) by (rule device_record_mut_ok)
  then have "device_ok ?k (absorb (device_record_mut u ?k (dr_created_at r)) r now)"
    by (simp add: device_ok_def absorb_bound)
  then show "user_ok ow (absorb_migrated now r u)"
    unfolding absorb_migrated_def using assms(1) by (intro put_device_ok)
  show "roster (absorb_migrated now r u) = roster u" by (simp add: absorb_migrated_def)
qed

lemma reconcile_verified:
  fixes cr :: "'x crypto_scheme" and owner :: OwnerPubkey and now :: UnixSeconds
  assumes "users_ok m"
  defines "m' \<equiv> reconcile_verified_claimed_devices cr m owner now"
  shows "users_ok m'" "same_setting m m'" "manager_roster m' owner = manager_roster m owner"
    "ow \<noteq> owner \<Longrightarrow> shrunk_at m m' ow"
proof -
  let ?sources = "filter (\<lambda>ow. ow \<noteq> owner) (bt_keys (users m))"
  obtain m1 mig emp where fold: "fold (reconcile_source cr owner) ?sources (m, [], []) = (m1, mig, emp)"
    by (metis prod_cases3)
  have steps: "reconciling owner m (fold (reconcile_source cr owner) ks x)"
    if "reconciling owner m x" "owner \<notin> set ks" for ks x
    using that by (induction ks arbitrary: x) (simp_all add: reconcile_source_step [OF _ not_sym])
  have "reconciling owner m (m, [], [])"
    using assms(1) by (auto simp: reconciling_def same_setting_def shrunk_at_def)
  from steps [OF this, of ?sources] have inv: "reconciling owner m (m1, mig, emp)" by (simp add: fold)
  define m2 where "m2 = m1\<lparr>users := fold bt_remove emp (users m1)\<rparr>"
  have m2: "users_ok m2" "same_setting m m2" "bt_get (users m2) owner = bt_get (users m) owner" "shrunk_at m m2 ow" for ow
    using inv by (auto simp: reconciling_def m2_def users_ok_def same_setting_def fold_bt_remove shrunk_at_def)
  have mig: "user_ok owner (fold (absorb_migrated now) rs u) \<and> roster (fold (absorb_migrated now) rs u) = roster u"
    if "user_ok owner u" "\<forall>r \<in> set rs. device_ok (dr_device_pubkey r) r" for rs u
    using that by (induction rs arbitrary: u) (simp_all add: absorb_migrated_ok)
  have m': "m' = (if mig = [] then m2
      else put_user owner (fold (absorb_migrated now) mig (user_record_mut m2 owner)) m2)"
    unfolding m'_def reconcile_verified_claimed_devices_def Let_def fold m2_def by simp
  have u: "user_ok owner (fold (absorb_migrated now) mig (user_record_mut m2 owner))"
    "roster (fold (absorb_migrated now) mig (user_record_mut m2 owner)) = manager_roster m2 owner"
    using mig [OF user_record_mut_ok [OF m2(1)]] inv by (auto simp: reconciling_def user_record_mut_simps)
  show "users_ok m'" using m' m2(1) u(1) put_user_ok by simp
  show "same_setting m m'" using m' m2(2) by (simp add: same_setting_def)
  show "manager_roster m' owner = manager_roster m owner" using m' m2(3) u(2) by (simp add: manager_roster_def)
  show "shrunk_at m m' ow" if "ow \<noteq> owner" using m' m2(4) that by (simp add: shrunk_at_def)
qed

lemma proved_shrunk:
  assumes "proved_at cr m ow" "same_setting m m'" "shrunk_at m m' ow"
  shows "proved_at cr m' ow"
proof (cases "bt_get (users m') ow")
  case None
  then show ?thesis by (simp add: proved_at_def device_of_def)
next
  case (Some u')
  then obtain u where u: "bt_get (users m) ow = Some u" "shrunk_user u u'" using assms(3) by (auto simp: shrunk_at_def)
  then have "owner_device_is_authorized cr m' ow k = owner_device_is_authorized cr m ow k" for k
    using assms(2) Some by (intro authorized_cong) (auto simp: same_setting_def manager_roster_def shrunk_user_def)
  then show ?thesis
    using assms(1) u Some unfolding proved_at_def device_of_def shrunk_user_def by (metis option.simps(5))
qed

end
