(* ===== verification/Session_Manager_Steps.thy ===== *)
theory Session_Manager_Steps
  imports Session_Manager_Invariants
begin

text \<open>
  Every operation of the session manager preserves its invariant.
\<close>

section \<open>Roster changes\<close>

lemma proved_unchanged:
  assumes "proved_at cr m ow" "same_setting m m'" "bt_get (users m') ow = bt_get (users m) ow"
  shows "proved_at cr m' ow"
  using assms by (intro proved_shrunk [OF assms(1,2)]) (auto simp: shrunk_at_def)

lemma same_setting_refl [simp]: "same_setting m m" "same_setting m (put_user ow u m)"
  by (simp_all add: same_setting_def)

lemma same_setting_trans: "same_setting m m1 \<Longrightarrow> same_setting m1 m2 \<Longrightarrow> same_setting m m2"
  by (simp add: same_setting_def)

definition all_proved :: "'x crypto_scheme \<Rightarrow> SessionManager \<Rightarrow> bool" where
  "all_proved cr m \<longleftrightarrow> users_ok m \<and> (\<forall>ow. proved_at cr m ow)"

definition proved_except :: "'x crypto_scheme \<Rightarrow> SessionManager \<Rightarrow> OwnerPubkey \<Rightarrow> bool" where
  "proved_except cr m owner \<longleftrightarrow> users_ok m \<and> (\<forall>ow. ow \<noteq> owner \<longrightarrow> proved_at cr m ow)"

lemma all_proved_except: "all_proved cr m \<Longrightarrow> proved_except cr m owner"
  by (simp add: all_proved_def proved_except_def)

lemma put_proved: "proved_except cr m owner \<Longrightarrow> user_ok owner u \<Longrightarrow> proved_except cr (put_user owner u m) owner"
  unfolding proved_except_def by (auto intro: put_user_ok proved_unchanged)

lemma recompute_proved:
  assumes "proved_except cr m owner"
  shows "all_proved cr (recompute_authorization_for_owner cr m owner)"
  unfolding all_proved_def
proof (intro conjI allI)
  have ok: "users_ok m" using assms by (simp add: proved_except_def)
  show "users_ok (recompute_authorization_for_owner cr m owner)" by (rule recompute_for_owner [OF ok])
  show "proved_at cr (recompute_authorization_for_owner cr m owner) ow" for ow
  proof (cases "ow = owner")
    case True
    then show ?thesis using recompute_for_owner(5) [OF ok] by simp
  next
    case False
    then have "proved_at cr m ow" using assms by (simp add: proved_except_def)
    then show ?thesis
      by (rule proved_unchanged [OF _ recompute_for_owner(2) [OF ok] recompute_for_owner(4) [OF ok False]])
  qed
qed

lemma reconcile_proved:
  assumes "proved_except cr m owner"
  shows "proved_except cr (reconcile_verified_claimed_devices cr m owner now) owner"
proof -
  have ok: "users_ok m" using assms by (simp add: proved_except_def)
  show ?thesis
    unfolding proved_except_def
  proof (intro conjI allI impI)
    show "users_ok (reconcile_verified_claimed_devices cr m owner now)" by (rule reconcile_verified(1) [OF ok])
    fix ow assume "ow \<noteq> owner"
    moreover then have "proved_at cr m ow" using assms by (simp add: proved_except_def)
    ultimately show "proved_at cr (reconcile_verified_claimed_devices cr m owner now) ow"
      using reconcile_verified(2,4) [OF ok] by (blast intro: proved_shrunk)
  qed
qed

lemma apply_roster_proved:
  assumes "proved_except cr m owner"
  shows "all_proved cr (snd (apply_roster_for_owner_inner cr m owner ro replace))"
    and "same_setting m (snd (apply_roster_for_owner_inner cr m owner ro replace))"
proof -
  let ?u = "user_record_mut m owner"
  obtain dec nxt where nxt: "(if replace then (Advanced, ro) else apply_roster_snapshot (roster ?u) ro) = (dec, nxt)"
    by fastforce
  define m1 where "m1 = put_user owner (?u\<lparr>roster := Some nxt\<rparr>) m"
  define m2 where "m2 = recompute_authorization_for_owner cr m1 owner"
  define m3 where "m3 = reconcile_verified_claimed_devices cr m2 owner (roster_created_at nxt)"
  have eq: "snd (apply_roster_for_owner_inner cr m owner ro replace) = recompute_authorization_for_owner cr m3 owner"
    using nxt by (simp add: apply_roster_for_owner_inner_def Let_def m1_def m2_def m3_def)
  have ok: "users_ok m" using assms by (simp add: proved_except_def)
  have "user_ok owner (?u\<lparr>roster := Some nxt\<rparr>)" using user_record_mut_ok [OF ok] by (simp add: user_ok_def)
  then have m1: "proved_except cr m1 owner" unfolding m1_def by (rule put_proved [OF assms])
  then have m2: "proved_except cr m2 owner" unfolding m2_def by (rule all_proved_except [OF recompute_proved])
  then have m3: "proved_except cr m3 owner" unfolding m3_def by (rule reconcile_proved)
  then show "all_proved cr (snd (apply_roster_for_owner_inner cr m owner ro replace))"
    unfolding eq by (rule recompute_proved)
  have "same_setting m m1" by (simp add: m1_def)
  moreover have "same_setting m1 m2" using m1 unfolding m2_def proved_except_def by (blast intro: recompute_for_owner(2))
  moreover have "same_setting m2 m3" using m2 unfolding m3_def proved_except_def by (blast intro: reconcile_verified(2))
  moreover have "same_setting m3 (recompute_authorization_for_owner cr m3 owner)"
    using m3 unfolding proved_except_def by (blast intro: recompute_for_owner(2))
  ultimately show "same_setting m (snd (apply_roster_for_owner_inner cr m owner ro replace))"
    unfolding eq by (blast intro: same_setting_trans)
qed

lemma store_claimed_proved:
  assumes "all_proved cr m"
  shows "all_proved cr (snd (store_claimed_session cr m claimed k session now))"
    and "same_setting m (snd (store_claimed_session cr m claimed k session now))"
proof -
  obtain owner u where eq: "snd (store_claimed_session cr m claimed k session now) =
      recompute_authorization_for_owner cr (put_user owner u m) owner" "user_ok owner u"
  proof -
    define owner where "owner = (if owner_device_is_authorized cr m claimed k then claimed
      else owner_pubkey_from_device_pubkey k)"
    define u where "u = user_record_mut m owner"
    define u1 where "u1 = (if owner = owner_pubkey_from_device_pubkey k \<and> manager_roster m owner = None
      then u\<lparr>roster := Some (roster_new now [\<lparr>device_pubkey = k, device_created_at = now\<rparr>])\<rparr> else u)"
    define r1 where "r1 = upsert_session ((device_record_mut u1 k now)\<lparr>dr_claimed_owner :=
      (if claimed \<noteq> owner then Some claimed else None), invite_response_generated := True\<rparr>) session now"
    have "user_ok owner u" using assms unfolding u_def all_proved_def by (blast intro: user_record_mut_ok)
    then have u1: "user_ok owner u1" by (simp add: u1_def user_ok_def)
    then have "device_ok k r1"
      using device_record_mut_ok [OF u1, of k now] unfolding r1_def device_ok_def by (simp add: upsert_bound)
    then have "user_ok owner (put_device k r1 u1)" using u1 by (rule put_device_ok [rotated])
    then show thesis
      by (rule that [rotated])
         (simp only: store_claimed_session_def Let_def owner_def u_def u1_def r1_def snd_conv)
  qed
  have "proved_except cr (put_user owner u m) owner"
    by (rule put_proved [OF all_proved_except [OF assms] eq(2)])
  then show "all_proved cr (snd (store_claimed_session cr m claimed k session now))"
    unfolding eq(1) by (rule recompute_proved)
  have "users_ok (put_user owner u m)"
    using \<open>proved_except cr (put_user owner u m) owner\<close> by (simp add: proved_except_def)
  then show "same_setting m (snd (store_claimed_session cr m claimed k session now))"
    unfolding eq(1) using same_setting_trans [OF same_setting_refl(2)] recompute_for_owner(2) by blast
qed

section \<open>Operations on sessions and invites only\<close>

definition quiet_record :: "DeviceRecord \<Rightarrow> DeviceRecord \<Rightarrow> bool" where
  "quiet_record r r' \<longleftrightarrow> authorized r' = authorized r \<and> is_stale r' = is_stale r
     \<and> dr_device_pubkey r' = dr_device_pubkey r
     \<and> (length (inactive_sessions r) \<le> MAX_INACTIVE_SESSIONS \<longrightarrow>
        length (inactive_sessions r') \<le> MAX_INACTIVE_SESSIONS)"

definition quiet :: "SessionManager \<Rightarrow> SessionManager \<Rightarrow> bool" where
  "quiet m m' \<longleftrightarrow> same_setting m m' \<and> (\<forall>ow. manager_roster m' ow = manager_roster m ow)
     \<and> (users_ok m \<longrightarrow> users_ok m')
     \<and> (\<forall>ow k r'. device_of m' ow k = Some r' \<longrightarrow> authorized r' \<longrightarrow>
          (\<exists>r. device_of m ow k = Some r \<and> authorized r \<and> is_stale r' = is_stale r))"

lemma quiet_refl [simp]: "quiet m m"
  by (simp add: quiet_def)

lemma quiet_trans:
  assumes "quiet m m1" "quiet m1 m2"
  shows "quiet m m2"
  unfolding quiet_def
proof (intro conjI allI impI)
  show "same_setting m m2" using assms same_setting_trans unfolding quiet_def by blast
  show "manager_roster m2 ow = manager_roster m ow" for ow using assms unfolding quiet_def by simp
  show "users_ok m \<Longrightarrow> users_ok m2" using assms unfolding quiet_def by blast
  fix ow k r2 assume r2: "device_of m2 ow k = Some r2" "authorized r2"
  then obtain r1 where "device_of m1 ow k = Some r1" "authorized r1" "is_stale r2 = is_stale r1"
    using assms(2) unfolding quiet_def by blast
  then show "\<exists>r. device_of m ow k = Some r \<and> authorized r \<and> is_stale r2 = is_stale r"
    using assms(1) unfolding quiet_def by metis
qed

lemma quiet_proved:
  assumes "all_proved cr m" "quiet m m'"
  shows "all_proved cr m'"
proof -
  have "owner_device_is_authorized cr m' ow k = owner_device_is_authorized cr m ow k" for ow k
    using assms(2) by (intro authorized_cong) (auto simp: quiet_def same_setting_def)
  then show ?thesis
    using assms unfolding all_proved_def quiet_def proved_at_def by metis
qed

lemma quiet_invite [simp]: "quiet m (m\<lparr>local_invite := iv\<rparr>)"
  by (auto simp: quiet_def same_setting_def manager_roster_def users_ok_def device_of_def)

lemma quiet_put:
  assumes "quiet_record (device_record_mut (user_record_mut m ow) k t) r"
  shows "quiet m (put_user ow (put_device k r (user_record_mut m ow)) m)"
  unfolding quiet_def
proof (intro conjI allI impI)
  let ?u = "user_record_mut m ow"
  show "users_ok (put_user ow (put_device k r ?u) m)" if "users_ok m"
  proof -
    have u: "user_ok ow ?u" using that by (rule user_record_mut_ok)
    then have "device_ok k r" using device_record_mut_ok [OF u, of k t] assms by (simp add: device_ok_def quiet_record_def)
    then show ?thesis by (intro put_user_ok put_device_ok that u)
  qed
  show "manager_roster (put_user ow (put_device k r ?u) m) ow' = manager_roster m ow'" for ow'
    by (simp add: user_record_mut_simps)
  fix ow' k' r' assume r': "device_of (put_user ow (put_device k r ?u) m) ow' k' = Some r'" "authorized r'"
  show "\<exists>s. device_of m ow' k' = Some s \<and> authorized s \<and> is_stale r' = is_stale s"
  proof (cases "ow' = ow \<and> k' = k")
    case True
    then have "r' = r" using r' by simp
    then have "authorized (device_record_mut ?u k t)" "is_stale r' = is_stale (device_record_mut ?u k t)"
      using assms r'(2) by (simp_all add: quiet_record_def)
    then show ?thesis
      using True by (auto simp: device_record_mut_def device_record_new_def user_record_mut_simps split: option.splits)
  next
    case False
    then show ?thesis using r' by (auto simp: user_record_mut_simps split: if_splits)
  qed
qed simp

section \<open>Sending\<close>

lemma then_do_cases:
  assumes "then_do m f = z"
  obtains e s where "m = (Inl e, s)" "z = (Inl e, s)" | x s where "m = (Inr x, s)" "f x s = z"
  using assms by (cases "(m, f)" rule: then_do.cases) auto

lemma quiet_record_refl [simp]: "quiet_record r r"
  by (simp add: quiet_record_def)

lemma quiet_record_trans: "quiet_record r r1 \<Longrightarrow> quiet_record r1 r2 \<Longrightarrow> quiet_record r r2"
  by (simp add: quiet_record_def)

lemma length_remove_at_le: "length (remove_at i xs) \<le> length xs"
  by (simp add: remove_at_def)

lemma quiet_record_updates [simp]:
  "quiet_record r (r'\<lparr>last_activity := t\<rparr>) = quiet_record r r'"
  "quiet_record r (r'\<lparr>active_session := a\<rparr>) = quiet_record r r'"
  "quiet_record r (r'\<lparr>invite_response_generated := b\<rparr>) = quiet_record r r'"
  "quiet_record r (r'\<lparr>public_invite := iv\<rparr>) = quiet_record r r'"
  "quiet_record r (r'\<lparr>dr_created_at := t'\<rparr>) = quiet_record r r'"
  "quiet_record r (r\<lparr>inactive_sessions := remove_at i (inactive_sessions r)\<rparr>)"
  "quiet_record r (r\<lparr>inactive_sessions := []\<rparr>)"
  using order_trans [OF length_remove_at_le [of i "inactive_sessions r"]] by (auto simp: quiet_record_def)

lemma quiet_upsert: "quiet_record r r' \<Longrightarrow> quiet_record r (upsert_session r' s now)"
  by (simp add: quiet_record_def upsert_bound)

lemma quiet_upsertD: "quiet_record (upsert_session r s now) r' \<Longrightarrow> quiet_record r r'"
  using quiet_record_trans [OF quiet_upsert [OF quiet_record_refl]] .

lemma quiet_promote: "quiet_record r r' \<Longrightarrow> quiet_record r (promote_inactive_session r' s)"
  by (simp add: quiet_record_def)

lemma plan_send_ctx_state: "plan_send_ctx cr s payload now (r, ctx) = (out, r', ctx') \<Longrightarrow> r' = r"
  by (auto simp: plan_send_ctx_def split: prod.splits)

lemma start_session_quiet:
  assumes "start_session cr now ow k payload x (r, ctx) = (out, r', ctx')"
  shows "quiet_record r r'"
proof -
  obtain session response where x: "x = (session, response)" by fastforce
  show ?thesis
    using assms unfolding start_session_def x prod.case
    by (elim then_do_cases; auto simp: apply_send_def intro!: quiet_upsert dest!: plan_send_ctx_state)
qed

lemma deliver_over_invite_quiet:
  assumes "deliver_over_invite cr m now ow k payload (r, ctx) = (out, r', ctx')"
  shows "quiet_record r r'"
  using assms by (auto simp: deliver_over_invite_def split: option.splits prod.splits sum.splits if_splits
      dest: start_session_quiet)

lemma deliver_over_session_quiet:
  assumes "deliver_over_session cr now ow k payload src (r, ctx) = (out, r', ctx')"
  shows "quiet_record r r'"
proof (cases "session_for_send_source r src")
  case None
  then show ?thesis using assms by (simp add: deliver_over_session_def)
next
  case (Some s)
  show ?thesis
    using assms Some unfolding deliver_over_session_def
    by (simp, elim then_do_cases)
       (auto simp: apply_send_def Let_def intro!: quiet_upsert dest!: plan_send_ctx_state split: SendSessionSource.splits)
qed

lemma record_delivery_quiet:
  assumes "record_delivery cr m now ow k payload refresh (r, ctx) = (out, r', ctx')"
  shows "quiet_record r r'"
proof -
  define fall_back where "fall_back = (\<lambda>st. case best_send_session_source r of
      Some src \<Rightarrow> deliver_over_session cr now ow k payload src st
    | None \<Rightarrow> deliver_over_invite cr m now ow k payload st)"
  have fb: "quiet_record s s'" if "fall_back (s, c) = (out, s', ctx')" for s s' c
    using that by (auto simp: fall_back_def split: option.splits
        intro: deliver_over_invite_quiet deliver_over_session_quiet)
  consider (closed) "r' = r" | (direct) "fall_back (r, ctx) = (out, r', ctx')"
    | (refresh) "then_do (deliver_over_invite cr m now ow k payload (r, ctx)) (\<lambda>out st.
        case out of Some d \<Rightarrow> (Inr (Some d), st) | None \<Rightarrow> fall_back st) = (out, r', ctx')"
    using assms unfolding record_delivery_def fall_back_def Let_def by (auto split: if_splits)
  then show ?thesis
  proof cases
    case refresh
    then show ?thesis
    proof (cases rule: then_do_cases)
      case (1 e s)
      then show ?thesis by (auto intro: deliver_over_invite_quiet)
    next
      case (2 x s)
      obtain r1 c1 where s: "s = (r1, c1)" by (cases s)
      have "quiet_record r r1" using 2 s deliver_over_invite_quiet by blast
      then show ?thesis using 2 s fb quiet_record_trans by (auto split: option.splits)
    qed
  qed (simp_all add: fb)
qed

lemma deliver_inactive_quiet:
  assumes "deliver_inactive cr now ow k payload ss (r, ctx) = (out, r', ctx')"
  shows "quiet_record r r'"
  using assms
proof (induction ss arbitrary: r ctx out r' ctx')
  case (Cons s ss)
  show ?case
  proof (cases "can_send s")
    case True
    then show ?thesis
      using Cons.prems
      by (auto simp: apply_send_def elim!: then_do_cases dest!: plan_send_ctx_state
          dest: Cons.IH quiet_upsertD)
  next
    case False
    then show ?thesis
      using Cons.prems by (auto dest: Cons.IH quiet_upsertD)
  qed
qed simp

lemma deliver_active_quiet:
  assumes "deliver_active cr now ow k payload (r, ctx) = (out, r', ctx')"
  shows "quiet_record r r'"
  using assms by (auto simp: deliver_active_def apply_send_def split: option.splits if_splits
      elim!: then_do_cases dest!: plan_send_ctx_state)

lemma record_deliveries_all_quiet:
  assumes "record_deliveries_all cr now ow k payload (r, ctx) = (out, r', ctx')"
  shows "quiet_record r r'"
proof (cases "\<not> authorized r \<or> is_stale r")
  case True
  then show ?thesis using assms by (auto simp: record_deliveries_all_def)
next
  case False
  from assms False show ?thesis
    unfolding record_deliveries_all_def
    by (auto elim!: then_do_cases dest!: deliver_active_quiet deliver_inactive_quiet
        intro: quiet_record_trans [OF quiet_record_trans [OF _ quiet_record_updates(7)]])
qed

lemma with_record_quiet:
  assumes "\<And>r ctx out r' ctx'. f (r, ctx) = (out, r', ctx') \<Longrightarrow> quiet_record r r'"
    and "with_record now ow k f (m, ctx) = (out, m', ctx')"
  shows "quiet m m'"
proof -
  let ?u = "user_record_mut m ow"
  obtain out1 r1 ctx1 where f: "f (device_record_mut ?u k now, ctx) = (out1, r1, ctx1)" by (metis prod_cases3)
  then have "m' = put_user ow (put_device k r1 ?u) m" using assms(2) by (simp add: with_record_def)
  then show ?thesis using quiet_put [OF assms(1) [OF f]] by simp
qed

lemma prepare_device_delivery_quiet:
  "prepare_device_delivery cr now ow k payload refresh (m, ctx) = (out, m', ctx') \<Longrightarrow> quiet m m'"
  unfolding prepare_device_delivery_def by (rule with_record_quiet [OF record_delivery_quiet])

lemma prepare_all_deliveries_quiet:
  "prepare_device_deliveries_for_all_send_sessions cr now ow k payload (m, ctx) = (out, m', ctx') \<Longrightarrow> quiet m m'"
  unfolding prepare_device_deliveries_for_all_send_sessions_def
  by (rule with_record_quiet [OF record_deliveries_all_quiet])

lemma send_targets_quiet:
  "send_targets cr now payload refresh ts (m, ctx) = (out, m', ctx') \<Longrightarrow> quiet m m'"
proof (induction ts arbitrary: m ctx out m' ctx')
  case (Cons t ts)
  obtain ow k where t: "t = (ow, k)" by (cases t)
  show ?case
    using Cons.prems unfolding t
    by (auto elim!: then_do_cases dest!: prepare_device_delivery_quiet dest: Cons.IH intro: quiet_trans)
qed simp

lemma send_targets_all_quiet:
  "send_targets_all cr now payload ts (m, ctx) = (out, m', ctx') \<Longrightarrow> quiet m m'"
proof (induction ts arbitrary: m ctx out m' ctx')
  case (Cons t ts)
  obtain ow k where t: "t = (ow, k)" by (cases t)
  show ?case
    using Cons.prems unfolding t
    by (auto elim!: then_do_cases dest!: prepare_device_delivery_quiet prepare_all_deliveries_quiet Cons.IH
        split: if_splits) (blast intro: quiet_trans)+
qed simp

lemma prepare_explicit_send_quiet:
  assumes "prepare_explicit_send cr now recipient targets payload gaps refresh (m, ctx) = (out, m', ctx')"
  shows "quiet m m'"
  using assms unfolding prepare_explicit_send_def
  by (auto elim!: then_do_cases dest: send_targets_quiet)

section \<open>Receiving\<close>

lemma receive_inactive_result:
  assumes "receive_inactive cr now env r e rng = (out, r', e', rng')"
  shows "quiet_record r r'" "out = None \<Longrightarrow> r' = r"
  using assms by (auto simp: receive_inactive_def apply_receive_def intro!: quiet_promote
      split: option.splits prod.splits)

lemma receive_record_result:
  assumes "receive_record cr now env r e rng = (out, r', e', rng')"
  shows "quiet_record r r'" "out = None \<Longrightarrow> r' = r"
  using assms by (auto simp: receive_record_def apply_receive_def dest: receive_inactive_result
      split: option.splits prod.splits sum.splits if_splits)

definition quiet_user :: "UserRecord \<Rightarrow> UserRecord \<Rightarrow> bool" where
  "quiet_user u u' \<longleftrightarrow> ur_owner_pubkey u' = ur_owner_pubkey u \<and> roster u' = roster u
     \<and> (\<forall>k r'. bt_get (ur_devices u') k = Some r' \<longrightarrow> (\<exists>r. bt_get (ur_devices u) k = Some r \<and> quiet_record r r'))"

lemma quiet_put_user:
  assumes "bt_get (users m) ow = Some u" "quiet_user u u'"
  shows "quiet m (put_user ow u' m)"
proof -
  have "user_ok ow u'" if "users_ok m"
    unfolding user_ok_def
  proof (intro conjI allI impI)
    have u: "user_ok ow u" using that assms(1) by (rule users_okD)
    then show "ur_owner_pubkey u' = ow" using assms(2) by (simp add: user_ok_def quiet_user_def)
    fix k r' assume "bt_get (ur_devices u') k = Some r'"
    then obtain r where "bt_get (ur_devices u) k = Some r" "quiet_record r r'" using assms(2) unfolding quiet_user_def by blast
    then show "device_ok k r'" using user_okD [OF u] by (auto simp: device_ok_def quiet_record_def)
  qed
  moreover have "\<exists>r. bt_get (ur_devices u) k = Some r \<and> authorized r \<and> is_stale r' = is_stale r"
    if "bt_get (ur_devices u') k = Some r'" "authorized r'" for k r'
    using that assms(2) unfolding quiet_user_def quiet_record_def by metis
  moreover have "roster u' = roster u" using assms(2) by (simp add: quiet_user_def)
  ultimately show ?thesis
    using assms(1) by (auto simp: quiet_def put_user_ok manager_roster_def device_of_def)
qed

lemma put_device_same: "bt_get (ur_devices u) k = Some r \<Longrightarrow> put_device k r u = u"
  unfolding put_device_def by (simp add: bt.ins_same)

lemma receive_devices_result:
  assumes "receive_devices cr now ow allowed env ks u e rng = (out, u', e', rng')"
  shows "quiet_user u u' \<and> (out = None \<longrightarrow> u' = u)"
  using assms
proof (induction ks arbitrary: e rng)
  case (Cons k ks)
  show ?case
  proof (cases "bt_get (ur_devices u) k")
    case None
    then show ?thesis using Cons.prems by (auto simp: quiet_user_def)
  next
    case (Some r)
    obtain out1 r1 e1 rng1 where r1: "receive_record cr now env r e rng = (out1, r1, e1, rng1)" by (metis prod_cases4)
    show ?thesis
    proof (cases out1)
      case None
      then have "put_device k r1 u = u" using receive_record_result(2) [OF r1] put_device_same [OF Some] by simp
      then show ?thesis using Cons Some r1 None by (auto split: if_splits)
    next
      case payload: (Some payload)
      have "quiet_user u (put_device k r1 u)"
        using Some receive_record_result(1) [OF r1] by (auto simp: quiet_user_def)
      then show ?thesis using Cons Some r1 payload by (auto split: if_splits)
    qed
  qed
qed (auto simp: quiet_user_def)

lemma put_user_same: "bt_get (users m) ow = Some u \<Longrightarrow> put_user ow u m = m"
  unfolding put_user_def by (simp add: bt.ins_same)

lemma receive_result:
  assumes "receive cr now m ow env rng = (out, m', rng')"
  shows "quiet m m'" "\<forall>msg. out \<noteq> Inr (Some msg) \<Longrightarrow> m' = m"
proof -
  have "quiet m m' \<and> ((\<forall>msg. out \<noteq> Inr (Some msg)) \<longrightarrow> m' = m)"
  proof (cases "bt_get (users m) ow")
    case None
    then show ?thesis using assms by (simp add: receive_def)
  next
    case (Some u)
    obtain out1 u1 e1 rng1 where r: "receive_devices cr now ow (authorized_devices_for_owner cr m ow) env
        (bt_keys (ur_devices u)) u None rng = (out1, u1, e1, rng1)" by (metis prod_cases4)
    have "m' = put_user ow u1 m" "out1 = None \<longleftrightarrow> (\<forall>msg. out \<noteq> Inr (Some msg))"
      using assms Some r by (auto simp: receive_def Let_def split: option.splits)
    then show ?thesis
      using receive_devices_result [OF r] quiet_put_user [OF Some] put_user_same [OF Some] by auto
  qed
  then show "quiet m m'" "\<forall>msg. out \<noteq> Inr (Some msg) \<Longrightarrow> m' = m" by auto
qed

section \<open>Invites\<close>

lemma observe_public_invite_quiet: "quiet m (snd (observe_public_invite cr m ow iv))"
  by (auto simp: observe_public_invite_def Let_def intro!: quiet_put [where t = "invite_created_at iv"])

lemma ensure_local_invite_quiet:
  assumes "ensure_local_invite cr now (m, rng) = (out, m', rng')"
  shows "quiet m m'"
proof (cases "local_invite m")
  case (Some iv)
  then show ?thesis using assms by (auto simp: ensure_local_invite_def)
next
  case None
  obtain r rng1 where c: "create_new_with_context cr now rng (local_device_pubkey m) (Some (local_owner_pubkey m)) None = (r, rng1)"
    by fastforce
  show ?thesis
  proof (cases r)
    case (Inl e)
    then show ?thesis using assms None c by (simp add: ensure_local_invite_def)
  next
    case (Inr iv)
    obtain out1 m1 where o: "observe_public_invite cr m (local_owner_pubkey m) iv = (out1, m1)" by fastforce
    then have "quiet m m1" using observe_public_invite_quiet [of m cr "local_owner_pubkey m" iv] by simp
    moreover have "m' = m1 \<or> m' = m1\<lparr>local_invite := Some iv\<rparr>"
      using assms None c o Inr by (cases out1) (auto simp: ensure_local_invite_def)
    ultimately show ?thesis using quiet_trans [OF _ quiet_invite] by blast
  qed
qed

section \<open>Removing users and devices\<close>

lemma shrunk_proved:
  assumes "all_proved cr m" "same_setting m m'" "\<And>ow. shrunk_at m m' ow"
  shows "all_proved cr m'"
proof -
  have "users_ok m'"
    using assms(1,3) shrunk_user_ok unfolding all_proved_def users_ok_def shrunk_at_def by (metis option.distinct(1) option.inject)
  then show ?thesis using assms proved_shrunk unfolding all_proved_def by blast
qed

lemma prune_shrunk: "same_setting m (snd (prune_stale m))" "shrunk_at m (snd (prune_stale m)) ow"
proof -
  have "shrunk_user u (prune_user u)" for u by (auto simp: shrunk_user_def prune_user_def split: option.splits if_splits)
  then show "shrunk_at m (snd (prune_stale m)) ow"
    by (cases "bt_get (users m) ow") (auto simp: shrunk_at_def prune_stale_def)
qed (simp add: same_setting_def prune_stale_def)

lemma delete_shrunk: "same_setting m (delete_user m ow)" "shrunk_at m (delete_user m ow) ow'"
  by (auto simp: same_setting_def delete_user_def shrunk_at_def)

end
