(* ===== verification/Session_Manager_Restore.thy ===== *)
theory Session_Manager_Restore
  imports Session_Manager_Steps
begin

text \<open>
  Snapshots of the session manager: the verified evidence of an owner survives a round trip through the
  list of its events, and a restored manager trusts nothing but the evidence.
\<close>

section \<open>Evidence is kept without duplicates\<close>

text \<open>Two rosters are equivalent when they list the same devices with the same times.\<close>

lemma bt_keys_subset_eq:
  assumes "bt_len m = bt_len n" "\<And>k. bt_get m k \<noteq> None \<Longrightarrow> bt_get n k \<noteq> None"
  shows "bt_get m k \<noteq> None \<longleftrightarrow> bt_get n k \<noteq> None"
proof -
  have "{k. bt_get m k \<noteq> None} = {k. bt_get n k \<noteq> None}"
    using assms by (intro card_subset_eq bt.finite_dom) (auto simp: bt_len_card)
  then show ?thesis by blast
qed

lemma equivalent_iff:
  "has_equivalent_authorization_roster a b \<longleftrightarrow>
     (\<forall>k. map_option entry_created_at (get_device a k) = map_option entry_created_at (get_device b k))"
proof
  assume eq: "has_equivalent_authorization_roster a b"
  then have sub: "\<exists>d'. bt_get (ak_devices b) k = Some d' \<and> entry_created_at d' = entry_created_at d"
    if "bt_get (ak_devices a) k = Some d" for k d
    using that unfolding has_equivalent_authorization_roster_def list_all_iff bt_get_entries
    by (fastforce simp flip: bt_get_entries elim: is_some_and.elims)
  have "bt_get (ak_devices a) k \<noteq> None \<longleftrightarrow> bt_get (ak_devices b) k \<noteq> None" for k
    using eq sub by (intro bt_keys_subset_eq) (auto simp: has_equivalent_authorization_roster_def)
  then show "\<forall>k. map_option entry_created_at (get_device a k) = map_option entry_created_at (get_device b k)"
    using sub by (metis get_device_def not_None_eq option.map(1,2))
next
  assume eq: "\<forall>k. map_option entry_created_at (get_device a k) = map_option entry_created_at (get_device b k)"
  then have "bt_get (ak_devices a) k = None \<longleftrightarrow> bt_get (ak_devices b) k = None" for k
    by (metis get_device_def map_option_is_None)
  then have "bt_len (ak_devices a) = bt_len (ak_devices b)" by (simp add: bt_len_card)
  moreover have "is_some_and (bt_get (ak_devices b) k) (\<lambda>d'. entry_created_at d' = entry_created_at d)"
    if "bt_get (ak_devices a) k = Some d" for k d
  proof -
    have "map_option entry_created_at (bt_get (ak_devices b) k) = Some (entry_created_at d)"
      using eq that by (metis get_device_def option.map(2))
    then show ?thesis by auto
  qed
  ultimately show "has_equivalent_authorization_roster a b"
    by (auto simp: has_equivalent_authorization_roster_def list_all_iff simp flip: bt_get_entries)
qed

lemma equivalent_sym: "has_equivalent_authorization_roster a b \<longleftrightarrow> has_equivalent_authorization_roster b a"
  by (auto simp: equivalent_iff)

definition head_distinct :: "VerifiedAppKeysHead \<Rightarrow> bool" where
  "head_distinct h \<longleftrightarrow> (\<forall>k c k' c'. bt_get (candidates h) k = Some c \<longrightarrow> bt_get (candidates h) k' = Some c' \<longrightarrow>
     k \<noteq> k' \<longrightarrow> \<not> has_equivalent_authorization_roster (candidate_app_keys c) (candidate_app_keys c'))"

definition index_distinct :: "VerifiedAppKeysIndex \<Rightarrow> bool" where
  "index_distinct idx \<longleftrightarrow> (\<forall>owner h. bt_get (heads idx) owner = Some h \<longrightarrow> head_distinct h)"

lemma head_distinct_insert:
  assumes "head_distinct h" "\<not> list_ex (\<lambda>c. has_equivalent_authorization_roster (candidate_app_keys c) (candidate_app_keys x))
      (bt_values (candidates h))"
  shows "head_distinct (h\<lparr>candidates := bt_insert k x (candidates h)\<rparr>)"
proof -
  have "\<not> has_equivalent_authorization_roster (candidate_app_keys c) (candidate_app_keys x)"
    "\<not> has_equivalent_authorization_roster (candidate_app_keys x) (candidate_app_keys c)"
    if "bt_get (candidates h) k' = Some c" for k' c
    using assms(2) that equivalent_sym by (force simp: list_ex_iff bt_values_def bt_get_entries)+
  then show ?thesis using assms(1) unfolding head_distinct_def by (auto split: if_splits)
qed

lemma bt_values_empty [simp]: "bt_values bt_empty = []"
  by (simp add: bt_values_def)

lemma ingest_distinct:
  assumes "index_distinct idx"
  shows "index_distinct (snd (ingest cr idx ev now))"
proof (cases "app_keys_authorization_candidate cr (ev_pubkey ev) ev now")
  case (Inl e)
  then show ?thesis using assms by (simp add: ingest_def Let_def)
next
  case (Inr ak)
  let ?x = "\<lparr>candidate_event = ev, candidate_app_keys = ak\<rparr>"
  have new: "head_distinct \<lparr>head_created_at_secs = t, candidates = bt_insert (ev_id ev) ?x bt_empty\<rparr>" for t
    by (auto simp: head_distinct_def split: if_splits)
  have put: "index_distinct (idx\<lparr>heads := bt_insert (ev_pubkey ev) h (heads idx)\<rparr>)" if "head_distinct h" for h
    using assms that by (auto simp: index_distinct_def)
  show ?thesis
  proof (cases "bt_get (heads idx) (ev_pubkey ev)")
    case None
    then show ?thesis using Inr put [OF new] by (simp add: ingest_def Let_def)
  next
    case (Some h)
    then have h: "head_distinct h" using assms by (simp add: index_distinct_def)
    show ?thesis
      using Inr Some assms put [OF h] put [OF new] put [OF head_distinct_insert [OF h, of ?x "ev_id ev"]]
      by (auto simp: ingest_def Let_def)
  qed
qed

section \<open>Restoring the index from its events\<close>

text \<open>What is stored of an event: it was accepted, it carries the time of its head, and it is filed under its id.\<close>

definition stored_ok :: "'x event_crypto_scheme \<Rightarrow> PublicKey \<Rightarrow> u64 \<Rightarrow> bytes \<times> AppKeysAuthorizationCandidate \<Rightarrow> bool" where
  "stored_ok cr owner t = (\<lambda>(k, c). ev_id (candidate_event c) = k \<and> ev_pubkey (candidate_event c) = owner
     \<and> ev_created_at (candidate_event c) = t
     \<and> app_keys_authorization_candidate cr owner (candidate_event c) t = Inr (candidate_app_keys c))"

lemma accepted_at_own_time:
  assumes "app_keys_authorization_candidate cr owner ev now = Inr ak"
  shows "app_keys_authorization_candidate cr owner ev (ev_created_at ev) = Inr ak"
proof -
  have "ev_created_at ev \<le> saturating_add (ev_created_at ev) APP_KEYS_AUTHORIZATION_MAX_FUTURE_SKEW_SECS"
    unfolding word_le_nat_alt unat_saturating_add using unsigned_less [of "ev_created_at ev", where ?'a = nat] by simp
  then show ?thesis
    using assms by (auto simp: app_keys_authorization_candidate_def Let_def not_less split: if_splits)
qed

lemma stored_ok_inv:
  assumes "index_inv cr S idx" "bt_get (heads idx) owner = Some h" "(k, c) \<in> set (bt_entries (candidates h))"
  shows "stored_ok cr owner (head_created_at_secs h) (k, c)"
proof -
  have h: "head_inv (accepted cr S owner) h" using assms(1,2) by (simp add: index_inv_def)
  have c: "bt_get (candidates h) k = Some c" using assms(3) by (simp add: bt_get_entries)
  from head_invD(4) [OF h c] obtain now where "ev_pubkey (candidate_event c) = owner"
    "app_keys_authorization_candidate cr owner (candidate_event c) now = Inr (candidate_app_keys c)"
    by (auto simp: accepted_def)
  then show ?thesis
    using head_invD(3,5) [OF h c] accepted_at_own_time unfolding stored_ok_def prod.case by metis
qed

lemma candidate_eta: "\<lparr>candidate_event = candidate_event c, candidate_app_keys = candidate_app_keys c\<rparr> = c"
  by simp

lemma head_eta: "\<lparr>head_created_at_secs = head_created_at_secs h, candidates = candidates h\<rparr> = h"
  by simp

definition replay :: "'x event_crypto_scheme \<Rightarrow> Event list \<Rightarrow> VerifiedAppKeysIndex \<Rightarrow> VerifiedAppKeysIndex" where
  "replay cr evs idx = fold (\<lambda>ev index. snd (ingest cr index ev (ev_created_at ev))) evs idx"

lemma bt_of_list_snoc: "bt_of_list (xs @ [(k, v)]) = bt_insert k v (bt_of_list xs)"
  by (simp add: bt_of_list_def)

lemma replay_candidates:
  assumes "sorted_wrt (<) (map fst (xs @ ys))" "list_all (stored_ok cr owner t) ys" "xs \<noteq> []"
    and "\<And>k c k' c'. (k, c) \<in> set (xs @ ys) \<Longrightarrow> (k', c') \<in> set ys \<Longrightarrow> k \<noteq> k' \<Longrightarrow>
      \<not> has_equivalent_authorization_roster (candidate_app_keys c) (candidate_app_keys c')"
  shows "replay cr (map (\<lambda>e. candidate_event (snd e)) ys)
      \<lparr>heads = bt_insert owner \<lparr>head_created_at_secs = t, candidates = bt_of_list xs\<rparr> hs\<rparr> =
    \<lparr>heads = bt_insert owner \<lparr>head_created_at_secs = t, candidates = bt_of_list (xs @ ys)\<rparr> hs\<rparr>"
  using assms
proof (induction ys arbitrary: xs)
  case (Cons e ys)
  obtain k c where e: "e = (k, c)" by (cases e)
  have c: "ev_id (candidate_event c) = k" "ev_pubkey (candidate_event c) = owner"
    "ev_created_at (candidate_event c) = t"
    "app_keys_authorization_candidate cr owner (candidate_event c) t = Inr (candidate_app_keys c)"
    using Cons.prems(2) e by (simp_all add: stored_ok_def)
  have mem: "(k', c') \<in> set xs" if "bt_get (bt_of_list xs) k' = Some c'" for k' c'
    using that by (auto simp: bt_get_of_list dest: map_of_SomeD)
  have fresh: "k \<notin> fst ` set xs" using Cons.prems(1) e by (fastforce simp: sorted_wrt_append)
  have "\<not> has_equivalent_authorization_roster (candidate_app_keys c') (candidate_app_keys c)"
    if "(k', c') \<in> set (bt_entries (bt_of_list xs))" for k' c'
  proof (rule Cons.prems(4) [of k' c' k c])
    have "(k', c') \<in> set xs" using that mem by (simp only: flip: bt_get_entries)
    then show "(k', c') \<in> set (xs @ e # ys)" "k' \<noteq> k" using fresh by force+
    show "(k, c) \<in> set (e # ys)" using e by simp
  qed
  then have "\<not> list_ex (\<lambda>c'. has_equivalent_authorization_roster (candidate_app_keys c') (candidate_app_keys c))
      (bt_values (bt_of_list xs))"
    unfolding list_ex_iff bt_values_def by auto
  then have step: "snd (ingest cr \<lparr>heads = bt_insert owner \<lparr>head_created_at_secs = t, candidates = bt_of_list xs\<rparr> hs\<rparr>
      (candidate_event c) (ev_created_at (candidate_event c))) =
    \<lparr>heads = bt_insert owner \<lparr>head_created_at_secs = t, candidates = bt_of_list (xs @ [e])\<rparr> hs\<rparr>"
    using c by (simp add: ingest_def Let_def e bt_of_list_snoc bt.ins_overwrite candidate_eta)
  have "replay cr (map (\<lambda>e. candidate_event (snd e)) ys)
      \<lparr>heads = bt_insert owner \<lparr>head_created_at_secs = t, candidates = bt_of_list (xs @ [e])\<rparr> hs\<rparr> =
    \<lparr>heads = bt_insert owner \<lparr>head_created_at_secs = t, candidates = bt_of_list ((xs @ [e]) @ ys)\<rparr> hs\<rparr>"
    by (rule Cons.IH) (use Cons.prems in \<open>auto simp: list_all_iff\<close>)
  then show ?case using step e by (simp add: replay_def)
qed (simp add: replay_def)

lemma replay_head:
  assumes "index_inv cr S idx" "bt_get (heads idx) owner = Some h" "head_distinct h" "bt_get hs owner = None"
  shows "replay cr (map candidate_event (bt_values (candidates h))) \<lparr>heads = hs\<rparr> =
    \<lparr>heads = bt_insert owner h hs\<rparr>"
proof -
  have h: "head_inv (accepted cr S owner) h" using assms(1,2) by (simp add: index_inv_def)
  have ne: "bt_entries (candidates h) \<noteq> []"
    using head_invD(1) [OF h] by (metis bt_get_entries list.set(1) empty_iff)
  then obtain k c ys where es: "bt_entries (candidates h) = (k, c) # ys" by (metis list.exhaust surj_pair)
  have all: "list_all (stored_ok cr owner (head_created_at_secs h)) ((k, c) # ys)"
    using stored_ok_inv [OF assms(1,2)] unfolding list_all_iff es by auto
  have first: "snd (ingest cr \<lparr>heads = hs\<rparr> (candidate_event c) (ev_created_at (candidate_event c))) =
    \<lparr>heads = bt_insert owner \<lparr>head_created_at_secs = head_created_at_secs h, candidates = bt_of_list [(k, c)]\<rparr> hs\<rparr>"
    using all assms(4) by (simp add: stored_ok_def ingest_def Let_def bt_of_list_def candidate_eta)
  have "replay cr (map (\<lambda>e. candidate_event (snd e)) ys)
      \<lparr>heads = bt_insert owner \<lparr>head_created_at_secs = head_created_at_secs h, candidates = bt_of_list [(k, c)]\<rparr> hs\<rparr> =
    \<lparr>heads = bt_insert owner \<lparr>head_created_at_secs = head_created_at_secs h, candidates = bt_of_list ([(k, c)] @ ys)\<rparr> hs\<rparr>"
  proof (rule replay_candidates)
    show "sorted_wrt (<) (map fst ([(k, c)] @ ys))"
      using bt_keys_ordered [of "candidates h"] es by (simp add: bt_keys_def)
    show "list_all (stored_ok cr owner (head_created_at_secs h)) ys" using all by simp
    show "\<not> has_equivalent_authorization_roster (candidate_app_keys a) (candidate_app_keys b)"
      if "(i, a) \<in> set ([(k, c)] @ ys)" "(j, b) \<in> set ys" "i \<noteq> j" for i a j b
      using assms(3) that es unfolding head_distinct_def bt_get_entries by (metis append_Cons append_Nil list.set_intros(2))
  qed simp
  moreover have "bt_of_list ([(k, c)] @ ys) = candidates h" using bt_of_list_entries [of "candidates h"] es by simp
  ultimately show ?thesis using first es by (simp add: bt_values_def replay_def comp_def head_eta)
qed

lemma replay_heads:
  assumes "index_inv cr S idx" "index_distinct idx" "sorted_wrt (<) (map fst (xs @ ys))"
    "set ys \<subseteq> set (bt_entries (heads idx))"
  shows "replay cr (concat (map (\<lambda>e. map candidate_event (bt_values (candidates (snd e)))) ys))
      \<lparr>heads = bt_of_list xs\<rparr> = \<lparr>heads = bt_of_list (xs @ ys)\<rparr>"
  using assms(3,4)
proof (induction ys arbitrary: xs)
  case (Cons e ys)
  obtain owner h where e: "e = (owner, h)" by (cases e)
  have get: "bt_get (heads idx) owner = Some h" using Cons.prems(2) e by (simp add: bt_get_entries)
  then have "head_distinct h" using assms(2) by (simp add: index_distinct_def)
  moreover have "owner \<notin> fst ` set xs" using Cons.prems(1) e by (fastforce simp: sorted_wrt_append)
  then have "bt_get (bt_of_list xs) owner = None" by (simp add: bt_get_of_list map_of_eq_None_iff)
  ultimately have "replay cr (map candidate_event (bt_values (candidates h))) \<lparr>heads = bt_of_list xs\<rparr> =
      \<lparr>heads = bt_of_list (xs @ [e])\<rparr>"
    using replay_head [OF assms(1) get] e by (simp add: bt_of_list_snoc)
  moreover have "replay cr (concat (map (\<lambda>e. map candidate_event (bt_values (candidates (snd e)))) ys))
      \<lparr>heads = bt_of_list (xs @ [e])\<rparr> = \<lparr>heads = bt_of_list ((xs @ [e]) @ ys)\<rparr>"
    by (rule Cons.IH) (use Cons.prems in auto)
  ultimately show ?case using e by (simp add: replay_def)
qed (simp add: replay_def)

lemma restore_index_events:
  assumes "index_inv cr S idx" "index_distinct idx"
  shows "restore_index cr (index_events idx) = idx"
proof -
  have "replay cr (concat (map (\<lambda>e. map candidate_event (bt_values (candidates (snd e)))) (bt_entries (heads idx))))
      \<lparr>heads = bt_of_list []\<rparr> = \<lparr>heads = bt_of_list ([] @ bt_entries (heads idx))\<rparr>"
    by (rule replay_heads [OF assms]) (use bt_keys_ordered [of "heads idx"] in \<open>auto simp: bt_keys_def\<close>)
  then show ?thesis
    by (simp add: restore_index_def replay_def index_events_def index_default_def bt_values_def comp_def
        bt_of_list_entries bt_of_list_def [of "[]"])
qed

end
