(* ===== verification/Session_Manager_Runs.thy ===== *)
theory Session_Manager_Runs
  imports Session_Manager_Restore
begin

text \<open>
  Runs of the session manager: any sequence of its operations from a new manager or from one restored
  from stored data, with restarts from its own snapshots, and the invariant along them.
\<close>

section \<open>New evidence\<close>

lemma ingest_other:
  "owner \<noteq> ev_pubkey ev \<Longrightarrow> bt_get (heads (snd (ingest cr idx ev now))) owner = bt_get (heads idx) owner"
  by (simp add: ingest_def Let_def split: sum.splits option.splits)

text \<open>Only an event that is reported as new changes the index.\<close>

lemma ingest_unchanged:
  assumes inv: "index_inv cr S idx" and ids: "ids_unique cr (insert (ev, now) S)"
    and old: "fst (ingest cr idx ev now) \<noteq> Inr True"
  shows "snd (ingest cr idx ev now) = idx"
proof (cases "app_keys_authorization_candidate cr (ev_pubkey ev) ev now")
  case (Inl e)
  then show ?thesis by (simp add: ingest_def Let_def)
next
  case (Inr ak)
  show ?thesis
  proof (cases "bt_get (heads idx) (ev_pubkey ev)")
    case None
    then show ?thesis using old Inr by (simp add: ingest_def Let_def)
  next
    case (Some h)
    have h: "head_inv (accepted cr S (ev_pubkey ev)) h" using inv Some by (simp add: index_inv_def)
    have same: "idx\<lparr>heads := bt_insert (ev_pubkey ev) h (heads idx)\<rparr> = idx" using Some by (simp add: bt.ins_same)
    have known: "list_ex (\<lambda>c. has_equivalent_authorization_roster (candidate_app_keys c) ak) (bt_values (candidates h))"
      if "bt_get (candidates h) (ev_id ev) = Some c" for c
      using known_id_equivalent [OF h ids Inr that] that
      by (force simp: list_ex_iff bt_values_def bt_get_entries)
    show ?thesis
      using old Inr Some same known by (auto simp: ingest_def Let_def split: if_splits)
  qed
qed

lemma evidence_proved_except:
  assumes "all_proved cr m"
  shows "proved_except cr (m\<lparr>verified_peer_app_keys := snd (ingest cr (verified_peer_app_keys m) ev now)\<rparr>)
    (OwnerPubkey (ev_pubkey ev))"
proof -
  let ?m = "m\<lparr>verified_peer_app_keys := snd (ingest cr (verified_peer_app_keys m) ev now)\<rparr>"
  have "users_ok ?m" using assms by (simp add: all_proved_def users_ok_def)
  moreover have "proved_at cr ?m ow" if "ow \<noteq> OwnerPubkey (ev_pubkey ev)" for ow
  proof -
    have "owner_bytes ow \<noteq> ev_pubkey ev" using that by (cases ow) simp
    then have "owner_device_is_authorized cr ?m ow k = owner_device_is_authorized cr m ow k" for k
      by (intro authorized_cong) (simp_all add: manager_roster_def ingest_other)
    then show ?thesis using assms by (simp add: all_proved_def proved_at_def device_of_def)
  qed
  ultimately show ?thesis by (simp add: proved_except_def)
qed

lemma ingest_new_stored:
  assumes "fst (ingest cr idx ev now) = Inr True"
  shows "app_keys_for_event (snd (ingest cr idx ev now)) (ev_pubkey ev) (ev_id ev) \<noteq> None"
  using assms by (auto simp: ingest_def Let_def app_keys_for_event_def split: sum.splits option.splits if_splits)

lemma observe_evidence_proved:
  assumes "all_proved cr m" "index_inv cr S (verified_peer_app_keys m)" "ids_unique cr (insert (ev, now) S)"
    and "observe_peer_app_keys_event cr m ev now = (out, m')"
  shows "all_proved cr m'" "local_owner_pubkey m' = local_owner_pubkey m"
    "verified_peer_app_keys m' = snd (ingest cr (verified_peer_app_keys m) ev now)"
    "out = fst (ingest cr (verified_peer_app_keys m) ev now)"
proof -
  obtain r idx where i: "ingest cr (verified_peer_app_keys m) ev now = (r, idx)" by fastforce
  define m1 where "m1 = m\<lparr>verified_peer_app_keys := idx\<rparr>"
  have "all_proved cr m' \<and> local_owner_pubkey m' = local_owner_pubkey m \<and> verified_peer_app_keys m' = idx \<and> out = r"
  proof (cases "r = Inr True")
    case True
    then obtain ak where "app_keys_for_event idx (ev_pubkey ev) (ev_id ev) = Some ak"
      using ingest_new_stored [of cr "verified_peer_app_keys m" ev now] i by auto
    then obtain ro where "(out, m') = (Inr True, snd (apply_roster_for_owner_inner cr m1 (OwnerPubkey (ev_pubkey ev)) ro False))"
      using assms(4) i True by (simp add: observe_peer_app_keys_event_def Let_def m1_def apply_roster_for_owner_def) blast
    moreover have "proved_except cr m1 (OwnerPubkey (ev_pubkey ev))"
      using evidence_proved_except [OF assms(1), of ev now] i by (simp add: m1_def)
    ultimately show ?thesis
      using apply_roster_proved [of cr m1] True by (simp add: same_setting_def m1_def)
  next
    case False
    then have "idx = verified_peer_app_keys m" using ingest_unchanged [OF assms(2,3)] i by simp
    then have "(out, m') = (r, m)"
      using assms(4) i False by (auto simp: observe_peer_app_keys_event_def Let_def split: sum.splits bool.splits)
    then show ?thesis using assms(1) \<open>idx = verified_peer_app_keys m\<close> by simp
  qed
  then show "all_proved cr m'" "local_owner_pubkey m' = local_owner_pubkey m"
    "verified_peer_app_keys m' = snd (ingest cr (verified_peer_app_keys m) ev now)"
    "out = fst (ingest cr (verified_peer_app_keys m) ev now)" using i by simp_all
qed

section \<open>Restarts\<close>

definition snapshot_bounded :: "SessionManagerSnapshot \<Rightarrow> bool" where
  "snapshot_bounded sn \<longleftrightarrow> (\<forall>u \<in> set (sn_users sn). \<forall>d \<in> set (us_devices u).
     length (ds_inactive_sessions d) \<le> MAX_INACTIVE_SESSIONS)"

lemma bt_of_list_keyed:
  assumes "bt_get (bt_of_list (map (\<lambda>x. (f x, x)) xs)) k = Some x"
  shows "f x = k \<and> x \<in> set xs"
  using assms by (auto simp: bt_get_of_list dest!: map_of_SomeD)

lemma device_from_snapshot_bound:
  "length (inactive_sessions (device_from_snapshot d)) \<le> length (ds_inactive_sessions d)"
  by (simp add: device_from_snapshot_def)

lemma user_from_snapshot_ok:
  assumes "\<forall>d \<in> set (us_devices u). length (ds_inactive_sessions d) \<le> MAX_INACTIVE_SESSIONS"
  shows "user_ok (ur_owner_pubkey (user_from_snapshot u)) (user_from_snapshot u)"
  unfolding user_ok_def
proof (intro conjI allI impI)
  fix k r assume "bt_get (ur_devices (user_from_snapshot u)) k = Some r"
  then have "dr_device_pubkey r = k" "r \<in> set (map device_from_snapshot (us_devices u))"
    using bt_of_list_keyed [of dr_device_pubkey "map device_from_snapshot (us_devices u)" k r]
    by (simp_all add: user_from_snapshot_def comp_def)
  then show "device_ok k r"
    using assms order_trans [OF device_from_snapshot_bound] by (auto simp: device_ok_def)
qed simp

lemma recompute_all_proved:
  assumes "users_ok m" "\<And>ow. ow \<notin> set ks \<Longrightarrow> proved_at cr m ow"
  shows "all_proved cr (fold (\<lambda>owner m. recompute_authorization_for_owner cr m owner) ks m)
    \<and> same_setting m (fold (\<lambda>owner m. recompute_authorization_for_owner cr m owner) ks m)"
  using assms
proof (induction ks arbitrary: m)
  case (Cons k ks)
  let ?m = "recompute_authorization_for_owner cr m k"
  have "proved_at cr ?m ow" if "ow \<notin> set ks" for ow
  proof (cases "ow = k")
    case True
    then show ?thesis using recompute_for_owner(5) [OF Cons.prems(1)] by simp
  next
    case False
    then have "proved_at cr m ow" using Cons.prems(2) that by simp
    then show ?thesis
      by (rule proved_unchanged [OF _ recompute_for_owner(2,4) [OF Cons.prems(1)]]) (rule False)
  qed
  then show ?case
    using Cons.IH [of ?m] recompute_for_owner(1,2) [OF Cons.prems(1)] same_setting_trans by fastforce
qed (simp add: all_proved_def)

lemma restore_verified_proved:
  assumes "all_proved cr m"
  shows "all_proved cr (restore_verified_owner cr ow m) \<and> same_setting m (restore_verified_owner cr ow m)"
proof -
  obtain now where eq: "restore_verified_owner cr ow m =
      recompute_authorization_for_owner cr (reconcile_verified_claimed_devices cr m ow now) ow"
    by (simp add: restore_verified_owner_def Let_def)
  have ok: "users_ok m" using assms by (simp add: all_proved_def)
  have ex: "proved_except cr (reconcile_verified_claimed_devices cr m ow now) ow"
    using assms by (intro reconcile_proved all_proved_except)
  then have "users_ok (reconcile_verified_claimed_devices cr m ow now)" by (simp add: proved_except_def)
  then show ?thesis
    unfolding eq using recompute_proved [OF ex] reconcile_verified(2) [OF ok] recompute_for_owner(2) same_setting_trans
    by blast
qed

lemma from_snapshot_proved:
  assumes "manager_from_snapshot cr sn secret = Inr m" "snapshot_bounded sn"
  shows "all_proved cr m" "verified_peer_app_keys m = restore_index cr (sn_verified_peer_app_keys_events sn)"
    "local_owner_pubkey m = sn_local_owner_pubkey sn"
proof -
  define us where "us = map user_from_snapshot (sn_users sn)"
  define m0 where "m0 = \<lparr>local_owner_pubkey = sn_local_owner_pubkey sn, local_device_pubkey = sn_local_device_pubkey sn,
      local_device_secret_key = secret, local_invite = sn_local_invite sn,
      verified_peer_app_keys = restore_index cr (sn_verified_peer_app_keys_events sn),
      users = bt_of_list (map (\<lambda>u. (ur_owner_pubkey u, u)) us)\<rparr>"
  define m1 where "m1 = fold (\<lambda>owner m. recompute_authorization_for_owner cr m owner) (bt_keys (users m0)) m0"
  have m: "m = fold (restore_verified_owner cr) (map OwnerPubkey (index_owners (verified_peer_app_keys m0))) m1"
    using assms(1) by (auto simp: manager_from_snapshot_def Let_def result_simps m1_def m0_def us_def split: if_splits)
  have "user_ok ow u" if "bt_get (users m0) ow = Some u" for ow u
  proof -
    have "ur_owner_pubkey u = ow" "u \<in> set us"
      using bt_of_list_keyed [of ur_owner_pubkey us ow u] that by (simp_all add: m0_def)
    then show ?thesis using user_from_snapshot_ok assms(2) by (auto simp: us_def snapshot_bounded_def)
  qed
  then have ok: "users_ok m0" by (simp add: users_ok_def)
  have "proved_at cr m0 ow" if "ow \<notin> set (bt_keys (users m0))" for ow
    using that by (simp add: proved_at_def device_of_def set_bt_keys)
  then have m1: "all_proved cr m1 \<and> same_setting m0 m1" unfolding m1_def by (rule recompute_all_proved [OF ok])
  have "all_proved cr (fold (restore_verified_owner cr) ks x) \<and> same_setting x (fold (restore_verified_owner cr) ks x)"
    if "all_proved cr x" for ks x
    using that restore_verified_proved same_setting_trans by (induction ks arbitrary: x) (simp, fastforce)
  then have "all_proved cr m \<and> same_setting m0 m" unfolding m using m1 same_setting_trans by blast
  then show "all_proved cr m" "verified_peer_app_keys m = restore_index cr (sn_verified_peer_app_keys_events sn)"
    "local_owner_pubkey m = sn_local_owner_pubkey sn"
    by (simp_all add: same_setting_def m0_def)
qed

lemma own_snapshot_bounded:
  assumes "users_ok m"
  shows "snapshot_bounded (manager_snapshot m)"
proof -
  have "length (inactive_sessions r) \<le> MAX_INACTIVE_SESSIONS"
    if "(ow, u) \<in> set (bt_entries (users m))" "(k, r) \<in> set (bt_entries (ur_devices u))" for ow u k r
    using that assms unfolding users_ok_def user_ok_def device_ok_def bt_get_entries by blast
  then show ?thesis
    by (fastforce simp: snapshot_bounded_def manager_snapshot_def user_snapshot_def device_snapshot_def bt_values_def)
qed

text \<open>The AppKeys events of a snapshot; restoring ingests them at the times they carry.\<close>

definition snapshot_evidence :: "SessionManagerSnapshot \<Rightarrow> ingest_call set" where
  "snapshot_evidence sn = (\<lambda>ev. (ev, ev_created_at ev)) ` set (sn_verified_peer_app_keys_events sn)"

lemma restore_index_after: "restore_index cr evs = index_after cr (map (\<lambda>ev. (ev, ev_created_at ev)) evs)"
  by (simp add: restore_index_def index_after_def fold_map comp_def)

lemma index_after_distinct: "index_distinct (index_after cr calls)"
proof -
  have "index_distinct (fold (\<lambda>(ev, now) idx. snd (ingest cr idx ev now)) calls idx)" if "index_distinct idx" for idx
    using that by (induction calls arbitrary: idx) (auto simp: ingest_distinct)
  moreover have "index_distinct index_default" by (simp add: index_distinct_def index_default_def)
  ultimately show ?thesis by (simp add: index_after_def)
qed

lemma from_snapshot_index:
  assumes "manager_from_snapshot cr sn secret = Inr m" "snapshot_bounded sn" "ids_unique cr (snapshot_evidence sn)"
  shows "index_inv cr (snapshot_evidence sn) (verified_peer_app_keys m)" "index_distinct (verified_peer_app_keys m)"
proof -
  let ?calls = "map (\<lambda>ev. (ev, ev_created_at ev)) (sn_verified_peer_app_keys_events sn)"
  have m: "verified_peer_app_keys m = index_after cr ?calls" and calls: "set ?calls = snapshot_evidence sn"
    using from_snapshot_proved(2) [OF assms(1,2)] by (simp_all add: restore_index_after snapshot_evidence_def)
  show "index_inv cr (snapshot_evidence sn) (verified_peer_app_keys m)"
    using index_after_inv [of cr ?calls] assms(3) by (simp only: m calls)
  show "index_distinct (verified_peer_app_keys m)" by (simp add: m index_after_distinct)
qed

section \<open>Runs\<close>

text \<open>
  The managers that can arise, with the AppKeys events observed so far. A run starts with a new manager
  or with any stored snapshot that keeps at most \<^verbatim>\<open>MAX_INACTIVE_SESSIONS\<close> inactive sessions per device,
  wherever its records, flags, rosters and claims come from; the events of the snapshot are its evidence.
\<close>

inductive manages :: "'x invite_crypto_scheme \<Rightarrow> ingest_call set \<Rightarrow> SessionManager \<Rightarrow> bool" for cr where
  manager_new: "session_manager_new cr owner secret = Inr m \<Longrightarrow> manages cr {} m"
| manager_stored: "manager_from_snapshot cr sn secret = Inr m \<Longrightarrow> snapshot_bounded sn \<Longrightarrow>
    manages cr (snapshot_evidence sn) m"
| manager_restart: "manages cr S m \<Longrightarrow> manager_from_snapshot cr (manager_snapshot m) secret = Inr m' \<Longrightarrow> manages cr S m'"
| manager_evidence: "manages cr S m \<Longrightarrow> observe_peer_app_keys_event cr m ev t = (out, m') \<Longrightarrow>
    manages cr (insert (ev, t) S) m'"
| manager_local_roster: "manages cr S m \<Longrightarrow> manages cr S (snd (apply_local_roster cr m ro))"
| manager_replace_roster: "manages cr S m \<Longrightarrow> manages cr S (snd (replace_local_roster cr m ro))"
| manager_peer_roster: "manages cr S m \<Longrightarrow> manages cr S (snd (observe_peer_roster cr m ow ro))"
| manager_device_invite: "manages cr S m \<Longrightarrow> manages cr S (snd (observe_device_invite cr m ow iv))"
| manager_replace_invite: "manages cr S m \<Longrightarrow> manages cr S (replace_local_invite m iv)"
| manager_local_invite: "manages cr S m \<Longrightarrow> ensure_local_invite cr t (m, rng) = (invite, m', rng') \<Longrightarrow> manages cr S m'"
| manager_invite_response: "manages cr S m \<Longrightarrow>
    observe_invite_response cr t response (m, rng) = (processed, m', rng') \<Longrightarrow> manages cr S m'"
| manager_send: "manages cr S m \<Longrightarrow>
    prepare_explicit_send cr t ow targets payload gaps refresh (m, ctx) = (prepared, m', ctx') \<Longrightarrow> manages cr S m'"
| manager_send_all: "manages cr S m \<Longrightarrow>
    prepare_local_sibling_send_reusing_all_sessions cr t payload (m, ctx) = (prepared, m', ctx') \<Longrightarrow> manages cr S m'"
| manager_receive: "manages cr S m \<Longrightarrow> receive cr t m ow env rng = (msg, m', rng') \<Longrightarrow> manages cr S m'"
| manager_import: "manages cr S m \<Longrightarrow> manages cr S (import_session_state cr m ow k st t)"
| manager_prune: "manages cr S m \<Longrightarrow> manages cr S (snd (prune_stale m))"
| manager_delete: "manages cr S m \<Longrightarrow> manages cr S (delete_user m ow)"

text \<open>The other ways of sending are instances of the two above.\<close>

lemma manager_send_variants:
  assumes "manages cr S m"
  shows "prepare_send cr t ow payload (m, ctx) = (prepared, m', ctx') \<Longrightarrow> manages cr S m'"
    and "prepare_remote_send cr t ow payload (m, ctx) = (prepared, m', ctx') \<Longrightarrow> manages cr S m'"
    and "prepare_remote_send_to_devices cr t ow ks payload (m, ctx) = (prepared, m', ctx') \<Longrightarrow> manages cr S m'"
    and "prepare_local_sibling_send_inner cr t payload refresh (m, ctx) = (prepared, m', ctx') \<Longrightarrow> manages cr S m'"
    and "prepare_local_sibling_send_to_devices cr t ks payload (m, ctx) = (prepared, m', ctx') \<Longrightarrow> manages cr S m'"
  using manager_send [OF assms]
  by (auto simp: prepare_send_def prepare_remote_send_def prepare_send_inner_def prepare_remote_send_to_devices_def
      prepare_local_sibling_send_inner_def prepare_local_sibling_send_to_devices_def Let_def split: prod.splits)

definition manager_inv :: "'x invite_crypto_scheme \<Rightarrow> ingest_call set \<Rightarrow> SessionManager \<Rightarrow> bool" where
  "manager_inv cr S m \<longleftrightarrow> all_proved cr m \<and> index_inv cr S (verified_peer_app_keys m)
     \<and> index_distinct (verified_peer_app_keys m)"

lemma manager_inv_step:
  assumes "manager_inv cr S m" "all_proved cr m'" "same_setting m m'"
  shows "manager_inv cr S m'"
  using assms by (simp add: manager_inv_def same_setting_def)

lemma manager_inv_quiet: "manager_inv cr S m \<Longrightarrow> quiet m m' \<Longrightarrow> manager_inv cr S m'"
  by (rule manager_inv_step) (auto simp: manager_inv_def quiet_def dest: quiet_proved)

lemma manager_inv_shrunk:
  "manager_inv cr S m \<Longrightarrow> same_setting m m' \<Longrightarrow> (\<And>ow. shrunk_at m m' ow) \<Longrightarrow> manager_inv cr S m'"
  by (rule manager_inv_step) (auto simp: manager_inv_def intro: shrunk_proved)

lemma manager_inv_proved: "manager_inv cr S m \<Longrightarrow> all_proved cr m"
  by (simp add: manager_inv_def)

lemma manager_inv_roster:
  assumes "manager_inv cr S m"
  shows "manager_inv cr S (snd (apply_roster_for_owner_inner cr m ow ro replace))"
  by (rule manager_inv_step [OF assms apply_roster_proved [OF all_proved_except [OF manager_inv_proved [OF assms]]]])

lemma manager_inv_store:
  assumes "manager_inv cr S m"
  shows "manager_inv cr S (snd (store_claimed_session cr m ow k s t))"
  by (rule manager_inv_step [OF assms store_claimed_proved [OF manager_inv_proved [OF assms]]])

lemma observe_invite_response_inv:
  assumes "manager_inv cr S m" "observe_invite_response cr t response (m, rng) = (out, m', rng')"
  shows "manager_inv cr S m'"
proof -
  have invite: "manager_inv cr S (m\<lparr>local_invite := iv\<rparr>)" for iv using assms(1) by (rule manager_inv_quiet) simp
  show ?thesis
  proof (cases "local_invite m")
    case None
    then show ?thesis using assms by (simp add: observe_invite_response_def)
  next
    case (Some iv)
    obtain r iv' rng1 where p: "process_response cr iv rng response (local_device_secret_key m) = (r, iv', rng1)"
      by (metis prod_cases3)
    show ?thesis
    proof (cases r)
      case (Inl e)
      then show ?thesis using assms Some p by (simp add: observe_invite_response_def)
    next
      case (Inr resp)
      show ?thesis
      proof (cases "invitee_owner_pubkey resp")
        case None
        then show ?thesis using assms Some p Inr invite by (auto simp: observe_invite_response_def)
      next
        case ow: (Some ow)
        have "m' = snd (store_claimed_session cr (m\<lparr>local_invite := Some iv'\<rparr>) ow (invitee_device_pubkey resp)
            (response_session resp) t)"
          using assms(2) Some p Inr ow by (auto simp: observe_invite_response_def split: prod.splits)
        then show ?thesis using manager_inv_store [OF invite [of "Some iv'"]] by simp
      qed
    qed
  qed
qed

lemma manages_inv:
  assumes "manages cr S m" "ids_unique cr S"
  shows "manager_inv cr S m"
  using assms
proof (induction rule: manages.induct)
  case (manager_new owner secret m)
  then have "m = \<lparr>local_owner_pubkey = owner, local_device_pubkey = local_device_pubkey m,
      local_device_secret_key = secret, local_invite = None, verified_peer_app_keys = index_default, users = bt_empty\<rparr>"
    by (auto simp: session_manager_new_def split: sum.splits)
  then have "users m = bt_empty" "verified_peer_app_keys m = index_default" by (metis SessionManager.select_convs(5,6))+
  then show ?case
    by (simp add: manager_inv_def all_proved_def users_ok_def proved_at_def device_of_def index_inv_def
        index_distinct_def index_default_def accepted_def)
next
  case (manager_stored sn secret m)
  then show ?case
    using from_snapshot_index [OF manager_stored(1,2)] from_snapshot_proved(1) [OF manager_stored(1,2)]
    by (simp add: manager_inv_def)
next
  case (manager_restart S m secret m')
  then have inv: "manager_inv cr S m" by simp
  then have "snapshot_bounded (manager_snapshot m)"
    by (intro own_snapshot_bounded) (simp add: manager_inv_def all_proved_def)
  from from_snapshot_proved [OF manager_restart(2) this] have "all_proved cr m'"
    "verified_peer_app_keys m' = verified_peer_app_keys m"
    using inv restore_index_events by (auto simp: manager_inv_def manager_snapshot_def)
  then show ?case using inv by (simp add: manager_inv_def)
next
  case (manager_evidence S m ev t out m')
  have "ids_unique cr S" using manager_evidence(4) by (rule ids_unique_subset) blast
  then have inv: "manager_inv cr S m" using manager_evidence by simp
  then have i: "index_inv cr S (verified_peer_app_keys m)" "index_distinct (verified_peer_app_keys m)" "all_proved cr m"
    by (simp_all add: manager_inv_def)
  have "all_proved cr m'" "verified_peer_app_keys m' = snd (ingest cr (verified_peer_app_keys m) ev t)"
    by (rule observe_evidence_proved [OF i(3,1) manager_evidence(4) manager_evidence(2)])+
  then show ?case
    using ingest_inv [OF i(1) manager_evidence(4)] ingest_distinct [OF i(2)] by (simp add: manager_inv_def)
next
  case (manager_peer_roster S m ow ro)
  then show ?case by (simp add: observe_peer_roster_def apply_roster_for_owner_def manager_inv_roster)
next
  case (manager_send_all S m t payload ctx prepared m' ctx')
  then have "quiet m m'"
    unfolding prepare_local_sibling_send_reusing_all_sessions_def
    by (auto elim!: then_do_cases dest: send_targets_all_quiet)
  then show ?case using manager_send_all manager_inv_quiet by blast
next
  case (manager_import S m ow k st t)
  then show ?case
    unfolding import_session_state_def import_claimed_session_state_def
    by (auto intro: manager_inv_store)
next
  case (manager_invite_response S m t response rng processed m' rng')
  then show ?case using observe_invite_response_inv by blast
next
  case (manager_local_roster S m ro)
  then show ?case by (simp add: apply_local_roster_def apply_roster_for_owner_def manager_inv_roster)
next
  case (manager_replace_roster S m ro)
  then show ?case by (simp add: replace_local_roster_def manager_inv_roster)
next
  case (manager_device_invite S m ow iv)
  then show ?case
    unfolding observe_device_invite_def by (blast intro: manager_inv_quiet observe_public_invite_quiet)
next
  case (manager_replace_invite S m iv)
  then show ?case unfolding replace_local_invite_def by (blast intro: manager_inv_quiet quiet_invite)
qed (blast intro: manager_inv_quiet ensure_local_invite_quiet prepare_explicit_send_quiet receive_result(1)
      manager_inv_shrunk prune_shrunk delete_shrunk)+

end
