(* ===== verification/Session_Manager_Properties.thy ===== *)
theory Session_Manager_Properties
  imports Session_Manager_Runs
begin

text \<open>
  Properties of the session manager: who it sends to and receives from, what a failure changes, what
  pruning removes, and what survives a restart.
\<close>

section \<open>Entitlement\<close>

text \<open>
  A device may act for an owner when it is the owner's own key, when the local roster lists it, or when
  every newest valid signed AppKeys snapshot of the owner lists it.
\<close>

definition entitled ::
  "'x event_crypto_scheme \<Rightarrow> ingest_call set \<Rightarrow> SessionManager \<Rightarrow> OwnerPubkey \<Rightarrow> DevicePubkey \<Rightarrow> bool" where
  "entitled cr S m owner k \<longleftrightarrow> owner_pubkey_from_device_pubkey k = owner
     \<or> (if owner = local_owner_pubkey m
        then \<exists>ro. manager_roster m owner = Some ro \<and> k \<in> device_pubkey ` set (devices ro)
        else membership_spec cr S (owner_bytes owner) (device_bytes k) = Authorized)"

lemma roster_get_device_iff: "roster_get_device r k \<noteq> None \<longleftrightarrow> k \<in> device_pubkey ` set (devices r)"
  by (auto simp: roster_get_device_def find_first_def find_None_iff)

lemma authorized_entitled:
  assumes "index_inv cr S (verified_peer_app_keys m)" "owner_device_is_authorized cr m owner k"
  shows "entitled cr S m owner k"
proof -
  have "ow = owner_bytes owner" if "owner_to_nostr cr owner = Inr ow" for ow
    using that by (auto simp: owner_to_nostr_def split: if_splits)
  moreover have "dv = device_bytes k" if "device_to_nostr cr k = Inr dv" for dv
    using that by (auto simp: device_to_nostr_def split: if_splits)
  ultimately show ?thesis
    using assms(2) membership_inv [OF assms(1)] roster_get_device_iff [of _ k]
    unfolding entitled_def owner_device_is_authorized_def manager_roster_def
    by (auto split: if_splits option.splits sum.splits)
qed

lemma manages_entitled:
  assumes "manages cr S m" "ids_unique cr S" "device_of m owner k = Some r" "authorized r"
  shows "entitled cr S m owner k"
proof -
  have inv: "manager_inv cr S m" using assms(1,2) by (rule manages_inv)
  then have "proved_at cr m owner" by (simp add: manager_inv_def all_proved_def)
  then have "owner_device_is_authorized cr m owner k" using assms(3,4) unfolding proved_at_def by blast
  then show ?thesis using authorized_entitled inv unfolding manager_inv_def by blast
qed

section \<open>Sending\<close>

lemma delivery_fields [simp]:
  "delivery_owner_pubkey (delivery ow k env) = ow" "delivery_device_pubkey (delivery ow k env) = k"
  by (simp_all add: delivery_def)

lemma start_session_target:
  assumes "start_session cr now ow k payload x (r, ctx) = (Inr (Some (d, resp)), st)"
  shows "delivery_owner_pubkey d = ow \<and> delivery_device_pubkey d = k"
  using assms by (auto simp: start_session_def apply_send_def elim!: then_do_cases split: prod.splits)

lemma deliver_over_invite_target:
  assumes "deliver_over_invite cr m now ow k payload (r, ctx) = (Inr (Some (d, resp)), st)"
  shows "delivery_owner_pubkey d = ow \<and> delivery_device_pubkey d = k"
  using assms by (auto simp: deliver_over_invite_def split: option.splits prod.splits sum.splits if_splits
      dest: start_session_target)

lemma deliver_over_session_target:
  assumes "deliver_over_session cr now ow k payload src st0 = (Inr (Some (d, resp)), st)"
  shows "delivery_owner_pubkey d = ow \<and> delivery_device_pubkey d = k"
  using assms by (auto simp: deliver_over_session_def apply_send_def Let_def elim!: then_do_cases
      split: option.splits prod.splits)

lemma record_delivery_target:
  assumes "record_delivery cr m now ow k payload refresh (r, ctx) = (Inr (Some (d, resp)), st)"
  shows "authorized r \<and> \<not> is_stale r \<and> delivery_owner_pubkey d = ow \<and> delivery_device_pubkey d = k"
proof (cases "\<not> authorized r \<or> is_stale r")
  case True
  then show ?thesis using assms by (auto simp: record_delivery_def)
next
  case False
  then show ?thesis
    using assms unfolding record_delivery_def
    by (auto simp: Let_def elim!: then_do_cases split: if_splits option.splits
        dest: deliver_over_invite_target deliver_over_session_target)
qed

lemma with_record_out:
  assumes "with_record now ow k f (m, ctx) = (out, m', ctx')"
  obtains r' where "f (device_record_mut (user_record_mut m ow) k now, ctx) = (out, r', ctx')"
  using assms by (auto simp: with_record_def Let_def split: prod.splits)

lemma device_record_mut_authorized:
  assumes "authorized (device_record_mut (user_record_mut m ow) k now)"
  shows "\<exists>r. device_of m ow k = Some r \<and> authorized r \<and> r = device_record_mut (user_record_mut m ow) k now"
  using assms by (auto simp: device_record_mut_def device_record_new_def user_record_mut_simps split: option.splits)

definition sendable :: "SessionManager \<Rightarrow> Delivery \<Rightarrow> bool" where
  "sendable m d \<longleftrightarrow> (\<exists>r. device_of m (delivery_owner_pubkey d) (delivery_device_pubkey d) = Some r
     \<and> authorized r \<and> \<not> is_stale r)"

lemma prepare_device_delivery_sendable:
  assumes "prepare_device_delivery cr now ow k payload refresh (m, ctx) = (Inr (Some (d, resp)), st)"
  shows "sendable m d"
proof -
  obtain m' ctx' where st: "st = (m', ctx')" by (cases st)
  from assms obtain r' where "record_delivery cr m now ow k payload refresh
      (device_record_mut (user_record_mut m ow) k now, ctx) = (Inr (Some (d, resp)), r', ctx')"
    unfolding st prepare_device_delivery_def by (auto elim: with_record_out)
  from record_delivery_target [OF this] show ?thesis
    using device_record_mut_authorized unfolding sendable_def by fastforce
qed

lemma sendable_quiet: "quiet m m' \<Longrightarrow> sendable m' d \<Longrightarrow> sendable m d"
  unfolding sendable_def quiet_def by metis

lemma send_targets_sendable:
  assumes "send_targets cr now payload refresh ts (m, ctx) = (Inr (ds, rs, gs), st)" "d \<in> set ds"
  shows "sendable m d"
  using assms
proof (induction ts arbitrary: m ctx ds rs gs)
  case (Cons t ts)
  obtain ow k where t: "t = (ow, k)" by (cases t)
  from Cons.prems(1) obtain out m1 ctx1 ds1 rs1 gs1 where
    1: "prepare_device_delivery cr now ow k payload refresh (m, ctx) = (Inr out, m1, ctx1)" and
    2: "send_targets cr now payload refresh ts (m1, ctx1) = (Inr (ds1, rs1, gs1), st)" and
    3: "ds = (case out of Some (d, response) \<Rightarrow> d # ds1 | None \<Rightarrow> ds1)"
    unfolding t by (auto elim!: then_do_cases split: option.splits prod.splits)
  have "quiet m m1" using 1 by (rule prepare_device_delivery_quiet)
  then show ?case
    using Cons.IH [OF 2] Cons.prems(2) 1 3
    by (auto split: option.splits dest: prepare_device_delivery_sendable sendable_quiet)
qed simp

lemma deliver_inactive_target:
  assumes "deliver_inactive cr now ow k payload ss st = (Inr ds, st')" "d \<in> set ds"
  shows "delivery_owner_pubkey d = ow \<and> delivery_device_pubkey d = k"
  using assms
proof (induction ss arbitrary: st ds)
  case (Cons s ss)
  then show ?case
    by (auto simp: apply_send_def elim!: then_do_cases split: if_splits)
qed simp

lemma deliver_active_target:
  assumes "deliver_active cr now ow k payload st0 = (Inr xs, st1)" "x \<in> set xs"
  shows "delivery_owner_pubkey x = ow \<and> delivery_device_pubkey x = k"
  using assms by (auto simp: deliver_active_def apply_send_def elim!: then_do_cases split: option.splits if_splits)

lemma record_deliveries_all_target:
  assumes "record_deliveries_all cr now ow k payload (r, ctx) = (Inr ds, st)" "d \<in> set ds"
  shows "authorized r \<and> \<not> is_stale r \<and> delivery_owner_pubkey d = ow \<and> delivery_device_pubkey d = k"
proof (cases "\<not> authorized r \<or> is_stale r")
  case True
  then show ?thesis using assms by (auto simp: record_deliveries_all_def)
next
  case False
  then show ?thesis
    using assms unfolding record_deliveries_all_def
    by (auto elim!: then_do_cases dest: deliver_inactive_target deliver_active_target)
qed

lemma send_targets_all_sendable:
  assumes "send_targets_all cr now payload ts (m, ctx) = (Inr (ds, rs, gs), st)" "d \<in> set ds"
  shows "sendable m d"
  using assms
proof (induction ts arbitrary: m ctx ds rs gs)
  case (Cons t ts)
  obtain ow k where t: "t = (ow, k)" by (cases t)
  from Cons.prems(1) obtain xs m1 ctx1 out m2 ctx2 ds1 rs1 gs1 where
    1: "prepare_device_deliveries_for_all_send_sessions cr now ow k payload (m, ctx) = (Inr xs, m1, ctx1)" and
    2: "(if xs = [] then prepare_device_delivery cr now ow k payload False (m1, ctx1) else (Inr None, m1, ctx1)) =
        (Inr out, m2, ctx2)" and
    3: "send_targets_all cr now payload ts (m2, ctx2) = (Inr (ds1, rs1, gs1), st)" and
    4: "set ds \<subseteq> set xs \<union> (fst ` set_option out) \<union> set ds1"
    unfolding t by (auto elim!: then_do_cases split: option.splits prod.splits if_splits)
  have q1: "quiet m m1" using 1 by (rule prepare_all_deliveries_quiet)
  moreover have "quiet m1 m2" using 2 by (auto split: if_splits intro: prepare_device_delivery_quiet)
  ultimately have q2: "quiet m m2" by (rule quiet_trans)
  from 1 obtain r' where r': "record_deliveries_all cr now ow k payload
      (device_record_mut (user_record_mut m ow) k now, ctx) = (Inr xs, r', ctx1)"
    unfolding prepare_device_deliveries_for_all_send_sessions_def by (auto elim: with_record_out)
  have "sendable m d" if "d \<in> set xs"
    using record_deliveries_all_target [OF r' that] device_record_mut_authorized unfolding sendable_def by fastforce
  moreover have "sendable m d" if "out = Some (d, resp)" for resp
    using 2 that by (auto split: if_splits intro: sendable_quiet [OF q1] prepare_device_delivery_sendable)
  moreover have "sendable m d" if "d \<in> set ds1" using Cons.IH [OF 3 that] sendable_quiet [OF q2] by blast
  ultimately show ?case using Cons.prems(2) 4 by fastforce
qed simp

text \<open>
  C13. Messages go to authorized devices only: in every run of the manager, started new or from any
  stored snapshot with at most ten inactive sessions per device, whatever rosters, invites, responses,
  AppKeys events and imported sessions it is given, each delivery it prepares is addressed to a device
  that is entitled to act for the owner: the owner's own key, a device of the local roster, or a device
  that every newest valid signed AppKeys snapshot of the owner lists. The hypothesis on ids is that the
  event hash has no collision among the observed events that verify.
\<close>

theorem deliveries_authorized:
  assumes "manages cr S m" "ids_unique cr S"
    and "prepare_explicit_send cr now recipient targets payload gaps refresh (m, ctx) = (Inr p, m', ctx')
      \<or> prepare_local_sibling_send_reusing_all_sessions cr now payload (m, ctx) = (Inr p, m', ctx')"
    and "d \<in> set (deliveries p)"
  shows "entitled cr S m (delivery_owner_pubkey d) (delivery_device_pubkey d)"
proof -
  have "sendable m d"
    using assms(3)
  proof
    assume "prepare_explicit_send cr now recipient targets payload gaps refresh (m, ctx) = (Inr p, m', ctx')"
    then obtain ds rs gs st where "send_targets cr now payload refresh (bt_keys targets) (m, ctx) = (Inr (ds, rs, gs), st)"
      "deliveries p = ds"
      unfolding prepare_explicit_send_def by (auto elim!: then_do_cases)
    then show ?thesis using send_targets_sendable assms(4) by blast
  next
    assume "prepare_local_sibling_send_reusing_all_sessions cr now payload (m, ctx) = (Inr p, m', ctx')"
    then obtain ds rs gs st ts where "send_targets_all cr now payload ts (m, ctx) = (Inr (ds, rs, gs), st)"
      "deliveries p = ds"
      unfolding prepare_local_sibling_send_reusing_all_sessions_def by (auto elim!: then_do_cases)
    then show ?thesis using send_targets_all_sendable assms(4) by blast
  qed
  then show ?thesis using manages_entitled [OF assms(1,2)] unfolding sendable_def by blast
qed

text \<open>A run on the demonstration crates: one peer with its own device, its roster and its invite.\<close>

definition demo_peer_invite :: Invite where
  "demo_peer_invite = projr (fst (create_new_with_context demo_full 50 [[5], [6]] (DevicePubkey [2]) (Some (OwnerPubkey [2])) None))"

definition demo_manager_new :: SessionManager where
  "demo_manager_new = projr (session_manager_new demo_full (OwnerPubkey [1]) [1])"

definition demo_manager :: SessionManager where
  "demo_manager = snd (observe_peer_roster demo_full
     (snd (observe_device_invite demo_full demo_manager_new (OwnerPubkey [2]) demo_peer_invite))
     (OwnerPubkey [2]) (roster_new 40 [\<lparr>device_pubkey = DevicePubkey [2], device_created_at = 40\<rparr>]))"

lemma demo_manager_run: "manages demo_full {} demo_manager"
proof -
  have "session_manager_new demo_full (OwnerPubkey [1]) [1] = Inr demo_manager_new" by code_simp
  then have "manages demo_full {} demo_manager_new" by (rule manager_new)
  then show ?thesis unfolding demo_manager_def by (intro manager_peer_roster manager_device_invite)
qed

definition demo_sent :: "PreparedSend res \<times> SessionManager \<times> ctx" where
  "demo_sent = prepare_explicit_send demo_full 100 (OwnerPubkey [2]) (bs_of_list [(OwnerPubkey [2], DevicePubkey [2])])
     [9] [] False (demo_manager, [[7], [8], [9], [10], [11], [12], [13]], 0)"

text \<open>A manager that has observed a signed snapshot and the invite of the device it lists.\<close>

definition demo_informed_invite :: Invite where
  "demo_informed_invite = projr (fst (create_new_with_context demo_full 50 [[5], [6]] (DevicePubkey demo_device)
     (Some (OwnerPubkey demo_owner)) None))"

definition demo_informed :: SessionManager where
  "demo_informed = snd (observe_device_invite demo_full
     (snd (observe_peer_app_keys_event demo_full demo_manager_new demo_snapshot 60))
     (OwnerPubkey demo_owner) demo_informed_invite)"

definition demo_informed_sent :: "PreparedSend res \<times> SessionManager \<times> ctx" where
  "demo_informed_sent = prepare_explicit_send demo_full 100 (OwnerPubkey demo_owner)
     (bs_of_list [(OwnerPubkey demo_owner, DevicePubkey demo_device)]) [9] [] False
     (demo_informed, [[7], [8], [9], [10], [11], [12], [13]], 0)"

lemma demo_informed_run: "manages demo_full {(demo_snapshot, 60)} demo_informed"
proof -
  have "session_manager_new demo_full (OwnerPubkey [1]) [1] = Inr demo_manager_new" by code_simp
  then have "manages demo_full (insert (demo_snapshot, 60) {})
      (snd (observe_peer_app_keys_event demo_full demo_manager_new demo_snapshot 60))"
    by (rule manager_evidence [OF manager_new prod.collapse [symmetric]])
  then show ?thesis unfolding demo_informed_def by (rule manager_device_invite)
qed

lemma demo_informed_ids: "ids_unique demo_full {(demo_snapshot, 60)}"
  by (simp add: ids_unique_def same_content_def)

lemma demo_informed_send:
  "prepare_explicit_send demo_full 100 (OwnerPubkey demo_owner)
     (bs_of_list [(OwnerPubkey demo_owner, DevicePubkey demo_device)]) [9] [] False
     (demo_informed, [[7], [8], [9], [10], [11], [12], [13]], 0) =
   (Inr (projr (fst demo_informed_sent)), fst (snd demo_informed_sent), snd (snd demo_informed_sent))"
proof -
  have "is_ok (fst demo_informed_sent)" by code_simp
  then show ?thesis unfolding demo_informed_sent_def [symmetric] by (metis is_ok_iff prod.collapse sum.sel(2))
qed

theorem deliveries_authorized_witness:
  "entitled demo_full {(demo_snapshot, 60)} demo_informed
     (delivery_owner_pubkey (hd (deliveries (projr (fst demo_informed_sent)))))
     (delivery_device_pubkey (hd (deliveries (projr (fst demo_informed_sent)))))
   \<and> delivery_owner_pubkey (hd (deliveries (projr (fst demo_informed_sent)))) = OwnerPubkey demo_owner
   \<and> delivery_device_pubkey (hd (deliveries (projr (fst demo_informed_sent)))) = DevicePubkey demo_device"
proof -
  have "deliveries (projr (fst demo_informed_sent)) \<noteq> []"
    and who: "delivery_owner_pubkey (hd (deliveries (projr (fst demo_informed_sent)))) = OwnerPubkey demo_owner"
    "delivery_device_pubkey (hd (deliveries (projr (fst demo_informed_sent)))) = DevicePubkey demo_device"
    by code_simp+
  then have "hd (deliveries (projr (fst demo_informed_sent))) \<in> set (deliveries (projr (fst demo_informed_sent)))"
    by simp
  from deliveries_authorized [OF demo_informed_run demo_informed_ids
      disjI1 [OF demo_informed_send] this] who
  show ?thesis by simp
qed

section \<open>Receiving\<close>

lemma try_inactive_plan:
  assumes "try_inactive cr env i ss e rng = (Some (j, plan), e', rng')"
  shows "i \<le> j \<and> j - i < length ss \<and> (\<exists>rng0. plan_receive cr (ss ! (j - i)) rng0 env = (Inr plan, rng'))"
  using assms
proof (induction ss arbitrary: i e rng)
  case (Cons s ss)
  show ?case
  proof (cases "\<exists>plan rng'. matches_sender s (env_sender env) \<and> plan_receive cr s rng env = (Inr plan, rng')")
    case True
    then show ?thesis using Cons.prems by auto
  next
    case False
    then obtain e1 rng1 where "try_inactive cr env (Suc i) ss e1 rng1 = (Some (j, plan), e', rng')"
      using Cons.prems by (auto split: if_splits prod.splits sum.splits)
    from Cons.IH [OF this] show ?thesis by (auto simp: nth_Cons' Suc_diff_le)
  qed
qed simp

lemma receive_record_plan:
  assumes "receive_record cr now env r e rng = (Some payload, r', e', rng')"
  shows "\<exists>s \<in> set (record_sessions r). \<exists>rng0 plan rng1. plan_receive cr s rng0 env = (Inr plan, rng1)
    \<and> receive_payload plan = payload"
proof -
  have inactive: "\<exists>s \<in> set (record_sessions r). \<exists>rng0 plan rng1. plan_receive cr s rng0 env = (Inr plan, rng1)
      \<and> receive_payload plan = payload"
    if i: "receive_inactive cr now env r e1 rng1 = (Some payload, r', e', rng')" for e1 rng1
  proof -
    from i obtain j plan where "try_inactive cr env 0 (inactive_sessions r) e1 rng1 = (Some (j, plan), e', rng')"
      "receive_payload plan = payload"
      by (auto simp: receive_inactive_def apply_receive_def split: option.splits prod.splits)
    with try_inactive_plan [OF this(1)] show ?thesis by (force simp: record_sessions_def)
  qed
  consider (active) s plan where "active_session r = Some s" "plan_receive cr s rng env = (Inr plan, rng')"
      "receive_payload plan = payload"
    | (other) e1 rng1 where "receive_inactive cr now env r e1 rng1 = (Some payload, r', e', rng')"
    using assms unfolding receive_record_def
    by (auto simp: apply_receive_def split: option.splits if_splits prod.splits sum.splits)
  then show ?thesis
  proof cases
    case active
    then have "s \<in> set (record_sessions r)" by (simp add: record_sessions_def)
    then show ?thesis using active by blast
  next
    case other
    then show ?thesis by (rule inactive)
  qed
qed

lemma receive_devices_message:
  assumes "receive_devices cr now ow allowed env ks u e rng = (Some msg, u', e', rng')"
  shows "\<exists>r. bt_get (ur_devices u) (received_device_pubkey msg) = Some r \<and> received_owner_pubkey msg = ow
    \<and> (owner_pubkey_from_device_pubkey (received_device_pubkey msg) = ow \<or> bt_contains_key allowed (received_device_pubkey msg))
    \<and> authorized r \<and> \<not> is_stale r
    \<and> (\<exists>s \<in> set (record_sessions r). \<exists>rng0 plan rng1. plan_receive cr s rng0 env = (Inr plan, rng1)
        \<and> receive_payload plan = received_payload msg)"
  using assms
proof (induction ks arbitrary: e rng)
  case (Cons k ks)
  show ?case
  proof (cases "bt_get (ur_devices u) k")
    case None
    then show ?thesis using Cons.prems by simp
  next
    case (Some r)
    obtain out1 r1 e1 rng1 where r1: "receive_record cr now env r e rng = (out1, r1, e1, rng1)" by (metis prod_cases4)
    show ?thesis
    proof (cases out1)
      case None
      then have "put_device k r1 u = u" using receive_record_result(2) [OF r1] put_device_same [OF Some] by simp
      then show ?thesis using Cons Some r1 None by (auto split: if_splits)
    next
      case payload: (Some payload)
      note plan = receive_record_plan [OF r1 [unfolded payload]]
      show ?thesis
      proof (cases "(owner_pubkey_from_device_pubkey k = ow \<or> bt_contains_key allowed k) \<and> authorized r \<and> \<not> is_stale r")
        case True
        then have "msg = \<lparr>received_owner_pubkey = ow, received_device_pubkey = k, received_payload = payload\<rparr>"
          using Cons.prems Some r1 payload by auto
        then show ?thesis using True Some plan by auto
      next
        case False
        then have "receive_devices cr now ow allowed env ks u e rng = (Some msg, u', e', rng')"
          using Cons.prems Some by auto
        then show ?thesis by (rule Cons.IH)
      qed
    qed
  qed
qed simp

text \<open>
  C14. A received message comes from an authorized device over one of its sessions: in every run, the
  device reported with the message is entitled to act for the reported owner, it is neither stale nor
  unauthorized, and the payload is what one of the sessions stored for it decrypts from the envelope.
\<close>

theorem received_from_authorized:
  assumes "manages cr S m" "ids_unique cr S" "receive cr now m owner env rng = (Inr (Some msg), m', rng')"
  shows "received_owner_pubkey msg = owner \<and> entitled cr S m owner (received_device_pubkey msg)
    \<and> (\<exists>r. device_of m owner (received_device_pubkey msg) = Some r \<and> authorized r \<and> \<not> is_stale r
        \<and> (\<exists>s \<in> set (record_sessions r). \<exists>rng0 plan rng1. plan_receive cr s rng0 env = (Inr plan, rng1)
            \<and> receive_payload plan = received_payload msg))"
proof -
  obtain u where u: "bt_get (users m) owner = Some u" using assms(3) by (cases "bt_get (users m) owner") (auto simp: receive_def)
  then obtain u' e' where "receive_devices cr now owner (authorized_devices_for_owner cr m owner) env
      (bt_keys (ur_devices u)) u None rng = (Some msg, u', e', rng')"
    using assms(3) by (auto simp: receive_def Let_def split: prod.splits option.splits)
  from receive_devices_message [OF this] obtain r where
    r: "bt_get (ur_devices u) (received_device_pubkey msg) = Some r" "received_owner_pubkey msg = owner"
    "authorized r" "\<not> is_stale r"
    and plan: "\<exists>s \<in> set (record_sessions r). \<exists>rng0 plan rng1. plan_receive cr s rng0 env = (Inr plan, rng1)
        \<and> receive_payload plan = received_payload msg"
    by blast
  have dev: "device_of m owner (received_device_pubkey msg) = Some r" using r(1) u by (simp add: device_of_def)
  show ?thesis using manages_entitled [OF assms(1,2) dev r(3)] dev r(2-4) plan by blast
qed

text \<open>
  A message that is not accepted changes nothing: when \<^verbatim>\<open>receive\<close> fails or finds no session, every
  session, roster and record is as before; a forged or replayed envelope cannot advance a ratchet.
\<close>

theorem receive_failure_unchanged:
  assumes "receive cr now m owner env rng = (out, m', rng')" "\<And>msg. out \<noteq> Inr (Some msg)"
  shows "m' = m"
  using receive_result(2) [OF assms(1)] assms(2) by blast

theorem receive_failure_unchanged_witness:
  "fst (snd (receive demo_full 100 demo_manager (OwnerPubkey [3]) (delivery_envelope (hd (deliveries (projr (fst demo_sent))))) [])) =
     demo_manager"
proof (rule receive_failure_unchanged)
  let ?x = "receive demo_full 100 demo_manager (OwnerPubkey [3]) (delivery_envelope (hd (deliveries (projr (fst demo_sent))))) []"
  show "?x = (fst ?x, fst (snd ?x), snd (snd ?x))" by simp
  have "fst ?x = Inr None" by code_simp
  then show "\<And>msg. fst ?x \<noteq> Inr (Some msg)" by simp
qed

text \<open>The peer's side of the run: the invite response is observed, then the message is received.\<close>

definition demo_peer_new :: SessionManager where
  "demo_peer_new = projr (session_manager_new demo_full (OwnerPubkey [2]) [2])"

definition demo_peer_step :: "ProcessedInviteResponse option res \<times> SessionManager \<times> bytes list" where
  "demo_peer_step = observe_invite_response demo_full 101 (hd (invite_responses (projr (fst demo_sent))))
     (replace_local_invite demo_peer_new demo_peer_invite, [[14], [15]])"

definition demo_received :: "ReceivedMessage option res \<times> SessionManager \<times> bytes list" where
  "demo_received = receive demo_full 102 (fst (snd demo_peer_step)) (OwnerPubkey [1])
     (delivery_envelope (hd (deliveries (projr (fst demo_sent))))) [[16], [17]]"

lemma demo_peer_run: "manages demo_full {} (fst (snd demo_peer_step))"
proof -
  have "session_manager_new demo_full (OwnerPubkey [2]) [2] = Inr demo_peer_new" by code_simp
  then have "manages demo_full {} (replace_local_invite demo_peer_new demo_peer_invite)"
    by (intro manager_replace_invite manager_new)
  moreover have "observe_invite_response demo_full 101 (hd (invite_responses (projr (fst demo_sent))))
     (replace_local_invite demo_peer_new demo_peer_invite, [[14], [15]]) =
       (fst demo_peer_step, fst (snd demo_peer_step), snd (snd demo_peer_step))"
    by (simp add: demo_peer_step_def)
  ultimately show ?thesis by (rule manager_invite_response)
qed

theorem received_from_authorized_witness:
  "received_owner_pubkey (the (projr (fst demo_received))) = OwnerPubkey [1]
   \<and> entitled demo_full {} (fst (snd demo_peer_step)) (OwnerPubkey [1]) (received_device_pubkey (the (projr (fst demo_received))))"
proof -
  have "is_ok (fst demo_received) \<and> projr (fst demo_received) \<noteq> None" by code_simp
  then have "demo_received = (Inr (Some (the (projr (fst demo_received)))), fst (snd demo_received), snd (snd demo_received))"
    by (metis is_ok_iff prod.collapse sum.sel(2) option.collapse)
  then have "receive demo_full 102 (fst (snd demo_peer_step)) (OwnerPubkey [1])
      (delivery_envelope (hd (deliveries (projr (fst demo_sent))))) [[16], [17]] =
    (Inr (Some (the (projr (fst demo_received)))), fst (snd demo_received), snd (snd demo_received))"
    by (simp only: demo_received_def)
  from received_from_authorized [OF demo_peer_run ids_unique_empty this] show ?thesis by blast
qed

section \<open>Bounds, evidence and pruning\<close>

text \<open>
  C16. The number of sessions kept with a device is bounded: in every run, started new or from a stored
  snapshot within the bound, a record holds at most ten inactive sessions and at most eleven together with
  the active one, and it is filed under its own device key. The hypothesis on ids is that the event hash
  has no collision among the observed AppKeys events that verify.
\<close>

theorem sessions_bounded:
  assumes "manages cr S m" "ids_unique cr S" "device_of m owner k = Some r"
  shows "length (inactive_sessions r) \<le> MAX_INACTIVE_SESSIONS
    \<and> length (record_sessions r) \<le> Suc MAX_INACTIVE_SESSIONS \<and> dr_device_pubkey r = k"
proof -
  have "users_ok m" using manages_inv [OF assms(1,2)] by (simp add: manager_inv_def all_proved_def)
  then have "device_ok k r"
    using assms(3) by (auto simp: device_of_def users_ok_def user_ok_def split: option.splits)
  then show ?thesis by (auto simp: device_ok_def record_sessions_def split: option.splits)
qed

definition demo_kept :: DeviceRecord where
  "demo_kept = the (device_of (fst (snd demo_informed_sent)) (OwnerPubkey demo_owner) (DevicePubkey demo_device))"

theorem sessions_bounded_witness:
  "active_session demo_kept \<noteq> None \<and> length (inactive_sessions demo_kept) \<le> MAX_INACTIVE_SESSIONS
   \<and> length (record_sessions demo_kept) \<le> Suc MAX_INACTIVE_SESSIONS
   \<and> dr_device_pubkey demo_kept = DevicePubkey demo_device"
proof -
  have "manages demo_full {(demo_snapshot, 60)} (fst (snd demo_informed_sent))"
    using demo_informed_run demo_informed_send by (rule manager_send)
  moreover have "device_of (fst (snd demo_informed_sent)) (OwnerPubkey demo_owner) (DevicePubkey demo_device) = Some demo_kept"
    "active_session demo_kept \<noteq> None"
    unfolding demo_kept_def by code_simp+
  ultimately show ?thesis using sessions_bounded [OF _ demo_informed_ids] by blast
qed

text \<open>
  Observing an AppKeys event does not panic: the lookup of a newly accepted event succeeds, so the
  result is the verdict of the index, and the manager keeps exactly the index's evidence.
\<close>

theorem observe_evidence_total:
  assumes "manages cr S m" "ids_unique cr (insert (ev, now) S)"
  shows "fst (observe_peer_app_keys_event cr m ev now) = fst (ingest cr (verified_peer_app_keys m) ev now)
    \<and> verified_peer_app_keys (snd (observe_peer_app_keys_event cr m ev now)) = snd (ingest cr (verified_peer_app_keys m) ev now)"
proof -
  have "ids_unique cr S" using assms(2) by (rule ids_unique_subset) blast
  then have inv: "manager_inv cr S m" using assms(1) by (intro manages_inv)
  then have "all_proved cr m" "index_inv cr S (verified_peer_app_keys m)" by (simp_all add: manager_inv_def)
  from observe_evidence_proved(3,4) [OF this assms(2), of "fst (observe_peer_app_keys_event cr m ev now)"
      "snd (observe_peer_app_keys_event cr m ev now)"]
  show ?thesis by simp
qed

theorem observe_evidence_total_witness:
  "fst (observe_peer_app_keys_event demo_full demo_manager demo_snapshot 60) =
     fst (ingest demo_full (verified_peer_app_keys demo_manager) demo_snapshot 60)"
  using observe_evidence_total [OF demo_manager_run, of demo_snapshot 60] demo_informed_ids by simp

text \<open>
  Restoring trusts only signed evidence: whatever authorization flags, rosters, claims and sessions a
  stored snapshot contains, after the restore a device is authorized for an owner only if it is entitled
  to by the AppKeys events in the snapshot (or by the local owner's own roster).
\<close>

theorem restored_authorization:
  assumes "manager_from_snapshot cr sn secret = Inr m" "snapshot_bounded sn" "ids_unique cr (snapshot_evidence sn)"
    and "device_of m owner k = Some r" "authorized r"
  shows "\<not> is_stale r \<and> entitled cr (snapshot_evidence sn) m owner k"
proof -
  have inv: "index_inv cr (snapshot_evidence sn) (verified_peer_app_keys m)"
    using assms(1-3) by (rule from_snapshot_index)
  have "proved_at cr m owner" using from_snapshot_proved(1) [OF assms(1,2)] by (simp add: all_proved_def)
  then have "\<not> is_stale r \<and> owner_device_is_authorized cr m owner k" using assms(4,5) by (simp add: proved_at_def)
  then show ?thesis using authorized_entitled [OF inv] by blast
qed

definition demo_restored :: SessionManager where
  "demo_restored = projr (manager_from_snapshot demo_full (manager_snapshot demo_manager) [1])"

lemma demo_restored: "manager_from_snapshot demo_full (manager_snapshot demo_manager) [1] = Inr demo_restored"
  unfolding demo_restored_def by code_simp

theorem restored_authorization_witness:
  "entitled demo_full (snapshot_evidence (manager_snapshot demo_manager)) demo_restored (OwnerPubkey [2]) (DevicePubkey [2])"
proof -
  have "users_ok demo_manager" using manages_inv [OF demo_manager_run ids_unique_empty] by (simp add: manager_inv_def all_proved_def)
  then have "snapshot_bounded (manager_snapshot demo_manager)" by (rule own_snapshot_bounded)
  moreover have "sn_verified_peer_app_keys_events (manager_snapshot demo_manager) = []" by code_simp
  then have "ids_unique demo_full (snapshot_evidence (manager_snapshot demo_manager))" by (simp add: snapshot_evidence_def)
  moreover have "is_some_and (device_of demo_restored (OwnerPubkey [2]) (DevicePubkey [2])) authorized" by code_simp
  ultimately show ?thesis using restored_authorization [OF demo_restored] by (auto elim: is_some_and.elims)
qed

text \<open>
  C15. A restart keeps the evidence: the index of verified AppKeys rebuilt from a manager's own snapshot is
  the index it had, for every owner, head and candidate. The hypothesis on ids is that the event hash has
  no collision among the observed AppKeys events that verify.
\<close>

theorem restart_keeps_evidence:
  assumes "manages cr S m" "ids_unique cr S" "manager_from_snapshot cr (manager_snapshot m) secret = Inr m'"
  shows "verified_peer_app_keys m' = verified_peer_app_keys m"
proof -
  have inv: "manager_inv cr S m" using assms(1,2) by (rule manages_inv)
  then have "snapshot_bounded (manager_snapshot m)" by (intro own_snapshot_bounded) (simp add: manager_inv_def all_proved_def)
  from from_snapshot_proved(2) [OF assms(3) this] show ?thesis
    using inv restore_index_events by (auto simp: manager_inv_def manager_snapshot_def)
qed

definition demo_restarted :: SessionManager where
  "demo_restarted = projr (manager_from_snapshot demo_full (manager_snapshot demo_informed) [1])"

theorem restart_keeps_evidence_witness:
  "verified_peer_app_keys demo_restarted = verified_peer_app_keys demo_informed
   \<and> membership (verified_peer_app_keys demo_restarted) demo_owner demo_device = Authorized"
proof -
  have "manager_from_snapshot demo_full (manager_snapshot demo_informed) [1] = Inr demo_restarted"
    unfolding demo_restarted_def by code_simp
  moreover have "membership (verified_peer_app_keys demo_informed) demo_owner demo_device = Authorized" by code_simp
  ultimately show ?thesis using restart_keeps_evidence [OF demo_informed_run demo_informed_ids] by simp
qed

text \<open>
  Pruning removes exactly the stale devices, reports exactly what it removed, in order, and drops a
  user only when neither a device nor a roster of it is left.
\<close>

theorem prune_stale_exact:
  "device_of (snd (prune_stale m)) owner k =
     (case device_of m owner k of None \<Rightarrow> None | Some r \<Rightarrow> if is_stale r then None else Some r)
   \<and> set (removed_devices (fst (prune_stale m))) = {(ow, d). \<exists>r. device_of m ow d = Some r \<and> is_stale r}
   \<and> set (removed_users (fst (prune_stale m))) =
       {ow. bt_get (users m) ow \<noteq> None \<and> bt_get (users (snd (prune_stale m))) ow = None}
   \<and> sorted (removed_devices (fst (prune_stale m)))"
proof (intro conjI)
  show "device_of (snd (prune_stale m)) owner k =
     (case device_of m owner k of None \<Rightarrow> None | Some r \<Rightarrow> if is_stale r then None else Some r)"
  proof (cases "bt_get (users m) owner")
    case (Some u)
    have "bt_get (ur_devices (prune_user u)) k =
        (case bt_get (ur_devices u) k of None \<Rightarrow> None | Some r \<Rightarrow> if is_stale r then None else Some r)"
      by (simp add: prune_user_def split: option.splits)
    moreover have "bt_get (ur_devices (prune_user u)) k = None" if "\<not> keep_user (prune_user u)"
      using that by (simp add: keep_user_def bt_is_empty_get)
    ultimately show ?thesis using Some by (auto simp: device_of_def prune_stale_def)
  qed (simp add: device_of_def prune_stale_def)
  show "set (removed_devices (fst (prune_stale m))) = {(ow, d). \<exists>r. device_of m ow d = Some r \<and> is_stale r}"
    by (force simp: prune_stale_def device_of_def simp flip: bt_get_entries split: option.splits)
  show "set (removed_users (fst (prune_stale m))) =
       {ow. bt_get (users m) ow \<noteq> None \<and> bt_get (users (snd (prune_stale m))) ow = None}"
    by (force simp: prune_stale_def simp flip: bt_get_entries split: option.splits if_splits)
  show "sorted (removed_devices (fst (prune_stale m)))" by (simp add: prune_stale_def)
qed

text \<open>Recording a session adds at most one.\<close>

lemma upsert_sessions_length: "length (record_sessions (upsert_session r s now)) \<le> Suc (length (record_sessions r))"
proof -
  have "length (record_sessions (upsert_session r s now)) = card (set (record_states (upsert_session r s now)))"
    using distinct_card [OF upsert_states(1) [of r s now]] by simp
  also have "\<dots> \<le> card (insert (state s) (set (record_states r)))"
    by (intro card_mono upsert_states(2)) simp
  also have "\<dots> \<le> Suc (card (set (record_states r)))" by (rule card_insert_le_m1) simp_all
  also have "\<dots> \<le> Suc (length (record_sessions r))"
    using card_length [of "record_states r"] by simp
  finally show ?thesis .
qed

lemma deliver_inactive_sessions:
  assumes "deliver_inactive cr now owner k payload ss (r, ctx) = (Inr ds, r', ctx')"
  shows "length (record_sessions r') \<le> length (record_sessions r) + length ss"
  using assms
proof (induction ss arbitrary: r ctx ds)
  case (Cons s ss)
  then obtain s' ctx1 ds1 where "deliver_inactive cr now owner k payload ss (upsert_session r s' now, ctx1) = (Inr ds1, r', ctx')"
    by (cases "can_send s") (auto simp: plan_send_ctx_def apply_send_def elim!: then_do_cases split: prod.splits)
  from Cons.IH [OF this] upsert_sessions_length [of r s' now] show ?case by simp
qed simp

lemma deliver_inactive_append:
  assumes "deliver_inactive cr now owner k payload pre st = (Inr ds, st1)"
    and "deliver_inactive cr now owner k payload post st1 = (Inl e, st2)"
  shows "deliver_inactive cr now owner k payload (pre @ post) st = (Inl e, st2)"
  using assms
proof (induction pre arbitrary: st ds)
  case (Cons s pre)
  show ?case
  proof (cases "can_send s")
    case True
    with Cons.prems(1) obtain plan r ctx ds1 where plan: "plan_send_ctx cr s payload now st = (Inr plan, r, ctx)"
      and rest: "deliver_inactive cr now owner k payload pre (upsert_session r (fst (apply_send s plan)) now, ctx) = (Inr ds1, st1)"
      by (auto simp: apply_send_def elim!: then_do_cases split: prod.splits)
    from Cons.IH [OF rest Cons.prems(2)] show ?thesis
      using True plan by (simp add: apply_send_def)
  next
    case False
    then show ?thesis using Cons.IH Cons.prems by simp
  qed
qed simp

lemma deliver_active_sessions:
  assumes "deliver_active cr now owner k payload (r, ctx) = (Inr ds, r', ctx')"
  shows "inactive_sessions r' = inactive_sessions r" "length (record_sessions r') = length (record_sessions r)"
  using assms by (cases ctx; auto simp: deliver_active_def plan_send_ctx_def apply_send_def record_sessions_def
      elim!: then_do_cases split: option.splits if_splits)+

text \<open>
  C17. A failed send over all sessions loses them: a record's inactive sessions are moved out of it before
  the loop over them, so when encryption fails for one of them, whether there was no active session, one
  that could not send or one that has just sent, the error return leaves the manager's record without that
  session and all that follow it, and without any inactive session when it was the first.
\<close>

theorem failed_send_all_loses_sessions:
  assumes "device_of m owner k = Some r" "authorized r" "\<not> is_stale r" "inactive_sessions r = pre @ s # post"
    and "deliver_active cr now owner k payload (r, ctx) = (Inr first, r1, ctx1)"
    and "deliver_inactive cr now owner k payload pre (r1\<lparr>inactive_sessions := []\<rparr>, ctx1) = (Inr ds, r2, rng, draw)"
    and "can_send s" "plan_send cr draw s payload now = Inl e"
  shows "\<exists>m'. prepare_device_deliveries_for_all_send_sessions cr now owner k payload (m, ctx) = (Inl e, m', rng, draw + 2)
    \<and> device_of m' owner k = Some r2
    \<and> length (record_sessions r2) + length (s # post) \<le> length (record_sessions r)
    \<and> (pre = [] \<longrightarrow> inactive_sessions r2 = [] \<and> active_session r2 = active_session r1)"
proof -
  have mut: "device_record_mut (user_record_mut m owner) k now = r"
    using assms(1) by (auto simp: device_of_def device_record_mut_def user_record_mut_def split: option.splits)
  have "deliver_inactive cr now owner k payload (s # post) (r2, rng, draw) = (Inl e, r2, rng, draw + 2)"
    using assms(7,8) by (simp add: plan_send_ctx_def)
  from deliver_inactive_append [OF assms(6) this]
  have "record_deliveries_all cr now owner k payload (r, ctx) = (Inl e, r2, rng, draw + 2)"
    using assms(2-5) deliver_active_sessions(1) [OF assms(5)] by (simp add: record_deliveries_all_def)
  then obtain m' where m': "prepare_device_deliveries_for_all_send_sessions cr now owner k payload (m, ctx) =
      (Inl e, m', rng, draw + 2)" "device_of m' owner k = Some r2"
    by (simp add: prepare_device_deliveries_for_all_send_sessions_def with_record_def Let_def mut)
  have "length (record_sessions (r1\<lparr>inactive_sessions := []\<rparr>)) + length (pre @ s # post) = length (record_sessions r1)"
    using deliver_active_sessions(1) [OF assms(5)] assms(4) by (simp add: record_sessions_def)
  then have "length (record_sessions r2) + length (s # post) \<le> length (record_sessions r)"
    using deliver_inactive_sessions [OF assms(6)] deliver_active_sessions(2) [OF assms(5)] by simp
  moreover have "inactive_sessions r2 = [] \<and> active_session r2 = active_session r1" if "pre = []"
    using assms(6) that by auto
  ultimately show ?thesis using m' by blast
qed

definition demo_broken_session :: Session where
  "demo_broken_session = session_from_state (initial_state [1] (Some [1])
     (Some \<lparr>public_key = DevicePubkey [1], private_key = []\<rparr>)
     \<lparr>public_key = DevicePubkey [1], private_key = [1]\<rparr> (DevicePubkey [1]))"

definition demo_waiting_session :: Session where
  "demo_waiting_session = session_from_state (initial_state [1] None None
     \<lparr>public_key = DevicePubkey [1], private_key = [1]\<rparr> (DevicePubkey [1]))"

text \<open>A record whose active session cannot send, with a broken and a usable inactive one.\<close>

definition demo_lossy :: DeviceRecord where
  "demo_lossy = (device_record_new (DevicePubkey [2]) 5)\<lparr>authorized := True,
     active_session := Some demo_waiting_session, inactive_sessions := [demo_broken_session, demo_session 2 None]\<rparr>"

definition demo_lossy_manager :: SessionManager where
  "demo_lossy_manager = put_user (OwnerPubkey [2]) (put_device (DevicePubkey [2]) demo_lossy
     (user_record_mut demo_manager (OwnerPubkey [2]))) demo_manager"

theorem failed_send_all_loses_sessions_witness:
  "\<exists>e m'. prepare_device_deliveries_for_all_send_sessions demo_full 9 (OwnerPubkey [2]) (DevicePubkey [2]) [5]
       (demo_lossy_manager, [], 0) = (Inl e, m', [], 2)
     \<and> device_of m' (OwnerPubkey [2]) (DevicePubkey [2]) = Some (demo_lossy\<lparr>inactive_sessions := []\<rparr>)"
proof -
  have "\<not> is_ok (plan_send demo_full 0 demo_broken_session [5] 9)" by code_simp
  then obtain e where e: "plan_send demo_full 0 demo_broken_session [5] 9 = Inl e"
    by (cases "plan_send demo_full 0 demo_broken_session [5] 9") auto
  have "device_of demo_lossy_manager (OwnerPubkey [2]) (DevicePubkey [2]) = Some demo_lossy"
    by (simp add: demo_lossy_manager_def)
  moreover have "authorized demo_lossy" "\<not> is_stale demo_lossy"
    "inactive_sessions demo_lossy = [] @ demo_broken_session # [demo_session 2 None]"
    by (simp_all add: demo_lossy_def device_record_new_def)
  moreover have "\<not> can_send demo_waiting_session" by code_simp
  then have "deliver_active demo_full 9 (OwnerPubkey [2]) (DevicePubkey [2]) [5] (demo_lossy, [], 0) =
      (Inr [], demo_lossy, [], 0)"
    by (simp add: deliver_active_def demo_lossy_def)
  moreover have "deliver_inactive demo_full 9 (OwnerPubkey [2]) (DevicePubkey [2]) [5] []
      (demo_lossy\<lparr>inactive_sessions := []\<rparr>, [], 0) = (Inr [], demo_lossy\<lparr>inactive_sessions := []\<rparr>, [], 0)"
    by simp
  moreover have "can_send demo_broken_session" by code_simp
  ultimately have "\<exists>m'. prepare_device_deliveries_for_all_send_sessions demo_full 9 (OwnerPubkey [2]) (DevicePubkey [2]) [5]
       (demo_lossy_manager, [], 0) = (Inl e, m', [], 0 + 2)
     \<and> device_of m' (OwnerPubkey [2]) (DevicePubkey [2]) = Some (demo_lossy\<lparr>inactive_sessions := []\<rparr>)
     \<and> length (record_sessions (demo_lossy\<lparr>inactive_sessions := []\<rparr>)) + length [demo_broken_session, demo_session 2 None]
         \<le> length (record_sessions demo_lossy)
     \<and> ([] = ([] :: Session list) \<longrightarrow> inactive_sessions (demo_lossy\<lparr>inactive_sessions := []\<rparr>) = []
        \<and> active_session (demo_lossy\<lparr>inactive_sessions := []\<rparr>) = active_session demo_lossy)"
    using e by (rule failed_send_all_loses_sessions)
  then show ?thesis by auto
qed

end
