(* ===== verification/Session_Manager_Delivery.thy ===== *)
theory Session_Manager_Delivery
  imports Session_Manager_Properties Invite_Properties
begin

text \<open>
  Two session managers together: the first message to a device whose invite is known is delivered, with
  the invite response that travels beside it.
\<close>

section \<open>The sender\<close>

lemma accept_public:
  "accept_with_owner_context_and_device cr draw now rng (iv\<lparr>inviter_ephemeral_private_key := None\<rparr>) k sk owner dev =
   accept_with_owner_context_and_device cr draw now rng iv k sk owner dev"
  by (simp add: accept_with_owner_context_and_device_def ensure_accept_allowed_def seal_response_def)

text \<open>Without a session that can send, a delivery accepts the public invite and sends over the new session.\<close>

lemma first_delivery:
  assumes "prepare_device_delivery cr now ow k payload refresh (a, rng, draw) = (Inr (Some (d, resp)), a', ctx')"
    and "device_of a ow k = Some r" "\<forall>s \<in> set (record_sessions r). \<not> can_send s"
    and "public_invite r = Some (iv\<lparr>inviter_ephemeral_private_key := None\<rparr>)"
  obtains session env rng1 session' e where "resp = Some env"
    "accept_with_owner_context_and_device cr draw now rng iv (local_device_pubkey a) (local_device_secret_key a)
       (Some (local_owner_pubkey a)) None = (Inr (session, env), rng1)"
    "send_all cr (draw + 3) session [payload] now = Inr (session', [e])"
    "delivery_envelope d = e\<lparr>env_recipient := Some k\<rparr>"
proof -
  have source: "best_send_session_source r = None"
    using best_send_cases [of r] assms(3)
    by (cases "best_send_session_source r")
       (auto simp: session_for_send_source_def record_sessions_def list_get_def
          split: SendSessionSource.splits option.splits if_splits)
  have rec: "device_record_mut (user_record_mut a ow) k now = r"
    using assms(2) by (simp add: device_record_mut_def user_record_mut_simps)
  have not_refresh: "\<not> should_refresh a ow k refresh r" using source by (simp add: should_refresh_def)
  from assms(1) obtain r' where "record_delivery cr a now ow k payload refresh (r, rng, draw) = (Inr (Some (d, resp)), r', ctx')"
    unfolding prepare_device_delivery_def using rec by (auto elim: with_record_out)
  then have over: "deliver_over_invite cr a now ow k payload (r, rng, draw) = (Inr (Some (d, resp)), r', ctx')"
    using source not_refresh by (auto simp: record_delivery_def Let_def split: if_splits)
  let ?acc = "accept_with_owner_context_and_device cr draw now rng iv (local_device_pubkey a) (local_device_secret_key a)
       (Some (local_owner_pubkey a)) None"
  obtain x rng1 where acc: "?acc = (x, rng1)" by fastforce
  then have pub: "accept_public_invite cr a now (iv\<lparr>inviter_ephemeral_private_key := None\<rparr>) (rng, draw) = (x, rng1, draw + 3)"
    by (simp add: accept_public_invite_def accept_with_owner_context_def accept_public)
  obtain session env where x: "x = Inr (session, env)"
    using over assms(4) pub by (cases x) (auto simp: deliver_over_invite_def split: if_splits)
  then have "start_session cr now ow k payload (session, env) (r, rng1, draw + 3) = (Inr (Some (d, resp)), r', ctx')"
    using over assms(4) pub by (simp add: deliver_over_invite_def)
  then obtain plan where plan: "plan_send cr (draw + 3) session payload now = Inr plan"
    "d = delivery ow k (send_envelope plan)" "resp = Some env"
    by (auto simp: start_session_def plan_send_ctx_def apply_send_def elim!: then_do_cases)
  then have "send_all cr (draw + 3) session [payload] now = Inr (session\<lparr>state := send_next_state plan\<rparr>, [send_envelope plan])"
    by (simp add: apply_send_def)
  then show thesis using that acc x plan by (simp add: delivery_def)
qed

section \<open>The receiver\<close>

lemma bt_entries_single [simp]: "bt_entries (bt_insert k v bt_empty) = [(k, v)]"
  by (simp add: bt_entries_insert)

lemma fresh_upsert:
  assumes "record_sessions r = []"
  shows "active_session (upsert_session r s now) = Some s"
  using assms by (auto simp: upsert_session_def contains_state_iff place_session_def record_sessions_def split: option.splits)

lemma normalize_single: "normalize_devices [d] = [d]"
  by (simp add: normalize_devices_def insert_earliest_def bt_values_def)

lemma active_recompute [simp]:
  "active_session (recompute_record ow t allowed r) = active_session r"
  by (simp add: recompute_record_def Let_def split: option.splits)

lemma put_device_single:
  assumes "bt_entries (ur_devices u) = [(k, r)]"
  shows "bt_entries (ur_devices (put_device k r' u)) = [(k, r')]"
  using assms by (simp add: put_device_def bt_entries_insert)

text \<open>A session stored for an unknown device that is its own owner is the only one there and is authorized.\<close>

lemma store_first_session:
  assumes "bt_get (users b) owner = None" "owner = owner_pubkey_from_device_pubkey k"
  obtains u r where "snd (store_claimed_session cr b owner k s now) = put_user owner u b"
    "fst (store_claimed_session cr b owner k s now) =
       \<lparr>processed_owner_pubkey = owner, processed_device_pubkey = k, processed_claimed_owner = None\<rparr>"
    "bt_entries (ur_devices u) = [(k, r)]" "authorized r" "\<not> is_stale r" "active_session r = Some s"
proof -
  let ?d = "\<lparr>device_pubkey = k, device_created_at = now\<rparr>"
  define r1 where "r1 = upsert_session ((device_record_new k now)\<lparr>dr_claimed_owner := None, invite_response_generated := True\<rparr>) s now"
  define u1 where "u1 = put_device k r1 ((user_record_new owner)\<lparr>roster := Some (roster_new now [?d])\<rparr>)"
  define allowed where "allowed = authorized_devices_for_owner cr (put_user owner u1 b) owner"
  have auth: "owner_device_is_authorized cr b owner k" using assms(2) by (simp add: owner_device_is_authorized_def)
  have mut: "user_record_mut b owner = user_record_new owner" using assms(1) by (simp add: user_record_mut_def)
  have eq: "snd (store_claimed_session cr b owner k s now) = put_user owner (recompute_authorization u1 allowed) b"
    using auth mut assms
    by (simp add: store_claimed_session_def Let_def manager_roster_def recompute_authorization_for_owner_def
        u1_def r1_def allowed_def device_record_mut_def user_record_new_def put_user_def bt.ins_overwrite)
  have key: "dr_device_pubkey r1 = k" by (simp add: r1_def device_record_new_def)
  define r2 where "r2 = recompute_record owner (Some now) allowed r1"
  have r2: "authorized r2" "\<not> is_stale r2" "active_session r2 = Some s" "dr_device_pubkey r2 = k"
    using key assms(2) fresh_upsert [of "(device_record_new k now)\<lparr>dr_claimed_owner := None, invite_response_generated := True\<rparr>" s now]
    by (simp_all add: r2_def recompute_record_def Let_def r1_def record_sessions_def device_record_new_def)
  let ?u2 = "u1\<lparr>ur_devices := bt_map (\<lambda>_. recompute_record owner (Some now) allowed) (ur_devices u1)\<rparr>"
  have es: "bt_entries (ur_devices ?u2) = [(k, r2)]"
    by (simp add: u1_def put_device_def user_record_new_def bt_entries_map r2_def)
  then have get: "device_record_mut ?u2 k now = r2"
    by (simp add: device_record_mut_def bt_get_code)
  have "recompute_authorization u1 allowed = recompute_listed allowed ?d ?u2"
    by (simp add: recompute_authorization_def Let_def u1_def roster_new_def normalize_single user_record_new_def put_device_def)
  then obtain r3 where "bt_entries (ur_devices (recompute_authorization u1 allowed)) = [(k, r3)]"
    "authorized r3" "\<not> is_stale r3" "active_session r3 = Some s"
    using r2 get assms(2) put_device_single [OF es]
    by (auto simp: recompute_listed_def Let_def u1_def user_record_new_def)
  moreover have "fst (store_claimed_session cr b owner k s now) =
       \<lparr>processed_owner_pubkey = owner, processed_device_pubkey = k, processed_claimed_owner = None\<rparr>"
    using auth by (simp add: store_claimed_session_def Let_def)
  ultimately show thesis using that eq by blast
qed

lemma receive_first_session:
  assumes "bt_get (users b) owner = Some u" "bt_entries (ur_devices u) = [(k, r)]" "authorized r" "\<not> is_stale r"
    and "active_session r = Some s" "owner = owner_pubkey_from_device_pubkey k"
    and "plan_receive cr s rng env = (Inr plan, rng')"
  shows "\<exists>b'. receive cr now b owner env rng =
    (Inr (Some \<lparr>received_owner_pubkey = owner, received_device_pubkey = k, received_payload = receive_payload plan\<rparr>), b', rng')"
proof -
  have "matches_sender s (env_sender env)"
    using assms(7) by (auto simp: plan_receive_def split: if_splits)
  moreover have "bt_keys (ur_devices u) = [k]" "bt_get (ur_devices u) k = Some r"
    using assms(2) by (simp_all add: bt_keys_def bt_get_code)
  ultimately show ?thesis
    using assms by (simp add: receive_def Let_def receive_record_def apply_receive_def)
qed

lemma plan_receive_recipient: "plan_receive cr s rng (e\<lparr>env_recipient := x\<rparr>) = plan_receive cr s rng e"
  by (cases e) (simp only: plan_receive_def MessageEnvelope.select_convs MessageEnvelope.update_convs cong: sum.case_cong prod.case_cong)

section \<open>First contact\<close>

text \<open>The two key pairs of a new session differ: its second secret is an independent random draw.\<close>

definition distinct_session_keys :: "Session \<Rightarrow> bool" where
  "distinct_session_keys s \<longleftrightarrow> map_option public_key (our_current_nostr_key (state s)) \<noteq> Some (public_key (our_next_nostr_key (state s)))"

text \<open>
  C18. First contact succeeds: a device publishes an invite; a sender whose record of that device is
  authorized and has no usable session prepares a delivery. Then the receiving manager processes the
  invite response, files the new session under the sender's identity, and receives the payload from
  exactly that device. The sender's device is its own owner, and is not yet known to the receiver.
\<close>

theorem first_contact_delivers:
  assumes "invite_laws cr" "delivery_crypto cr"
    and "create_new_with_context cr t rng0 (DevicePubkey (pk_of_sk cr sk_b)) inviter_owner mx = (Inr iv, rng0')"
    and "local_invite b = Some iv" "local_device_secret_key b = sk_b" "sk_from_slice cr sk_b"
    and "local_device_secret_key a = sk_a" "local_device_pubkey a = DevicePubkey (pk_of_sk cr sk_a)"
    and "local_owner_pubkey a = owner_pubkey_from_device_pubkey (local_device_pubkey a)"
    and "pk_from_slice cr (owner_bytes (local_owner_pubkey a))" "pk_xonly cr (owner_bytes (local_owner_pubkey a))"
    and "device_of a ow k = Some r" "\<forall>s \<in> set (record_sessions r). \<not> can_send s"
    and "public_invite r = Some (iv\<lparr>inviter_ephemeral_private_key := None\<rparr>)"
    and "prepare_device_delivery cr now ow k payload refresh (a, rng1, draw) = (Inr (Some (d, resp)), a', ctx')"
    and "\<forall>session env rng. accept_with_owner_context_and_device cr draw now rng1 iv (local_device_pubkey a) sk_a
        (Some (local_owner_pubkey a)) None = (Inr (session, env), rng) \<longrightarrow> distinct_session_keys session"
    and "bt_get (users b) (local_owner_pubkey a) = None"
    and "\<exists>c \<in> set rng2. sk_from_slice cr c" "\<exists>c \<in> set rng3. sk_from_slice cr c"
  shows "\<exists>env b1 rng2' b2 rng3'. resp = Some env
    \<and> observe_invite_response cr t2 env (b, rng2) = (Inr (Some \<lparr>processed_owner_pubkey = local_owner_pubkey a,
        processed_device_pubkey = local_device_pubkey a, processed_claimed_owner = None\<rparr>), b1, rng2')
    \<and> receive cr t3 b1 (local_owner_pubkey a) (delivery_envelope d) rng3 =
        (Inr (Some \<lparr>received_owner_pubkey = local_owner_pubkey a, received_device_pubkey = local_device_pubkey a,
           received_payload = payload\<rparr>), b2, rng3')"
proof -
  from first_delivery [OF assms(15,12,13,14)] obtain session env rng1' session' e where
    resp: "resp = Some env" and
    acc: "accept_with_owner_context_and_device cr draw now rng1 iv (DevicePubkey (pk_of_sk cr sk_a)) sk_a
       (Some (local_owner_pubkey a)) None = (Inr (session, env), rng1')" and
    sent: "send_all cr (draw + 3) session [payload] now = Inr (session', [e])" and
    d: "delivery_envelope d = e\<lparr>env_recipient := Some k\<rparr>"
    unfolding assms(7,8) by metis
  have diff: "map_option public_key (our_current_nostr_key (state session)) \<noteq> Some (public_key (our_next_nostr_key (state session)))"
    using assms(16) acc unfolding assms(8) distinct_session_keys_def by blast
  have ow: "\<And>x. Some (local_owner_pubkey a) = Some x \<Longrightarrow> pk_from_slice cr (owner_bytes x) \<and> pk_xonly cr (owner_bytes x)"
    using assms(10,11) by simp
  have "length [payload] \<le> MAX_SKIP" "distinct [0 :: nat]" "set [0] \<subseteq> {..<length [payload]}"
    by (simp_all add: MAX_SKIP_def)
  from invite_handshake [OF assms(1-3,6) acc ow assms(18,19) diff sent this]
  obtain rp iv' rng2' s' rng3' where
    proc: "process_response cr iv rng2 env sk_b = (Inr rp, iv', rng2')"
      "invitee_device_pubkey rp = local_device_pubkey a" "invitee_owner_pubkey rp = Some (local_owner_pubkey a)" and
    all: "receive_all cr (response_session rp) rng3 [e] = (Inr (s', [payload]), rng3')"
    unfolding assms(8) by auto
  then obtain plan where plan: "plan_receive cr (response_session rp) rng3 (delivery_envelope d) = (Inr plan, rng3')"
    "receive_payload plan = payload"
    unfolding d plan_receive_recipient
    by (auto simp: apply_receive_def split: prod.splits sum.splits)
  let ?b = "b\<lparr>local_invite := Some iv'\<rparr>"
  have none: "bt_get (users ?b) (local_owner_pubkey a) = None" using assms(17) by simp
  obtain u r' where store: "snd (store_claimed_session cr ?b (local_owner_pubkey a) (local_device_pubkey a) (response_session rp) t2) =
      put_user (local_owner_pubkey a) u ?b"
    "fst (store_claimed_session cr ?b (local_owner_pubkey a) (local_device_pubkey a) (response_session rp) t2) =
      \<lparr>processed_owner_pubkey = local_owner_pubkey a, processed_device_pubkey = local_device_pubkey a, processed_claimed_owner = None\<rparr>"
    and rec: "bt_entries (ur_devices u) = [(local_device_pubkey a, r')]" "authorized r'" "\<not> is_stale r'"
      "active_session r' = Some (response_session rp)"
    by (rule store_first_session [OF none assms(9)])
  have "observe_invite_response cr t2 env (b, rng2) = (Inr (Some \<lparr>processed_owner_pubkey = local_owner_pubkey a,
        processed_device_pubkey = local_device_pubkey a, processed_claimed_owner = None\<rparr>), put_user (local_owner_pubkey a) u ?b, rng2')"
    using proc store assms(4,5) by (simp add: observe_invite_response_def Let_def case_prod_beta)
  moreover have "\<exists>b2. receive cr t3 (put_user (local_owner_pubkey a) u ?b) (local_owner_pubkey a) (delivery_envelope d) rng3 =
        (Inr (Some \<lparr>received_owner_pubkey = local_owner_pubkey a, received_device_pubkey = local_device_pubkey a,
           received_payload = receive_payload plan\<rparr>), b2, rng3')"
    by (rule receive_first_session [OF _ rec assms(9) plan(1)]) simp
  ultimately show ?thesis using resp plan(2) by blast
qed

definition demo_first :: "delivery_result \<times> SessionManager \<times> ctx" where
  "demo_first = prepare_device_delivery demo_full 100 (OwnerPubkey [2]) (DevicePubkey [2]) [9] False
     (demo_manager, [[7], [8], [9], [10], [11], [12], [13]], 0)"

definition demo_known_peer :: DeviceRecord where
  "demo_known_peer = the (device_of demo_manager (OwnerPubkey [2]) (DevicePubkey [2]))"

theorem first_contact_delivers_witness:
  "\<exists>env b1 rng2' b2 rng3'. snd (the (projr (fst demo_first))) = Some env
    \<and> observe_invite_response demo_full 101 env (replace_local_invite demo_peer_new demo_peer_invite, [[14], [15]]) =
        (Inr (Some \<lparr>processed_owner_pubkey = local_owner_pubkey demo_manager,
          processed_device_pubkey = local_device_pubkey demo_manager, processed_claimed_owner = None\<rparr>), b1, rng2')
    \<and> receive demo_full 102 b1 (local_owner_pubkey demo_manager) (delivery_envelope (fst (the (projr (fst demo_first))))) [[16], [17]] =
        (Inr (Some \<lparr>received_owner_pubkey = local_owner_pubkey demo_manager,
           received_device_pubkey = local_device_pubkey demo_manager, received_payload = [9]\<rparr>), b2, rng3')"
proof (rule first_contact_delivers [OF demo_full_laws])
  let ?b = "replace_local_invite demo_peer_new demo_peer_invite"
  show "delivery_crypto demo_full" unfolding demo_full_def by (rule demo_delivery)
  show "create_new_with_context demo_full 50 [[5], [6]] (DevicePubkey (pk_of_sk demo_full [2])) (Some (OwnerPubkey [2])) None =
      (Inr demo_peer_invite, [])"
    unfolding demo_peer_invite_def by code_simp
  show "local_invite ?b = Some demo_peer_invite" by (simp add: replace_local_invite_def)
  show "local_device_secret_key ?b = [2]" by code_simp
  show "sk_from_slice demo_full [2]" by code_simp
  show "local_device_secret_key demo_manager = [1]" by code_simp
  show "local_device_pubkey demo_manager = DevicePubkey (pk_of_sk demo_full [1])" by code_simp
  show "local_owner_pubkey demo_manager = owner_pubkey_from_device_pubkey (local_device_pubkey demo_manager)" by code_simp
  show "pk_from_slice demo_full (owner_bytes (local_owner_pubkey demo_manager))" by code_simp
  show "pk_xonly demo_full (owner_bytes (local_owner_pubkey demo_manager))" by code_simp
  have "device_of demo_manager (OwnerPubkey [2]) (DevicePubkey [2]) \<noteq> None" by code_simp
  then show "device_of demo_manager (OwnerPubkey [2]) (DevicePubkey [2]) = Some demo_known_peer"
    by (simp add: demo_known_peer_def)
  show "\<forall>s \<in> set (record_sessions demo_known_peer). \<not> can_send s" by code_simp
  show "public_invite demo_known_peer = Some (demo_peer_invite\<lparr>inviter_ephemeral_private_key := None\<rparr>)" by code_simp
  have "is_ok (fst demo_first) \<and> projr (fst demo_first) \<noteq> None" by code_simp
  then have "demo_first = (Inr (Some (the (projr (fst demo_first)))), fst (snd demo_first), snd (snd demo_first))"
    by (metis is_ok_iff option.collapse prod.collapse sum.sel(2))
  then show "prepare_device_delivery demo_full 100 (OwnerPubkey [2]) (DevicePubkey [2]) [9] False
      (demo_manager, [[7], [8], [9], [10], [11], [12], [13]], 0) =
    (Inr (Some (fst (the (projr (fst demo_first))), snd (the (projr (fst demo_first))))), fst (snd demo_first), snd (snd demo_first))"
    by (simp only: demo_first_def prod.collapse)
  have "distinct_session_keys (fst (projr (fst (accept_with_owner_context_and_device demo_full 0 100
      [[7], [8], [9], [10], [11], [12], [13]] demo_peer_invite (local_device_pubkey demo_manager) [1]
      (Some (local_owner_pubkey demo_manager)) None))))" by code_simp
  then show "\<forall>session env rng. accept_with_owner_context_and_device demo_full 0 100
      [[7], [8], [9], [10], [11], [12], [13]] demo_peer_invite (local_device_pubkey demo_manager) [1]
      (Some (local_owner_pubkey demo_manager)) None = (Inr (session, env), rng) \<longrightarrow> distinct_session_keys session" by auto
  show "bt_get (users ?b) (local_owner_pubkey demo_manager) = None" by code_simp
  show "\<exists>c \<in> set [[14], [15]]. sk_from_slice demo_full c" by code_simp
  show "\<exists>c \<in> set [[16], [17]]. sk_from_slice demo_full c" by code_simp
qed

end
