(* ===== verification/Group_Types.thy ===== *)
theory Group_Types
  imports Session_Manager_Traffic Sender_Key
begin

text \<open>
  The vocabulary of group messaging (\<^verbatim>\<open>group.rs\<close>): the protocol a group runs, the snapshots that are
  exchanged and stored, the commands members send each other over their sessions, the messages under a
  sender key, and the policy by which a receiver asks again for a missing key. The payload codec is a
  trait of the crate, so it is a record of functions here.
\<close>

type_synonym SenderEventPubkey = DevicePubkey
type_synonym u16 = "16 word"

section \<open>Protocols\<close>

datatype GroupStrategy = PairwiseFanout | SenderKey

record GroupProtocol =
  strategy :: GroupStrategy
  protocol_version :: u16

definition pairwise_fanout_v1 :: GroupProtocol where
  "pairwise_fanout_v1 = \<lparr>strategy = PairwiseFanout, protocol_version = 1\<rparr>"

definition sender_key_v1 :: GroupProtocol where
  "sender_key_v1 = \<lparr>strategy = SenderKey, protocol_version = 1\<rparr>"

definition is_pairwise_fanout_v1 :: "GroupProtocol \<Rightarrow> bool" where
  "is_pairwise_fanout_v1 p \<longleftrightarrow> p = pairwise_fanout_v1"

definition is_sender_key_v1 :: "GroupProtocol \<Rightarrow> bool" where
  "is_sender_key_v1 p \<longleftrightarrow> p = sender_key_v1"

text \<open>The two accepted spellings of a protocol in stored data.\<close>

datatype ProtocolWire = LegacyName string | Descriptor GroupStrategy u16

fun group_protocol_deserialize :: "ProtocolWire \<Rightarrow> GroupProtocol res" where
  "group_protocol_deserialize (LegacyName value) =
     (if value = ''pairwise_fanout_v1'' then Inr pairwise_fanout_v1
      else if value = ''sender_key_v1'' then Inr sender_key_v1
      else Inl (Json (''unsupported group protocol `'' @ value @ ''`'')))"
| "group_protocol_deserialize (Descriptor s v) = Inr \<lparr>strategy = s, protocol_version = v\<rparr>"

section \<open>Snapshots and messages\<close>

record GroupSnapshot =
  gs_group_id :: string
  gs_protocol :: GroupProtocol
  gs_name :: string
  gs_picture :: "string option"
  gs_about :: "string option"
  gs_created_by :: OwnerPubkey
  gs_members :: "OwnerPubkey list"
  gs_admins :: "OwnerPubkey list"
  gs_revision :: u64
  gs_created_at :: UnixSeconds
  gs_updated_at :: UnixSeconds

record SenderKeyDistribution =
  dist_group_id :: string
  dist_key_id :: u32
  dist_sender_event_pubkey :: SenderEventPubkey
  dist_chain_key :: bytes
  dist_iteration :: u32
  dist_created_at :: UnixSeconds

record SenderKeyRepairRequest =
  req_group_id :: string
  req_sender_event_pubkey :: SenderEventPubkey
  req_key_id :: "u32 option"
  req_message_number :: "u32 option"
  req_required_revision :: "u64 option"
  req_created_at :: UnixSeconds

record GroupSenderKeyRepairSnapshot =
  rs_key_id :: u32
  rs_distribution :: SenderKeyDistribution
  rs_recipients :: "OwnerPubkey list"

record GroupSenderKeyDistributionRecipientsSnapshot =
  dr_key_id :: u32
  dr_recipients :: "OwnerPubkey list"

record GroupSenderKeyRecordSnapshot =
  ks_group_id :: string
  ks_sender_owner :: OwnerPubkey
  ks_sender_device :: DevicePubkey
  ks_sender_event_pubkey :: SenderEventPubkey
  ks_sender_event_secret_key :: "bytes option"
  ks_latest_key_id :: "u32 option"
  ks_states :: "SenderKeyState list"
  ks_distribution_history :: "SenderKeyDistribution list"
  ks_distributed_to :: "GroupSenderKeyDistributionRecipientsSnapshot list"
  ks_repair_snapshots :: "GroupSenderKeyRepairSnapshot list"

record GroupManagerSnapshot =
  gms_local_owner_pubkey :: OwnerPubkey
  gms_groups :: "GroupSnapshot list"
  gms_sender_keys :: "GroupSenderKeyRecordSnapshot list"

record GroupSenderKeyMessageEnvelope =
  ske_group_id :: string
  ske_sender_event_pubkey :: SenderEventPubkey
  ske_signer_secret_key :: bytes
  ske_key_id :: u32
  ske_message_number :: u32
  ske_encrypted_header :: "string option"
  ske_created_at :: UnixSeconds
  ske_ciphertext :: bytes

record GroupSenderKeyMessage =
  skm_group_id :: string
  skm_sender_event_pubkey :: SenderEventPubkey
  skm_key_id :: u32
  skm_message_number :: u32
  skm_encrypted_header :: "string option"
  skm_created_at :: UnixSeconds
  skm_ciphertext :: bytes

datatype GroupPendingFanout = RemoteFanout OwnerPubkey bytes | LocalSiblings bytes

record GroupPreparedPublish =
  pp_deliveries :: "Delivery list"
  pp_invite_responses :: "InviteResponseEnvelope list"
  pp_sender_key_messages :: "GroupSenderKeyMessageEnvelope list"
  pp_relay_gaps :: "RelayGap list"
  pp_pending_fanouts :: "GroupPendingFanout list"

definition prepared_publish_empty :: GroupPreparedPublish where
  "prepared_publish_empty =
     \<lparr>pp_deliveries = [], pp_invite_responses = [], pp_sender_key_messages = [], pp_relay_gaps = [],
      pp_pending_fanouts = []\<rparr>"

record GroupPreparedSend =
  ps_group_id :: string
  ps_remote :: GroupPreparedPublish
  ps_local_sibling :: GroupPreparedPublish

record GroupCreateResult =
  cr_group :: GroupSnapshot
  cr_prepared :: GroupPreparedSend

datatype GroupPairwiseCommand =
    MetadataSnapshot GroupSnapshot
  | GroupMessage string u64 bytes
  | SenderKeyDistributionCommand SenderKeyDistribution
  | SenderKeyRepairRequestCommand SenderKeyRepairRequest

record GroupSenderKeyPlaintext =
  pt_group_id :: string
  pt_revision :: u64
  pt_body :: bytes

record GroupReceivedMessage =
  grm_group_id :: string
  grm_sender_owner :: OwnerPubkey
  grm_sender_device :: "DevicePubkey option"
  grm_body :: bytes
  grm_revision :: u64

record GroupSenderKeyRepairRequestEvent =
  rre_requester_owner :: OwnerPubkey
  rre_requester_device :: "DevicePubkey option"
  rre_request :: SenderKeyRepairRequest

datatype GroupIncomingEvent =
    MetadataUpdated GroupSnapshot
  | GroupMessageEvent GroupReceivedMessage
  | SenderKeyRepairRequested GroupSenderKeyRepairRequestEvent

datatype GroupSenderKeyHandleResult =
    GroupEvent GroupIncomingEvent
  | PendingDistribution string SenderEventPubkey "u32 option" "u32 option"
  | PendingRevision string u64 u64 u32 u32
  | Ignored

section \<open>The payload codec\<close>

record GroupPayloadEncodeContext =
  enc_local_device_pubkey :: DevicePubkey
  enc_created_at :: UnixSeconds

record GroupSenderKeyPlaintextDecodeContext =
  dec_group_id :: string
  dec_current_revision :: u64

record GroupPayloadCodec =
  codec_is_pairwise_payload :: "bytes \<Rightarrow> bool"
  encode_pairwise_command :: "GroupPayloadEncodeContext \<Rightarrow> GroupPairwiseCommand \<Rightarrow> bytes res"
  decode_pairwise_command :: "bytes \<Rightarrow> GroupPairwiseCommand option res"
  encode_sender_key_plaintext :: "GroupPayloadEncodeContext \<Rightarrow> GroupSenderKeyPlaintext \<Rightarrow> bytes res"
  decode_sender_key_plaintext ::
    "GroupSenderKeyPlaintextDecodeContext \<Rightarrow> bytes \<Rightarrow> GroupSenderKeyPlaintext option res"

section \<open>Asking again for a missing key\<close>

definition from_pending_sender_key_message ::
  "GroupSenderKeyMessage \<Rightarrow> GroupSenderKeyHandleResult \<Rightarrow> UnixSeconds \<Rightarrow> SenderKeyRepairRequest option" where
  "from_pending_sender_key_message message result created_at =
     (case result of
        PendingDistribution gid author kid n \<Rightarrow>
          Some \<lparr>req_group_id = gid, req_sender_event_pubkey = author, req_key_id = kid,
                req_message_number = n, req_required_revision = None, req_created_at = created_at\<rparr>
      | PendingRevision gid _ required kid n \<Rightarrow>
          Some \<lparr>req_group_id = gid, req_sender_event_pubkey = skm_sender_event_pubkey message,
                req_key_id = Some kid, req_message_number = Some n,
                req_required_revision = Some required, req_created_at = created_at\<rparr>
      | _ \<Rightarrow> None)"

definition SENDER_KEY_REPAIR_DEFAULT_RETRY_DELAYS_SECS :: "u64 list" where
  "SENDER_KEY_REPAIR_DEFAULT_RETRY_DELAYS_SECS = [30, 120, 600, 3600, 21600]"

definition sender_key_repair_default_retry_delay_secs :: "u32 \<Rightarrow> u64" where
  "sender_key_repair_default_retry_delay_secs sent_request_count =
     (let index = min (saturating_sub sent_request_count 1)
                    (of_nat (length SENDER_KEY_REPAIR_DEFAULT_RETRY_DELAYS_SECS - 1))
      in SENDER_KEY_REPAIR_DEFAULT_RETRY_DELAYS_SECS ! unat index)"

definition sender_key_repair_default_next_retry_at :: "UnixSeconds \<Rightarrow> u32 \<Rightarrow> UnixSeconds" where
  "sender_key_repair_default_next_retry_at now sent_request_count =
     saturating_add now (sender_key_repair_default_retry_delay_secs sent_request_count)"

end
