(* ===== verification/Group_Record.thy ===== *)
theory Group_Record
  imports Group_Types
begin

text \<open>
  The records of a group manager (\<^verbatim>\<open>group_manager.rs\<close> and \<^verbatim>\<open>group_manager/records.rs\<close>): the metadata of
  a group with the edits an administrator may make to it, and what is kept for the sender key of one
  device in one group. An edit is made on a copy of the record that is dropped when it fails, so it
  returns the new record or an error. An error text that formats a number or a protocol keeps its fixed
  part only.
\<close>

section \<open>Group records\<close>

record GroupRecord =
  group_id :: string
  protocol :: GroupProtocol
  group_name :: string
  picture :: "string option"
  about :: "string option"
  created_by :: OwnerPubkey
  members :: "OwnerPubkey btset"
  admins :: "OwnerPubkey btset"
  revision :: u64
  group_created_at :: UnixSeconds
  updated_at :: UnixSeconds

definition group_error :: "string \<Rightarrow> Error" where
  "group_error message = Domain (InvalidGroupOperation message)"

definition pending_group_revision_error :: "string \<Rightarrow> u64 \<Rightarrow> u64 \<Rightarrow> Error" where
  "pending_group_revision_error gid current_revision required_revision =
     Domain (PendingGroupRevision gid current_revision required_revision)"

text \<open>An owner as it is displayed in an error.\<close>

definition owner_text :: "'x crypto_scheme \<Rightarrow> OwnerPubkey \<Rightarrow> string" where
  "owner_text cr ow = ''owner '' @ hex_encode cr (owner_bytes ow)"

definition validate_supported_protocol :: "GroupProtocol \<Rightarrow> unit res" where
  "validate_supported_protocol p =
     (if is_pairwise_fanout_v1 p \<or> is_sender_key_v1 p then Inr ()
      else Inl (group_error ''unsupported group protocol''))"

definition validate_unique_owners :: "OwnerPubkey list \<Rightarrow> string \<Rightarrow> OwnerPubkey btset res" where
  "validate_unique_owners vals label =
     (let owners = bs_of_list vals in
      if bt_len owners \<noteq> length vals then Inl (group_error (''duplicate '' @ label @ '' are not allowed''))
      else Inr owners)"

definition bs_subset :: "'k::linorder btset \<Rightarrow> 'k btset \<Rightarrow> bool" where
  "bs_subset a b \<longleftrightarrow> list_all (bt_contains_key b) (bt_keys a)"

definition bs_extend :: "'k::linorder btset \<Rightarrow> 'k list \<Rightarrow> 'k btset" where
  "bs_extend s ks = fold bs_insert ks s"

definition validate_group_invariants :: "OwnerPubkey btset \<Rightarrow> OwnerPubkey btset \<Rightarrow> unit res" where
  "validate_group_invariants ms ads =
     (if bt_is_empty ms then Inl (group_error ''group must have at least one member'')
      else if bt_is_empty ads then Inl (group_error ''group must have at least one admin'')
      else if \<not> bs_subset ads ms then Inl (group_error ''all admins must also be members'')
      else Inr ())"

definition group_record_from_snapshot :: "GroupSnapshot \<Rightarrow> GroupRecord res" where
  "group_record_from_snapshot s =
     and_then (validate_unique_owners (gs_members s) ''members'') (\<lambda>ms.
     and_then (validate_unique_owners (gs_admins s) ''admins'') (\<lambda>ads.
     and_then (validate_supported_protocol (gs_protocol s)) (\<lambda>_.
     and_then (validate_group_invariants ms ads) (\<lambda>_.
       Inr \<lparr>group_id = gs_group_id s, protocol = gs_protocol s, group_name = gs_name s,
            picture = gs_picture s, about = gs_about s, created_by = gs_created_by s,
            members = ms, admins = ads, revision = gs_revision s,
            group_created_at = gs_created_at s, updated_at = gs_updated_at s\<rparr>))))"

definition group_record_from_metadata_snapshot :: "GroupSnapshot \<Rightarrow> GroupRecord res" where
  "group_record_from_metadata_snapshot s =
     and_then (group_record_from_snapshot s) (\<lambda>r.
     and_then (validate_supported_protocol (protocol r)) (\<lambda>_.
       if revision r = 0 then Inl (group_error ''metadata snapshot revision must be at least 1'')
       else Inr r))"

definition group_record_snapshot :: "GroupRecord \<Rightarrow> GroupSnapshot" where
  "group_record_snapshot r =
     \<lparr>gs_group_id = group_id r, gs_protocol = protocol r, gs_name = group_name r,
      gs_picture = picture r, gs_about = about r, gs_created_by = created_by r,
      gs_members = bt_keys (members r), gs_admins = bt_keys (admins r), gs_revision = revision r,
      gs_created_at = group_created_at r, gs_updated_at = updated_at r\<rparr>"

definition metadata_payload :: "GroupRecord \<Rightarrow> GroupPairwiseCommand" where
  "metadata_payload r = MetadataSnapshot (group_record_snapshot r)"

definition remote_members :: "GroupRecord \<Rightarrow> OwnerPubkey \<Rightarrow> OwnerPubkey list" where
  "remote_members r local = filter (\<lambda>ow. ow \<noteq> local) (bt_keys (members r))"

definition ensure_admin :: "'x crypto_scheme \<Rightarrow> GroupRecord \<Rightarrow> OwnerPubkey \<Rightarrow> unit res" where
  "ensure_admin cr r ow =
     (if \<not> bt_contains_key (admins r) ow
      then Inl (group_error (owner_text cr ow @ '' is not an admin of group `'' @ group_id r @ ''`''))
      else Inr ())"

definition ensure_member :: "'x crypto_scheme \<Rightarrow> GroupRecord \<Rightarrow> OwnerPubkey \<Rightarrow> unit res" where
  "ensure_member cr r ow =
     (if \<not> bt_contains_key (members r) ow
      then Inl (group_error (owner_text cr ow @ '' is not a member of group `'' @ group_id r @ ''`''))
      else Inr ())"

definition ensure_revision :: "GroupRecord \<Rightarrow> u64 \<Rightarrow> u64 \<Rightarrow> unit res" where
  "ensure_revision r base_revision new_revision =
     (if base_revision \<noteq> revision r
      then Inl (group_error (''stale group revision for `'' @ group_id r @ ''`''))
      else if new_revision \<noteq> base_revision + 1
      then Inl (group_error (''invalid next revision for `'' @ group_id r @ ''`''))
      else Inr ())"

text \<open>The checks every edit starts with, and the stamp it ends with.\<close>

definition ensure_editable ::
  "'x crypto_scheme \<Rightarrow> GroupRecord \<Rightarrow> OwnerPubkey \<Rightarrow> u64 \<Rightarrow> u64 \<Rightarrow> unit res" where
  "ensure_editable cr r actor base_revision new_revision =
     and_then (ensure_admin cr r actor) (\<lambda>_. ensure_revision r base_revision new_revision)"

definition stamp :: "u64 \<Rightarrow> UnixSeconds \<Rightarrow> GroupRecord \<Rightarrow> GroupRecord" where
  "stamp new_revision now r = r\<lparr>revision := new_revision, updated_at := now\<rparr>"

text \<open>\<^verbatim>\<open>Option::filter(|value| !value.is_empty())\<close>.\<close>

definition non_empty :: "string option \<Rightarrow> string option" where
  "non_empty v = (case v of None \<Rightarrow> None | Some s \<Rightarrow> if s = [] then None else Some s)"

definition apply_rename ::
  "'x crypto_scheme \<Rightarrow> string \<Rightarrow> GroupRecord \<Rightarrow> OwnerPubkey \<Rightarrow> u64 \<Rightarrow> u64 \<Rightarrow> UnixSeconds \<Rightarrow> GroupRecord res" where
  "apply_rename cr new_name r actor base_revision new_revision now =
     and_then (ensure_editable cr r actor base_revision new_revision) (\<lambda>_.
       Inr (stamp new_revision now (r\<lparr>group_name := new_name\<rparr>)))"

definition apply_picture_change ::
  "'x crypto_scheme \<Rightarrow> string option \<Rightarrow> GroupRecord \<Rightarrow> OwnerPubkey \<Rightarrow> u64 \<Rightarrow> u64 \<Rightarrow> UnixSeconds \<Rightarrow> GroupRecord res" where
  "apply_picture_change cr new_picture r actor base_revision new_revision now =
     and_then (ensure_editable cr r actor base_revision new_revision) (\<lambda>_.
       Inr (stamp new_revision now (r\<lparr>picture := non_empty new_picture\<rparr>)))"

definition apply_about_change ::
  "'x crypto_scheme \<Rightarrow> string option \<Rightarrow> GroupRecord \<Rightarrow> OwnerPubkey \<Rightarrow> u64 \<Rightarrow> u64 \<Rightarrow> UnixSeconds \<Rightarrow> GroupRecord res" where
  "apply_about_change cr new_about r actor base_revision new_revision now =
     and_then (ensure_editable cr r actor base_revision new_revision) (\<lambda>_.
       Inr (stamp new_revision now (r\<lparr>about := non_empty new_about\<rparr>)))"

text \<open>A loop that returns an error at the first owner that is bad.\<close>

fun reject_first :: "('a \<Rightarrow> Error option) \<Rightarrow> 'a list \<Rightarrow> unit res" where
  "reject_first bad [] = Inr ()"
| "reject_first bad (x # xs) = (case bad x of Some e \<Rightarrow> Inl e | None \<Rightarrow> reject_first bad xs)"

definition apply_add_members ::
  "'x crypto_scheme \<Rightarrow> OwnerPubkey btset \<Rightarrow> GroupRecord \<Rightarrow> OwnerPubkey \<Rightarrow> u64 \<Rightarrow> u64 \<Rightarrow> UnixSeconds \<Rightarrow> GroupRecord res" where
  "apply_add_members cr additions r actor base_revision new_revision now =
     and_then (ensure_editable cr r actor base_revision new_revision) (\<lambda>_.
       if bt_is_empty additions then Inl (group_error ''members list must not be empty'')
       else and_then (reject_first (\<lambda>ow. if bt_contains_key (members r) ow
              then Some (group_error (owner_text cr ow @ '' is already a member'')) else None)
              (bt_keys additions)) (\<lambda>_.
         Inr (stamp new_revision now (r\<lparr>members := bs_extend (members r) (bt_keys additions)\<rparr>))))"

definition apply_remove_members ::
  "'x crypto_scheme \<Rightarrow> OwnerPubkey btset \<Rightarrow> GroupRecord \<Rightarrow> OwnerPubkey \<Rightarrow> u64 \<Rightarrow> u64 \<Rightarrow> UnixSeconds \<Rightarrow> GroupRecord res" where
  "apply_remove_members cr removals r actor base_revision new_revision now =
     and_then (ensure_editable cr r actor base_revision new_revision) (\<lambda>_.
       if bt_is_empty removals then Inl (group_error ''members list must not be empty'')
       else if bt_contains_key removals actor then Inl (group_error ''self-removal is not allowed'')
       else and_then (reject_first (\<lambda>ow. if \<not> bt_contains_key (members r) ow
              then Some (group_error (owner_text cr ow @ '' is not a member'')) else None)
              (bt_keys removals)) (\<lambda>_.
         let r' = r\<lparr>members := fold bt_remove (bt_keys removals) (members r),
                    admins := fold bt_remove (bt_keys removals) (admins r)\<rparr>
         in and_then (validate_group_invariants (members r') (admins r')) (\<lambda>_.
              Inr (stamp new_revision now r'))))"

definition apply_add_admins ::
  "'x crypto_scheme \<Rightarrow> OwnerPubkey btset \<Rightarrow> GroupRecord \<Rightarrow> OwnerPubkey \<Rightarrow> u64 \<Rightarrow> u64 \<Rightarrow> UnixSeconds \<Rightarrow> GroupRecord res" where
  "apply_add_admins cr additions r actor base_revision new_revision now =
     and_then (ensure_editable cr r actor base_revision new_revision) (\<lambda>_.
       if bt_is_empty additions then Inl (group_error ''admins list must not be empty'')
       else and_then (reject_first (\<lambda>ow.
              if \<not> bt_contains_key (members r) ow
              then Some (group_error (owner_text cr ow @ '' must be a member before promotion''))
              else if bt_contains_key (admins r) ow
              then Some (group_error (owner_text cr ow @ '' is already an admin'')) else None)
              (bt_keys additions)) (\<lambda>_.
         Inr (stamp new_revision now (r\<lparr>admins := bs_extend (admins r) (bt_keys additions)\<rparr>))))"

definition apply_remove_admins ::
  "'x crypto_scheme \<Rightarrow> OwnerPubkey btset \<Rightarrow> GroupRecord \<Rightarrow> OwnerPubkey \<Rightarrow> u64 \<Rightarrow> u64 \<Rightarrow> UnixSeconds \<Rightarrow> GroupRecord res" where
  "apply_remove_admins cr removals r actor base_revision new_revision now =
     and_then (ensure_editable cr r actor base_revision new_revision) (\<lambda>_.
       if bt_is_empty removals then Inl (group_error ''admins list must not be empty'')
       else and_then (reject_first (\<lambda>ow. if \<not> bt_contains_key (admins r) ow
              then Some (group_error (owner_text cr ow @ '' is not an admin'')) else None)
              (bt_keys removals)) (\<lambda>_.
         if bt_len (admins r) = bt_len removals then Inl (group_error ''cannot remove the last admin'')
         else
           let r' = r\<lparr>admins := fold bt_remove (bt_keys removals) (admins r)\<rparr>
           in and_then (validate_group_invariants (members r') (admins r')) (\<lambda>_.
                Inr (stamp new_revision now r'))))"

section \<open>Sender-key records\<close>

text \<open>The key of a sender-key record, in the derived order of its struct.\<close>

type_synonym SenderKeyRecordId = "string \<times> OwnerPubkey \<times> DevicePubkey"

abbreviation id_group :: "SenderKeyRecordId \<Rightarrow> string" where "id_group i \<equiv> fst i"
abbreviation id_owner :: "SenderKeyRecordId \<Rightarrow> OwnerPubkey" where "id_owner i \<equiv> fst (snd i)"
abbreviation id_device :: "SenderKeyRecordId \<Rightarrow> DevicePubkey" where "id_device i \<equiv> snd (snd i)"

record SenderKeyRecord =
  skr_group_id :: string
  sender_owner :: OwnerPubkey
  sender_device :: DevicePubkey
  sender_event_pubkey :: SenderEventPubkey
  sender_event_secret_key :: "bytes option"
  latest_key_id :: "u32 option"
  states :: "(u32, SenderKeyState) btmap"
  distribution_history :: "(u32, SenderKeyDistribution) btmap"
  distributed_to :: "(u32, OwnerPubkey btset) btmap"
  repair_snapshots :: "GroupSenderKeyRepairSnapshot list"

definition sender_key_record_id :: "SenderKeyRecord \<Rightarrow> SenderKeyRecordId" where
  "sender_key_record_id r = (skr_group_id r, sender_owner r, sender_device r)"

text \<open>A record with no keys yet, and the one literal of it that names a key.\<close>

definition sender_key_record_new ::
  "string \<Rightarrow> OwnerPubkey \<Rightarrow> DevicePubkey \<Rightarrow> SenderEventPubkey \<Rightarrow> bytes option \<Rightarrow> SenderKeyRecord" where
  "sender_key_record_new gid owner device author secret =
     \<lparr>skr_group_id = gid, sender_owner = owner, sender_device = device, sender_event_pubkey = author,
      sender_event_secret_key = secret, latest_key_id = None, states = bt_empty,
      distribution_history = bt_empty, distributed_to = bt_empty, repair_snapshots = []\<rparr>"

definition prefer_new_duplicate_sender_key ::
  "OwnerPubkey \<Rightarrow> SenderKeyRecord \<Rightarrow> SenderKeyRecord \<Rightarrow> bool" where
  "prefer_new_duplicate_sender_key local existing incoming =
     (let existing_is_local = (sender_owner existing = local);
          incoming_is_local = (sender_owner incoming = local);
          existing_has_secret = (sender_event_secret_key existing \<noteq> None);
          incoming_has_secret = (sender_event_secret_key incoming \<noteq> None)
      in if existing_is_local \<and> existing_has_secret then False
         else if incoming_is_local \<and> incoming_has_secret then True
         else existing_is_local \<and> \<not> existing_has_secret \<and> \<not> incoming_is_local)"

fun collect_states ::
  "SenderKeyState list \<Rightarrow> (u32, SenderKeyState) btmap \<Rightarrow> (u32, SenderKeyState) btmap res" where
  "collect_states [] m = Inr m"
| "collect_states (s # ss) m =
     (if bt_contains_key m (key_id s) then Inl (group_error ''duplicate sender-key state in snapshot'')
      else collect_states ss (bt_insert (key_id s) s m))"

definition sender_key_record_from_snapshot :: "GroupSenderKeyRecordSnapshot \<Rightarrow> SenderKeyRecord res" where
  "sender_key_record_from_snapshot s =
     and_then (collect_states (ks_states s) bt_empty) (\<lambda>sts.
       if is_some_and (ks_latest_key_id s) (\<lambda>k. \<not> bt_contains_key sts k)
       then Inl (group_error ''sender-key latest key id missing from states'')
       else Inr \<lparr>skr_group_id = ks_group_id s, sender_owner = ks_sender_owner s,
                 sender_device = ks_sender_device s, sender_event_pubkey = ks_sender_event_pubkey s,
                 sender_event_secret_key = ks_sender_event_secret_key s,
                 latest_key_id = ks_latest_key_id s, states = sts,
                 distribution_history = bt_of_list (map (\<lambda>d. (dist_key_id d, d)) (ks_distribution_history s)),
                 distributed_to = bt_of_list (map (\<lambda>e. (dr_key_id e, bs_of_list (dr_recipients e)))
                   (ks_distributed_to s)),
                 repair_snapshots = ks_repair_snapshots s\<rparr>)"

definition sender_key_record_snapshot :: "SenderKeyRecord \<Rightarrow> GroupSenderKeyRecordSnapshot" where
  "sender_key_record_snapshot r =
     \<lparr>ks_group_id = skr_group_id r, ks_sender_owner = sender_owner r, ks_sender_device = sender_device r,
      ks_sender_event_pubkey = sender_event_pubkey r, ks_sender_event_secret_key = sender_event_secret_key r,
      ks_latest_key_id = latest_key_id r, ks_states = bt_values (states r),
      ks_distribution_history = bt_values (distribution_history r),
      ks_distributed_to = map (\<lambda>(k, owners). \<lparr>dr_key_id = k, dr_recipients = bt_keys owners\<rparr>)
        (bt_entries (distributed_to r)),
      ks_repair_snapshots = repair_snapshots r\<rparr>"

text \<open>\<^verbatim>\<open>Iterator::max_by_key\<close>: the last of the greatest elements.\<close>

definition max_by_key :: "('a \<Rightarrow> 'k::linorder) \<Rightarrow> 'a list \<Rightarrow> 'a option" where
  "max_by_key f xs = fold (\<lambda>x best. case best of None \<Rightarrow> Some x
     | Some y \<Rightarrow> if f y \<le> f x then Some x else Some y) xs None"

definition repair_distribution_for ::
  "SenderKeyRecord \<Rightarrow> OwnerPubkey \<Rightarrow> u32 \<Rightarrow> u32 \<Rightarrow> SenderKeyDistribution option" where
  "repair_distribution_for r requester kid message_number =
     map_option rs_distribution (max_by_key (\<lambda>s. dist_iteration (rs_distribution s))
       (filter (\<lambda>s. rs_key_id s = kid \<and> dist_iteration (rs_distribution s) \<le> message_number
          \<and> requester \<in> set (rs_recipients s)) (repair_snapshots r)))"

definition repair_distributions_for_requester ::
  "SenderKeyRecord \<Rightarrow> OwnerPubkey \<Rightarrow> SenderKeyDistribution list" where
  "repair_distributions_for_requester r requester =
     map rs_distribution (filter (\<lambda>s. requester \<in> set (rs_recipients s)) (repair_snapshots r))"

definition requester_received_initial_repair_snapshot ::
  "SenderKeyRecord \<Rightarrow> OwnerPubkey \<Rightarrow> SenderKeyDistribution \<Rightarrow> bool" where
  "requester_received_initial_repair_snapshot r requester d =
     (case map (\<lambda>s. dist_iteration (rs_distribution s))
             (filter (\<lambda>s. rs_key_id s = dist_key_id d) (repair_snapshots r)) of
        [] \<Rightarrow> False
      | n # ns \<Rightarrow>
        (let first = fold min ns n
         in first = dist_iteration d
            \<and> list_ex (\<lambda>s. rs_key_id s = dist_key_id d \<and> dist_iteration (rs_distribution s) = first
                 \<and> requester \<in> set (rs_recipients s)) (repair_snapshots r)))"

end
