(* ===== verification/Group_Manager.thy ===== *)
theory Group_Manager
  imports Group_Record
begin

text \<open>
  The group manager (\<^verbatim>\<open>group_manager.rs\<close>): the groups a device belongs to, the sender keys of its own
  and of the other members' devices, and the index from the key that signs a stream of messages to the
  record of its sender. This theory holds the state, its snapshots, and the parts of
  \<^verbatim>\<open>group_manager/management.rs\<close>, \<^verbatim>\<open>incoming.rs\<close> and \<^verbatim>\<open>sender_keys.rs\<close> that need no session manager.
\<close>

section \<open>State\<close>

record GroupManager =
  gm_local_owner_pubkey :: OwnerPubkey
  groups :: "(string, GroupRecord) btmap"
  sender_keys :: "(SenderKeyRecordId, SenderKeyRecord) btmap"
  sender_event_index :: "(SenderEventPubkey, SenderKeyRecordId) btmap"

definition group_manager_new :: "OwnerPubkey \<Rightarrow> GroupManager" where
  "group_manager_new owner =
     \<lparr>gm_local_owner_pubkey = owner, groups = bt_empty, sender_keys = bt_empty, sender_event_index = bt_empty\<rparr>"

definition gm_is_pairwise_payload :: "GroupPayloadCodec \<Rightarrow> bytes \<Rightarrow> bool" where
  "gm_is_pairwise_payload pc payload = codec_is_pairwise_payload pc payload"

text \<open>Writing one group, or one sender-key record, through the reference to it.\<close>

definition put_group :: "GroupRecord \<Rightarrow> GroupManager \<Rightarrow> GroupManager" where
  "put_group r g = g\<lparr>groups := bt_insert (group_id r) r (groups g)\<rparr>"

definition put_sender_key :: "SenderKeyRecordId \<Rightarrow> SenderKeyRecord \<Rightarrow> GroupManager \<Rightarrow> GroupManager" where
  "put_sender_key i r g = g\<lparr>sender_keys := bt_insert i r (sender_keys g)\<rparr>"

definition index_sender :: "SenderEventPubkey \<Rightarrow> SenderKeyRecordId \<Rightarrow> GroupManager \<Rightarrow> GroupManager" where
  "index_sender author i g = g\<lparr>sender_event_index := bt_insert author i (sender_event_index g)\<rparr>"

definition group_record :: "GroupManager \<Rightarrow> string \<Rightarrow> GroupRecord res" where
  "group_record g gid = ok_or (bt_get (groups g) gid) (group_error (''unknown group `'' @ gid @ ''`''))"

section \<open>Snapshots\<close>

fun restore_groups :: "GroupSnapshot list \<Rightarrow> (string, GroupRecord) btmap \<Rightarrow> (string, GroupRecord) btmap res" where
  "restore_groups [] m = Inr m"
| "restore_groups (s # ss) m =
     and_then (group_record_from_snapshot s) (\<lambda>r.
       if bt_contains_key m (group_id r) then Inl (group_error ''duplicate group id in snapshot'')
       else restore_groups ss (bt_insert (group_id r) r m))"

definition restore_sender_key :: "OwnerPubkey \<Rightarrow> SenderKeyRecord \<Rightarrow> GroupManager \<Rightarrow> GroupManager res" where
  "restore_sender_key local r g =
     (let i = sender_key_record_id r; author = sender_event_pubkey r in
      if bt_contains_key (sender_keys g) i then Inl (group_error ''duplicate sender-key record in snapshot'')
      else case bt_get (sender_event_index g) author of
        Some existing_id \<Rightarrow>
          (case bt_get (sender_keys g) existing_id of
             None \<Rightarrow> Inl (group_error ''sender-event index points to missing state'')
           | Some existing \<Rightarrow>
             Inr (if prefer_new_duplicate_sender_key local existing r
                  then put_sender_key i r (index_sender author i
                         (g\<lparr>sender_keys := bt_remove existing_id (sender_keys g)\<rparr>))
                  else g))
      | None \<Rightarrow> Inr (put_sender_key i r (index_sender author i g)))"

fun restore_sender_keys ::
  "OwnerPubkey \<Rightarrow> GroupSenderKeyRecordSnapshot list \<Rightarrow> GroupManager \<Rightarrow> GroupManager res" where
  "restore_sender_keys local [] g = Inr g"
| "restore_sender_keys local (s # ss) g =
     and_then (sender_key_record_from_snapshot s) (\<lambda>r.
     and_then (restore_sender_key local r g) (restore_sender_keys local ss))"

definition group_manager_from_snapshot :: "GroupManagerSnapshot \<Rightarrow> GroupManager res" where
  "group_manager_from_snapshot s =
     and_then (restore_groups (gms_groups s) bt_empty) (\<lambda>gs.
       restore_sender_keys (gms_local_owner_pubkey s) (gms_sender_keys s)
         ((group_manager_new (gms_local_owner_pubkey s))\<lparr>groups := gs\<rparr>))"

definition group_manager_snapshot :: "GroupManager \<Rightarrow> GroupManagerSnapshot" where
  "group_manager_snapshot g =
     \<lparr>gms_local_owner_pubkey = gm_local_owner_pubkey g,
      gms_groups = map group_record_snapshot (bt_values (groups g)),
      gms_sender_keys = map sender_key_record_snapshot (bt_values (sender_keys g))\<rparr>"

section \<open>Queries\<close>

definition is_local_sender_key_stream ::
  "GroupManager \<Rightarrow> string \<Rightarrow> SenderEventPubkey \<Rightarrow> DevicePubkey \<Rightarrow> bool" where
  "is_local_sender_key_stream g gid author local_device =
     is_some_and (Option.bind (bt_get (sender_event_index g) author) (bt_get (sender_keys g)))
       (\<lambda>r. skr_group_id r = gid \<and> sender_owner r = gm_local_owner_pubkey g
          \<and> sender_device r = local_device \<and> sender_event_secret_key r \<noteq> None)"

definition group_has_member :: "GroupManager \<Rightarrow> string \<Rightarrow> OwnerPubkey \<Rightarrow> bool option" where
  "group_has_member g gid owner =
     map_option (\<lambda>r. bt_contains_key (members r) owner) (bt_get (groups g) gid)"

definition gm_group :: "GroupManager \<Rightarrow> string \<Rightarrow> GroupSnapshot option" where
  "gm_group g gid = map_option group_record_snapshot (bt_get (groups g) gid)"

definition gm_groups :: "GroupManager \<Rightarrow> GroupSnapshot list" where
  "gm_groups g = map group_record_snapshot (bt_values (groups g))"

definition known_sender_event_pubkeys :: "GroupManager \<Rightarrow> SenderEventPubkey list" where
  "known_sender_event_pubkeys g = bt_keys (sender_event_index g)"

definition group_id_for_sender_event_pubkey :: "GroupManager \<Rightarrow> SenderEventPubkey \<Rightarrow> string option" where
  "group_id_for_sender_event_pubkey g author = map_option id_group (bt_get (sender_event_index g) author)"

section \<open>Random draws\<close>

definition block_u32 :: "bytes \<Rightarrow> u32" where
  "block_u32 bs = foldr (\<lambda>b acc. ucast b + 256 * acc) bs 0"

definition random_group_id :: "'x crypto_scheme \<Rightarrow> bytes list \<Rightarrow> string res \<times> bytes list" where
  "random_group_id cr rng = then_do (draw_block rng) (\<lambda>b rng. (Inr (hex_encode cr b), rng))"

text \<open>The loop draws until a key id is not zero.\<close>

fun random_key_id :: "bytes list \<Rightarrow> u32 res \<times> bytes list" where
  "random_key_id [] = (Inl RngExhausted, [])"
| "random_key_id (b # rng) = (if block_u32 b \<noteq> 0 then (Inr (block_u32 b), rng) else random_key_id rng)"

section \<open>The local sender key\<close>

definition on_rng ::
  "(bytes list \<Rightarrow> 'a res \<times> bytes list) \<Rightarrow> 's \<times> bytes list \<Rightarrow> 'a res \<times> 's \<times> bytes list" where
  "on_rng f = (\<lambda>(s, rng). case f rng of (r, rng') \<Rightarrow> (r, s, rng'))"

abbreviation local_id :: "GroupManager \<Rightarrow> string \<Rightarrow> DevicePubkey \<Rightarrow> SenderKeyRecordId" where
  "local_id g gid local_device \<equiv> (gid, gm_local_owner_pubkey g, local_device)"

text \<open>A record for this device in the group, made on first use; says whether it was made.\<close>

definition open_local_record ::
  "'x crypto_scheme \<Rightarrow> string \<Rightarrow> DevicePubkey \<Rightarrow> GroupManager \<times> bytes list \<Rightarrow> bool res \<times> GroupManager \<times> bytes list" where
  "open_local_record cr gid local_device st =
     (if bt_contains_key (sender_keys (fst st)) (local_id (fst st) gid local_device) then (Inr False, st)
      else
        then_do (on_rng (random_secret_key_bytes cr) st) (\<lambda>secret st.
        then_do (device_pubkey_from_secret_bytes cr secret, st) (\<lambda>author (g, rng).
          let r = sender_key_record_new gid (gm_local_owner_pubkey g) local_device author (Some secret)
          in (Inr True, put_sender_key (local_id g gid local_device) r
                (index_sender author (sender_key_record_id r) g), rng))))"

text \<open>A new key, its state and the distribution that announces it.\<close>

definition rotate_sender_key ::
  "UnixSeconds \<Rightarrow> string \<Rightarrow> SenderKeyRecord \<times> bytes list \<Rightarrow> SenderKeyDistribution res \<times> SenderKeyRecord \<times> bytes list" where
  "rotate_sender_key now gid st =
     then_do (on_rng random_key_id st) (\<lambda>kid st.
     then_do (on_rng draw_block st) (\<lambda>ck (r, rng).
       (Inr \<lparr>dist_group_id = gid, dist_key_id = kid, dist_sender_event_pubkey = sender_event_pubkey r,
             dist_chain_key = ck, dist_iteration = 0, dist_created_at = now\<rparr>,
        r\<lparr>states := bt_insert kid (sender_key_new kid ck 0) (states r), latest_key_id := Some kid\<rparr>, rng)))"

definition current_distribution ::
  "UnixSeconds \<Rightarrow> string \<Rightarrow> SenderKeyRecord \<Rightarrow> SenderKeyDistribution option \<Rightarrow> SenderKeyDistribution res" where
  "current_distribution now gid r new_distribution =
     and_then (ok_or (latest_key_id r) (group_error ''missing local sender-key id'')) (\<lambda>kid.
     and_then (ok_or (bt_get (states r) kid) (group_error ''missing local sender-key state'')) (\<lambda>s.
       Inr (case new_distribution of
              Some d \<Rightarrow> d
            | None \<Rightarrow> \<lparr>dist_group_id = gid, dist_key_id = kid,
                       dist_sender_event_pubkey = sender_event_pubkey r, dist_chain_key = chain_key s,
                       dist_iteration = iteration s, dist_created_at = now\<rparr>)))"

text \<open>What follows once the record is there.\<close>

definition refresh_local_record ::
  "UnixSeconds \<Rightarrow> string \<Rightarrow> bool \<Rightarrow> bool \<Rightarrow> SenderKeyRecord \<times> bytes list \<Rightarrow>
   (SenderKeyDistribution \<times> bool) res \<times> SenderKeyRecord \<times> bytes list" where
  "refresh_local_record now gid force_rotate created st =
     then_do (if force_rotate \<or> latest_key_id (fst st) = None
              then then_do (rotate_sender_key now gid st) (\<lambda>d st. (Inr (Some d), st))
              else (Inr None, st)) (\<lambda>new_distribution (r, rng).
     then_do (current_distribution now gid r new_distribution, r, rng) (\<lambda>d (r, rng).
       let created_or_rotated = (force_rotate \<or> created \<or> new_distribution \<noteq> None)
       in (Inr (d, created_or_rotated),
           if created_or_rotated
           then r\<lparr>distribution_history := bt_insert (dist_key_id d) d (distribution_history r)\<rparr> else r, rng)))"

definition ensure_local_sender_key_record ::
  "'x crypto_scheme \<Rightarrow> UnixSeconds \<Rightarrow> GroupRecord \<Rightarrow> DevicePubkey \<Rightarrow> bool \<Rightarrow> GroupManager \<times> bytes list \<Rightarrow>
   (SenderKeyDistribution \<times> bool) res \<times> GroupManager \<times> bytes list" where
  "ensure_local_sender_key_record cr now r local_device force_rotate st =
     then_do (open_local_record cr (group_id r) local_device st) (\<lambda>created (g, rng).
       let i = local_id g (group_id r) local_device in
       case bt_get (sender_keys g) i of
         None \<Rightarrow> (Inl (group_error ''missing local sender-key record''), g, rng)
       | Some sr \<Rightarrow>
         (case refresh_local_record now (group_id r) force_rotate created (sr, rng) of
            (out, sr', rng') \<Rightarrow> (out, put_sender_key i sr' g, rng')))"

definition sender_key_distribution_recipients ::
  "GroupManager \<Rightarrow> GroupRecord \<Rightarrow> DevicePubkey \<Rightarrow> u32 \<Rightarrow> OwnerPubkey list \<Rightarrow> OwnerPubkey list" where
  "sender_key_distribution_recipients g r local_device kid cands =
     (case bt_get (sender_keys g) (local_id g (group_id r) local_device) of
        None \<Rightarrow> cands
      | Some sr \<Rightarrow>
        filter (\<lambda>ow. bt_contains_key (members r) ow
          \<and> is_none_or (bt_get (distributed_to sr) kid) (\<lambda>owners. \<not> bt_contains_key owners ow)) cands)"

definition local_sender_key_has_removed_recipients :: "GroupManager \<Rightarrow> GroupRecord \<Rightarrow> DevicePubkey \<Rightarrow> bool" where
  "local_sender_key_has_removed_recipients g r local_device =
     is_some_and (bt_get (sender_keys g) (local_id g (group_id r) local_device)) (\<lambda>sr.
     is_some_and (latest_key_id sr) (\<lambda>kid.
     is_some_and (bt_get (distributed_to sr) kid) (\<lambda>owners.
       list_ex (\<lambda>ow. \<not> bt_contains_key (members r) ow) (bt_keys owners))))"

definition mark_sender_key_distribution_recipients ::
  "string \<Rightarrow> DevicePubkey \<Rightarrow> u32 \<Rightarrow> OwnerPubkey list \<Rightarrow> GroupManager \<Rightarrow> GroupManager" where
  "mark_sender_key_distribution_recipients gid local_device kid recipients g =
     (if recipients = [] then g
      else case bt_get (sender_keys g) (local_id g gid local_device) of
        None \<Rightarrow> g
      | Some sr \<Rightarrow>
        (let owners = (case bt_get (distributed_to sr) kid of Some s \<Rightarrow> s | None \<Rightarrow> bt_empty)
         in put_sender_key (local_id g gid local_device)
              (sr\<lparr>distributed_to := bt_insert kid (bs_extend owners recipients) (distributed_to sr)\<rparr>) g))"

definition record_sender_key_repair_snapshot ::
  "string \<Rightarrow> DevicePubkey \<Rightarrow> SenderKeyDistribution \<Rightarrow> OwnerPubkey list \<Rightarrow> GroupManager \<Rightarrow> GroupManager" where
  "record_sender_key_repair_snapshot gid local_device d recipients g =
     (if recipients = [] then g
      else case bt_get (sender_keys g) (local_id g gid local_device) of
        None \<Rightarrow> g
      | Some sr \<Rightarrow>
        (let rs = remdups_adj (sort recipients)
         in if list_ex (\<lambda>s. rs_key_id s = dist_key_id d
                 \<and> dist_iteration (rs_distribution s) = dist_iteration d
                 \<and> rs_recipients s = rs) (repair_snapshots sr)
            then g
            else put_sender_key (local_id g gid local_device)
              (sr\<lparr>repair_snapshots := repair_snapshots sr @
                 [\<lparr>rs_key_id = dist_key_id d, rs_distribution = d, rs_recipients = rs\<rparr>]\<rparr>) g))"

section \<open>Pairwise payloads\<close>

text \<open>
  A distribution announces a key of a member's device. An announcement that names a stream known under
  another record is dropped, unless the duplicate rule prefers the new one.
\<close>

definition displaced ::
  "GroupManager \<Rightarrow> SenderKeyRecordId \<Rightarrow> SenderKeyDistribution \<Rightarrow> SenderKeyRecordId option" where
  "displaced g i d =
     (case bt_get (sender_event_index g) (dist_sender_event_pubkey d) of
        None \<Rightarrow> None
      | Some existing_id \<Rightarrow> if existing_id \<noteq> i then Some existing_id else None)"

definition prefers_incoming ::
  "GroupManager \<Rightarrow> SenderKeyRecordId \<Rightarrow> SenderKeyRecordId \<Rightarrow> SenderKeyDistribution \<Rightarrow> bool" where
  "prefers_incoming g existing_id i d =
     is_none_or (bt_get (sender_keys g) existing_id) (\<lambda>existing.
       prefer_new_duplicate_sender_key (gm_local_owner_pubkey g) existing
         ((sender_key_record_new (id_group i) (id_owner i) (id_device i) (dist_sender_event_pubkey d) None)
            \<lparr>latest_key_id := Some (dist_key_id d)\<rparr>))"

text \<open>\<^verbatim>\<open>entry(key).or_insert(value)\<close>.\<close>

definition or_insert :: "'k::linorder \<Rightarrow> 'v \<Rightarrow> ('k, 'v) btmap \<Rightarrow> ('k, 'v) btmap" where
  "or_insert k v m = (if bt_contains_key m k then m else bt_insert k v m)"

definition learn_sender_key ::
  "SenderKeyRecordId \<Rightarrow> SenderKeyDistribution \<Rightarrow> GroupManager \<Rightarrow> GroupManager" where
  "learn_sender_key i d g =
     (let author = dist_sender_event_pubkey d;
          r = (case bt_get (sender_keys g) i of
                 Some r \<Rightarrow> r
               | None \<Rightarrow> sender_key_record_new (id_group i) (id_owner i) (id_device i) author None);
          index = (if sender_event_pubkey r \<noteq> author
                   then bt_remove (sender_event_pubkey r) (sender_event_index g) else sender_event_index g);
          r' = r\<lparr>sender_event_pubkey := author,
                 latest_key_id := Some (dist_key_id d),
                 distribution_history := or_insert (dist_key_id d) d (distribution_history r),
                 states := or_insert (dist_key_id d)
                   (sender_key_new (dist_key_id d) (dist_chain_key d) (dist_iteration d)) (states r)\<rparr>
      in put_sender_key i r' (g\<lparr>sender_event_index := bt_insert author i index\<rparr>))"

definition observe_sender_key_distribution ::
  "'x crypto_scheme \<Rightarrow> OwnerPubkey \<Rightarrow> DevicePubkey \<Rightarrow> SenderKeyDistribution \<Rightarrow> GroupManager \<Rightarrow> unit res \<times> GroupManager" where
  "observe_sender_key_distribution cr owner device d g =
     then_do (group_record g (dist_group_id d), g) (\<lambda>group g.
       if \<not> is_sender_key_v1 (protocol group) then (Inr (), g)
       else then_do (ensure_member cr group owner, g) (\<lambda>_ g.
         let i = (dist_group_id d, owner, device) in
         case displaced g i d of
           None \<Rightarrow> (Inr (), learn_sender_key i d g)
         | Some existing_id \<Rightarrow>
           if prefers_incoming g existing_id i d
           then (Inr (), learn_sender_key i d (g\<lparr>sender_keys := bt_remove existing_id (sender_keys g)\<rparr>))
           else (Inr (), g)))"

text \<open>The four commands, one by one.\<close>

definition handle_metadata ::
  "'x crypto_scheme \<Rightarrow> OwnerPubkey \<Rightarrow> GroupSnapshot \<Rightarrow> GroupManager \<Rightarrow> GroupIncomingEvent option res \<times> GroupManager" where
  "handle_metadata cr owner s g =
     then_do (group_record_from_metadata_snapshot s, g) (\<lambda>r g.
       let is_self_sync = (owner = gm_local_owner_pubkey g);
           not_admin = Inl (group_error (owner_text cr owner @ '' is not an admin of group `'' @ group_id r @ ''`''));
           accept = (Inr (Some (MetadataUpdated (group_record_snapshot r))), put_group r g)
       in case bt_get (groups g) (group_id r) of
            Some existing \<Rightarrow>
              if protocol existing \<noteq> protocol r
              then (Inl (group_error (''group `'' @ group_id r @ ''` protocol mismatch'')), g)
              else if revision r < revision existing \<or> existing = r
              then (Inr (Some (MetadataUpdated (group_record_snapshot existing))), g)
              else if revision r = revision existing
              then (Inl (group_error (''conflicting metadata snapshot for group `'' @ group_id r @ ''`'')), g)
              else if \<not> is_self_sync \<and> \<not> bt_contains_key (admins existing) owner then (not_admin, g)
              else accept
          | None \<Rightarrow>
              if \<not> bt_contains_key (members r) (gm_local_owner_pubkey g) then (Inr None, g)
              else if \<not> is_self_sync \<and> \<not> bt_contains_key (admins r) owner then (not_admin, g)
              else accept)"

definition handle_group_message ::
  "'x crypto_scheme \<Rightarrow> OwnerPubkey \<Rightarrow> DevicePubkey option \<Rightarrow> string \<Rightarrow> u64 \<Rightarrow> bytes \<Rightarrow> GroupManager \<Rightarrow>
   GroupIncomingEvent option res" where
  "handle_group_message cr owner device gid message_revision body g =
     and_then (group_record g gid) (\<lambda>group.
     and_then (ensure_member cr group owner) (\<lambda>_.
       if revision group < message_revision then Inl (pending_group_revision_error gid (revision group) message_revision)
       else if message_revision < revision group then Inr None
       else Inr (Some (GroupMessageEvent \<lparr>grm_group_id = gid, grm_sender_owner = owner,
              grm_sender_device = device, grm_body = body, grm_revision = message_revision\<rparr>))))"

definition handle_distribution ::
  "'x crypto_scheme \<Rightarrow> OwnerPubkey \<Rightarrow> DevicePubkey option \<Rightarrow> SenderKeyDistribution \<Rightarrow> GroupManager \<Rightarrow>
   GroupIncomingEvent option res \<times> GroupManager" where
  "handle_distribution cr owner device d g =
     (case device of
        None \<Rightarrow> (Inl (group_error ''sender-key distribution requires authenticated sender device''), g)
      | Some k \<Rightarrow>
        then_do (observe_sender_key_distribution cr owner k d g) (\<lambda>_ g.
        then_do (group_record g (dist_group_id d), g) (\<lambda>group g.
          (Inr (Some (MetadataUpdated (group_record_snapshot group))), g))))"

definition handle_repair_request ::
  "OwnerPubkey \<Rightarrow> DevicePubkey option \<Rightarrow> SenderKeyRepairRequest \<Rightarrow> GroupManager \<Rightarrow> GroupIncomingEvent option res" where
  "handle_repair_request owner device q g =
     and_then (group_record g (req_group_id q)) (\<lambda>group.
       if \<not> is_sender_key_v1 (protocol group) \<or> \<not> bt_contains_key (members group) owner then Inr None
       else Inr (Some (SenderKeyRepairRequested
              \<lparr>rre_requester_owner = owner, rre_requester_device = device, rre_request = q\<rparr>)))"

definition handle_command ::
  "'x crypto_scheme \<Rightarrow> OwnerPubkey \<Rightarrow> DevicePubkey option \<Rightarrow> GroupPairwiseCommand \<Rightarrow> GroupManager \<Rightarrow>
   GroupIncomingEvent option res \<times> GroupManager" where
  "handle_command cr owner device command g =
     (case command of
        MetadataSnapshot s \<Rightarrow> handle_metadata cr owner s g
      | GroupMessage gid message_revision body \<Rightarrow> (handle_group_message cr owner device gid message_revision body g, g)
      | SenderKeyDistributionCommand d \<Rightarrow> handle_distribution cr owner device d g
      | SenderKeyRepairRequestCommand q \<Rightarrow> (handle_repair_request owner device q g, g))"

definition handle_pairwise_payload_inner ::
  "'x crypto_scheme \<Rightarrow> GroupPayloadCodec \<Rightarrow> OwnerPubkey \<Rightarrow> DevicePubkey option \<Rightarrow> bytes \<Rightarrow> GroupManager \<Rightarrow>
   GroupIncomingEvent option res \<times> GroupManager" where
  "handle_pairwise_payload_inner cr pc owner device payload g =
     then_do (decode_pairwise_command pc payload, g) (\<lambda>decoded g.
       case decoded of
         None \<Rightarrow> (Inr None, g)
       | Some command \<Rightarrow> handle_command cr owner device command g)"

definition handle_incoming ::
  "'x crypto_scheme \<Rightarrow> GroupPayloadCodec \<Rightarrow> OwnerPubkey \<Rightarrow> bytes \<Rightarrow> GroupManager \<Rightarrow>
   GroupIncomingEvent option res \<times> GroupManager" where
  "handle_incoming cr pc owner payload g = handle_pairwise_payload_inner cr pc owner None payload g"

definition handle_pairwise_payload ::
  "'x crypto_scheme \<Rightarrow> GroupPayloadCodec \<Rightarrow> OwnerPubkey \<Rightarrow> DevicePubkey \<Rightarrow> bytes \<Rightarrow> GroupManager \<Rightarrow>
   GroupIncomingEvent option res \<times> GroupManager" where
  "handle_pairwise_payload cr pc owner device payload g =
     handle_pairwise_payload_inner cr pc owner (Some device) payload g"

end
