(* ===== verification/Group_Receive.thy ===== *)
theory Group_Receive
  imports Group_Manager
begin

text \<open>
  Receiving under a sender key (\<^verbatim>\<open>group_manager/decrypt.rs\<close> and the second half of
  \<^verbatim>\<open>group_manager/incoming.rs\<close>). A message is first planned, which reads the state and may stop when its
  budget of key trials is used up, and the plan is applied later, only if what it was computed from has
  not changed since.
\<close>

section \<open>The search over the keys of a sender\<close>

record GroupSenderKeyDecryptCursor =
  gc_message :: GroupSenderKeyMessage
  gc_identity :: SenderKeyRecordId
  gc_key_ids :: "u32 list"
  gc_key_index :: nat
  gc_active :: "(SenderKeyState \<times> BlindDecryptCursor) option"

function search_keys ::
  "'x crypto_scheme \<Rightarrow> (u32, SenderKeyState) btmap \<Rightarrow> bytes \<Rightarrow> GroupSenderKeyDecryptCursor \<Rightarrow> nat \<Rightarrow>
   BlindDecryptStep \<times> GroupSenderKeyDecryptCursor \<times> nat" where
  "search_keys cr sts ciphertext cur remaining =
     (if gc_key_index cur \<ge> length (gc_key_ids cur) then (Exhausted, cur, remaining)
      else
        let advanced = cur\<lparr>gc_active := None, gc_key_index := Suc (gc_key_index cur)\<rparr> in
        case bt_get sts (gc_key_ids cur ! gc_key_index cur) of
          None \<Rightarrow> search_keys cr sts ciphertext advanced remaining
        | Some st \<Rightarrow>
          if remaining = 0 then (Pending, cur, 0)
          else
            let (initial, active) =
                  (case gc_active cur of Some a \<Rightarrow> a | None \<Rightarrow> (st, blind_cursor_new st))
            in case advance cr ciphertext active remaining of
                 (r, active', remaining') \<Rightarrow>
                   (case r of
                      Inl _ \<Rightarrow> search_keys cr sts ciphertext advanced remaining'
                    | Inr Exhausted \<Rightarrow> search_keys cr sts ciphertext advanced remaining'
                    | Inr step \<Rightarrow> (step, cur\<lparr>gc_active := Some (initial, active')\<rparr>, remaining')))"
  by pat_completeness auto
termination
  by (relation "measure (\<lambda>(cr, sts, ct, cur, n). length (gc_key_ids cur) - gc_key_index cur)") auto

declare search_keys.simps [simp del]

definition advance_blind_message ::
  "'x crypto_scheme \<Rightarrow> GroupManager \<Rightarrow> SenderKeyRecordId \<Rightarrow> GroupSenderKeyMessage \<Rightarrow>
   GroupSenderKeyDecryptCursor option \<Rightarrow> nat \<Rightarrow>
   BlindDecryptStep res \<times> GroupSenderKeyDecryptCursor option \<times> nat" where
  "advance_blind_message cr g i message cursor remaining =
     (case bt_get (sender_keys g) i of
        None \<Rightarrow> (Inl (group_error ''sender-key index points to missing state''), cursor, remaining)
      | Some r \<Rightarrow>
        let cursor1 = (if is_some_and cursor (\<lambda>c. gc_identity c \<noteq> i \<or> gc_message c \<noteq> message)
                       then None else cursor)
        in if is_some_and cursor1 (\<lambda>c. is_some_and (gc_active c)
                 (\<lambda>(initial, _). bt_get (states r) (key_id initial) \<noteq> Some initial))
           then (Inr Pending, None, remaining)
           else
             let c = (case cursor1 of
                        Some c \<Rightarrow> c
                      | None \<Rightarrow> \<lparr>gc_message = message, gc_identity = i, gc_key_ids = bt_keys (states r),
                                 gc_key_index = 0, gc_active = None\<rparr>)
             in case search_keys cr (states r) (skm_ciphertext message) c remaining of
                  (step, c', remaining') \<Rightarrow> (Inr step, Some c', remaining'))"

section \<open>Plans\<close>

record GroupSenderKeyMutation =
  mut_identity :: SenderKeyRecordId
  mut_author :: SenderEventPubkey
  mut_expected :: SenderKeyState
  mut_next :: SenderKeyState
  mut_revision :: u64
  mut_local_member :: bool

record GroupSenderKeyReceivePlan =
  plan_result :: GroupSenderKeyHandleResult
  plan_mutation :: "GroupSenderKeyMutation option"

definition complete :: "GroupSenderKeyHandleResult \<Rightarrow> GroupSenderKeyReceivePlan option res" where
  "complete result = Inr (Some \<lparr>plan_result = result, plan_mutation = None\<rparr>)"

text \<open>What both ways of decrypting do with the plaintext: the revision decides.\<close>

definition plan_plaintext ::
  "GroupPayloadCodec \<Rightarrow> GroupManager \<Rightarrow> GroupRecord \<Rightarrow> SenderKeyRecordId \<Rightarrow> SenderEventPubkey \<Rightarrow>
   SenderKeyState res \<Rightarrow> SenderKeyState \<Rightarrow> u32 \<Rightarrow> u32 \<Rightarrow> bytes \<Rightarrow> GroupSenderKeyReceivePlan option res" where
  "plan_plaintext pc g gr i author expected next_state kid n payload =
     and_then (decode_sender_key_plaintext pc
         \<lparr>dec_group_id = group_id gr, dec_current_revision = revision gr\<rparr> payload) (\<lambda>decoded.
       case decoded of
         None \<Rightarrow> complete Ignored
       | Some p \<Rightarrow>
         if pt_group_id p \<noteq> group_id gr then complete Ignored
         else if revision gr < pt_revision p
         then complete (PendingRevision (group_id gr) (revision gr) (pt_revision p) kid n)
         else if pt_revision p < revision gr then complete Ignored
         else and_then expected (\<lambda>st.
           Inr (Some \<lparr>plan_result = GroupEvent (GroupMessageEvent
                        \<lparr>grm_group_id = pt_group_id p, grm_sender_owner = id_owner i,
                         grm_sender_device = Some (id_device i), grm_body = pt_body p,
                         grm_revision = pt_revision p\<rparr>),
                      plan_mutation = Some
                        \<lparr>mut_identity = i, mut_author = author, mut_expected = st, mut_next = next_state,
                         mut_revision = revision gr,
                         mut_local_member = bt_contains_key (members gr) (gm_local_owner_pubkey g)\<rparr>\<rparr>)))"

text \<open>The message does not say its key and number: search for them.\<close>

definition plan_hidden ::
  "'x crypto_scheme \<Rightarrow> GroupPayloadCodec \<Rightarrow> GroupManager \<Rightarrow> GroupRecord \<Rightarrow> SenderKeyRecordId \<Rightarrow>
   GroupSenderKeyMessage \<Rightarrow> GroupSenderKeyDecryptCursor option \<times> nat \<Rightarrow>
   GroupSenderKeyReceivePlan option res \<times> GroupSenderKeyDecryptCursor option \<times> nat" where
  "plan_hidden cr pc g gr i message st =
     then_do (advance_blind_message cr g i message (fst st) (snd st)) (\<lambda>step st.
       case step of
         Pending \<Rightarrow> (Inr None, st)
       | Exhausted \<Rightarrow> (complete (PendingDistribution (skm_group_id message)
           (skm_sender_event_pubkey message) None None), st)
       | Complete plan \<Rightarrow>
         (plan_plaintext pc g gr i (skm_sender_event_pubkey message)
            (ok_or (Option.bind (bt_get (sender_keys g) i) (\<lambda>r. bt_get (states r) (blind_key_id plan)))
               (group_error ''sender-key index points to missing state''))
            (blind_next_state plan) (blind_key_id plan) (blind_message_number plan) (blind_plaintext plan), st))"

definition plan_numbered ::
  "'x crypto_scheme \<Rightarrow> GroupPayloadCodec \<Rightarrow> GroupManager \<Rightarrow> GroupRecord \<Rightarrow> SenderKeyRecordId \<Rightarrow>
   GroupSenderKeyMessage \<Rightarrow> GroupSenderKeyReceivePlan option res" where
  "plan_numbered cr pc g gr i message =
     (let kid = skm_key_id message; n = skm_message_number message in
      and_then (ok_or (bt_get (sender_keys g) i)
          (group_error ''sender-key index points to missing state'')) (\<lambda>r.
        case bt_get (states r) kid of
          None \<Rightarrow> complete (PendingDistribution (skm_group_id message)
            (skm_sender_event_pubkey message) (Some kid) (Some n))
        | Some st \<Rightarrow>
          and_then (plan_decrypt cr st \<lparr>content_key_id = kid, content_message_number = n,
              content_ciphertext = skm_ciphertext message\<rparr>) (\<lambda>plan.
            plan_plaintext pc g gr i (skm_sender_event_pubkey message) (Inr st)
              (decrypt_next_state plan) kid n (decrypt_plaintext plan))))"

definition plan_sender_key_message_step ::
  "'x crypto_scheme \<Rightarrow> GroupPayloadCodec \<Rightarrow> GroupManager \<Rightarrow> GroupSenderKeyMessage \<Rightarrow>
   GroupSenderKeyDecryptCursor option \<times> nat \<Rightarrow>
   GroupSenderKeyReceivePlan option res \<times> GroupSenderKeyDecryptCursor option \<times> nat" where
  "plan_sender_key_message_step cr pc g message st =
     (let hidden = (skm_encrypted_header message \<noteq> None) in
      case bt_get (sender_event_index g) (skm_sender_event_pubkey message) of
        None \<Rightarrow> (complete (PendingDistribution (skm_group_id message) (skm_sender_event_pubkey message)
            (if hidden then None else Some (skm_key_id message))
            (if hidden then None else Some (skm_message_number message))), st)
      | Some i \<Rightarrow>
        if id_group i \<noteq> skm_group_id message
           \<or> is_some_and (bt_get (sender_keys g) i) (\<lambda>r. sender_event_secret_key r \<noteq> None)
        then (complete Ignored, st)
        else case bt_get (groups g) (id_group i) of
          None \<Rightarrow> (Inl (group_error (''unknown group `'' @ id_group i @ ''`'')), st)
        | Some gr \<Rightarrow>
          if \<not> is_sender_key_v1 (protocol gr) \<or> \<not> bt_contains_key (members gr) (id_owner i)
          then (complete Ignored, st)
          else if hidden then plan_hidden cr pc g gr i message st
          else (plan_numbered cr pc g gr i message, st))"

text \<open>The cursor is kept only while the search is unfinished.\<close>

definition plan_sender_key_message_with_budget ::
  "'x crypto_scheme \<Rightarrow> GroupPayloadCodec \<Rightarrow> GroupManager \<Rightarrow> GroupSenderKeyMessage \<Rightarrow>
   GroupSenderKeyDecryptCursor option \<times> nat \<Rightarrow>
   GroupSenderKeyReceivePlan option res \<times> GroupSenderKeyDecryptCursor option \<times> nat" where
  "plan_sender_key_message_with_budget cr pc g message st =
     (case plan_sender_key_message_step cr pc g message st of
        (r, cursor, remaining) \<Rightarrow> (r, if r \<noteq> Inr None then None else cursor, remaining))"

section \<open>Applying a plan\<close>

definition apply_sender_key_receive_plan ::
  "GroupSenderKeyReceivePlan \<Rightarrow> GroupManager \<Rightarrow> GroupSenderKeyHandleResult res \<times> GroupManager" where
  "apply_sender_key_receive_plan plan g =
     (case plan_mutation plan of
        None \<Rightarrow> (Inr (plan_result plan), g)
      | Some m \<Rightarrow>
        let i = mut_identity m in
        case bt_get (groups g) (id_group i) of
          None \<Rightarrow> (Inl (group_error ''group disappeared before sender-key apply''), g)
        | Some gr \<Rightarrow>
          (case bt_get (sender_keys g) i of
             None \<Rightarrow> (Inl (group_error ''sender disappeared before sender-key apply''), g)
           | Some r \<Rightarrow>
             if \<not> is_sender_key_v1 (protocol gr)
                \<or> revision gr \<noteq> mut_revision m
                \<or> bt_contains_key (members gr) (gm_local_owner_pubkey g) \<noteq> mut_local_member m
                \<or> bt_get (sender_event_index g) (mut_author m) \<noteq> Some i
                \<or> sender_event_pubkey r \<noteq> mut_author m
                \<or> \<not> bt_contains_key (members gr) (id_owner i)
                \<or> sender_event_secret_key r \<noteq> None
                \<or> bt_get (states r) (key_id (mut_expected m)) \<noteq> Some (mut_expected m)
             then (Inl (group_error ''sender-key decryption inputs changed before apply''), g)
             else (Inr (plan_result plan), put_sender_key i
                    (r\<lparr>states := bt_insert (key_id (mut_next m)) (mut_next m) (states r)\<rparr>) g)))"

definition handle_sender_key_message_with_budget ::
  "'x crypto_scheme \<Rightarrow> GroupPayloadCodec \<Rightarrow> GroupSenderKeyMessage \<Rightarrow>
   GroupManager \<times> GroupSenderKeyDecryptCursor option \<times> nat \<Rightarrow>
   GroupSenderKeyHandleResult option res \<times> GroupManager \<times> GroupSenderKeyDecryptCursor option \<times> nat" where
  "handle_sender_key_message_with_budget cr pc message = (\<lambda>(g, st).
     case plan_sender_key_message_with_budget cr pc g message st of
       (Inl e, st') \<Rightarrow> (Inl e, g, st')
     | (Inr None, st') \<Rightarrow> (Inr None, g, st')
     | (Inr (Some plan), st') \<Rightarrow>
       (case apply_sender_key_receive_plan plan g of
          (r, g') \<Rightarrow> (and_then r (\<lambda>x. Inr (Some x)), g', st')))"

definition handle_sender_key_message ::
  "'x crypto_scheme \<Rightarrow> GroupPayloadCodec \<Rightarrow> GroupSenderKeyMessage \<Rightarrow> GroupManager \<Rightarrow>
   GroupSenderKeyHandleResult res \<times> GroupManager" where
  "handle_sender_key_message cr pc message g =
     (case handle_sender_key_message_with_budget cr pc message (g, None, USIZE_MAX) of
        (r, g', _) \<Rightarrow>
          (and_then r (\<lambda>out. ok_or out (group_error ''unlimited sender-key search did not finish'')), g'))"

end
