(* ===== verification/Group_Search.thy ===== *)
theory Group_Search
  imports Group_Receive Sender_Key_Properties
begin

text \<open>
  The search over the keys of a sender: what it finds is what decryption under one of the keys would
  find, it can be suspended and resumed, and it ends within a bounded number of trials per key. A plan
  that changes a sender key changes it by one decryption.
\<close>

declare split_paired_All [simp del] split_paired_Ex [simp del]

section \<open>What is found\<close>

definition states_ok :: "(u32, SenderKeyState) btmap \<Rightarrow> bool" where
  "states_ok sts \<longleftrightarrow> (\<forall>k s. bt_get sts k = Some s \<longrightarrow> key_id s = k \<and> sender_key_inv s)"

lemma states_ok_empty [simp]: "states_ok bt_empty"
  by (simp add: states_ok_def)

lemma states_ok_insert: "states_ok sts \<Longrightarrow> key_id s = k \<Longrightarrow> sender_key_inv s \<Longrightarrow> states_ok (bt_insert k s sts)"
  by (simp add: states_ok_def)

lemma states_ok_new [simp]: "states_ok sts \<Longrightarrow> states_ok (bt_insert kid (sender_key_new kid ck n) sts)"
  by (rule states_ok_insert) (simp_all add: sender_key_new_def sender_key_inv_def skipped_past_def)

text \<open>A suspended search of one key, by the invariant of its cursor.\<close>

definition active_ok :: "'x crypto_scheme \<Rightarrow> bytes \<Rightarrow> (SenderKeyState \<times> BlindDecryptCursor) option \<Rightarrow> bool" where
  "active_ok cr ct a \<longleftrightarrow> (case a of None \<Rightarrow> True | Some (initial, cur) \<Rightarrow> skipped_past initial \<and> cursor_inv cr initial ct cur)"

definition cursor_ok :: "'x crypto_scheme \<Rightarrow> GroupSenderKeyDecryptCursor option \<Rightarrow> bool" where
  "cursor_ok cr c \<longleftrightarrow> (case c of None \<Rightarrow> True | Some c \<Rightarrow> active_ok cr (skm_ciphertext (gc_message c)) (gc_active c))"

text \<open>The key that is searched is one of the states.\<close>

definition active_current :: "(u32, SenderKeyState) btmap \<Rightarrow> (SenderKeyState \<times> BlindDecryptCursor) option \<Rightarrow> bool" where
  "active_current sts a \<longleftrightarrow> (case a of None \<Rightarrow> True | Some (initial, _) \<Rightarrow> bt_get sts (key_id initial) = Some initial)"

definition current_key ::
  "SenderKeyState \<Rightarrow> GroupSenderKeyDecryptCursor \<Rightarrow> SenderKeyState \<times> BlindDecryptCursor" where
  "current_key st c = (case gc_active c of Some a \<Rightarrow> a | None \<Rightarrow> (st, blind_cursor_new st))"

definition next_key :: "GroupSenderKeyDecryptCursor \<Rightarrow> GroupSenderKeyDecryptCursor" where
  "next_key c = c\<lparr>gc_active := None, gc_key_index := Suc (gc_key_index c)\<rparr>"

lemma next_key_simps [simp]:
  "gc_active (next_key c) = None" "gc_key_index (next_key c) = Suc (gc_key_index c)"
  "gc_key_ids (next_key c) = gc_key_ids c" "gc_message (next_key c) = gc_message c"
  "gc_identity (next_key c) = gc_identity c" "next_key (c\<lparr>gc_active := a\<rparr>) = next_key c"
  by (simp_all add: next_key_def)

text \<open>One round of the loop.\<close>

lemma search_keys_step:
  "search_keys cr sts ct c n =
     (if gc_key_index c \<ge> length (gc_key_ids c) then (Exhausted, c, n)
      else case bt_get sts (gc_key_ids c ! gc_key_index c) of
        None \<Rightarrow> search_keys cr sts ct (next_key c) n
      | Some st \<Rightarrow>
        if n = 0 then (Pending, c, 0)
        else case advance cr ct (snd (current_key st c)) n of
            (Inr Pending, cur, left) \<Rightarrow> (Pending, c\<lparr>gc_active := Some (fst (current_key st c), cur)\<rparr>, left)
          | (Inr (Complete plan), cur, left) \<Rightarrow>
              (Complete plan, c\<lparr>gc_active := Some (fst (current_key st c), cur)\<rparr>, left)
          | (_, cur, left) \<Rightarrow> search_keys cr sts ct (next_key c) left)"
  by (subst search_keys.simps)
     (auto simp: current_key_def next_key_def Let_def split: option.splits prod.splits sum.splits BlindDecryptStep.splits)

lemma states_okD: "states_ok sts \<Longrightarrow> bt_get sts k = Some s \<Longrightarrow> key_id s = k \<and> sender_key_inv s"
  by (simp add: states_ok_def)

lemma current_key_ok:
  assumes "states_ok sts" "active_ok cr ct (gc_active c)" "active_current sts (gc_active c)"
    and "bt_get sts k = Some st" "current_key st c = (initial, cur)"
  shows "skipped_past initial \<and> cursor_inv cr initial ct cur \<and> bt_get sts (key_id initial) = Some initial"
proof (cases "gc_active c")
  case None
  then show ?thesis
    using assms(4,5) states_okD [OF assms(1,4)] cursor_inv_new by (auto simp: current_key_def sender_key_inv_def)
next
  case (Some a)
  then show ?thesis
    using assms(2,3,5) by (simp add: current_key_def active_ok_def active_current_def)
qed

lemma search_keys_sound:
  assumes "states_ok sts" "active_ok cr ct (gc_active c)" "active_current sts (gc_active c)"
    and "search_keys cr sts ct c n = (step, c', left)"
  shows "gc_message c' = gc_message c \<and> gc_identity c' = gc_identity c
    \<and> (step = Pending \<longrightarrow> active_ok cr ct (gc_active c') \<and> active_current sts (gc_active c'))
    \<and> (\<forall>plan. step = Complete plan \<longrightarrow>
         (\<exists>s. bt_get sts (blind_key_id plan) = Some s \<and> decrypts_to cr s ct plan))"
  using assms
proof (induction "length (gc_key_ids c) - gc_key_index c" arbitrary: c n rule: less_induct)
  case less
  show ?case
  proof (cases "gc_key_index c \<ge> length (gc_key_ids c)")
    case True
    then show ?thesis using less.prems by (simp add: search_keys_step [of cr sts ct c])
  next
    case False
    have next_ok: ?thesis if "search_keys cr sts ct (next_key c) m = (step, c', left)" for m
      using less.hyps [of "next_key c" m] that False less.prems(1)
      by (simp add: active_ok_def active_current_def)
    show ?thesis
    proof (cases "bt_get sts (gc_key_ids c ! gc_key_index c)")
      case None
      then have "search_keys cr sts ct (next_key c) n = (step, c', left)"
        using less.prems(4) False by (simp add: search_keys_step [of cr sts ct c])
      then show ?thesis by (rule next_ok)
    next
      case (Some st)
      obtain initial cur where k: "current_key st c = (initial, cur)" by fastforce
      have ok: "skipped_past initial" "cursor_inv cr initial ct cur" "bt_get sts (key_id initial) = Some initial"
        using current_key_ok [OF less.prems(1-3) Some k] by simp_all
      obtain r cur' left' where adv: "advance cr ct cur n = (r, cur', left')" by (metis prod_cases3)
      show ?thesis
      proof (cases "n = 0")
        case True
        then show ?thesis using less.prems Some False by (auto simp: search_keys_step [of cr sts ct c])
      next
        case n: False
        consider (pending) "r = Inr Pending" "cursor_inv cr initial ct cur'"
          | (hit) plan where "r = Inr (Complete plan)" "decrypts_to cr initial ct plan"
          | (miss) "r \<noteq> Inr Pending" "\<nexists>plan. r = Inr (Complete plan)"
          using advance_sound [OF ok(2) ok(1) adv] by blast
        then show ?thesis
        proof cases
          case miss
          then have "search_keys cr sts ct (next_key c) left' = (step, c', left)"
            using less.prems(4) Some False n k adv
            by (auto simp: search_keys_step [of cr sts ct c] split: sum.splits BlindDecryptStep.splits)
          then show ?thesis by (rule next_ok)
        next
          case pending
          then show ?thesis using less.prems(4) Some False n k adv ok
            by (auto simp: search_keys_step [of cr sts ct c] active_ok_def active_current_def)
        next
          case hit
          then show ?thesis using less.prems(4) Some False n k adv ok
            by (auto simp: search_keys_step [of cr sts ct c] decrypts_to_def)
        qed
      qed
    qed
  qed
qed

section \<open>Suspending and resuming\<close>

lemma search_keys_add:
  "search_keys cr sts ct c (a + b) =
     (case search_keys cr sts ct c a of
        (Pending, c', left) \<Rightarrow> search_keys cr sts ct c' b
      | (step, c', left) \<Rightarrow> (step, c', left + b))"
proof (induction "length (gc_key_ids c) - gc_key_index c" arbitrary: c a rule: less_induct)
  case less
  show ?case
  proof (cases "gc_key_index c \<ge> length (gc_key_ids c)")
    case True
    then show ?thesis by (simp add: search_keys_step [of cr sts ct c])
  next
    case False
    have IH: "search_keys cr sts ct (next_key c) (m + b) =
      (case search_keys cr sts ct (next_key c) m of
        (Pending, c', left) \<Rightarrow> search_keys cr sts ct c' b
      | (step, c', left) \<Rightarrow> (step, c', left + b))" for m
      using less.hyps [of "next_key c" m] False by simp
    show ?thesis
    proof (cases "bt_get sts (gc_key_ids c ! gc_key_index c)")
      case None
      then show ?thesis using IH [of a] False by (simp add: search_keys_step [of cr sts ct c])
    next
      case (Some st)
      obtain r cur left where adv: "advance cr ct (snd (current_key st c)) a = (r, cur, left)" by (metis prod_cases3)
      let ?c = "c\<lparr>gc_active := Some (fst (current_key st c), cur)\<rparr>"
      have c: "current_key st ?c = (fst (current_key st c), cur)" by (simp add: current_key_def)
      note steps = search_keys_step [of cr sts ct c] search_keys_step [of cr sts ct ?c]
      consider "a = 0" | "a > 0" "r = Inr Pending" | plan where "a > 0" "r = Inr (Complete plan)"
        | "a > 0" "r \<noteq> Inr Pending" "\<nexists>plan. r = Inr (Complete plan)" by blast
      then show ?thesis
      proof cases
        case 1
        then show ?thesis using Some False by (simp add: search_keys_step [of cr sts ct c 0])
      next
        case 2
        then show ?thesis
          using Some False adv c advance_add [of cr ct "snd (current_key st c)" a b]
          by (cases "b = 0") (simp_all add: steps split: prod.splits sum.splits BlindDecryptStep.splits)
      next
        case 3
        then show ?thesis
          using Some False adv c advance_add [of cr ct "snd (current_key st c)" a b] by (simp add: steps)
      next
        case 4
        then show ?thesis
          using Some False adv c advance_add [of cr ct "snd (current_key st c)" a b] IH [of left]
          by (auto simp: steps split: sum.splits BlindDecryptStep.splits)
      qed
    qed
  qed
qed

section \<open>Bounded search\<close>

definition KEY_TRIALS :: nat where
  "KEY_TRIALS = SENDER_KEY_MAX_STORED_SKIPPED_KEYS + SENDER_KEY_MAX_SKIP + 2"

lemma advance_used:
  assumes "cursor_inv cr st ct cur" "skipped_past st" "advance cr ct cur budget = (r, cur', left)"
  shows "budget \<le> left + Suc (trials_left cur)"
  using assms
proof (induction budget arbitrary: cur)
  case (Suc budget)
  show ?case
  proof (cases "blind_trial cr ct cur")
    case (Retry c)
    then show ?thesis
      using Suc.IH [OF blind_trial_retry [OF Suc.prems(1,2) Retry] Suc.prems(2)] Suc.prems(3)
        blind_trial_decreases [OF Suc.prems(1,2) Retry] by simp
  next
    case (Return r' c used)
    then show ?thesis using Suc.prems blind_trial_not_pending [OF Return] by auto
  qed
qed simp

lemma trials_left_bound:
  assumes "sender_key_inv st"
  shows "Suc (trials_left (blind_cursor_new st)) \<le> KEY_TRIALS"
proof -
  have "Suc (unat (saturating_add (iteration st) (of_nat SENDER_KEY_MAX_SKIP))) - unat (iteration st)
      \<le> Suc SENDER_KEY_MAX_SKIP"
    using unat_max_skip [of "iteration st"] by simp
  then show ?thesis
    using assms
    by (simp add: trials_left_def blind_cursor_new_def bt_len_entries [symmetric] sender_key_inv_def KEY_TRIALS_def)
qed

lemma search_keys_decides:
  assumes "states_ok sts" "gc_active c = None" "(length (gc_key_ids c) - gc_key_index c) * KEY_TRIALS < n"
  shows "fst (search_keys cr sts ct c n) \<noteq> Pending"
  using assms
proof (induction "length (gc_key_ids c) - gc_key_index c" arbitrary: c n rule: less_induct)
  case less
  let ?d = "length (gc_key_ids c) - Suc (gc_key_index c)"
  show ?case
  proof (cases "gc_key_index c \<ge> length (gc_key_ids c)")
    case True
    then show ?thesis by (simp add: search_keys_step [of cr sts ct c])
  next
    case False
    have n: "Suc ?d * KEY_TRIALS < n" using less.prems(3) False by (simp add: Suc_diff_Suc)
    have IH: "fst (search_keys cr sts ct (next_key c) m) \<noteq> Pending" if "?d * KEY_TRIALS < m" for m
      using less.hyps [of "next_key c" m] False less.prems(1) that by simp
    show ?thesis
    proof (cases "bt_get sts (gc_key_ids c ! gc_key_index c)")
      case None
      then show ?thesis using IH [of n] n False by (simp add: search_keys_step [of cr sts ct c])
    next
      case (Some st)
      then have st: "sender_key_inv st" "skipped_past st"
        using states_okD [OF less.prems(1)] by (simp_all add: sender_key_inv_def)
      have k: "current_key st c = (st, blind_cursor_new st)" using less.prems(2) by (simp add: current_key_def)
      obtain r cur left where adv: "advance cr ct (blind_cursor_new st) n = (r, cur, left)" by (metis prod_cases3)
      have "trials_left (blind_cursor_new st) < n" using trials_left_bound [OF st(1)] n by simp
      then have r: "r \<noteq> Inr Pending" using advance_decides [OF cursor_inv_new st(2), of n cr ct] adv by simp
      have "?d * KEY_TRIALS < left"
        using advance_used [OF cursor_inv_new st(2) adv] trials_left_bound [OF st(1)] n by simp
      from IH [OF this] show ?thesis
        using Some False n k adv r by (auto simp: search_keys_step [of cr sts ct c] split: sum.splits BlindDecryptStep.splits)
    qed
  qed
qed

section \<open>Plans\<close>

definition all_states_ok :: "GroupManager \<Rightarrow> bool" where
  "all_states_ok g \<longleftrightarrow> (\<forall>i r. bt_get (sender_keys g) i = Some r \<longrightarrow> states_ok (states r))"

text \<open>A plan that changes a key does so by one decryption.\<close>

definition plan_ok :: "'x crypto_scheme \<Rightarrow> GroupSenderKeyReceivePlan \<Rightarrow> bool" where
  "plan_ok cr plan \<longleftrightarrow> (\<forall>m. plan_mutation plan = Some m \<longrightarrow>
     (\<exists>n ct p. decrypt_in_place cr (mut_expected m) n ct = Inr (mut_next m, p)))"

lemma plan_okI:
  "plan_mutation plan = Some m \<Longrightarrow> decrypt_in_place cr (mut_expected m) n ct = Inr (mut_next m, p) \<Longrightarrow> plan_ok cr plan"
  by (auto simp: plan_ok_def)

lemma plan_ok_none: "plan_mutation plan = None \<Longrightarrow> plan_ok cr plan"
  by (simp add: plan_ok_def)

lemma plan_ok_complete: "complete result = Inr (Some plan) \<Longrightarrow> plan_ok cr plan"
  by (auto simp: complete_def plan_ok_def)

lemma complete_Some [simp]: "complete result \<noteq> Inr None"
  by (simp add: complete_def)

text \<open>What becomes of a plaintext: no plan is left open, and a change has the states it was given.\<close>

lemma plan_plaintext_cases:
  assumes "plan_plaintext pc g gr i author expected next_state kid n payload = Inr out"
  shows "\<exists>plan. out = Some plan \<and> (plan_mutation plan = None \<and> (\<nexists>ev. plan_result plan = GroupEvent ev)
    \<or> (\<exists>m s. expected = Inr s \<and> plan_mutation plan = Some m \<and> mut_expected m = s \<and> mut_next m = next_state
         \<and> mut_identity m = i \<and> mut_author m = author
         \<and> (\<exists>body. plan_result plan = GroupEvent (GroupMessageEvent \<lparr>grm_group_id = group_id gr, grm_sender_owner = id_owner i,
              grm_sender_device = Some (id_device i), grm_body = body, grm_revision = revision gr\<rparr>))))"
  using assms unfolding plan_plaintext_def
  by (auto simp: result_simps complete_def not_less_iff_gr_or_eq split: option.splits if_splits)

lemma advance_blind_sound:
  assumes "all_states_ok g" "cursor_ok cr c" "advance_blind_message cr g i msg c n = (out, c', left)"
  shows "(out = Inr Pending \<longrightarrow> cursor_ok cr c')
    \<and> (\<forall>plan. out = Inr (Complete plan) \<longrightarrow> (\<exists>r s. bt_get (sender_keys g) i = Some r
         \<and> bt_get (states r) (blind_key_id plan) = Some s \<and> decrypts_to cr s (skm_ciphertext msg) plan))"
proof (cases "bt_get (sender_keys g) i")
  case None
  then show ?thesis using assms(3) by (auto simp: advance_blind_message_def)
next
  case (Some r)
  define c1 where "c1 = (if is_some_and c (\<lambda>c. gc_identity c \<noteq> i \<or> gc_message c \<noteq> msg) then None else c)"
  define c2 where "c2 = (case c1 of Some c \<Rightarrow> c
    | None \<Rightarrow> \<lparr>gc_message = msg, gc_identity = i, gc_key_ids = bt_keys (states r), gc_key_index = 0, gc_active = None\<rparr>)"
  have sts: "states_ok (states r)" using assms(1) Some by (simp add: all_states_ok_def)
  show ?thesis
  proof (cases "is_some_and c1 (\<lambda>c. is_some_and (gc_active c) (\<lambda>(initial, _). bt_get (states r) (key_id initial) \<noteq> Some initial))")
    case True
    then have "out = Inr Pending" "c' = None" using assms(3) Some by (auto simp: advance_blind_message_def Let_def c1_def)
    then show ?thesis by (simp add: cursor_ok_def)
  next
    case False
    then have search: "search_keys cr (states r) (skm_ciphertext msg) c2 n = (projr out, the c', left)"
      "out = Inr (projr out)" "c' = Some (the c')"
      using assms(3) Some by (auto simp: advance_blind_message_def Let_def c1_def c2_def split: prod.splits)
    have msg: "gc_message c2 = msg" by (auto simp: c2_def c1_def split: option.splits if_splits)
    have act: "active_ok cr (skm_ciphertext msg) (gc_active c2)"
      using assms(2) by (auto simp: c2_def c1_def cursor_ok_def active_ok_def split: option.splits if_splits)
    have cur: "active_current (states r) (gc_active c2)"
      using False by (auto simp: c2_def active_current_def split: option.splits)
    show ?thesis
      using search_keys_sound [OF sts act cur search(1)] search(2,3) msg Some
      by (auto simp: cursor_ok_def split: option.splits)
  qed
qed

lemma plan_hidden_sound:
  assumes "all_states_ok g" "cursor_ok cr c" "plan_hidden cr pc g gr i msg (c, n) = (out, c', left)"
  shows "(out = Inr None \<longrightarrow> cursor_ok cr c') \<and> (\<forall>plan. out = Inr (Some plan) \<longrightarrow> plan_ok cr plan)"
proof -
  obtain step c1 n1 where adv: "advance_blind_message cr g i msg c n = (step, c1, n1)" by (metis prod_cases3)
  note sound = advance_blind_sound [OF assms(1,2) adv]
  show ?thesis
  proof (cases "\<exists>p. step = Inr (Complete p)")
    case True
    then obtain p r s where p: "step = Inr (Complete p)" and s: "bt_get (sender_keys g) i = Some r"
      "bt_get (states r) (blind_key_id p) = Some s" "decrypts_to cr s (skm_ciphertext msg) p"
      using sound by blast
    have out: "out = plan_plaintext pc g gr i (skm_sender_event_pubkey msg) (Inr s) (blind_next_state p)
        (blind_key_id p) (blind_message_number p) (blind_plaintext p)"
      using assms(3) adv p s by (simp add: plan_hidden_def)
    show ?thesis
    proof (cases out)
      case (Inr x)
      then show ?thesis
        using plan_plaintext_cases [OF Inr [unfolded out]] s(3) by (auto simp: decrypts_to_def intro: plan_ok_none plan_okI [where p = "blind_plaintext p"])
    qed simp
  next
    case False
    then show ?thesis
      using assms(3) adv sound
      by (cases step) (auto simp: plan_hidden_def complete_def plan_ok_def split: BlindDecryptStep.splits)
  qed
qed

lemma plan_numbered_cases:
  assumes "plan_numbered cr pc g gr i msg = Inr out"
  shows "\<exists>plan. out = Some plan \<and> (plan_mutation plan = None \<and> (\<nexists>ev. plan_result plan = GroupEvent ev)
    \<or> (\<exists>m r s p. bt_get (sender_keys g) i = Some r \<and> bt_get (states r) (skm_key_id msg) = Some s
         \<and> plan_mutation plan = Some m \<and> mut_expected m = s \<and> mut_identity m = i
         \<and> mut_author m = skm_sender_event_pubkey msg \<and> key_id s = skm_key_id msg
         \<and> (\<exists>body. plan_result plan = GroupEvent (GroupMessageEvent \<lparr>grm_group_id = group_id gr, grm_sender_owner = id_owner i,
              grm_sender_device = Some (id_device i), grm_body = body, grm_revision = revision gr\<rparr>))
         \<and> decrypt_in_place cr s (skm_message_number msg) (skm_ciphertext msg) = Inr (mut_next m, p)))"
proof -
  obtain r where r: "bt_get (sender_keys g) i = Some r"
    using assms by (auto simp: plan_numbered_def Let_def result_simps)
  show ?thesis
  proof (cases "bt_get (states r) (skm_key_id msg)")
    case None
    then show ?thesis using assms r by (auto simp: plan_numbered_def Let_def complete_def)
  next
    case (Some s)
    then obtain p where p: "plan_decrypt cr s \<lparr>content_key_id = skm_key_id msg, content_message_number = skm_message_number msg,
        content_ciphertext = skm_ciphertext msg\<rparr> = Inr p"
      and out: "plan_plaintext pc g gr i (skm_sender_event_pubkey msg) (Inr s) (decrypt_next_state p) (skm_key_id msg)
        (skm_message_number msg) (decrypt_plaintext p) = Inr out"
      using assms r by (auto simp: plan_numbered_def Let_def result_simps)
    show ?thesis
      using plan_plaintext_cases [OF out] p Some r by (auto simp: plan_decrypt_eq_Inr)
  qed
qed

lemma plan_message_sound:
  assumes "all_states_ok g" "cursor_ok cr c" "plan_sender_key_message_with_budget cr pc g msg (c, n) = (out, c', left)"
  shows "cursor_ok cr c' \<and> (\<forall>plan. out = Inr (Some plan) \<longrightarrow> plan_ok cr plan)"
proof -
  have "plan_ok cr plan" if "plan_numbered cr pc g gr i msg = Inr (Some plan)" for gr i plan
    using plan_numbered_cases [OF that] by (auto intro: plan_okI plan_ok_none)
  moreover have "plan_numbered cr pc g gr i msg \<noteq> Inr None" for gr i
    using plan_numbered_cases [of cr pc g gr i msg None] by auto
  ultimately show ?thesis
    using assms plan_hidden_sound [OF assms(1,2)]
    unfolding plan_sender_key_message_with_budget_def plan_sender_key_message_step_def
    by (auto simp: Let_def cursor_ok_def [of _ None] split: prod.splits option.splits if_splits dest: plan_ok_complete)
qed

end
