(* ===== verification/Group_Traffic.thy ===== *)
theory Group_Traffic
  imports Group_Manager
begin

text \<open>
  What a group manager sends (\<^verbatim>\<open>group_manager/management.rs\<close>, \<^verbatim>\<open>sender_keys.rs\<close> and the end of
  \<^verbatim>\<open>incoming.rs\<close>). Everything but a message under a sender key travels over the pairwise sessions of the
  session manager, so an operation works on the group manager, the session manager and the random source
  together, and returns them as it leaves them also when it fails.
\<close>

section \<open>Fan-out over the sessions\<close>

type_synonym gstate = "GroupManager \<times> SessionManager \<times> ctx"

definition merge_group_prepared_publish ::
  "GroupPreparedPublish \<Rightarrow> GroupPreparedPublish \<Rightarrow> GroupPreparedPublish" where
  "merge_group_prepared_publish p q =
     \<lparr>pp_deliveries = pp_deliveries p @ pp_deliveries q,
      pp_invite_responses = pp_invite_responses p @ pp_invite_responses q,
      pp_sender_key_messages = pp_sender_key_messages p @ pp_sender_key_messages q,
      pp_relay_gaps = remdups_adj (sort (pp_relay_gaps p @ pp_relay_gaps q)),
      pp_pending_fanouts = fold (\<lambda>f acc. if f \<in> set acc then acc else acc @ [f])
        (pp_pending_fanouts q) (pp_pending_fanouts p)\<rparr>"

definition empty_group_prepared_send :: "string \<Rightarrow> GroupPreparedSend" where
  "empty_group_prepared_send gid =
     \<lparr>ps_group_id = gid, ps_remote = prepared_publish_empty, ps_local_sibling = prepared_publish_empty\<rparr>"

definition encode_context :: "SessionManager \<Rightarrow> UnixSeconds \<Rightarrow> GroupPayloadEncodeContext" where
  "encode_context m now = \<lparr>enc_local_device_pubkey = local_device_pubkey m, enc_created_at = now\<rparr>"

definition local_sibling_payload_bytes ::
  "'x invite_crypto_scheme \<Rightarrow> UnixSeconds \<Rightarrow> bytes \<Rightarrow> SessionManager \<times> ctx \<Rightarrow>
   GroupPreparedPublish res \<times> SessionManager \<times> ctx" where
  "local_sibling_payload_bytes cr now payload st =
     then_do (prepare_local_sibling_send_reusing_all_sessions cr now payload st) (\<lambda>p st.
       (Inr \<lparr>pp_deliveries = deliveries p, pp_invite_responses = invite_responses p,
             pp_sender_key_messages = [], pp_relay_gaps = relay_gaps p,
             pp_pending_fanouts = (if relay_gaps p = [] then [] else [LocalSiblings payload])\<rparr>, st))"

definition local_sibling_payload ::
  "'x invite_crypto_scheme \<Rightarrow> GroupPayloadCodec \<Rightarrow> UnixSeconds \<Rightarrow> GroupPairwiseCommand \<Rightarrow>
   SessionManager \<times> ctx \<Rightarrow> GroupPreparedPublish res \<times> SessionManager \<times> ctx" where
  "local_sibling_payload cr pc now command st =
     (if \<not> has_authorized_local_siblings (fst st) then (Inr prepared_publish_empty, st)
      else then_do (encode_pairwise_command pc (encode_context (fst st) now) command, st)
             (local_sibling_payload_bytes cr now))"

definition local_sibling_sync ::
  "'x invite_crypto_scheme \<Rightarrow> GroupPayloadCodec \<Rightarrow> UnixSeconds \<Rightarrow> GroupRecord \<Rightarrow>
   SessionManager \<times> ctx \<Rightarrow> GroupPreparedPublish res \<times> SessionManager \<times> ctx" where
  "local_sibling_sync cr pc now r st =
     (if \<not> has_authorized_local_siblings (fst st) then (Inr prepared_publish_empty, st)
      else then_do (encode_pairwise_command pc (encode_context (fst st) now) (metadata_payload r), st)
             (local_sibling_payload_bytes cr now))"

fun fanout_each ::
  "'x invite_crypto_scheme \<Rightarrow> UnixSeconds \<Rightarrow> bytes \<Rightarrow> OwnerPubkey list \<Rightarrow>
   SessionManager \<times> ctx \<Rightarrow> GroupPreparedPublish res \<times> SessionManager \<times> ctx" where
  "fanout_each cr now payload [] st = (Inr prepared_publish_empty, st)"
| "fanout_each cr now payload (ow # ows) st =
     then_do (prepare_remote_send cr now ow payload st) (\<lambda>p st.
     then_do (fanout_each cr now payload ows st) (\<lambda>rest st.
       (Inr \<lparr>pp_deliveries = deliveries p @ pp_deliveries rest,
             pp_invite_responses = invite_responses p @ pp_invite_responses rest,
             pp_sender_key_messages = [],
             pp_relay_gaps = relay_gaps p @ pp_relay_gaps rest,
             pp_pending_fanouts =
               (if relay_gaps p = [] then [] else [RemoteFanout ow payload]) @ pp_pending_fanouts rest\<rparr>, st)))"

definition fanout_payload ::
  "'x invite_crypto_scheme \<Rightarrow> GroupPayloadCodec \<Rightarrow> UnixSeconds \<Rightarrow> OwnerPubkey list \<Rightarrow> GroupPairwiseCommand \<Rightarrow>
   SessionManager \<times> ctx \<Rightarrow> GroupPreparedPublish res \<times> SessionManager \<times> ctx" where
  "fanout_payload cr pc now recipients command st =
     then_do (encode_pairwise_command pc (encode_context (fst st) now) command, st) (\<lambda>payload st.
     then_do (fanout_each cr now payload recipients st) (\<lambda>p st.
       (Inr (p\<lparr>pp_relay_gaps := remdups_adj (sort (pp_relay_gaps p))\<rparr>), st)))"

definition command_group_id :: "GroupPairwiseCommand \<Rightarrow> string" where
  "command_group_id command =
     (case command of
        MetadataSnapshot s \<Rightarrow> gs_group_id s
      | GroupMessage gid _ _ \<Rightarrow> gid
      | SenderKeyDistributionCommand d \<Rightarrow> dist_group_id d
      | SenderKeyRepairRequestCommand q \<Rightarrow> req_group_id q)"

text \<open>Operations on the sessions, or on the group manager and the random source, inside the whole state.\<close>

definition on_sessions ::
  "(SessionManager \<times> ctx \<Rightarrow> 'a res \<times> SessionManager \<times> ctx) \<Rightarrow> gstate \<Rightarrow> 'a res \<times> gstate" where
  "on_sessions f = (\<lambda>(g, st). case f st of (r, st') \<Rightarrow> (r, g, st'))"

definition on_group :: "(GroupManager \<times> bytes list \<Rightarrow> 'a res \<times> GroupManager \<times> bytes list) \<Rightarrow> gstate \<Rightarrow> 'a res \<times> gstate" where
  "on_group f = (\<lambda>(g, m, rng, draw). case f (g, rng) of (r, g', rng') \<Rightarrow> (r, g', m, rng', draw))"

definition repair_payload_to_owner ::
  "'x invite_crypto_scheme \<Rightarrow> GroupPayloadCodec \<Rightarrow> UnixSeconds \<Rightarrow> OwnerPubkey \<Rightarrow> GroupPairwiseCommand \<Rightarrow>
   gstate \<Rightarrow> GroupPreparedSend res \<times> gstate" where
  "repair_payload_to_owner cr pc now requester command st =
     (if requester = gm_local_owner_pubkey (fst st)
      then then_do (on_sessions (local_sibling_payload cr pc now command) st) (\<lambda>p st.
             (Inr \<lparr>ps_group_id = command_group_id command, ps_remote = prepared_publish_empty,
                   ps_local_sibling = p\<rparr>, st))
      else then_do (on_sessions (fanout_payload cr pc now [requester] command) st) (\<lambda>p st.
             (Inr \<lparr>ps_group_id = command_group_id command, ps_remote = p,
                   ps_local_sibling = prepared_publish_empty\<rparr>, st)))"

section \<open>Distributing the local sender key\<close>

definition fanout_sender_key_distribution ::
  "'x invite_crypto_scheme \<Rightarrow> GroupPayloadCodec \<Rightarrow> UnixSeconds \<Rightarrow> OwnerPubkey list \<Rightarrow> SenderKeyDistribution \<Rightarrow>
   gstate \<Rightarrow> GroupPreparedPublish res \<times> gstate" where
  "fanout_sender_key_distribution cr pc now recipients d st =
     then_do (on_sessions (fanout_payload cr pc now recipients (SenderKeyDistributionCommand d)) st) (\<lambda>p (g, m, ctx).
       (Inr p,
        mark_sender_key_distribution_recipients (dist_group_id d) (local_device_pubkey m) (dist_key_id d) recipients
          (record_sender_key_repair_snapshot (dist_group_id d) (local_device_pubkey m) d recipients g), m, ctx))"

definition local_sibling_sender_key_distribution ::
  "'x invite_crypto_scheme \<Rightarrow> GroupPayloadCodec \<Rightarrow> UnixSeconds \<Rightarrow> SenderKeyDistribution \<Rightarrow>
   gstate \<Rightarrow> GroupPreparedPublish res \<times> gstate" where
  "local_sibling_sender_key_distribution cr pc now d st =
     then_do (on_sessions (local_sibling_payload cr pc now (SenderKeyDistributionCommand d)) st) (\<lambda>p (g, m, ctx).
       (Inr p,
        if pp_deliveries p \<noteq> [] \<or> pp_invite_responses p \<noteq> [] \<or> pp_relay_gaps p \<noteq> [] \<or> pp_pending_fanouts p \<noteq> []
        then record_sender_key_repair_snapshot (dist_group_id d) (local_device_pubkey m) d
               [gm_local_owner_pubkey g] g
        else g, m, ctx))"

text \<open>Bootstrap and rotation differ in whether a new key is forced.\<close>

definition distribute_sender_key ::
  "'x invite_crypto_scheme \<Rightarrow> GroupPayloadCodec \<Rightarrow> UnixSeconds \<Rightarrow> bool \<Rightarrow> GroupRecord \<Rightarrow> GroupPreparedSend \<Rightarrow>
   gstate \<Rightarrow> GroupPreparedSend res \<times> gstate" where
  "distribute_sender_key cr pc now force_rotate r prepared st =
     then_do (on_group (ensure_local_sender_key_record cr now r (local_device_pubkey (fst (snd st))) force_rotate) st)
       (\<lambda>(d, _) st.
     then_do (fanout_sender_key_distribution cr pc now (remote_members r (gm_local_owner_pubkey (fst st))) d st)
       (\<lambda>remote st.
     then_do (local_sibling_sender_key_distribution cr pc now d st) (\<lambda>local st.
       (Inr (prepared\<lparr>ps_remote := merge_group_prepared_publish (ps_remote prepared) remote,
                      ps_local_sibling := merge_group_prepared_publish (ps_local_sibling prepared) local\<rparr>), st))))"

definition prepare_sender_key_bootstrap ::
  "'x invite_crypto_scheme \<Rightarrow> GroupPayloadCodec \<Rightarrow> UnixSeconds \<Rightarrow> GroupRecord \<Rightarrow> GroupPreparedSend \<Rightarrow>
   gstate \<Rightarrow> GroupPreparedSend res \<times> gstate" where
  "prepare_sender_key_bootstrap cr pc now r prepared st = distribute_sender_key cr pc now False r prepared st"

definition prepare_sender_key_rotation ::
  "'x invite_crypto_scheme \<Rightarrow> GroupPayloadCodec \<Rightarrow> UnixSeconds \<Rightarrow> GroupRecord \<Rightarrow> GroupPreparedSend \<Rightarrow>
   gstate \<Rightarrow> GroupPreparedSend res \<times> gstate" where
  "prepare_sender_key_rotation cr pc now r prepared st = distribute_sender_key cr pc now True r prepared st"

text \<open>One message under the latest key; the chain has moved on before the signing key is looked up.\<close>

definition encrypt_under_sender_key ::
  "'x invite_crypto_scheme \<Rightarrow> GroupPayloadCodec \<Rightarrow> UnixSeconds \<Rightarrow> GroupRecord \<Rightarrow> bytes \<Rightarrow>
   gstate \<Rightarrow> GroupSenderKeyMessageEnvelope res \<times> gstate" where
  "encrypt_under_sender_key cr pc now r body = (\<lambda>(g, m, rng, draw).
     let i = local_id g (group_id r) (local_device_pubkey m) in
     case and_then (ok_or (bt_get (sender_keys g) i) (group_error ''missing local sender-key record'')) (\<lambda>sr.
          and_then (ok_or (latest_key_id sr) (group_error ''missing local sender-key id'')) (\<lambda>kid.
          and_then (ok_or (bt_get (states sr) kid) (group_error ''missing local sender-key state'')) (\<lambda>s.
          and_then (encode_sender_key_plaintext pc (encode_context m now)
              \<lparr>pt_group_id = group_id r, pt_revision = revision r, pt_body = body\<rparr>) (\<lambda>plaintext.
          and_then (plan_encrypt cr draw s plaintext) (\<lambda>plan. Inr (sr, kid, s, plan)))))) of
       Inl e \<Rightarrow> (Inl e, g, m, rng, draw + 1)
     | Inr (sr, kid, s, plan) \<Rightarrow>
       (let sr' = sr\<lparr>states := bt_insert kid (fst (apply_encrypt s plan)) (states sr)\<rparr>;
            g' = put_sender_key i sr' g
        in (and_then (ok_or (sender_event_secret_key sr') (group_error ''missing local sender-event secret key'')) (\<lambda>secret.
              Inr \<lparr>ske_group_id = group_id r, ske_sender_event_pubkey = sender_event_pubkey sr',
                   ske_signer_secret_key = secret, ske_key_id = kid,
                   ske_message_number = encrypt_message_number plan, ske_encrypted_header = None,
                   ske_created_at = now, ske_ciphertext = encrypt_ciphertext plan\<rparr>),
            g', m, rng, draw + 1)))"

definition push_message :: "GroupSenderKeyMessageEnvelope \<Rightarrow> GroupPreparedPublish \<Rightarrow> GroupPreparedPublish" where
  "push_message e p = p\<lparr>pp_sender_key_messages := pp_sender_key_messages p @ [e]\<rparr>"

definition send_sender_key_message ::
  "'x invite_crypto_scheme \<Rightarrow> GroupPayloadCodec \<Rightarrow> UnixSeconds \<Rightarrow> GroupRecord \<Rightarrow> bytes \<Rightarrow>
   gstate \<Rightarrow> GroupPreparedSend res \<times> gstate" where
  "send_sender_key_message cr pc now r body st =
     then_do (on_sessions (local_sibling_sync cr pc now r) st) (\<lambda>local_sibling st.
       let local_device = local_device_pubkey (fst (snd st));
           force_rotate = local_sender_key_has_removed_recipients (fst st) r local_device
       in
     then_do (on_group (ensure_local_sender_key_record cr now r local_device force_rotate) st) (\<lambda>(d, _) st.
       let recipients = sender_key_distribution_recipients (fst st) r local_device (dist_key_id d)
                          (remote_members r (gm_local_owner_pubkey (fst st)))
       in
     then_do (if recipients \<noteq> [] then fanout_sender_key_distribution cr pc now recipients d st
              else (Inr prepared_publish_empty, st)) (\<lambda>remote st.
     then_do (local_sibling_sender_key_distribution cr pc now d st) (\<lambda>sibling_distribution st.
     then_do (encrypt_under_sender_key cr pc now r body st) (\<lambda>e st.
       let siblings = merge_group_prepared_publish local_sibling sibling_distribution
       in (Inr \<lparr>ps_group_id = group_id r, ps_remote = push_message e remote,
                ps_local_sibling = (if has_authorized_local_siblings (fst (snd st))
                                    then push_message e siblings else siblings)\<rparr>, st))))))"

section \<open>Managing groups\<close>

text \<open>The metadata of a record to the given owners and to the local siblings, in this order.\<close>

definition publish_metadata ::
  "'x invite_crypto_scheme \<Rightarrow> GroupPayloadCodec \<Rightarrow> UnixSeconds \<Rightarrow> OwnerPubkey list \<Rightarrow> GroupRecord \<Rightarrow>
   gstate \<Rightarrow> GroupPreparedSend res \<times> gstate" where
  "publish_metadata cr pc now recipients r st =
     then_do (on_sessions (fanout_payload cr pc now recipients (metadata_payload r)) st) (\<lambda>remote st.
     then_do (on_sessions (local_sibling_sync cr pc now r) st) (\<lambda>local st.
       (Inr \<lparr>ps_group_id = group_id r, ps_remote = remote, ps_local_sibling = local\<rparr>, st)))"

definition bootstrap_if_needed ::
  "'x invite_crypto_scheme \<Rightarrow> GroupPayloadCodec \<Rightarrow> UnixSeconds \<Rightarrow> GroupRecord \<Rightarrow> GroupPreparedSend \<Rightarrow>
   gstate \<Rightarrow> GroupPreparedSend res \<times> gstate" where
  "bootstrap_if_needed cr pc now r prepared st =
     (if is_sender_key_v1 (protocol r) then prepare_sender_key_bootstrap cr pc now r prepared st
      else (Inr prepared, st))"

definition sync_group_to_local_siblings ::
  "'x invite_crypto_scheme \<Rightarrow> GroupPayloadCodec \<Rightarrow> UnixSeconds \<Rightarrow> string \<Rightarrow> gstate \<Rightarrow> GroupPreparedPublish res \<times> gstate" where
  "sync_group_to_local_siblings cr pc now gid st =
     then_do (group_record (fst st) gid, st) (\<lambda>r. on_sessions (local_sibling_sync cr pc now r))"

definition create_group_with_protocol ::
  "'x invite_crypto_scheme \<Rightarrow> GroupPayloadCodec \<Rightarrow> UnixSeconds \<Rightarrow> string \<Rightarrow> OwnerPubkey list \<Rightarrow> GroupProtocol \<Rightarrow>
   gstate \<Rightarrow> GroupCreateResult res \<times> gstate" where
  "create_group_with_protocol cr pc now new_name initial_members p st =
     then_do (validate_unique_owners initial_members ''initial members'', st) (\<lambda>member_set st.
       let local = gm_local_owner_pubkey (fst st) in
       if bt_contains_key member_set local then (Inl (group_error ''local owner is added automatically''), st)
       else
     then_do (validate_supported_protocol p, st) (\<lambda>_ st.
     then_do (on_group (on_rng (random_group_id cr)) st) (\<lambda>gid st.
       let r = \<lparr>group_id = gid, protocol = p, group_name = new_name, picture = None, about = None,
                created_by = local, members = bs_insert local member_set,
                admins = bs_insert local bt_empty, revision = 1, group_created_at = now, updated_at = now\<rparr>
       in
     then_do (publish_metadata cr pc now (remote_members r local) r st) (\<lambda>prepared st.
     then_do (bootstrap_if_needed cr pc now r prepared st) (\<lambda>prepared (g, st).
       (Inr \<lparr>cr_group = group_record_snapshot r, cr_prepared = prepared\<rparr>, put_group r g, st))))))"

definition create_group ::
  "'x invite_crypto_scheme \<Rightarrow> GroupPayloadCodec \<Rightarrow> UnixSeconds \<Rightarrow> string \<Rightarrow> OwnerPubkey list \<Rightarrow>
   gstate \<Rightarrow> GroupCreateResult res \<times> gstate" where
  "create_group cr pc now new_name initial_members st =
     create_group_with_protocol cr pc now new_name initial_members pairwise_fanout_v1 st"

definition retry_create_group ::
  "'x invite_crypto_scheme \<Rightarrow> GroupPayloadCodec \<Rightarrow> UnixSeconds \<Rightarrow> string \<Rightarrow> OwnerPubkey list \<Rightarrow>
   gstate \<Rightarrow> GroupPreparedSend res \<times> gstate" where
  "retry_create_group cr pc now gid recipients st =
     then_do (group_record (fst st) gid, st) (\<lambda>r st.
       let local = gm_local_owner_pubkey (fst st) in
     then_do (ensure_admin cr r local, st) (\<lambda>_ st.
     then_do (validate_unique_owners recipients ''recipients'', st) (\<lambda>owners st.
       let targets = filter (\<lambda>ow. ow \<noteq> local) (bt_keys owners) in
     then_do (reject_first (\<lambda>ow. case ensure_member cr r ow of Inl e \<Rightarrow> Some e | Inr _ \<Rightarrow> None) targets, st) (\<lambda>_ st.
     then_do (publish_metadata cr pc now targets r st) (bootstrap_if_needed cr pc now r)))))"

definition gm_send_message ::
  "'x invite_crypto_scheme \<Rightarrow> GroupPayloadCodec \<Rightarrow> UnixSeconds \<Rightarrow> string \<Rightarrow> bytes \<Rightarrow>
   gstate \<Rightarrow> GroupPreparedSend res \<times> gstate" where
  "gm_send_message cr pc now gid body st =
     then_do (group_record (fst st) gid, st) (\<lambda>r st.
       let local = gm_local_owner_pubkey (fst st) in
     then_do (ensure_member cr r local, st) (\<lambda>_ st.
       if is_sender_key_v1 (protocol r) then send_sender_key_message cr pc now r body st
       else
         let command = GroupMessage (group_id r) (revision r) body in
     then_do (on_sessions (local_sibling_sync cr pc now r) st) (\<lambda>local_sibling st.
     then_do (on_sessions (local_sibling_payload cr pc now command) st) (\<lambda>sibling_message st.
     then_do (on_sessions (fanout_payload cr pc now (remote_members r local) command) st) (\<lambda>remote st.
       (Inr \<lparr>ps_group_id = group_id r, ps_remote = remote,
             ps_local_sibling = merge_group_prepared_publish local_sibling sibling_message\<rparr>, st))))))"

definition request_sender_key_repair ::
  "'x invite_crypto_scheme \<Rightarrow> GroupPayloadCodec \<Rightarrow> UnixSeconds \<Rightarrow> SenderKeyRepairRequest \<Rightarrow>
   gstate \<Rightarrow> GroupPreparedSend res \<times> gstate" where
  "request_sender_key_repair cr pc now q st =
     then_do (group_record (fst st) (req_group_id q), st) (\<lambda>r st.
       let local = gm_local_owner_pubkey (fst st); command = SenderKeyRepairRequestCommand q in
       if \<not> is_sender_key_v1 (protocol r) \<or> \<not> bt_contains_key (members r) local
       then (Inr (empty_group_prepared_send (req_group_id q)), st)
       else
     then_do (on_sessions (fanout_payload cr pc now (remote_members r local) command) st) (\<lambda>remote st.
     then_do (on_sessions (local_sibling_payload cr pc now command) st) (\<lambda>siblings st.
       (Inr \<lparr>ps_group_id = req_group_id q, ps_remote = remote, ps_local_sibling = siblings\<rparr>, st))))"

text \<open>What a repair request is answered with: distributions, and whether the metadata goes along.\<close>

definition repair_answer ::
  "GroupManager \<Rightarrow> OwnerPubkey \<Rightarrow> SenderKeyRepairRequest \<Rightarrow> SenderKeyDistribution list \<times> bool" where
  "repair_answer g requester q =
     (case bt_get (sender_event_index g) (req_sender_event_pubkey q) of
        None \<Rightarrow> ([], False)
      | Some i \<Rightarrow>
        if id_group i \<noteq> req_group_id q \<or> id_owner i \<noteq> gm_local_owner_pubkey g then ([], False)
        else case bt_get (sender_keys g) i of
          None \<Rightarrow> ([], False)
        | Some sr \<Rightarrow>
          if sender_event_secret_key sr = None then ([], False)
          else
            let ds = (case (req_key_id q, req_message_number q) of
                        (Some kid, Some n) \<Rightarrow>
                          (case repair_distribution_for sr requester kid n of None \<Rightarrow> [] | Some d \<Rightarrow> [d])
                      | _ \<Rightarrow> repair_distributions_for_requester sr requester)
            in (ds, req_required_revision q = None \<and> requester \<noteq> gm_local_owner_pubkey g
                  \<and> list_ex (requester_received_initial_repair_snapshot sr requester) ds))"

fun repair_all ::
  "'x invite_crypto_scheme \<Rightarrow> GroupPayloadCodec \<Rightarrow> UnixSeconds \<Rightarrow> OwnerPubkey \<Rightarrow> GroupPairwiseCommand list \<Rightarrow>
   GroupPreparedSend \<Rightarrow> gstate \<Rightarrow> GroupPreparedSend res \<times> gstate" where
  "repair_all cr pc now requester [] prepared st = (Inr prepared, st)"
| "repair_all cr pc now requester (c # cs) prepared st =
     then_do (repair_payload_to_owner cr pc now requester c st) (\<lambda>p st.
       repair_all cr pc now requester cs
         (prepared\<lparr>ps_remote := merge_group_prepared_publish (ps_remote prepared) (ps_remote p),
                   ps_local_sibling := merge_group_prepared_publish (ps_local_sibling prepared)
                     (ps_local_sibling p)\<rparr>) st)"

definition respond_to_sender_key_repair_request ::
  "'x invite_crypto_scheme \<Rightarrow> GroupPayloadCodec \<Rightarrow> UnixSeconds \<Rightarrow> OwnerPubkey \<Rightarrow> SenderKeyRepairRequest \<Rightarrow>
   gstate \<Rightarrow> GroupPreparedSend res \<times> gstate" where
  "respond_to_sender_key_repair_request cr pc now requester q st =
     (case bt_get (groups (fst st)) (req_group_id q) of
        None \<Rightarrow> (Inr (empty_group_prepared_send (req_group_id q)), st)
      | Some r \<Rightarrow>
        if \<not> is_sender_key_v1 (protocol r) \<or> \<not> bt_contains_key (members r) requester
        then (Inr (empty_group_prepared_send (req_group_id q)), st)
        else
          let include_required = is_some_and (req_required_revision q) (\<lambda>required. required \<le> revision r);
              (ds, include_context) = repair_answer (fst st) requester q
          in repair_all cr pc now requester
               (map SenderKeyDistributionCommand ds
                 @ (if include_required \<or> include_context then [metadata_payload r] else []))
               (empty_group_prepared_send (req_group_id q)) st)"

section \<open>Editing groups\<close>

type_synonym group_edit = "GroupRecord \<Rightarrow> OwnerPubkey \<Rightarrow> u64 \<Rightarrow> u64 \<Rightarrow> UnixSeconds \<Rightarrow> GroupRecord res"

text \<open>An edit is made at the next revision of the current record.\<close>

definition edit_record :: "group_edit \<Rightarrow> UnixSeconds \<Rightarrow> GroupManager \<Rightarrow> GroupRecord \<Rightarrow> GroupRecord res" where
  "edit_record apply_edit now g current =
     apply_edit current (gm_local_owner_pubkey g) (revision current) (revision current + 1) now"

definition update_metadata_with ::
  "'x invite_crypto_scheme \<Rightarrow> GroupPayloadCodec \<Rightarrow> UnixSeconds \<Rightarrow> string \<Rightarrow> group_edit \<Rightarrow>
   gstate \<Rightarrow> GroupPreparedSend res \<times> gstate" where
  "update_metadata_with cr pc now gid apply_edit st =
     then_do (group_record (fst st) gid, st) (\<lambda>current st.
     then_do (edit_record apply_edit now (fst st) current, st) (\<lambda>next_record st.
     then_do (publish_metadata cr pc now (remote_members next_record (gm_local_owner_pubkey (fst st))) next_record st)
       (\<lambda>prepared (g, st). (Inr prepared, put_group next_record g, st))))"

definition update_name ::
  "'x invite_crypto_scheme \<Rightarrow> GroupPayloadCodec \<Rightarrow> UnixSeconds \<Rightarrow> string \<Rightarrow> string \<Rightarrow>
   gstate \<Rightarrow> GroupPreparedSend res \<times> gstate" where
  "update_name cr pc now gid new_name st = update_metadata_with cr pc now gid (apply_rename cr new_name) st"

definition update_picture ::
  "'x invite_crypto_scheme \<Rightarrow> GroupPayloadCodec \<Rightarrow> UnixSeconds \<Rightarrow> string \<Rightarrow> string option \<Rightarrow>
   gstate \<Rightarrow> GroupPreparedSend res \<times> gstate" where
  "update_picture cr pc now gid p st = update_metadata_with cr pc now gid (apply_picture_change cr p) st"

definition update_about ::
  "'x invite_crypto_scheme \<Rightarrow> GroupPayloadCodec \<Rightarrow> UnixSeconds \<Rightarrow> string \<Rightarrow> string option \<Rightarrow>
   gstate \<Rightarrow> GroupPreparedSend res \<times> gstate" where
  "update_about cr pc now gid a st = update_metadata_with cr pc now gid (apply_about_change cr a) st"

definition retry_update_name ::
  "'x invite_crypto_scheme \<Rightarrow> GroupPayloadCodec \<Rightarrow> UnixSeconds \<Rightarrow> string \<Rightarrow> gstate \<Rightarrow> GroupPreparedSend res \<times> gstate" where
  "retry_update_name cr pc now gid st =
     then_do (group_record (fst st) gid, st) (\<lambda>current st.
     then_do (ensure_admin cr current (gm_local_owner_pubkey (fst st)), st) (\<lambda>_ st.
       publish_metadata cr pc now (remote_members current (gm_local_owner_pubkey (fst st))) current st))"

definition add_members ::
  "'x invite_crypto_scheme \<Rightarrow> GroupPayloadCodec \<Rightarrow> UnixSeconds \<Rightarrow> string \<Rightarrow> OwnerPubkey list \<Rightarrow>
   gstate \<Rightarrow> GroupPreparedSend res \<times> gstate" where
  "add_members cr pc now gid owners st =
     then_do (validate_unique_owners owners ''members'', st) (\<lambda>additions st.
     then_do (group_record (fst st) gid, st) (\<lambda>current st.
     then_do (edit_record (apply_add_members cr additions) now (fst st) current, st) (\<lambda>next_record st.
     then_do (publish_metadata cr pc now (remote_members next_record (gm_local_owner_pubkey (fst st))) next_record st)
       (\<lambda>prepared st.
     then_do (bootstrap_if_needed cr pc now next_record prepared st) (\<lambda>prepared (g, st).
       (Inr prepared, put_group next_record g, st))))))"

definition retry_add_members ::
  "'x invite_crypto_scheme \<Rightarrow> GroupPayloadCodec \<Rightarrow> UnixSeconds \<Rightarrow> string \<Rightarrow> OwnerPubkey list \<Rightarrow>
   gstate \<Rightarrow> GroupPreparedSend res \<times> gstate" where
  "retry_add_members cr pc now gid owners st =
     then_do (validate_unique_owners owners ''members'', st) (\<lambda>additions st.
     then_do (group_record (fst st) gid, st) (\<lambda>current st.
     then_do (ensure_admin cr current (gm_local_owner_pubkey (fst st)), st) (\<lambda>_ st.
     then_do (reject_first (\<lambda>ow. case ensure_member cr current ow of Inl e \<Rightarrow> Some e | Inr _ \<Rightarrow> None)
                (bt_keys additions), st) (\<lambda>_ st.
     then_do (publish_metadata cr pc now (remote_members current (gm_local_owner_pubkey (fst st))) current st)
       (bootstrap_if_needed cr pc now current)))))"

definition remove_members ::
  "'x invite_crypto_scheme \<Rightarrow> GroupPayloadCodec \<Rightarrow> UnixSeconds \<Rightarrow> string \<Rightarrow> OwnerPubkey list \<Rightarrow>
   gstate \<Rightarrow> GroupPreparedSend res \<times> gstate" where
  "remove_members cr pc now gid owners st =
     then_do (validate_unique_owners owners ''members'', st) (\<lambda>removals st.
     then_do (group_record (fst st) gid, st) (\<lambda>current st.
     then_do (edit_record (apply_remove_members cr removals) now (fst st) current, st) (\<lambda>next_record st.
     then_do (publish_metadata cr pc now (remote_members current (gm_local_owner_pubkey (fst st))) next_record st)
       (\<lambda>prepared st.
     then_do (if is_sender_key_v1 (protocol next_record)
              then prepare_sender_key_rotation cr pc now next_record prepared st
              else (Inr prepared, st)) (\<lambda>prepared (g, st).
       (Inr prepared, put_group next_record g, st))))))"

definition retry_remove_members ::
  "'x invite_crypto_scheme \<Rightarrow> GroupPayloadCodec \<Rightarrow> UnixSeconds \<Rightarrow> string \<Rightarrow> OwnerPubkey list \<Rightarrow>
   gstate \<Rightarrow> GroupPreparedSend res \<times> gstate" where
  "retry_remove_members cr pc now gid owners st =
     then_do (validate_unique_owners owners ''members'', st) (\<lambda>removals st.
     then_do (group_record (fst st) gid, st) (\<lambda>current st.
       let local = gm_local_owner_pubkey (fst st) in
     then_do (ensure_admin cr current local, st) (\<lambda>_ st.
     then_do (reject_first (\<lambda>ow. if bt_contains_key (members current) ow
                then Some (group_error (owner_text cr ow @ '' should already be removed before retrying removal''))
                else None) (bt_keys removals), st) (\<lambda>_ st.
       let recipients = bs_extend (bs_of_list (remote_members current local))
                          (filter (\<lambda>ow. ow \<noteq> local) (bt_keys removals)) in
     then_do (publish_metadata cr pc now (bt_keys recipients) current st)
       (bootstrap_if_needed cr pc now current)))))"

text \<open>Changes of administrators publish like any other edit.\<close>

definition add_admins ::
  "'x invite_crypto_scheme \<Rightarrow> GroupPayloadCodec \<Rightarrow> UnixSeconds \<Rightarrow> string \<Rightarrow> OwnerPubkey list \<Rightarrow>
   gstate \<Rightarrow> GroupPreparedSend res \<times> gstate" where
  "add_admins cr pc now gid owners st =
     then_do (validate_unique_owners owners ''admins'', st) (\<lambda>additions.
       update_metadata_with cr pc now gid (apply_add_admins cr additions))"

definition remove_admins ::
  "'x invite_crypto_scheme \<Rightarrow> GroupPayloadCodec \<Rightarrow> UnixSeconds \<Rightarrow> string \<Rightarrow> OwnerPubkey list \<Rightarrow>
   gstate \<Rightarrow> GroupPreparedSend res \<times> gstate" where
  "remove_admins cr pc now gid owners st =
     then_do (validate_unique_owners owners ''admins'', st) (\<lambda>removals.
       update_metadata_with cr pc now gid (apply_remove_admins cr removals))"

end
