(* ===== verification/Step_Preorder.thy ===== *)
theory Step_Preorder
  imports Session_Manager_Runs "HOL-Library.Sublist"
begin

text \<open>
  Relations between the state before and after an operation. The locale \<open>step_preorder\<close> is the contract
  of a reflexive and transitive relation on states; it gives the rules by which an operation composed
  with \<open>then_do\<close>, conditionals and calls inherits the relation from its parts. It is interpreted on the
  preservation of an invariant, on the quiet changes of a session manager, and on the order in which the
  random source is consumed, for which the sending operations are followed down to the invite that is
  accepted.
\<close>

section \<open>The contract\<close>

locale step_preorder =
  fixes rel :: "'s \<Rightarrow> 's \<Rightarrow> bool"
  assumes rel_refl: "rel s s"
    and rel_trans: "rel s t \<Longrightarrow> rel t u \<Longrightarrow> rel s u"
begin

lemma step_return: "rel s (snd (r, s))"
  by (simp add: rel_refl)

lemma step_then_do:
  assumes "rel s (snd m)" "\<And>x t. m = (Inr x, t) \<Longrightarrow> rel t (snd (f x t))"
  shows "rel s (snd (then_do m f))"
  using assms by (cases "(m, f)" rule: then_do.cases) (auto intro: rel_trans)

lemma step_check:
  assumes "\<And>x. r = Inr x \<Longrightarrow> rel s (snd (f x s))"
  shows "rel s (snd (then_do (r, s) f))"
  by (rule step_then_do) (auto simp: rel_refl assms)

lemma step_if:
  assumes "b \<Longrightarrow> rel s (snd x)" "\<not> b \<Longrightarrow> rel s (snd y)"
  shows "rel s (snd (if b then x else y))"
  using assms by simp

lemma step_option:
  assumes "v = None \<Longrightarrow> rel s (snd x)" "\<And>a. v = Some a \<Longrightarrow> rel s (snd (y a))"
  shows "rel s (snd (case v of None \<Rightarrow> x | Some a \<Rightarrow> y a))"
  using assms by (cases v) auto

text \<open>A loop that runs one step per element.\<close>

lemma step_fold:
  assumes "\<And>x t. rel t (f x t)"
  shows "rel s (fold f xs s)"
  using assms by (induction xs arbitrary: s) (auto simp: rel_refl intro: rel_trans)

end

interpretation keeps: step_preorder "\<lambda>s t. P s \<longrightarrow> P t" for P
  by unfold_locales auto

interpretation quietly: step_preorder "\<lambda>s t. quiet (p s) (p t)" for p :: "'s \<Rightarrow> SessionManager"
  by unfold_locales (auto intro: quiet_trans)

interpretation consumes: step_preorder "\<lambda>s t. suffix (p t) (p s)" for p :: "'s \<Rightarrow> 'b list"
  by unfold_locales (auto intro: suffix_order.trans)

section \<open>The random source\<close>

lemma random_secret_key_bytes_rng: "suffix (snd (random_secret_key_bytes cr rng)) rng"
  by (induction rng) (auto intro: suffix_ConsI)

lemma draw_block_rng: "suffix (snd (draw_block rng)) rng"
  by (auto simp: draw_block_def suffix_ConsI split: list.splits)

lemmas rng_step = consumes.step_then_do [where p = "\<lambda>s. s"] consumes.step_return [where p = "\<lambda>s. s"]

lemma next_u64_rng: "suffix (snd (next_u64 rng)) rng"
  unfolding next_u64_def by (intro rng_step draw_block_rng)

lemma new_initiator_rng: "suffix (snd (new_initiator cr rng their ours secret)) rng"
proof -
  obtain k rng' where "random_secret_key_bytes cr rng = (k, rng')" by fastforce
  moreover from this have "suffix rng' rng" by (metis random_secret_key_bytes_rng snd_conv)
  ultimately show ?thesis
    by (auto simp: new_initiator_def init_with_context_def init_initiator_def split: sum.splits)
qed

lemma accept_rng: "suffix (snd (accept_with_owner_context cr draw now rng iv k secret owner)) rng"
  unfolding accept_with_owner_context_def accept_with_owner_context_and_device_def Let_def
  by (intro consumes.step_if [where p = "\<lambda>s. s"] rng_step random_secret_key_bytes_rng draw_block_rng
      new_initiator_rng next_u64_rng)

section \<open>Sending consumes a prefix of the random source\<close>

abbreviation rng_left :: "'a \<times> ctx \<Rightarrow> bytes list" where "rng_left st \<equiv> fst (snd st)"

lemmas ctx_step =
  consumes.step_then_do [where p = rng_left] consumes.step_return [where p = rng_left]
  consumes.step_if [where p = rng_left] consumes.step_option [where p = rng_left]

lemma accept_public_invite_rng: "suffix (fst (snd (accept_public_invite cr m now iv ctx))) (fst ctx)"
  using accept_rng [of cr "snd ctx" now "fst ctx" iv] by (simp add: accept_public_invite_def case_prod_beta)

lemma plan_send_ctx_rng: "suffix (rng_left (snd (plan_send_ctx cr s payload now st))) (rng_left st)"
  by (simp add: plan_send_ctx_def case_prod_beta)

lemma start_session_rng: "suffix (rng_left (snd (start_session cr now ow k payload x st))) (rng_left st)"
  unfolding start_session_def case_prod_beta
  by (intro ctx_step plan_send_ctx_rng) (simp add: case_prod_beta)

lemma deliver_over_invite_rng:
  "suffix (rng_left (snd (deliver_over_invite cr m now ow k payload (r, ctx)))) (fst ctx)"
proof (cases "public_invite r")
  case (Some iv)
  obtain out rng draw where a: "accept_public_invite cr m now iv ctx = (out, rng, draw)" by (metis prod_cases3)
  then have "suffix rng (fst ctx)" using accept_public_invite_rng [of cr m now iv ctx] by simp
  then show ?thesis
    using Some a start_session_rng [of cr now ow k payload _ "(r, rng, draw)"]
    by (auto simp: deliver_over_invite_def split: sum.splits intro: suffix_order.trans)
qed (simp add: deliver_over_invite_def)

lemma deliver_over_session_rng:
  "suffix (rng_left (snd (deliver_over_session cr now ow k payload src st))) (rng_left st)"
  unfolding deliver_over_session_def case_prod_beta Let_def
  by (intro ctx_step plan_send_ctx_rng) (simp add: case_prod_beta)

lemma record_delivery_rng:
  "suffix (rng_left (snd (record_delivery cr m now ow k payload refresh st))) (rng_left st)"
proof -
  have "suffix (rng_left (snd (deliver_over_invite cr m now ow k payload st))) (rng_left st)" for st
    using deliver_over_invite_rng [of cr m now ow k payload "fst st" "snd st"] by simp
  then show ?thesis
    unfolding record_delivery_def case_prod_beta Let_def
    by (intro ctx_step deliver_over_session_rng) (auto intro!: ctx_step deliver_over_session_rng)
qed

lemma with_record_rng:
  assumes "\<And>st. suffix (rng_left (snd (f st))) (rng_left st)"
  shows "suffix (rng_left (snd (with_record now ow k f st))) (rng_left st)"
  using assms [of "(device_record_mut (user_record_mut (fst st) ow) k now, snd st)"]
  by (simp add: with_record_def Let_def case_prod_beta)

lemma deliver_inactive_rng:
  "suffix (rng_left (snd (deliver_inactive cr now ow k payload ss st))) (rng_left st)"
proof (induction ss arbitrary: st)
  case (Cons s ss)
  have "suffix (rng_left (snd (deliver_inactive cr now ow k payload ss (r, ctx)))) (fst ctx)" for r ctx
    using Cons [of "(r, ctx)"] by simp
  then show ?case
    using Cons by (auto simp: case_prod_beta intro!: ctx_step plan_send_ctx_rng)
qed simp

lemma deliver_active_rng:
  "suffix (rng_left (snd (deliver_active cr now ow k payload st))) (rng_left st)"
  unfolding deliver_active_def case_prod_beta
  by (intro ctx_step plan_send_ctx_rng) (simp add: case_prod_beta)

lemma record_deliveries_all_rng:
  "suffix (rng_left (snd (record_deliveries_all cr now ow k payload st))) (rng_left st)"
proof -
  have "suffix (rng_left (snd (deliver_inactive cr now ow k payload ss (r, ctx)))) (fst ctx)" for ss r ctx
    using deliver_inactive_rng [of cr now ow k payload ss "(r, ctx)"] by simp
  then show ?thesis
    unfolding record_deliveries_all_def case_prod_beta
    by (intro ctx_step deliver_active_rng) (auto intro!: ctx_step)
qed

lemma prepare_device_delivery_rng:
  "suffix (rng_left (snd (prepare_device_delivery cr now ow k payload refresh st))) (rng_left st)"
  unfolding prepare_device_delivery_def by (intro with_record_rng record_delivery_rng)

lemma prepare_all_deliveries_rng:
  "suffix (rng_left (snd (prepare_device_deliveries_for_all_send_sessions cr now ow k payload st))) (rng_left st)"
  unfolding prepare_device_deliveries_for_all_send_sessions_def
  by (intro with_record_rng record_deliveries_all_rng)

lemma send_targets_rng:
  "suffix (rng_left (snd (send_targets cr now payload refresh ts st))) (rng_left st)"
proof (induction ts arbitrary: st)
  case (Cons t ts)
  then show ?case
    by (cases t) (auto simp: case_prod_beta intro!: ctx_step prepare_device_delivery_rng)
qed simp

lemma send_targets_all_rng:
  "suffix (rng_left (snd (send_targets_all cr now payload ts st))) (rng_left st)"
proof (induction ts arbitrary: st)
  case (Cons t ts)
  then show ?case
    by (cases t) (auto simp: case_prod_beta intro!: ctx_step prepare_device_delivery_rng prepare_all_deliveries_rng)
qed simp

lemma prepare_remote_send_rng:
  "suffix (rng_left (snd (prepare_remote_send cr now ow payload st))) (rng_left st)"
  unfolding prepare_remote_send_def prepare_send_inner_def prepare_explicit_send_def case_prod_beta Let_def
  by (intro ctx_step send_targets_rng)

lemma prepare_local_sibling_send_rng:
  "suffix (rng_left (snd (prepare_local_sibling_send_reusing_all_sessions cr now payload st))) (rng_left st)"
  unfolding prepare_local_sibling_send_reusing_all_sessions_def case_prod_beta
  by (intro ctx_step send_targets_all_rng)

text \<open>The same two ways of sending change the session manager quietly.\<close>

lemma prepare_remote_send_quietly: "quiet (fst st) (fst (snd (prepare_remote_send cr now ow payload st)))"
proof -
  obtain m ctx out m' ctx' where "st = (m, ctx)" "prepare_remote_send cr now ow payload (m, ctx) = (out, m', ctx')"
    by (metis prod_cases3 surj_pair)
  then show ?thesis
    by (auto simp: prepare_remote_send_def prepare_send_inner_def Let_def case_prod_beta
        dest: prepare_explicit_send_quiet)
qed

lemma prepare_local_sibling_send_quietly:
  "quiet (fst st) (fst (snd (prepare_local_sibling_send_reusing_all_sessions cr now payload st)))"
proof -
  obtain m ctx out m' ctx' where st: "st = (m, ctx)"
    and s: "send_targets_all cr now payload (bt_keys (collect_local_sibling_targets m bt_empty)) (m, ctx) = (out, m', ctx')"
    by (metis prod_cases3 surj_pair)
  show ?thesis
    unfolding prepare_local_sibling_send_reusing_all_sessions_def st case_prod_beta
    by (intro quietly.step_then_do [where p = fst] quietly.step_return [where p = fst])
       (use send_targets_all_quiet [OF s] s in simp)
qed

end
