(* ===== verification/Secondary_Index.thy ===== *)
theory Secondary_Index
  imports BTree_Map
begin

text \<open>
  A second index over a map of records: the group manager keeps its sender-key records under their
  identity and finds them by the key that signs their stream. The index is exact when it leads from a
  signing key to the one record that has it.
\<close>

definition indexes ::
  "('r \<Rightarrow> 'a) \<Rightarrow> ('a::linorder, 'i::linorder) btmap \<Rightarrow> ('i, 'r) btmap \<Rightarrow> bool" where
  "indexes key idx recs \<longleftrightarrow>
     (\<forall>a i. bt_get idx a = Some i \<longleftrightarrow> (\<exists>r. bt_get recs i = Some r \<and> key r = a))"

text \<open>Exact for every signing key but one, which no record but one may have.\<close>

definition indexes_but ::
  "'a \<Rightarrow> 'i \<Rightarrow> ('r \<Rightarrow> 'a) \<Rightarrow> ('a::linorder, 'i::linorder) btmap \<Rightarrow> ('i, 'r) btmap \<Rightarrow> bool" where
  "indexes_but a0 i0 key idx recs \<longleftrightarrow>
     (\<forall>a i. a \<noteq> a0 \<longrightarrow> bt_get idx a = Some i \<longleftrightarrow> (\<exists>r. bt_get recs i = Some r \<and> key r = a))
     \<and> (\<forall>i r. bt_get recs i = Some r \<longrightarrow> key r = a0 \<longrightarrow> i = i0)"

lemma indexes_iff:
  "indexes key idx recs \<Longrightarrow> bt_get idx a = Some i \<longleftrightarrow> (\<exists>r. bt_get recs i = Some r \<and> key r = a)"
  by (simp add: indexes_def)

lemma indexes_empty: "indexes key bt_empty bt_empty"
  by (simp add: indexes_def)

lemma indexes_unique:
  assumes "indexes key idx recs" "bt_get recs i = Some r" "bt_get recs j = Some s" "key r = key s"
  shows "i = j"
  using assms unfolding indexes_def by (metis option.inject)

lemma indexes_update:
  assumes "indexes key idx recs" "bt_get recs i = Some r" "key r' = key r"
  shows "indexes key idx (bt_insert i r' recs)"
  using assms unfolding indexes_def by (auto split: if_splits)

lemma indexes_but_free:
  assumes "indexes key idx recs" "bt_get idx a \<in> {None, Some i}"
  shows "indexes_but a i key idx recs"
proof -
  have "j = i" if "bt_get recs j = Some r" "key r = a" for j r
    using indexes_iff [OF assms(1), of a j] that assms(2) by auto
  then show ?thesis using indexes_iff [OF assms(1)] by (simp add: indexes_but_def)
qed

lemma indexes_but_removed:
  assumes ex: "indexes key idx recs" and j: "bt_get idx a = Some j"
  shows "indexes_but a i key idx (bt_remove j recs)"
proof -
  obtain s where s: "bt_get recs j = Some s" "key s = a" using indexes_iff [OF ex] j by blast
  have "k = j" if "bt_get recs k = Some r" "key r = a" for k r
    using indexes_unique [OF ex that(1) s(1)] that(2) s(2) by simp
  moreover have "bt_get idx b = Some k \<longleftrightarrow> (\<exists>r. bt_get (bt_remove j recs) k = Some r \<and> key r = b)"
    if "b \<noteq> a" for b k
    using indexes_iff [OF ex, of b k] s that by (cases "k = j") auto
  ultimately show ?thesis unfolding indexes_but_def by (metis bt_get_remove option.distinct(1))
qed

lemma indexes_put:
  assumes "indexes_but a i key idx recs" "bt_get recs i = None" "key r = a"
  shows "indexes key (bt_insert a i idx) (bt_insert i r recs)"
proof -
  have "bt_get (bt_insert a i idx) b = Some j \<longleftrightarrow>
      (\<exists>s. bt_get (bt_insert i r recs) j = Some s \<and> key s = b)" for b j
    using assms unfolding indexes_but_def by (cases "b = a"; cases "j = i") auto
  then show ?thesis by (simp add: indexes_def)
qed

text \<open>A record takes another signing key.\<close>

lemma indexes_move:
  assumes but: "indexes_but a i key idx recs" and r: "bt_get recs i = Some r" and r': "key r' = a"
  shows "indexes key (bt_insert a i (if key r \<noteq> a then bt_remove (key r) idx else idx)) (bt_insert i r' recs)"
proof -
  have other: "bt_get idx b = Some j \<longleftrightarrow> (\<exists>r. bt_get recs j = Some r \<and> key r = b)" if "b \<noteq> a" for b j
    using but that by (simp add: indexes_but_def)
  have own: "j = i" if "bt_get recs j = Some s" "key s = a" for j s
    using but that by (simp add: indexes_but_def)
  have old: "j = i" if "bt_get recs j = Some s" "key s = key r" for j s
    using other [of "key r" j] other [of "key r" i] own that r by (cases "key r = a") auto
  have "bt_get (bt_insert a i (if key r \<noteq> a then bt_remove (key r) idx else idx)) b = Some j \<longleftrightarrow>
      (\<exists>s. bt_get (bt_insert i r' recs) j = Some s \<and> key s = b)" for b j
  proof (cases "b = a")
    case True
    then show ?thesis using own [of j] r' by (cases "j = i") auto
  next
    case False
    then have "bt_get idx b = Some j \<longleftrightarrow> (\<exists>s. bt_get recs j = Some s \<and> key s = b)" by (rule other)
    moreover have "\<not> (\<exists>s. bt_get recs j = Some s \<and> key s = b)" if "j \<noteq> i" "b = key r"
      using old that by blast
    ultimately show ?thesis using False r r' by (cases "j = i"; cases "b = key r") simp_all
  qed
  then show ?thesis by (simp add: indexes_def)
qed

end
