(* ===== verification/Group_Invariants.thy ===== *)
theory Group_Invariants
  imports Group_Search Group_Traffic Step_Preorder Secondary_Index
begin

text \<open>
  The invariant of a group manager: every group has administrators, who are members, and a supported
  protocol; every sender-key record is stored under its own identity with its states under their key ids,
  each within the bounds of a sender key, and its latest key among them; and the index of streams is exact, it leads from a signing key to the
  one record that has it. The locale \<open>group_edit_op\<close> is the contract that the seven edits of a group
  record share.
\<close>

declare split_paired_All [simp del] split_paired_Ex [simp del]

section \<open>Sets of owners\<close>

lemma contains_iff: "bt_contains_key m k \<longleftrightarrow> bt_get m k \<noteq> None"
  by (simp add: bt_contains_key_def)

lemma contains_simps [simp]:
  "\<not> bt_contains_key bt_empty k"
  "bt_contains_key (bt_insert k' v m) k \<longleftrightarrow> k = k' \<or> bt_contains_key m k"
  "bt_contains_key (bt_remove k' m) k \<longleftrightarrow> k \<noteq> k' \<and> bt_contains_key m k"
  by (auto simp: contains_iff)

lemma contains_keys: "bt_contains_key m k \<longleftrightarrow> k \<in> set (bt_keys m)"
  by (simp add: contains_iff set_bt_keys)

lemma keys_contains: "set (bt_keys m) = {k. bt_contains_key m k}"
  by (auto simp: contains_keys)

lemma contains_extend [simp]: "bt_contains_key (bs_extend s ks) k \<longleftrightarrow> k \<in> set ks \<or> bt_contains_key s k"
  unfolding bs_extend_def by (induction ks arbitrary: s) auto

lemma contains_fold_remove [simp]:
  "bt_contains_key (fold bt_remove ks m) k \<longleftrightarrow> k \<notin> set ks \<and> bt_contains_key m k"
  by (simp add: contains_iff fold_bt_remove)

lemma contains_of_list [simp]: "bt_contains_key (bs_of_list ks) k \<longleftrightarrow> k \<in> set ks"
  by (auto simp: contains_iff bt_get_of_list map_of_eq_None_iff image_iff)

lemma is_empty_contains: "bt_is_empty m \<longleftrightarrow> (\<forall>k. \<not> bt_contains_key m k)"
  by (simp add: contains_iff bt_is_empty_get)

lemma bs_subset_iff: "bs_subset a b \<longleftrightarrow> (\<forall>k. bt_contains_key a k \<longrightarrow> bt_contains_key b k)"
  by (auto simp: bs_subset_def list_all_iff contains_keys)

lemma reject_first_ok: "reject_first bad xs = Inr u \<longleftrightarrow> (\<forall>x \<in> set xs. bad x = None)"
  by (induction xs) (auto split: option.splits)

section \<open>The invariant\<close>

definition group_ok :: "string \<Rightarrow> GroupRecord \<Rightarrow> bool" where
  "group_ok gid r \<longleftrightarrow> group_id r = gid
     \<and> (is_pairwise_fanout_v1 (protocol r) \<or> is_sender_key_v1 (protocol r))
     \<and> (\<exists>ow. bt_contains_key (admins r) ow)
     \<and> (\<forall>ow. bt_contains_key (admins r) ow \<longrightarrow> bt_contains_key (members r) ow)"

definition sender_ok :: "SenderKeyRecordId \<Rightarrow> SenderKeyRecord \<Rightarrow> bool" where
  "sender_ok i r \<longleftrightarrow> sender_key_record_id r = i
     \<and> states_ok (states r)
     \<and> (\<forall>k. latest_key_id r = Some k \<longrightarrow> bt_contains_key (states r) k)
     \<and> (\<forall>k d. bt_get (distribution_history r) k = Some d \<longrightarrow> dist_key_id d = k)"

abbreviation index_exact :: "GroupManager \<Rightarrow> bool" where
  "index_exact g \<equiv> indexes sender_event_pubkey (sender_event_index g) (sender_keys g)"

definition group_inv :: "GroupManager \<Rightarrow> bool" where
  "group_inv g \<longleftrightarrow> (\<forall>gid r. bt_get (groups g) gid = Some r \<longrightarrow> group_ok gid r)
     \<and> (\<forall>i r. bt_get (sender_keys g) i = Some r \<longrightarrow> sender_ok i r) \<and> index_exact g"

lemma group_invD:
  assumes "group_inv g"
  shows "bt_get (groups g) gid = Some r \<Longrightarrow> group_ok gid r"
    and "bt_get (sender_keys g) i = Some sr \<Longrightarrow> sender_ok i sr"
    and "index_exact g"
  using assms by (auto simp: group_inv_def)

lemma group_inv_new: "group_inv (group_manager_new ow)"
  by (simp add: group_inv_def group_manager_new_def indexes_empty)

lemma inv_put_group: "group_inv g \<Longrightarrow> group_ok (group_id r) r \<Longrightarrow> group_inv (put_group r g)"
  by (auto simp: group_inv_def put_group_def)

text \<open>A record may change as long as it keeps its stream.\<close>

lemma inv_put_sender_key:
  assumes "group_inv g" "bt_get (sender_keys g) i = Some r" "sender_ok i r'"
    and "sender_event_pubkey r' = sender_event_pubkey r"
  shows "group_inv (put_sender_key i r' g)"
  using assms indexes_update [OF group_invD(3) [OF assms(1)] assms(2,4)]
  by (auto simp: group_inv_def put_sender_key_def)

section \<open>Edits\<close>

text \<open>What every edit of a group record promises.\<close>

locale group_edit_op =
  fixes apply_edit :: group_edit
  assumes edit_by_admin: "apply_edit r actor base next now = Inr r' \<Longrightarrow> bt_contains_key (admins r) actor"
    and edit_revision: "apply_edit r actor base next now = Inr r' \<Longrightarrow>
      base = revision r \<and> next = base + 1 \<and> revision r' = next \<and> updated_at r' = now"
    and edit_identity: "apply_edit r actor base next now = Inr r' \<Longrightarrow>
      group_id r' = group_id r \<and> protocol r' = protocol r \<and> created_by r' = created_by r
      \<and> group_created_at r' = group_created_at r"
    and edit_keeps: "apply_edit r actor base next now = Inr r' \<Longrightarrow> group_ok gid r \<Longrightarrow> group_ok gid r'"
begin

lemma edit_record_spec:
  assumes "edit_record apply_edit now g r = Inr r'"
  shows "bt_contains_key (admins r) (gm_local_owner_pubkey g)" "revision r' = revision r + 1"
    "group_id r' = group_id r" "protocol r' = protocol r" "group_ok gid r \<Longrightarrow> group_ok gid r'"
  using edit_by_admin [OF assms [unfolded edit_record_def]] edit_revision [OF assms [unfolded edit_record_def]]
    edit_identity [OF assms [unfolded edit_record_def]] edit_keeps [OF assms [unfolded edit_record_def]]
  by simp_all

end

lemma ensure_editable_ok:
  "ensure_editable cr r actor base new = Inr u \<longleftrightarrow>
     bt_contains_key (admins r) actor \<and> base = revision r \<and> new = base + 1"
  by (auto simp: ensure_editable_def ensure_admin_def ensure_revision_def result_simps)

lemma stamp_simps [simp]:
  "group_id (stamp n now r) = group_id r" "protocol (stamp n now r) = protocol r"
  "created_by (stamp n now r) = created_by r" "members (stamp n now r) = members r"
  "admins (stamp n now r) = admins r" "revision (stamp n now r) = n" "updated_at (stamp n now r) = now"
  "group_created_at (stamp n now r) = group_created_at r"
  by (simp_all add: stamp_def)

lemma validate_group_invariants_ok:
  "validate_group_invariants ms ads = Inr u \<longleftrightarrow>
     (\<exists>ow. bt_contains_key ads ow) \<and> (\<forall>ow. bt_contains_key ads ow \<longrightarrow> bt_contains_key ms ow)"
  by (auto simp: validate_group_invariants_def is_empty_contains bs_subset_iff)

interpretation rename: group_edit_op "apply_rename cr new_name" for cr new_name
  by unfold_locales (auto simp: apply_rename_def result_simps ensure_editable_ok group_ok_def)

interpretation picture_change: group_edit_op "apply_picture_change cr p" for cr p
  by unfold_locales (auto simp: apply_picture_change_def result_simps ensure_editable_ok group_ok_def)

interpretation about_change: group_edit_op "apply_about_change cr a" for cr a
  by unfold_locales (auto simp: apply_about_change_def result_simps ensure_editable_ok group_ok_def)

interpretation members_added: group_edit_op "apply_add_members cr additions" for cr additions
  by unfold_locales (auto simp: apply_add_members_def result_simps ensure_editable_ok group_ok_def split: if_splits)

interpretation members_removed: group_edit_op "apply_remove_members cr removals" for cr removals
  by unfold_locales (auto simp: apply_remove_members_def result_simps ensure_editable_ok group_ok_def Let_def
      validate_group_invariants_ok split: if_splits)

interpretation admins_added: group_edit_op "apply_add_admins cr additions" for cr additions
  by unfold_locales (auto simp: apply_add_admins_def result_simps ensure_editable_ok group_ok_def
      reject_first_ok keys_contains split: if_splits)

interpretation admins_removed: group_edit_op "apply_remove_admins cr removals" for cr removals
  by unfold_locales (auto simp: apply_remove_admins_def result_simps ensure_editable_ok group_ok_def Let_def
      validate_group_invariants_ok split: if_splits)

end
