(* ===== verification/Group_Steps.thy ===== *)
theory Group_Steps
  imports Group_Invariants
begin

text \<open>
  Every operation of the group manager keeps its invariant. The operations that draw from the random
  source do so when the draws are fresh: no block of the source is the secret of a stream that is
  already indexed, and no two of them give the same stream.
\<close>

section \<open>Sender-key records\<close>

lemma sender_ok_new: "sender_ok (gid, ow, k) (sender_key_record_new gid ow k author secret)"
  by (simp add: sender_ok_def sender_key_record_new_def sender_key_record_id_def)

lemma sender_ok_rotate:
  "sender_ok i r \<Longrightarrow> rotate_sender_key now gid (r, rng) = (out, r', rng') \<Longrightarrow>
     sender_ok i r' \<and> sender_event_pubkey r' = sender_event_pubkey r"
  unfolding rotate_sender_key_def
  by (auto simp: on_rng_def sender_ok_def sender_key_record_id_def
      split: prod.splits if_splits elim!: then_do_cases)

lemma current_distribution_key:
  "current_distribution now gid r nd = Inr d \<Longrightarrow>
     \<exists>kid s. latest_key_id r = Some kid \<and> bt_get (states r) kid = Some s
       \<and> (nd = None \<longrightarrow> d = \<lparr>dist_group_id = gid, dist_key_id = kid, dist_sender_event_pubkey = sender_event_pubkey r,
            dist_chain_key = chain_key s, dist_iteration = iteration s, dist_created_at = now\<rparr>)
       \<and> (\<forall>x. nd = Some x \<longrightarrow> d = x)"
  by (auto simp: current_distribution_def result_simps split: option.splits)

lemma sender_ok_history:
  "sender_ok i r \<Longrightarrow> sender_ok i (r\<lparr>distribution_history := bt_insert (dist_key_id d) d (distribution_history r)\<rparr>)"
  by (auto simp: sender_ok_def sender_key_record_id_def)

lemma refresh_local_record_ok:
  assumes "sender_ok i r" "refresh_local_record now gid force created (r, rng) = (out, r', rng')"
  shows "sender_ok i r' \<and> sender_event_pubkey r' = sender_event_pubkey r"
  using assms unfolding refresh_local_record_def
  by (auto simp: Let_def split: if_splits elim!: then_do_cases dest!: sender_ok_rotate [rotated] intro: sender_ok_history)

lemma sender_ok_learn:
  "sender_ok i r \<Longrightarrow> sender_ok i (r\<lparr>sender_event_pubkey := author, latest_key_id := Some (dist_key_id d),
     distribution_history := or_insert (dist_key_id d) d (distribution_history r),
     states := or_insert (dist_key_id d) (sender_key_new (dist_key_id d) ck n) (states r)\<rparr>)"
  by (auto simp: sender_ok_def sender_key_record_id_def or_insert_def)

lemma sender_ok_bookkeeping:
  "sender_ok i (r\<lparr>distributed_to := a\<rparr>) = sender_ok i r" "sender_ok i (r\<lparr>repair_snapshots := b\<rparr>) = sender_ok i r"
  by (simp_all add: sender_ok_def sender_key_record_id_def)

lemma sender_ok_state:
  "sender_ok i r \<Longrightarrow> key_id s = k \<Longrightarrow> sender_key_inv s \<Longrightarrow> sender_ok i (r\<lparr>states := bt_insert k s (states r)\<rparr>)"
  by (auto simp: sender_ok_def sender_key_record_id_def intro: states_ok_insert)

section \<open>Without the random source\<close>

lemma group_invI:
  assumes "group_inv g0" "groups g = groups g0" "\<And>i r. bt_get (sender_keys g) i = Some r \<Longrightarrow> sender_ok i r"
    and "index_exact g"
  shows "group_inv g"
  using assms by (simp add: group_inv_def)

lemma learn_sender_key_inv:
  assumes inv: "group_inv g0" and gr: "groups g = groups g0"
    and ok: "\<And>j r. bt_get (sender_keys g) j = Some r \<Longrightarrow> sender_ok j r"
    and but: "indexes_but (dist_sender_event_pubkey d) i sender_event_pubkey (sender_event_index g) (sender_keys g)"
  shows "group_inv (learn_sender_key i d g)"
proof (cases "bt_get (sender_keys g) i")
  case None
  obtain gid ow k where i: "i = (gid, ow, k)" by (cases i)
  have "sender_ok i (sender_key_record_new gid ow k (dist_sender_event_pubkey d) None)"
    unfolding i by (rule sender_ok_new)
  from sender_ok_learn [OF this] indexes_put [OF but None]
  show ?thesis
    by (intro group_invI [OF inv])
       (auto simp: learn_sender_key_def Let_def None [unfolded i] i put_sender_key_def sender_key_record_new_def
          ok gr split: if_splits)
next
  case (Some r)
  from sender_ok_learn [OF ok [OF Some]] indexes_move [OF but Some]
  show ?thesis
    by (intro group_invI [OF inv])
       (auto simp: learn_sender_key_def Some put_sender_key_def Let_def ok gr split: if_splits)
qed

lemma observe_distribution_inv:
  assumes inv: "group_inv g" and obs: "observe_sender_key_distribution cr ow k d g = (out, g')"
  shows "group_inv g'"
proof -
  let ?i = "(dist_group_id d, ow, k)" and ?a = "dist_sender_event_pubkey d"
  note ex = group_invD(3) [OF inv] and ok = group_invD(2) [OF inv]
  have "group_inv (learn_sender_key ?i d g)" if "displaced g ?i d = None"
    using that indexes_but_free [OF ex, of ?a ?i]
    by (intro learn_sender_key_inv [OF inv _ ok]) (auto simp: displaced_def split: option.splits if_splits)
  moreover have "group_inv (learn_sender_key ?i d (g\<lparr>sender_keys := bt_remove j (sender_keys g)\<rparr>))"
    if "displaced g ?i d = Some j" for j
    using that indexes_but_removed [OF ex, of ?a j ?i]
    by (intro learn_sender_key_inv [OF inv]) (auto simp: displaced_def ok split: option.splits if_splits)
  ultimately show ?thesis
    using obs inv unfolding observe_sender_key_distribution_def
    by (auto simp: Let_def elim!: then_do_cases split: option.splits if_splits)
qed

lemma validate_unique_ok: "validate_unique_owners vals label = Inr s \<Longrightarrow> s = bs_of_list vals"
  by (auto simp: validate_unique_owners_def Let_def split: if_splits)

lemma group_record_from_snapshot_ok:
  "group_record_from_snapshot s = Inr r \<Longrightarrow> group_ok (group_id r) r"
  by (auto simp: group_record_from_snapshot_def result_simps group_ok_def validate_group_invariants_ok
      validate_supported_protocol_def split: if_splits)

lemma group_record_from_metadata_ok:
  "group_record_from_metadata_snapshot s = Inr r \<Longrightarrow> group_ok (group_id r) r \<and> revision r \<noteq> 0"
  by (auto simp: group_record_from_metadata_snapshot_def result_simps dest: group_record_from_snapshot_ok split: if_splits)

lemma handle_metadata_inv:
  assumes "group_inv g" "handle_metadata cr ow s g = (out, g')"
  shows "group_inv g'"
  using assms unfolding handle_metadata_def
  by (auto simp: Let_def elim!: then_do_cases split: option.splits if_splits
      dest!: group_record_from_metadata_ok intro: inv_put_group)

lemma handle_distribution_inv:
  assumes "group_inv g" "handle_distribution cr ow k d g = (out, g')"
  shows "group_inv g'"
  using assms unfolding handle_distribution_def
  by (auto elim!: then_do_cases split: option.splits dest: observe_distribution_inv)

lemma handle_payload_inv:
  assumes "group_inv g" "handle_pairwise_payload_inner cr pc ow k payload g = (out, g')"
  shows "group_inv g'"
  using assms unfolding handle_pairwise_payload_inner_def handle_command_def
  by (auto elim!: then_do_cases split: option.splits GroupPairwiseCommand.splits
      dest: handle_metadata_inv handle_distribution_inv)

lemma group_inv_states: "group_inv g \<Longrightarrow> all_states_ok g"
  by (auto simp: all_states_ok_def group_inv_def sender_ok_def)

text \<open>A plan that passes its checks moves one state forward by one decryption.\<close>

lemma apply_plan_cases:
  assumes "apply_sender_key_receive_plan plan g = (out, g')"
  shows "g' = g \<or> (\<exists>m r. plan_mutation plan = Some m \<and> bt_get (sender_keys g) (mut_identity m) = Some r
    \<and> sender_event_secret_key r = None
    \<and> bt_get (states r) (key_id (mut_expected m)) = Some (mut_expected m)
    \<and> g' = put_sender_key (mut_identity m) (r\<lparr>states := bt_insert (key_id (mut_next m)) (mut_next m) (states r)\<rparr>) g)"
  using assms unfolding apply_sender_key_receive_plan_def
  by (auto simp: Let_def split: option.splits if_splits)

lemma apply_plan_inv:
  assumes inv: "group_inv g" and plan: "plan_ok cr plan" and app: "apply_sender_key_receive_plan plan g = (out, g')"
  shows "group_inv g'"
  using apply_plan_cases [OF app]
proof (elim disjE exE conjE)
  fix m r
  assume m: "plan_mutation plan = Some m" "bt_get (sender_keys g) (mut_identity m) = Some r"
    "bt_get (states r) (key_id (mut_expected m)) = Some (mut_expected m)"
    and g': "g' = put_sender_key (mut_identity m) (r\<lparr>states := bt_insert (key_id (mut_next m)) (mut_next m) (states r)\<rparr>) g"
  have ok: "sender_ok (mut_identity m) r" using inv m(2) by (rule group_invD)
  then have "sender_key_inv (mut_expected m)" using m(3) by (auto simp: sender_ok_def dest: states_okD)
  then have "sender_key_inv (mut_next m)" using plan m(1) by (auto simp: plan_ok_def dest: decrypt_in_place_inv)
  with ok show ?thesis unfolding g' by (intro inv_put_sender_key [OF inv m(2)] sender_ok_state) simp_all
qed (use inv in simp)

lemma handle_sender_key_message_inv:
  assumes inv: "group_inv g" and c: "cursor_ok cr c"
    and h: "handle_sender_key_message_with_budget cr pc message (g, c, n) = (out, g', c', n')"
  shows "group_inv g' \<and> cursor_ok cr c'"
proof -
  obtain r st where p: "plan_sender_key_message_with_budget cr pc g message (c, n) = (r, st)" by (metis surj_pair)
  note sound = plan_message_sound [OF group_inv_states [OF inv] c, of pc message n r "fst st" "snd st"]
  show ?thesis
    using h p sound inv unfolding handle_sender_key_message_with_budget_def
    by (auto split: prod.splits sum.splits option.splits dest: apply_plan_inv)
qed

text \<open>Bookkeeping of the own record.\<close>

lemma mark_inv: "group_inv g \<Longrightarrow> group_inv (mark_sender_key_distribution_recipients gid k kid ows g)"
  by (auto simp: mark_sender_key_distribution_recipients_def Let_def split: option.splits
      intro!: inv_put_sender_key dest: group_invD(2) simp: sender_ok_bookkeeping)

lemma record_repair_inv: "group_inv g \<Longrightarrow> group_inv (record_sender_key_repair_snapshot gid k d ows g)"
  by (auto simp: record_sender_key_repair_snapshot_def Let_def split: option.splits
      intro!: inv_put_sender_key dest: group_invD(2) simp: sender_ok_bookkeeping)

section \<open>Fresh draws\<close>

definition draws_fresh :: "'x crypto_scheme \<Rightarrow> GroupManager \<Rightarrow> bytes list \<Rightarrow> bool" where
  "draws_fresh cr g rng \<longleftrightarrow>
     (\<forall>b \<in> set rng. sk_from_slice cr b \<longrightarrow> bt_get (sender_event_index g) (DevicePubkey (pk_of_sk cr b)) = None)
     \<and> distinct (map (pk_of_sk cr) (filter (sk_from_slice cr) rng))"

definition ginv :: "'x crypto_scheme \<Rightarrow> gstate \<Rightarrow> bool" where
  "ginv cr st \<longleftrightarrow> group_inv (fst st) \<and> draws_fresh cr (fst st) (fst (snd (snd st)))"

lemma draws_fresh_suffix: "draws_fresh cr g rng \<Longrightarrow> suffix rng' rng \<Longrightarrow> draws_fresh cr g rng'"
  unfolding suffix_def draws_fresh_def by auto

lemma draws_fresh_index: "draws_fresh cr g rng \<Longrightarrow> sender_event_index g' = sender_event_index g \<Longrightarrow> draws_fresh cr g' rng"
  by (simp add: draws_fresh_def)

lemma ginvI:
  assumes "ginv cr (g, m, rng, draw)" "group_inv g'" "sender_event_index g' = sender_event_index g" "suffix rng' rng"
  shows "ginv cr (g', m', rng', draw')"
  using assms by (auto simp: ginv_def intro: draws_fresh_index [OF draws_fresh_suffix])

text \<open>A secret key that is drawn, and what is left of the source.\<close>

lemma random_secret_key_fresh:
  assumes "random_secret_key_bytes cr rng = (Inr secret, rng')" "draws_fresh cr g rng"
  shows "bt_get (sender_event_index g) (DevicePubkey (pk_of_sk cr secret)) = None"
    and "draws_fresh cr (index_sender (DevicePubkey (pk_of_sk cr secret)) i g) rng'"
proof -
  have "bt_get (sender_event_index g) (DevicePubkey (pk_of_sk cr secret)) = None
      \<and> draws_fresh cr (index_sender (DevicePubkey (pk_of_sk cr secret)) i g) rng'"
    using assms
  proof (induction rng)
    case (Cons b rng)
    show ?case
    proof (cases "sk_from_slice cr b")
      case True
      then show ?thesis using Cons.prems by (auto simp: draws_fresh_def index_sender_def) (metis (mono_tags, lifting) image_eqI mem_Collect_eq)
    next
      case False
      then show ?thesis using Cons by (simp add: draws_fresh_def)
    qed
  qed simp
  then show "bt_get (sender_event_index g) (DevicePubkey (pk_of_sk cr secret)) = None"
    and "draws_fresh cr (index_sender (DevicePubkey (pk_of_sk cr secret)) i g) rng'" by auto
qed

lemma random_key_id_rng: "suffix (snd (random_key_id rng)) rng"
  by (induction rng) (auto intro: suffix_ConsI)

lemma rotate_sender_key_rng: "suffix (snd (snd (rotate_sender_key now gid st))) (snd st)"
proof -
  have lift: "suffix (snd (snd (on_rng f st))) (snd st)" if "\<And>rng. suffix (snd (f rng)) rng" for f :: "bytes list \<Rightarrow> 'c res \<times> bytes list" and st :: "SenderKeyRecord \<times> bytes list"
    using that [of "snd st"] by (simp add: on_rng_def case_prod_beta)
  show ?thesis
    unfolding rotate_sender_key_def case_prod_beta
    by (intro consumes.step_then_do [where p = snd] lift random_key_id_rng draw_block_rng) simp
qed

lemma refresh_local_record_rng:
  "suffix (snd (snd (refresh_local_record now gid force created st))) (snd st)"
  unfolding refresh_local_record_def case_prod_beta Let_def
  by (intro consumes.step_then_do [where p = snd] consumes.step_if [where p = snd] rotate_sender_key_rng) simp_all

lemma open_local_record_inv:
  assumes "group_inv g" "draws_fresh cr g rng" "open_local_record cr gid k (g, rng) = (out, g', rng')"
  shows "group_inv g'" "draws_fresh cr g' rng'" "groups g' = groups g"
    "gm_local_owner_pubkey g' = gm_local_owner_pubkey g"
proof -
  let ?i = "local_id g gid k"
  have "group_inv g' \<and> draws_fresh cr g' rng' \<and> groups g' = groups g
      \<and> gm_local_owner_pubkey g' = gm_local_owner_pubkey g"
  proof (cases "bt_get (sender_keys g) ?i")
    case None
    obtain r rng1 where d: "random_secret_key_bytes cr rng = (r, rng1)" by fastforce
    show ?thesis
    proof (cases r)
      case (Inl e)
      then show ?thesis
        using assms None d random_secret_key_bytes_rng [of cr rng]
        by (auto simp: open_local_record_def on_rng_def contains_iff intro: draws_fresh_suffix)
    next
      case (Inr secret)
      let ?a = "DevicePubkey (pk_of_sk cr secret)"
      let ?r = "sender_key_record_new gid (gm_local_owner_pubkey g) k ?a (Some secret)"
      have "sk_from_slice cr secret" using random_secret_key_bytes_valid d Inr by blast
      then have g': "g' = put_sender_key ?i ?r (index_sender ?a ?i g)" "rng' = rng1"
        using assms(3) None d Inr
        by (auto simp: open_local_record_def on_rng_def contains_iff Let_def sender_key_record_id_def
            sender_key_record_new_def)
      note fresh = random_secret_key_fresh [OF d [unfolded Inr] assms(2)]
      have "indexes sender_event_pubkey (bt_insert ?a ?i (sender_event_index g)) (bt_insert ?i ?r (sender_keys g))"
        using fresh(1) None
        by (intro indexes_put indexes_but_free group_invD(3) [OF assms(1)]) (simp_all add: sender_key_record_new_def)
      then have "group_inv g'"
        using sender_ok_new [of gid "gm_local_owner_pubkey g" k ?a "Some secret"]
        by (intro group_invI [OF assms(1)])
           (auto simp: g' put_sender_key_def index_sender_def group_invD(2) [OF assms(1)] split: if_splits)
      then show ?thesis
        using fresh(2) [of ?i] by (simp add: g' put_sender_key_def index_sender_def draws_fresh_def)
    qed
  qed (use assms in \<open>simp add: open_local_record_def contains_iff\<close>)
  then show "group_inv g'" "draws_fresh cr g' rng'" "groups g' = groups g"
    "gm_local_owner_pubkey g' = gm_local_owner_pubkey g" by auto
qed

lemma ensure_local_inv:
  assumes "group_inv g" "draws_fresh cr g rng"
    and "ensure_local_sender_key_record cr now r k force (g, rng) = (out, g', rng')"
  shows "group_inv g' \<and> draws_fresh cr g' rng'"
proof -
  obtain o1 g1 rng1 where o: "open_local_record cr (group_id r) k (g, rng) = (o1, g1, rng1)" by (metis prod_cases3)
  note op = open_local_record_inv [OF assms(1,2) this]
  let ?i = "local_id g1 (group_id r) k"
  show ?thesis
  proof (cases o1)
    case (Inr created)
    show ?thesis
    proof (cases "bt_get (sender_keys g1) ?i")
      case (Some sr)
      obtain o2 sr2 rng2 where f: "refresh_local_record now (group_id r) force created (sr, rng1) = (o2, sr2, rng2)"
        by (metis prod_cases3)
      then have "g' = put_sender_key ?i sr2 g1" "rng' = rng2"
        using assms(3) o Inr Some by (auto simp: ensure_local_sender_key_record_def)
      moreover have "suffix rng2 rng1"
        using refresh_local_record_rng [of now "group_id r" force created "(sr, rng1)"] f by simp
      moreover note refresh_local_record_ok [OF group_invD(2) [OF op(1) Some] f]
      ultimately show ?thesis
        using inv_put_sender_key [OF op(1) Some] op(2)
        by (auto simp: put_sender_key_def intro: draws_fresh_index [OF draws_fresh_suffix])
    qed (use assms(3) o op Inr in \<open>simp add: ensure_local_sender_key_record_def\<close>)
  qed (use assms(3) o op in \<open>simp add: ensure_local_sender_key_record_def\<close>)
qed

section \<open>Operations on the whole state\<close>

lemma local_sibling_payload_bytes_rng:
  "suffix (rng_left (snd (local_sibling_payload_bytes cr now payload st))) (rng_left st)"
  unfolding local_sibling_payload_bytes_def by (intro ctx_step prepare_local_sibling_send_rng)

lemma local_sibling_payload_rng:
  "suffix (rng_left (snd (local_sibling_payload cr pc now command st))) (rng_left st)"
  unfolding local_sibling_payload_def by (intro ctx_step local_sibling_payload_bytes_rng)

lemma local_sibling_sync_payload: "local_sibling_sync cr pc now r = local_sibling_payload cr pc now (metadata_payload r)"
  by (rule ext) (simp add: local_sibling_sync_def local_sibling_payload_def)

lemma local_sibling_sync_rng: "suffix (rng_left (snd (local_sibling_sync cr pc now r st))) (rng_left st)"
  by (simp add: local_sibling_sync_payload local_sibling_payload_rng)

lemma fanout_each_rng: "suffix (rng_left (snd (fanout_each cr now payload ows st))) (rng_left st)"
  by (induction ows arbitrary: st) (auto intro!: ctx_step prepare_remote_send_rng)

lemma fanout_payload_rng: "suffix (rng_left (snd (fanout_payload cr pc now ows command st))) (rng_left st)"
  unfolding fanout_payload_def by (intro ctx_step fanout_each_rng)

lemma on_sessions_group: "fst (snd (on_sessions f st)) = fst st"
  by (simp add: on_sessions_def case_prod_beta)

lemma on_sessions_ginv:
  assumes "\<And>st. suffix (rng_left (snd (f st))) (rng_left st)"
  shows "ginv cr st \<longrightarrow> ginv cr (snd (on_sessions f st))"
proof -
  obtain g m rng draw where st: "st = (g, m, rng, draw)" by (metis prod_cases4)
  obtain r m' rng' draw' where f: "f (m, rng, draw) = (r, m', rng', draw')" by (metis prod_cases4)
  have "suffix rng' rng" using assms [of "(m, rng, draw)"] f by simp
  then show ?thesis by (auto simp: on_sessions_def st f ginv_def intro: draws_fresh_suffix)
qed

lemma on_group_ensure_ginv:
  "ginv cr st \<longrightarrow> ginv cr (snd (on_group (ensure_local_sender_key_record cr now r k force) st))"
proof -
  obtain g m rng draw where st: "st = (g, m, rng, draw)" by (metis prod_cases4)
  obtain out g' rng' where e: "ensure_local_sender_key_record cr now r k force (g, rng) = (out, g', rng')"
    by (metis prod_cases3)
  show ?thesis using ensure_local_inv [OF _ _ e] by (simp add: on_group_def st e ginv_def)
qed

lemma on_group_rng_ginv:
  assumes "\<And>rng. suffix (snd (f rng)) rng"
  shows "ginv cr st \<longrightarrow> ginv cr (snd (on_group (on_rng f) st))"
proof -
  obtain g m rng draw where st: "st = (g, m, rng, draw)" by (metis prod_cases4)
  have "suffix (snd (f rng)) rng" by (rule assms)
  then show ?thesis by (auto simp: on_group_def on_rng_def st ginv_def case_prod_beta intro: draws_fresh_suffix)
qed

lemma on_group_keeps:
  "ginv cr (g, st) \<Longrightarrow> group_inv g' \<Longrightarrow> sender_event_index g' = sender_event_index g \<Longrightarrow> ginv cr (g', st)"
  by (auto simp: ginv_def intro: draws_fresh_index)

lemma bookkeeping_index [simp]:
  "sender_event_index (mark_sender_key_distribution_recipients gid k kid ows g) = sender_event_index g"
  "sender_event_index (record_sender_key_repair_snapshot gid k d ows g) = sender_event_index g"
  "sender_event_index (put_group r g) = sender_event_index g"
  "sender_event_index (put_sender_key i sr g) = sender_event_index g"
  by (simp_all add: mark_sender_key_distribution_recipients_def record_sender_key_repair_snapshot_def
      put_sender_key_def put_group_def Let_def split: option.splits)

lemma keep_then_do:
  assumes "ginv cr s \<longrightarrow> ginv cr (snd m)" "\<And>x t. ginv cr t \<longrightarrow> ginv cr (snd (f x t))"
  shows "ginv cr s \<longrightarrow> ginv cr (snd (then_do m f))"
  using assms by (rule keeps.step_then_do)

lemma keep_check: "(\<And>x. r = Inr x \<Longrightarrow> ginv cr s \<longrightarrow> ginv cr (snd (f x s))) \<Longrightarrow> ginv cr s \<longrightarrow> ginv cr (snd (then_do (r, s) f))"
  by (rule keeps.step_check)

lemma keep_let: "(\<And>v. v = e \<Longrightarrow> ginv cr s \<longrightarrow> ginv cr (snd (f v))) \<Longrightarrow> ginv cr s \<longrightarrow> ginv cr (snd (let v = e in f v))"
  by simp

lemmas keep_steps = keeps.step_return [where P = "ginv cr" for cr] keeps.step_if [where P = "ginv cr" for cr]
  on_sessions_ginv on_group_ensure_ginv local_sibling_payload_rng local_sibling_sync_rng fanout_payload_rng

lemma fanout_sender_key_distribution_ginv:
  "ginv cr st \<longrightarrow> ginv cr (snd (fanout_sender_key_distribution cr' pc now ows d st))"
  unfolding fanout_sender_key_distribution_def
  by (intro keep_then_do keep_steps)
     (auto intro!: on_group_keeps mark_inv record_repair_inv simp: case_prod_beta ginv_def draws_fresh_def)

lemma local_sibling_distribution_ginv:
  "ginv cr st \<longrightarrow> ginv cr (snd (local_sibling_sender_key_distribution cr' pc now d st))"
  unfolding local_sibling_sender_key_distribution_def
  by (intro keep_then_do keep_steps)
     (auto intro!: on_group_keeps record_repair_inv simp: case_prod_beta ginv_def draws_fresh_def)

lemma distribute_sender_key_ginv:
  "ginv cr st \<longrightarrow> ginv cr (snd (distribute_sender_key cr pc now force r prepared st))"
  unfolding distribute_sender_key_def case_prod_beta
  by (intro keep_then_do keep_steps fanout_sender_key_distribution_ginv local_sibling_distribution_ginv)

lemma encrypt_under_sender_key_ginv:
  "ginv cr st \<longrightarrow> ginv cr (snd (encrypt_under_sender_key cr' pc now r body st))"
proof -
  obtain g m rng draw where st: "st = (g, m, rng, draw)" by (metis prod_cases4)
  let ?i = "local_id g (group_id r) (local_device_pubkey m)"
  have put: "ginv cr (put_sender_key ?i (sr\<lparr>states := bt_insert kid (fst (apply_encrypt s plan)) (states sr)\<rparr>) g,
      m, rng, n)"
    if "group_inv g" "draws_fresh cr g rng" "bt_get (sender_keys g) ?i = Some sr"
      "bt_get (states sr) kid = Some s" "plan_encrypt cr' draw s p = Inr plan" for sr kid s p plan n
  proof -
    have ok: "sender_ok ?i sr" using that(1,3) by (rule group_invD)
    then have "key_id s = kid" "sender_key_inv s" using that(4) by (auto simp: sender_ok_def dest: states_okD)
    then have "key_id (fst (apply_encrypt s plan)) = kid" "sender_key_inv (fst (apply_encrypt s plan))"
      using that(5) plan_encrypt_inv [OF that(5)] by (auto simp: plan_encrypt_eq_Inr apply_encrypt_def)
    then show ?thesis
      using that(1-3) ok
      by (auto simp: ginv_def intro!: inv_put_sender_key sender_ok_state elim: draws_fresh_index)
  qed
  show ?thesis
    by (auto simp: st encrypt_under_sender_key_def Let_def result_simps split: sum.splits
        intro: put simp: ginv_def [of cr "(g, m, rng, _)"])
qed

lemma send_sender_key_message_ginv:
  "ginv cr st \<longrightarrow> ginv cr (snd (send_sender_key_message cr pc now r body st))"
  unfolding send_sender_key_message_def case_prod_beta
  by (intro keep_then_do keep_let keep_steps fanout_sender_key_distribution_ginv local_sibling_distribution_ginv
      encrypt_under_sender_key_ginv)

lemma publish_metadata_ginv: "ginv cr st \<longrightarrow> ginv cr (snd (publish_metadata cr' pc now ows r st))"
  unfolding publish_metadata_def by (intro keep_then_do keep_steps)

lemma bootstrap_ginv: "ginv cr st \<longrightarrow> ginv cr (snd (bootstrap_if_needed cr pc now r prepared st))"
  unfolding bootstrap_if_needed_def prepare_sender_key_bootstrap_def
  by (intro keep_steps distribute_sender_key_ginv)

lemma repair_all_ginv: "ginv cr st \<longrightarrow> ginv cr (snd (repair_all cr' pc now ow cs prepared st))"
proof (induction cs arbitrary: prepared st)
  case (Cons c cs)
  have "ginv cr st \<longrightarrow> ginv cr (snd (repair_payload_to_owner cr' pc now ow c st))"
    unfolding repair_payload_to_owner_def by (intro keep_then_do keep_steps)
  with Cons show ?case unfolding repair_all.simps by (intro keep_then_do) simp_all
qed simp

lemma put_group_ginv:
  assumes "group_ok (group_id r) r"
  shows "ginv cr (g, st) \<longrightarrow> ginv cr (put_group r g, st)"
  using assms by (auto simp: ginv_def intro: inv_put_group elim: draws_fresh_index)

text \<open>Storing a record at the end of an operation.\<close>

lemma keep_store:
  assumes "ginv cr s \<longrightarrow> ginv cr (snd m)" "group_ok (group_id r) r"
  shows "ginv cr s \<longrightarrow> ginv cr (snd (then_do m (\<lambda>x (g, st). (Inr (f x), put_group r g, st))))"
  using assms(1) by (rule keep_then_do) (simp add: case_prod_beta put_group_ginv [OF assms(2), rule_format])

text \<open>The steps before an edit is published only read the state.\<close>

lemma edit_ginv:
  assumes edit: "group_edit_op apply_edit"
    and publish: "\<And>r r'. ginv cr st \<Longrightarrow> bt_get (groups (fst st)) gid = Some r \<Longrightarrow> group_ok (group_id r') r' \<Longrightarrow>
      ginv cr (snd (k r r' st))"
  shows "ginv cr st \<longrightarrow> ginv cr (snd (then_do (group_record (fst st) gid, st) (\<lambda>current st.
    then_do (edit_record apply_edit now (fst st) current, st) (k current))))"
proof (cases "bt_get (groups (fst st)) gid")
  case (Some r)
  show ?thesis
  proof
    assume st: "ginv cr st"
    then have "group_ok gid r" using Some by (auto simp: ginv_def dest: group_invD)
    then have "group_ok (group_id r') r'" if "edit_record apply_edit now (fst st) r = Inr r'" for r'
      using group_edit_op.edit_record_spec(5) [OF edit that] by (auto simp: group_ok_def)
    then show "ginv cr (snd (then_do (group_record (fst st) gid, st) (\<lambda>current st.
        then_do (edit_record apply_edit now (fst st) current, st) (k current))))"
      using publish [OF st Some] st
      by (cases "edit_record apply_edit now (fst st) r") (auto simp: group_record_def Some)
  qed
qed (simp add: group_record_def)

end
