(* ===== verification/Group_Restore.thy ===== *)
theory Group_Restore
  imports Group_Steps
begin

text \<open>
  Snapshots of a group manager: what was stored is what is restored, for the groups, for the sender-key
  records and for the index of streams, which is not stored but rebuilt.
\<close>

section \<open>Maps rebuilt from their values\<close>

lemma bt_len_of_list_keys [simp]: "bt_len (bs_of_list (bt_keys s)) = bt_len s"
proof -
  have "{k. bt_get (bs_of_list (bt_keys s)) k \<noteq> None} = {k. bt_get s k \<noteq> None}"
    using contains_of_list [of "bt_keys s"] by (simp add: contains_iff set_bt_keys)
  then show ?thesis by (simp add: bt_len_card)
qed

lemma bs_of_list_keys [simp]: "bs_of_list (bt_keys (s :: 'k::linorder btset)) = s"
proof (rule bt_ext)
  fix k
  have "bt_contains_key (bs_of_list (bt_keys s)) k = bt_contains_key s k" by (simp add: keys_contains)
  then show "bt_get (bs_of_list (bt_keys s)) k = bt_get s k"
    by (cases "bt_get (bs_of_list (bt_keys s)) k"; cases "bt_get s k") (simp_all add: contains_iff)
qed

lemma bt_of_list_values:
  assumes "\<And>k v. bt_get m k = Some v \<Longrightarrow> key v = k"
  shows "bt_of_list (map (\<lambda>v. (key v, v)) (bt_values m)) = m"
proof -
  have "map (\<lambda>v. (key v, v)) (bt_values m) = bt_entries m"
    using assms unfolding bt_values_def map_map by (intro map_idI) (auto simp: bt_get_entries)
  then show ?thesis by (simp add: bt_of_list_entries)
qed

text \<open>Entries with keys the map does not have yet are added one by one.\<close>

definition add_entries :: "('k::linorder \<times> 'v) list \<Rightarrow> ('k, 'v) btmap \<Rightarrow> ('k, 'v) btmap" where
  "add_entries xs m = fold (\<lambda>(k, v). bt_insert k v) xs m"

lemma add_entries_simps [simp]:
  "add_entries [] m = m" "add_entries ((k, v) # xs) m = add_entries xs (bt_insert k v m)"
  by (simp_all add: add_entries_def)

lemma add_entries_all: "add_entries (bt_entries m) bt_empty = m"
  using bt_of_list_entries [of m] by (simp add: add_entries_def bt_of_list_def)

lemma bt_get_add_entries:
  "bt_get (add_entries xs m) k = (case map_of (rev xs) k of Some v \<Rightarrow> Some v | None \<Rightarrow> bt_get m k)"
  by (induction xs arbitrary: m) (auto simp: map_add_def split: option.splits)

definition new_keys :: "('k::linorder \<times> 'v) list \<Rightarrow> ('k, 'v) btmap \<Rightarrow> bool" where
  "new_keys xs m \<longleftrightarrow> distinct (map fst xs) \<and> (\<forall>k \<in> fst ` set xs. \<not> bt_contains_key m k)"

lemma new_keys_Cons: "new_keys ((k, v) # xs) m \<longleftrightarrow> \<not> bt_contains_key m k \<and> new_keys xs (bt_insert k v m)"
  by (auto simp: new_keys_def)

lemma new_keys_entries: "new_keys (bt_entries m) bt_empty"
  using distinct_bt_keys [of m] by (simp add: new_keys_def bt_keys_def)

section \<open>Records\<close>

lemma group_record_restore:
  assumes "group_ok gid r"
  shows "group_record_from_snapshot (group_record_snapshot r) = Inr r"
proof -
  have "validate_unique_owners (bt_keys s) label = Inr s" for s label
    by (simp add: validate_unique_owners_def Let_def)
  moreover have "validate_group_invariants (members r) (admins r) = Inr ()"
    using assms validate_group_invariants_ok [of "members r" "admins r" "()"] by (simp add: group_ok_def)
  moreover have "validate_supported_protocol (protocol r) = Inr ()"
    using assms by (auto simp: validate_supported_protocol_def group_ok_def)
  ultimately show ?thesis by (simp add: group_record_from_snapshot_def group_record_snapshot_def)
qed

lemma collect_states_entries:
  assumes "new_keys xs m" "\<forall>(k, s) \<in> set xs. key_id s = k"
  shows "collect_states (map snd xs) m = Inr (add_entries xs m)"
  using assms
proof (induction xs arbitrary: m)
  case (Cons e xs)
  then show ?case by (cases e) (auto simp: new_keys_Cons)
qed simp

lemma sender_key_record_restore:
  assumes "sender_ok i r"
  shows "sender_key_record_from_snapshot (sender_key_record_snapshot r) = Inr r"
proof -
  have "collect_states (bt_values (states r)) bt_empty = Inr (states r)"
    unfolding bt_values_def
    using collect_states_entries [OF new_keys_entries, of "states r"] assms
    by (auto simp: add_entries_all sender_ok_def states_ok_def bt_get_entries)
  moreover have "bt_of_list (map (\<lambda>d. (dist_key_id d, d)) (bt_values (distribution_history r))) = distribution_history r"
    using assms by (intro bt_of_list_values) (simp add: sender_ok_def)
  moreover have "bt_of_list (map (\<lambda>(k, owners). (k, bs_of_list (bt_keys owners))) (bt_entries (distributed_to r)))
      = distributed_to r"
    by (simp add: bt_of_list_entries)
  moreover have "\<not> is_some_and (latest_key_id r) (\<lambda>k. \<not> bt_contains_key (states r) k)"
    using assms by (cases "latest_key_id r") (auto simp: sender_ok_def)
  ultimately show ?thesis
    by (simp add: sender_key_record_from_snapshot_def sender_key_record_snapshot_def comp_def case_prod_beta)
qed

section \<open>The manager\<close>

lemma restore_groups_entries:
  assumes "new_keys xs m" "\<forall>(gid, r) \<in> set xs. group_ok gid r"
  shows "restore_groups (map (\<lambda>e. group_record_snapshot (snd e)) xs) m = Inr (add_entries xs m)"
  using assms
proof (induction xs arbitrary: m)
  case (Cons e xs)
  obtain gid r where e: "e = (gid, r)" by (cases e)
  then have ok: "group_ok gid r" using Cons.prems by simp
  then have "group_id r = gid" by (simp add: group_ok_def)
  then show ?case
    using Cons ok group_record_restore [OF ok] by (simp add: e new_keys_Cons)
qed simp

text \<open>The streams of entries are theirs alone, and not yet in the index.\<close>

definition new_streams :: "(SenderKeyRecordId \<times> SenderKeyRecord) list \<Rightarrow> GroupManager \<Rightarrow> bool" where
  "new_streams xs g \<longleftrightarrow> new_keys (map (\<lambda>(i, r). (sender_event_pubkey r, i)) xs) (sender_event_index g)"

lemma restore_sender_keys_entries:
  assumes "new_keys xs (sender_keys g)" "new_streams xs g" "\<forall>(i, r) \<in> set xs. sender_ok i r"
  shows "restore_sender_keys local (map (\<lambda>e. sender_key_record_snapshot (snd e)) xs) g =
    Inr (g\<lparr>sender_keys := add_entries xs (sender_keys g),
           sender_event_index := add_entries (map (\<lambda>(i, r). (sender_event_pubkey r, i)) xs) (sender_event_index g)\<rparr>)"
  using assms
proof (induction xs arbitrary: g)
  case (Cons e xs)
  obtain i r where e: "e = (i, r)" by (cases e)
  then have ok: "sender_ok i r" using Cons.prems by simp
  then have i: "sender_key_record_id r = i" by (simp add: sender_ok_def)
  let ?g = "put_sender_key i r (index_sender (sender_event_pubkey r) i g)"
  have "restore_sender_key local r g = Inr ?g"
    using Cons.prems
    by (simp add: restore_sender_key_def i e new_keys_Cons new_streams_def contains_iff Let_def)
  moreover have "new_keys xs (sender_keys ?g)" "new_streams xs ?g"
    using Cons.prems by (simp_all add: e new_keys_Cons new_streams_def put_sender_key_def index_sender_def)
  ultimately show ?case
    using Cons.IH [of ?g] Cons.prems(3) sender_key_record_restore [OF ok]
    by (simp add: e put_sender_key_def index_sender_def)
qed simp

lemma index_rebuilt:
  assumes "index_exact g"
  shows "add_entries (map (\<lambda>(i, r). (sender_event_pubkey r, i)) (bt_entries (sender_keys g))) bt_empty = sender_event_index g"
    and "new_streams (bt_entries (sender_keys g)) (group_manager_new ow\<lparr>groups := gs\<rparr>)"
proof -
  let ?xs = "map (\<lambda>(i, r). (sender_event_pubkey r, i)) (bt_entries (sender_keys g))"
  have "inj_on (\<lambda>e. sender_event_pubkey (snd e)) (set (bt_entries (sender_keys g)))"
  proof (rule inj_onI)
    fix e f
    assume "e \<in> set (bt_entries (sender_keys g))" "f \<in> set (bt_entries (sender_keys g))"
      "sender_event_pubkey (snd e) = sender_event_pubkey (snd f)"
    moreover from this have "bt_get (sender_keys g) (fst e) = Some (snd e)" "bt_get (sender_keys g) (fst f) = Some (snd f)"
      by (simp_all add: bt_get_entries)
    ultimately show "e = f"
      using indexes_unique [OF assms, of "fst e" "snd e" "fst f" "snd f"] by (metis option.inject prod.expand)
  qed
  moreover have "distinct (bt_entries (sender_keys g))"
    using distinct_bt_keys [of "sender_keys g"] by (simp add: bt_keys_def distinct_map)
  ultimately have dist: "distinct (map fst ?xs)"
    by (simp add: distinct_map comp_def case_prod_beta)
  then show "new_streams (bt_entries (sender_keys g)) (group_manager_new ow\<lparr>groups := gs\<rparr>)"
    by (simp add: new_streams_def new_keys_def group_manager_new_def)
  show "add_entries ?xs bt_empty = sender_event_index g"
  proof (rule bt_ext)
    fix a
    have "distinct (map fst (rev ?xs))" using dist by (simp add: rev_map [symmetric])
    then have "map_of (rev ?xs) a = Some i \<longleftrightarrow> (a, i) \<in> set ?xs" for i
      by (simp add: map_of_eq_Some_iff)
    moreover have "(a, i) \<in> set ?xs \<longleftrightarrow> (\<exists>r. bt_get (sender_keys g) i = Some r \<and> sender_event_pubkey r = a)" for i
      unfolding bt_get_entries by force
    ultimately have "map_of (rev ?xs) a = Some i \<longleftrightarrow> bt_get (sender_event_index g) a = Some i" for i
      using indexes_iff [OF assms, of a i] by simp
    then show "bt_get (add_entries ?xs bt_empty) a = bt_get (sender_event_index g) a"
      by (cases "bt_get (sender_event_index g) a")
         (auto simp: bt_get_add_entries split: option.splits)
  qed
qed

lemma group_manager_restore:
  assumes "group_inv g"
  shows "group_manager_from_snapshot (group_manager_snapshot g) = Inr g"
proof -
  have "restore_groups (map group_record_snapshot (bt_values (groups g))) bt_empty = Inr (groups g)"
    using restore_groups_entries [OF new_keys_entries, of "groups g"] group_invD(1) [OF assms]
    by (auto simp: bt_values_def comp_def add_entries_all bt_get_entries)
  moreover have "restore_sender_keys ow (map sender_key_record_snapshot (bt_values (sender_keys g)))
      (group_manager_new ow'\<lparr>groups := gs\<rparr>) =
      Inr \<lparr>gm_local_owner_pubkey = ow', groups = gs, sender_keys = sender_keys g,
           sender_event_index = sender_event_index g\<rparr>" for ow ow' gs
  proof -
    have "\<forall>(i, r) \<in> set (bt_entries (sender_keys g)). sender_ok i r"
      using group_invD(2) [OF assms] by (fastforce simp: bt_get_entries)
    then show ?thesis using restore_sender_keys_entries [of "bt_entries (sender_keys g)" "group_manager_new ow'\<lparr>groups := gs\<rparr>" ow]
      index_rebuilt [OF group_invD(3) [OF assms]] new_keys_entries [of "sender_keys g"]
      by (simp add: bt_values_def comp_def add_entries_all group_manager_new_def)
  qed
  ultimately show ?thesis
    by (simp add: group_manager_from_snapshot_def group_manager_snapshot_def)
qed

end
