(* ===== verification/Group_Runs.thy ===== *)
theory Group_Runs
  imports Group_Restore
begin

text \<open>
  The group managers that can arise: from an empty manager by any sequence of local calls, incoming
  payloads and messages, and restarts from a stored snapshot.
\<close>

section \<open>Local calls\<close>

datatype group_call =
    CreateGroup string "OwnerPubkey list" GroupProtocol
  | RetryCreateGroup string "OwnerPubkey list"
  | SendMessage string bytes
  | RequestRepair SenderKeyRepairRequest
  | RespondToRepair OwnerPubkey SenderKeyRepairRequest
  | UpdateName string string
  | UpdatePicture string "string option"
  | UpdateAbout string "string option"
  | RetryUpdateName string
  | AddMembers string "OwnerPubkey list"
  | RetryAddMembers string "OwnerPubkey list"
  | RemoveMembers string "OwnerPubkey list"
  | RetryRemoveMembers string "OwnerPubkey list"
  | AddAdmins string "OwnerPubkey list"
  | RemoveAdmins string "OwnerPubkey list"
  | SyncToSiblings string

fun run_call :: "'x invite_crypto_scheme \<Rightarrow> GroupPayloadCodec \<Rightarrow> UnixSeconds \<Rightarrow> group_call \<Rightarrow> gstate \<Rightarrow> gstate" where
  "run_call cr pc now (CreateGroup n ows p) st = snd (create_group_with_protocol cr pc now n ows p st)"
| "run_call cr pc now (RetryCreateGroup gid ows) st = snd (retry_create_group cr pc now gid ows st)"
| "run_call cr pc now (SendMessage gid body) st = snd (gm_send_message cr pc now gid body st)"
| "run_call cr pc now (RequestRepair q) st = snd (request_sender_key_repair cr pc now q st)"
| "run_call cr pc now (RespondToRepair ow q) st = snd (respond_to_sender_key_repair_request cr pc now ow q st)"
| "run_call cr pc now (UpdateName gid n) st = snd (update_name cr pc now gid n st)"
| "run_call cr pc now (UpdatePicture gid p) st = snd (update_picture cr pc now gid p st)"
| "run_call cr pc now (UpdateAbout gid a) st = snd (update_about cr pc now gid a st)"
| "run_call cr pc now (RetryUpdateName gid) st = snd (retry_update_name cr pc now gid st)"
| "run_call cr pc now (AddMembers gid ows) st = snd (add_members cr pc now gid ows st)"
| "run_call cr pc now (RetryAddMembers gid ows) st = snd (retry_add_members cr pc now gid ows st)"
| "run_call cr pc now (RemoveMembers gid ows) st = snd (remove_members cr pc now gid ows st)"
| "run_call cr pc now (RetryRemoveMembers gid ows) st = snd (retry_remove_members cr pc now gid ows st)"
| "run_call cr pc now (AddAdmins gid ows) st = snd (add_admins cr pc now gid ows st)"
| "run_call cr pc now (RemoveAdmins gid ows) st = snd (remove_admins cr pc now gid ows st)"
| "run_call cr pc now (SyncToSiblings gid) st = snd (sync_group_to_local_siblings cr pc now gid st)"

lemmas keep_calls = keep_then_do keep_check keep_let keep_steps publish_metadata_ginv bootstrap_ginv

lemma create_group_ginv: "ginv cr st \<longrightarrow> ginv cr (snd (create_group_with_protocol cr pc now n ows p st))"
proof -
  have "suffix (snd (random_group_id cr rng)) rng" for rng
    unfolding random_group_id_def by (intro rng_step draw_block_rng)
  then show ?thesis
    unfolding create_group_with_protocol_def
    by (intro keep_check keep_let keep_steps keep_then_do on_group_rng_ginv publish_metadata_ginv bootstrap_ginv keep_store)
       (auto simp: group_ok_def validate_supported_protocol_def split: if_splits)
qed

lemma update_metadata_ginv:
  assumes "group_edit_op apply_edit"
  shows "ginv cr st \<longrightarrow> ginv cr (snd (update_metadata_with cr pc now gid apply_edit st))"
  unfolding update_metadata_with_def
  by (rule edit_ginv [OF assms]) (rule mp [OF keep_store [OF publish_metadata_ginv]])

lemma add_members_ginv: "ginv cr st \<longrightarrow> ginv cr (snd (add_members cr pc now gid ows st))"
  unfolding add_members_def
  by (intro keep_check edit_ginv [OF members_added.group_edit_op_axioms])
     (rule mp [OF keep_then_do [OF publish_metadata_ginv keep_store [OF bootstrap_ginv]]])

lemma remove_members_ginv: "ginv cr st \<longrightarrow> ginv cr (snd (remove_members cr pc now gid ows st))"
proof -
  have "ginv cr st \<longrightarrow> ginv cr (snd (if is_sender_key_v1 (protocol r)
      then prepare_sender_key_rotation cr pc now r prepared st else (Inr prepared, st)))" for r prepared st
    unfolding prepare_sender_key_rotation_def by (intro keep_steps distribute_sender_key_ginv)
  then show ?thesis
    unfolding remove_members_def
    by (intro keep_check edit_ginv [OF members_removed.group_edit_op_axioms])
       (rule mp [OF keep_then_do [OF publish_metadata_ginv keep_store]])
qed

lemma respond_to_repair_ginv:
  "ginv cr st \<longrightarrow> ginv cr (snd (respond_to_sender_key_repair_request cr pc now ow q st))"
  unfolding respond_to_sender_key_repair_request_def
  by (intro keeps.step_option [where P = "ginv cr"] keep_steps) (simp add: Let_def case_prod_beta repair_all_ginv)

text \<open>The calls that repeat or answer what was sent before.\<close>

lemma retry_calls_ginv:
  "ginv cr st \<longrightarrow> ginv cr (snd (retry_create_group cr pc now gid ows st))"
  "ginv cr st \<longrightarrow> ginv cr (snd (retry_update_name cr pc now gid st))"
  "ginv cr st \<longrightarrow> ginv cr (snd (retry_add_members cr pc now gid ows st))"
  "ginv cr st \<longrightarrow> ginv cr (snd (retry_remove_members cr pc now gid ows st))"
  "ginv cr st \<longrightarrow> ginv cr (snd (request_sender_key_repair cr pc now q st))"
  "ginv cr st \<longrightarrow> ginv cr (snd (sync_group_to_local_siblings cr pc now gid st))"
  unfolding retry_create_group_def retry_update_name_def retry_add_members_def retry_remove_members_def
    request_sender_key_repair_def sync_group_to_local_siblings_def
  by (intro keep_calls)+

lemma send_message_ginv: "ginv cr st \<longrightarrow> ginv cr (snd (gm_send_message cr pc now gid body st))"
  unfolding gm_send_message_def by (intro keep_calls send_sender_key_message_ginv)

lemma admin_calls_ginv:
  "ginv cr st \<longrightarrow> ginv cr (snd (add_admins cr pc now gid ows st))"
  "ginv cr st \<longrightarrow> ginv cr (snd (remove_admins cr pc now gid ows st))"
  unfolding add_admins_def remove_admins_def
  by (intro keep_check update_metadata_ginv admins_added.group_edit_op_axioms admins_removed.group_edit_op_axioms)+

lemma run_call_ginv: "ginv cr st \<longrightarrow> ginv cr (run_call cr pc now call st)"
  by (cases call) (simp_all add: create_group_ginv add_members_ginv remove_members_ginv respond_to_repair_ginv
    update_name_def update_picture_def update_about_def update_metadata_ginv rename.group_edit_op_axioms
    picture_change.group_edit_op_axioms about_change.group_edit_op_axioms retry_calls_ginv send_message_ginv
    admin_calls_ginv)

section \<open>Runs\<close>

text \<open>
  What a manager can become, together with the cursors that planning has handed out: a cursor and a plan
  are opaque to the caller, but may be kept and used on a later state or on another manager.
\<close>

inductive group_run :: "'x invite_crypto_scheme \<Rightarrow> GroupPayloadCodec \<Rightarrow> GroupManager \<Rightarrow> GroupManager \<Rightarrow> bool"
  and group_cursor :: "'x invite_crypto_scheme \<Rightarrow> GroupPayloadCodec \<Rightarrow> GroupSenderKeyDecryptCursor option \<Rightarrow> bool"
  for cr pc where
  run_start: "group_run cr pc g g"
| run_restart: "group_run cr pc g0 g \<Longrightarrow> group_manager_from_snapshot (group_manager_snapshot g) = Inr g' \<Longrightarrow>
    group_run cr pc g0 g'"
| run_payload: "group_run cr pc g0 g \<Longrightarrow> handle_pairwise_payload_inner cr pc ow k payload g = (out, g') \<Longrightarrow>
    group_run cr pc g0 g'"
| run_message: "group_run cr pc g0 g \<Longrightarrow> group_cursor cr pc c \<Longrightarrow>
    handle_sender_key_message_with_budget cr pc message (g, c, n) = (result, g', c', n') \<Longrightarrow> group_run cr pc g0 g'"
| run_plan: "group_run cr pc g0 g \<Longrightarrow> group_run cr pc (group_manager_new ow) g1 \<Longrightarrow> group_cursor cr pc c \<Longrightarrow>
    plan_sender_key_message_with_budget cr pc g1 message (c, n) = (Inr (Some plan), c', n') \<Longrightarrow>
    apply_sender_key_receive_plan plan g = (result, g') \<Longrightarrow> group_run cr pc g0 g'"
| run_calls: "group_run cr pc g0 g \<Longrightarrow> draws_fresh cr g rng \<Longrightarrow>
    run_call cr pc now call (g, m, rng, draw) = (g', st) \<Longrightarrow> group_run cr pc g0 g'"
| cursor_none: "group_cursor cr pc None"
| cursor_next: "group_run cr pc (group_manager_new ow) g \<Longrightarrow> group_cursor cr pc c \<Longrightarrow>
    plan_sender_key_message_with_budget cr pc g message (c, n) = (planned, c', n') \<Longrightarrow> group_cursor cr pc c'"

text \<open>The managers that can arise.\<close>

definition group_manages :: "'x invite_crypto_scheme \<Rightarrow> GroupPayloadCodec \<Rightarrow> GroupManager \<Rightarrow> bool" where
  "group_manages cr pc g \<longleftrightarrow> (\<exists>ow. group_run cr pc (group_manager_new ow) g)"

lemma run_invs:
  shows "group_run cr pc g0 g \<Longrightarrow> group_inv g0 \<longrightarrow> group_inv g"
    and "group_cursor cr pc c \<Longrightarrow> cursor_ok cr c"
proof (induction rule: group_run_group_cursor.inducts)
  case (run_calls g0 g rng now call m draw g' st)
  then show ?case
    using run_call_ginv [of cr "(g, m, rng, draw)" pc now call] by (auto simp: ginv_def)
next
  case (run_plan g0 g ow g1 c message n plan c' n' result g')
  then show ?case
    using plan_message_sound [OF group_inv_states, of g1 cr c pc message n] group_inv_new [of ow]
    by (auto dest: apply_plan_inv)
next
  case (cursor_next ow g c message n planned c' n')
  then show ?case
    using plan_message_sound [OF group_inv_states, of g cr c pc message n] group_inv_new [of ow] by blast
next
  case (run_message g0 g c message n result g' c' n')
  then show ?case using handle_sender_key_message_inv by blast
qed (auto simp: group_manager_restore cursor_ok_def dest: handle_payload_inv)

lemma group_manages_inv: "group_manages cr pc g \<Longrightarrow> group_inv g"
  unfolding group_manages_def using run_invs(1) group_inv_new by blast

lemma manages_new: "group_manages cr pc (group_manager_new ow)"
  using run_start by (auto simp: group_manages_def)

lemma manages_payload:
  "group_manages cr pc g \<Longrightarrow> handle_pairwise_payload_inner cr pc ow k payload g = (out, g') \<Longrightarrow> group_manages cr pc g'"
  unfolding group_manages_def using run_payload by blast

lemma manages_call:
  "group_manages cr pc g \<Longrightarrow> draws_fresh cr g rng \<Longrightarrow> run_call cr pc now call (g, m, rng, draw) = (g', st) \<Longrightarrow>
     group_manages cr pc g'"
  unfolding group_manages_def using run_calls by blast

lemma manages_message:
  "group_manages cr pc g \<Longrightarrow> handle_sender_key_message cr pc message g = (result, g') \<Longrightarrow> group_manages cr pc g'"
  using run_message [OF _ cursor_none]
  by (fastforce simp: group_manages_def handle_sender_key_message_def split: prod.splits)

end
