(* ===== verification/Group_Authority.thy ===== *)
theory Group_Authority
  imports Group_Runs
begin

text \<open>
  Who may change a group: what an incoming payload and what a local call can do to the record of a group,
  and the properties of the group manager that hold in every run.
\<close>

section \<open>Incoming payloads\<close>

lemma learn_groups [simp]: "groups (learn_sender_key i d g) = groups g"
  by (simp add: learn_sender_key_def put_sender_key_def Let_def)

lemma observe_distribution_groups:
  "observe_sender_key_distribution cr ow k d g = (out, g') \<Longrightarrow> groups g' = groups g"
  unfolding observe_sender_key_distribution_def
  by (auto simp: Let_def elim!: then_do_cases split: option.splits if_splits)

lemma handle_distribution_groups: "handle_distribution cr ow k d g = (out, g') \<Longrightarrow> groups g' = groups g"
  unfolding handle_distribution_def
  by (auto elim!: then_do_cases split: option.splits dest: observe_distribution_groups)

lemma put_group_get [simp]: "bt_get (groups (put_group r g)) gid = (if gid = group_id r then Some r else bt_get (groups g) gid)"
  by (simp add: put_group_def)

text \<open>The one way a payload changes a group, spelled out.\<close>

definition metadata_accepted :: "GroupManager \<Rightarrow> OwnerPubkey \<Rightarrow> GroupRecord \<Rightarrow> bool" where
  "metadata_accepted g ow r' \<longleftrightarrow> revision r' \<noteq> 0 \<and>
     (case bt_get (groups g) (group_id r') of
        None \<Rightarrow> bt_contains_key (members r') (gm_local_owner_pubkey g)
          \<and> (ow = gm_local_owner_pubkey g \<or> bt_contains_key (admins r') ow)
      | Some r \<Rightarrow> protocol r' = protocol r \<and> revision r < revision r'
          \<and> (ow = gm_local_owner_pubkey g \<or> bt_contains_key (admins r) ow))"

lemma handle_metadata_cases:
  assumes "handle_metadata cr ow s g = (out, g')"
  shows "g' = g \<or> (\<exists>r'. group_record_from_metadata_snapshot s = Inr r' \<and> g' = put_group r' g \<and> metadata_accepted g ow r')"
  using assms unfolding handle_metadata_def metadata_accepted_def
  by (auto simp: Let_def elim!: then_do_cases split: option.splits if_splits dest: group_record_from_metadata_ok)

lemma handle_payload_cases:
  assumes "handle_pairwise_payload_inner cr pc ow k payload g = (out, g')"
  shows "groups g' = groups g \<or> (\<exists>s r'. decode_pairwise_command pc payload = Inr (Some (MetadataSnapshot s))
    \<and> group_record_from_metadata_snapshot s = Inr r' \<and> g' = put_group r' g \<and> metadata_accepted g ow r')"
  using assms unfolding handle_pairwise_payload_inner_def handle_command_def
  by (auto elim!: then_do_cases split: option.splits GroupPairwiseCommand.splits
      dest!: handle_metadata_cases handle_distribution_groups)

text \<open>
  C21. Only administrators change a group from outside: when an incoming payload changes the record of a
  group, the payload was a metadata snapshot of that group and the new record is what it says. A group
  that was known keeps its protocol, its revision grows, and the sender is the local owner or was an
  administrator before the change; a group that was not known has the local owner among its members and
  the sender among its administrators, unless the sender is the local owner. No payload makes a group
  disappear.
\<close>

theorem group_changed_by_admin:
  assumes "handle_pairwise_payload_inner cr pc ow k payload g = (out, g')"
    and "bt_get (groups g') gid \<noteq> bt_get (groups g) gid"
  shows "\<exists>s r'. decode_pairwise_command pc payload = Inr (Some (MetadataSnapshot s))
    \<and> group_record_from_snapshot s = Inr r' \<and> gs_group_id s = gid \<and> bt_get (groups g') gid = Some r'
    \<and> (case bt_get (groups g) gid of
         Some r \<Rightarrow> protocol r' = protocol r \<and> revision r < revision r'
           \<and> (ow = gm_local_owner_pubkey g \<or> bt_contains_key (admins r) ow)
       | None \<Rightarrow> bt_contains_key (members r') (gm_local_owner_pubkey g)
           \<and> (ow = gm_local_owner_pubkey g \<or> bt_contains_key (admins r') ow))"
proof -
  obtain s r' where s: "decode_pairwise_command pc payload = Inr (Some (MetadataSnapshot s))"
    "group_record_from_metadata_snapshot s = Inr r'" and g': "g' = put_group r' g" and ok: "metadata_accepted g ow r'"
    using handle_payload_cases [OF assms(1)] assms(2) by auto
  have gid: "group_id r' = gid" using assms(2) g' by (auto split: if_splits)
  have snap: "group_record_from_snapshot s = Inr r'"
    using s(2) by (auto simp: group_record_from_metadata_snapshot_def result_simps split: if_splits)
  then have "gs_group_id s = gid" using gid by (auto simp: group_record_from_snapshot_def result_simps)
  then show ?thesis using s snap g' ok gid by (auto simp: metadata_accepted_def split: option.splits)
qed

section \<open>Local calls\<close>

text \<open>A step that leaves the groups and the identity alone and changes the session manager quietly.\<close>

definition steady :: "gstate \<Rightarrow> gstate \<Rightarrow> bool" where
  "steady s t \<longleftrightarrow> groups (fst t) = groups (fst s) \<and> gm_local_owner_pubkey (fst t) = gm_local_owner_pubkey (fst s)
     \<and> quiet (fst (snd s)) (fst (snd t))"

interpretation steadily: step_preorder steady
  by unfold_locales (auto simp: steady_def intro: quiet_trans)

lemmas quiet_step = quietly.step_then_do [where p = fst] quietly.step_return [where p = fst] quietly.step_if [where p = fst]

lemma local_sibling_payload_bytes_quiet: "quiet (fst st) (fst (snd (local_sibling_payload_bytes cr now payload st)))"
  unfolding local_sibling_payload_bytes_def by (intro quiet_step prepare_local_sibling_send_quietly)

lemma local_sibling_payload_quiet: "quiet (fst st) (fst (snd (local_sibling_payload cr pc now command st)))"
  unfolding local_sibling_payload_def by (intro quiet_step local_sibling_payload_bytes_quiet)

lemma local_sibling_sync_quiet: "quiet (fst st) (fst (snd (local_sibling_sync cr pc now r st)))"
  by (simp add: local_sibling_sync_payload local_sibling_payload_quiet)

lemma fanout_each_quiet: "quiet (fst st) (fst (snd (fanout_each cr now payload ows st)))"
  by (induction ows arbitrary: st) (auto intro!: quiet_step prepare_remote_send_quietly)

lemma fanout_payload_quiet: "quiet (fst st) (fst (snd (fanout_payload cr pc now ows command st)))"
  unfolding fanout_payload_def by (intro quiet_step fanout_each_quiet)

lemma on_sessions_steady:
  assumes "\<And>st. quiet (fst st) (fst (snd (f st)))"
  shows "steady st (snd (on_sessions f st))"
  using assms by (simp add: on_sessions_def steady_def case_prod_beta)

lemma put_sender_key_simps [simp]:
  "groups (put_sender_key i r g) = groups g" "gm_local_owner_pubkey (put_sender_key i r g) = gm_local_owner_pubkey g"
  "groups (index_sender a i g) = groups g" "gm_local_owner_pubkey (index_sender a i g) = gm_local_owner_pubkey g"
  "bt_get (sender_keys (put_sender_key i r g)) j = (if j = i then Some r else bt_get (sender_keys g) j)"
  "sender_keys (index_sender a i g) = sender_keys g"
  "gm_local_owner_pubkey (put_group gr g) = gm_local_owner_pubkey g"
  "sender_keys (put_group gr g) = sender_keys g"
  by (simp_all add: put_sender_key_def index_sender_def put_group_def)

lemma bookkeeping_groups [simp]:
  "groups (mark_sender_key_distribution_recipients gid k kid ows g) = groups g"
  "groups (record_sender_key_repair_snapshot gid k d ows g) = groups g"
  "gm_local_owner_pubkey (mark_sender_key_distribution_recipients gid k kid ows g) = gm_local_owner_pubkey g"
  "gm_local_owner_pubkey (record_sender_key_repair_snapshot gid k d ows g) = gm_local_owner_pubkey g"
  by (simp_all add: mark_sender_key_distribution_recipients_def record_sender_key_repair_snapshot_def Let_def
      split: option.splits)

lemma ensure_local_groups:
  assumes "ensure_local_sender_key_record cr now r k force (g, rng) = (out, g', rng')"
  shows "groups g' = groups g \<and> gm_local_owner_pubkey g' = gm_local_owner_pubkey g"
  using assms unfolding ensure_local_sender_key_record_def open_local_record_def on_rng_def
  by (auto simp: Let_def elim!: then_do_cases split: option.splits prod.splits if_splits)

lemma on_group_ensure_steady: "steady st (snd (on_group (ensure_local_sender_key_record cr now r k force) st))"
proof -
  obtain g m rng draw where st: "st = (g, m, rng, draw)" by (metis prod_cases4)
  obtain out g' rng' where e: "ensure_local_sender_key_record cr now r k force (g, rng) = (out, g', rng')"
    by (metis prod_cases3)
  show ?thesis using ensure_local_groups [OF e] by (simp add: on_group_def st e steady_def)
qed

lemma on_group_rng_steady: "steady st (snd (on_group (on_rng f) st))"
  by (simp add: on_group_def on_rng_def steady_def case_prod_beta)

lemmas steady_steps = steadily.step_return steadily.step_if on_sessions_steady on_group_ensure_steady
  on_group_rng_steady local_sibling_payload_quiet local_sibling_sync_quiet fanout_payload_quiet

lemma steady_let: "(\<And>v. v = e \<Longrightarrow> steady s (snd (f v))) \<Longrightarrow> steady s (snd (let v = e in f v))"
  by simp

lemma steady_update:
  assumes "groups g' = groups g" "gm_local_owner_pubkey g' = gm_local_owner_pubkey g"
  shows "steady (g, st) (g', st)"
  using assms by (simp add: steady_def)

lemma fanout_sender_key_distribution_steady: "steady st (snd (fanout_sender_key_distribution cr pc now ows d st))"
  unfolding fanout_sender_key_distribution_def
  by (intro steadily.step_then_do steady_steps) (simp add: case_prod_beta steady_def)

lemma local_sibling_distribution_steady: "steady st (snd (local_sibling_sender_key_distribution cr pc now d st))"
  unfolding local_sibling_sender_key_distribution_def
  by (intro steadily.step_then_do steady_steps) (simp add: case_prod_beta steady_def)

lemma encrypt_under_sender_key_steady: "steady st (snd (encrypt_under_sender_key cr pc now r body st))"
  by (auto simp: encrypt_under_sender_key_def Let_def steady_def case_prod_beta split: sum.splits)

lemma send_sender_key_message_steady: "steady st (snd (send_sender_key_message cr pc now r body st))"
  unfolding send_sender_key_message_def case_prod_beta
  by (intro steadily.step_then_do steady_let steady_steps fanout_sender_key_distribution_steady
      local_sibling_distribution_steady encrypt_under_sender_key_steady)

lemma distribute_sender_key_steady: "steady st (snd (distribute_sender_key cr pc now force r prepared st))"
  unfolding distribute_sender_key_def case_prod_beta
  by (intro steadily.step_then_do steady_steps fanout_sender_key_distribution_steady local_sibling_distribution_steady)

lemma publish_metadata_steady: "steady st (snd (publish_metadata cr pc now ows r st))"
  unfolding publish_metadata_def by (intro steadily.step_then_do steady_steps)

lemma bootstrap_steady: "steady st (snd (bootstrap_if_needed cr pc now r prepared st))"
  unfolding bootstrap_if_needed_def prepare_sender_key_bootstrap_def
  by (intro steady_steps distribute_sender_key_steady)

lemmas steady_calls = steadily.step_then_do steadily.step_check steady_let steady_steps publish_metadata_steady
  bootstrap_steady send_sender_key_message_steady

lemma repair_all_steady: "steady st (snd (repair_all cr pc now ow cs prepared st))"
proof (induction cs arbitrary: prepared st)
  case (Cons c cs)
  have "steady st (snd (repair_payload_to_owner cr pc now ow c st))"
    unfolding repair_payload_to_owner_def by (intro steady_calls)
  with Cons show ?case unfolding repair_all.simps by (intro steadily.step_then_do) simp_all
qed (simp add: steadily.rel_refl)

text \<open>Calls that send, but store no record.\<close>

lemma sending_calls_steady:
  "steady st (snd (retry_create_group cr pc now gid ows st))"
  "steady st (snd (retry_update_name cr pc now gid st))"
  "steady st (snd (retry_add_members cr pc now gid ows st))"
  "steady st (snd (retry_remove_members cr pc now gid ows st))"
  "steady st (snd (request_sender_key_repair cr pc now q st))"
  "steady st (snd (sync_group_to_local_siblings cr pc now gid st))"
  "steady st (snd (gm_send_message cr pc now gid body st))"
  unfolding retry_create_group_def retry_update_name_def retry_add_members_def retry_remove_members_def
    request_sender_key_repair_def sync_group_to_local_siblings_def gm_send_message_def
  by (intro steady_calls)+

lemma respond_to_repair_steady:
  "steady st (snd (respond_to_sender_key_repair_request cr pc now ow q st))"
  unfolding respond_to_sender_key_repair_request_def
  by (intro steadily.step_option steady_steps) (simp add: Let_def case_prod_beta repair_all_steady)

text \<open>Calls that store one record at their end, when everything before has succeeded.\<close>

definition stores :: "GroupRecord \<Rightarrow> gstate \<Rightarrow> gstate \<Rightarrow> bool" where
  "stores r s t \<longleftrightarrow> groups (fst t) = groups (fst s) \<or> groups (fst t) = bt_insert (group_id r) r (groups (fst s))"

lemma steady_stores: "steady s t \<Longrightarrow> stores r s t"
  by (simp add: stores_def steady_def)

lemma stores_steady: "steady s t \<Longrightarrow> stores r t u \<Longrightarrow> stores r s u"
  by (simp add: stores_def steady_def)

lemma store_then_do:
  assumes "steady s (snd m)" "\<And>x t. m = (Inr x, t) \<Longrightarrow> stores r t (snd (f x t))"
  shows "stores r s (snd (then_do m f))"
  using assms
  by (cases "(m, f)" rule: then_do.cases) (auto intro: steady_stores stores_steady)

lemma store_last:
  assumes "steady s (snd m)"
  shows "stores r s (snd (then_do m (\<lambda>x (g, st). (Inr (f x), put_group r g, st))))"
  using assms by (rule store_then_do) (simp add: stores_def put_group_def case_prod_beta)

definition edited :: "GroupManager \<Rightarrow> UnixSeconds \<Rightarrow> GroupRecord \<Rightarrow> GroupRecord \<Rightarrow> bool" where
  "edited g now r r' \<longleftrightarrow> bt_contains_key (admins r) (gm_local_owner_pubkey g) \<and> revision r' = revision r + 1
     \<and> group_id r' = group_id r \<and> protocol r' = protocol r \<and> created_by r' = created_by r \<and> updated_at r' = now"

context group_edit_op
begin

lemma edit_record_edited: "edit_record apply_edit now g r = Inr r' \<Longrightarrow> edited g now r r'"
  using edit_by_admin [of r "gm_local_owner_pubkey g" "revision r" "revision r + 1" now r']
    edit_revision [of r "gm_local_owner_pubkey g" "revision r" "revision r + 1" now r']
    edit_identity [of r "gm_local_owner_pubkey g" "revision r" "revision r + 1" now r']
  by (simp add: edit_record_def edited_def)

end

text \<open>What a local call does to the groups.\<close>

definition call_effect :: "UnixSeconds \<Rightarrow> GroupManager \<Rightarrow> GroupManager \<Rightarrow> bool" where
  "call_effect now g g' \<longleftrightarrow> groups g' = groups g
     \<or> (\<exists>gid r r'. bt_get (groups g) gid = Some r \<and> edited g now r r'
          \<and> groups g' = bt_insert (group_id r') r' (groups g))"

lemma edit_effect:
  assumes edit: "group_edit_op apply_edit"
    and publish: "\<And>r r'. stores r' st (snd (k r r' st))"
  shows "call_effect now (fst st) (fst (snd (then_do (group_record (fst st) gid, st) (\<lambda>current st.
    then_do (edit_record apply_edit now (fst st) current, st) (k current)))))"
proof (cases "bt_get (groups (fst st)) gid")
  case (Some r)
  show ?thesis
  proof (cases "edit_record apply_edit now (fst st) r")
    case (Inr r')
    then have "edited (fst st) now r r'" by (rule group_edit_op.edit_record_edited [OF edit])
    then show ?thesis
      using publish [of r' r] Some Inr by (auto simp: group_record_def call_effect_def stores_def)
  qed (simp add: group_record_def Some call_effect_def)
qed (simp add: group_record_def call_effect_def)

lemma update_metadata_effect:
  assumes "group_edit_op apply_edit"
  shows "call_effect now (fst st) (fst (snd (update_metadata_with cr pc now gid apply_edit st)))"
  unfolding update_metadata_with_def by (intro edit_effect [OF assms] store_last publish_metadata_steady)

lemma call_effect_check:
  assumes "\<And>x. r = Inr x \<Longrightarrow> call_effect now (fst st) (fst (snd (f x st)))"
  shows "call_effect now (fst st) (fst (snd (then_do (r, st) f)))"
  using assms by (cases r) (auto simp: call_effect_def)

lemma edit_calls_effect:
  "call_effect now (fst st) (fst (snd (add_members cr pc now gid ows st)))"
  "call_effect now (fst st) (fst (snd (remove_members cr pc now gid ows st)))"
  "call_effect now (fst st) (fst (snd (add_admins cr pc now gid ows st)))"
  "call_effect now (fst st) (fst (snd (remove_admins cr pc now gid ows st)))"
proof -
  have "steady st (snd (if is_sender_key_v1 (protocol r) then prepare_sender_key_rotation cr pc now r prepared st
      else (Inr prepared, st)))" for r prepared st
    unfolding prepare_sender_key_rotation_def by (intro steady_steps distribute_sender_key_steady)
  then show "call_effect now (fst st) (fst (snd (remove_members cr pc now gid ows st)))"
    unfolding remove_members_def
    by (intro call_effect_check edit_effect members_removed.group_edit_op_axioms store_then_do publish_metadata_steady
        store_last)
  show "call_effect now (fst st) (fst (snd (add_members cr pc now gid ows st)))"
    unfolding add_members_def
    by (intro call_effect_check edit_effect members_added.group_edit_op_axioms store_then_do publish_metadata_steady
        store_last bootstrap_steady)
  show "call_effect now (fst st) (fst (snd (add_admins cr pc now gid ows st)))"
    "call_effect now (fst st) (fst (snd (remove_admins cr pc now gid ows st)))"
    unfolding add_admins_def remove_admins_def
    by (intro call_effect_check update_metadata_effect admins_added.group_edit_op_axioms
        admins_removed.group_edit_op_axioms)+
qed

text \<open>The record of a new group, and how it is published and stored.\<close>

definition new_group ::
  "string \<Rightarrow> GroupProtocol \<Rightarrow> string \<Rightarrow> OwnerPubkey \<Rightarrow> OwnerPubkey btset \<Rightarrow> UnixSeconds \<Rightarrow> GroupRecord" where
  "new_group gid p n local ms now =
     \<lparr>group_id = gid, protocol = p, group_name = n, picture = None, about = None, created_by = local,
      members = bs_insert local ms, admins = bs_insert local bt_empty, revision = 1, group_created_at = now,
      updated_at = now\<rparr>"

definition launch_group ::
  "'x invite_crypto_scheme \<Rightarrow> GroupPayloadCodec \<Rightarrow> UnixSeconds \<Rightarrow> OwnerPubkey \<Rightarrow> GroupRecord \<Rightarrow>
   gstate \<Rightarrow> GroupCreateResult res \<times> gstate" where
  "launch_group cr pc now local r st =
     then_do (publish_metadata cr pc now (remote_members r local) r st) (\<lambda>prepared st.
     then_do (bootstrap_if_needed cr pc now r prepared st) (\<lambda>prepared (g, st).
       (Inr \<lparr>cr_group = group_record_snapshot r, cr_prepared = prepared\<rparr>, put_group r g, st)))"

lemma create_group_cases:
  "(\<exists>e. create_group_with_protocol cr pc now n ows p (g, m, rng, draw) = (Inl e, g, m, rng, draw))
    \<or> (\<exists>b rest ms. rng = b # rest \<and> validate_unique_owners ows ''initial members'' = Inr ms
      \<and> validate_supported_protocol p = Inr () \<and> \<not> bt_contains_key ms (gm_local_owner_pubkey g)
      \<and> create_group_with_protocol cr pc now n ows p (g, m, rng, draw) =
         launch_group cr pc now (gm_local_owner_pubkey g)
          (new_group (hex_encode cr b) p n (gm_local_owner_pubkey g) ms now) (g, m, rest, draw))"
  by (cases "validate_unique_owners ows ''initial members''"; cases "validate_supported_protocol p"; cases rng)
     (auto simp: create_group_with_protocol_def launch_group_def new_group_def on_group_def on_rng_def
       random_group_id_def draw_block_def Let_def)

lemma create_group_effect:
  assumes "create_group_with_protocol cr pc now n ows p (g, m, rng, draw) = (out, g', st')"
  shows "groups g' = groups g \<or> (\<exists>b r. b \<in> set rng \<and> group_id r = hex_encode cr b
    \<and> groups g' = bt_insert (group_id r) r (groups g))"
proof -
  have "stores r st (snd (launch_group cr pc now local r st))" for r st local
    unfolding launch_group_def by (intro store_then_do publish_metadata_steady store_last bootstrap_steady)
  then have launched: "groups g' = groups g \<or> groups g' = bt_insert (group_id r) r (groups g)"
    if "launch_group cr pc now local r (g, m, rest, draw) = (out, g', st')" for r local rest
    using that by (metis fst_conv snd_conv stores_def)
  show ?thesis
    using create_group_cases [of cr pc now n ows p g m rng draw]
  proof (elim disjE exE conjE)
    fix b rest ms
    assume "rng = b # rest" "create_group_with_protocol cr pc now n ows p (g, m, rng, draw) =
         launch_group cr pc now (gm_local_owner_pubkey g)
          (new_group (hex_encode cr b) p n (gm_local_owner_pubkey g) ms now) (g, m, rest, draw)"
    with launched [of "gm_local_owner_pubkey g" "new_group (hex_encode cr b) p n (gm_local_owner_pubkey g) ms now" rest] assms
    show ?thesis by (force simp: new_group_def)
  qed (use assms in simp)
qed

lemma steady_effect: "steady s t \<Longrightarrow> call_effect now (fst s) (fst t)"
  by (simp add: steady_def call_effect_def)

lemma run_call_edits:
  assumes "\<And>n ows p. call \<noteq> CreateGroup n ows p"
  shows "call_effect now (fst st) (fst (run_call cr pc now call st))"
proof (cases call)
  case (CreateGroup n ows p)
  then show ?thesis using assms by blast
qed (simp_all add: sending_calls_steady [THEN steady_effect] respond_to_repair_steady [THEN steady_effect]
      edit_calls_effect update_name_def update_picture_def update_about_def update_metadata_effect
      rename.group_edit_op_axioms picture_change.group_edit_op_axioms about_change.group_edit_op_axioms)

lemma run_call_effect:
  assumes "run_call cr pc now call (g, m, rng, draw) = (g', st')"
  shows "call_effect now g g' \<or> (\<exists>b r. b \<in> set rng \<and> group_id r = hex_encode cr b
    \<and> groups g' = bt_insert (group_id r) r (groups g))"
proof (cases "\<exists>n ows p. call = CreateGroup n ows p")
  case True
  then obtain n ows p where "call = CreateGroup n ows p" by blast
  moreover obtain out where "create_group_with_protocol cr pc now n ows p (g, m, rng, draw) = (out, g', st')"
    using assms calculation by (cases "create_group_with_protocol cr pc now n ows p (g, m, rng, draw)") simp
  ultimately show ?thesis using create_group_effect unfolding call_effect_def by blast
next
  case False
  then show ?thesis using run_call_edits [of call now "(g, m, rng, draw)" cr pc] assms by simp
qed

text \<open>
  Local calls change a group one revision at a time: when any call of the manager changes the record of
  a group it has, in a state that can arise, the local owner is an administrator of the group, the new
  record is the old one at the next revision (a 64-bit counter), with the same protocol and creator, and
  it carries the time of the call. The only assumption is that a new group is not given this group's id.
\<close>

theorem group_edited_by_local_admin:
  assumes "group_manages cr pc g" and call: "run_call cr pc now call (g, m, rng, draw) = (g', st')"
    and r: "bt_get (groups g) gid = Some r" and changed: "bt_get (groups g') gid \<noteq> Some r"
    and new_id: "\<forall>b \<in> set rng. hex_encode cr b \<noteq> gid"
  shows "\<exists>r'. bt_get (groups g') gid = Some r' \<and> bt_contains_key (admins r) (gm_local_owner_pubkey g)
    \<and> revision r' = revision r + 1 \<and> protocol r' = protocol r \<and> created_by r' = created_by r \<and> updated_at r' = now"
proof -
  have "\<not> (\<exists>b r. b \<in> set rng \<and> group_id r = hex_encode cr b \<and> groups g' = bt_insert (group_id r) r (groups g))"
    using r changed new_id by (auto split: if_splits)
  then obtain h s s' where s: "bt_get (groups g) h = Some s" "edited g now s s'"
    "groups g' = bt_insert (group_id s') s' (groups g)"
    using run_call_effect [OF call] r changed by (auto simp: call_effect_def)
  have "group_ok h s" using group_manages_inv [OF assms(1)] s(1) by (rule group_invD)
  then have "group_id s = h" "h = gid" using s r changed by (auto simp: group_ok_def edited_def split: if_splits)
  then show ?thesis using s r by (auto simp: edited_def)
qed

text \<open>
  C22. In every run of the group manager, from an empty manager through any local calls, payloads, messages
  and restarts: a group is stored under its own id, runs a supported protocol and has at least one
  administrator, and every administrator is a member; a sender-key record is stored under its own group,
  owner and device, its latest key has a state, every state is stored under its key id and keeps at most
  \<open>SENDER_KEY_MAX_STORED_SKIPPED_KEYS\<close> keys of earlier messages; and the key that signs a stream of messages is known
  to the index exactly when a record has it, and then leads to that record. The draws of the random source
  are assumed fresh, as the runs require.
\<close>

theorem group_manager_invariant:
  assumes "group_manages cr pc g"
  shows "(bt_get (groups g) gid = Some r \<longrightarrow> group_id r = gid
      \<and> (protocol r = pairwise_fanout_v1 \<or> protocol r = sender_key_v1)
      \<and> (\<exists>ow. bt_contains_key (admins r) ow)
      \<and> (\<forall>ow. bt_contains_key (admins r) ow \<longrightarrow> bt_contains_key (members r) ow))
    \<and> (bt_get (sender_keys g) i = Some sr \<longrightarrow> i = (skr_group_id sr, sender_owner sr, sender_device sr)
      \<and> (\<forall>kid. latest_key_id sr = Some kid \<longrightarrow> bt_contains_key (states sr) kid)
      \<and> (\<forall>kid s. bt_get (states sr) kid = Some s \<longrightarrow> key_id s = kid
           \<and> bt_len (skipped_message_keys s) \<le> SENDER_KEY_MAX_STORED_SKIPPED_KEYS
           \<and> (\<forall>n. bt_contains_key (skipped_message_keys s) n \<longrightarrow> n < iteration s)))
    \<and> (bt_get (sender_event_index g) author = Some i \<longleftrightarrow>
        (\<exists>sr. bt_get (sender_keys g) i = Some sr \<and> sender_event_pubkey sr = author))"
proof -
  note inv = group_manages_inv [OF assms]
  have "key_id s = kid \<and> bt_len (skipped_message_keys s) \<le> SENDER_KEY_MAX_STORED_SKIPPED_KEYS
      \<and> (\<forall>n. bt_contains_key (skipped_message_keys s) n \<longrightarrow> n < iteration s)"
    if "sender_ok i sr" "bt_get (states sr) kid = Some s" for kid s
    using that by (auto simp: sender_ok_def sender_key_inv_def skipped_past_def contains_iff dest!: states_okD)
  then show ?thesis
    using group_invD(1,2) [OF inv] indexes_iff [OF group_invD(3) [OF inv], of author i]
    by (auto simp: group_ok_def sender_ok_def sender_key_record_id_def is_pairwise_fanout_v1_def is_sender_key_v1_def)
qed

text \<open>
  A group manager survives a restart: in every run, the manager rebuilt from its own snapshot is the
  manager, with every group, every sender-key record with its states and bookkeeping, and the index of
  streams, which the snapshot does not contain.
\<close>

theorem group_manager_snapshot_roundtrip:
  assumes "group_manages cr pc g"
  shows "group_manager_from_snapshot (group_manager_snapshot g) = Inr g"
  by (rule group_manager_restore [OF group_manages_inv [OF assms]])

end
