(* ===== verification/Group_Secrecy.thy ===== *)
theory Group_Secrecy
  imports Group_Authority Session_Manager_Properties
begin

text \<open>
  The sender key of the local device: what the record holds after a key was ensured, distributed and used,
  and with whom a key has been shared when a message is sent under it.
\<close>

section \<open>Ensuring a key\<close>

definition distributed :: "SenderKeyRecord \<Rightarrow> u32 \<Rightarrow> OwnerPubkey \<Rightarrow> bool" where
  "distributed sr kid ow \<longleftrightarrow> is_some_and (bt_get (distributed_to sr) kid) (\<lambda>owners. bt_contains_key owners ow)"

text \<open>A distribution that carries the current position of a key of the record.\<close>

definition announces :: "SenderKeyRecord \<Rightarrow> SenderKeyDistribution \<Rightarrow> bool" where
  "announces sr d \<longleftrightarrow> dist_sender_event_pubkey d = sender_event_pubkey sr \<and> dist_group_id d = skr_group_id sr
     \<and> latest_key_id sr = Some (dist_key_id d)
     \<and> (\<exists>s. bt_get (states sr) (dist_key_id d) = Some s
          \<and> chain_key s = dist_chain_key d \<and> iteration s = dist_iteration d)"

lemma random_key_id_drawn: "random_key_id rng = (Inr kid, rng') \<Longrightarrow> kid \<noteq> 0 \<and> (\<exists>b \<in> set rng. kid = block_u32 b)"
  by (induction rng) (auto split: if_splits)

lemma random_secret_rng_set: "random_secret_key_bytes cr rng = (r, rng') \<Longrightarrow> set rng' \<subseteq> set rng"
  using random_secret_key_bytes_rng [of cr rng] set_mono_suffix by fastforce

lemma rotate_spec:
  assumes "rotate_sender_key now gid (sr, rng) = (Inr d, sr', rng')"
  shows "\<exists>b ck. b \<in> set rng \<and> d = \<lparr>dist_group_id = gid, dist_key_id = block_u32 b,
      dist_sender_event_pubkey = sender_event_pubkey sr, dist_chain_key = ck, dist_iteration = 0, dist_created_at = now\<rparr>
    \<and> sr' = sr\<lparr>states := bt_insert (block_u32 b) (sender_key_new (block_u32 b) ck 0) (states sr),
               latest_key_id := Some (block_u32 b)\<rparr>"
  using assms unfolding rotate_sender_key_def
  by (auto simp: on_rng_def result_simps split: prod.splits dest!: random_key_id_drawn)

lemma refresh_spec:
  assumes "refresh_local_record now (skr_group_id sr) force created (sr, rng) = (Inr (d, c), sr', rng')"
  shows "announces sr' d" "distributed_to sr' = distributed_to sr" "repair_snapshots sr' = repair_snapshots sr"
    "sender_event_secret_key sr' = sender_event_secret_key sr" "sender_event_pubkey sr' = sender_event_pubkey sr"
    "sender_key_record_id sr' = sender_key_record_id sr"
    "force \<or> latest_key_id sr = None \<Longrightarrow> \<exists>b \<in> set rng. dist_key_id d = block_u32 b"
    "\<not> force \<Longrightarrow> latest_key_id sr = Some kid \<Longrightarrow> dist_key_id d = kid \<and> states sr' = states sr"
proof -
  obtain nd sr1 rng1 where r: "(if force \<or> latest_key_id sr = None
      then then_do (rotate_sender_key now (skr_group_id sr) (sr, rng)) (\<lambda>d st. (Inr (Some d), st))
      else (Inr None, (sr, rng))) = (Inr nd, sr1, rng1)"
    and d: "current_distribution now (skr_group_id sr) sr1 nd = Inr d"
    and sr'_if: "sr' = (if c then sr1\<lparr>distribution_history := bt_insert (dist_key_id d) d (distribution_history sr1)\<rparr> else sr1)"
    using assms unfolding refresh_local_record_def by (auto simp: Let_def result_simps)
  note cur = current_distribution_key [OF d]
  have sr1: "announces sr1 d \<and> distributed_to sr1 = distributed_to sr \<and> repair_snapshots sr1 = repair_snapshots sr
    \<and> sender_event_secret_key sr1 = sender_event_secret_key sr \<and> sender_event_pubkey sr1 = sender_event_pubkey sr
    \<and> sender_key_record_id sr1 = sender_key_record_id sr
    \<and> (force \<or> latest_key_id sr = None \<longrightarrow> (\<exists>b \<in> set rng. dist_key_id d = block_u32 b))
    \<and> (\<not> force \<longrightarrow> latest_key_id sr = Some kid \<longrightarrow> dist_key_id d = kid \<and> states sr1 = states sr)"
  proof (cases "force \<or> latest_key_id sr = None")
    case True
    then obtain d' where "nd = Some d'" "rotate_sender_key now (skr_group_id sr) (sr, rng) = (Inr d', sr1, rng1)"
      using r by (auto simp: result_simps)
    then show ?thesis
      using cur True
      by (auto simp: announces_def sender_key_record_id_def sender_key_new_def dest!: rotate_spec)
  next
    case False
    then have "nd = None" "sr1 = sr" using r by auto
    then show ?thesis using cur False by (auto simp: announces_def)
  qed
  then show "announces sr' d" "distributed_to sr' = distributed_to sr" "repair_snapshots sr' = repair_snapshots sr"
    "sender_event_secret_key sr' = sender_event_secret_key sr" "sender_event_pubkey sr' = sender_event_pubkey sr"
    "sender_key_record_id sr' = sender_key_record_id sr"
    "force \<or> latest_key_id sr = None \<Longrightarrow> \<exists>b \<in> set rng. dist_key_id d = block_u32 b"
    "\<not> force \<Longrightarrow> latest_key_id sr = Some kid \<Longrightarrow> dist_key_id d = kid \<and> states sr' = states sr"
    using sr'_if by (simp_all add: announces_def sender_key_record_id_def)
qed

lemma open_local_spec:
  assumes "open_local_record cr gid k (g, rng) = (Inr created, g', rng')"
    and "\<And>sr. bt_get (sender_keys g) (local_id g gid k) = Some sr \<Longrightarrow> sender_ok (local_id g gid k) sr"
  shows "\<exists>sr. bt_get (sender_keys g') (local_id g gid k) = Some sr \<and> sender_ok (local_id g gid k) sr
    \<and> (case bt_get (sender_keys g) (local_id g gid k) of
         Some old \<Rightarrow> sr = old
       | None \<Rightarrow> distributed_to sr = bt_empty \<and> repair_snapshots sr = [] \<and> latest_key_id sr = None
           \<and> (\<exists>secret. sender_event_secret_key sr = Some secret
                \<and> sender_event_pubkey sr = DevicePubkey (pk_of_sk cr secret)))"
    and "gm_local_owner_pubkey g' = gm_local_owner_pubkey g" "set rng' \<subseteq> set rng"
proof -
  show "\<exists>sr. bt_get (sender_keys g') (local_id g gid k) = Some sr \<and> sender_ok (local_id g gid k) sr
    \<and> (case bt_get (sender_keys g) (local_id g gid k) of
         Some old \<Rightarrow> sr = old
       | None \<Rightarrow> distributed_to sr = bt_empty \<and> repair_snapshots sr = [] \<and> latest_key_id sr = None
           \<and> (\<exists>secret. sender_event_secret_key sr = Some secret
                \<and> sender_event_pubkey sr = DevicePubkey (pk_of_sk cr secret)))"
    using assms unfolding open_local_record_def on_rng_def
    by (auto simp: contains_iff Let_def result_simps sender_key_record_new_def sender_key_record_id_def
        intro!: sender_ok_new [unfolded sender_key_record_new_def] split: if_splits prod.splits option.splits)
  show "gm_local_owner_pubkey g' = gm_local_owner_pubkey g" "set rng' \<subseteq> set rng"
    using assms unfolding open_local_record_def on_rng_def
    by (auto simp: Let_def result_simps split: if_splits prod.splits dest: random_secret_rng_set)
qed

text \<open>The record after a key was ensured, in terms of the record before.\<close>

lemma ensure_local_spec:
  assumes inv: "group_inv g"
    and ens: "ensure_local_sender_key_record cr now r k force (g, rng) = (Inr (d, c), g', rng')"
  defines "i \<equiv> local_id g (group_id r) k"
  shows "\<exists>sr'. bt_get (sender_keys g') i = Some sr' \<and> announces sr' d \<and> sender_ok i sr'
    \<and> (case bt_get (sender_keys g) i of
         None \<Rightarrow> distributed_to sr' = bt_empty \<and> (\<exists>b \<in> set rng. dist_key_id d = block_u32 b)
           \<and> sender_event_secret_key sr' \<noteq> None
       | Some sr \<Rightarrow> distributed_to sr' = distributed_to sr \<and> sender_event_pubkey sr' = sender_event_pubkey sr
           \<and> sender_event_secret_key sr' = sender_event_secret_key sr
           \<and> (force \<or> latest_key_id sr = None \<longrightarrow> (\<exists>b \<in> set rng. dist_key_id d = block_u32 b))
           \<and> (\<forall>kid. \<not> force \<longrightarrow> latest_key_id sr = Some kid \<longrightarrow> dist_key_id d = kid \<and> states sr' = states sr))"
proof -
  obtain created g1 rng1 where o: "open_local_record cr (group_id r) k (g, rng) = (Inr created, g1, rng1)"
    and rest: "(case bt_get (sender_keys g1) (local_id g1 (group_id r) k) of
         None \<Rightarrow> (Inl (group_error ''missing local sender-key record''), g1, rng1)
       | Some sr \<Rightarrow> (case refresh_local_record now (group_id r) force created (sr, rng1) of
            (out, sr', rng') \<Rightarrow> (out, put_sender_key (local_id g1 (group_id r) k) sr' g1, rng'))) = (Inr (d, c), g', rng')"
    using ens unfolding ensure_local_sender_key_record_def by (auto simp: Let_def result_simps)
  note op = open_local_spec [OF o group_invD(2) [OF inv]]
  have id: "local_id g1 (group_id r) k = i" using op(2) by (simp add: i_def)
  obtain sr where sr: "bt_get (sender_keys g1) i = Some sr" "sender_ok i sr"
    "case bt_get (sender_keys g) i of Some old \<Rightarrow> sr = old
       | None \<Rightarrow> distributed_to sr = bt_empty \<and> repair_snapshots sr = [] \<and> latest_key_id sr = None
           \<and> (\<exists>secret. sender_event_secret_key sr = Some secret
                \<and> sender_event_pubkey sr = DevicePubkey (pk_of_sk cr secret))"
    using op(1) unfolding i_def by blast
  have gid: "skr_group_id sr = group_id r" using sr(2) by (auto simp: sender_ok_def sender_key_record_id_def i_def)
  obtain sr' where f: "refresh_local_record now (skr_group_id sr) force created (sr, rng1) = (Inr (d, c), sr', rng')"
    and g': "g' = put_sender_key i sr' g1"
    using rest sr(1) unfolding id gid by (auto split: prod.splits)
  note fr = refresh_spec [OF f]
  have ok: "sender_ok i sr'" using refresh_local_record_ok [OF sr(2) f] by simp
  have drawn: "\<exists>b \<in> set rng. dist_key_id d = block_u32 b" if "force \<or> latest_key_id sr = None"
    using fr(7) [OF that] op(3) by blast
  show ?thesis
  proof (cases "bt_get (sender_keys g) i")
    case None
    then show ?thesis using fr(1-6) sr drawn g' ok by auto
  next
    case (Some old)
    then show ?thesis using fr sr drawn g' ok by auto
  qed
qed

section \<open>Who is written to\<close>

lemma send_targets_owner:
  assumes "send_targets cr now payload refresh ts (m, ctx) = (Inr (ds, rs, gs), st)" "d \<in> set ds"
  shows "delivery_owner_pubkey d \<in> fst ` set ts"
  using assms
proof (induction ts arbitrary: m ctx ds rs gs)
  case (Cons t ts)
  obtain ow k where t: "t = (ow, k)" by (cases t)
  from Cons.prems(1) obtain out m1 ctx1 ds1 rs1 gs1 where
    1: "prepare_device_delivery cr now ow k payload refresh (m, ctx) = (Inr out, m1, ctx1)" and
    2: "send_targets cr now payload refresh ts (m1, ctx1) = (Inr (ds1, rs1, gs1), st)" and
    3: "ds = (case out of Some (d, response) \<Rightarrow> d # ds1 | None \<Rightarrow> ds1)"
    unfolding t by (auto elim!: then_do_cases split: option.splits prod.splits)
  have "delivery_owner_pubkey d = ow" if "out = Some (d, resp)" for resp
    using 1 that unfolding prepare_device_delivery_def
    by (auto elim!: with_record_out dest!: record_delivery_target)
  then show ?case using Cons.IH [OF 2] Cons.prems(2) 3 by (auto simp: t split: option.splits)
qed simp

lemma recipient_targets:
  "collect_recipient_targets m ow bt_empty gaps = (targets, gaps') \<Longrightarrow> t \<in> set (bt_keys targets) \<Longrightarrow> fst t = ow"
proof -
  have "bt_contains_key (fold (\<lambda>k. bs_insert (ow, k)) ks s) t \<Longrightarrow> \<not> bt_contains_key s t \<Longrightarrow> fst t = ow" for ks s
    by (induction ks arbitrary: s) (auto, metis contains_simps(2) fst_conv)
  then show "collect_recipient_targets m ow bt_empty gaps = (targets, gaps') \<Longrightarrow> t \<in> set (bt_keys targets) \<Longrightarrow> fst t = ow"
    by (auto simp: collect_recipient_targets_def keys_contains split: option.splits if_splits)
qed

lemma prepare_remote_send_owner:
  assumes "prepare_remote_send cr now ow payload (m, ctx) = (Inr p, m', ctx')" "d \<in> set (deliveries p)"
  shows "delivery_owner_pubkey d = ow \<and> sendable m d"
proof -
  obtain targets gaps where c: "collect_recipient_targets m ow bt_empty [] = (targets, gaps)" by fastforce
  then obtain ds rs gs st where s: "send_targets cr now payload False (bt_keys targets) (m, ctx) = (Inr (ds, rs, gs), st)"
    "deliveries p = ds"
    using assms(1) unfolding prepare_remote_send_def prepare_send_inner_def prepare_explicit_send_def
    by (auto elim!: then_do_cases)
  then show ?thesis
    using send_targets_owner [OF s(1)] send_targets_sendable [OF s(1)] recipient_targets [OF c] assms(2) by fastforce
qed

lemma fanout_each_owner:
  assumes "fanout_each cr now payload ows (m, ctx) = (Inr p, st)" "d \<in> set (pp_deliveries p)"
  shows "delivery_owner_pubkey d \<in> set ows \<and> sendable m d"
  using assms
proof (induction ows arbitrary: m ctx p)
  case (Cons ow ows)
  obtain q m1 ctx1 rest where
    1: "prepare_remote_send cr now ow payload (m, ctx) = (Inr q, m1, ctx1)"
    and 2: "fanout_each cr now payload ows (m1, ctx1) = (Inr rest, st)"
    and 3: "pp_deliveries p = deliveries q @ pp_deliveries rest"
    using Cons.prems(1) by (auto simp: result_simps)
  have "quiet m m1" using prepare_remote_send_quietly [of "(m, ctx)" cr now ow payload] 1 by simp
  then show ?case
    using Cons.IH [OF 2] Cons.prems(2) prepare_remote_send_owner [OF 1] 3 by (auto dest: sendable_quiet)
qed (simp add: prepared_publish_empty_def)

lemma fanout_each_no_messages: "fanout_each cr now payload ows st = (Inr p, st') \<Longrightarrow> pp_sender_key_messages p = []"
  by (cases ows) (auto simp: prepared_publish_empty_def result_simps)

lemma fanout_payload_owner:
  assumes "fanout_payload cr pc now ows command (m, ctx) = (Inr p, st)" "d \<in> set (pp_deliveries p)"
  shows "delivery_owner_pubkey d \<in> set ows \<and> sendable m d"
  using assms by (auto simp: fanout_payload_def result_simps dest: fanout_each_owner)

section \<open>Bookkeeping\<close>

lemma record_repair_spec:
  assumes "bt_get (sender_keys g) (local_id g gid k) = Some sr"
  shows "\<exists>snaps. bt_get (sender_keys (record_sender_key_repair_snapshot gid k d ows g)) (local_id g gid k)
    = Some (sr\<lparr>repair_snapshots := snaps\<rparr>)"
  using assms by (auto simp: record_sender_key_repair_snapshot_def Let_def
      intro: exI [of _ "repair_snapshots sr"])

lemma mark_spec:
  assumes "bt_get (sender_keys g) (local_id g gid k) = Some sr"
  shows "\<exists>dt. bt_get (sender_keys (mark_sender_key_distribution_recipients gid k kid ows g)) (local_id g gid k)
      = Some (sr\<lparr>distributed_to := dt\<rparr>)
    \<and> (\<forall>x ow. distributed (sr\<lparr>distributed_to := dt\<rparr>) x ow \<longleftrightarrow> distributed sr x ow \<or> x = kid \<and> ow \<in> set ows)"
proof (cases "ows = []")
  case True
  then show ?thesis
    using assms by (auto simp: mark_sender_key_distribution_recipients_def intro: exI [of _ "distributed_to sr"])
next
  case False
  let ?owners = "case bt_get (distributed_to sr) kid of Some s \<Rightarrow> s | None \<Rightarrow> bt_empty"
  show ?thesis
    using assms False
    by (intro exI [of _ "bt_insert kid (bs_extend ?owners ows) (distributed_to sr)"])
       (auto simp: mark_sender_key_distribution_recipients_def Let_def distributed_def split: option.splits)
qed

lemma fanout_distribution_spec:
  assumes "fanout_sender_key_distribution cr pc now ows d (g, m, ctx) = (Inr p, g', m', ctx')"
    and "bt_get (sender_keys g) (local_id g (dist_group_id d) (local_device_pubkey m)) = Some sr"
  shows "\<exists>dt snaps. bt_get (sender_keys g') (local_id g (dist_group_id d) (local_device_pubkey m))
      = Some (sr\<lparr>distributed_to := dt, repair_snapshots := snaps\<rparr>)
    \<and> (\<forall>x ow. distributed (sr\<lparr>distributed_to := dt\<rparr>) x ow \<longleftrightarrow> distributed sr x ow \<or> x = dist_key_id d \<and> ow \<in> set ows)"
    and "\<forall>x \<in> set (pp_deliveries p). delivery_owner_pubkey x \<in> set ows \<and> sendable m x"
proof -
  obtain m1 ctx1 where f: "fanout_payload cr pc now ows (SenderKeyDistributionCommand d) (m, ctx) = (Inr p, m1, ctx1)"
    and g': "g' = mark_sender_key_distribution_recipients (dist_group_id d) (local_device_pubkey m1) (dist_key_id d) ows
          (record_sender_key_repair_snapshot (dist_group_id d) (local_device_pubkey m1) d ows g)" "m' = m1"
    using assms(1) unfolding fanout_sender_key_distribution_def on_sessions_def
    by (auto simp: result_simps split: prod.splits)
  have "quiet m m1" using fanout_payload_quiet [of "(m, ctx)" cr pc now ows] f by (metis fst_conv snd_conv)
  then have dev: "local_device_pubkey m1 = local_device_pubkey m" by (simp add: quiet_def same_setting_def)
  obtain snaps where "bt_get (sender_keys (record_sender_key_repair_snapshot (dist_group_id d) (local_device_pubkey m) d ows g))
      (local_id g (dist_group_id d) (local_device_pubkey m)) = Some (sr\<lparr>repair_snapshots := snaps\<rparr>)"
    using record_repair_spec [OF assms(2)] by blast
  then have "bt_get (sender_keys (record_sender_key_repair_snapshot (dist_group_id d) (local_device_pubkey m) d ows g))
      (local_id (record_sender_key_repair_snapshot (dist_group_id d) (local_device_pubkey m) d ows g)
         (dist_group_id d) (local_device_pubkey m)) = Some (sr\<lparr>repair_snapshots := snaps\<rparr>)" by simp
  from mark_spec [OF this, of "dist_key_id d" ows] obtain dt where
    "bt_get (sender_keys g') (local_id g (dist_group_id d) (local_device_pubkey m))
      = Some (sr\<lparr>repair_snapshots := snaps, distributed_to := dt\<rparr>)"
    "\<forall>x ow. distributed (sr\<lparr>repair_snapshots := snaps, distributed_to := dt\<rparr>) x ow \<longleftrightarrow>
       distributed (sr\<lparr>repair_snapshots := snaps\<rparr>) x ow \<or> x = dist_key_id d \<and> ow \<in> set ows"
    by (auto simp: g' dev)
  then show "\<exists>dt snaps. bt_get (sender_keys g') (local_id g (dist_group_id d) (local_device_pubkey m))
      = Some (sr\<lparr>distributed_to := dt, repair_snapshots := snaps\<rparr>)
    \<and> (\<forall>x ow. distributed (sr\<lparr>distributed_to := dt\<rparr>) x ow \<longleftrightarrow> distributed sr x ow \<or> x = dist_key_id d \<and> ow \<in> set ows)"
    by (intro exI [of _ dt] exI [of _ snaps]) (simp add: distributed_def)
  show "\<forall>x \<in> set (pp_deliveries p). delivery_owner_pubkey x \<in> set ows \<and> sendable m x"
    using fanout_payload_owner [OF f] by blast
qed

lemma local_sibling_distribution_spec:
  assumes "local_sibling_sender_key_distribution cr pc now d (g, m, ctx) = (Inr p, g', m', ctx')"
    and "bt_get (sender_keys g) (local_id g (dist_group_id d) (local_device_pubkey m)) = Some sr"
  shows "\<exists>snaps. bt_get (sender_keys g') (local_id g (dist_group_id d) (local_device_pubkey m))
      = Some (sr\<lparr>repair_snapshots := snaps\<rparr>)"
proof -
  obtain m1 ctx1 where f: "local_sibling_payload cr pc now (SenderKeyDistributionCommand d) (m, ctx) = (Inr p, m1, ctx1)"
    and g': "g' = g \<or> g' = record_sender_key_repair_snapshot (dist_group_id d) (local_device_pubkey m1) d
               [gm_local_owner_pubkey g] g" "m' = m1"
    using assms(1) unfolding local_sibling_sender_key_distribution_def on_sessions_def
    by (auto simp: result_simps split: prod.splits if_splits)
  have "quiet m m1" using local_sibling_payload_quiet [of "(m, ctx)" cr pc now] f by (metis fst_conv snd_conv)
  then have "local_device_pubkey m1 = local_device_pubkey m" by (simp add: quiet_def same_setting_def)
  then show ?thesis
    using g' assms(2) record_repair_spec [OF assms(2), of d "[gm_local_owner_pubkey g]"]
    by (auto intro: exI [of _ "repair_snapshots sr"])
qed

section \<open>One message under the sender key\<close>

lemma on_sessions_Inr:
  "on_sessions f (g, st) = (Inr x, g', st') \<longleftrightarrow> f st = (Inr x, st') \<and> g' = g"
  by (auto simp: on_sessions_def split: prod.splits)

lemma on_group_Inr:
  "on_group f (g, m, rng, draw) = (Inr x, g', m', rng', draw') \<longleftrightarrow> f (g, rng) = (Inr x, g', rng') \<and> m' = m \<and> draw' = draw"
  by (auto simp: on_group_def split: prod.splits)

lemma quiet_device: "quiet m m' \<Longrightarrow> local_device_pubkey m' = local_device_pubkey m"
  by (simp add: quiet_def same_setting_def)

text \<open>What encryption does to the record and what goes on the wire.\<close>

lemma encrypt_spec:
  assumes "encrypt_under_sender_key cr pc now r body (g, m, rng, draw) = (Inr e, g', st')"
    and "bt_get (sender_keys g) (local_id g (group_id r) (local_device_pubkey m)) = Some sr"
  shows "\<exists>s pt plan secret. latest_key_id sr = Some (ske_key_id e) \<and> bt_get (states sr) (ske_key_id e) = Some s
    \<and> encode_sender_key_plaintext pc (encode_context m now)
        \<lparr>pt_group_id = group_id r, pt_revision = revision r, pt_body = body\<rparr> = Inr pt
    \<and> plan_encrypt cr draw s pt = Inr plan
    \<and> e = \<lparr>ske_group_id = group_id r, ske_sender_event_pubkey = sender_event_pubkey sr, ske_signer_secret_key = secret,
           ske_key_id = ske_key_id e, ske_message_number = encrypt_message_number plan, ske_encrypted_header = None,
           ske_created_at = now, ske_ciphertext = encrypt_ciphertext plan\<rparr>
    \<and> bt_get (sender_keys g') (local_id g (group_id r) (local_device_pubkey m)) =
        Some (sr\<lparr>states := bt_insert (ske_key_id e) (encrypt_next_state plan) (states sr)\<rparr>)"
proof -
  let ?i = "local_id g (group_id r) (local_device_pubkey m)"
  obtain kid s pt plan where 1: "latest_key_id sr = Some kid" "bt_get (states sr) kid = Some s"
    "encode_sender_key_plaintext pc (encode_context m now)
        \<lparr>pt_group_id = group_id r, pt_revision = revision r, pt_body = body\<rparr> = Inr pt"
    "plan_encrypt cr draw s pt = Inr plan"
    using assms unfolding encrypt_under_sender_key_def
    by (auto simp: Let_def result_simps split: sum.splits)
  then obtain secret where "sender_event_secret_key sr = Some secret"
    using assms unfolding encrypt_under_sender_key_def by (auto simp: Let_def result_simps)
  then show ?thesis
    using assms 1 unfolding encrypt_under_sender_key_def
    by (auto simp: Let_def result_simps apply_encrypt_def)
qed

text \<open>The steps of a send that succeeds.\<close>

lemma send_steps:
  assumes "send_sender_key_message cr pc now r body (g, m, rng, draw) = (Inr out, g', st')"
  obtains ls m1 rng1 draw1 d c g2 rng2 remote g3 m3 ctx3 sib g4 m4 rng4 draw4 e where
    "local_sibling_sync cr pc now r (m, rng, draw) = (Inr ls, m1, rng1, draw1)"
    "ensure_local_sender_key_record cr now r (local_device_pubkey m1)
          (local_sender_key_has_removed_recipients g r (local_device_pubkey m1)) (g, rng1) = (Inr (d, c), g2, rng2)"
    "(if sender_key_distribution_recipients g2 r (local_device_pubkey m1) (dist_key_id d)
            (remote_members r (gm_local_owner_pubkey g2)) \<noteq> []
         then fanout_sender_key_distribution cr pc now
           (sender_key_distribution_recipients g2 r (local_device_pubkey m1) (dist_key_id d)
              (remote_members r (gm_local_owner_pubkey g2))) d (g2, m1, rng2, draw1)
         else (Inr prepared_publish_empty, g2, m1, rng2, draw1)) = (Inr remote, g3, m3, ctx3)"
    "local_sibling_sender_key_distribution cr pc now d (g3, m3, ctx3) = (Inr sib, g4, m4, rng4, draw4)"
    "encrypt_under_sender_key cr pc now r body (g4, m4, rng4, draw4) = (Inr e, g', st')"
    "ps_remote out = push_message e remote"
  using assms unfolding send_sender_key_message_def Let_def
  by (auto simp: then_do_eq_Inr on_sessions_Inr on_group_Inr cong: if_cong)

text \<open>What has been shared and sent when a message goes out.\<close>

record sent_message =
  sent_distribution :: SenderKeyDistribution
  sent_record :: SenderKeyRecord
  sent_to :: "OwnerPubkey list"
  sent_state :: SenderKeyState
  sent_plan :: SenderKeyEncryptPlan
  sent_envelope :: GroupSenderKeyMessageEnvelope

definition key_choice :: "GroupManager \<Rightarrow> GroupRecord \<Rightarrow> DevicePubkey \<Rightarrow> bytes list \<Rightarrow> sent_message \<Rightarrow> bool" where
  "key_choice g r k rng x \<longleftrightarrow>
     (let d = sent_distribution x; sr1 = sent_record x; removed = local_sender_key_has_removed_recipients g r k in
      announces sr1 d \<and> sender_ok (local_id g (group_id r) k) sr1
      \<and> (case bt_get (sender_keys g) (local_id g (group_id r) k) of
           None \<Rightarrow> distributed_to sr1 = bt_empty
         | Some sr0 \<Rightarrow> distributed_to sr1 = distributed_to sr0
             \<and> (removed \<or> latest_key_id sr0 = None \<longrightarrow> (\<exists>b \<in> set rng. dist_key_id d = block_u32 b))
             \<and> (\<forall>kid. \<not> removed \<longrightarrow> latest_key_id sr0 = Some kid \<longrightarrow> dist_key_id d = kid))
      \<and> sent_to x = filter (\<lambda>ow. bt_contains_key (members r) ow \<and> \<not> distributed sr1 (dist_key_id d) ow)
           (remote_members r (gm_local_owner_pubkey g)))"

definition sent_under ::
  "'x invite_crypto_scheme \<Rightarrow> GroupPayloadCodec \<Rightarrow> SessionManager \<Rightarrow> UnixSeconds \<Rightarrow> GroupRecord \<Rightarrow> bytes \<Rightarrow> sent_message \<Rightarrow> bool" where
  "sent_under cr pc m now r body x \<longleftrightarrow>
     (let d = sent_distribution x; e = sent_envelope x; plan = sent_plan x in
      bt_get (states (sent_record x)) (dist_key_id d) = Some (sent_state x)
      \<and> (\<exists>pt draw secret. encode_sender_key_plaintext pc (encode_context m now)
            \<lparr>pt_group_id = group_id r, pt_revision = revision r, pt_body = body\<rparr> = Inr pt
          \<and> plan_encrypt cr draw (sent_state x) pt = Inr plan
          \<and> e = \<lparr>ske_group_id = group_id r, ske_sender_event_pubkey = sender_event_pubkey (sent_record x),
              ske_signer_secret_key = secret, ske_key_id = dist_key_id d,
              ske_message_number = encrypt_message_number plan, ske_encrypted_header = None,
              ske_created_at = now, ske_ciphertext = encrypt_ciphertext plan\<rparr>)
      \<and> (sent_to x \<noteq> [] \<longrightarrow> is_ok (encode_pairwise_command pc (encode_context m now) (SenderKeyDistributionCommand d))))"

lemma share_spec:
  assumes "(if ows \<noteq> [] then fanout_sender_key_distribution cr pc now ows d (g2, m1, rng2, draw1)
      else (Inr prepared_publish_empty, g2, m1, rng2, draw1)) = (Inr remote, g3, m3, ctx3)"
    and sr1: "bt_get (sender_keys g2) (gid, ow, k) = Some sr1"
    and ids: "dist_group_id d = gid" "local_device_pubkey m1 = k" "ow = gm_local_owner_pubkey g2"
  shows "\<exists>dt snaps. bt_get (sender_keys g3) (gid, ow, k) = Some (sr1\<lparr>distributed_to := dt, repair_snapshots := snaps\<rparr>)
      \<and> (\<forall>x ow. distributed (sr1\<lparr>distributed_to := dt\<rparr>) x ow \<longleftrightarrow> distributed sr1 x ow \<or> x = dist_key_id d \<and> ow \<in> set ows)"
    and "\<forall>y \<in> set (pp_deliveries remote). delivery_owner_pubkey y \<in> set ows \<and> sendable m1 y"
    and "ows \<noteq> [] \<longrightarrow> is_ok (encode_pairwise_command pc (encode_context m1 now) (SenderKeyDistributionCommand d))"
    and "pp_sender_key_messages remote = []" "quiet m1 m3" "gm_local_owner_pubkey g3 = ow"
    and "pp_deliveries remote \<noteq> [] \<longrightarrow>
      (\<exists>st1 st2. fanout_payload cr pc now ows (SenderKeyDistributionCommand d) st1 = (Inr remote, st2))"
proof -
  have "(\<exists>dt snaps. bt_get (sender_keys g3) (gid, ow, k) = Some (sr1\<lparr>distributed_to := dt, repair_snapshots := snaps\<rparr>)
      \<and> (\<forall>x ow. distributed (sr1\<lparr>distributed_to := dt\<rparr>) x ow \<longleftrightarrow> distributed sr1 x ow \<or> x = dist_key_id d \<and> ow \<in> set ows))
    \<and> (\<forall>y \<in> set (pp_deliveries remote). delivery_owner_pubkey y \<in> set ows \<and> sendable m1 y)
    \<and> (ows \<noteq> [] \<longrightarrow> is_ok (encode_pairwise_command pc (encode_context m1 now) (SenderKeyDistributionCommand d)))
    \<and> pp_sender_key_messages remote = [] \<and> quiet m1 m3 \<and> gm_local_owner_pubkey g3 = ow
    \<and> (pp_deliveries remote \<noteq> [] \<longrightarrow>
      (\<exists>st1 st2. fanout_payload cr pc now ows (SenderKeyDistributionCommand d) st1 = (Inr remote, st2)))"
  proof (cases "ows = []")
    case True
    then show ?thesis
      using assms by (auto simp: prepared_publish_empty_def intro!: exI [of _ "distributed_to sr1"] exI [of _ "repair_snapshots sr1"])
  next
    case False
    then have f: "fanout_sender_key_distribution cr pc now ows d (g2, m1, rng2, draw1) = (Inr remote, g3, m3, ctx3)"
      using assms(1) by simp
    have "steady (g2, m1, rng2, draw1) (g3, m3, ctx3)"
      using fanout_sender_key_distribution_steady [of "(g2, m1, rng2, draw1)" cr pc now ows d] f by simp
    moreover have "\<exists>st1 st2. fanout_payload cr pc now ows (SenderKeyDistributionCommand d) st1 = (Inr remote, st2)"
      using f unfolding fanout_sender_key_distribution_def
      by (auto simp: result_simps on_sessions_def split: prod.splits) blast
    moreover have "is_ok (encode_pairwise_command pc (encode_context m1 now) (SenderKeyDistributionCommand d))
        \<and> pp_sender_key_messages remote = []"
      using f fanout_each_no_messages
      unfolding fanout_sender_key_distribution_def fanout_payload_def
      by (auto simp: result_simps on_sessions_def is_ok_iff split: prod.splits)
    ultimately show ?thesis
      using fanout_distribution_spec [OF f, of sr1] sr1 ids by (auto simp: steady_def)
  qed
  then show "\<exists>dt snaps. bt_get (sender_keys g3) (gid, ow, k) = Some (sr1\<lparr>distributed_to := dt, repair_snapshots := snaps\<rparr>)
      \<and> (\<forall>x ow. distributed (sr1\<lparr>distributed_to := dt\<rparr>) x ow \<longleftrightarrow> distributed sr1 x ow \<or> x = dist_key_id d \<and> ow \<in> set ows)"
    and "\<forall>y \<in> set (pp_deliveries remote). delivery_owner_pubkey y \<in> set ows \<and> sendable m1 y"
    and "ows \<noteq> [] \<longrightarrow> is_ok (encode_pairwise_command pc (encode_context m1 now) (SenderKeyDistributionCommand d))"
    and "pp_sender_key_messages remote = []" "quiet m1 m3" "gm_local_owner_pubkey g3 = ow"
    and "pp_deliveries remote \<noteq> [] \<longrightarrow>
      (\<exists>st1 st2. fanout_payload cr pc now ows (SenderKeyDistributionCommand d) st1 = (Inr remote, st2))"
    by blast+
qed

lemma send_spec:
  assumes inv: "group_inv g" and send: "send_sender_key_message cr pc now r body (g, m, rng, draw) = (Inr out, g', st')"
  defines "k \<equiv> local_device_pubkey m"
  shows "\<exists>x sr. key_choice g r k rng x \<and> sent_under cr pc m now r body x
    \<and> pp_sender_key_messages (ps_remote out) = [sent_envelope x]
    \<and> (\<forall>y \<in> set (pp_deliveries (ps_remote out)). delivery_owner_pubkey y \<in> set (sent_to x) \<and> sendable m y)
    \<and> (pp_deliveries (ps_remote out) \<noteq> [] \<longrightarrow> (\<exists>p st1 st2. pp_deliveries p = pp_deliveries (ps_remote out)
         \<and> fanout_payload cr pc now (sent_to x) (SenderKeyDistributionCommand (sent_distribution x)) st1 = (Inr p, st2)))
    \<and> bt_get (sender_keys g') (local_id g (group_id r) k) = Some sr
    \<and> latest_key_id sr = Some (dist_key_id (sent_distribution x))
    \<and> (\<forall>kid ow. distributed sr kid ow \<longleftrightarrow> distributed (sent_record x) kid ow
         \<or> kid = dist_key_id (sent_distribution x) \<and> ow \<in> set (sent_to x))"
proof -
  let ?i = "local_id g (group_id r) k"
  obtain ls m1 rng1 draw1 d c g2 rng2 remote g3 m3 ctx3 sib g4 m4 rng4 draw4 e where
    1: "local_sibling_sync cr pc now r (m, rng, draw) = (Inr ls, m1, rng1, draw1)" and
    2: "ensure_local_sender_key_record cr now r (local_device_pubkey m1)
          (local_sender_key_has_removed_recipients g r (local_device_pubkey m1)) (g, rng1) = (Inr (d, c), g2, rng2)" and
    3: "(if sender_key_distribution_recipients g2 r (local_device_pubkey m1) (dist_key_id d)
            (remote_members r (gm_local_owner_pubkey g2)) \<noteq> []
         then fanout_sender_key_distribution cr pc now
           (sender_key_distribution_recipients g2 r (local_device_pubkey m1) (dist_key_id d)
              (remote_members r (gm_local_owner_pubkey g2))) d (g2, m1, rng2, draw1)
         else (Inr prepared_publish_empty, g2, m1, rng2, draw1)) = (Inr remote, g3, m3, ctx3)" and
    4: "local_sibling_sender_key_distribution cr pc now d (g3, m3, ctx3) = (Inr sib, g4, m4, rng4, draw4)" and
    5: "encrypt_under_sender_key cr pc now r body (g4, m4, rng4, draw4) = (Inr e, g', st')" and
    6: "ps_remote out = push_message e remote"
    using send by (rule send_steps)
  have q1: "quiet m m1" using local_sibling_sync_quiet [of "(m, rng, draw)" cr pc now r] 1 by simp
  have dev1: "local_device_pubkey m1 = k" using quiet_device [OF q1] by (simp add: k_def)
  have rng: "set rng1 \<subseteq> set rng" using local_sibling_sync_rng [of cr pc now r "(m, rng, draw)"] 1 set_mono_suffix by fastforce
  have own2: "gm_local_owner_pubkey g2 = gm_local_owner_pubkey g" using ensure_local_groups [OF 2] by simp
  note es = ensure_local_spec [OF inv 2 [unfolded dev1]]
  obtain sr1 where sr1: "bt_get (sender_keys g2) ?i = Some sr1" "announces sr1 d" "sender_ok ?i sr1"
    and was: "case bt_get (sender_keys g) ?i of
         None \<Rightarrow> distributed_to sr1 = bt_empty \<and> (\<exists>b \<in> set rng1. dist_key_id d = block_u32 b)
           \<and> sender_event_secret_key sr1 \<noteq> None
       | Some sr \<Rightarrow> distributed_to sr1 = distributed_to sr \<and> sender_event_pubkey sr1 = sender_event_pubkey sr
           \<and> sender_event_secret_key sr1 = sender_event_secret_key sr
           \<and> (local_sender_key_has_removed_recipients g r k \<or> latest_key_id sr = None \<longrightarrow>
                (\<exists>b \<in> set rng1. dist_key_id d = block_u32 b))
           \<and> (\<forall>kid. \<not> local_sender_key_has_removed_recipients g r k \<longrightarrow> latest_key_id sr = Some kid \<longrightarrow>
                dist_key_id d = kid \<and> states sr1 = states sr)"
    using es by blast
  have gid: "dist_group_id d = group_id r" using sr1(2,3) by (auto simp: announces_def sender_ok_def sender_key_record_id_def)
  define ows where "ows = filter (\<lambda>ow. bt_contains_key (members r) ow \<and> \<not> distributed sr1 (dist_key_id d) ow)
       (remote_members r (gm_local_owner_pubkey g))"
  have ows: "sender_key_distribution_recipients g2 r k (dist_key_id d) (remote_members r (gm_local_owner_pubkey g2)) = ows"
    unfolding sender_key_distribution_recipients_def own2 sr1(1) option.case ows_def
    by (cases "bt_get (distributed_to sr1) (dist_key_id d)") (auto simp: distributed_def intro!: filter_cong)
  have shared: "\<exists>dt snaps. bt_get (sender_keys g3) ?i = Some (sr1\<lparr>distributed_to := dt, repair_snapshots := snaps\<rparr>)
    \<and> (\<forall>x ow. distributed (sr1\<lparr>distributed_to := dt\<rparr>) x ow \<longleftrightarrow> distributed sr1 x ow \<or> x = dist_key_id d \<and> ow \<in> set ows)"
    and dels: "\<forall>y \<in> set (pp_deliveries remote). delivery_owner_pubkey y \<in> set ows \<and> sendable m1 y"
    and enc: "ows \<noteq> [] \<longrightarrow> is_ok (encode_pairwise_command pc (encode_context m now) (SenderKeyDistributionCommand d))"
    and none: "pp_sender_key_messages remote = []" and q3: "quiet m1 m3"
    and own3: "gm_local_owner_pubkey g3 = gm_local_owner_pubkey g"
    and carried: "pp_deliveries remote \<noteq> [] \<longrightarrow>
      (\<exists>st1 st2. fanout_payload cr pc now ows (SenderKeyDistributionCommand d) st1 = (Inr remote, st2))"
    using share_spec [OF 3 [unfolded dev1 ows] sr1(1) gid dev1 own2 [symmetric]] q1
    by (auto simp: encode_context_def quiet_device k_def)
  obtain dt snaps where sr3: "bt_get (sender_keys g3) ?i = Some (sr1\<lparr>distributed_to := dt, repair_snapshots := snaps\<rparr>)"
    and dt: "\<forall>x ow. distributed (sr1\<lparr>distributed_to := dt\<rparr>) x ow \<longleftrightarrow> distributed sr1 x ow \<or> x = dist_key_id d \<and> ow \<in> set ows"
    using shared by blast
  have dev3: "local_device_pubkey m3 = k" using quiet_device [OF q3] dev1 by simp
  have st4: "steady (g3, m3, ctx3) (g4, m4, rng4, draw4)"
    using local_sibling_distribution_steady [of "(g3, m3, ctx3)" cr pc now d] 4 by simp
  then have dev4: "local_device_pubkey m4 = k" and own4: "gm_local_owner_pubkey g4 = gm_local_owner_pubkey g"
    using quiet_device [of m3 m4] dev3 own3 by (simp_all add: steady_def)
  have id3: "local_id g3 (dist_group_id d) (local_device_pubkey m3) = ?i" by (simp add: gid dev3 own3)
  obtain snaps4 where sr4: "bt_get (sender_keys g4) ?i = Some (sr1\<lparr>distributed_to := dt, repair_snapshots := snaps4\<rparr>)"
    using local_sibling_distribution_spec [OF 4, unfolded id3, OF sr3] by auto
  have id4: "local_id g4 (group_id r) (local_device_pubkey m4) = ?i" by (simp add: dev4 own4)
  have ctx4: "encode_context m4 now = encode_context m now" by (simp add: encode_context_def dev4 k_def)
  from encrypt_spec [OF 5, unfolded id4 ctx4, OF sr4] sr1(2) obtain s pt plan secret where
    s: "bt_get (states sr1) (dist_key_id d) = Some s" and kid: "ske_key_id e = dist_key_id d"
    and pt: "encode_sender_key_plaintext pc (encode_context m now)
        \<lparr>pt_group_id = group_id r, pt_revision = revision r, pt_body = body\<rparr> = Inr pt"
    and plan: "plan_encrypt cr draw4 s pt = Inr plan"
    and e: "e = \<lparr>ske_group_id = group_id r, ske_sender_event_pubkey = sender_event_pubkey sr1, ske_signer_secret_key = secret,
           ske_key_id = dist_key_id d, ske_message_number = encrypt_message_number plan, ske_encrypted_header = None,
           ske_created_at = now, ske_ciphertext = encrypt_ciphertext plan\<rparr>"
    and g': "bt_get (sender_keys g') ?i = Some (sr1\<lparr>distributed_to := dt, repair_snapshots := snaps4,
        states := bt_insert (dist_key_id d) (encrypt_next_state plan) (states sr1)\<rparr>)"
    by (auto simp: announces_def)
  define x where "x = \<lparr>sent_distribution = d, sent_record = sr1, sent_to = ows, sent_state = s, sent_plan = plan,
    sent_envelope = e\<rparr>"
  have "key_choice g r k rng x"
    using sr1 was rng by (auto simp: key_choice_def x_def ows_def Let_def split: option.splits)
  moreover have "sent_under cr pc m now r body x"
    using s pt plan e enc by (auto simp: sent_under_def x_def)
  moreover have "pp_deliveries (ps_remote out) \<noteq> [] \<longrightarrow> (\<exists>p st1 st2. pp_deliveries p = pp_deliveries (ps_remote out)
      \<and> fanout_payload cr pc now (sent_to x) (SenderKeyDistributionCommand (sent_distribution x)) st1 = (Inr p, st2))"
    using carried 6 unfolding x_def by (intro impI exI [of _ remote]) (auto simp: push_message_def)
  ultimately show ?thesis
    using g' dt sr1(2) dels none 6 sendable_quiet [OF q1]
    by (intro exI [of _ x] exI conjI) (auto simp: x_def push_message_def distributed_def announces_def)
qed

section \<open>With whom a key is shared\<close>

lemma has_removed_iff:
  "local_sender_key_has_removed_recipients g r k \<longleftrightarrow>
     (\<exists>sr kid ow. bt_get (sender_keys g) (local_id g (group_id r) k) = Some sr \<and> latest_key_id sr = Some kid
        \<and> distributed sr kid ow \<and> \<not> bt_contains_key (members r) ow)"
  unfolding local_sender_key_has_removed_recipients_def distributed_def
  by (cases "bt_get (sender_keys g) (local_id g (group_id r) k)")
     (auto simp: list_ex_iff keys_contains elim!: is_some_and.elims)

lemma key_choice_members:
  assumes "key_choice g r k rng x" "distributed (sent_record x) (dist_key_id (sent_distribution x)) ow"
    and fresh: "\<And>sr b. bt_get (sender_keys g) (local_id g (group_id r) k) = Some sr \<Longrightarrow> b \<in> set rng \<Longrightarrow>
      bt_get (distributed_to sr) (block_u32 b) = None"
  shows "bt_contains_key (members r) ow"
proof (cases "bt_get (sender_keys g) (local_id g (group_id r) k)")
  case None
  then show ?thesis using assms(1,2) by (simp add: key_choice_def distributed_def Let_def)
next
  case (Some sr)
  then have old: "distributed sr (dist_key_id (sent_distribution x)) ow"
    using assms(1,2) by (simp add: key_choice_def distributed_def Let_def)
  show ?thesis
  proof (cases "local_sender_key_has_removed_recipients g r k \<or> latest_key_id sr = None")
    case True
    then obtain b where "b \<in> set rng" "dist_key_id (sent_distribution x) = block_u32 b"
      using assms(1) Some by (auto simp: key_choice_def Let_def)
    then show ?thesis using old fresh [OF Some] by (simp add: distributed_def)
  next
    case False
    then have "latest_key_id sr = Some (dist_key_id (sent_distribution x))"
      using assms(1) Some by (auto simp: key_choice_def Let_def)
    then show ?thesis using False old Some unfolding has_removed_iff by blast
  qed
qed

lemma remote_members_iff: "ow \<in> set (remote_members r local) \<longleftrightarrow> ow \<noteq> local \<and> bt_contains_key (members r) ow"
  by (auto simp: remote_members_def keys_contains)

lemma send_message_sender_key:
  assumes "gm_send_message cr pc now gid body (g, m, rng, draw) = (Inr out, g', st')"
    and "bt_get (groups g) gid = Some r" "is_sender_key_v1 (protocol r)"
  shows "send_sender_key_message cr pc now r body (g, m, rng, draw) = (Inr out, g', st')"
  using assms by (auto simp: gm_send_message_def group_record_def result_simps Let_def)


section \<open>Delivery to the members\<close>

text \<open>The message as it is read back from a published envelope, without the secret that signs it.\<close>

definition published :: "GroupSenderKeyMessageEnvelope \<Rightarrow> GroupSenderKeyMessage" where
  "published e = \<lparr>skm_group_id = ske_group_id e, skm_sender_event_pubkey = ske_sender_event_pubkey e,
     skm_key_id = ske_key_id e, skm_message_number = ske_message_number e,
     skm_encrypted_header = ske_encrypted_header e, skm_created_at = ske_created_at e,
     skm_ciphertext = ske_ciphertext e\<rparr>"

text \<open>What the payload codec promises.\<close>

definition codec_roundtrip :: "GroupPayloadCodec \<Rightarrow> bool" where
  "codec_roundtrip pc \<longleftrightarrow>
     (\<forall>c command bs. encode_pairwise_command pc c command = Inr bs \<longrightarrow> decode_pairwise_command pc bs = Inr (Some command))
     \<and> (\<forall>c p bs c'. encode_sender_key_plaintext pc c p = Inr bs \<longrightarrow> dec_group_id c' = pt_group_id p \<longrightarrow>
          dec_current_revision c' = pt_revision p \<longrightarrow> decode_sender_key_plaintext pc c' bs = Inr (Some p))"

text \<open>A receiving state some steps behind on the same chain.\<close>

definition behind_on_chain :: "'x crypto_scheme \<Rightarrow> SenderKeyState \<Rightarrow> SenderKeyState \<Rightarrow> bool" where
  "behind_on_chain cr sb s \<longleftrightarrow> key_id sb = key_id s \<and> iteration sb \<le> iteration s
     \<and> unat (iteration s) \<le> unat (iteration sb) + SENDER_KEY_MAX_SKIP
     \<and> chain_at (derive_message_key cr) (unat (iteration s) - unat (iteration sb)) (chain_key sb) = chain_key s"

lemma decrypt_behind:
  assumes "v2_roundtrip cr" "behind_on_chain cr sb s" "plan_encrypt cr draw s pt = Inr plan"
  shows "\<exists>p. plan_decrypt cr sb \<lparr>content_key_id = key_id s, content_message_number = encrypt_message_number plan,
    content_ciphertext = encrypt_ciphertext plan\<rparr> = Inr p \<and> decrypt_plaintext p = pt"
proof -
  obtain next' where p: "encrypt_message_number plan = iteration s" "checked_add (iteration s) 1 = Some next'"
    "v2_encrypt cr draw (snd (derive_message_key cr (chain_key s))) pt = Inr (encrypt_ciphertext plan)"
    using assms(3) by (auto simp: plan_encrypt_def Let_def result_simps split: prod.splits)
  then have "v2_decrypt cr (snd (derive_message_key cr (chain_key s))) (encrypt_ciphertext plan) = Inr pt"
    using assms(1) by (auto simp: v2_roundtrip_def)
  moreover have "key_at (derive_message_key cr) (unat (iteration s) - unat (iteration sb)) (chain_key sb)
      = snd (derive_message_key cr (chain_key s))"
    using assms(2) by (simp add: key_at_def behind_on_chain_def)
  ultimately show ?thesis
    using assms(2) p decrypt_in_place_ahead [of sb "iteration s" cr "encrypt_ciphertext plan"]
    by (auto simp: plan_decrypt_def behind_on_chain_def decrypt_with_message_key_def Let_def)
qed

end
