(* ===== verification/Group_Delivery.thy ===== *)
theory Group_Delivery
  imports Group_Secrecy
begin

text \<open>
  From the sender's call to the receivers' events: a member that is handed the distribution of a key, or
  that follows its chain, reads the messages sent under it.
\<close>

section \<open>Receiving\<close>

lemma plan_encrypt_number: "plan_encrypt cr draw s pt = Inr plan \<Longrightarrow> encrypt_message_number plan = iteration s"
  by (auto simp: plan_encrypt_def Let_def result_simps split: prod.splits)

definition received_event :: "string \<Rightarrow> OwnerPubkey \<Rightarrow> DevicePubkey \<Rightarrow> bytes \<Rightarrow> u64 \<Rightarrow> GroupSenderKeyHandleResult" where
  "received_event gid owner device body rev_no =
     GroupEvent (GroupMessageEvent \<lparr>grm_group_id = gid, grm_sender_owner = owner, grm_sender_device = Some device,
       grm_body = body, grm_revision = rev_no\<rparr>)"

text \<open>A manager that can check and place a message of a member's device.\<close>

definition listens ::
  "GroupManager \<Rightarrow> string \<Rightarrow> u64 \<Rightarrow> OwnerPubkey \<Rightarrow> bool" where
  "listens b gid rev_no owner \<longleftrightarrow> (\<exists>rb. bt_get (groups b) gid = Some rb \<and> protocol rb = sender_key_v1
     \<and> revision rb = rev_no \<and> bt_contains_key (members rb) owner)"

definition holds_key ::
  "GroupManager \<Rightarrow> SenderKeyRecordId \<Rightarrow> SenderEventPubkey \<Rightarrow> SenderKeyState \<Rightarrow> bool" where
  "holds_key b i author sb \<longleftrightarrow> (\<exists>srb. bt_get (sender_keys b) i = Some srb \<and> sender_event_pubkey srb = author
     \<and> sender_event_secret_key srb = None \<and> bt_get (states srb) (key_id sb) = Some sb)"

lemma handle_on_chain:
  assumes inv: "group_inv b" and listens: "listens b gid rev_no owner"
    and holds: "holds_key b (gid, owner, device) (skm_sender_event_pubkey msg) sb"
    and msg: "skm_group_id msg = gid" "skm_key_id msg = key_id sb" "skm_encrypted_header msg = None"
    and plan: "plan_decrypt cr sb \<lparr>content_key_id = key_id sb, content_message_number = skm_message_number msg,
      content_ciphertext = skm_ciphertext msg\<rparr> = Inr p"
    and dec: "decode_sender_key_plaintext pc \<lparr>dec_group_id = gid, dec_current_revision = rev_no\<rparr> (decrypt_plaintext p)
      = Inr (Some \<lparr>pt_group_id = gid, pt_revision = rev_no, pt_body = body\<rparr>)"
  shows "\<exists>b'. handle_sender_key_message cr pc msg b = (Inr (received_event gid owner device body rev_no), b')"
proof -
  let ?i = "(gid, owner, device)" and ?a = "skm_sender_event_pubkey msg"
  obtain rb where rb: "bt_get (groups b) gid = Some rb" "protocol rb = sender_key_v1" "revision rb = rev_no"
    "bt_contains_key (members rb) owner"
    using listens by (auto simp: listens_def)
  obtain srb where srb: "bt_get (sender_keys b) ?i = Some srb" "sender_event_pubkey srb = ?a"
    "sender_event_secret_key srb = None" "bt_get (states srb) (key_id sb) = Some sb"
    using holds by (auto simp: holds_key_def)
  have idx: "bt_get (sender_event_index b) ?a = Some ?i"
    using indexes_iff [OF group_invD(3) [OF inv], of ?a ?i] srb by blast
  have gid: "group_id rb = gid" using group_invD(1) [OF inv rb(1)] by (simp add: group_ok_def)
  let ?mut = "\<lparr>mut_identity = ?i, mut_author = ?a, mut_expected = sb, mut_next = decrypt_next_state p,
     mut_revision = rev_no, mut_local_member = bt_contains_key (members rb) (gm_local_owner_pubkey b)\<rparr>"
  have "plan_numbered cr pc b rb ?i msg =
    Inr (Some \<lparr>plan_result = received_event gid owner device body rev_no, plan_mutation = Some ?mut\<rparr>)"
    using srb plan dec rb gid msg by (simp add: plan_numbered_def plan_plaintext_def received_event_def Let_def)
  then have "plan_sender_key_message_with_budget cr pc b msg st =
    (Inr (Some \<lparr>plan_result = received_event gid owner device body rev_no, plan_mutation = Some ?mut\<rparr>), None, snd st)" for st
    using idx msg srb rb
    by (simp add: plan_sender_key_message_with_budget_def plan_sender_key_message_step_def is_sender_key_v1_def
        case_prod_beta Let_def)
  moreover have "\<exists>b'. apply_sender_key_receive_plan
      \<lparr>plan_result = received_event gid owner device body rev_no, plan_mutation = Some ?mut\<rparr> b =
      (Inr (received_event gid owner device body rev_no), b')"
    using idx rb srb by (simp add: apply_sender_key_receive_plan_def is_sender_key_v1_def)
  ultimately show ?thesis
    by (auto simp: handle_sender_key_message_def handle_sender_key_message_with_budget_def)
qed

section \<open>Learning a key\<close>

text \<open>A receiver for which the stream and the key are new, and the sender's device is not its own.\<close>

definition awaits_key ::
  "GroupManager \<Rightarrow> SenderKeyRecordId \<Rightarrow> SenderKeyDistribution \<Rightarrow> bool" where
  "awaits_key b i d \<longleftrightarrow> bt_get (sender_event_index b) (dist_sender_event_pubkey d) \<in> {None, Some i}
     \<and> (\<forall>srb. bt_get (sender_keys b) i = Some srb \<longrightarrow>
          sender_event_secret_key srb = None \<and> bt_get (states srb) (dist_key_id d) = None)"

lemma learn_key:
  assumes "awaits_key b i d" "sb = sender_key_new (dist_key_id d) (dist_chain_key d) (dist_iteration d)"
  shows "holds_key (learn_sender_key i d b) i (dist_sender_event_pubkey d) sb"
  using assms
  by (cases "bt_get (sender_keys b) i")
     (auto simp: holds_key_def learn_sender_key_def awaits_key_def Let_def or_insert_def sender_key_record_new_def
       sender_key_new_def contains_iff)

lemma handle_distribution_learns:
  assumes "listens b gid rev_no owner" "awaits_key b (gid, owner, device) d" "dist_group_id d = gid"
    and "decode_pairwise_command pc payload = Inr (Some (SenderKeyDistributionCommand d))"
  shows "\<exists>ev. handle_pairwise_payload cr pc owner device payload b =
    (Inr (Some ev), learn_sender_key (gid, owner, device) d b)"
proof -
  have "displaced b (gid, owner, device) d = None"
    using assms(2) by (auto simp: displaced_def awaits_key_def)
  then show ?thesis
    using assms
    by (auto simp: handle_pairwise_payload_def handle_pairwise_payload_inner_def handle_command_def handle_distribution_def
        observe_sender_key_distribution_def group_record_def listens_def is_sender_key_v1_def ensure_member_def)
qed

text \<open>A message of a chain: what is sealed at the position of a sender key state.\<close>

definition carries ::
  "'x invite_crypto_scheme \<Rightarrow> GroupPayloadCodec \<Rightarrow> GroupPayloadEncodeContext \<Rightarrow> string \<Rightarrow> u64 \<Rightarrow> bytes \<Rightarrow> SenderKeyState \<Rightarrow>
   GroupSenderKeyMessageEnvelope \<Rightarrow> bool" where
  "carries cr pc c gid rev_no body s e \<longleftrightarrow> (\<exists>pt dr plan.
     encode_sender_key_plaintext pc c \<lparr>pt_group_id = gid, pt_revision = rev_no, pt_body = body\<rparr> = Inr pt
     \<and> plan_encrypt cr dr s pt = Inr plan \<and> ske_group_id e = gid \<and> ske_key_id e = key_id s \<and> ske_encrypted_header e = None
     \<and> ske_message_number e = encrypt_message_number plan \<and> ske_ciphertext e = encrypt_ciphertext plan)"

lemma chain_follower_reads:
  assumes crates: "v2_roundtrip cr" "codec_roundtrip pc" and e: "carries cr pc c gid rev_no body s e"
    and b: "group_inv b" "listens b gid rev_no owner" "holds_key b (gid, owner, device) (ske_sender_event_pubkey e) sb"
      "behind_on_chain cr sb s"
  shows "\<exists>b2. handle_sender_key_message cr pc (published e) b = (Inr (received_event gid owner device body rev_no), b2)"
proof -
  obtain pt dr plan where pt: "encode_sender_key_plaintext pc c \<lparr>pt_group_id = gid, pt_revision = rev_no, pt_body = body\<rparr> = Inr pt"
      "plan_encrypt cr dr s pt = Inr plan" and env: "ske_group_id e = gid" "ske_key_id e = key_id s"
      "ske_encrypted_header e = None" "ske_message_number e = encrypt_message_number plan"
      "ske_ciphertext e = encrypt_ciphertext plan"
    using e unfolding carries_def by blast
  obtain p where "plan_decrypt cr sb \<lparr>content_key_id = key_id s, content_message_number = ske_message_number e,
      content_ciphertext = ske_ciphertext e\<rparr> = Inr p" "decrypt_plaintext p = pt"
    using decrypt_behind [OF crates(1) b(4) pt(2)] env by auto
  moreover have "decode_sender_key_plaintext pc \<lparr>dec_group_id = gid, dec_current_revision = rev_no\<rparr> pt
      = Inr (Some \<lparr>pt_group_id = gid, pt_revision = rev_no, pt_body = body\<rparr>)"
    using crates(2) pt(1) by (auto simp: codec_roundtrip_def)
  ultimately show ?thesis
    using handle_on_chain [OF b(1,2), of device "published e" sb cr p pc body] b(3,4) env
    by (auto simp: published_def behind_on_chain_def)
qed

lemma key_learner_reads:
  assumes crates: "v2_roundtrip cr" "codec_roundtrip pc" and e: "carries cr pc c gid rev_no body s e"
    and d: "dist_group_id d = gid" "dist_key_id d = key_id s" "dist_sender_event_pubkey d = ske_sender_event_pubkey e"
      "dist_chain_key d = chain_key s" "dist_iteration d = iteration s"
    and b: "group_inv b" "listens b gid rev_no owner" "awaits_key b (gid, owner, device) d"
      "encode_pairwise_command pc c' (SenderKeyDistributionCommand d) = Inr payload"
  shows "\<exists>ev b1 b2. handle_pairwise_payload cr pc owner device payload b = (Inr (Some ev), b1)
    \<and> handle_sender_key_message cr pc (published e) b1 = (Inr (received_event gid owner device body rev_no), b2)"
proof -
  let ?b = "learn_sender_key (gid, owner, device) d b" and ?sb = "sender_key_new (dist_key_id d) (dist_chain_key d) (dist_iteration d)"
  have "decode_pairwise_command pc payload = Inr (Some (SenderKeyDistributionCommand d))"
    using crates(2) b(4) by (auto simp: codec_roundtrip_def)
  then obtain ev where h: "handle_pairwise_payload cr pc owner device payload b = (Inr (Some ev), ?b)"
    using handle_distribution_learns [OF b(2,3) d(1), of pc payload cr] by blast
  have "group_inv ?b" using handle_payload_inv [OF b(1)] h by (auto simp: handle_pairwise_payload_def)
  moreover have "listens ?b gid rev_no owner" using b(2) by (simp add: listens_def)
  moreover have "holds_key ?b (gid, owner, device) (ske_sender_event_pubkey e) ?sb" using learn_key [OF b(3) refl] d(3) by simp
  moreover have "behind_on_chain cr ?sb s" using d by (auto simp: behind_on_chain_def sender_key_new_def)
  ultimately show ?thesis using chain_follower_reads [OF crates e] h by blast
qed


end
