(* ===== verification/Group_Demo.thy ===== *)
theory Group_Demo
  imports Group_Delivery
begin

text \<open>
  A concrete run of two group managers on the demonstration crates, and a small codec for it: one owner
  creates a group with a second owner, sends a message and renames the group, and the other one follows.
  The properties of the group manager are applied to this run.
\<close>

section \<open>A codec\<close>

definition encode_distribution :: "SenderKeyDistribution \<Rightarrow> bytes" where
  "encode_distribution d = string_bytes (code_text (dist_group_id d) @ unary (unat (dist_key_id d))
     @ code_str (device_bytes (dist_sender_event_pubkey d)) @ code_str (dist_chain_key d)
     @ unary (unat (dist_iteration d)) @ unary (unat (dist_created_at d)))"

definition decode_distribution :: "bytes \<Rightarrow> SenderKeyDistribution" where
  "decode_distribution bs =
     (case uncode_text (map byte_char bs) of (gid, r1) \<Rightarrow>
      case read_unary r1 of (kid, r2) \<Rightarrow>
      case uncode r2 of (pk, r3) \<Rightarrow>
      case uncode r3 of (ck, r4) \<Rightarrow>
      case read_unary r4 of (n, r5) \<Rightarrow>
        \<lparr>dist_group_id = gid, dist_key_id = of_nat kid, dist_sender_event_pubkey = DevicePubkey pk,
         dist_chain_key = ck, dist_iteration = of_nat n, dist_created_at = of_nat (fst (read_unary r5))\<rparr>)"

lemma decode_encode_distribution [simp]: "decode_distribution (encode_distribution d) = d"
  using read_unary [of "unat (dist_created_at d)" "[]"]
  by (simp add: decode_distribution_def encode_distribution_def bytes_of_string uncode_code)

definition demo_gid :: string where "demo_gid = hex_encode demo_full [20]"

definition demo_metadata :: GroupSnapshot where
  "demo_metadata = \<lparr>gs_group_id = demo_gid, gs_protocol = sender_key_v1, gs_name = ''g'', gs_picture = None,
     gs_about = None, gs_created_by = OwnerPubkey [1], gs_members = [OwnerPubkey [1], OwnerPubkey [2]],
     gs_admins = [OwnerPubkey [1]], gs_revision = 1, gs_created_at = 100, gs_updated_at = 100\<rparr>"

definition demo_renamed :: GroupSnapshot where
  "demo_renamed = demo_metadata\<lparr>gs_name := ''h'', gs_revision := 2, gs_updated_at := 110\<rparr>"

text \<open>Two metadata snapshots and every distribution have an encoding.\<close>

definition demo_encode :: "GroupPairwiseCommand \<Rightarrow> bytes res" where
  "demo_encode command =
     (case command of
        MetadataSnapshot s \<Rightarrow> if s = demo_metadata then Inr [1] else if s = demo_renamed then Inr [3]
          else Inl (group_error ''no encoding'')
      | SenderKeyDistributionCommand d \<Rightarrow> Inr (2 # encode_distribution d)
      | _ \<Rightarrow> Inl (group_error ''no encoding''))"

definition demo_decode :: "bytes \<Rightarrow> GroupPairwiseCommand option res" where
  "demo_decode bs =
     (if bs = [1] then Inr (Some (MetadataSnapshot demo_metadata))
      else if bs = [3] then Inr (Some (MetadataSnapshot demo_renamed))
      else if bs \<noteq> [] \<and> hd bs = 2 then Inr (Some (SenderKeyDistributionCommand (decode_distribution (tl bs))))
      else Inr None)"

definition demo_codec :: GroupPayloadCodec where
  "demo_codec =
     \<lparr>codec_is_pairwise_payload = (\<lambda>bs. demo_decode bs \<noteq> Inr None),
      encode_pairwise_command = (\<lambda>c. demo_encode), decode_pairwise_command = demo_decode,
      encode_sender_key_plaintext = (\<lambda>c p. Inr (pt_body p)),
      decode_sender_key_plaintext = (\<lambda>c bs. Inr (Some
        \<lparr>pt_group_id = dec_group_id c, pt_revision = dec_current_revision c, pt_body = bs\<rparr>))\<rparr>"

lemma demo_codec_roundtrip: "codec_roundtrip demo_codec"
proof -
  have "demo_decode bs = Inr (Some command)" if "demo_encode command = Inr bs" for command bs
    using that by (auto simp: demo_encode_def demo_decode_def split: GroupPairwiseCommand.splits if_splits)
  then show ?thesis by (auto simp: codec_roundtrip_def demo_codec_def)
qed

section \<open>A run\<close>

definition demo_blocks :: "bytes list" where
  "demo_blocks = map (\<lambda>x. [x]) [20, 21, 22, 23, 24, 25, 26, 27, 28]"

definition demo_created :: gstate where
  "demo_created = run_call demo_full demo_codec 100 (CreateGroup ''g'' [OwnerPubkey [2]] sender_key_v1)
     (group_manager_new (OwnerPubkey [1]), demo_manager, demo_blocks, 0)"

abbreviation "demo_group_manager \<equiv> fst demo_created"
abbreviation "demo_sessions \<equiv> fst (snd demo_created)"

definition demo_group_sent :: "GroupPreparedSend res \<times> gstate" where
  "demo_group_sent = gm_send_message demo_full demo_codec 100 demo_gid [9] (demo_group_manager, demo_sessions, [], 0)"

definition demo_group_peer :: GroupManager where
  "demo_group_peer = snd (handle_pairwise_payload_inner demo_full demo_codec (OwnerPubkey [1]) (Some (DevicePubkey [1])) [1]
     (group_manager_new (OwnerPubkey [2])))"

lemma demo_group_run: "group_manages demo_full demo_codec demo_group_manager"
proof (rule manages_call)
  show "group_manages demo_full demo_codec (group_manager_new (OwnerPubkey [1]))" by (rule manages_new)
  show "draws_fresh demo_full (group_manager_new (OwnerPubkey [1])) demo_blocks" by code_simp
  show "run_call demo_full demo_codec 100 (CreateGroup ''g'' [OwnerPubkey [2]] sender_key_v1)
     (group_manager_new (OwnerPubkey [1]), demo_manager, demo_blocks, 0) = (demo_group_manager, snd demo_created)"
    by (simp only: demo_created_def prod.collapse)
qed

lemma demo_group_peer_run: "group_manages demo_full demo_codec demo_group_peer"
  unfolding demo_group_peer_def by (rule manages_payload [OF manages_new prod.collapse [symmetric]])

lemma demo_group_sent_ok:
  "gm_send_message demo_full demo_codec 100 demo_gid [9] (demo_group_manager, demo_sessions, [], 0) =
     (Inr (projr (fst demo_group_sent)), fst (snd demo_group_sent), snd (snd demo_group_sent))"
proof -
  have "is_ok (fst demo_group_sent)" by code_simp
  then have "demo_group_sent = (Inr (projr (fst demo_group_sent)), snd demo_group_sent)"
    by (metis is_ok_iff prod.collapse sum.sel(2))
  then show ?thesis unfolding demo_group_sent_def by simp
qed

definition demo_group_record :: GroupRecord where
  "demo_group_record = the (bt_get (groups demo_group_manager) demo_gid)"

lemma demo_group_stored:
  "bt_get (groups demo_group_manager) demo_gid = Some demo_group_record"
  "protocol demo_group_record = sender_key_v1" "gm_local_owner_pubkey demo_group_manager = OwnerPubkey [1]"
  "local_device_pubkey demo_sessions = DevicePubkey [1]" "revision demo_group_record = 1"
proof -
  have "bt_get (groups demo_group_manager) demo_gid \<noteq> None" by code_simp
  then show "bt_get (groups demo_group_manager) demo_gid = Some demo_group_record" by (simp add: demo_group_record_def)
qed code_simp+

section \<open>The properties on this run\<close>

theorem group_changed_by_admin_witness:
  "\<exists>s r'. decode_pairwise_command demo_codec [3] = Inr (Some (MetadataSnapshot s))
    \<and> group_record_from_snapshot s = Inr r' \<and> gs_group_id s = demo_gid
    \<and> bt_get (groups (snd (handle_pairwise_payload_inner demo_full demo_codec (OwnerPubkey [1]) None [3] demo_group_peer))) demo_gid = Some r'
    \<and> (case bt_get (groups demo_group_peer) demo_gid of
         Some r \<Rightarrow> protocol r' = protocol r \<and> revision r < revision r'
           \<and> (OwnerPubkey [1] = gm_local_owner_pubkey demo_group_peer \<or> bt_contains_key (admins r) (OwnerPubkey [1]))
       | None \<Rightarrow> bt_contains_key (members r') (gm_local_owner_pubkey demo_group_peer)
           \<and> (OwnerPubkey [1] = gm_local_owner_pubkey demo_group_peer \<or> bt_contains_key (admins r') (OwnerPubkey [1])))"
proof (rule group_changed_by_admin [OF prod.collapse [symmetric]])
  show "bt_get (groups (snd (handle_pairwise_payload_inner demo_full demo_codec (OwnerPubkey [1]) None [3] demo_group_peer))) demo_gid
      \<noteq> bt_get (groups demo_group_peer) demo_gid" by code_simp
qed

theorem group_edited_by_local_admin_witness:
  "\<exists>r'. bt_get (groups (fst (run_call demo_full demo_codec 110 (UpdateName demo_gid ''h'') demo_created))) demo_gid = Some r'
    \<and> bt_contains_key (admins demo_group_record) (gm_local_owner_pubkey demo_group_manager)
    \<and> revision r' = revision demo_group_record + 1 \<and> protocol r' = protocol demo_group_record
    \<and> created_by r' = created_by demo_group_record \<and> updated_at r' = 110"
proof (rule group_edited_by_local_admin [OF demo_group_run _ demo_group_stored(1)])
  let ?rest = "snd (snd demo_created)"
  show "run_call demo_full demo_codec 110 (UpdateName demo_gid ''h'') (demo_group_manager, demo_sessions, fst ?rest, snd ?rest) =
    (fst (run_call demo_full demo_codec 110 (UpdateName demo_gid ''h'') demo_created),
     snd (run_call demo_full demo_codec 110 (UpdateName demo_gid ''h'') demo_created))"
    by (simp only: prod.collapse)
  have "bt_get (groups (fst (run_call demo_full demo_codec 110 (UpdateName demo_gid ''h'') demo_created))) demo_gid
      \<noteq> bt_get (groups demo_group_manager) demo_gid" by code_simp
  then show "bt_get (groups (fst (run_call demo_full demo_codec 110 (UpdateName demo_gid ''h'') demo_created))) demo_gid
      \<noteq> Some demo_group_record" by (simp add: demo_group_stored(1))
  show "\<forall>b \<in> set (fst ?rest). hex_encode demo_full b \<noteq> demo_gid" by code_simp
qed

theorem group_manager_invariant_witness:
  "group_id demo_group_record = demo_gid
    \<and> (\<exists>ow. bt_contains_key (admins demo_group_record) ow \<and> bt_contains_key (members demo_group_record) ow)"
  using group_manager_invariant [OF demo_group_run, of demo_gid demo_group_record] demo_group_stored(1) by blast

theorem group_manager_snapshot_roundtrip_witness:
  "group_manager_from_snapshot (group_manager_snapshot demo_group_manager) = Inr demo_group_manager"
  by (rule group_manager_snapshot_roundtrip [OF demo_group_run])



end
