(* ===== verification/Group_Calls.thy ===== *)
theory Group_Calls
  imports Group_Authority
begin

text \<open>
  What the calls of a group manager are made of. The locale \<open>group_updates\<close> is the contract of a
  relation on states that each of the elementary updates satisfies: sending over the sessions, storing a
  group, making a sender-key record of this device and naming it in the index, moving on its keys, and
  noting to whom a key was given. Then every call satisfies it. The interpretations are on what a call can
  do to the sender keys of other owners, which is nothing, and on who is recorded as a recipient of a key.
\<close>

locale group_updates = step_preorder rel for rel :: "gstate \<Rightarrow> gstate \<Rightarrow> bool" +
  assumes sessions_change: "rel (g, st) (g, st')"
    and group_stored: "rel (g, st) (put_group r g, st)"
    and own_key_opened: "\<not> bt_contains_key (sender_keys g) (local_id g gid k) \<Longrightarrow>
      rel (g, st) (put_sender_key (local_id g gid k) (sender_key_record_new gid (gm_local_owner_pubkey g) k author secret)
        (index_sender author (local_id g gid k) g), st)"
    and own_key_moved: "bt_get (sender_keys g) (local_id g gid k) = Some sr \<Longrightarrow> distributed_to sr' = distributed_to sr \<Longrightarrow>
      repair_snapshots sr' = repair_snapshots sr \<Longrightarrow> rel (g, st) (put_sender_key (local_id g gid k) sr' g, st)"
    and own_key_given: "rel (g, st) (mark_sender_key_distribution_recipients gid k (dist_key_id d) ows
      (record_sender_key_repair_snapshot gid k d ows g), st)"
    and own_key_to_siblings: "rel (g, st) (record_sender_key_repair_snapshot gid k d [gm_local_owner_pubkey g] g, st)"
begin

lemma on_sessions_rel: "rel s (snd (on_sessions f s))"
  by (cases s) (simp add: on_sessions_def case_prod_beta sessions_change)

lemma on_group_rng_rel: "rel s (snd (on_group (on_rng f) s))"
  by (cases s) (simp add: on_group_def on_rng_def case_prod_beta sessions_change)

lemma step_let: "(\<And>v. v = e \<Longrightarrow> rel s (snd (f v))) \<Longrightarrow> rel s (snd (let v = e in f v))"
  by simp

text \<open>The key of this device: perhaps a new record, then its refreshed form.\<close>

lemma open_local_rel:
  assumes "open_local_record cr gid k (g, rng) = (out, g', rng')"
  shows "rel (g, st) (g', st)"
  using assms own_key_opened [of g gid k st] unfolding open_local_record_def
  by (auto simp: on_rng_def Let_def sender_key_record_new_def sender_key_record_id_def rel_refl
      split: if_splits prod.splits elim!: then_do_cases)

lemma refresh_keeps_shares:
  assumes "refresh_local_record now gid force created (sr, rng) = (out, sr', rng')"
  shows "distributed_to sr' = distributed_to sr" "repair_snapshots sr' = repair_snapshots sr"
  using assms unfolding refresh_local_record_def rotate_sender_key_def
  by (auto simp: Let_def on_rng_def split: if_splits prod.splits elim!: then_do_cases)

lemma ensure_local_rel: "rel s (snd (on_group (ensure_local_sender_key_record cr now r k force) s))"
proof -
  obtain g m rng draw where s: "s = (g, m, rng, draw)" by (metis prod_cases4)
  obtain out g1 rng1 where o: "open_local_record cr (group_id r) k (g, rng) = (out, g1, rng1)" by (metis prod_cases3)
  have opened: "rel s (g1, m, rng, draw)" using open_local_rel [OF o] s by simp
  let ?i = "local_id g1 (group_id r) k"
  show ?thesis
  proof (cases "is_ok out \<and> bt_contains_key (sender_keys g1) ?i")
    case True
    then obtain created sr where out: "out = Inr created" and sr: "bt_get (sender_keys g1) ?i = Some sr"
      by (cases out) (auto simp: contains_iff)
    obtain out' sr' rng' where f: "refresh_local_record now (group_id r) force created (sr, rng1) = (out', sr', rng')"
      by (metis prod_cases3)
    have "rel (g1, m, rng, draw) (put_sender_key ?i sr' g1, m, rng', draw)"
      using rel_trans [OF own_key_moved [OF sr refresh_keeps_shares [OF f]] sessions_change] .
    then show ?thesis
      using opened by (auto simp: on_group_def s ensure_local_sender_key_record_def o out sr f intro: rel_trans)
  next
    case False
    moreover have "rel (g1, m, rng, draw) (g1, m, rng', draw)" for rng' by (rule sessions_change)
    ultimately show ?thesis
      using opened
      by (cases out) (auto simp: on_group_def s ensure_local_sender_key_record_def o contains_iff intro: rel_trans)
  qed
qed

lemmas steps = step_return step_if step_let step_check on_sessions_rel on_group_rng_rel ensure_local_rel

lemma fanout_sender_key_distribution_rel: "rel s (snd (fanout_sender_key_distribution cr pc now ows d s))"
  unfolding fanout_sender_key_distribution_def
  by (intro step_then_do steps)
     (auto simp: case_prod_beta intro: own_key_given split: prod.splits)

lemma local_sibling_distribution_rel: "rel s (snd (local_sibling_sender_key_distribution cr pc now d s))"
  unfolding local_sibling_sender_key_distribution_def
  by (intro step_then_do steps) (auto simp: case_prod_beta rel_refl intro: own_key_to_siblings split: prod.splits)

lemma encrypt_rel: "rel s (snd (encrypt_under_sender_key cr pc now r body s))"
proof -
  obtain g m rng draw where s: "s = (g, m, rng, draw)" by (metis prod_cases4)
  have "rel (g, m, rng, draw) (put_sender_key (local_id g gid k) (sr\<lparr>states := sts\<rparr>) g, m, rng, n)"
    if "bt_get (sender_keys g) (local_id g gid k) = Some sr" for gid k sr sts n
    by (rule rel_trans [OF own_key_moved [OF that] sessions_change]) simp_all
  then show ?thesis
    by (auto simp: s encrypt_under_sender_key_def Let_def result_simps sessions_change split: sum.splits)
qed

lemma send_sender_key_rel: "rel s (snd (send_sender_key_message cr pc now r body s))"
  unfolding send_sender_key_message_def case_prod_beta
  by (intro step_then_do steps fanout_sender_key_distribution_rel local_sibling_distribution_rel encrypt_rel)

lemma distribute_rel: "rel s (snd (distribute_sender_key cr pc now force r prepared s))"
  unfolding distribute_sender_key_def case_prod_beta
  by (intro step_then_do steps fanout_sender_key_distribution_rel local_sibling_distribution_rel)

lemma publish_rel: "rel s (snd (publish_metadata cr pc now ows r s))"
  unfolding publish_metadata_def by (intro step_then_do steps)

lemma bootstrap_rel: "rel s (snd (bootstrap_if_needed cr pc now r prepared s))"
  unfolding bootstrap_if_needed_def prepare_sender_key_bootstrap_def by (intro steps distribute_rel)

lemma rotation_rel: "rel s (snd (if b then prepare_sender_key_rotation cr pc now r prepared s else (Inr prepared, s)))"
  unfolding prepare_sender_key_rotation_def by (intro steps distribute_rel)

lemma store_rel: "rel s (snd (case s of (g, st) \<Rightarrow> (out, put_group r g, st)))"
  by (cases s) (simp add: group_stored)

lemma repair_all_rel: "rel s (snd (repair_all cr pc now ow cs prepared s))"
proof (induction cs arbitrary: prepared s)
  case (Cons c cs)
  have "rel s (snd (repair_payload_to_owner cr pc now ow c s))" for s
    unfolding repair_payload_to_owner_def by (intro step_then_do steps)
  with Cons show ?case unfolding repair_all.simps by (intro step_then_do)
qed (simp add: rel_refl)

lemmas calls = step_then_do steps publish_rel bootstrap_rel rotation_rel store_rel send_sender_key_rel

lemma update_metadata_rel: "rel s (snd (update_metadata_with cr pc now gid apply_edit s))"
  unfolding update_metadata_with_def by (intro calls)

lemma editing_calls_rel:
  "rel s (snd (create_group_with_protocol cr pc now n ows p s))"
  "rel s (snd (add_members cr pc now gid ows s))"
  "rel s (snd (remove_members cr pc now gid ows s))"
  "rel s (snd (add_admins cr pc now gid ows s))"
  "rel s (snd (remove_admins cr pc now gid ows s))"
  unfolding create_group_with_protocol_def add_members_def remove_members_def add_admins_def remove_admins_def
  by (intro calls update_metadata_rel)+

lemma other_calls_rel:
  "rel s (snd (retry_create_group cr pc now gid ows s))"
  "rel s (snd (retry_update_name cr pc now gid s))"
  "rel s (snd (retry_add_members cr pc now gid ows s))"
  "rel s (snd (retry_remove_members cr pc now gid ows s))"
  "rel s (snd (request_sender_key_repair cr pc now q s))"
  "rel s (snd (sync_group_to_local_siblings cr pc now gid s))"
  "rel s (snd (gm_send_message cr pc now gid body s))"
  unfolding retry_create_group_def retry_update_name_def retry_add_members_def retry_remove_members_def
    request_sender_key_repair_def sync_group_to_local_siblings_def gm_send_message_def
  by (intro calls)+

lemma respond_rel: "rel s (snd (respond_to_sender_key_repair_request cr pc now ow q s))"
  unfolding respond_to_sender_key_repair_request_def
  by (intro step_option steps) (simp add: Let_def case_prod_beta repair_all_rel)

lemma run_call_rel: "rel s (run_call cr pc now call s)"
  by (cases call) (simp_all add: editing_calls_rel other_calls_rel respond_rel update_name_def update_picture_def
    update_about_def update_metadata_rel)

end

section \<open>Keys of other owners\<close>

definition others_same :: "gstate \<Rightarrow> gstate \<Rightarrow> bool" where
  "others_same s t \<longleftrightarrow> gm_local_owner_pubkey (fst t) = gm_local_owner_pubkey (fst s)
     \<and> (\<forall>i. id_owner i \<noteq> gm_local_owner_pubkey (fst s) \<longrightarrow> bt_get (sender_keys (fst t)) i = bt_get (sender_keys (fst s)) i)"

lemma bookkeeping_others:
  assumes "id_owner i \<noteq> gm_local_owner_pubkey g"
  shows "bt_get (sender_keys (mark_sender_key_distribution_recipients gid k kid ows g)) i = bt_get (sender_keys g) i"
    and "bt_get (sender_keys (record_sender_key_repair_snapshot gid k d ows g)) i = bt_get (sender_keys g) i"
  using assms
  by (auto simp: mark_sender_key_distribution_recipients_def record_sender_key_repair_snapshot_def Let_def
      put_sender_key_def split: option.splits)

interpretation others: group_updates others_same
  by unfold_locales
     (auto simp: others_same_def put_group_def put_sender_key_def index_sender_def bookkeeping_others)

end
