(* ===== verification/Group_Replay.thy ===== *)
theory Group_Replay
  imports Group_Calls Group_Authority
begin

text \<open>
  What receiving under a sender key promises over time: a message is reported once, the unlimited search
  always decides, and planning in slices gives what planning at once gives.
\<close>

declare split_paired_All [simp del] split_paired_Ex [simp del]

section \<open>Spent message numbers\<close>

definition spent :: "SenderKeyState \<Rightarrow> u32 \<Rightarrow> bool" where
  "spent s n \<longleftrightarrow> n < iteration s \<and> bt_get (skipped_message_keys s) n = None"

definition spent_in :: "GroupManager \<Rightarrow> SenderKeyRecordId \<Rightarrow> u32 \<Rightarrow> u32 \<Rightarrow> bool" where
  "spent_in g i kid n \<longleftrightarrow> (\<exists>r s. bt_get (sender_keys g) i = Some r \<and> bt_get (states r) kid = Some s \<and> spent s n)"

lemma spent_inI: "bt_get (sender_keys g) i = Some r \<Longrightarrow> bt_get (states r) kid = Some s \<Longrightarrow> spent s n \<Longrightarrow> spent_in g i kid n"
  by (auto simp: spent_in_def)

lemma spent_refused: "spent s n \<Longrightarrow> decrypt_in_place cr s n ct = Inl (Decryption ''duplicate or missing sender-key message'')"
  by (simp add: spent_def decrypt_in_place_def)

lemma decrypt_spends: "decrypt_in_place cr s n ct = Inr (s', p) \<Longrightarrow> sender_key_inv s \<Longrightarrow> spent s' n"
  by (auto simp: spent_def sender_key_inv_def dest: decrypt_in_place_past)

text \<open>A chain only moves forward and never keeps a key for a number it has passed.\<close>

lemma decrypt_keeps_spent:
  assumes "decrypt_in_place cr s m ct = Inr (s', p)" "spent s n"
  shows "spent s' n"
  using assms(1)
proof (cases rule: decrypt_in_place_cases)
  case (stored key)
  then show ?thesis using assms(2) by (simp add: spent_def)
next
  case walked
  have "bt_get (walked_keys cr s m) n = None"
    using assms(2) sender_chain.skip_keys [OF walked(1), of cr "chain_key s" "skipped_message_keys s" n]
    by (auto simp: spent_def walked_keys_def)
  then have "bt_get (prune_skipped (walked_keys cr s m)) n = None"
    using prune_oldest_get [of SENDER_KEY_MAX_STORED_SKIPPED_KEYS "walked_keys cr s m" n]
    by (cases "bt_get (prune_skipped (walked_keys cr s m)) n") (simp_all add: prune_skipped_def)
  moreover have "n < m + 1"
    using assms(2) walked(1,3) unat_plus_one_max [of m] by (simp add: spent_def word_less_nat_alt word_le_nat_alt)
  ultimately show ?thesis using walked(5) by (simp add: spent_def)
qed

lemma put_sender_key_get [simp]:
  "bt_get (sender_keys (put_sender_key i r g)) j = (if j = i then Some r else bt_get (sender_keys g) j)"
  by (simp add: put_sender_key_def)

lemma learn_keeps_spent: "spent_in g i kid n \<Longrightarrow> spent_in (learn_sender_key j d g) i kid n"
  by (auto simp: spent_in_def learn_sender_key_def Let_def or_insert_def contains_iff put_sender_key_def)

text \<open>Only records of the local owner are ever displaced.\<close>

lemma prefer_displaces_local:
  "prefer_new_duplicate_sender_key local existing incoming \<Longrightarrow> sender_event_secret_key incoming = None \<Longrightarrow>
     sender_owner existing = local"
  by (rule ccontr) (simp add: prefer_new_duplicate_sender_key_def)

lemma prefer_over_sibling:
  "sender_owner existing = local \<Longrightarrow> sender_event_secret_key existing = None \<Longrightarrow> sender_owner incoming \<noteq> local \<Longrightarrow>
     prefer_new_duplicate_sender_key local existing incoming"
  unfolding prefer_new_duplicate_sender_key_def Let_def by simp

lemma displaced_local:
  assumes "group_inv g" "displaced g i d = Some j" "prefers_incoming g j i d"
  shows "id_owner j = gm_local_owner_pubkey g"
proof -
  have "bt_get (sender_event_index g) (dist_sender_event_pubkey d) = Some j"
    using assms(2) by (auto simp: displaced_def split: option.splits if_splits)
  then obtain r where r: "bt_get (sender_keys g) j = Some r"
    using indexes_iff [OF group_invD(3) [OF assms(1)]] by blast
  then have "id_owner j = sender_owner r"
    using group_invD(2) [OF assms(1) r] by (auto simp: sender_ok_def sender_key_record_id_def)
  then show ?thesis
    using assms(3) r prefer_displaces_local [of "gm_local_owner_pubkey g" r]
    by (simp add: prefers_incoming_def sender_key_record_new_def)
qed

lemma payload_keeps_spent:
  assumes "group_inv g" "spent_in g i kid n" "id_owner i \<noteq> gm_local_owner_pubkey g"
    and "handle_pairwise_payload_inner cr pc ow k payload g = (out, g')"
  shows "spent_in g' i kid n"
proof -
  have obs: "spent_in h i kid n" if "observe_sender_key_distribution cr ow k d g = (out', h)" for k d out' h
  proof -
    have "spent_in (learn_sender_key j d (g\<lparr>sender_keys := bt_remove e (sender_keys g)\<rparr>)) i kid n"
      if "displaced g j d = Some e" "prefers_incoming g e j d" for j e
      using displaced_local [OF assms(1) that] assms(2,3)
      by (intro learn_keeps_spent) (auto simp: spent_in_def)
    moreover have "spent_in (learn_sender_key j d g) i kid n" for j using assms(2) by (rule learn_keeps_spent)
    ultimately show ?thesis
      using that assms(2) unfolding observe_sender_key_distribution_def
      by (auto simp: Let_def elim!: then_do_cases split: option.splits if_splits)
  qed
  have dist: "spent_in h i kid n" if "handle_distribution cr ow k d g = (out', h)" for d out' h
    using that assms(2) unfolding handle_distribution_def
    by (auto elim!: then_do_cases split: option.splits dest: obs)
  have meta: "spent_in h i kid n" if "handle_metadata cr ow s g = (out', h)" for s out' h
    using handle_metadata_cases [OF that] assms(2) by (auto simp: spent_in_def put_group_def)
  show ?thesis
    using assms(2,4) unfolding handle_pairwise_payload_inner_def handle_command_def
    by (auto elim!: then_do_cases split: option.splits GroupPairwiseCommand.splits dest: meta dist)
qed

lemma apply_keeps_spent:
  assumes "plan_ok cr plan" "apply_sender_key_receive_plan plan g = (out, g')" "spent_in g i kid n"
  shows "spent_in g' i kid n"
  using apply_plan_cases [OF assms(2)]
proof (elim disjE exE conjE)
  fix m r
  assume m: "plan_mutation plan = Some m" "bt_get (sender_keys g) (mut_identity m) = Some r"
    "bt_get (states r) (key_id (mut_expected m)) = Some (mut_expected m)"
    and g': "g' = put_sender_key (mut_identity m) (r\<lparr>states := bt_insert (key_id (mut_next m)) (mut_next m) (states r)\<rparr>) g"
  obtain k ct p where d: "decrypt_in_place cr (mut_expected m) k ct = Inr (mut_next m, p)"
    using assms(1) m(1) by (auto simp: plan_ok_def)
  have "spent (mut_expected m) n \<Longrightarrow> spent (mut_next m) n" by (rule decrypt_keeps_spent [OF d])
  moreover have "key_id (mut_next m) = key_id (mut_expected m)" by (rule decrypt_in_place_key_id [OF d])
  ultimately show ?thesis using assms(3) m(2,3) unfolding g' by (auto simp: spent_in_def)
qed (use assms(3) in simp)

lemma plan_local_owner: "apply_sender_key_receive_plan plan g = (out, g') \<Longrightarrow> gm_local_owner_pubkey g' = gm_local_owner_pubkey g"
  by (drule apply_plan_cases) auto

lemma payload_local_owner:
  assumes "handle_pairwise_payload_inner cr pc ow k payload g = (out, g')"
  shows "gm_local_owner_pubkey g' = gm_local_owner_pubkey g"
proof -
  have "gm_local_owner_pubkey (learn_sender_key i d h) = gm_local_owner_pubkey h" for i d h
    by (simp add: learn_sender_key_def put_sender_key_def Let_def)
  then show ?thesis
    using assms
    unfolding handle_pairwise_payload_inner_def handle_command_def handle_metadata_def handle_distribution_def
      observe_sender_key_distribution_def
    by (auto simp: Let_def elim!: then_do_cases split: option.splits GroupPairwiseCommand.splits if_splits)
qed

lemma run_keeps_spent:
  shows "group_run cr pc g0 g \<Longrightarrow> group_inv g0 \<Longrightarrow> id_owner i \<noteq> gm_local_owner_pubkey g0 \<Longrightarrow> spent_in g0 i kid n \<Longrightarrow>
      spent_in g i kid n \<and> gm_local_owner_pubkey g = gm_local_owner_pubkey g0"
    and "group_cursor cr pc c \<Longrightarrow> True"
proof (induction rule: group_run_group_cursor.inducts)
  case (run_restart g0 g g')
  then show ?case using run_invs(1) group_manager_restore by fastforce
next
  case (run_payload g0 g ow k payload out g')
  then have "group_inv g" using run_invs(1) by blast
  then show ?case using run_payload payload_keeps_spent payload_local_owner by metis
next
  case (run_message g0 g c message m result g' c' m')
  have inv: "group_inv g" using run_message run_invs(1) by blast
  have "plan_ok cr plan" if "plan_sender_key_message_with_budget cr pc g message (c, m) = (Inr (Some plan), st)" for plan st
    using plan_message_sound [OF group_inv_states [OF inv] run_invs(2) [OF run_message(3)], of pc message m "Inr (Some plan)" "fst st" "snd st"]
      that by simp
  then show ?case
    using run_message unfolding handle_sender_key_message_with_budget_def
    by (auto split: prod.splits sum.splits option.splits dest: apply_keeps_spent plan_local_owner)
next
  case (run_plan g0 g ow g1 c message m plan c' m' result g')
  have "group_inv g1" using run_plan(3) run_invs(1) group_inv_new by blast
  then have "plan_ok cr plan"
    using plan_message_sound [OF group_inv_states run_invs(2) [OF run_plan(5)] run_plan(7)] by simp
  then show ?case using run_plan by (auto dest: apply_keeps_spent plan_local_owner)
next
  case (run_calls g0 g rng now call m draw g' st)
  then have "others_same (g, m, rng, draw) (g', st)"
    using others.run_call_rel [of "(g, m, rng, draw)" cr pc now call] by simp
  with run_calls show ?case by (auto simp: others_same_def spent_in_def)
qed simp_all

section \<open>Replays\<close>

text \<open>What a reported message did: it was decrypted under a stored state, which has moved on.\<close>

lemma handle_numbered_event:
  assumes "handle_sender_key_message cr pc msg g = (Inr (GroupEvent ev), g')" "skm_encrypted_header msg = None"
  obtains i r s s' p x where "bt_get (sender_event_index g) (skm_sender_event_pubkey msg) = Some i"
    "id_group i = skm_group_id msg" "bt_get (sender_keys g) i = Some r" "bt_get (states r) (skm_key_id msg) = Some s"
    "key_id s = skm_key_id msg"
    "decrypt_in_place cr s (skm_message_number msg) (skm_ciphertext msg) = Inr (s', p)"
    "ev = GroupMessageEvent x" "grm_sender_owner x = id_owner i" "grm_sender_device x = Some (id_device i)"
    "g' = put_sender_key i (r\<lparr>states := bt_insert (key_id s') s' (states r)\<rparr>) g"
proof -
  obtain plan st where plan: "plan_sender_key_message_with_budget cr pc g msg (None, USIZE_MAX) = (Inr (Some plan), st)"
    and app: "apply_sender_key_receive_plan plan g = (Inr (GroupEvent ev), g')"
    using assms(1) unfolding handle_sender_key_message_def handle_sender_key_message_with_budget_def
    by (auto simp: result_simps split: prod.splits sum.splits option.splits)
  have ev: "plan_result plan = GroupEvent ev"
    using app by (auto simp: apply_sender_key_receive_plan_def Let_def split: option.splits if_splits)
  obtain i gr where i: "bt_get (sender_event_index g) (skm_sender_event_pubkey msg) = Some i" "id_group i = skm_group_id msg"
    and num: "plan_numbered cr pc g gr i msg = Inr (Some plan)"
    using plan assms(2) ev
    by (auto simp: plan_sender_key_message_with_budget_def plan_sender_key_message_step_def Let_def complete_def
        split: prod.splits option.splits if_splits)
  obtain m r s p body where m: "bt_get (sender_keys g) i = Some r" "bt_get (states r) (skm_key_id msg) = Some s"
    "plan_mutation plan = Some m" "mut_identity m = i" "key_id s = skm_key_id msg"
    "decrypt_in_place cr s (skm_message_number msg) (skm_ciphertext msg) = Inr (mut_next m, p)"
    "ev = GroupMessageEvent \<lparr>grm_group_id = group_id gr, grm_sender_owner = id_owner i,
              grm_sender_device = Some (id_device i), grm_body = body, grm_revision = revision gr\<rparr>"
    using plan_numbered_cases [OF num] ev by auto
  have "g' = put_sender_key i (r\<lparr>states := bt_insert (key_id (mut_next m)) (mut_next m) (states r)\<rparr>) g"
    using app m(1,3,4) by (auto simp: apply_sender_key_receive_plan_def Let_def split: option.splits if_splits)
  with i m that show thesis by simp
qed

text \<open>
  C23. A group message is reported once: when a message with a visible number was reported as a message of
  another owner's device, then in no later state of any run, through whatever local calls, payloads, other
  messages, deferred plans and restarts, is the same message reported again as one of that device. The
  sender's stored key cannot be replaced by an earlier one on the way: only records of the local owner's
  own devices can be displaced by the announcement of another.
\<close>

theorem group_replay_rejected:
  assumes "group_manages cr pc g" and first: "handle_sender_key_message cr pc msg g = (Inr (GroupEvent (GroupMessageEvent x)), g1)"
    and plain: "skm_encrypted_header msg = None" and remote: "grm_sender_owner x \<noteq> gm_local_owner_pubkey g"
    and later: "group_run cr pc g1 g2"
  shows "\<forall>y g3. handle_sender_key_message cr pc msg g2 = (Inr (GroupEvent (GroupMessageEvent y)), g3) \<longrightarrow>
    (grm_sender_owner y, grm_sender_device y) \<noteq> (grm_sender_owner x, grm_sender_device x)"
proof (intro allI impI notI)
  fix y g3
  assume again: "handle_sender_key_message cr pc msg g2 = (Inr (GroupEvent (GroupMessageEvent y)), g3)"
    and same: "(grm_sender_owner y, grm_sender_device y) = (grm_sender_owner x, grm_sender_device x)"
  note inv = group_manages_inv [OF assms(1)]
  let ?n = "skm_message_number msg" and ?kid = "skm_key_id msg"
  obtain i r s s' p where i: "id_group i = skm_group_id msg" "grm_sender_owner x = id_owner i"
    "grm_sender_device x = Some (id_device i)"
    and s: "bt_get (sender_keys g) i = Some r" "bt_get (states r) ?kid = Some s" "key_id s = ?kid"
    "decrypt_in_place cr s ?n (skm_ciphertext msg) = Inr (s', p)"
    and g1: "g1 = put_sender_key i (r\<lparr>states := bt_insert (key_id s') s' (states r)\<rparr>) g"
    by (rule handle_numbered_event [OF first plain]) auto
  have "sender_key_inv s" using group_invD(2) [OF inv s(1)] s(2) by (auto simp: sender_ok_def dest: states_okD)
  then have "spent s' ?n" by (rule decrypt_spends [OF s(4)])
  then have "spent_in g1 i ?kid ?n"
    using decrypt_in_place_key_id [OF s(4)] s(3) by (intro spent_inI [of _ _ _ _ s']) (auto simp: g1)
  moreover have "group_inv g1" using group_manages_inv [OF manages_message [OF assms(1) first]] .
  moreover have "gm_local_owner_pubkey g1 = gm_local_owner_pubkey g" by (simp add: g1)
  ultimately have spent2: "spent_in g2 i ?kid ?n" using run_keeps_spent(1) [OF later] remote i(2) by simp
  obtain j r2 s2 s2' p2 where j: "id_group j = skm_group_id msg" "grm_sender_owner y = id_owner j"
    "grm_sender_device y = Some (id_device j)" "bt_get (sender_keys g2) j = Some r2" "bt_get (states r2) ?kid = Some s2"
    "decrypt_in_place cr s2 ?n (skm_ciphertext msg) = Inr (s2', p2)"
    by (rule handle_numbered_event [OF again plain]) auto
  have "j = i" using i j same by (cases i; cases j) auto
  then show False using spent2 j(4-6) spent_refused [of s2 ?n cr "skm_ciphertext msg"] by (auto simp: spent_in_def)
qed

section \<open>A displaced stream\<close>

text \<open>
  C26. A member can take over the stream of a sibling device: when any other member announces a sender key
  under the public key that signs the messages of another device of the local owner, the record of that
  device is dropped with all its keys, the stream is attributed to the announcing member, and from then on
  the announcements of the sibling device itself are ignored.
\<close>

theorem sibling_stream_displaced:
  assumes run: "group_manages cr pc g"
    and r: "bt_get (groups g) gid = Some r" "protocol r = sender_key_v1" "bt_contains_key (members r) ow"
      "bt_contains_key (members r) (gm_local_owner_pubkey g)"
    and sr: "bt_get (sender_keys g) (gid, gm_local_owner_pubkey g, k) = Some sr" "sender_event_secret_key sr = None"
    and d: "dist_group_id d = gid" "dist_sender_event_pubkey d = sender_event_pubkey sr" "ow \<noteq> gm_local_owner_pubkey g"
  shows "\<exists>g'. observe_sender_key_distribution cr ow k' d g = (Inr (), g')
    \<and> bt_get (sender_keys g') (gid, gm_local_owner_pubkey g, k) = None
    \<and> bt_get (sender_event_index g') (sender_event_pubkey sr) = Some (gid, ow, k')
    \<and> (\<forall>d'. dist_group_id d' = gid \<longrightarrow> dist_sender_event_pubkey d' = sender_event_pubkey sr \<longrightarrow>
         observe_sender_key_distribution cr (gm_local_owner_pubkey g) k d' g' = (Inr (), g'))"
proof -
  note inv = group_manages_inv [OF run]
  let ?j = "(gid, gm_local_owner_pubkey g, k)" and ?i = "(gid, ow, k')"
  let ?g' = "learn_sender_key ?i d (g\<lparr>sender_keys := bt_remove ?j (sender_keys g)\<rparr>)"
  have own: "sender_owner sr = gm_local_owner_pubkey g"
    using group_invD(2) [OF inv sr(1)] by (simp add: sender_ok_def sender_key_record_id_def)
  have idx: "bt_get (sender_event_index g) (sender_event_pubkey sr) = Some ?j"
    using indexes_iff [OF group_invD(3) [OF inv]] sr(1) by blast
  have "displaced g ?i d = Some ?j" using idx d by (simp add: displaced_def)
  moreover have "prefers_incoming g ?j ?i d"
    unfolding prefers_incoming_def sr(1) is_none_or.simps
    using d(3) by (intro prefer_over_sibling own sr(2)) (simp add: sender_key_record_new_def)
  ultimately have obs: "observe_sender_key_distribution cr ow k' d g = (Inr (), ?g')"
    using r d by (simp add: observe_sender_key_distribution_def group_record_def is_sender_key_v1_def ensure_member_def)
  have keys: "bt_get (sender_keys ?g') ?j = None" "bt_get (sender_event_index ?g') (sender_event_pubkey sr) = Some ?i"
    and g': "groups ?g' = groups g" "gm_local_owner_pubkey ?g' = gm_local_owner_pubkey g"
    using d by (simp_all add: learn_sender_key_def Let_def put_sender_key_def)
  have inv': "group_inv ?g'" by (rule observe_distribution_inv [OF inv obs])
  obtain sr' where sr': "bt_get (sender_keys ?g') ?i = Some sr'"
    using indexes_iff [OF group_invD(3) [OF inv'], of "sender_event_pubkey sr" ?i] keys(2) by blast
  have own': "sender_owner sr' = ow"
    using group_invD(2) [OF inv' sr'] by (simp add: sender_ok_def sender_key_record_id_def)
  have "displaced ?g' ?j d' = Some ?i" if "dist_sender_event_pubkey d' = sender_event_pubkey sr" for d'
    using keys(2) that d(3) by (simp add: displaced_def)
  moreover have "\<not> prefers_incoming ?g' ?i ?j d'" for d'
  proof
    assume "prefers_incoming ?g' ?i ?j d'"
    from prefer_displaces_local [OF this [unfolded prefers_incoming_def sr' is_none_or.simps g'(2)]] own' d(3)
    show False by (simp add: sender_key_record_new_def)
  qed
  ultimately have "observe_sender_key_distribution cr (gm_local_owner_pubkey g) k d' ?g' = (Inr (), ?g')"
    if "dist_group_id d' = gid" "dist_sender_event_pubkey d' = sender_event_pubkey sr" for d'
    using that r g' by (simp add: observe_sender_key_distribution_def group_record_def is_sender_key_v1_def ensure_member_def)
  with obs keys show ?thesis by blast
qed

end
