(* ===== verification/Group_Repair.thy ===== *)
theory Group_Repair
  imports Group_Replay Group_Secrecy
begin

text \<open>
  Repair of lost sender keys: an owner who asks is only given what was recorded as sent to that owner, and
  what is recorded as sent for repair is recorded as distributed. The schedule by which a request is
  repeated is bounded.
\<close>

declare split_paired_All [simp del] split_paired_Ex [simp del]

section \<open>What is recorded for repair\<close>

definition repair_ok :: "OwnerPubkey \<Rightarrow> SenderKeyRecord \<Rightarrow> bool" where
  "repair_ok local sr \<longleftrightarrow> (\<forall>snap \<in> set (repair_snapshots sr). rs_key_id snap = dist_key_id (rs_distribution snap)
     \<and> (\<forall>ow \<in> set (rs_recipients snap). ow = local \<or> distributed sr (rs_key_id snap) ow))"

definition repairs_ok :: "GroupManager \<Rightarrow> bool" where
  "repairs_ok g \<longleftrightarrow> (\<forall>i sr. bt_get (sender_keys g) i = Some sr \<longrightarrow> repair_ok (gm_local_owner_pubkey g) sr)"

lemma repair_ok_new [simp]: "repair_ok local (sender_key_record_new gid ow k author secret)"
  by (simp add: repair_ok_def sender_key_record_new_def)

lemma repair_ok_same:
  "distributed_to sr' = distributed_to sr \<Longrightarrow> repair_snapshots sr' = repair_snapshots sr \<Longrightarrow> repair_ok local sr' = repair_ok local sr"
  by (simp add: repair_ok_def distributed_def)

lemma repair_ok_states [simp]: "repair_ok local (sr\<lparr>states := sts\<rparr>) = repair_ok local sr"
  by (rule repair_ok_same) simp_all

lemma repairs_ok_put:
  "repairs_ok g \<Longrightarrow> repair_ok (gm_local_owner_pubkey g) sr \<Longrightarrow> repairs_ok (put_sender_key i sr g)"
  by (auto simp: repairs_ok_def)

lemma repairs_ok_keys:
  "sender_keys g' = sender_keys g \<Longrightarrow> gm_local_owner_pubkey g' = gm_local_owner_pubkey g \<Longrightarrow> repairs_ok g' = repairs_ok g"
  by (simp add: repairs_ok_def)

lemma record_repair_snapshots:
  assumes "bt_get (sender_keys g) (local_id g gid k) = Some sr"
  shows "\<exists>snaps. bt_get (sender_keys (record_sender_key_repair_snapshot gid k d ows g)) (local_id g gid k)
      = Some (sr\<lparr>repair_snapshots := snaps\<rparr>)
    \<and> (\<forall>x \<in> set snaps. x \<in> set (repair_snapshots sr)
        \<or> rs_key_id x = dist_key_id d \<and> rs_distribution x = d \<and> set (rs_recipients x) \<subseteq> set ows)"
proof (cases "record_sender_key_repair_snapshot gid k d ows g = g")
  case True
  then show ?thesis using assms by (intro exI [of _ "repair_snapshots sr"]) simp
next
  case False
  then show ?thesis
    using assms by (auto simp: record_sender_key_repair_snapshot_def Let_def split: if_splits)
qed

lemma bookkeeping_elsewhere:
  "i \<noteq> local_id g gid k \<Longrightarrow> bt_get (sender_keys (mark_sender_key_distribution_recipients gid k kid ows g)) i = bt_get (sender_keys g) i"
  "i \<noteq> local_id g gid k \<Longrightarrow> bt_get (sender_keys (record_sender_key_repair_snapshot gid k d ows g)) i = bt_get (sender_keys g) i"
  by (auto simp: mark_sender_key_distribution_recipients_def record_sender_key_repair_snapshot_def Let_def
      put_sender_key_def split: option.splits)

lemma bookkeeping_missing:
  "bt_get (sender_keys g) (local_id g gid k) = None \<Longrightarrow> mark_sender_key_distribution_recipients gid k kid ows g = g"
  "bt_get (sender_keys g) (local_id g gid k) = None \<Longrightarrow> record_sender_key_repair_snapshot gid k d ows g = g"
  by (simp_all add: mark_sender_key_distribution_recipients_def record_sender_key_repair_snapshot_def)

lemma given_repairs_ok:
  assumes "repairs_ok g"
  shows "repairs_ok (mark_sender_key_distribution_recipients gid k (dist_key_id d) ows
    (record_sender_key_repair_snapshot gid k d ows g))"
proof (cases "bt_get (sender_keys g) (local_id g gid k)")
  case None
  then show ?thesis using assms by (simp add: bookkeeping_missing)
next
  case (Some sr)
  let ?i = "local_id g gid k" and ?g1 = "record_sender_key_repair_snapshot gid k d ows g"
  let ?g2 = "mark_sender_key_distribution_recipients gid k (dist_key_id d) ows ?g1"
  obtain snaps where snaps: "bt_get (sender_keys ?g1) ?i = Some (sr\<lparr>repair_snapshots := snaps\<rparr>)"
    "\<forall>x \<in> set snaps. x \<in> set (repair_snapshots sr)
        \<or> rs_key_id x = dist_key_id d \<and> rs_distribution x = d \<and> set (rs_recipients x) \<subseteq> set ows"
    using record_repair_snapshots [OF Some] by blast
  obtain dt where dt: "bt_get (sender_keys ?g2) ?i = Some (sr\<lparr>repair_snapshots := snaps, distributed_to := dt\<rparr>)"
    "\<forall>x ow. distributed (sr\<lparr>repair_snapshots := snaps, distributed_to := dt\<rparr>) x ow \<longleftrightarrow>
       distributed (sr\<lparr>repair_snapshots := snaps\<rparr>) x ow \<or> x = dist_key_id d \<and> ow \<in> set ows"
    using mark_spec [of ?g1 gid k "sr\<lparr>repair_snapshots := snaps\<rparr>" "dist_key_id d" ows] snaps(1) by auto
  have "repair_ok (gm_local_owner_pubkey g) sr" using assms Some by (simp add: repairs_ok_def)
  then have "repair_ok (gm_local_owner_pubkey g) (sr\<lparr>repair_snapshots := snaps, distributed_to := dt\<rparr>)"
    using snaps(2) dt(2) by (fastforce simp: repair_ok_def distributed_def [of "sr\<lparr>repair_snapshots := snaps\<rparr>"] distributed_def [of sr])
  moreover have "bt_get (sender_keys ?g2) i = bt_get (sender_keys g) i" if "i \<noteq> ?i" for i
    using that bookkeeping_elsewhere(1) [where g = ?g1 and i = i] bookkeeping_elsewhere(2) [where g = g and i = i] by simp
  ultimately show ?thesis
    using assms dt(1) unfolding repairs_ok_def by (metis bookkeeping_groups(3,4) option.inject)
qed

lemma sibling_repairs_ok:
  assumes "repairs_ok g"
  shows "repairs_ok (record_sender_key_repair_snapshot gid k d [gm_local_owner_pubkey g] g)"
proof (cases "bt_get (sender_keys g) (local_id g gid k)")
  case None
  then show ?thesis using assms by (simp add: bookkeeping_missing)
next
  case (Some sr)
  let ?i = "local_id g gid k" and ?g1 = "record_sender_key_repair_snapshot gid k d [gm_local_owner_pubkey g] g"
  obtain snaps where snaps: "bt_get (sender_keys ?g1) ?i = Some (sr\<lparr>repair_snapshots := snaps\<rparr>)"
    "\<forall>x \<in> set snaps. x \<in> set (repair_snapshots sr)
        \<or> rs_key_id x = dist_key_id d \<and> rs_distribution x = d \<and> set (rs_recipients x) \<subseteq> {gm_local_owner_pubkey g}"
    using record_repair_snapshots [OF Some, of d "[gm_local_owner_pubkey g]"] by auto
  have "repair_ok (gm_local_owner_pubkey g) sr" using assms Some by (simp add: repairs_ok_def)
  then have "repair_ok (gm_local_owner_pubkey g) (sr\<lparr>repair_snapshots := snaps\<rparr>)"
    using snaps(2) by (fastforce simp: repair_ok_def distributed_def)
  then show ?thesis
    using assms snaps(1) bookkeeping_elsewhere(2) [where g = g and gid = gid and k = k] unfolding repairs_ok_def
    by (metis bookkeeping_groups(4) option.inject)
qed

interpretation repairs: group_updates
  "\<lambda>s t. gm_local_owner_pubkey (fst t) = gm_local_owner_pubkey (fst s) \<and> (repairs_ok (fst s) \<longrightarrow> repairs_ok (fst t))"
proof (unfold_locales, goal_cases)
  case (5 g gid k st author secret)
  have "repairs_ok (put_sender_key (local_id g gid k) (sender_key_record_new gid (gm_local_owner_pubkey g) k author secret)
      (index_sender author (local_id g gid k) g))" if "repairs_ok g"
    using that by (intro repairs_ok_put) (simp_all add: repairs_ok_def)
  then show ?case by simp
next
  case (6 g gid k sr sr' st)
  have "repairs_ok (put_sender_key (local_id g gid k) sr' g)" if "repairs_ok g"
  proof (rule repairs_ok_put [OF that])
    have "repair_ok (gm_local_owner_pubkey g) sr" using that 6(1) unfolding repairs_ok_def by blast
    then show "repair_ok (gm_local_owner_pubkey g) sr'" using repair_ok_same [OF 6(2,3)] by simp
  qed
  then show ?case by simp
qed (auto simp: repairs_ok_keys [of "put_group _ _"] given_repairs_ok sibling_repairs_ok)

lemma repairs_ok_learn:
  assumes "repairs_ok g"
  shows "repairs_ok (learn_sender_key i d g)"
proof -
  let ?r = "case bt_get (sender_keys g) i of Some r \<Rightarrow> r
    | None \<Rightarrow> sender_key_record_new (id_group i) (id_owner i) (id_device i) (dist_sender_event_pubkey d) None"
  have "repair_ok (gm_local_owner_pubkey g) ?r"
    using assms by (cases "bt_get (sender_keys g) i") (auto simp: repairs_ok_def)
  then have ok: "repair_ok (gm_local_owner_pubkey g) r'"
    if "distributed_to r' = distributed_to ?r" "repair_snapshots r' = repair_snapshots ?r" for r'
    using repair_ok_same [OF that] by simp
  show ?thesis
    unfolding learn_sender_key_def Let_def
    by (rule repairs_ok_put) (use assms ok in \<open>simp_all add: repairs_ok_def\<close>)
qed

lemma repairs_ok_remove: "repairs_ok g \<Longrightarrow> repairs_ok (g\<lparr>sender_keys := bt_remove i (sender_keys g)\<rparr>)"
  by (simp add: repairs_ok_def)

lemma payload_repairs_ok:
  assumes "repairs_ok g" "handle_pairwise_payload_inner cr pc ow k payload g = (out, g')"
  shows "repairs_ok g'"
proof -
  have "repairs_ok (put_group r g)" for r using assms(1) by (simp add: repairs_ok_def)
  then show ?thesis
    using assms repairs_ok_learn [OF assms(1)] repairs_ok_learn [OF repairs_ok_remove [OF assms(1)]]
    unfolding handle_pairwise_payload_inner_def handle_command_def handle_metadata_def handle_distribution_def
      observe_sender_key_distribution_def
    by (auto simp: Let_def elim!: then_do_cases split: option.splits GroupPairwiseCommand.splits if_splits)
qed

lemma plan_repairs_ok:
  assumes "repairs_ok g" "apply_sender_key_receive_plan plan g = (out, g')"
  shows "repairs_ok g'"
  using apply_plan_cases [OF assms(2)]
proof (elim disjE exE conjE)
  fix m r
  assume "bt_get (sender_keys g) (mut_identity m) = Some r"
    and g': "g' = put_sender_key (mut_identity m) (r\<lparr>states := bt_insert (key_id (mut_next m)) (mut_next m) (states r)\<rparr>) g"
  then have "repair_ok (gm_local_owner_pubkey g) r" using assms(1) unfolding repairs_ok_def by blast
  then show ?thesis unfolding g' by (intro repairs_ok_put [OF assms(1)]) simp
qed (use assms(1) in simp)

lemma run_repairs_ok:
  shows "group_run cr pc g0 g \<Longrightarrow> group_inv g0 \<Longrightarrow> repairs_ok g0 \<Longrightarrow> repairs_ok g"
    and "group_cursor cr pc c \<Longrightarrow> True"
proof (induction rule: group_run_group_cursor.inducts)
  case (run_restart g0 g g')
  then show ?case using run_invs(1) group_manager_restore by fastforce
next
  case (run_message g0 g c message m result g' c' m')
  then show ?case
    unfolding handle_sender_key_message_with_budget_def
    by (auto split: prod.splits sum.splits option.splits dest: plan_repairs_ok)
next
  case (run_calls g0 g rng now call m draw g' st)
  then show ?case using repairs.run_call_rel [where s = "(g, m, rng, draw)" and cr = cr and pc = pc and now = now and call = call] by simp
qed (auto dest: payload_repairs_ok plan_repairs_ok)

lemma group_manages_repairs_ok: "group_manages cr pc g \<Longrightarrow> repairs_ok g"
  unfolding group_manages_def using run_repairs_ok(1) group_inv_new
  by (fastforce simp: repairs_ok_def group_manager_new_def)

section \<open>Answers\<close>

lemma max_by_key_fold:
  "fold (\<lambda>x best. case best of None \<Rightarrow> Some x | Some y \<Rightarrow> if f y \<le> f x then Some x else Some y) xs b = Some x \<Longrightarrow>
     x \<in> set xs \<or> b = Some x"
  by (induction xs arbitrary: b) (fastforce split: option.splits if_splits)+

lemma max_by_key_in: "max_by_key f xs = Some x \<Longrightarrow> x \<in> set xs"
  unfolding max_by_key_def by (drule max_by_key_fold) simp

lemma repair_distribution_for_snapshot:
  "repair_distribution_for sr ow kid n = Some d \<Longrightarrow> \<exists>x \<in> set (repair_snapshots sr). rs_distribution x = d
     \<and> rs_key_id x = kid \<and> dist_iteration d \<le> n \<and> ow \<in> set (rs_recipients x)"
  by (auto simp: repair_distribution_for_def dest!: max_by_key_in)

lemma repair_answer_snapshot:
  assumes "d \<in> set (fst (repair_answer g ow q))"
  shows "\<exists>i sr x. bt_get (sender_event_index g) (req_sender_event_pubkey q) = Some i \<and> id_group i = req_group_id q
    \<and> id_owner i = gm_local_owner_pubkey g \<and> bt_get (sender_keys g) i = Some sr \<and> sender_event_secret_key sr \<noteq> None
    \<and> x \<in> set (repair_snapshots sr) \<and> rs_distribution x = d \<and> ow \<in> set (rs_recipients x)
    \<and> (\<forall>kid n. req_key_id q = Some kid \<longrightarrow> req_message_number q = Some n \<longrightarrow> rs_key_id x = kid \<and> dist_iteration d \<le> n)"
  using assms unfolding repair_answer_def
  by (auto simp: Let_def repair_distributions_for_requester_def split: option.splits if_splits
      dest!: sym [of "Some d"] repair_distribution_for_snapshot)

lemma repair_payload_owner:
  assumes "repair_payload_to_owner cr pc now ow c (g, m, ctx) = (Inr p, g', m', ctx')"
  shows "quiet m m' \<and> gm_local_owner_pubkey g' = gm_local_owner_pubkey g
    \<and> (\<forall>y \<in> set (pp_deliveries (ps_remote p)). delivery_owner_pubkey y = ow \<and> sendable m y)"
proof (cases "ow = gm_local_owner_pubkey g")
  case True
  then obtain st1 where f: "local_sibling_payload cr pc now c (m, ctx) = (Inr (ps_local_sibling p), m', ctx')" "g' = g"
    "ps_remote p = prepared_publish_empty"
    using assms by (auto simp: repair_payload_to_owner_def on_sessions_def result_simps split: prod.splits)
  then show ?thesis
    using local_sibling_payload_quiet [of "(m, ctx)" cr pc now c] by (simp add: prepared_publish_empty_def)
next
  case False
  then have f: "fanout_payload cr pc now [ow] c (m, ctx) = (Inr (ps_remote p), m', ctx')" "g' = g"
    using assms by (auto simp: repair_payload_to_owner_def on_sessions_def result_simps split: prod.splits)
  then show ?thesis
    using fanout_payload_quiet [of "(m, ctx)" cr pc now "[ow]" c] fanout_payload_owner [OF f(1)] by auto
qed

lemma repair_all_owner:
  assumes "repair_all cr pc now ow cs prepared (g, m, ctx) = (Inr out, st)" "y \<in> set (pp_deliveries (ps_remote out))"
  shows "y \<in> set (pp_deliveries (ps_remote prepared)) \<or> delivery_owner_pubkey y = ow \<and> sendable m y"
  using assms
proof (induction cs arbitrary: prepared g m ctx)
  case (Cons c cs)
  obtain p g1 m1 ctx1 where p: "repair_payload_to_owner cr pc now ow c (g, m, ctx) = (Inr p, g1, m1, ctx1)"
    and rest: "repair_all cr pc now ow cs
         (prepared\<lparr>ps_remote := merge_group_prepared_publish (ps_remote prepared) (ps_remote p),
                   ps_local_sibling := merge_group_prepared_publish (ps_local_sibling prepared) (ps_local_sibling p)\<rparr>)
         (g1, m1, ctx1) = (Inr out, st)"
    using Cons.prems(1) by (auto simp: result_simps)
  show ?case
    using Cons.IH [OF rest Cons.prems(2)] repair_payload_owner [OF p]
    by (auto simp: merge_group_prepared_publish_def dest: sendable_quiet)
qed simp

text \<open>
  Repair gives a key only to those who were given it: in every run, each distribution that a repair
  request is answered with comes from a sender key of this owner in the requested group and stream, with
  the secret that signs it, and was distributed to the requester before, unless the requester is the local
  owner; it is of the requested key and not ahead of the requested message, when the request names them.
  The messages that carry the answer go to authorized devices of the requester, and there are none unless
  the requester is a member of the group now.
\<close>

theorem repair_answers_recipients:
  assumes run: "group_manages cr pc g"
    and resp: "respond_to_sender_key_repair_request cr pc now ow q (g, m, ctx) = (Inr out, st)"
  shows "(\<forall>d \<in> set (fst (repair_answer g ow q)). \<exists>k sr. bt_get (sender_keys g) (req_group_id q, gm_local_owner_pubkey g, k) = Some sr
      \<and> sender_event_pubkey sr = req_sender_event_pubkey q \<and> sender_event_secret_key sr \<noteq> None
      \<and> (ow = gm_local_owner_pubkey g \<or> distributed sr (dist_key_id d) ow)
      \<and> (\<forall>kid n. req_key_id q = Some kid \<longrightarrow> req_message_number q = Some n \<longrightarrow> dist_key_id d = kid \<and> dist_iteration d \<le> n))
    \<and> (\<forall>y \<in> set (pp_deliveries (ps_remote out)). delivery_owner_pubkey y = ow \<and> sendable m y
        \<and> (\<exists>r. bt_get (groups g) (req_group_id q) = Some r \<and> bt_contains_key (members r) ow))"
proof -
  note inv = group_manages_inv [OF run] and ok = group_manages_repairs_ok [OF run]
  have "\<exists>k sr. bt_get (sender_keys g) (req_group_id q, gm_local_owner_pubkey g, k) = Some sr
      \<and> sender_event_pubkey sr = req_sender_event_pubkey q \<and> sender_event_secret_key sr \<noteq> None
      \<and> (ow = gm_local_owner_pubkey g \<or> distributed sr (dist_key_id d) ow)
      \<and> (\<forall>kid n. req_key_id q = Some kid \<longrightarrow> req_message_number q = Some n \<longrightarrow> dist_key_id d = kid \<and> dist_iteration d \<le> n)"
    if d: "d \<in> set (fst (repair_answer g ow q))" for d
  proof -
    obtain i sr x where x: "bt_get (sender_event_index g) (req_sender_event_pubkey q) = Some i" "id_group i = req_group_id q"
      "id_owner i = gm_local_owner_pubkey g" "bt_get (sender_keys g) i = Some sr" "sender_event_secret_key sr \<noteq> None"
      "x \<in> set (repair_snapshots sr)" "rs_distribution x = d" "ow \<in> set (rs_recipients x)"
      "\<forall>kid n. req_key_id q = Some kid \<longrightarrow> req_message_number q = Some n \<longrightarrow> rs_key_id x = kid \<and> dist_iteration d \<le> n"
      using repair_answer_snapshot [OF d] by blast
    have "sender_event_pubkey sr = req_sender_event_pubkey q"
      using indexes_iff [OF group_invD(3) [OF inv]] x(1,4) by fastforce
    moreover have "i = (req_group_id q, gm_local_owner_pubkey g, id_device i)" using x(2,3) by (cases i) simp
    moreover have "repair_ok (gm_local_owner_pubkey g) sr" using ok x(4) unfolding repairs_ok_def by blast
    ultimately show ?thesis using x unfolding repair_ok_def by metis
  qed
  moreover have "delivery_owner_pubkey y = ow \<and> sendable m y
        \<and> (\<exists>r. bt_get (groups g) (req_group_id q) = Some r \<and> bt_contains_key (members r) ow)"
    if y: "y \<in> set (pp_deliveries (ps_remote out))" for y
  proof -
    have empty: "pp_deliveries (ps_remote (empty_group_prepared_send gid)) = []" for gid
      by (simp add: empty_group_prepared_send_def prepared_publish_empty_def)
    then obtain r cs where r: "bt_get (groups g) (req_group_id q) = Some r" "bt_contains_key (members r) ow"
      and all: "repair_all cr pc now ow cs (empty_group_prepared_send (req_group_id q)) (g, m, ctx) = (Inr out, st)"
      using resp y unfolding respond_to_sender_key_repair_request_def
      by (auto simp: Let_def case_prod_beta split: option.splits if_splits)
    show ?thesis using repair_all_owner [OF all y] r empty by auto
  qed
  ultimately show ?thesis by blast
qed

section \<open>The retry schedule\<close>

lemma retry_delay_nth:
  "sender_key_repair_default_retry_delay_secs n = [30, 120, 600, 3600, 21600] ! min (unat n - 1) 4"
proof -
  have "unat (min (saturating_sub n 1) 4) = min (unat n - 1) 4"
    by (auto simp: saturating_sub_def min_def word_le_nat_alt unat_sub)
  then show ?thesis
    by (simp add: sender_key_repair_default_retry_delay_secs_def SENDER_KEY_REPAIR_DEFAULT_RETRY_DELAYS_SECS_def Let_def)
qed

text \<open>
  The schedule of repair requests: the delay before a retry is between thirty seconds and six hours and
  does not shrink with the number of attempts, and the time of the next attempt, which saturates at the end
  of the 64-bit range, is never before the current one.
\<close>

theorem repair_retry_schedule:
  "30 \<le> sender_key_repair_default_retry_delay_secs n
    \<and> sender_key_repair_default_retry_delay_secs n \<le> 21600
    \<and> (n \<le> n' \<longrightarrow> sender_key_repair_default_retry_delay_secs n \<le> sender_key_repair_default_retry_delay_secs n')
    \<and> now \<le> sender_key_repair_default_next_retry_at now n"
proof -
  let ?ds = "[30, 120, 600, 3600, 21600] :: u64 list"
  have s: "sorted ?ds" by simp
  have "?ds ! i \<le> ?ds ! j" if "i \<le> j" "j \<le> 4" for i j using sorted_nth_mono [OF s, of i j] that by simp
  from this [of 0 "min (unat n - 1) 4"] this [of "min (unat n - 1) 4" 4] this [of "min (unat n - 1) 4" "min (unat n' - 1) 4"]
  moreover have "unat now < 2 ^ 64" using unsigned_less [of now, where 'a = nat] by simp
  ultimately show ?thesis
    by (auto simp: retry_delay_nth sender_key_repair_default_next_retry_at_def word_le_nat_alt unat_saturating_add
        simp del: nth_Cons_numeral)
qed

end
