(* ===== verification/Group_Slices.thy ===== *)
theory Group_Slices
  imports Group_Runs
begin

text \<open>
  Planning the receipt of a message in slices, each with its own budget of key trials: the outcome is that
  of one unlimited search, and it is there as soon as the budgets add up to a bound that depends only on
  the number of keys of the sender.
\<close>

declare split_paired_All [simp del] split_paired_Ex [simp del]

section \<open>Resuming the search for one message\<close>

text \<open>A cursor left by an earlier slice on the same state, or none.\<close>

definition resumes ::
  "SenderKeyRecordId \<Rightarrow> SenderKeyRecord \<Rightarrow> GroupSenderKeyMessage \<Rightarrow> GroupSenderKeyDecryptCursor option \<Rightarrow> bool" where
  "resumes i r msg c \<longleftrightarrow> (\<forall>cc. c = Some cc \<longrightarrow>
     gc_identity cc = i \<and> gc_message cc = msg \<and> active_current (states r) (gc_active cc))"

definition open_cursor ::
  "SenderKeyRecordId \<Rightarrow> SenderKeyRecord \<Rightarrow> GroupSenderKeyMessage \<Rightarrow> GroupSenderKeyDecryptCursor option \<Rightarrow>
   GroupSenderKeyDecryptCursor" where
  "open_cursor i r msg c = (case c of Some cc \<Rightarrow> cc
     | None \<Rightarrow> \<lparr>gc_message = msg, gc_identity = i, gc_key_ids = bt_keys (states r), gc_key_index = 0, gc_active = None\<rparr>)"

lemma advance_resumed:
  assumes "bt_get (sender_keys g) i = Some r" "resumes i r msg c"
  shows "advance_blind_message cr g i msg c n =
    (case search_keys cr (states r) (skm_ciphertext msg) (open_cursor i r msg c) n of
       (step, c', left) \<Rightarrow> (Inr step, Some c', left))"
proof (cases c)
  case None
  then show ?thesis using assms by (simp add: advance_blind_message_def open_cursor_def)
next
  case (Some cc)
  then have "gc_identity cc = i" "gc_message cc = msg" "active_current (states r) (gc_active cc)"
    using assms(2) by (simp_all add: resumes_def)
  then show ?thesis using assms(1) Some
    by (cases "gc_active cc") (simp_all add: advance_blind_message_def open_cursor_def active_current_def case_prod_beta)
qed

lemma advance_resumes:
  assumes r: "bt_get (sender_keys g) i = Some r" "states_ok (states r)" and c: "resumes i r msg c" "cursor_ok cr c"
    and adv: "advance_blind_message cr g i msg c n = (Inr Pending, c', left)"
  shows "resumes i r msg c' \<and> cursor_ok cr c'"
proof -
  obtain cc where c': "c' = Some cc"
    and s: "search_keys cr (states r) (skm_ciphertext msg) (open_cursor i r msg c) n = (Pending, cc, left)"
    using adv advance_resumed [OF r(1) c(1), of cr n] by (auto split: prod.splits)
  have "gc_message (open_cursor i r msg c) = msg" "gc_identity (open_cursor i r msg c) = i"
    "active_ok cr (skm_ciphertext msg) (gc_active (open_cursor i r msg c))"
    "active_current (states r) (gc_active (open_cursor i r msg c))"
    using c by (cases c; simp add: open_cursor_def resumes_def cursor_ok_def active_ok_def active_current_def)+
  with search_keys_sound [OF r(2) this(3,4) s] show ?thesis by (simp add: c' resumes_def cursor_ok_def)
qed

lemma advance_blind_add:
  assumes "bt_get (sender_keys g) i = Some r" "states_ok (states r)" "resumes i r msg c" "cursor_ok cr c"
  shows "fst (advance_blind_message cr g i msg c (a + b)) =
    (case advance_blind_message cr g i msg c a of
       (Inr Pending, c', left) \<Rightarrow> fst (advance_blind_message cr g i msg c' b)
     | (out, c', left) \<Rightarrow> out)"
proof -
  obtain step cc left where s: "search_keys cr (states r) (skm_ciphertext msg) (open_cursor i r msg c) a = (step, cc, left)"
    by (metis prod_cases3)
  then have a: "advance_blind_message cr g i msg c a = (Inr step, Some cc, left)"
    using advance_resumed [OF assms(1,3), of cr a] by simp
  have "resumes i r msg (Some cc)" if "step = Pending"
    using advance_resumes [OF assms] a that by blast
  moreover have "open_cursor i r msg (Some cc) = cc" by (simp add: open_cursor_def)
  ultimately show ?thesis
    using a s advance_resumed [OF assms(1,3), of cr "a + b"] advance_resumed [OF assms(1), of msg "Some cc" cr b]
      search_keys_add [of cr "states r" "skm_ciphertext msg" "open_cursor i r msg c" a b]
    by (cases step) (auto split: prod.splits)
qed

section \<open>Outcomes\<close>

text \<open>What follows once the search has decided.\<close>

definition conclude ::
  "GroupPayloadCodec \<Rightarrow> GroupManager \<Rightarrow> GroupRecord \<Rightarrow> SenderKeyRecordId \<Rightarrow> GroupSenderKeyMessage \<Rightarrow>
   BlindDecryptStep \<Rightarrow> GroupSenderKeyReceivePlan option res" where
  "conclude pc g gr i msg step = (case step of
     Pending \<Rightarrow> Inr None
   | Exhausted \<Rightarrow> complete (PendingDistribution (skm_group_id msg) (skm_sender_event_pubkey msg) None None)
   | Complete plan \<Rightarrow> plan_plaintext pc g gr i (skm_sender_event_pubkey msg)
       (ok_or (Option.bind (bt_get (sender_keys g) i) (\<lambda>r. bt_get (states r) (blind_key_id plan)))
          (group_error ''sender-key index points to missing state''))
       (blind_next_state plan) (blind_key_id plan) (blind_message_number plan) (blind_plaintext plan))"

lemma conclude_pending: "conclude pc g gr i msg step = Inr None \<longleftrightarrow> step = Pending"
  using plan_plaintext_cases by (fastforce simp: conclude_def split: BlindDecryptStep.splits)

lemma plan_hidden_conclude:
  "plan_hidden cr pc g gr i msg st =
     then_do (advance_blind_message cr g i msg (fst st) (snd st)) (\<lambda>step st. (conclude pc g gr i msg step, st))"
  by (cases "advance_blind_message cr g i msg (fst st) (snd st)"; cases "fst (advance_blind_message cr g i msg (fst st) (snd st))")
     (auto simp: plan_hidden_def conclude_def split: BlindDecryptStep.splits)

text \<open>Either the budget plays no role, or the outcome is that of the search.\<close>

lemma plan_shape:
  "(\<exists>out. out \<noteq> Inr None \<and> (\<forall>st. fst (plan_sender_key_message_with_budget cr pc g msg st) = out))
   \<or> (\<exists>i r gr. bt_get (sender_event_index g) (skm_sender_event_pubkey msg) = Some i \<and> bt_get (sender_keys g) i = Some r
        \<and> (\<forall>st. plan_sender_key_message_step cr pc g msg st = plan_hidden cr pc g gr i msg st))"
proof (cases "bt_get (sender_event_index g) (skm_sender_event_pubkey msg)")
  case None
  then show ?thesis
    by (auto simp: plan_sender_key_message_with_budget_def plan_sender_key_message_step_def case_prod_beta Let_def)
next
  case (Some i)
  show ?thesis
  proof (cases "id_group i = skm_group_id msg \<and> skm_encrypted_header msg \<noteq> None
      \<and> \<not> is_some_and (bt_get (sender_keys g) i) (\<lambda>r. sender_event_secret_key r \<noteq> None)
      \<and> is_some_and (bt_get (groups g) (id_group i)) (\<lambda>gr. is_sender_key_v1 (protocol gr) \<and> bt_contains_key (members gr) (id_owner i))")
    case hidden: True
    then obtain gr where gr: "bt_get (groups g) (id_group i) = Some gr" "is_sender_key_v1 (protocol gr)"
      "bt_contains_key (members gr) (id_owner i)" by (cases "bt_get (groups g) (id_group i)") auto
    have step: "plan_sender_key_message_step cr pc g msg st = plan_hidden cr pc g gr i msg st" for st
      using Some hidden gr by (auto simp: plan_sender_key_message_step_def Let_def)
    show ?thesis
    proof (cases "bt_get (sender_keys g) i")
      case None
      then have "fst (plan_sender_key_message_with_budget cr pc g msg st) =
          Inl (group_error ''sender-key index points to missing state'')" for st
        using step [of st]
        by (simp add: plan_sender_key_message_with_budget_def plan_hidden_def advance_blind_message_def case_prod_beta)
      then show ?thesis by blast
    next
      case r: (Some r)
      then show ?thesis using Some step by blast
    qed
  next
    case False
    have num: "plan_numbered cr pc g gr i msg \<noteq> Inr None" for gr
      using plan_numbered_cases [of cr pc g gr i msg None] by auto
    have "\<exists>out. out \<noteq> Inr None \<and> (\<forall>st. plan_sender_key_message_step cr pc g msg st = (out, st))"
    proof (cases "id_group i = skm_group_id msg \<and> \<not> is_some_and (bt_get (sender_keys g) i) (\<lambda>r. sender_event_secret_key r \<noteq> None)")
      case True
      with False num Some show ?thesis
        by (cases "bt_get (groups g) (id_group i)"; auto simp: plan_sender_key_message_step_def Let_def; metis complete_Some)
    next
      case own: False
      then have "plan_sender_key_message_step cr pc g msg st = (complete Ignored, st)" for st
        using Some by (auto simp: plan_sender_key_message_step_def Let_def)
      then show ?thesis using complete_Some by blast
    qed
    then show ?thesis by (auto simp: plan_sender_key_message_with_budget_def case_prod_beta)
  qed
qed

section \<open>Slices\<close>

lemma plan_outcome:
  assumes "\<And>st. plan_sender_key_message_step cr pc g msg st = plan_hidden cr pc g gr i msg st"
    and "bt_get (sender_keys g) i = Some r" "resumes i r msg c"
  shows "\<exists>step c' left. advance_blind_message cr g i msg c n = (Inr step, c', left)
    \<and> plan_sender_key_message_with_budget cr pc g msg (c, n) =
       (conclude pc g gr i msg step, if step = Pending then c' else None, left)"
proof -
  obtain step c' left where a: "advance_blind_message cr g i msg c n = (Inr step, c', left)"
    using advance_resumed [OF assms(2,3), of cr n]
    by (cases "search_keys cr (states r) (skm_ciphertext msg) (open_cursor i r msg c) n") simp
  then show ?thesis
    by (simp add: plan_sender_key_message_with_budget_def assms(1) plan_hidden_conclude conclude_pending)
qed

text \<open>
  Each slice works on the same state with the cursor the last one left, until one of them does not yield.
\<close>

fun plan_slices ::
  "'x crypto_scheme \<Rightarrow> GroupPayloadCodec \<Rightarrow> GroupManager \<Rightarrow> GroupSenderKeyMessage \<Rightarrow>
   GroupSenderKeyDecryptCursor option \<Rightarrow> nat list \<Rightarrow> GroupSenderKeyReceivePlan option res" where
  "plan_slices cr pc g msg c [] = Inr None"
| "plan_slices cr pc g msg c (n # ns) =
     (case plan_sender_key_message_with_budget cr pc g msg (c, n) of
        (Inr None, c', _) \<Rightarrow> plan_slices cr pc g msg c' ns
      | (out, _, _) \<Rightarrow> out)"

lemma plan_slices_hidden:
  assumes hidden: "\<And>st. plan_sender_key_message_step cr pc g msg st = plan_hidden cr pc g gr i msg st"
    and r: "bt_get (sender_keys g) i = Some r" "states_ok (states r)" and c: "resumes i r msg c" "cursor_ok cr c"
  shows "plan_slices cr pc g msg c (n # ns) = fst (plan_sender_key_message_with_budget cr pc g msg (c, n + sum_list ns))"
  using c
proof (induction ns arbitrary: c n)
  case Nil
  then show ?case using plan_outcome [OF hidden r(1) Nil(1), of n] by (auto split: sum.splits option.splits)
next
  case (Cons m ns)
  obtain step c' left where a: "advance_blind_message cr g i msg c n = (Inr step, c', left)"
    and p: "plan_sender_key_message_with_budget cr pc g msg (c, n) =
       (conclude pc g gr i msg step, if step = Pending then c' else None, left)"
    using plan_outcome [OF hidden r(1) Cons.prems(1)] by blast
  obtain step2 c2 left2 where a2: "advance_blind_message cr g i msg c (n + (m + sum_list ns)) = (Inr step2, c2, left2)"
    and p2: "plan_sender_key_message_with_budget cr pc g msg (c, n + (m + sum_list ns)) =
       (conclude pc g gr i msg step2, if step2 = Pending then c2 else None, left2)"
    using plan_outcome [OF hidden r(1) Cons.prems(1)] by blast
  note add = advance_blind_add [OF r Cons.prems, of n "m + sum_list ns", unfolded a a2]
  show ?case
  proof (cases "step = Pending")
    case True
    have c': "resumes i r msg c'" "cursor_ok cr c'" using advance_resumes [OF r Cons.prems a [unfolded True]] by simp_all
    obtain step3 c3 left3 where "advance_blind_message cr g i msg c' (m + sum_list ns) = (Inr step3, c3, left3)"
      "plan_sender_key_message_with_budget cr pc g msg (c', m + sum_list ns) =
         (conclude pc g gr i msg step3, if step3 = Pending then c3 else None, left3)"
      using plan_outcome [OF hidden r(1) c'(1)] by blast
    moreover have "conclude pc g gr i msg Pending = Inr None" by (simp add: conclude_pending)
    ultimately show ?thesis using Cons.IH [OF c'] add p p2 True by simp
  next
    case False
    then have "conclude pc g gr i msg step \<noteq> Inr None" by (simp add: conclude_pending)
    moreover have "step2 = step" using add False by (auto split: BlindDecryptStep.splits)
    ultimately show ?thesis using p p2 by (auto split: sum.splits option.splits)
  qed
qed

lemma resumes_none [simp]: "resumes i r msg None" by (simp add: resumes_def)

lemma plan_slices_sum:
  assumes "group_inv g"
  shows "plan_slices cr pc g msg None (n # ns) = fst (plan_sender_key_message_with_budget cr pc g msg (None, n + sum_list ns))"
  using plan_shape [of cr pc g msg]
proof (elim disjE exE conjE)
  fix out assume "out \<noteq> Inr None" "\<forall>st. fst (plan_sender_key_message_with_budget cr pc g msg st) = out"
  then show ?thesis by (auto simp: case_prod_beta split: sum.splits option.splits)
next
  fix i r gr
  assume "bt_get (sender_keys g) i = Some r" "\<forall>st. plan_sender_key_message_step cr pc g msg st = plan_hidden cr pc g gr i msg st"
  moreover from this have "states_ok (states r)" using group_invD(2) [OF assms] by (auto simp: sender_ok_def)
  ultimately show ?thesis by (intro plan_slices_hidden) (auto simp: cursor_ok_def)
qed

lemma plan_stable:
  assumes "group_inv g" "fst (plan_sender_key_message_with_budget cr pc g msg (None, a)) \<noteq> Inr None" "a \<le> b"
  shows "fst (plan_sender_key_message_with_budget cr pc g msg (None, b)) = fst (plan_sender_key_message_with_budget cr pc g msg (None, a))"
  using plan_slices_sum [OF assms(1), of cr pc msg a "[b - a]"] assms(2,3)
  by (auto simp: case_prod_beta split: sum.splits option.splits)

section \<open>Enough trials\<close>

definition search_bound :: "GroupManager \<Rightarrow> GroupSenderKeyMessage \<Rightarrow> nat" where
  "search_bound g msg =
     (case Option.bind (bt_get (sender_event_index g) (skm_sender_event_pubkey msg)) (bt_get (sender_keys g)) of
        None \<Rightarrow> 0
      | Some r \<Rightarrow> bt_len (states r) * KEY_TRIALS)"

lemma plan_decides:
  assumes "group_inv g" "search_bound g msg < n"
  shows "fst (plan_sender_key_message_with_budget cr pc g msg (None, n)) \<noteq> Inr None"
  using plan_shape [of cr pc g msg]
proof (elim disjE exE conjE)
  fix i r gr
  assume i: "bt_get (sender_event_index g) (skm_sender_event_pubkey msg) = Some i" "bt_get (sender_keys g) i = Some r"
    and hidden: "\<forall>st. plan_sender_key_message_step cr pc g msg st = plan_hidden cr pc g gr i msg st"
  have sts: "states_ok (states r)" using group_invD(2) [OF assms(1) i(2)] by (auto simp: sender_ok_def)
  obtain step c' left where a: "advance_blind_message cr g i msg None n = (Inr step, c', left)"
    and p: "plan_sender_key_message_with_budget cr pc g msg (None, n) =
       (conclude pc g gr i msg step, if step = Pending then c' else None, left)"
    using plan_outcome [of cr pc g msg gr i r None n] hidden i(2) by auto
  have "fst (search_keys cr (states r) (skm_ciphertext msg) (open_cursor i r msg None) n) \<noteq> Pending"
    using assms(2) i by (intro search_keys_decides [OF sts]) (simp_all add: open_cursor_def search_bound_def)
  then have "step \<noteq> Pending" using a advance_resumed [OF i(2), of msg None cr n] by (auto split: prod.splits)
  then show ?thesis using p by (simp add: conclude_pending)
qed auto

lemma search_bound_unlimited: "search_bound g msg < USIZE_MAX"
proof -
  have "bt_len (states r) \<le> 2 ^ 32" for r :: SenderKeyRecord
  proof -
    have "bt_len (states r) \<le> card (UNIV :: u32 set)" unfolding bt_len_card by (rule card_mono) simp_all
    then show ?thesis by (simp add: card_word)
  qed
  then have "bt_len (states r) * KEY_TRIALS \<le> 2 ^ 32 * KEY_TRIALS" for r :: SenderKeyRecord by (rule mult_le_mono1)
  moreover have "2 ^ 32 * KEY_TRIALS < USIZE_MAX"
    by (simp add: KEY_TRIALS_def SENDER_KEY_MAX_STORED_SKIPPED_KEYS_def SENDER_KEY_MAX_SKIP_def USIZE_MAX_def)
  ultimately have "bt_len (states r) * KEY_TRIALS < USIZE_MAX" for r :: SenderKeyRecord by (rule le_less_trans)
  then show ?thesis by (simp add: search_bound_def USIZE_MAX_def split: option.splits)
qed

text \<open>
  C24. The search for the key of a message ends: in every run, handling a message with the unlimited budget
  always decides, so that the error for an unfinished search is unreachable; and planning in slices decides
  as soon as the budgets of the slices exceed \<open>KEY_TRIALS\<close>, 12,002 trials, for each key of the sender, however
  they are cut.
\<close>

theorem sender_key_search_ends:
  assumes "group_manages cr pc g"
  shows "fst (handle_sender_key_message_with_budget cr pc msg (g, None, USIZE_MAX)) \<noteq> Inr None
    \<and> (\<forall>n ns. search_bound g msg < sum_list (n # ns) \<longrightarrow> plan_slices cr pc g msg None (n # ns) \<noteq> Inr None)"
proof -
  note inv = group_manages_inv [OF assms]
  have "fst (plan_sender_key_message_with_budget cr pc g msg (None, USIZE_MAX)) \<noteq> Inr None"
    by (rule plan_decides [OF inv search_bound_unlimited])
  then have "fst (handle_sender_key_message_with_budget cr pc msg (g, None, USIZE_MAX)) \<noteq> Inr None"
    by (auto simp: handle_sender_key_message_with_budget_def result_simps split: prod.splits sum.splits option.splits)
  moreover have "plan_slices cr pc g msg None (n # ns) \<noteq> Inr None" if "search_bound g msg < sum_list (n # ns)" for n ns
    using plan_decides [OF inv that, of cr pc] plan_slices_sum [OF inv, of cr pc msg n ns] by simp
  ultimately show ?thesis by blast
qed

text \<open>
  C25. Planning in slices is planning at once: when any sequence of slices comes to an outcome, whatever the
  budget of each, it is the outcome of one unlimited search on the same state.
\<close>

theorem sliced_planning_agrees:
  assumes "group_manages cr pc g" "plan_slices cr pc g msg None ns \<noteq> Inr None"
  shows "plan_slices cr pc g msg None ns = fst (plan_sender_key_message_with_budget cr pc g msg (None, USIZE_MAX))"
proof (cases ns)
  case (Cons n ms)
  note inv = group_manages_inv [OF assms(1)]
  let ?f = "\<lambda>k. fst (plan_sender_key_message_with_budget cr pc g msg (None, k))" and ?k = "n + sum_list ms"
  have s: "plan_slices cr pc g msg None ns = ?f ?k" using plan_slices_sum [OF inv] Cons by simp
  have "?f (max ?k USIZE_MAX) = ?f ?k" using assms(2) s by (intro plan_stable [OF inv]) simp_all
  moreover have "?f (max ?k USIZE_MAX) = ?f USIZE_MAX"
    using plan_decides [OF inv search_bound_unlimited] by (intro plan_stable [OF inv]) simp_all
  ultimately show ?thesis using s by simp
qed (use assms(2) in simp)

end
