(* ===== verification/Group_Demo_Receive.thy ===== *)
theory Group_Demo_Receive
  imports Group_Demo Group_Repair Group_Slices
begin

text \<open>
  The demonstration run continued: the second owner learns the sender key and receives the message, a
  sibling device of the first owner follows, and a lost key is asked for again.
\<close>

text \<open>What the first device announces and sends under the key it drew.\<close>

definition demo_distribution :: SenderKeyDistribution where
  "demo_distribution = \<lparr>dist_group_id = demo_gid, dist_key_id = 27, dist_sender_event_pubkey = DevicePubkey [26],
     dist_chain_key = [28], dist_iteration = 0, dist_created_at = 100\<rparr>"

definition demo_message :: GroupSenderKeyMessage where
  "demo_message = \<lparr>skm_group_id = demo_gid, skm_sender_event_pubkey = DevicePubkey [26], skm_key_id = 27,
     skm_message_number = 0, skm_encrypted_header = None, skm_created_at = 100,
     skm_ciphertext = encrypt_ciphertext (projr (plan_encrypt demo_full 0 (sender_key_new 27 [28] 0) [9]))\<rparr>"

text \<open>A manager that has learned the group and the key of the first device.\<close>

definition demo_keyed :: "OwnerPubkey \<Rightarrow> GroupManager" where
  "demo_keyed ow = snd (handle_pairwise_payload_inner demo_full demo_codec (OwnerPubkey [1]) (Some (DevicePubkey [1]))
     (2 # encode_distribution demo_distribution)
     (snd (handle_pairwise_payload_inner demo_full demo_codec (OwnerPubkey [1]) (Some (DevicePubkey [1])) [1]
        (group_manager_new ow))))"

lemma demo_keyed_run: "group_manages demo_full demo_codec (demo_keyed ow)"
  unfolding demo_keyed_def by (intro manages_payload [OF _ prod.collapse [symmetric]] manages_new)

abbreviation "demo_receiver \<equiv> demo_keyed (OwnerPubkey [2])"

definition demo_received_group :: "GroupSenderKeyHandleResult res \<times> GroupManager" where
  "demo_received_group = handle_sender_key_message demo_full demo_codec demo_message demo_receiver"

definition demo_report :: GroupReceivedMessage where
  "demo_report = \<lparr>grm_group_id = demo_gid, grm_sender_owner = OwnerPubkey [1], grm_sender_device = Some (DevicePubkey [1]),
     grm_body = [9], grm_revision = 1\<rparr>"

text \<open>The budget plays no role for a message with a visible number.\<close>

lemma handle_numbered_unlimited:
  assumes "skm_encrypted_header msg = None"
  shows "fst (handle_sender_key_message cr pc msg g) = and_then (fst (handle_sender_key_message_with_budget cr pc msg (g, None, 0)))
    (\<lambda>out. ok_or out (group_error ''unlimited sender-key search did not finish''))"
proof -
  have "plan_sender_key_message_with_budget cr pc g msg (None, n) =
      (fst (plan_sender_key_message_with_budget cr pc g msg (None, 0)), None, n)" for n
    using assms
    by (auto simp: plan_sender_key_message_with_budget_def plan_sender_key_message_step_def Let_def split: option.splits)
  from this [of USIZE_MAX] this [of 0] show ?thesis
    unfolding handle_sender_key_message_def handle_sender_key_message_with_budget_def
    by (auto split: prod.splits sum.splits option.splits)
qed

lemma demo_received_group_event: "fst demo_received_group = Inr (GroupEvent (GroupMessageEvent demo_report))"
proof -
  have "skm_encrypted_header demo_message = None" by code_simp
  moreover have "fst (handle_sender_key_message_with_budget demo_full demo_codec demo_message (demo_receiver, None, 0)) =
      Inr (Some (GroupEvent (GroupMessageEvent demo_report)))" by code_simp
  ultimately show ?thesis unfolding demo_received_group_def by (simp add: handle_numbered_unlimited)
qed

theorem group_replay_rejected_witness:
  "fst (handle_sender_key_message demo_full demo_codec demo_message (snd demo_received_group))
     \<noteq> Inr (GroupEvent (GroupMessageEvent demo_report))"
proof
  assume again: "fst (handle_sender_key_message demo_full demo_codec demo_message (snd demo_received_group))
     = Inr (GroupEvent (GroupMessageEvent demo_report))"
  have first: "handle_sender_key_message demo_full demo_codec demo_message demo_receiver =
      (Inr (GroupEvent (GroupMessageEvent demo_report)), snd demo_received_group)"
    using demo_received_group_event unfolding demo_received_group_def by (metis prod.collapse)
  have "skm_encrypted_header demo_message = None" "grm_sender_owner demo_report \<noteq> gm_local_owner_pubkey demo_receiver"
    by code_simp+
  from group_replay_rejected [OF demo_keyed_run first this run_start] again
  show False by (metis prod.collapse)
qed

text \<open>The same message with a hidden header, found by searching two keys at a time.\<close>

definition demo_hidden :: GroupSenderKeyMessage where
  "demo_hidden = demo_message\<lparr>skm_encrypted_header := Some ''sealed''\<rparr>"

theorem sliced_planning_agrees_witness:
  "plan_slices demo_full demo_codec demo_receiver demo_hidden None [0, 2, 2] =
     fst (plan_sender_key_message_with_budget demo_full demo_codec demo_receiver demo_hidden (None, USIZE_MAX))"
proof (rule sliced_planning_agrees [OF demo_keyed_run])
  show "plan_slices demo_full demo_codec demo_receiver demo_hidden None [0, 2, 2] \<noteq> Inr None" by code_simp
qed

theorem sender_key_search_ends_witness:
  "fst (handle_sender_key_message_with_budget demo_full demo_codec demo_hidden (demo_receiver, None, USIZE_MAX)) \<noteq> Inr None"
  by (rule conjunct1 [OF sender_key_search_ends [OF demo_keyed_run]])

abbreviation "demo_sibling \<equiv> demo_keyed (OwnerPubkey [1])"

theorem sibling_stream_displaced_witness:
  "\<exists>g'. observe_sender_key_distribution demo_full (OwnerPubkey [2]) (DevicePubkey [2]) demo_distribution demo_sibling = (Inr (), g')
    \<and> bt_get (sender_keys g') (demo_gid, OwnerPubkey [1], DevicePubkey [1]) = None"
proof -
  let ?i = "(demo_gid, OwnerPubkey [1], DevicePubkey [1])"
  define r where "r = the (bt_get (groups demo_sibling) demo_gid)"
  define sr where "sr = the (bt_get (sender_keys demo_sibling) ?i)"
  have "bt_get (groups demo_sibling) demo_gid \<noteq> None" by code_simp
  then have r: "bt_get (groups demo_sibling) demo_gid = Some r" by (simp add: r_def)
  have "bt_get (sender_keys demo_sibling) ?i \<noteq> None" by code_simp
  then have sr: "bt_get (sender_keys demo_sibling) ?i = Some sr" by (simp add: sr_def)
  have facts: "protocol r = sender_key_v1" "bt_contains_key (members r) (OwnerPubkey [2])"
    "bt_contains_key (members r) (OwnerPubkey [1])" "sender_event_secret_key sr = None" "dist_group_id demo_distribution = demo_gid"
    "dist_sender_event_pubkey demo_distribution = sender_event_pubkey sr" "OwnerPubkey [2] \<noteq> OwnerPubkey [1]"
    unfolding r_def sr_def by code_simp+
  have local: "gm_local_owner_pubkey demo_sibling = OwnerPubkey [1]" by code_simp
  show ?thesis
    using sibling_stream_displaced [OF demo_keyed_run r facts(1,2), of "DevicePubkey [1]" sr demo_distribution "DevicePubkey [2]"]
      sr facts unfolding local by blast
qed

definition demo_request :: SenderKeyRepairRequest where
  "demo_request = \<lparr>req_group_id = demo_gid, req_sender_event_pubkey = DevicePubkey [26], req_key_id = Some 27,
     req_message_number = Some 0, req_required_revision = None, req_created_at = 120\<rparr>"

definition demo_answer :: "GroupPreparedSend res \<times> gstate" where
  "demo_answer = respond_to_sender_key_repair_request demo_full demo_codec 121 (OwnerPubkey [2]) demo_request
     (demo_group_manager, demo_sessions, [], 0)"

theorem repair_answers_recipients_witness:
  "\<exists>k sr. bt_get (sender_keys demo_group_manager) (demo_gid, OwnerPubkey [1], k) = Some sr
    \<and> sender_event_secret_key sr \<noteq> None
    \<and> distributed sr (dist_key_id (hd (fst (repair_answer demo_group_manager (OwnerPubkey [2]) demo_request)))) (OwnerPubkey [2])"
proof -
  have "is_ok (fst demo_answer)" by code_simp
  then have ok: "respond_to_sender_key_repair_request demo_full demo_codec 121 (OwnerPubkey [2]) demo_request
     (demo_group_manager, demo_sessions, [], 0) = (Inr (projr (fst demo_answer)), snd demo_answer)"
    unfolding demo_answer_def by (metis is_ok_iff prod.collapse sum.sel(2))
  have "fst (repair_answer demo_group_manager (OwnerPubkey [2]) demo_request) \<noteq> []" by code_simp
  then have "hd (fst (repair_answer demo_group_manager (OwnerPubkey [2]) demo_request))
      \<in> set (fst (repair_answer demo_group_manager (OwnerPubkey [2]) demo_request))" by simp
  moreover have "req_group_id demo_request = demo_gid" by (simp add: demo_request_def)
  ultimately show ?thesis
    using conjunct1 [OF repair_answers_recipients [OF demo_group_run ok]] demo_group_stored(3) by fastforce
qed

theorem repair_retry_schedule_witness:
  "30 \<le> sender_key_repair_default_retry_delay_secs 3
    \<and> sender_key_repair_default_retry_delay_secs 2 \<le> sender_key_repair_default_retry_delay_secs 7"
  using repair_retry_schedule [of 3 7 0] repair_retry_schedule [of 2 7 0] by simp

end
