(* ===== verification/Subscription_Tracking.thy ===== *)
theory Subscription_Tracking
  imports Subscriptions
begin

text \<open>
  Correctness of the subscription trackers. The locale \<open>counted_index\<close> is the contract of one index of
  keys by subscription with its reference counts; it is interpreted on the direct-message tracker and on
  the four indexes of the runtime tracker. Its client lemmas follow every sequence of calls and relate
  the counts to the subscriptions that are active after it.
\<close>

declare split_paired_All [simp del] split_paired_Ex [simp del]

section \<open>Reading a subscription\<close>

lemma trim_idem [simp]: "trim (trim s) = trim s"
proof -
  have drop_idem: "dropWhile P (dropWhile P xs) = dropWhile P xs" for P and xs :: string
    by (induction xs) auto
  have hd_drop: "dropWhile P xs = [] \<or> \<not> P (hd (dropWhile P xs))" for P and xs :: string
    by (metis hd_dropWhile)
  let ?u = "dropWhile is_whitespace s"
  have "dropWhile is_whitespace (rev (dropWhile is_whitespace (rev ?u))) = rev (dropWhile is_whitespace (rev ?u))"
  proof (cases ?u)
    case (Cons c u)
    have "rev (dropWhile is_whitespace (rev ?u)) = take (length (dropWhile is_whitespace (rev ?u))) ?u"
      by (metis dropWhile_eq_drop length_rev rev_drop rev_rev_ident length_drop)
    then show ?thesis using hd_drop [of is_whitespace s] Cons
      by (cases "length (dropWhile is_whitespace (rev ?u))") auto
  qed (simp only: list.simps rev.simps dropWhile.simps)
  then show ?thesis by (simp add: trim_def trim_start_def drop_idem)
qed

lemma distinct_parse_pubkey_values [simp]: "distinct (parse_pubkey_values cr values)"
proof -
  have "distinct ks \<Longrightarrow> distinct (fold (parse_pubkey_value cr) vs ks)" for vs ks
    by (induction vs arbitrary: ks)
      (auto simp: parse_pubkey_value_def Let_def split: option.splits sum.splits)
  then show ?thesis by (simp add: parse_pubkey_values_def split: option.splits)
qed

lemma subscription_keys_distinct [simp]:
  "distinct (app_keys_subscription_authors cr from_str subid filter_json)"
  "distinct (direct_message_subscription_authors cr from_str subid filter_json)"
  "distinct (direct_message_subscription_recipients cr from_str subid filter_json)"
  "distinct (invite_response_subscription_recipients cr from_str subid filter_json)"
  by (simp_all add: app_keys_subscription_authors_def direct_message_subscription_authors_def
    direct_message_subscription_recipients_def invite_response_subscription_recipients_def
    split: option.splits)

lemma subscription_keys_trim [simp]:
  "app_keys_subscription_authors cr from_str (trim subid) = app_keys_subscription_authors cr from_str subid"
  "direct_message_subscription_authors cr from_str (trim subid) = direct_message_subscription_authors cr from_str subid"
  "direct_message_subscription_recipients cr from_str (trim subid) = direct_message_subscription_recipients cr from_str subid"
  "invite_response_subscription_recipients cr from_str (trim subid) = invite_response_subscription_recipients cr from_str subid"
  by (simp_all add: fun_eq_iff app_keys_subscription_authors_def direct_message_subscription_authors_def
    direct_message_subscription_recipients_def invite_response_subscription_recipients_def)

section \<open>Counting\<close>

definition ref_count :: "ref_counts \<Rightarrow> PublicKey \<Rightarrow> nat" where
  "ref_count counts k = (case bt_get counts k of None \<Rightarrow> 0 | Some n \<Rightarrow> n)"

definition listed :: "by_subid \<Rightarrow> string \<Rightarrow> PublicKey \<Rightarrow> bool" where
  "listed m subid k \<longleftrightarrow> (\<exists>ks. bt_get m subid = Some ks \<and> k \<in> set ks)"

text \<open>The counts are those of the index: an entry per key some subscription lists, and its value the
  number of those subscriptions.\<close>

definition counted :: "by_subid \<times> ref_counts \<Rightarrow> bool" where
  "counted = (\<lambda>(m, counts). (\<forall>k. ref_count counts k = card {subid. listed m subid k})
     \<and> (\<forall>k. bt_get counts k \<noteq> Some 0) \<and> (\<forall>subid ks. bt_get m subid = Some ks \<longrightarrow> distinct ks))"

lemma finite_listed [simp]: "finite {subid. listed m subid k}"
  by (rule finite_subset [OF _ bt.finite_dom [of m]]) (auto simp: listed_def)

lemma listed_empty [simp]: "\<not> listed bt_empty subid k"
  by (simp add: listed_def)

lemma listed_insert: "listed (bt_insert s ks m) subid k \<longleftrightarrow> (if subid = s then k \<in> set ks else listed m subid k)"
  by (auto simp: listed_def)

lemma listed_remove: "listed (bt_remove s m) subid k \<longleftrightarrow> subid \<noteq> s \<and> listed m subid k"
  by (auto simp: listed_def)

lemma counted_empty [simp]: "counted (bt_empty, bt_empty)"
  by (simp add: counted_def ref_count_def listed_def)

lemma count_pubkeys:
  assumes "distinct ks"
  shows "fst (fold count_pubkey ks (added, counts)) = added @ filter (\<lambda>k. ref_count counts k = 0) ks"
    and "bt_get (snd (fold count_pubkey ks (added, counts))) k =
      (if k \<in> set ks then Some (ref_count counts k + 1) else bt_get counts k)"
proof -
  have "fst (fold count_pubkey ks (added, counts)) = added @ filter (\<lambda>k. ref_count counts k = 0) ks
    \<and> (\<forall>k. bt_get (snd (fold count_pubkey ks (added, counts))) k =
      (if k \<in> set ks then Some (ref_count counts k + 1) else bt_get counts k))"
    using assms
  proof (induction ks arbitrary: added counts)
    case (Cons x ks)
    have "filter (\<lambda>k. ref_count (bt_insert x n counts) k = 0) ks = filter (\<lambda>k. ref_count counts k = 0) ks" for n
      using Cons.prems by (auto intro!: filter_cong simp: ref_count_def)
    with Cons show ?case by (auto simp: count_pubkey_def Let_def ref_count_def)
  qed simp
  then show "fst (fold count_pubkey ks (added, counts)) = added @ filter (\<lambda>k. ref_count counts k = 0) ks"
    and "bt_get (snd (fold count_pubkey ks (added, counts))) k =
      (if k \<in> set ks then Some (ref_count counts k + 1) else bt_get counts k)" by auto
qed

lemma release_pubkeys:
  assumes "distinct ks" "\<And>k. k \<in> set ks \<Longrightarrow> ref_count counts k > 0"
  shows "bt_get (fold release_pubkey ks counts) k =
    (if k \<in> set ks then if ref_count counts k = 1 then None else Some (ref_count counts k - 1) else bt_get counts k)"
  using assms
proof (induction ks arbitrary: counts)
  case (Cons x ks)
  let ?c = "release_pubkey x counts"
  have get: "bt_get ?c y = (if y = x then if ref_count counts x = 1 then None else Some (ref_count counts x - 1)
      else bt_get counts y)" for y
    using Cons.prems(2) [of x] by (auto simp: release_pubkey_def Let_def ref_count_def split: option.splits)
  then have "y \<noteq> x \<Longrightarrow> ref_count ?c y = ref_count counts y" for y by (simp add: ref_count_def)
  moreover have "\<And>y. y \<in> set ks \<Longrightarrow> ref_count ?c y > 0"
    using Cons.prems calculation by (metis distinct.simps(2) list.set_intros(2))
  moreover have "k \<in> set ks \<Longrightarrow> ref_count ?c k = ref_count counts k" using Cons.prems(1) calculation(1) [of k] by auto
  ultimately show ?case using Cons.IH [of ?c] Cons.prems get by auto
qed simp

lemma counted_ref:
  assumes "counted (m, counts)"
  shows "ref_count counts k = card {subid. listed m subid k}"
    and "bt_get counts k \<noteq> None \<longleftrightarrow> (\<exists>subid. listed m subid k)"
    and "ref_count counts k = 0 \<longleftrightarrow> (\<forall>subid. \<not> listed m subid k)"
proof -
  show c: "ref_count counts k = card {subid. listed m subid k}" using assms by (simp add: counted_def)
  then show z: "ref_count counts k = 0 \<longleftrightarrow> (\<forall>subid. \<not> listed m subid k)" by (simp add: card_eq_0_iff)
  have "bt_get counts k \<noteq> None \<longleftrightarrow> ref_count counts k \<noteq> 0"
  proof -
    have "bt_get counts k \<noteq> Some 0" using assms by (simp add: counted_def)
    then show ?thesis by (cases "bt_get counts k") (simp_all add: ref_count_def)
  qed
  with z show "bt_get counts k \<noteq> None \<longleftrightarrow> (\<exists>subid. listed m subid k)" by simp
qed

lemma counted_unregister:
  assumes "counted (m, counts)"
  shows "counted (unregister_pubkeys subid (m, counts))"
    and "listed (fst (unregister_pubkeys subid (m, counts))) s k \<longleftrightarrow> s \<noteq> subid \<and> listed m s k"
proof -
  have "counted (unregister_pubkeys subid (m, counts))
    \<and> (\<forall>s k. listed (fst (unregister_pubkeys subid (m, counts))) s k \<longleftrightarrow> s \<noteq> subid \<and> listed m s k)"
  proof (cases "bt_get m subid")
    case None
    then show ?thesis using assms by (auto simp: unregister_pubkeys_def listed_def)
  next
    case (Some ks)
    have dist: "distinct ks" using assms Some by (auto simp: counted_def)
    have ls: "listed m subid k \<longleftrightarrow> k \<in> set ks" for k using Some by (simp add: listed_def)
    have split: "{s. s \<noteq> subid \<and> listed m s k} = {s. listed m s k} - {subid}" for k by auto
    have pos: "k \<in> set ks \<Longrightarrow> 0 < ref_count counts k" for k
      using counted_ref(3) [OF assms, of k] ls by auto
    have "ref_count (fold release_pubkey ks counts) k = card ({s. listed m s k} - {subid})" for k
      using release_pubkeys [OF dist pos, where k = k] counted_ref(1) [OF assms, of k] ls [of k]
      by (auto simp: ref_count_def card_Diff_singleton_if split: if_splits)
    moreover have "bt_get (fold release_pubkey ks counts) k \<noteq> Some 0" for k
      using release_pubkeys [OF dist pos, where k = k] pos [of k] assms by (auto simp: counted_def)
    ultimately show ?thesis using Some assms
      by (auto simp: unregister_pubkeys_def counted_def listed_remove split split: if_splits)
  qed
  then show "counted (unregister_pubkeys subid (m, counts))"
    and "listed (fst (unregister_pubkeys subid (m, counts))) s k \<longleftrightarrow> s \<noteq> subid \<and> listed m s k" by auto
qed

lemma counted_register:
  assumes "counted (m, counts)" "distinct ks" "\<And>k. \<not> listed m subid k"
    and reg: "register_pubkeys cr subid ks (m, counts) = (added, m', counts')"
  shows "counted (m', counts')"
    and "listed m' s k \<longleftrightarrow> (if s = subid then k \<in> set ks else listed m s k)"
    and "added = sort_key (hex_encode cr) (filter (\<lambda>k. \<forall>s. \<not> listed m s k) ks)"
proof -
  have "counted (m', counts') \<and> (\<forall>s k. listed m' s k \<longleftrightarrow> (if s = subid then k \<in> set ks else listed m s k))
    \<and> added = sort_key (hex_encode cr) (filter (\<lambda>k. \<forall>s. \<not> listed m s k) ks)"
  proof (cases "ks = []")
    case True
    then show ?thesis using assms by (auto simp: register_pubkeys_def)
  next
    case False
    let ?r = "fold count_pubkey ks ([], counts)"
    have eq: "added = sort_key (hex_encode cr) (fst ?r)" "m' = bt_insert subid ks m" "counts' = snd ?r"
      using reg False by (auto simp: register_pubkeys_def split: prod.splits)
    have add: "{s. listed m' s k} = (if k \<in> set ks then insert subid {s. listed m s k} else {s. listed m s k})" for k
      using assms(3) eq(2) by (auto simp: listed_insert)
    have "ref_count counts' k = card {s. listed m' s k}" for k
      using count_pubkeys(2) [OF assms(2), of "[]" counts k] counted_ref(1) [OF assms(1), of k] assms(3) [of k]
      by (auto simp: add eq(3) ref_count_def)
    moreover have "bt_get counts' k \<noteq> Some 0" for k
      using count_pubkeys(2) [OF assms(2), of "[]" counts k] assms(1) by (auto simp: eq(3) counted_def)
    ultimately have "counted (m', counts')" using assms(1,2) eq(2) by (auto simp: counted_def)
    then show ?thesis
      using eq count_pubkeys(1) [OF assms(2), of "[]" counts] counted_ref(3) [OF assms(1)]
      by (simp add: listed_insert)
  qed
  then show "counted (m', counts')"
    and "listed m' s k \<longleftrightarrow> (if s = subid then k \<in> set ks else listed m s k)"
    and "added = sort_key (hex_encode cr) (filter (\<lambda>k. \<forall>s. \<not> listed m s k) ks)" by auto
qed


section \<open>The contract of an index\<close>

datatype subscription_call = Register string string | Unregister string

text \<open>The subscriptions that are active after a sequence of calls, with the filter each has.\<close>

definition active_call :: "subscription_call \<Rightarrow> (string \<rightharpoonup> string) \<Rightarrow> (string \<rightharpoonup> string)" where
  "active_call c m = (case c of
     Register subid filter_json \<Rightarrow> if trim subid = [] then m else m(trim subid \<mapsto> filter_json)
   | Unregister subid \<Rightarrow> m(trim subid := None))"

definition active :: "subscription_call list \<Rightarrow> string \<rightharpoonup> string" where
  "active calls = fold active_call calls Map.empty"

lemma active_empty_id [simp]: "active calls [] = None"
proof -
  have "m [] = None \<Longrightarrow> fold active_call calls m [] = None" for m
    by (induction calls arbitrary: m) (auto simp: active_call_def split: subscription_call.splits)
  then show ?thesis by (simp add: active_def)
qed

text \<open>The keys that the active subscriptions ask for.\<close>

definition asked_keys :: "(string \<Rightarrow> string \<Rightarrow> PublicKey list) \<Rightarrow> subscription_call list \<Rightarrow> PublicKey set" where
  "asked_keys wanted calls = {k. \<exists>subid j. active calls subid = Some j \<and> k \<in> set (wanted subid j)}"

text \<open>The state after a sequence of calls, and the relation between an index and the active subscriptions.\<close>

definition index_call ::
  "(string \<Rightarrow> string \<Rightarrow> 's \<Rightarrow> PublicKey list \<times> 's) \<Rightarrow> (string \<Rightarrow> 's \<Rightarrow> 's) \<Rightarrow> subscription_call \<Rightarrow> 's \<Rightarrow> 's" where
  "index_call register unregister c s = (case c of
     Register subid j \<Rightarrow> snd (register subid j s) | Unregister subid \<Rightarrow> unregister subid s)"

definition index_follows ::
  "(string \<Rightarrow> string \<Rightarrow> PublicKey list) \<Rightarrow> (string \<rightharpoonup> string) \<Rightarrow> by_subid \<times> ref_counts \<Rightarrow> bool" where
  "index_follows wanted m i \<longleftrightarrow> counted i
     \<and> (\<forall>subid k. listed (fst i) subid k \<longleftrightarrow> (\<exists>j. m subid = Some j \<and> k \<in> set (wanted subid j)))"

locale counted_index =
  fixes cr :: "'x crypto_scheme"
    and index :: "'s \<Rightarrow> by_subid \<times> ref_counts"
    and wanted :: "string \<Rightarrow> string \<Rightarrow> PublicKey list"
    and new :: "'s"
    and register :: "string \<Rightarrow> string \<Rightarrow> 's \<Rightarrow> PublicKey list \<times> 's"
    and unregister :: "string \<Rightarrow> 's \<Rightarrow> 's"
  assumes index_new: "index new = (bt_empty, bt_empty)"
    and wanted_distinct: "distinct (wanted subid j)"
    and index_unregister: "index (unregister subid s) =
      (if trim subid = [] then index s else unregister_pubkeys (trim subid) (index s))"
    and index_register: "(fst (register subid j s), index (snd (register subid j s))) =
      (if trim subid = [] then ([], index s)
       else register_pubkeys cr (trim subid) (wanted (trim subid) j) (unregister_pubkeys (trim subid) (index s)))"
begin

lemma follows_new: "index_follows wanted Map.empty (index new)"
  by (simp add: index_follows_def index_new)

lemma follows_unregister: "index_follows wanted m (index s) \<Longrightarrow> m [] = None \<Longrightarrow> index_follows wanted (m(trim subid := None)) (index (unregister subid s))"
  by (cases "index s") (auto simp: index_follows_def index_unregister counted_unregister)

lemma register_follows:
  assumes "index_follows wanted m (index s)" "trim subid \<noteq> []"
  shows "index_follows wanted (m(trim subid \<mapsto> j)) (index (snd (register subid j s)))"
    and "fst (register subid j s) = sort_key (hex_encode cr) (filter (\<lambda>k. \<forall>s j'. s \<noteq> trim subid \<longrightarrow> m s = Some j' \<longrightarrow>
      k \<notin> set (wanted s j')) (wanted (trim subid) j))"
proof -
  let ?u = "unregister_pubkeys (trim subid) (index s)"
  obtain m0 c0 where s0: "index s = (m0, c0)" by (cases "index s")
  have cu: "counted ?u" and lu: "\<And>s' k. listed (fst ?u) s' k \<longleftrightarrow> s' \<noteq> trim subid \<and> listed (fst (index s)) s' k"
    using counted_unregister [of m0 c0] assms(1) s0 by (auto simp: index_follows_def)
  obtain m1 c1 where u: "?u = (m1, c1)" by (cases ?u)
  obtain added m2 c2 where r: "register_pubkeys cr (trim subid) (wanted (trim subid) j) (m1, c1) = (added, m2, c2)"
    by (cases "register_pubkeys cr (trim subid) (wanted (trim subid) j) (m1, c1)")
  have e: "fst (register subid j s) = added" "index (snd (register subid j s)) = (m2, c2)"
    using index_register [of subid j s] assms(2) u r by auto
  note reg = counted_register [OF cu [unfolded u] wanted_distinct _ r]
  have no: "\<not> listed m1 (trim subid) k" for k using lu [of "trim subid" k] u by simp
  show "index_follows wanted (m(trim subid \<mapsto> j)) (index (snd (register subid j s)))"
    using assms(1) reg [OF no] lu u e by (auto simp: index_follows_def)
  have "(\<forall>s'. \<not> listed m1 s' k) \<longleftrightarrow> (\<forall>s j'. s \<noteq> trim subid \<longrightarrow> m s = Some j' \<longrightarrow> k \<notin> set (wanted s j'))" for k
    using assms(1) lu u by (auto simp: index_follows_def)
  then show "fst (register subid j s) = sort_key (hex_encode cr) (filter (\<lambda>k. \<forall>s j'. s \<noteq> trim subid \<longrightarrow> m s = Some j' \<longrightarrow>
      k \<notin> set (wanted s j')) (wanted (trim subid) j))"
    using reg(3) [OF no] e(1) by simp
qed

lemma register_blank: "trim subid = [] \<Longrightarrow> fst (register subid j s) = [] \<and> index (snd (register subid j s)) = index s"
  using index_register [of subid j s] by simp

lemma follows_call: "index_follows wanted m (index s) \<Longrightarrow> m [] = None \<Longrightarrow> index_follows wanted (active_call c m) (index (index_call register unregister c s))"
proof (induction c)
  case (Register subid j)
  then show ?case using register_follows(1) [of m s subid j] register_blank [of subid j s]
    by (auto simp: index_call_def active_call_def index_follows_def)
next
  case (Unregister subid)
  then show ?case using follows_unregister [of m s subid] by (simp add: index_call_def active_call_def fun_upd_def)
qed

lemma run_follows: "index_follows wanted (active calls) (index (fold (index_call register unregister) calls new))"
proof (induction calls rule: rev_induct)
  case Nil
  show ?case by (simp add: active_def follows_new)
next
  case (snoc c calls)
  then show ?case using follows_call [of "active calls" "fold (index_call register unregister) calls new" c] active_empty_id [of calls]
    by (simp add: active_def)
qed

text \<open>The keys listed are the keys asked for, and a registration reports what no other subscription
  asks for.\<close>

lemma run_tracked:
  "set (sorted_pubkeys cr (snd (index (fold (index_call register unregister) calls new)))) = asked_keys wanted calls"
  "distinct (sorted_pubkeys cr (snd (index (fold (index_call register unregister) calls new))))"
  "sorted (map (hex_encode cr) (sorted_pubkeys cr (snd (index (fold (index_call register unregister) calls new)))))"
  using run_follows [of calls] counted_ref(2) [of "fst (index (fold (index_call register unregister) calls new))" "snd (index (fold (index_call register unregister) calls new))"]
  by (auto simp: sorted_pubkeys_def index_follows_def asked_keys_def set_bt_keys)

lemma run_ref_count: "ref_count (snd (index (fold (index_call register unregister) calls new))) k =
    card {subid. \<exists>j. active calls subid = Some j \<and> k \<in> set (wanted subid j)}"
  using run_follows [of calls] counted_ref(1) [of "fst (index (fold (index_call register unregister) calls new))" "snd (index (fold (index_call register unregister) calls new))" k]
  by (simp add: index_follows_def)

lemma run_register:
  assumes "trim subid \<noteq> []"
  shows "fst (register subid j (fold (index_call register unregister) calls new)) = sort_key (hex_encode cr) (filter (\<lambda>k. k \<notin>
    asked_keys wanted (calls @ [Unregister subid])) (wanted (trim subid) j))"
proof -
  have "active (calls @ [Unregister subid]) = (active calls)(trim subid := None)"
    by (simp add: active_def active_call_def)
  then show ?thesis using register_follows(2) [OF run_follows assms, of j calls]
    by (auto simp: asked_keys_def intro!: arg_cong [where f = "sort_key (hex_encode cr)"] filter_cong split: if_splits)
qed

end

section \<open>Interpretations\<close>

definition app_keys_index :: "RuntimeSubscriptionTracker \<Rightarrow> by_subid \<times> ref_counts" where
  "app_keys_index t = (app_keys_authors_by_subid t, app_keys_author_ref_counts t)"

definition message_authors_index :: "RuntimeSubscriptionTracker \<Rightarrow> by_subid \<times> ref_counts" where
  "message_authors_index t = (message_authors_by_subid t, message_author_ref_counts t)"

definition message_recipients_index :: "RuntimeSubscriptionTracker \<Rightarrow> by_subid \<times> ref_counts" where
  "message_recipients_index t = (message_recipients_by_subid t, message_recipient_ref_counts t)"

definition invite_responses_index :: "RuntimeSubscriptionTracker \<Rightarrow> by_subid \<times> ref_counts" where
  "invite_responses_index t = (invite_response_recipients_by_subid t, invite_response_recipient_ref_counts t)"

definition direct_index :: "DirectMessageSubscriptionTracker \<Rightarrow> by_subid \<times> ref_counts" where
  "direct_index t = (authors_by_subid t, author_ref_counts t)"

definition register_part ::
  "'x crypto_scheme \<Rightarrow> (string \<Rightarrow> Value option) \<Rightarrow> (RuntimeSubscriptionRegistration \<Rightarrow> PublicKey list) \<Rightarrow>
   string \<Rightarrow> string \<Rightarrow> RuntimeSubscriptionTracker \<Rightarrow> PublicKey list \<times> RuntimeSubscriptionTracker" where
  "register_part cr from_str part subid j t = (case rt_register_subscription cr from_str subid j t of (r, t') \<Rightarrow> (part r, t'))"

lemmas tracker_defs = app_keys_index_def message_authors_index_def message_recipients_index_def
  invite_responses_index_def register_part_def rt_register_subscription_def rt_unregister_subscription_def
  runtime_tracker_new_def registration_default_def Let_def

interpretation app_keys: counted_index cr app_keys_index "app_keys_subscription_authors cr from_str"
    runtime_tracker_new "register_part cr from_str added_app_keys_authors" rt_unregister_subscription
  for cr :: "'x crypto_scheme" and from_str
  by unfold_locales (auto simp: tracker_defs split: prod.splits)

interpretation message_authors: counted_index cr message_authors_index "direct_message_subscription_authors cr from_str"
    runtime_tracker_new "register_part cr from_str added_message_authors" rt_unregister_subscription
  for cr :: "'x crypto_scheme" and from_str
  by unfold_locales (auto simp: tracker_defs split: prod.splits)

interpretation message_recipients: counted_index cr message_recipients_index
    "direct_message_subscription_recipients cr from_str"
    runtime_tracker_new "register_part cr from_str added_message_recipients" rt_unregister_subscription
  for cr :: "'x crypto_scheme" and from_str
  by unfold_locales (auto simp: tracker_defs split: prod.splits)

interpretation invite_responses: counted_index cr invite_responses_index
    "invite_response_subscription_recipients cr from_str"
    runtime_tracker_new "register_part cr from_str added_invite_response_recipients" rt_unregister_subscription
  for cr :: "'x crypto_scheme" and from_str
  by unfold_locales (auto simp: tracker_defs split: prod.splits)

interpretation direct: counted_index cr direct_index "direct_message_subscription_authors cr from_str"
    direct_message_tracker_new "dm_register_subscription cr from_str" dm_unregister_subscription
  for cr :: "'x crypto_scheme" and from_str
  by unfold_locales (auto simp: direct_index_def direct_message_tracker_new_def dm_register_subscription_def
    dm_unregister_subscription_def register_pubkeys_def unregister_pubkeys_def Let_def split: prod.splits option.splits)

end
