(* ===== verification/Subscription_Properties.thy ===== *)
theory Subscription_Properties
  imports Subscription_Tracking Full_Instance
begin

text \<open>
  The properties of the subscription trackers: what is tracked after any sequence of calls, the agreement
  of the two trackers, what a registration reports, and the stored events its backfill filters fetch.
\<close>

declare split_paired_All [simp del] split_paired_Ex [simp del]

section \<open>Runs\<close>

definition rt_call ::
  "'x crypto_scheme \<Rightarrow> (string \<Rightarrow> Value option) \<Rightarrow> subscription_call \<Rightarrow> RuntimeSubscriptionTracker \<Rightarrow>
   RuntimeSubscriptionTracker" where
  "rt_call cr from_str c t = (case c of
     Register subid j \<Rightarrow> snd (rt_register_subscription cr from_str subid j t)
   | Unregister subid \<Rightarrow> rt_unregister_subscription subid t)"

definition rt_run ::
  "'x crypto_scheme \<Rightarrow> (string \<Rightarrow> Value option) \<Rightarrow> subscription_call list \<Rightarrow> RuntimeSubscriptionTracker" where
  "rt_run cr from_str calls = fold (rt_call cr from_str) calls runtime_tracker_new"

definition dm_call ::
  "'x crypto_scheme \<Rightarrow> (string \<Rightarrow> Value option) \<Rightarrow> subscription_call \<Rightarrow> DirectMessageSubscriptionTracker \<Rightarrow>
   DirectMessageSubscriptionTracker" where
  "dm_call cr from_str c t = (case c of
     Register subid j \<Rightarrow> snd (dm_register_subscription cr from_str subid j t)
   | Unregister subid \<Rightarrow> dm_unregister_subscription subid t)"

definition dm_run ::
  "'x crypto_scheme \<Rightarrow> (string \<Rightarrow> Value option) \<Rightarrow> subscription_call list \<Rightarrow> DirectMessageSubscriptionTracker" where
  "dm_run cr from_str calls = fold (dm_call cr from_str) calls direct_message_tracker_new"

text \<open>The runs of the four indexes are the run of the tracker that holds them.\<close>

lemma register_part_simps [simp]:
  "snd (register_part cr from_str part subid j t) = snd (rt_register_subscription cr from_str subid j t)"
  "fst (register_part cr from_str part subid j t) = part (fst (rt_register_subscription cr from_str subid j t))"
  by (simp_all add: register_part_def split: prod.splits)

lemma index_runs:
  "fold (index_call (register_part cr from_str part) rt_unregister_subscription) calls runtime_tracker_new =
    rt_run cr from_str calls"
  "fold (index_call (dm_register_subscription cr from_str) dm_unregister_subscription) calls direct_message_tracker_new =
    dm_run cr from_str calls"
proof -
  have "index_call (register_part cr from_str part) rt_unregister_subscription = rt_call cr from_str"
    "index_call (dm_register_subscription cr from_str) dm_unregister_subscription = dm_call cr from_str"
    by (auto simp: fun_eq_iff rt_call_def dm_call_def index_call_def split: subscription_call.splits)
  then show "fold (index_call (register_part cr from_str part) rt_unregister_subscription) calls runtime_tracker_new =
      rt_run cr from_str calls"
    "fold (index_call (dm_register_subscription cr from_str) dm_unregister_subscription) calls direct_message_tracker_new =
      dm_run cr from_str calls"
    by (simp_all add: rt_run_def dm_run_def)
qed

text \<open>The sorted list of a set of keys, in the order of their hexadecimal form.\<close>

definition key_listing :: "'x crypto_scheme \<Rightarrow> PublicKey set \<Rightarrow> PublicKey list \<Rightarrow> bool" where
  "key_listing cr A ks \<longleftrightarrow> set ks = A \<and> distinct ks \<and> sorted (map (hex_encode cr) ks)"

lemma key_listing_unique:
  assumes "key_listing cr A ks" "key_listing cr A ks'" "inj (hex_encode cr)"
  shows "ks = ks'"
proof -
  have "map (hex_encode cr) ks = map (hex_encode cr) ks'"
    by (rule sorted_distinct_set_unique)
      (use assms in \<open>auto simp: key_listing_def distinct_map intro: inj_on_subset\<close>)
  then show ?thesis using assms(3) by (simp add: inj_map_eq_map)
qed

lemmas index_projections = app_keys_index_def message_authors_index_def message_recipients_index_def
  invite_responses_index_def direct_index_def

text \<open>
  C27. After any sequence of registrations and removals, starting from a new tracker, the four tracked
  lists are the sorted, duplicate-free lists of exactly the keys that the active subscriptions ask for:
  those registered and not removed since, each with the filter registered last under its trimmed id.
\<close>

theorem runtime_tracker_refines:
  "key_listing cr (asked_keys (app_keys_subscription_authors cr from_str) calls)
     (tracked_app_keys_authors cr (rt_run cr from_str calls))
   \<and> key_listing cr (asked_keys (direct_message_subscription_authors cr from_str) calls)
     (tracked_message_authors cr (rt_run cr from_str calls))
   \<and> key_listing cr (asked_keys (direct_message_subscription_recipients cr from_str) calls)
     (tracked_message_recipients cr (rt_run cr from_str calls))
   \<and> key_listing cr (asked_keys (invite_response_subscription_recipients cr from_str) calls)
     (tracked_invite_response_recipients cr (rt_run cr from_str calls))"
  using app_keys.run_tracked [of cr from_str calls] message_authors.run_tracked [of cr from_str calls]
    message_recipients.run_tracked [of cr from_str calls] invite_responses.run_tracked [of cr from_str calls]
  by (simp add: key_listing_def index_runs index_projections tracked_app_keys_authors_def
    tracked_message_authors_def tracked_message_recipients_def tracked_invite_response_recipients_def)

text \<open>The keys that a new registration asks for and no other active subscription does.\<close>

definition new_keys ::
  "(string \<Rightarrow> string \<Rightarrow> PublicKey list) \<Rightarrow> subscription_call list \<Rightarrow> string \<Rightarrow> string \<Rightarrow> PublicKey set" where
  "new_keys wanted calls subid j = set (wanted subid j) - asked_keys wanted (calls @ [Unregister subid])"

lemma added_parts:
  fixes cr :: "'x crypto_scheme"
  assumes "trim subid \<noteq> []"
  defines "r \<equiv> \<lambda>cr :: 'x crypto_scheme. \<lambda>from_str j calls.
    fst (rt_register_subscription cr from_str subid j (rt_run cr from_str calls))"
  shows "set (added_app_keys_authors (r cr from_str j calls)) = new_keys (app_keys_subscription_authors cr from_str) calls subid j"
    and "set (added_message_authors (r cr from_str j calls)) =
      new_keys (direct_message_subscription_authors cr from_str) calls subid j"
    and "set (added_message_recipients (r cr from_str j calls)) =
      new_keys (direct_message_subscription_recipients cr from_str) calls subid j"
    and "set (added_invite_response_recipients (r cr from_str j calls)) =
      new_keys (invite_response_subscription_recipients cr from_str) calls subid j"
  using app_keys.run_register [OF assms(1), of cr from_str j calls]
    message_authors.run_register [OF assms(1), of cr from_str j calls]
    message_recipients.run_register [OF assms(1), of cr from_str j calls]
    invite_responses.run_register [OF assms(1), of cr from_str j calls]
  by (auto simp: index_runs r_def new_keys_def)

lemma same_register_index:
  assumes "direct_index t = message_authors_index u"
  shows "fst (dm_register_subscription cr from_str subid j t) = added_message_authors (fst (rt_register_subscription cr from_str subid j u))"
    and "direct_index (snd (dm_register_subscription cr from_str subid j t)) =
      message_authors_index (snd (rt_register_subscription cr from_str subid j u))"
proof -
  have "(fst (dm_register_subscription cr from_str subid j t), direct_index (snd (dm_register_subscription cr from_str subid j t))) =
    (fst (register_part cr from_str added_message_authors subid j u),
     message_authors_index (snd (register_part cr from_str added_message_authors subid j u)))"
    by (simp only: direct.index_register message_authors.index_register assms)
  then show "fst (dm_register_subscription cr from_str subid j t) = added_message_authors (fst (rt_register_subscription cr from_str subid j u))"
    and "direct_index (snd (dm_register_subscription cr from_str subid j t)) =
      message_authors_index (snd (rt_register_subscription cr from_str subid j u))" by simp_all
qed

lemma same_run_index: "direct_index (dm_run cr from_str calls) = message_authors_index (rt_run cr from_str calls)"
proof (induction calls rule: rev_induct)
  case Nil
  show ?case using direct.index_new message_authors.index_new by (simp add: dm_run_def rt_run_def)
next
  case (snoc c calls)
  then show ?case using same_register_index(2) [OF snoc]
    by (cases c) (simp_all add: dm_run_def rt_run_def dm_call_def rt_call_def
      direct.index_unregister message_authors.index_unregister)
qed

text \<open>
  The direct-message tracker agrees with the runtime tracker: given the same calls, both track the
  same message authors, and the next registration reports the same authors as newly added.
\<close>

theorem trackers_agree:
  "tracked_authors cr (dm_run cr from_str calls) = tracked_message_authors cr (rt_run cr from_str calls)
   \<and> fst (dm_register_subscription cr from_str subid j (dm_run cr from_str calls)) =
     added_message_authors (fst (rt_register_subscription cr from_str subid j (rt_run cr from_str calls)))"
  using same_run_index [of cr from_str calls] same_register_index [OF same_run_index [of cr from_str calls], of cr from_str subid j]
  by (simp add: tracked_authors_def tracked_message_authors_def sorted_pubkeys_def direct_index_def message_authors_index_def)

section \<open>Backfill\<close>

text \<open>
  What the code relies on of \<^verbatim>\<open>Filter\<close>: a filter with a kind and authors, or a kind and values of a
  single-letter tag, matches the events of that kind by those authors, or with a tag of that name and
  one of the values; a limit does not change what matches.
\<close>

definition filter_laws :: "('f, 'y) filter_builder_scheme \<Rightarrow> ('f \<Rightarrow> Event \<Rightarrow> bool) \<Rightarrow> bool" where
  "filter_laws F matches \<longleftrightarrow>
     (\<forall>n f ev. matches (filter_limit F n f) ev = matches f ev) \<and>
     (\<forall>k as ev. as \<noteq> [] \<longrightarrow> matches (filter_authors F as (filter_kind F k (filter_new F))) ev =
        (ev_kind ev = k \<and> ev_pubkey ev \<in> set as)) \<and>
     (\<forall>k c vs ev. vs \<noteq> [] \<longrightarrow> matches (filter_custom_tags F c vs (filter_kind F k (filter_new F))) ev =
        (ev_kind ev = k \<and> (\<exists>tag v. tag \<in> set (ev_tags ev) \<and> tag_name tag = Some [c] \<and> list_get tag 1 = Some v \<and> v \<in> set vs)))"

definition tagged_for :: "'x crypto_scheme \<Rightarrow> Event \<Rightarrow> PublicKey set \<Rightarrow> bool" where
  "tagged_for cr ev ks \<longleftrightarrow> (\<exists>tag k. tag \<in> set (ev_tags ev) \<and> tag_name tag = Some ''p''
     \<and> list_get tag 1 = Some (hex_encode cr k) \<and> k \<in> ks)"

lemma set_unique_pubkeys [simp]: "set (unique_pubkeys ks) = set ks"
proof -
  have "set (fold push_unique ks acc) = set ks \<union> set acc" for acc
    by (induction ks arbitrary: acc) (auto simp: push_unique_def)
  then show ?thesis by (simp add: unique_pubkeys_def)
qed

lemma unique_pubkeys_empty [simp]: "unique_pubkeys ks = [] \<longleftrightarrow> ks = []"
  using set_unique_pubkeys [of ks] by (metis set_empty)

lemma backfill_matches:
  assumes "filter_laws F matches" "ks \<noteq> []"
  shows "matches (build_app_keys_backfill_filter F ks n) ev \<longleftrightarrow> ev_kind ev = ucast APP_KEYS_EVENT_KIND \<and> ev_pubkey ev \<in> set ks"
    and "matches (build_direct_message_backfill_filter F ks n) ev \<longleftrightarrow> ev_kind ev = ucast MESSAGE_EVENT_KIND \<and> ev_pubkey ev \<in> set ks"
    and "matches (build_direct_message_recipient_backfill_filter cr F ks n) ev \<longleftrightarrow>
      ev_kind ev = ucast MESSAGE_EVENT_KIND \<and> tagged_for cr ev (set ks)"
    and "matches (build_invite_response_backfill_filter cr F ks n) ev \<longleftrightarrow>
      ev_kind ev = ucast INVITE_RESPONSE_KIND \<and> tagged_for cr ev (set ks)"
  using assms
  by (auto simp: filter_laws_def build_app_keys_backfill_filter_def build_direct_message_backfill_filter_def
    build_direct_message_recipient_backfill_filter_def build_invite_response_backfill_filter_def tagged_for_def)

lemma tagged_for_empty [simp]: "\<not> tagged_for cr ev {}"
  by (simp add: tagged_for_def)

lemma runtime_backfill_matches:
  assumes "filter_laws F matches"
  shows "(\<exists>f \<in> set (build_runtime_backfill_filters cr F r n). matches f ev) \<longleftrightarrow>
    ev_kind ev = ucast APP_KEYS_EVENT_KIND \<and> ev_pubkey ev \<in> set (added_app_keys_authors r)
    \<or> ev_kind ev = ucast MESSAGE_EVENT_KIND \<and> (ev_pubkey ev \<in> set (added_message_authors r)
      \<or> tagged_for cr ev (set (added_message_recipients r)))
    \<or> ev_kind ev = ucast INVITE_RESPONSE_KIND \<and> tagged_for cr ev (set (added_invite_response_recipients r))"
proof -
  have "(\<exists>f \<in> set (if added_app_keys_authors r = [] then []
      else [build_app_keys_backfill_filter F (added_app_keys_authors r) n]). matches f ev) \<longleftrightarrow>
    ev_kind ev = ucast APP_KEYS_EVENT_KIND \<and> ev_pubkey ev \<in> set (added_app_keys_authors r)"
    using backfill_matches(1) [OF assms] by simp
  moreover have "(\<exists>f \<in> set (if added_message_authors r = [] then []
      else [build_direct_message_backfill_filter F (added_message_authors r) n]). matches f ev) \<longleftrightarrow>
    ev_kind ev = ucast MESSAGE_EVENT_KIND \<and> ev_pubkey ev \<in> set (added_message_authors r)"
    using backfill_matches(2) [OF assms] by simp
  moreover have "(\<exists>f \<in> set (if added_message_recipients r = [] then []
      else [build_direct_message_recipient_backfill_filter cr F (added_message_recipients r) n]). matches f ev) \<longleftrightarrow>
    ev_kind ev = ucast MESSAGE_EVENT_KIND \<and> tagged_for cr ev (set (added_message_recipients r))"
    using backfill_matches(3) [OF assms, where cr = cr] by simp
  moreover have "(\<exists>f \<in> set (if added_invite_response_recipients r = [] then []
      else [build_invite_response_backfill_filter cr F (added_invite_response_recipients r) n]). matches f ev) \<longleftrightarrow>
    ev_kind ev = ucast INVITE_RESPONSE_KIND \<and> tagged_for cr ev (set (added_invite_response_recipients r))"
    using backfill_matches(4) [OF assms, where cr = cr] by simp
  ultimately show ?thesis unfolding build_runtime_backfill_filters_def set_append bex_Un by blast
qed

text \<open>
  The backfill filters built from a registration fetch exactly the stored events of the keys it
  adds: an event matches one of them if and only if it is an application-keys event or a message by an
  author, or a message or an invite response tagged with a recipient, that the new subscription asks for
  and no other active subscription does.
\<close>

theorem backfill_fetches_added:
  assumes "filter_laws F matches" "trim subid \<noteq> []"
  shows "(\<exists>f \<in> set (build_runtime_backfill_filters cr F
      (fst (rt_register_subscription cr from_str subid j (rt_run cr from_str calls))) n). matches f ev) \<longleftrightarrow>
    ev_kind ev = ucast APP_KEYS_EVENT_KIND \<and> ev_pubkey ev \<in> new_keys (app_keys_subscription_authors cr from_str) calls subid j
    \<or> ev_kind ev = ucast MESSAGE_EVENT_KIND \<and>
      (ev_pubkey ev \<in> new_keys (direct_message_subscription_authors cr from_str) calls subid j
       \<or> tagged_for cr ev (new_keys (direct_message_subscription_recipients cr from_str) calls subid j))
    \<or> ev_kind ev = ucast INVITE_RESPONSE_KIND \<and>
      tagged_for cr ev (new_keys (invite_response_subscription_recipients cr from_str) calls subid j)"
  unfolding runtime_backfill_matches [OF assms(1)] added_parts [OF assms(2)] ..

section \<open>A concrete client\<close>

definition hex_value :: "char \<Rightarrow> u8" where
  "hex_value c = (if c \<le> CHR ''9'' then of_char c - 48 else of_char c - 87)"

definition demo_hex :: invite_crypto where
  "demo_hex = demo_full\<lparr>hex_decode := \<lambda>s. Inr (map (\<lambda>i. 16 * hex_value (s ! (2 * i)) + hex_value (s ! (2 * i + 1)))
     [0 ..< length s div 2])\<rparr>"

definition demo_from_str :: "string \<Rightarrow> Value option" where
  "demo_from_str j = (if j = ''old'' then Some (Object [(''kinds'', Array [JNumber (PosInt 1060)]),
       (''authors'', Array [JString (replicate 64 CHR ''A'')])])
     else if j = ''new'' then Some (Object [(''kinds'', Array [JNumber (PosInt 1060)]),
       (''authors'', Array [JString (replicate 64 CHR ''a''), Null, JString (replicate 64 CHR ''b'')])])
     else None)"

text \<open>A filter is the list of its conditions.\<close>

definition demo_filters :: "((Event \<Rightarrow> bool) list) filter_builder" where
  "demo_filters = \<lparr>filter_new = [], filter_kind = (\<lambda>k f. f @ [\<lambda>ev. ev_kind ev = k]),
     filter_authors = (\<lambda>as f. f @ [\<lambda>ev. ev_pubkey ev \<in> set as]),
     filter_custom_tags = (\<lambda>c vs f. f @ [\<lambda>ev. list_ex (\<lambda>tag. tag_name tag = Some [c] \<and>
       (case list_get tag 1 of None \<Rightarrow> False | Some v \<Rightarrow> v \<in> set vs)) (ev_tags ev)]),
     filter_limit = (\<lambda>n f. f)\<rparr>"

definition demo_matches :: "(Event \<Rightarrow> bool) list \<Rightarrow> Event \<Rightarrow> bool" where
  "demo_matches f ev = list_all (\<lambda>c. c ev) f"

definition demo_message :: "u8 \<Rightarrow> Event" where
  "demo_message b = \<lparr>ev_id = [], ev_pubkey = replicate 32 b, ev_created_at = 0, ev_kind = 1060, ev_tags = [],
     ev_content = [], ev_sig = []\<rparr>"

lemma demo_filter_laws: "filter_laws demo_filters demo_matches"
  by (auto simp: filter_laws_def demo_filters_def demo_matches_def list_ex_iff split: option.splits)

definition demo_registration :: RuntimeSubscriptionRegistration where
  "demo_registration = fst (rt_register_subscription demo_hex demo_from_str ''session-next-b'' ''new''
     (rt_run demo_hex demo_from_str [Register ''session-current-a'' ''old'']))"

lemma demo_backfill:
  "\<exists>f \<in> set (build_runtime_backfill_filters demo_hex demo_filters demo_registration 9). demo_matches f (demo_message 0xBB)"
  "\<not> (\<exists>f \<in> set (build_runtime_backfill_filters demo_hex demo_filters demo_registration 9). demo_matches f (demo_message 0xAA))"
  by code_simp+

theorem backfill_fetches_added_witness:
  "filter_laws demo_filters demo_matches \<and> trim ''session-next-b'' \<noteq> []
   \<and> ev_pubkey (demo_message 0xBB) \<in> new_keys (direct_message_subscription_authors demo_hex demo_from_str)
       [Register ''session-current-a'' ''old''] ''session-next-b'' ''new''
   \<and> ev_pubkey (demo_message 0xAA) \<notin> new_keys (direct_message_subscription_authors demo_hex demo_from_str)
       [Register ''session-current-a'' ''old''] ''session-next-b'' ''new''"
proof -
  have t: "trim ''session-next-b'' \<noteq> []" by code_simp
  have kinds: "ev_kind (demo_message b) = ucast MESSAGE_EVENT_KIND" "ev_kind (demo_message b) \<noteq> ucast APP_KEYS_EVENT_KIND"
    "ev_kind (demo_message b) \<noteq> ucast INVITE_RESPONSE_KIND" "ev_tags (demo_message b) = []" for b
    by (simp_all add: demo_message_def MESSAGE_EVENT_KIND_def APP_KEYS_EVENT_KIND_def APP_KEYS_SNAPSHOT_KIND_def
      INVITE_RESPONSE_KIND_def)
  show ?thesis
    using backfill_fetches_added [OF demo_filter_laws t, where cr = demo_hex and from_str = demo_from_str and j = "''new''"
        and calls = "[Register ''session-current-a'' ''old'']" and n = 9 and ev = "demo_message 0xBB"]
      backfill_fetches_added [OF demo_filter_laws t, where cr = demo_hex and from_str = demo_from_str and j = "''new''"
        and calls = "[Register ''session-current-a'' ''old'']" and n = 9 and ev = "demo_message 0xAA"]
      demo_backfill demo_filter_laws t kinds
    by (simp add: tagged_for_def demo_registration_def)
qed

end
