(* ===== verification/Wire.thy ===== *)
theory Wire
  imports Subscriptions Group_Types
begin

text \<open>
  The event format of the protocol (\<^verbatim>\<open>wire.rs\<close>): message envelopes, invite responses, invites, rosters
  and sender-key messages as signed Nostr events, invites as URLs, and the format marker of
  \<^verbatim>\<open>metadata_privacy.rs\<close>.

  The parameters are the functions of the \<^verbatim>\<open>nostr\<close>, \<^verbatim>\<open>serde_json\<close> and \<^verbatim>\<open>urlencoding\<close> crates.
  \<^verbatim>\<open>Tag::parse\<close> accepts every non-empty list of strings, which all calls here pass. The errors of these
  crates carry a text that nothing reads; the model keeps the error and not its text.
\<close>

declare split_paired_All [simp del] split_paired_Ex [simp del]

section \<open>Errors and parameters\<close>

datatype WireError =
    WireCore Error
  | WireJson
  | WireInvalidEvent string
  | WireNostrEvent
  | WireNostrKey
  | WireNip44

type_synonym 'a wire_res = "WireError + 'a"

record wire_crypto = invite_crypto +
  pk_parse :: "string \<Rightarrow> PublicKey option" \<comment> \<open>\<^verbatim>\<open>nostr::PublicKey::parse\<close>\<close>
  sign_with_keys :: "bytes \<Rightarrow> UnsignedEvent \<Rightarrow> Event option" \<comment> \<open>\<^verbatim>\<open>UnsignedEvent::sign_with_keys\<close>\<close>
  value_from_str :: "string \<Rightarrow> Value option" \<comment> \<open>\<^verbatim>\<open>serde_json::from_str\<close>\<close>
  value_to_string :: "Value \<Rightarrow> string"
  url_encode :: "string \<Rightarrow> string"
  url_decode :: "string \<Rightarrow> string option"
  built_id :: "UnsignedEvent \<Rightarrow> bytes option" \<comment> \<open>the id \<^verbatim>\<open>EventBuilder::build\<close> fills in, if it does\<close>

definition GROUP_SENDER_KEY_MESSAGE_KIND :: u32 where "GROUP_SENDER_KEY_MESSAGE_KIND = MESSAGE_EVENT_KIND"
definition ROSTER_EVENT_KIND :: u32 where "ROSTER_EVENT_KIND = 30078"
definition ROSTER_D_TAG :: string where "ROSTER_D_TAG = ''double-ratchet/app-keys''"
definition ROSTER_VERSION :: string where "ROSTER_VERSION = ''1''"
definition INVITE_D_PREFIX :: string where "INVITE_D_PREFIX = ''double-ratchet/invites/''"

record DecodedRosterEvent =
  decoded_owner_pubkey :: OwnerPubkey
  decoded_roster :: DeviceRoster

record ParsedGroupSenderKeyMessageEvent =
  parsed_sender_event_pubkey :: DevicePubkey
  parsed_key_id :: u32
  parsed_message_number :: u32
  parsed_encrypted_header :: "string option"
  parsed_created_at :: UnixSeconds
  parsed_ciphertext :: bytes

section \<open>Helpers\<close>

definition has_metadata_privacy_version :: "Event \<Rightarrow> bool" where
  "has_metadata_privacy_version ev \<longleftrightarrow> filter (\<lambda>tag. tag_name tag = Some ''v'') (ev_tags ev) = [[''v'', ''2'']]"

definition require_privacy_version :: "u8 \<Rightarrow> unit wire_res" where
  "require_privacy_version version =
     (if version \<noteq> METADATA_PRIVACY_VERSION then Inl (WireInvalidEvent ''protocol requires a new private handshake'')
      else Inr ())"

definition require_private_event :: "Event \<Rightarrow> unit wire_res" where
  "require_private_event ev =
     (if \<not> has_metadata_privacy_version ev then Inl (WireInvalidEvent ''event requires a privacy upgrade'') else Inr ())"

definition verify_event_kind :: "Event \<Rightarrow> u32 \<Rightarrow> unit wire_res" where
  "verify_event_kind ev expected_kind =
     (if ev_kind ev \<noteq> ucast expected_kind then Inl (WireInvalidEvent ''unexpected kind'') else Inr ())"

definition verify_event :: "'x event_crypto_scheme \<Rightarrow> Event \<Rightarrow> unit wire_res" where
  "verify_event cr ev = (if event_verify cr ev then Inr () else Inl WireNostrEvent)"

definition optional_tag_value :: "Event \<Rightarrow> string \<Rightarrow> string option" where
  "optional_tag_value ev key =
     Option.bind (List.find (\<lambda>tag. tag_name tag = Some key) (ev_tags ev)) (\<lambda>tag. list_get tag 1)"

definition wire_required_tag_value :: "Event \<Rightarrow> string \<Rightarrow> string wire_res" where
  "wire_required_tag_value ev key = ok_or (optional_tag_value ev key) (WireInvalidEvent (''missing `'' @ key @ ''` tag''))"

definition parse_owner_pubkey :: "'x wire_crypto_scheme \<Rightarrow> string \<Rightarrow> OwnerPubkey wire_res" where
  "parse_owner_pubkey cr v = and_then (ok_or (pk_parse cr v) WireNostrKey) (\<lambda>pk. Inr (OwnerPubkey pk))"

definition parse_device_pubkey :: "'x wire_crypto_scheme \<Rightarrow> string \<Rightarrow> DevicePubkey wire_res" where
  "parse_device_pubkey cr v = and_then (ok_or (pk_parse cr v) WireNostrKey) (\<lambda>pk. Inr (DevicePubkey pk))"

definition strip_prefix :: "string \<Rightarrow> string \<Rightarrow> string option" where
  "strip_prefix p s = (if take (length p) s = p then Some (drop (length p) s) else None)"

definition parse_invite_d_tag :: "string \<Rightarrow> string wire_res" where
  "parse_invite_d_tag v = ok_or (strip_prefix INVITE_D_PREFIX v) (WireInvalidEvent ''invalid invite d tag'')"

definition parse_hex_32 :: "'x crypto_scheme \<Rightarrow> string \<Rightarrow> bytes wire_res" where
  "parse_hex_32 cr v =
     and_then (map_err WireInvalidEvent (hex_decode cr v)) (\<lambda>bs.
       if length bs = 32 then Inr bs else Inl (WireInvalidEvent ''expected 32-byte hex''))"

definition wire_secret_key_from_bytes :: "'x crypto_scheme \<Rightarrow> bytes \<Rightarrow> bytes wire_res" where
  "wire_secret_key_from_bytes cr bs = (if sk_from_slice cr bs then Inr bs else Inl WireNostrKey)"

definition wire_public_key :: "'x crypto_scheme \<Rightarrow> DevicePubkey \<Rightarrow> PublicKey wire_res" where
  "wire_public_key cr d = (if pk_from_slice cr (device_bytes d) then Inr (device_bytes d) else Inl WireNostrKey)"

definition owner_public_key :: "'x crypto_scheme \<Rightarrow> OwnerPubkey \<Rightarrow> PublicKey wire_res" where
  "owner_public_key cr ow = (if pk_from_slice cr (owner_bytes ow) then Inr (owner_bytes ow) else Inl WireNostrKey)"

text \<open>\<^verbatim>\<open>Option::map(f).transpose()\<close>.\<close>

fun transpose_opt :: "('a \<Rightarrow> 'e + 'b) \<Rightarrow> 'a option \<Rightarrow> 'e + 'b option" where
  "transpose_opt f None = Inr None"
| "transpose_opt f (Some x) = and_then (f x) (\<lambda>y. Inr (Some y))"

text \<open>\<^verbatim>\<open>EventBuilder::new(kind, content).tags(..).custom_created_at(..).build(pubkey)\<close>.\<close>

definition build_unsigned ::
  "'x wire_crypto_scheme \<Rightarrow> u32 \<Rightarrow> string \<Rightarrow> string list list \<Rightarrow> UnixSeconds \<Rightarrow> PublicKey \<Rightarrow> UnsignedEvent" where
  "build_unsigned cr kind content tags at pk =
     (let r = \<lparr>rumor_id = None, rumor_pubkey = pk, rumor_created_at = at, rumor_kind = ucast kind,
        rumor_tags = filter (builder_keeps cr pk) tags, rumor_content = content\<rparr>
      in r\<lparr>rumor_id := built_id cr r\<rparr>)"

section \<open>Messages\<close>

definition message_event :: "'x wire_crypto_scheme \<Rightarrow> MessageEnvelope \<Rightarrow> Event wire_res" where
  "message_event cr env =
     and_then (require_privacy_version (env_version env)) (\<lambda>_.
     and_then (wire_secret_key_from_bytes cr (env_signer_secret_key env)) (\<lambda>author_secret.
     if DevicePubkey (pk_of_sk cr author_secret) \<noteq> env_sender env
     then Inl (WireInvalidEvent ''sender does not match signer secret'')
     else and_then (wire_public_key cr (env_sender env)) (\<lambda>pk.
       ok_or (sign_with_keys cr author_secret
         (build_unsigned cr MESSAGE_EVENT_KIND (env_ciphertext env)
           ([[''v'', ''2''], [''header'', encrypted_header env]] @
            (case env_recipient env of None \<Rightarrow> [] | Some r \<Rightarrow> [[''p'', hex_encode cr (device_bytes r)]]))
           (env_created_at env) pk)) WireNostrEvent)))"

definition parse_message_event :: "'x wire_crypto_scheme \<Rightarrow> Event \<Rightarrow> MessageEnvelope wire_res" where
  "parse_message_event cr ev =
     and_then (require_private_event ev) (\<lambda>_.
     and_then (verify_event_kind ev MESSAGE_EVENT_KIND) (\<lambda>_.
     and_then (verify_event cr ev) (\<lambda>_.
     and_then (wire_required_tag_value ev ''header'') (\<lambda>header.
     if header = [] then Inl (WireInvalidEvent ''empty `header` tag'')
     else and_then (transpose_opt (parse_device_pubkey cr) (optional_tag_value ev ''p'')) (\<lambda>recipient.
       Inr \<lparr>env_version = METADATA_PRIVACY_VERSION, env_sender = DevicePubkey (ev_pubkey ev),
            env_recipient = recipient, env_signer_secret_key = replicate 32 0,
            env_created_at = ev_created_at ev, encrypted_header = header, env_ciphertext = ev_content ev\<rparr>)))))"

section \<open>Sender-key messages\<close>

definition build_group_sender_key_hidden_content :: "'x crypto_scheme \<Rightarrow> bytes \<Rightarrow> string" where
  "build_group_sender_key_hidden_content cr ciphertext = b64_encode cr ciphertext"

definition parse_group_sender_key_hidden_content :: "'x crypto_scheme \<Rightarrow> string \<Rightarrow> bytes wire_res" where
  "parse_group_sender_key_hidden_content cr content = map_err WireInvalidEvent (b64_decode cr content)"

definition u32_from_be_bytes :: "bytes \<Rightarrow> u32" where
  "u32_from_be_bytes bs = foldl (\<lambda>acc b. 256 * acc + ucast b) 0 bs"

definition parse_group_sender_key_legacy_content :: "'x crypto_scheme \<Rightarrow> string \<Rightarrow> (u32 \<times> u32 \<times> bytes) wire_res" where
  "parse_group_sender_key_legacy_content cr content =
     and_then (map_err WireInvalidEvent (b64_decode cr content)) (\<lambda>bs.
       if length bs < 8 then Inl (WireInvalidEvent ''group sender-key payload too short'')
       else Inr (u32_from_be_bytes (take 4 bs), u32_from_be_bytes (take 4 (drop 4 bs)), drop 8 bs))"

text \<open>The cover header is the encryption of a constant object to the author itself.\<close>

definition encrypted_cover_header :: "'x wire_crypto_scheme \<Rightarrow> nat \<Rightarrow> bytes \<Rightarrow> string wire_res" where
  "encrypted_cover_header cr draw author_secret =
     map_err (\<lambda>_. WireNip44) (nip44_encrypt cr draw author_secret (pk_of_sk cr author_secret)
       (value_to_string cr (Object [(''type'', JString ''sender-key-cover''), (''v'', JNumber (PosInt 1))])))"

definition group_sender_key_message_event ::
  "'x wire_crypto_scheme \<Rightarrow> nat \<Rightarrow> GroupSenderKeyMessageEnvelope \<Rightarrow> Event wire_res" where
  "group_sender_key_message_event cr draw env =
     and_then (wire_secret_key_from_bytes cr (ske_signer_secret_key env)) (\<lambda>author_secret.
     if DevicePubkey (pk_of_sk cr author_secret) \<noteq> ske_sender_event_pubkey env
     then Inl (WireInvalidEvent ''sender-event pubkey does not match signer secret'')
     else and_then (case ske_encrypted_header env of
         Some header \<Rightarrow> Inr header
       | None \<Rightarrow> encrypted_cover_header cr draw author_secret) (\<lambda>header.
       and_then (wire_public_key cr (ske_sender_event_pubkey env)) (\<lambda>pk.
       ok_or (sign_with_keys cr author_secret
         (build_unsigned cr GROUP_SENDER_KEY_MESSAGE_KIND
           (build_group_sender_key_hidden_content cr (ske_ciphertext env))
           [[''v'', ''2''], [''header'', header]] (ske_created_at env) pk)) WireNostrEvent)))"

definition parsed_group_sender_key_message_event_from_content ::
  "'x wire_crypto_scheme \<Rightarrow> Event \<Rightarrow> ParsedGroupSenderKeyMessageEvent wire_res" where
  "parsed_group_sender_key_message_event_from_content cr ev =
     (let header = optional_tag_value ev ''header'' in
      and_then (if header \<noteq> None
          then and_then (parse_group_sender_key_hidden_content cr (ev_content ev)) (\<lambda>c. Inr (0, 0, c))
          else parse_group_sender_key_legacy_content cr (ev_content ev)) (\<lambda>(key_id, message_number, ciphertext).
        Inr \<lparr>parsed_sender_event_pubkey = DevicePubkey (ev_pubkey ev), parsed_key_id = key_id,
             parsed_message_number = message_number, parsed_encrypted_header = header,
             parsed_created_at = ev_created_at ev, parsed_ciphertext = ciphertext\<rparr>))"

definition parse_group_sender_key_message_event ::
  "'x wire_crypto_scheme \<Rightarrow> Event \<Rightarrow> ParsedGroupSenderKeyMessageEvent wire_res" where
  "parse_group_sender_key_message_event cr ev =
     and_then (require_private_event ev) (\<lambda>_.
     and_then (verify_event_kind ev GROUP_SENDER_KEY_MESSAGE_KIND) (\<lambda>_.
     and_then (verify_event cr ev) (\<lambda>_.
     if optional_tag_value ev ''header'' \<noteq> None
     then Inl (WireInvalidEvent ''camouflaged group sender-key event requires caller-side sender match'')
     else parsed_group_sender_key_message_event_from_content cr ev)))"

definition parse_group_sender_key_message_event_unchecked ::
  "'x wire_crypto_scheme \<Rightarrow> Event \<Rightarrow> ParsedGroupSenderKeyMessageEvent wire_res" where
  "parse_group_sender_key_message_event_unchecked cr ev =
     and_then (require_private_event ev) (\<lambda>_.
     and_then (verify_event_kind ev GROUP_SENDER_KEY_MESSAGE_KIND) (\<lambda>_.
     and_then (verify_event cr ev) (\<lambda>_.
     parsed_group_sender_key_message_event_from_content cr ev)))"

section \<open>Invites\<close>

text \<open>The owner an invite names: the key of the older field before the newer one.\<close>

definition invite_owner :: "Invite \<Rightarrow> OwnerPubkey option" where
  "invite_owner iv = (case invite_owner_public_key iv of Some pk \<Rightarrow> Some (OwnerPubkey pk) | None \<Rightarrow> inviter_owner_pubkey iv)"

text \<open>\<^verbatim>\<open>serde_json::Map\<close> keeps the fields in the order of their names.\<close>

definition object_of :: "(string \<times> Value) list \<Rightarrow> Value" where
  "object_of fs = Object (bt_entries (bt_of_list fs))"

definition optional_field :: "string \<Rightarrow> ('a \<Rightarrow> Value) \<Rightarrow> 'a option \<Rightarrow> (string \<times> Value) list" where
  "optional_field key f v = (case v of None \<Rightarrow> [] | Some x \<Rightarrow> [(key, f x)])"

definition invite_url_data :: "'x wire_crypto_scheme \<Rightarrow> Invite \<Rightarrow> (string \<times> Value) list" where
  "invite_url_data cr iv =
     [(''version'', JNumber (PosInt (ucast METADATA_PRIVACY_VERSION))),
      (''inviter'', JString (hex_encode cr (device_bytes (inviter_device_pubkey iv)))),
      (''ephemeralKey'', JString (hex_encode cr (device_bytes (inviter_ephemeral_public_key iv)))),
      (''sharedSecret'', JString (hex_encode cr (shared_secret iv))),
      (''createdAt'', JNumber (PosInt (invite_created_at iv)))]
     @ optional_field ''deviceId'' JString (invite_device_id iv)
     @ optional_field ''owner'' (\<lambda>ow. JString (hex_encode cr (owner_bytes ow))) (invite_owner iv)
     @ optional_field ''purpose'' JString (purpose iv)
     @ optional_field ''maxUses'' (\<lambda>n. JNumber (PosInt (of_nat n))) (max_uses iv)"

definition invite_url :: "'x wire_crypto_scheme \<Rightarrow> Invite \<Rightarrow> string \<Rightarrow> string wire_res" where
  "invite_url cr iv root = Inr (root @ ''#'' @ url_encode cr (value_to_string cr (object_of (invite_url_data cr iv))))"

text \<open>\<^verbatim>\<open>split('#').nth(1)\<close>, and \<^verbatim>\<open>value["key"]\<close> together with the accessor that follows it.\<close>

definition url_fragment :: "string \<Rightarrow> string option" where
  "url_fragment url = (case dropWhile (\<lambda>c. c \<noteq> CHR ''#'') url of
     [] \<Rightarrow> None | _ # rest \<Rightarrow> Some (takeWhile (\<lambda>c. c \<noteq> CHR ''#'') rest))"

definition value_field :: "Value \<Rightarrow> string \<Rightarrow> (Value \<Rightarrow> 'a option) \<Rightarrow> 'a option" where
  "value_field data key acc = Option.bind (Option.bind (as_object data) (\<lambda>fs. map_of fs key)) acc"

definition or_opt :: "'a option \<Rightarrow> 'a option \<Rightarrow> 'a option" where
  "or_opt a b = (case a of None \<Rightarrow> b | Some x \<Rightarrow> Some x)"

definition u8_or_zero :: "u64 option \<Rightarrow> u8" where
  "u8_or_zero v = (case v of None \<Rightarrow> 0 | Some n \<Rightarrow> if n < 256 then ucast n else 0)"

definition parse_invite_url :: "'x wire_crypto_scheme \<Rightarrow> string \<Rightarrow> Invite wire_res" where
  "parse_invite_url cr url =
     and_then (ok_or (url_fragment url) (WireInvalidEvent ''no hash in invite URL'')) (\<lambda>hash.
     and_then (ok_or (url_decode cr hash) (WireInvalidEvent ''invalid utf-8'')) (\<lambda>decoded.
     and_then (ok_or (value_from_str cr decoded) WireJson) (\<lambda>data.
     and_then (require_privacy_version (u8_or_zero (value_field data ''version'' as_u64))) (\<lambda>_.
     and_then (and_then (ok_or (value_field data ''inviter'' as_str) (WireInvalidEvent ''missing inviter''))
       (parse_device_pubkey cr)) (\<lambda>device.
     and_then (and_then (ok_or (or_opt (value_field data ''ephemeralKey'' as_str)
         (value_field data ''inviterEphemeralPublicKey'' as_str)) (WireInvalidEvent ''missing ephemeralKey''))
       (parse_device_pubkey cr)) (\<lambda>ephemeral.
     and_then (and_then (ok_or (value_field data ''sharedSecret'' as_str) (WireInvalidEvent ''missing sharedSecret''))
       (parse_hex_32 cr)) (\<lambda>secret.
     and_then (transpose_opt (parse_owner_pubkey cr) (or_opt (value_field data ''owner'' as_str)
         (or_opt (value_field data ''ownerPubkey'' as_str) (value_field data ''ownerPublicKey'' as_str)))) (\<lambda>owner.
     and_then (wire_public_key cr device) (\<lambda>inviter_pk.
     and_then (transpose_opt (\<lambda>ow. wire_public_key cr (DevicePubkey (owner_bytes ow))) owner) (\<lambda>owner_pk.
       Inr \<lparr>invite_metadata_privacy_version = METADATA_PRIVACY_VERSION, inviter_device_pubkey = device,
            inviter_ephemeral_public_key = ephemeral, shared_secret = secret,
            inviter_ephemeral_private_key = None, max_uses = map_option unat (value_field data ''maxUses'' as_u64),
            used_by = [], used_response_contents = [],
            invite_created_at = (case value_field data ''createdAt'' as_u64 of None \<Rightarrow> 0 | Some t \<Rightarrow> t),
            inviter_owner_pubkey = owner, purpose = value_field data ''purpose'' as_str, inviter = inviter_pk,
            invite_device_id = value_field data ''deviceId'' as_str, invite_owner_public_key = owner_pk\<rparr>))))))))))"

definition invite_unsigned_event :: "'x wire_crypto_scheme \<Rightarrow> Invite \<Rightarrow> UnsignedEvent wire_res" where
  "invite_unsigned_event cr iv =
     (let d_suffix = (case invite_device_id iv of Some d \<Rightarrow> d
            | None \<Rightarrow> hex_encode cr (device_bytes (inviter_device_pubkey iv)));
          tags = [[''v'', ''2''],
            [''ephemeralKey'', hex_encode cr (device_bytes (inviter_ephemeral_public_key iv))],
            [''sharedSecret'', hex_encode cr (shared_secret iv)],
            [''d'', INVITE_D_PREFIX @ d_suffix],
            [''l'', INVITE_LIST_LABEL]]
          @ (case invite_owner iv of None \<Rightarrow> [] | Some ow \<Rightarrow> [[''ownerPublicKey'', hex_encode cr (owner_bytes ow)]])
      in and_then (wire_public_key cr (inviter_device_pubkey iv)) (\<lambda>pk.
        Inr (build_unsigned cr INVITE_EVENT_KIND [] tags (invite_created_at iv) pk)))"

definition parse_invite_event :: "'x wire_crypto_scheme \<Rightarrow> Event \<Rightarrow> Invite wire_res" where
  "parse_invite_event cr ev =
     and_then (require_private_event ev) (\<lambda>_.
     and_then (verify_event_kind ev INVITE_EVENT_KIND) (\<lambda>_.
     and_then (verify_event cr ev) (\<lambda>_.
     and_then (and_then (wire_required_tag_value ev ''d'') parse_invite_d_tag) (\<lambda>dev_id.
     let device = (case parse_device_pubkey cr dev_id of Inl _ \<Rightarrow> DevicePubkey (ev_pubkey ev) | Inr d \<Rightarrow> d) in
     and_then (transpose_opt (parse_owner_pubkey cr) (optional_tag_value ev ''ownerPublicKey'')) (\<lambda>owner.
     if ev_pubkey ev \<noteq> device_bytes device
     then Inl (WireInvalidEvent ''invite event author does not match inviter device'')
     else
       and_then (and_then (wire_required_tag_value ev ''ephemeralKey'') (parse_device_pubkey cr)) (\<lambda>ephemeral.
       and_then (and_then (wire_required_tag_value ev ''sharedSecret'') (parse_hex_32 cr)) (\<lambda>secret.
       and_then (transpose_opt (\<lambda>ow. wire_public_key cr (DevicePubkey (owner_bytes ow))) owner) (\<lambda>owner_pk.
       Inr \<lparr>invite_metadata_privacy_version = METADATA_PRIVACY_VERSION, inviter_device_pubkey = device,
            inviter_ephemeral_public_key = ephemeral, shared_secret = secret,
            inviter_ephemeral_private_key = None, max_uses = None, used_by = [], used_response_contents = [],
            invite_created_at = ev_created_at ev, inviter_owner_pubkey = owner, purpose = None,
            inviter = ev_pubkey ev,
            invite_device_id = (if dev_id \<noteq> hex_encode cr (device_bytes device) then Some dev_id else None),
            invite_owner_public_key = owner_pk\<rparr>))))))))"

section \<open>Invite responses\<close>

definition invite_response_event :: "'x wire_crypto_scheme \<Rightarrow> InviteResponseEnvelope \<Rightarrow> Event wire_res" where
  "invite_response_event cr env =
     and_then (require_privacy_version (response_metadata_privacy_version env)) (\<lambda>_.
     and_then (wire_secret_key_from_bytes cr (signer_secret_key env)) (\<lambda>author_secret.
     if DevicePubkey (pk_of_sk cr author_secret) \<noteq> response_sender env
     then Inl (WireInvalidEvent ''sender does not match signer secret'')
     else and_then (wire_public_key cr (response_sender env)) (\<lambda>pk.
       ok_or (sign_with_keys cr author_secret
         (build_unsigned cr INVITE_RESPONSE_KIND (response_content env)
           [[''v'', ''2''], [''p'', hex_encode cr (device_bytes (response_recipient env))]]
           (response_created_at env) pk)) WireNostrEvent)))"

definition parse_invite_response_event :: "'x wire_crypto_scheme \<Rightarrow> Event \<Rightarrow> InviteResponseEnvelope wire_res" where
  "parse_invite_response_event cr ev =
     and_then (require_private_event ev) (\<lambda>_.
     and_then (verify_event_kind ev INVITE_RESPONSE_KIND) (\<lambda>_.
     and_then (verify_event cr ev) (\<lambda>_.
     and_then (and_then (wire_required_tag_value ev ''p'') (parse_device_pubkey cr)) (\<lambda>recipient.
       Inr \<lparr>response_metadata_privacy_version = METADATA_PRIVACY_VERSION,
            response_sender = DevicePubkey (ev_pubkey ev), signer_secret_key = replicate 32 0,
            response_recipient = recipient, response_created_at = ev_created_at ev,
            response_content = ev_content ev\<rparr>))))"

section \<open>Rosters\<close>

definition roster_device_tag :: "'x crypto_scheme \<Rightarrow> AuthorizedDevice \<Rightarrow> string list" where
  "roster_device_tag cr d = [''device'', hex_encode cr (device_bytes (device_pubkey d)), u64_to_string (device_created_at d)]"

definition roster_unsigned_event ::
  "'x wire_crypto_scheme \<Rightarrow> OwnerPubkey \<Rightarrow> DeviceRoster \<Rightarrow> UnsignedEvent wire_res" where
  "roster_unsigned_event cr owner r =
     and_then (owner_public_key cr owner) (\<lambda>pk.
       Inr (build_unsigned cr ROSTER_EVENT_KIND []
         ([[''d'', ROSTER_D_TAG], [''version'', ROSTER_VERSION]] @ map (roster_device_tag cr) (devices r))
         (roster_created_at r) pk))"

text \<open>The loop over the tags, in order, ending at the first error.\<close>

fun parse_roster_devices :: "'x wire_crypto_scheme \<Rightarrow> string list list \<Rightarrow> AuthorizedDevice list wire_res" where
  "parse_roster_devices cr [] = Inr []"
| "parse_roster_devices cr (tag # tags) =
     (if tag_name tag \<noteq> Some ''device'' then parse_roster_devices cr tags
      else and_then (and_then (ok_or (list_get tag 1) (WireInvalidEvent ''device tag missing pubkey''))
          (parse_device_pubkey cr)) (\<lambda>device.
        and_then (and_then (ok_or (list_get tag 2) (WireInvalidEvent ''device tag missing created_at''))
          (\<lambda>v. ok_or (parse_u64 v) (WireInvalidEvent ''invalid integer''))) (\<lambda>created.
        and_then (parse_roster_devices cr tags) (\<lambda>rest.
          Inr (\<lparr>device_pubkey = device, device_created_at = created\<rparr> # rest)))))"

definition parse_roster_event :: "'x wire_crypto_scheme \<Rightarrow> Event \<Rightarrow> DecodedRosterEvent wire_res" where
  "parse_roster_event cr ev =
     and_then (verify_event_kind ev ROSTER_EVENT_KIND) (\<lambda>_.
     and_then (verify_event cr ev) (\<lambda>_.
     if optional_tag_value ev ''d'' \<noteq> Some ROSTER_D_TAG then Inl (WireInvalidEvent ''missing roster d tag'')
     else and_then (parse_roster_devices cr (ev_tags ev)) (\<lambda>ds.
       Inr \<lparr>decoded_owner_pubkey = OwnerPubkey (ev_pubkey ev), decoded_roster = roster_new (ev_created_at ev) ds\<rparr>)))"

end
