(* ===== verification/Wire_Properties.thy ===== *)
theory Wire_Properties
  imports Wire App_Keys_Codec
begin

text \<open>
  Round trips of the event format: what a peer parses from a published event is what was put into it, but
  for the secrets, which never leave the sender. Together with the facts that the receiving operations do
  not read the secret of an envelope, the delivery theorems of sessions and invites apply to what travels.
\<close>

declare split_paired_All [simp del] split_paired_Ex [simp del]

section \<open>What the format relies on\<close>

text \<open>
  A key printed in hexadecimal is parsed back; a signature by the key of the author verifies; the builder
  drops nothing but a \<^verbatim>\<open>p\<close> tag that names the author; base64, hexadecimal and URL encoding are undone
  by their decoders, and an encoded URL fragment has no hash sign; an object printed with distinct names and string,
  number and null fields is read back with its fields in the order of their names.
\<close>

definition plain_value :: "Value \<Rightarrow> bool" where
  "plain_value v \<longleftrightarrow> v = Null \<or> as_str v \<noteq> None \<or> as_u64 v \<noteq> None"

definition wire_laws :: "'x wire_crypto_scheme \<Rightarrow> bool" where
  "wire_laws cr \<longleftrightarrow>
     (\<forall>k. pk_from_slice cr k \<longrightarrow> pk_parse cr (hex_encode cr k) = Some k) \<and>
     (\<forall>bs. hex_decode cr (hex_encode cr bs) = Inr bs) \<and>
     (\<forall>sk r ev. pk_of_sk cr sk = rumor_pubkey r \<longrightarrow> sign_with_keys cr sk r = Some ev \<longrightarrow> signs cr r ev) \<and>
     (\<forall>pk tag. \<not> builder_keeps cr pk tag \<longrightarrow> tag_name tag = Some ''p'' \<and> list_get tag 1 = Some (hex_encode cr pk)) \<and>
     b64_roundtrip cr \<and>
     (\<forall>fs. distinct (map fst fs) \<longrightarrow> list_all (\<lambda>f. plain_value (snd f)) fs \<longrightarrow>
        value_from_str cr (value_to_string cr (Object fs)) = Some (object_of fs)) \<and>
     (\<forall>s. url_decode cr (url_encode cr s) = Some s \<and> CHR ''#'' \<notin> set (url_encode cr s))"

lemma hex_encode_inj: "wire_laws cr \<Longrightarrow> hex_encode cr a = hex_encode cr b \<Longrightarrow> a = b"
  unfolding wire_laws_def by (metis sum.inject(2))

lemma wire_keeps:
  assumes "wire_laws cr"
  shows "tag_name tag \<noteq> Some ''p'' \<Longrightarrow> builder_keeps cr pk tag"
    and "k \<noteq> pk \<Longrightarrow> builder_keeps cr pk [''p'', hex_encode cr k]"
proof -
  have keep: "\<not> builder_keeps cr pk tag \<Longrightarrow> tag_name tag = Some ''p'' \<and> list_get tag 1 = Some (hex_encode cr pk)" for tag
    using assms by (simp add: wire_laws_def)
  then show "tag_name tag \<noteq> Some ''p'' \<Longrightarrow> builder_keeps cr pk tag" by blast
  show "k \<noteq> pk \<Longrightarrow> builder_keeps cr pk [''p'', hex_encode cr k]"
    using keep [of "[''p'', hex_encode cr k]"] hex_encode_inj [OF assms, of k pk] by (auto simp: list_get_def)
qed

lemma wire_parse:
  assumes "wire_laws cr"
  shows "pk_from_slice cr (device_bytes d) \<Longrightarrow> parse_device_pubkey cr (hex_encode cr (device_bytes d)) = Inr d"
    and "pk_from_slice cr (owner_bytes ow) \<Longrightarrow> parse_owner_pubkey cr (hex_encode cr (owner_bytes ow)) = Inr ow"
    and "length bs = 32 \<Longrightarrow> parse_hex_32 cr (hex_encode cr bs) = Inr bs"
  using assms by (simp_all add: wire_laws_def parse_device_pubkey_def parse_owner_pubkey_def parse_hex_32_def)

lemma wire_signed:
  assumes "wire_laws cr" "sign_with_keys cr sk r = Some ev" "pk_of_sk cr sk = rumor_pubkey r"
  shows "signs cr r ev"
  using assms by (simp add: wire_laws_def)

section \<open>Reading tags\<close>

lemma tag_name_Cons [simp]: "tag_name (nm # vs) = Some nm"
  by (simp add: tag_name_def)

lemma list_get_simps [simp]:
  "list_get (x # y # zs) 1 = Some y" "list_get (x # y # zs) (Suc 0) = Some y" "list_get [x, y, z] 2 = Some z"
  by (simp_all add: list_get_def numeral_2_eq_2)

lemma kind_conversions [simp]:
  "ucast MESSAGE_EVENT_KIND = (1060 :: 16 word)" "ucast INVITE_EVENT_KIND = (30078 :: 16 word)"
  "ucast INVITE_RESPONSE_KIND = (1059 :: 16 word)" "ucast ROSTER_EVENT_KIND = (30078 :: 16 word)"
  "ucast GROUP_SENDER_KEY_MESSAGE_KIND = (1060 :: 16 word)"
  by (simp_all add: MESSAGE_EVENT_KIND_def INVITE_EVENT_KIND_def INVITE_RESPONSE_KIND_def ROSTER_EVENT_KIND_def
    GROUP_SENDER_KEY_MESSAGE_KIND_def)

lemma signed_build:
  assumes "signs cr (build_unsigned cr kind content tags at pk) ev" "\<And>tag. tag \<in> set tags \<Longrightarrow> builder_keeps cr pk tag"
  shows "event_verify cr ev" "ev_pubkey ev = pk" "ev_created_at ev = at" "ev_kind ev = ucast kind"
    "ev_tags ev = tags" "ev_content ev = content"
  using assms by (auto simp: signs_def build_unsigned_def Let_def filter_id_conv)

lemmas wire_check_defs = require_private_event_def has_metadata_privacy_version_def verify_event_kind_def
  verify_event_def wire_required_tag_value_def optional_tag_value_def require_privacy_version_def

section \<open>Messages and responses\<close>

lemma plan_receive_signer [simp]: "plan_receive cr s rng (env\<lparr>env_signer_secret_key := k\<rparr>) = plan_receive cr s rng env"
  by (cases env) (simp only: plan_receive_def MessageEnvelope.simps)

lemma process_response_signer [simp]:
  "process_response cr iv rng (env\<lparr>signer_secret_key := k\<rparr>) sk = process_response cr iv rng env sk"
  by (cases env) (simp only: process_response_def open_response_def InviteResponseEnvelope.simps)

text \<open>The recipient tag survives the builder.\<close>

definition recipient_ok :: "'x crypto_scheme \<Rightarrow> DevicePubkey \<Rightarrow> DevicePubkey \<Rightarrow> bool" where
  "recipient_ok cr sender r \<longleftrightarrow> pk_from_slice cr (device_bytes r) \<and> r \<noteq> sender"

lemma message_event_signed:
  assumes "wire_laws cr" "message_event cr env = Inr ev" "\<And>r. env_recipient env = Some r \<Longrightarrow> recipient_ok cr (env_sender env) r"
  defines "tags \<equiv> [[''v'', ''2''], [''header'', encrypted_header env]] @
    (case env_recipient env of None \<Rightarrow> [] | Some r \<Rightarrow> [[''p'', hex_encode cr (device_bytes r)]])"
  shows "env_version env = METADATA_PRIVACY_VERSION" "event_verify cr ev" "DevicePubkey (ev_pubkey ev) = env_sender env"
    "ev_created_at ev = env_created_at env" "ev_kind ev = 1060" "ev_content ev = env_ciphertext env" "ev_tags ev = tags"
proof -
  let ?u = "build_unsigned cr MESSAGE_EVENT_KIND (env_ciphertext env) tags (env_created_at env) (device_bytes (env_sender env))"
  obtain sk where sk: "DevicePubkey (pk_of_sk cr sk) = env_sender env" "sign_with_keys cr sk ?u = Some ev"
      "env_version env = METADATA_PRIVACY_VERSION"
    using assms(2) by (auto simp: message_event_def result_simps require_privacy_version_def wire_secret_key_from_bytes_def
      wire_public_key_def tags_def split: if_splits)
  then have "pk_of_sk cr sk = rumor_pubkey ?u" by (simp add: build_unsigned_def Let_def) (metis DevicePubkey.sel)
  then have "signs cr ?u ev" using wire_signed [OF assms(1) sk(2)] by simp
  moreover have "builder_keeps cr (device_bytes (env_sender env)) tag" if "tag \<in> set tags" for tag
  proof -
    have "builder_keeps cr (device_bytes (env_sender env)) [''p'', hex_encode cr (device_bytes r)]"
      if "env_recipient env = Some r" for r
      using wire_keeps(2) [OF assms(1)] assms(3) [OF that] by (metis DevicePubkey.expand recipient_ok_def)
    then show ?thesis using that wire_keeps(1) [OF assms(1)] by (auto simp: tags_def split: option.splits)
  qed
  ultimately show "env_version env = METADATA_PRIVACY_VERSION" "event_verify cr ev" "DevicePubkey (ev_pubkey ev) = env_sender env"
    "ev_created_at ev = env_created_at env" "ev_kind ev = 1060" "ev_content ev = env_ciphertext env" "ev_tags ev = tags"
    using sk(3) signed_build [of cr MESSAGE_EVENT_KIND "env_ciphertext env" tags] by auto
qed

text \<open>
  C28. A message survives the trip over a relay: the event published for an envelope is accepted by
  \<^verbatim>\<open>parse_message_event\<close>, which returns the envelope without the signing secret, and a session makes the same
  receive plan from it as from the original. The event carries the format marker, is signed by the
  envelope's sender, and shows the recipient only if the envelope names one.
\<close>

theorem message_wire_roundtrip:
  assumes "wire_laws cr" "message_event cr env = Inr ev" "encrypted_header env \<noteq> []"
    and "\<And>r. env_recipient env = Some r \<Longrightarrow> recipient_ok cr (env_sender env) r"
  shows "parse_message_event cr ev = Inr (env\<lparr>env_signer_secret_key := replicate 32 0\<rparr>)
    \<and> plan_receive cr s rng (env\<lparr>env_signer_secret_key := replicate 32 0\<rparr>) = plan_receive cr s rng env
    \<and> has_metadata_privacy_version ev \<and> event_verify cr ev \<and> DevicePubkey (ev_pubkey ev) = env_sender env
    \<and> (optional_tag_value ev ''p'' = None \<longleftrightarrow> env_recipient env = None)"
proof -
  note ev = message_event_signed [OF assms(1,2,4)]
  have "transpose_opt (parse_device_pubkey cr) (map_option (\<lambda>r. hex_encode cr (device_bytes r)) (env_recipient env)) =
      Inr (env_recipient env)"
    using assms(4) wire_parse(1) [OF assms(1)] by (cases "env_recipient env") (auto simp: recipient_ok_def)
  moreover have "optional_tag_value ev ''p'' = map_option (\<lambda>r. hex_encode cr (device_bytes r)) (env_recipient env)"
    using ev by (simp add: optional_tag_value_def split: option.splits)
  moreover have "optional_tag_value ev ''header'' = Some (encrypted_header env)"
    using ev by (simp add: optional_tag_value_def)
  moreover have "has_metadata_privacy_version ev"
    using ev by (simp add: has_metadata_privacy_version_def split: option.splits)
  ultimately show ?thesis
    using ev assms(3) by (simp add: parse_message_event_def require_private_event_def verify_event_kind_def verify_event_def
      wire_required_tag_value_def)
qed

text \<open>
  A response to an invite survives the trip as well: the inviter parses the envelope without the
  signing secret, and processes it as it would process the original.
\<close>

theorem response_wire_roundtrip:
  assumes "wire_laws cr" "invite_response_event cr env = Inr ev" "recipient_ok cr (response_sender env) (response_recipient env)"
  shows "parse_invite_response_event cr ev = Inr (env\<lparr>signer_secret_key := replicate 32 0\<rparr>)
    \<and> process_response cr iv rng (env\<lparr>signer_secret_key := replicate 32 0\<rparr>) sk = process_response cr iv rng env sk"
proof -
  let ?tags = "[[''v'', ''2''], [''p'', hex_encode cr (device_bytes (response_recipient env))]]"
  let ?u = "build_unsigned cr INVITE_RESPONSE_KIND (response_content env) ?tags (response_created_at env)
    (device_bytes (response_sender env))"
  obtain k where k: "DevicePubkey (pk_of_sk cr k) = response_sender env" "sign_with_keys cr k ?u = Some ev"
      "response_metadata_privacy_version env = METADATA_PRIVACY_VERSION"
    using assms(2) by (auto simp: invite_response_event_def result_simps require_privacy_version_def
      wire_secret_key_from_bytes_def wire_public_key_def split: if_splits)
  then have "pk_of_sk cr k = rumor_pubkey ?u" by (simp add: build_unsigned_def Let_def) (metis DevicePubkey.sel)
  then have signed: "signs cr ?u ev" using wire_signed [OF assms(1) k(2)] by simp
  have keep: "builder_keeps cr (device_bytes (response_sender env)) tag" if "tag \<in> set ?tags" for tag
  proof -
    have "builder_keeps cr (device_bytes (response_sender env)) [''p'', hex_encode cr (device_bytes (response_recipient env))]"
      using wire_keeps(2) [OF assms(1)] assms(3) by (metis DevicePubkey.expand recipient_ok_def)
    then show ?thesis using that wire_keeps(1) [OF assms(1)] by auto
  qed
  note ev = signed_build [OF signed keep]
  have "parse_device_pubkey cr (hex_encode cr (device_bytes (response_recipient env))) = Inr (response_recipient env)"
    using wire_parse(1) [OF assms(1)] assms(3) by (simp add: recipient_ok_def)
  then show ?thesis using ev k(3)
    by (simp add: parse_invite_response_event_def wire_check_defs)
qed

section \<open>Sender-key messages\<close>

text \<open>
  A group message is published in the form of a direct message: the event has the same kind and the
  same tags as the event of an envelope without a recipient, is accepted by \<^verbatim>\<open>parse_message_event\<close>, and is
  refused by the parser that does not know its sender. The parser for known senders returns the
  ciphertext, the time and the header, and neither a key id nor a message number.
\<close>

theorem group_message_camouflaged:
  assumes "wire_laws cr" "group_sender_key_message_event cr draw env = Inr ev"
    and "optional_tag_value ev ''header'' \<noteq> Some []"
  shows "\<exists>header. parse_group_sender_key_message_event_unchecked cr ev = Inr
      \<lparr>parsed_sender_event_pubkey = ske_sender_event_pubkey env, parsed_key_id = 0, parsed_message_number = 0,
       parsed_encrypted_header = Some header, parsed_created_at = ske_created_at env, parsed_ciphertext = ske_ciphertext env\<rparr>
    \<and> (ske_encrypted_header env = None \<or> ske_encrypted_header env = Some header)
    \<and> ev_kind ev = ucast MESSAGE_EVENT_KIND \<and> ev_tags ev = [[''v'', ''2''], [''header'', header]]
    \<and> is_ok (parse_message_event cr ev) \<and> \<not> is_ok (parse_group_sender_key_message_event cr ev)"
proof -
  obtain header sk where sk: "DevicePubkey (pk_of_sk cr sk) = ske_sender_event_pubkey env"
    "sign_with_keys cr sk (build_unsigned cr GROUP_SENDER_KEY_MESSAGE_KIND (b64_encode cr (ske_ciphertext env))
       [[''v'', ''2''], [''header'', header]] (ske_created_at env) (device_bytes (ske_sender_event_pubkey env))) = Some ev"
    "ske_encrypted_header env = None \<or> ske_encrypted_header env = Some header"
    using assms(2) by (auto simp: group_sender_key_message_event_def result_simps wire_secret_key_from_bytes_def
      wire_public_key_def build_group_sender_key_hidden_content_def split: if_splits option.splits)
  then have "pk_of_sk cr sk = device_bytes (ske_sender_event_pubkey env)" by (metis DevicePubkey.sel)
  then have signed: "signs cr (build_unsigned cr GROUP_SENDER_KEY_MESSAGE_KIND (b64_encode cr (ske_ciphertext env))
       [[''v'', ''2''], [''header'', header]] (ske_created_at env) (device_bytes (ske_sender_event_pubkey env))) ev"
    using wire_signed [OF assms(1) sk(2)] by (simp add: build_unsigned_def Let_def)
  have keep: "builder_keeps cr pk tag" if "tag \<in> set [[''v'', ''2''], [''header'', header]]" for pk tag
    using that wire_keeps(1) [OF assms(1)] by auto
  have ev: "event_verify cr ev" "ev_pubkey ev = device_bytes (ske_sender_event_pubkey env)"
    "ev_created_at ev = ske_created_at env" "ev_kind ev = 1060" "ev_tags ev = [[''v'', ''2''], [''header'', header]]"
    "ev_content ev = b64_encode cr (ske_ciphertext env)"
    using signed_build [OF signed keep] by simp_all
  moreover have "b64_decode cr (b64_encode cr (ske_ciphertext env)) = Inr (ske_ciphertext env)"
    using assms(1) by (simp add: wire_laws_def b64_roundtrip_def)
  ultimately show ?thesis using assms(3) sk(3)
    by (intro exI [of _ header]) (auto simp: parse_group_sender_key_message_event_unchecked_def
      parse_group_sender_key_message_event_def parsed_group_sender_key_message_event_from_content_def
      parse_group_sender_key_hidden_content_def parse_message_event_def wire_check_defs is_ok_and_then)
qed

section \<open>Invites\<close>

text \<open>What a published invite lets the reader know: the private key and the uses are gone.\<close>

definition public_invite :: "Invite \<Rightarrow> Invite" where
  "public_invite iv = iv\<lparr>invite_metadata_privacy_version := METADATA_PRIVACY_VERSION, inviter_ephemeral_private_key := None,
     used_by := [], used_response_contents := [], inviter_owner_pubkey := invite_owner iv,
     invite_owner_public_key := map_option owner_bytes (invite_owner iv)\<rparr>"

definition invite_keys_ok :: "'x crypto_scheme \<Rightarrow> Invite \<Rightarrow> bool" where
  "invite_keys_ok cr iv \<longleftrightarrow> pk_from_slice cr (device_bytes (inviter_device_pubkey iv))
     \<and> pk_from_slice cr (device_bytes (inviter_ephemeral_public_key iv)) \<and> length (shared_secret iv) = 32
     \<and> inviter iv = device_bytes (inviter_device_pubkey iv)
     \<and> (case invite_owner iv of None \<Rightarrow> True | Some ow \<Rightarrow> pk_from_slice cr (owner_bytes ow))"

text \<open>
  What the parser of invite events makes of the device id: one that is the key of another device is
  refused, the inviter's own key in hex is the same as none, anything else is kept.
\<close>

definition invite_as_published :: "'x wire_crypto_scheme \<Rightarrow> Invite \<Rightarrow> Invite wire_res" where
  "invite_as_published cr iv =
     (let pub = (public_invite iv)\<lparr>max_uses := None, purpose := None\<rparr> in
      case invite_device_id iv of
        None \<Rightarrow> Inr pub
      | Some d \<Rightarrow>
        if \<exists>k. pk_parse cr d = Some k \<and> k \<noteq> inviter iv
        then Inl (WireInvalidEvent ''invite event author does not match inviter device'')
        else Inr (if d = hex_encode cr (inviter iv) then pub\<lparr>invite_device_id := None\<rparr> else pub))"

lemma strip_prefix_append [simp]: "strip_prefix p (p @ s) = Some s"
  by (simp add: strip_prefix_def)

lemma invite_owner_parse:
  assumes "wire_laws cr" "invite_keys_ok cr iv"
  shows "transpose_opt (parse_owner_pubkey cr) (map_option (\<lambda>ow. hex_encode cr (owner_bytes ow)) (invite_owner iv)) = Inr (invite_owner iv)"
    and "transpose_opt (\<lambda>ow. wire_public_key cr (DevicePubkey (owner_bytes ow))) (invite_owner iv) =
      Inr (map_option owner_bytes (invite_owner iv))"
  using assms(2) wire_parse(2) [OF assms(1)]
  by (cases "invite_owner iv"; auto simp: invite_keys_ok_def wire_public_key_def)+

lemma invite_event_parse:
  assumes laws: "wire_laws cr" and "invite_unsigned_event cr iv = Inr u" "signs cr u ev" "invite_keys_ok cr iv"
  shows "parse_invite_event cr ev = invite_as_published cr iv"
proof -
  let ?pk = "device_bytes (inviter_device_pubkey iv)"
  let ?d = "case invite_device_id iv of Some d \<Rightarrow> d | None \<Rightarrow> hex_encode cr ?pk"
  let ?tags = "[[''v'', ''2''], [''ephemeralKey'', hex_encode cr (device_bytes (inviter_ephemeral_public_key iv))],
    [''sharedSecret'', hex_encode cr (shared_secret iv)], [''d'', INVITE_D_PREFIX @ ?d], [''l'', INVITE_LIST_LABEL]]
    @ (case invite_owner iv of None \<Rightarrow> [] | Some ow \<Rightarrow> [[''ownerPublicKey'', hex_encode cr (owner_bytes ow)]])"
  have "signs cr (build_unsigned cr INVITE_EVENT_KIND [] ?tags (invite_created_at iv) ?pk) ev"
    using assms(2,3) by (simp add: invite_unsigned_event_def result_simps Let_def wire_public_key_def split: if_splits)
  moreover have "builder_keeps cr ?pk tag" if "tag \<in> set ?tags" for tag
    using that wire_keeps(1) [OF laws] by (auto split: option.splits)
  ultimately have ev: "event_verify cr ev" "ev_pubkey ev = ?pk" "ev_created_at ev = invite_created_at iv" "ev_kind ev = 30078"
      "ev_tags ev = ?tags"
    using signed_build [of cr INVITE_EVENT_KIND "[]" ?tags "invite_created_at iv" ?pk ev] by auto
  have tags: "optional_tag_value ev ''d'' = Some (INVITE_D_PREFIX @ ?d)"
    "optional_tag_value ev ''ephemeralKey'' = Some (hex_encode cr (device_bytes (inviter_ephemeral_public_key iv)))"
    "optional_tag_value ev ''sharedSecret'' = Some (hex_encode cr (shared_secret iv))"
    "optional_tag_value ev ''ownerPublicKey'' = map_option (\<lambda>ow. hex_encode cr (owner_bytes ow)) (invite_owner iv)"
    "has_metadata_privacy_version ev"
    unfolding optional_tag_value_def has_metadata_privacy_version_def ev(5) by (simp_all split: option.splits)
  have keys: "parse_device_pubkey cr (hex_encode cr (device_bytes (inviter_ephemeral_public_key iv))) = Inr (inviter_ephemeral_public_key iv)"
    "parse_hex_32 cr (hex_encode cr (shared_secret iv)) = Inr (shared_secret iv)" "inviter iv = ?pk"
    using assms(4) wire_parse [OF laws] by (simp_all add: invite_keys_ok_def)
  define dd where "dd = ?d"
  define device where "device = (case parse_device_pubkey cr dd of Inl _ \<Rightarrow> DevicePubkey (ev_pubkey ev) | Inr d \<Rightarrow> d)"
  have parsed: "parse_invite_event cr ev = (if ?pk \<noteq> device_bytes device
      then Inl (WireInvalidEvent ''invite event author does not match inviter device'')
      else Inr ((public_invite iv)\<lparr>max_uses := None, purpose := None, inviter_device_pubkey := device,
        invite_device_id := if dd \<noteq> hex_encode cr (device_bytes device) then Some dd else None\<rparr>))"
    using ev(1-4) tags [folded dd_def] keys invite_owner_parse [OF laws assms(4)]
    by (simp add: parse_invite_event_def require_private_event_def verify_event_kind_def verify_event_def
      wire_required_tag_value_def parse_invite_d_tag_def public_invite_def Let_def flip: device_def)
  have own: "pk_parse cr (hex_encode cr ?pk) = Some ?pk" "pk_from_slice cr ?pk"
    using assms(4) laws by (simp_all add: invite_keys_ok_def wire_laws_def)
  show ?thesis
  proof (cases "invite_device_id iv")
    case None
    then have "device = inviter_device_pubkey iv" "dd = hex_encode cr ?pk"
      using own by (simp_all add: device_def dd_def parse_device_pubkey_def)
    then show ?thesis using parsed None
      by (simp add: invite_as_published_def public_invite_def)
  next
    case (Some d)
    then have "dd = d" "device = (case pk_parse cr d of None \<Rightarrow> inviter_device_pubkey iv | Some k \<Rightarrow> DevicePubkey k)"
      using ev(2) by (auto simp: device_def dd_def parse_device_pubkey_def split: option.splits)
    then show ?thesis using parsed keys(3) Some
      by (cases "pk_parse cr d") (auto simp: invite_as_published_def Let_def public_invite_def)
  qed
qed

lemma url_fragment_append:
  assumes "CHR ''#'' \<notin> set root" "CHR ''#'' \<notin> set s"
  shows "url_fragment (root @ ''#'' @ s) = Some s"
proof -
  have "dropWhile (\<lambda>c. c \<noteq> CHR ''#'') (root @ CHR ''#'' # s) = CHR ''#'' # s"
    using assms(1) by (induction root) auto
  moreover have "takeWhile (\<lambda>c. c \<noteq> CHR ''#'') s = s" using assms(2) by (auto simp: takeWhile_eq_all_conv)
  ultimately show ?thesis by (simp add: url_fragment_def)
qed

lemma value_field_object: "value_field (object_of fs) key acc = Option.bind (map_of (rev fs) key) acc"
proof -
  have "map_of (bt_entries m) key = bt_get m key" for m :: "(string, Value) btmap"
  proof -
    have "al_get xs key = map_of xs key" for xs :: "(string \<times> Value) list" by (induction xs) auto
    then show ?thesis by (simp add: bt_get_code)
  qed
  then show ?thesis by (simp add: value_field_def object_of_def bt_get_of_list)
qed

lemma invite_url_value:
  assumes "wire_laws cr"
  shows "value_from_str cr (value_to_string cr (object_of (invite_url_data cr iv))) = Some (object_of (invite_url_data cr iv))"
proof -
  have "plain_value (snd f)" if "f \<in> set (invite_url_data cr iv)" for f
    using that by (auto simp: invite_url_data_def optional_field_def plain_value_def split: option.splits)
  moreover have "f \<in> set (bt_entries (bt_of_list fs)) \<Longrightarrow> f \<in> set fs" for f and fs :: "(string \<times> Value) list"
    by (cases f) (simp flip: bt_get_entries add: bt_get_of_list; metis map_of_SomeD set_rev)
  ultimately have "list_all (\<lambda>f. plain_value (snd f)) (bt_entries (bt_of_list (invite_url_data cr iv)))"
    by (auto simp: list_all_iff)
  moreover have "distinct (map fst (bt_entries (bt_of_list (invite_url_data cr iv))))"
    using distinct_bt_keys by (simp add: bt_keys_def)
  ultimately show ?thesis using assms by (simp add: wire_laws_def object_of_def bt_of_list_entries)
qed

lemma or_opt_Some [simp]: "or_opt (Some x) b = Some x"
  by (simp add: or_opt_def)

lemma invite_url_parse:
  assumes laws: "wire_laws cr" and "invite_url cr iv root = Inr url" "CHR ''#'' \<notin> set root" "invite_keys_ok cr iv"
    and uses: "case max_uses iv of None \<Rightarrow> True | Some n \<Rightarrow> n < 2 ^ 64"
  shows "parse_invite_url cr url = Inr (public_invite iv)"
proof -
  let ?v = "object_of (invite_url_data cr iv)"
  have url: "ok_or (url_fragment url) e = Inr (url_encode cr (value_to_string cr ?v))"
    "ok_or (url_decode cr (url_encode cr (value_to_string cr ?v))) e = Inr (value_to_string cr ?v)"
    "ok_or (value_from_str cr (value_to_string cr ?v)) e = Inr ?v" for e :: WireError
    using assms(2,3) laws url_fragment_append [of root "url_encode cr (value_to_string cr ?v)"]
    by (auto simp: invite_url_def wire_laws_def invite_url_value [OF laws])
  have uses_back: "map_option unat (map_option (\<lambda>n. of_nat n :: u64) (max_uses iv)) = max_uses iv"
    using uses by (cases "max_uses iv") (auto simp: unat_of_nat take_bit_nat_eq_self)
  have fields: "u8_or_zero (value_field ?v ''version'' as_u64) = METADATA_PRIVACY_VERSION"
    "value_field ?v ''inviter'' as_str = Some (hex_encode cr (device_bytes (inviter_device_pubkey iv)))"
    "value_field ?v ''ephemeralKey'' as_str = Some (hex_encode cr (device_bytes (inviter_ephemeral_public_key iv)))"
    "value_field ?v ''sharedSecret'' as_str = Some (hex_encode cr (shared_secret iv))"
    "value_field ?v ''createdAt'' as_u64 = Some (invite_created_at iv)"
    "value_field ?v ''deviceId'' as_str = invite_device_id iv"
    "or_opt (value_field ?v ''owner'' as_str) (or_opt (value_field ?v ''ownerPubkey'' as_str) (value_field ?v ''ownerPublicKey'' as_str)) =
      map_option (\<lambda>ow. hex_encode cr (owner_bytes ow)) (invite_owner iv)"
    "value_field ?v ''purpose'' as_str = purpose iv"
    "value_field ?v ''maxUses'' as_u64 = map_option of_nat (max_uses iv)"
    unfolding value_field_object invite_url_data_def optional_field_def or_opt_def u8_or_zero_def METADATA_PRIVACY_VERSION_def
    by (cases "invite_device_id iv"; cases "invite_owner iv"; cases "purpose iv"; cases "max_uses iv"; simp)+
  have keys: "parse_device_pubkey cr (hex_encode cr (device_bytes (inviter_ephemeral_public_key iv))) = Inr (inviter_ephemeral_public_key iv)"
    "parse_device_pubkey cr (hex_encode cr (device_bytes (inviter_device_pubkey iv))) = Inr (inviter_device_pubkey iv)"
    "parse_hex_32 cr (hex_encode cr (shared_secret iv)) = Inr (shared_secret iv)"
    "wire_public_key cr (inviter_device_pubkey iv) = Inr (inviter iv)"
    using assms(4) wire_parse [OF laws] by (simp_all add: invite_keys_ok_def wire_public_key_def)
  show ?thesis
    using invite_owner_parse [OF laws assms(4)] uses_back
    by (simp add: parse_invite_url_def url fields keys require_privacy_version_def public_invite_def)
qed


section \<open>Rosters\<close>

lemma parse_roster_devices_tags:
  assumes "wire_laws cr" "\<And>d. d \<in> set ds \<Longrightarrow> pk_from_slice cr (device_bytes (device_pubkey d))"
  shows "parse_roster_devices cr (map (roster_device_tag cr) ds) = Inr ds"
  using assms(2)
proof (induction ds)
  case (Cons d ds)
  then have "parse_device_pubkey cr (hex_encode cr (device_bytes (device_pubkey d))) = Inr (device_pubkey d)"
    using wire_parse(1) [OF assms(1)] by simp
  then show ?case using Cons by (simp add: roster_device_tag_def parse_u64_print)
qed simp

lemma normalize_sorted:
  assumes "sorted_wrt (<) (map device_pubkey ds)"
  shows "normalize_devices ds = ds"
proof -
  have "bt_entries (fold insert_earliest ds m) = bt_entries m @ map (\<lambda>d. (device_pubkey d, d)) ds"
    if "sorted_wrt (<) (map device_pubkey ds)" "\<And>k d. bt_get m k \<noteq> None \<Longrightarrow> d \<in> set ds \<Longrightarrow> k < device_pubkey d" for m
    using that
  proof (induction ds arbitrary: m)
    case (Cons d ds)
    have none: "bt_get m (device_pubkey d) = None" using Cons.prems(2) by (metis less_irrefl list.set_intros(1))
    have last: "bt_entries (bt_insert (device_pubkey d) d m) = bt_entries m @ [(device_pubkey d, d)]"
      by (rule bt_insert_last) (use Cons.prems(2) in auto)
    have "k < device_pubkey d'" if "bt_get (bt_insert (device_pubkey d) d m) k \<noteq> None" "d' \<in> set ds" for k d'
      using that Cons.prems by (auto split: if_splits)
    then show ?case using Cons.IH [of "bt_insert (device_pubkey d) d m"] Cons.prems(1) none last
      by (simp add: insert_earliest_def)
  qed simp
  from this [OF assms, of bt_empty] show ?thesis
    by (simp add: normalize_devices_def bt_values_def comp_def)
qed

text \<open>
  A roster survives its event: the signed roster event of an owner is parsed back to the same owner
  and, when the roster is in the normal form every roster operation produces, the same roster.
\<close>

theorem roster_wire_roundtrip:
  assumes "wire_laws cr" "roster_unsigned_event cr owner r = Inr u" "signs cr u ev" "roster_ok r"
    and "\<And>d. d \<in> set (devices r) \<Longrightarrow> pk_from_slice cr (device_bytes (device_pubkey d))"
  shows "parse_roster_event cr ev = Inr \<lparr>decoded_owner_pubkey = owner, decoded_roster = r\<rparr>"
proof -
  let ?tags = "[[''d'', ROSTER_D_TAG], [''version'', ROSTER_VERSION]] @ map (roster_device_tag cr) (devices r)"
  have "signs cr (build_unsigned cr ROSTER_EVENT_KIND [] ?tags (roster_created_at r) (owner_bytes owner)) ev"
    using assms(2,3) by (auto simp: roster_unsigned_event_def result_simps owner_public_key_def split: if_splits)
  moreover have "builder_keeps cr (owner_bytes owner) tag" if "tag \<in> set ?tags" for tag
    using that wire_keeps(1) [OF assms(1)] by (auto simp: roster_device_tag_def)
  ultimately have ev: "event_verify cr ev" "ev_pubkey ev = owner_bytes owner" "ev_created_at ev = roster_created_at r"
      "ev_kind ev = 30078" "ev_tags ev = ?tags"
    using signed_build [of cr ROSTER_EVENT_KIND "[]" ?tags "roster_created_at r" "owner_bytes owner" ev] by auto
  have "parse_roster_devices cr ?tags = Inr (devices r)"
    using parse_roster_devices_tags [OF assms(1,5)] by simp
  moreover have "roster_new (roster_created_at r) (devices r) = r"
    using normalize_sorted assms(4) by (simp add: roster_new_def roster_ok_def)
  ultimately show ?thesis
    using ev by (simp add: parse_roster_event_def verify_event_kind_def verify_event_def optional_tag_value_def)
qed

end
