(* ===== verification/Wire_Instance.thy ===== *)
theory Wire_Instance
  imports Wire_Properties
begin

text \<open>
  A concrete instance of the functions the event format takes from other crates, for which its laws hold,
  and the round trips applied to concrete envelopes, invites and rosters.
\<close>

declare split_paired_All [simp del] split_paired_Ex [simp del]

section \<open>Codecs\<close>

definition print_plain :: "Value \<Rightarrow> string" where
  "print_plain v = (case as_u64 v of Some n \<Rightarrow> CHR ''n'' # code_text (u64_to_string n)
     | None \<Rightarrow> (case as_str v of Some t \<Rightarrow> CHR ''s'' # code_text t | None \<Rightarrow> CHR ''z'' # code_text []))"

definition read_plain :: "string \<Rightarrow> Value \<times> string" where
  "read_plain s = (case uncode_text (drop 1 s) of (t, r) \<Rightarrow>
     (if take 1 s = ''n'' then JNumber (PosInt (case parse_u64 t of Some n \<Rightarrow> n | None \<Rightarrow> 0))
      else if take 1 s = ''s'' then JString t else Null, r))"

lemma read_print_plain: "plain_value v \<Longrightarrow> read_plain (print_plain v @ r) = (v, r)"
  by (cases v rule: as_u64.cases; simp add: plain_value_def print_plain_def read_plain_def parse_u64_print)

definition print_fields :: "(string \<times> Value) list \<Rightarrow> string" where
  "print_fields fs = concat (map (\<lambda>f. CHR ''f'' # code_text (fst f) @ print_plain (snd f)) fs)"

fun read_fields :: "nat \<Rightarrow> string \<Rightarrow> (string \<times> Value) list" where
  "read_fields 0 s = []"
| "read_fields (Suc n) s = (if s = [] then []
     else case uncode_text (drop 1 s) of (k, r) \<Rightarrow> (case read_plain r of (v, r') \<Rightarrow> (k, v) # read_fields n r'))"

lemma read_print_fields:
  "list_all (\<lambda>f. plain_value (snd f)) fs \<Longrightarrow> length (print_fields fs) \<le> n \<Longrightarrow> read_fields n (print_fields fs) = fs"
proof (induction fs arbitrary: n)
  case Nil
  then show ?case by (cases n) (simp_all add: print_fields_def)
next
  case (Cons f fs)
  have eq: "print_fields (f # fs) = CHR ''f'' # code_text (fst f) @ print_plain (snd f) @ print_fields fs"
    by (simp add: print_fields_def)
  then obtain m where n: "n = Suc m" "length (print_fields fs) \<le> m" using Cons.prems(2) by (cases n) auto
  then show ?case using Cons.IH [of m] Cons.prems(1) by (simp add: eq read_print_plain)
qed

definition print_value :: "Value \<Rightarrow> string" where
  "print_value v = (case as_object v of None \<Rightarrow> [] | Some fs \<Rightarrow> print_fields fs)"

definition read_value :: "string \<Rightarrow> Value option" where
  "read_value s = Some (object_of (read_fields (length s) s))"

definition percent_encode :: "string \<Rightarrow> string" where
  "percent_encode s = concat (map (\<lambda>c. if c = CHR ''#'' then ''%h'' else if c = CHR ''%'' then ''%p'' else [c]) s)"

fun percent_decode :: "string \<Rightarrow> string" where
  "percent_decode (c # d # cs) = (if c = CHR ''%'' then (if d = CHR ''h'' then CHR ''#'' else CHR ''%'') # percent_decode cs
     else c # percent_decode (d # cs))"
| "percent_decode [c] = [c]"
| "percent_decode [] = []"

lemma percent_decode_Cons: "c \<noteq> CHR ''%'' \<Longrightarrow> percent_decode (c # cs) = c # percent_decode cs"
  by (cases cs) auto

lemma percent_roundtrip: "percent_decode (percent_encode s) = s \<and> CHR ''#'' \<notin> set (percent_encode s)"
  by (induction s) (auto simp: percent_encode_def percent_decode_Cons)

section \<open>The instance\<close>

definition read_key :: "string \<Rightarrow> PublicKey option" where
  "read_key s = (case uncode s of (k, _) \<Rightarrow> if k \<noteq> [] \<and> code_str k = s then Some k else None)"

definition sign_event :: "bytes \<Rightarrow> UnsignedEvent \<Rightarrow> Event option" where
  "sign_event sk r = Some \<lparr>ev_id = sk, ev_pubkey = rumor_pubkey r, ev_created_at = rumor_created_at r, ev_kind = rumor_kind r,
     ev_tags = rumor_tags r, ev_content = rumor_content r, ev_sig = sk\<rparr>"

definition demo_wire_ext :: "'x \<Rightarrow> 'x wire_crypto_scheme" where
  "demo_wire_ext x = demo_ext
     (event_crypto_ext (\<lambda>ev. ev_sig ev = ev_pubkey ev) (\<lambda>ev. Inr 100) (\<lambda>pk tag. True)
        (\<lambda>n. ''01234567-0123-0123-0123-0123456789ab'')
       (invite_crypto_ext rumor_pubkey demo_rumor_to_json demo_rumor_from_json demo_payload_to_json
          demo_payload_from_json (\<lambda>sk aux d. sk @ d) (\<lambda>pk d sg. sg = pk @ d) (\<lambda>bs. True)
          (wire_crypto_ext read_key sign_event read_value print_value percent_encode (\<lambda>s. Some (percent_decode s)) (\<lambda>r. None) x)))"

definition demo_wire :: wire_crypto where
  "demo_wire = demo_wire_ext ()"

lemma demo_wire_simps:
  "event_verify (demo_wire_ext x) = (\<lambda>ev. ev_sig ev = ev_pubkey ev)"
  "builder_keeps (demo_wire_ext x) = (\<lambda>pk tag. True)"
  "pk_parse (demo_wire_ext x) = read_key" "sign_with_keys (demo_wire_ext x) = sign_event"
  "value_from_str (demo_wire_ext x) = read_value" "value_to_string (demo_wire_ext x) = print_value"
  "url_encode (demo_wire_ext x) = percent_encode" "url_decode (demo_wire_ext x) = (\<lambda>s. Some (percent_decode s))"
  "pk_from_slice (demo_wire_ext x) = (\<lambda>bs. bs \<noteq> [])" "hex_encode (demo_wire_ext x) = code_str"
  "hex_decode (demo_wire_ext x) = (\<lambda>s. Inr (fst (uncode s)))" "pk_of_sk (demo_wire_ext x) = (\<lambda>bs. bs)"
  by (simp_all add: demo_wire_ext_def demo_ext_def)

lemma demo_wire_laws: "wire_laws (demo_wire_ext x)"
proof -
  have "b64_roundtrip (demo_wire_ext x)" unfolding demo_wire_ext_def by (rule demo_b64)
  moreover have "signs (demo_wire_ext x) r ev" if "sk = rumor_pubkey r" "sign_event sk r = Some ev" for sk r ev
    using that by (auto simp: signs_def sign_event_def demo_wire_simps)
  moreover have "read_key (code_str k) = Some k" if "k \<noteq> []" for k
    using that uncode_code [of k "[]"] by (simp add: read_key_def)
  moreover have "read_value (print_value (Object fs)) = Some (object_of fs)" if "list_all (\<lambda>f. plain_value (snd f)) fs" for fs
    using read_print_fields [OF that] by (simp add: read_value_def print_value_def)
  moreover have "fst (uncode (code_str bs)) = bs" for bs using uncode_code [of bs "[]"] by simp
  ultimately show ?thesis using percent_roundtrip by (auto simp: wire_laws_def demo_wire_simps)
qed

lemmas demo_wire_laws' = demo_wire_laws [of "()", folded demo_wire_def]

section \<open>Witnesses\<close>

definition demo_envelope :: MessageEnvelope where
  "demo_envelope = \<lparr>env_version = METADATA_PRIVACY_VERSION, env_sender = DevicePubkey [7], env_recipient = Some (DevicePubkey [8]),
     env_signer_secret_key = [7], env_created_at = 10, encrypted_header = ''header'', env_ciphertext = ''ciphertext''\<rparr>"

definition ok_value :: "'e + 'a \<Rightarrow> 'a \<Rightarrow> 'a" where
  "ok_value r d = (case r of Inr x \<Rightarrow> x | Inl _ \<Rightarrow> d)"

definition blank_event :: Event where
  "blank_event = \<lparr>ev_id = [], ev_pubkey = [], ev_created_at = 0, ev_kind = 0, ev_tags = [], ev_content = [], ev_sig = []\<rparr>"

definition demo_message_event :: Event where
  "demo_message_event = ok_value (message_event demo_wire demo_envelope) blank_event"

theorem message_wire_roundtrip_witness:
  "message_event demo_wire demo_envelope = Inr demo_message_event
   \<and> parse_message_event demo_wire demo_message_event = Inr (demo_envelope\<lparr>env_signer_secret_key := replicate 32 0\<rparr>)"
proof -
  have ev: "message_event demo_wire demo_envelope = Inr demo_message_event" by code_simp
  have "encrypted_header demo_envelope \<noteq> []" by code_simp
  moreover have "recipient_ok demo_wire (env_sender demo_envelope) r" if "env_recipient demo_envelope = Some r" for r
    using that by (auto simp: demo_envelope_def recipient_ok_def demo_wire_def demo_wire_simps)
  ultimately show ?thesis using message_wire_roundtrip [OF demo_wire_laws' ev] ev by blast
qed

definition demo_response_envelope :: InviteResponseEnvelope where
  "demo_response_envelope = \<lparr>response_metadata_privacy_version = METADATA_PRIVACY_VERSION, response_sender = DevicePubkey [7],
     signer_secret_key = [7], response_recipient = DevicePubkey [8], response_created_at = 25, response_content = ''payload''\<rparr>"

definition demo_response_event :: Event where
  "demo_response_event = ok_value (invite_response_event demo_wire demo_response_envelope) blank_event"

theorem response_wire_roundtrip_witness:
  "invite_response_event demo_wire demo_response_envelope = Inr demo_response_event
   \<and> parse_invite_response_event demo_wire demo_response_event =
     Inr (demo_response_envelope\<lparr>signer_secret_key := replicate 32 0\<rparr>)"
proof -
  have ev: "invite_response_event demo_wire demo_response_envelope = Inr demo_response_event" by code_simp
  have "recipient_ok demo_wire (response_sender demo_response_envelope) (response_recipient demo_response_envelope)" by code_simp
  then show ?thesis using response_wire_roundtrip [OF demo_wire_laws' ev] ev by blast
qed

definition demo_public_invite :: Invite where
  "demo_public_invite = \<lparr>invite_metadata_privacy_version = METADATA_PRIVACY_VERSION, inviter_device_pubkey = DevicePubkey [7],
     inviter_ephemeral_public_key = DevicePubkey [9], shared_secret = replicate 32 5, inviter_ephemeral_private_key = Some [9],
     max_uses = Some 3, used_by = [DevicePubkey [4]], used_response_contents = [''c''], invite_created_at = 22,
     inviter_owner_pubkey = Some (OwnerPubkey [6]), purpose = Some ''private'', inviter = [7], invite_device_id = Some ''laptop'',
     invite_owner_public_key = None\<rparr>"

text \<open>The same invite with the key of its own device as device id, as for linking a device.\<close>

definition demo_link_invite :: Invite where
  "demo_link_invite = demo_public_invite\<lparr>invite_device_id := Some (code_str [7])\<rparr>"

definition demo_invite_unsigned :: "Invite \<Rightarrow> UnsignedEvent" where
  "demo_invite_unsigned iv = ok_value (invite_unsigned_event demo_wire iv) (build_unsigned demo_wire 0 [] [] 0 [])"

definition demo_invite_event :: "Invite \<Rightarrow> Event" where
  "demo_invite_event iv = (let r = demo_invite_unsigned iv in \<lparr>ev_id = [], ev_pubkey = [7], ev_created_at = 22, ev_kind = rumor_kind r,
     ev_tags = rumor_tags r, ev_content = [], ev_sig = [7]\<rparr>)"

definition demo_invite_url :: "Invite \<Rightarrow> string" where
  "demo_invite_url iv = ok_value (invite_url demo_wire iv ''https://chat.iris.to'') []"


definition demo_roster :: DeviceRoster where
  "demo_roster = \<lparr>roster_created_at = 300, devices = [\<lparr>device_pubkey = DevicePubkey [4], device_created_at = 100\<rparr>,
     \<lparr>device_pubkey = DevicePubkey [5], device_created_at = 90\<rparr>]\<rparr>"

definition demo_roster_unsigned :: UnsignedEvent where
  "demo_roster_unsigned = build_unsigned demo_wire ROSTER_EVENT_KIND []
     ([[''d'', ROSTER_D_TAG], [''version'', ROSTER_VERSION]] @ map (roster_device_tag demo_wire) (devices demo_roster)) 300 [6]"

definition demo_roster_event :: Event where
  "demo_roster_event = \<lparr>ev_id = [], ev_pubkey = [6], ev_created_at = 300, ev_kind = rumor_kind demo_roster_unsigned,
     ev_tags = rumor_tags demo_roster_unsigned, ev_content = [], ev_sig = [6]\<rparr>"

theorem roster_wire_roundtrip_witness:
  "parse_roster_event demo_wire demo_roster_event = Inr \<lparr>decoded_owner_pubkey = OwnerPubkey [6], decoded_roster = demo_roster\<rparr>"
proof (rule roster_wire_roundtrip [OF demo_wire_laws'])
  show "roster_unsigned_event demo_wire (OwnerPubkey [6]) demo_roster = Inr demo_roster_unsigned" by code_simp
  show "signs demo_wire demo_roster_unsigned demo_roster_event" by code_simp
  show "roster_ok demo_roster" by code_simp
  show "pk_from_slice demo_wire (device_bytes (device_pubkey d))" if "d \<in> set (devices demo_roster)" for d
    using that by (auto simp: demo_roster_def demo_wire_def demo_wire_simps)
qed

definition demo_group_envelope :: GroupSenderKeyMessageEnvelope where
  "demo_group_envelope = \<lparr>ske_group_id = ''group-1'', ske_sender_event_pubkey = DevicePubkey [7], ske_signer_secret_key = [7],
     ske_key_id = 7, ske_message_number = 11, ske_encrypted_header = None, ske_created_at = 12, ske_ciphertext = [1, 2]\<rparr>"

definition demo_group_event :: Event where
  "demo_group_event = ok_value (group_sender_key_message_event demo_wire 0 demo_group_envelope) blank_event"

theorem group_message_camouflaged_witness:
  "group_sender_key_message_event demo_wire 0 demo_group_envelope = Inr demo_group_event
   \<and> is_ok (parse_message_event demo_wire demo_group_event)
   \<and> \<not> is_ok (parse_group_sender_key_message_event demo_wire demo_group_event)"
proof -
  have ev: "group_sender_key_message_event demo_wire 0 demo_group_envelope = Inr demo_group_event" by code_simp
  moreover have "optional_tag_value demo_group_event ''header'' \<noteq> Some []" by code_simp
  ultimately show ?thesis using group_message_camouflaged [OF demo_wire_laws' ev] by blast
qed

end
