(* ===== verification/Pairwise_Codec.thy ===== *)
theory Pairwise_Codec
  imports Wire
begin

text \<open>
  The codec of pairwise messages (the crate \<^verbatim>\<open>nostr-double-ratchet-pairwise-codec\<close>): the rumor that a
  session encrypts, with the tags that mark its protocol, its version, its time in milliseconds and its
  expiration, for messages, typing indicators, receipts, reactions and chat settings.
\<close>

declare split_paired_All [simp del] split_paired_Ex [simp del]

section \<open>Data\<close>

definition PROTOCOL_TAG :: string where "PROTOCOL_TAG = ''ndr-protocol''"
definition PROTOCOL_VALUE :: string where "PROTOCOL_VALUE = ''pairwise-rumor''"
definition VERSION_TAG :: string where "VERSION_TAG = ''ndr-version''"
definition VERSION_VALUE :: string where "VERSION_VALUE = ''1''"
definition MS_TAG :: string where "MS_TAG = ''ms''"
definition EXPIRATION_TAG :: string where "EXPIRATION_TAG = ''expiration''"

definition CHAT_MESSAGE_KIND :: u32 where "CHAT_MESSAGE_KIND = 14"
definition REACTION_KIND :: u32 where "REACTION_KIND = 7"
definition RECEIPT_KIND :: u32 where "RECEIPT_KIND = 15"
definition TYPING_KIND :: u32 where "TYPING_KIND = 25"
definition CHAT_SETTINGS_KIND :: u32 where "CHAT_SETTINGS_KIND = 10448"

datatype CodecError =
    CodecJson
  | CodecNostrEvent
  | UnknownProtocol string
  | MissingProtocol
  | MissingVersion
  | UnsupportedVersion string
  | InvalidReceiptType string
  | InvalidChatSettings
  | MissingEventId
  | DuplicateControlTag string
  | MissingControlTag string
  | InvalidControlTag string

type_synonym 'a codec_res = "CodecError + 'a"

datatype DecodeMode = Strict | AllowLegacyUnmarked
datatype ProtocolMarker = CurrentV1 | LegacyUnmarked

record EncodeOptions =
  opt_created_at_secs :: u64
  opt_millis :: u64
  opt_expiration :: "u64 option"

definition encode_options_new :: "u64 \<Rightarrow> u64 \<Rightarrow> EncodeOptions" where
  "encode_options_new created ms = \<lparr>opt_created_at_secs = created, opt_millis = ms, opt_expiration = None\<rparr>"

definition with_expiration :: "EncodeOptions \<Rightarrow> u64 \<Rightarrow> EncodeOptions" where
  "with_expiration options expires = options\<lparr>opt_expiration := Some expires\<rparr>"

datatype ReceiptType = Delivered | Seen

fun receipt_as_str :: "ReceiptType \<Rightarrow> string" where
  "receipt_as_str Delivered = ''delivered''"
| "receipt_as_str Seen = ''seen''"

definition receipt_try_from :: "string \<Rightarrow> ReceiptType codec_res" where
  "receipt_try_from v = (if v = ''delivered'' then Inr Delivered else if v = ''seen'' then Inr Seen
     else Inl (InvalidReceiptType v))"

datatype ChatSettingsTtl = ClearPeerOverride | DisablePeerExpiration | Seconds u64

datatype PairwiseRumorKind =
    Message string "string list" "u64 option"
  | Typing "u64 option"
  | Receipt ReceiptType "string list" "u64 option"
  | Reaction string "string option" "u64 option"
  | ChatSettings ChatSettingsTtl
  | Custom

record DecodedPairwiseRumor =
  decoded_marker :: ProtocolMarker
  decoded_event :: UnsignedEvent
  decoded_kind :: PairwiseRumorKind
  decoded_millis :: "u64 option"
  decoded_expiration :: "u64 option"

text \<open>
  \<^verbatim>\<open>serde_json::to_vec\<close> of an unsigned event, and \<^verbatim>\<open>StrictRumor::from_slice\<close> followed by
  \<^verbatim>\<open>into_unsigned_event\<close>, which is the derived deserialisation of the same six fields.
\<close>

record codec_crypto = wire_crypto +
  unsigned_to_vec :: "UnsignedEvent \<Rightarrow> bytes option"
  strict_rumor_from_slice :: "bytes \<Rightarrow> UnsignedEvent option"

section \<open>Ids and tags\<close>

text \<open>\<^verbatim>\<open>UnsignedEvent::ensure_id\<close> and \<^verbatim>\<open>verify_id\<close>.\<close>

definition ensure_id :: "'x invite_crypto_scheme \<Rightarrow> UnsignedEvent \<Rightarrow> UnsignedEvent" where
  "ensure_id cr r = (case rumor_id r of Some _ \<Rightarrow> r | None \<Rightarrow> r\<lparr>rumor_id := Some (rumor_hash cr r)\<rparr>)"

definition verify_id :: "'x invite_crypto_scheme \<Rightarrow> UnsignedEvent \<Rightarrow> bool" where
  "verify_id cr r \<longleftrightarrow> (case rumor_id r of Some i \<Rightarrow> i = rumor_hash cr r | None \<Rightarrow> True)"

definition single_tag_value :: "UnsignedEvent \<Rightarrow> string \<Rightarrow> string option codec_res" where
  "single_tag_value r key =
     (case filter (\<lambda>tag. tag_name tag = Some key) (rumor_tags r) of
        [] \<Rightarrow> Inr None
      | first # rest \<Rightarrow> and_then (ok_or (list_get first 1) (InvalidControlTag key)) (\<lambda>v.
          if rest \<noteq> [] then Inl (DuplicateControlTag key) else Inr (Some v)))"

definition codec_tag_values :: "UnsignedEvent \<Rightarrow> string \<Rightarrow> string list" where
  "codec_tag_values r key =
     List.map_filter (\<lambda>tag. if tag_name tag \<noteq> Some key then None else list_get tag 1) (rumor_tags r)"

definition rumor_expiration :: "UnsignedEvent \<Rightarrow> u64 option codec_res" where
  "rumor_expiration r =
     and_then (single_tag_value r EXPIRATION_TAG) (transpose_opt (\<lambda>v.
       ok_or (parse_u64 v) (InvalidControlTag EXPIRATION_TAG)))"

definition protocol_marker :: "UnsignedEvent \<Rightarrow> DecodeMode \<Rightarrow> ProtocolMarker codec_res" where
  "protocol_marker r mode =
     and_then (single_tag_value r PROTOCOL_TAG) (\<lambda>protocol.
       case protocol of
         Some v \<Rightarrow>
           if v = PROTOCOL_VALUE
           then and_then (single_tag_value r VERSION_TAG) (\<lambda>version. case version of
               Some w \<Rightarrow> if w = VERSION_VALUE then Inr CurrentV1 else Inl (UnsupportedVersion w)
             | None \<Rightarrow> Inl MissingVersion)
           else Inl (UnknownProtocol v)
       | None \<Rightarrow> if mode = AllowLegacyUnmarked then Inr LegacyUnmarked else Inl MissingProtocol)"

definition control_tags :: "UnsignedEvent \<Rightarrow> ProtocolMarker \<Rightarrow> (u64 option \<times> u64 option) codec_res" where
  "control_tags r marker =
     and_then (if marker = CurrentV1
        then and_then (and_then (single_tag_value r MS_TAG) (\<lambda>v. ok_or v (MissingControlTag MS_TAG))) (\<lambda>ms.
          and_then (ok_or (parse_u64 ms) (InvalidControlTag MS_TAG)) (\<lambda>n. Inr (Some n)))
        else Inr None) (\<lambda>millis.
     and_then (rumor_expiration r) (\<lambda>expiration. Inr (millis, expiration)))"

definition parse_chat_settings :: "'x wire_crypto_scheme \<Rightarrow> string \<Rightarrow> ChatSettingsTtl codec_res" where
  "parse_chat_settings cr content =
     and_then (ok_or (value_from_str cr content) CodecJson) (\<lambda>value.
       if value_field value ''type'' as_str \<noteq> Some ''chat-settings'' \<or> value_field value ''v'' as_u64 \<noteq> Some 1
       then Inl InvalidChatSettings
       else case value_field value ''messageTtlSeconds'' Some of
         None \<Rightarrow> Inr ClearPeerOverride
       | Some Null \<Rightarrow> Inr DisablePeerExpiration
       | Some (JNumber n) \<Rightarrow> (case as_u64 (JNumber n) of
             Some seconds \<Rightarrow> Inr (if seconds = 0 then DisablePeerExpiration else Seconds seconds)
           | None \<Rightarrow> Inl InvalidChatSettings)
       | Some _ \<Rightarrow> Inl InvalidChatSettings)"

section \<open>Encoding\<close>

definition build_event ::
  "'x wire_crypto_scheme \<Rightarrow> PublicKey \<Rightarrow> u32 \<Rightarrow> string \<Rightarrow> EncodeOptions \<Rightarrow> string list list \<Rightarrow> UnsignedEvent" where
  "build_event cr author kind content options extra_tags =
     ensure_id cr (build_unsigned cr kind content
       ([[PROTOCOL_TAG, PROTOCOL_VALUE], [VERSION_TAG, VERSION_VALUE]] @ extra_tags
        @ [[MS_TAG, u64_to_string (opt_millis options)]]
        @ (case opt_expiration options of None \<Rightarrow> [] | Some e \<Rightarrow> [[EXPIRATION_TAG, u64_to_string e]]))
       (opt_created_at_secs options) author)"

definition codec_message_event :: "'x wire_crypto_scheme \<Rightarrow> PublicKey \<Rightarrow> string \<Rightarrow> EncodeOptions \<Rightarrow> UnsignedEvent" where
  "codec_message_event cr author body options = build_event cr author CHAT_MESSAGE_KIND body options []"

definition typing_event :: "'x wire_crypto_scheme \<Rightarrow> PublicKey \<Rightarrow> EncodeOptions \<Rightarrow> UnsignedEvent" where
  "typing_event cr author options = build_event cr author TYPING_KIND ''typing'' options []"

definition receipt_event ::
  "'x wire_crypto_scheme \<Rightarrow> PublicKey \<Rightarrow> ReceiptType \<Rightarrow> string list \<Rightarrow> EncodeOptions \<Rightarrow> UnsignedEvent" where
  "receipt_event cr author receipt_type event_ids options =
     build_event cr author RECEIPT_KIND (receipt_as_str receipt_type) options (map (\<lambda>i. [''e'', i]) event_ids)"

definition reaction_event ::
  "'x wire_crypto_scheme \<Rightarrow> PublicKey \<Rightarrow> string \<Rightarrow> string \<Rightarrow> EncodeOptions \<Rightarrow> UnsignedEvent" where
  "reaction_event cr author target_event_id emoji options =
     build_event cr author REACTION_KIND emoji options [[''e'', target_event_id]]"

text \<open>The derived serialisation of \<^verbatim>\<open>ChatSettingsPayloadV1\<close> writes an absent time to live as null.\<close>

definition chat_settings_payload :: "Value option \<Rightarrow> Value" where
  "chat_settings_payload message_ttl_seconds =
     Object [(''type'', JString ''chat-settings''), (''v'', JNumber (PosInt 1)),
       (''messageTtlSeconds'', case message_ttl_seconds of None \<Rightarrow> Null | Some v \<Rightarrow> v)]"

definition chat_settings_event ::
  "'x wire_crypto_scheme \<Rightarrow> PublicKey \<Rightarrow> ChatSettingsTtl \<Rightarrow> u64 \<Rightarrow> u64 \<Rightarrow> UnsignedEvent" where
  "chat_settings_event cr author message_ttl created ms =
     build_event cr author CHAT_SETTINGS_KIND
       (value_to_string cr (chat_settings_payload (case message_ttl of
          ClearPeerOverride \<Rightarrow> None
        | DisablePeerExpiration \<Rightarrow> Some Null
        | Seconds seconds \<Rightarrow> Some (JNumber (PosInt seconds)))))
       (encode_options_new created ms) []"

definition encode_event :: "'x codec_crypto_scheme \<Rightarrow> UnsignedEvent \<Rightarrow> bytes codec_res" where
  "encode_event cr r = ok_or (unsigned_to_vec cr (ensure_id cr r)) CodecJson"

definition encode_message :: "'x codec_crypto_scheme \<Rightarrow> PublicKey \<Rightarrow> string \<Rightarrow> EncodeOptions \<Rightarrow> bytes codec_res" where
  "encode_message cr author body options = encode_event cr (codec_message_event cr author body options)"

definition encode_typing :: "'x codec_crypto_scheme \<Rightarrow> PublicKey \<Rightarrow> EncodeOptions \<Rightarrow> bytes codec_res" where
  "encode_typing cr author options = encode_event cr (typing_event cr author options)"

definition encode_receipt ::
  "'x codec_crypto_scheme \<Rightarrow> PublicKey \<Rightarrow> ReceiptType \<Rightarrow> string list \<Rightarrow> EncodeOptions \<Rightarrow> bytes codec_res" where
  "encode_receipt cr author receipt_type event_ids options = encode_event cr (receipt_event cr author receipt_type event_ids options)"

definition encode_reaction ::
  "'x codec_crypto_scheme \<Rightarrow> PublicKey \<Rightarrow> string \<Rightarrow> string \<Rightarrow> EncodeOptions \<Rightarrow> bytes codec_res" where
  "encode_reaction cr author target emoji options = encode_event cr (reaction_event cr author target emoji options)"

definition encode_chat_settings ::
  "'x codec_crypto_scheme \<Rightarrow> PublicKey \<Rightarrow> ChatSettingsTtl \<Rightarrow> u64 \<Rightarrow> u64 \<Rightarrow> bytes codec_res" where
  "encode_chat_settings cr author message_ttl created ms = encode_event cr (chat_settings_event cr author message_ttl created ms)"

section \<open>Decoding\<close>

definition rumor_kind_of :: "'x wire_crypto_scheme \<Rightarrow> UnsignedEvent \<Rightarrow> u64 option \<Rightarrow> PairwiseRumorKind codec_res" where
  "rumor_kind_of cr r expiration =
     (if rumor_kind r = ucast CHAT_MESSAGE_KIND
      then Inr (Message (rumor_content r) (codec_tag_values r ''e'') expiration)
      else if rumor_kind r = ucast TYPING_KIND then Inr (Typing expiration)
      else if rumor_kind r = ucast RECEIPT_KIND
      then and_then (receipt_try_from (rumor_content r)) (\<lambda>t. Inr (Receipt t (codec_tag_values r ''e'') expiration))
      else if rumor_kind r = ucast REACTION_KIND
      then Inr (Reaction (rumor_content r) (list_get (codec_tag_values r ''e'') 0) expiration)
      else if rumor_kind r = ucast CHAT_SETTINGS_KIND
      then and_then (parse_chat_settings cr (rumor_content r)) (\<lambda>t. Inr (ChatSettings t))
      else Inr Custom)"

definition decode_with_mode :: "'x codec_crypto_scheme \<Rightarrow> bytes \<Rightarrow> DecodeMode \<Rightarrow> DecodedPairwiseRumor codec_res" where
  "decode_with_mode cr payload mode =
     and_then (ok_or (strict_rumor_from_slice cr payload) CodecJson) (\<lambda>raw.
       if mode = Strict \<and> rumor_id raw = None then Inl MissingEventId
       else let r = ensure_id cr raw in
         if \<not> verify_id cr r then Inl CodecNostrEvent
         else and_then (protocol_marker r mode) (\<lambda>marker.
           and_then (control_tags r marker) (\<lambda>(millis, expiration).
           and_then (rumor_kind_of cr r expiration) (\<lambda>kind.
             Inr \<lparr>decoded_marker = marker, decoded_event = r, decoded_kind = kind,
                  decoded_millis = millis, decoded_expiration = expiration\<rparr>))))"

definition decode :: "'x codec_crypto_scheme \<Rightarrow> bytes \<Rightarrow> DecodedPairwiseRumor codec_res" where
  "decode cr payload = decode_with_mode cr payload AllowLegacyUnmarked"

definition decode_strict :: "'x codec_crypto_scheme \<Rightarrow> bytes \<Rightarrow> DecodedPairwiseRumor codec_res" where
  "decode_strict cr payload = decode_with_mode cr payload Strict"

end
