(* ===== verification/Pairwise_Codec_Properties.thy ===== *)
theory Pairwise_Codec_Properties
  imports Pairwise_Codec Wire_Instance
begin

text \<open>
  Round trips of the pairwise codec: what each encoder writes, the strict decoder reads back, with one
  exception among the chat settings.
\<close>

declare split_paired_All [simp del] split_paired_Ex [simp del]

text \<open>The JSON of a rumor is read back, and its id is a function of the other fields.\<close>

definition codec_laws :: "'x codec_crypto_scheme \<Rightarrow> bool" where
  "codec_laws cr \<longleftrightarrow> wire_laws cr \<and>
     (\<forall>r bs. unsigned_to_vec cr r = Some bs \<longrightarrow> strict_rumor_from_slice cr bs = Some r) \<and>
     (\<forall>r i. rumor_hash cr (r\<lparr>rumor_id := i\<rparr>) = rumor_hash cr r) \<and>
     (\<forall>r. built_id cr r = None \<or> built_id cr r = Some (rumor_hash cr r))"

lemmas control_tag_defs = PROTOCOL_TAG_def PROTOCOL_VALUE_def VERSION_TAG_def VERSION_VALUE_def MS_TAG_def EXPIRATION_TAG_def

definition plain_tag :: "string list \<Rightarrow> bool" where
  "plain_tag tag \<longleftrightarrow> tag \<noteq> [] \<and> hd tag \<notin> {PROTOCOL_TAG, VERSION_TAG, MS_TAG, EXPIRATION_TAG, ''p''}"

section \<open>A built event\<close>

lemma ensure_id_idem: "ensure_id cr (ensure_id cr r) = ensure_id cr r"
  by (simp add: ensure_id_def split: option.splits)

lemma ensure_id_fields [simp]:
  "rumor_tags (ensure_id cr r) = rumor_tags r" "rumor_content (ensure_id cr r) = rumor_content r"
  "rumor_kind (ensure_id cr r) = rumor_kind r" "rumor_pubkey (ensure_id cr r) = rumor_pubkey r"
  "rumor_created_at (ensure_id cr r) = rumor_created_at r"
  by (simp_all add: ensure_id_def split: option.splits)

lemma build_event_id:
  assumes "codec_laws cr"
  shows "rumor_id (build_event cr author kind content options extra) = Some (rumor_hash cr (build_event cr author kind content options extra))"
proof -
  have hash: "rumor_hash cr (r\<lparr>rumor_id := i\<rparr>) = rumor_hash cr r" for r i using assms by (simp add: codec_laws_def)
  have built: "built_id cr r = None \<or> built_id cr r = Some (rumor_hash cr r)" for r using assms by (simp add: codec_laws_def)
  have "rumor_id (ensure_id cr (r\<lparr>rumor_id := built_id cr r\<rparr>)) = Some (rumor_hash cr (ensure_id cr (r\<lparr>rumor_id := built_id cr r\<rparr>)))" for r
    using built [of r] hash by (auto simp: ensure_id_def)
  then show ?thesis unfolding build_event_def build_unsigned_def Let_def by blast
qed

lemma build_event_tags:
  assumes "codec_laws cr" "list_all plain_tag extra"
  shows "rumor_tags (build_event cr author kind content options extra) =
    [[PROTOCOL_TAG, PROTOCOL_VALUE], [VERSION_TAG, VERSION_VALUE]] @ extra @ [[MS_TAG, u64_to_string (opt_millis options)]]
    @ (case opt_expiration options of None \<Rightarrow> [] | Some e \<Rightarrow> [[EXPIRATION_TAG, u64_to_string e]])"
proof -
  have laws: "wire_laws cr" using assms(1) by (simp add: codec_laws_def)
  have "builder_keeps cr author tag" if "plain_tag tag" for tag
    using that wire_keeps(1) [OF laws] by (cases tag) (auto simp: plain_tag_def)
  then have "filter (builder_keeps cr author) extra = extra" using assms(2) by (auto simp: list_all_iff filter_id_conv)
  moreover have "builder_keeps cr author (nm # vs)" if "nm \<noteq> ''p''" for nm vs using that wire_keeps(1) [OF laws] by simp
  ultimately show ?thesis
    by (simp add: build_event_def build_unsigned_def Let_def control_tag_defs split: option.splits)
qed

lemma plain_tag_filter: "list_all plain_tag extra \<Longrightarrow> key \<in> {PROTOCOL_TAG, VERSION_TAG, MS_TAG, EXPIRATION_TAG} \<Longrightarrow>
    filter (\<lambda>tag. tag_name tag = Some key) extra = []"
  by (auto simp: list_all_iff filter_empty_conv plain_tag_def tag_name_def split: list.splits)

lemma build_event_control:
  fixes options :: EncodeOptions and author :: PublicKey and kind :: u32 and content :: string
  assumes "codec_laws cr" "list_all plain_tag extra"
  defines "r \<equiv> build_event cr author kind content options extra"
  shows "protocol_marker r mode = Inr CurrentV1"
    and "control_tags r CurrentV1 = Inr (Some (opt_millis options), opt_expiration options)"
proof -
  have pick: "filter (\<lambda>tag. tag_name tag = Some key) (rumor_tags r) =
      filter (\<lambda>tag. tag_name tag = Some key) ([[PROTOCOL_TAG, PROTOCOL_VALUE], [VERSION_TAG, VERSION_VALUE]]
        @ [[MS_TAG, u64_to_string (opt_millis options)]]
        @ (case opt_expiration options of None \<Rightarrow> [] | Some e \<Rightarrow> [[EXPIRATION_TAG, u64_to_string e]]))"
    if "key \<in> {PROTOCOL_TAG, VERSION_TAG, MS_TAG, EXPIRATION_TAG}" for key
    using plain_tag_filter [OF assms(2) that] by (auto simp: r_def build_event_tags [OF assms(1,2)])
  have "single_tag_value r PROTOCOL_TAG = Inr (Some PROTOCOL_VALUE)" "single_tag_value r VERSION_TAG = Inr (Some VERSION_VALUE)"
    "single_tag_value r MS_TAG = Inr (Some (u64_to_string (opt_millis options)))"
    "single_tag_value r EXPIRATION_TAG = Inr (map_option u64_to_string (opt_expiration options))"
    unfolding single_tag_value_def
    by (simp_all add: pick) (simp_all add: control_tag_defs split: option.splits)
  then show "protocol_marker r mode = Inr CurrentV1"
    and "control_tags r CurrentV1 = Inr (Some (opt_millis options), opt_expiration options)"
    by (simp_all add: protocol_marker_def control_tags_def rumor_expiration_def parse_u64_print
      option.map_comp split: option.splits) (cases "opt_expiration options"; simp add: parse_u64_print)
qed

text \<open>The strict decoder on an encoded event, up to the reading of its kind.\<close>

lemma decode_encoded:
  assumes "codec_laws cr" "list_all plain_tag extra"
    and "encode_event cr (build_event cr author kind content options extra) = Inr bs"
  defines "r \<equiv> build_event cr author kind content options extra"
  shows "decode_strict cr bs = and_then (rumor_kind_of cr r (opt_expiration options)) (\<lambda>k.
    Inr \<lparr>decoded_marker = CurrentV1, decoded_event = r, decoded_kind = k, decoded_millis = Some (opt_millis options),
         decoded_expiration = opt_expiration options\<rparr>)"
proof -
  have id: "rumor_id r = Some (rumor_hash cr r)" unfolding r_def by (rule build_event_id [OF assms(1)])
  then have same: "ensure_id cr r = r" "verify_id cr r" by (simp_all add: ensure_id_def verify_id_def)
  have "strict_rumor_from_slice cr bs = Some r"
    using assms(1,3) same(1) by (auto simp: encode_event_def result_simps codec_laws_def r_def)
  then show ?thesis
    using id same build_event_control [OF assms(1,2), of author kind content options]
    by (simp add: decode_strict_def decode_with_mode_def r_def Let_def)
qed

lemma build_event_fields:
  "rumor_content (build_event cr author kind content options extra) = content"
  "rumor_kind (build_event cr author kind content options extra) = ucast kind"
  "rumor_pubkey (build_event cr author kind content options extra) = author"
  "rumor_created_at (build_event cr author kind content options extra) = opt_created_at_secs options"
  by (simp_all add: build_event_def build_unsigned_def Let_def)

lemma map_filter_parts:
  "List.map_filter f (xs @ ys) = List.map_filter f xs @ List.map_filter f ys"
  "List.map_filter f (x # xs) = (case f x of None \<Rightarrow> List.map_filter f xs | Some y \<Rightarrow> y # List.map_filter f xs)"
  "List.map_filter f [] = []"
  by (auto simp: List.map_filter_def split: option.splits)

lemma build_event_references:
  assumes "codec_laws cr"
  shows "codec_tag_values (build_event cr author kind content options (map (\<lambda>i. [''e'', i]) ids)) ''e'' = ids"
proof -
  have "list_all plain_tag (map (\<lambda>i. [''e'', i]) ids)" by (simp add: list_all_iff plain_tag_def control_tag_defs)
  moreover have "List.map_filter (\<lambda>tag. if tag_name tag \<noteq> Some ''e'' then None else list_get tag 1) (map (\<lambda>i. [''e'', i]) ids) = ids"
    by (induction ids) (simp_all add: map_filter_parts)
  ultimately show ?thesis unfolding codec_tag_values_def
    by (simp add: build_event_tags [OF assms] map_filter_parts control_tag_defs split: option.splits)
qed

section \<open>Round trips\<close>

lemmas codec_kind_defs = CHAT_MESSAGE_KIND_def REACTION_KIND_def RECEIPT_KIND_def TYPING_KIND_def CHAT_SETTINGS_KIND_def

lemma receipt_roundtrip: "receipt_try_from (receipt_as_str t) = Inr t"
  by (cases t) (simp_all add: receipt_try_from_def)

text \<open>What the strict decoder must return: the author, the times and the kind that were encoded.\<close>

definition decodes_to :: "'x codec_crypto_scheme \<Rightarrow> bytes \<Rightarrow> PublicKey \<Rightarrow> EncodeOptions \<Rightarrow> PairwiseRumorKind \<Rightarrow> bool" where
  "decodes_to cr bs author options k \<longleftrightarrow> (\<exists>d. decode_strict cr bs = Inr d \<and> decoded_kind d = k
     \<and> decoded_marker d = CurrentV1 \<and> rumor_pubkey (decoded_event d) = author
     \<and> rumor_created_at (decoded_event d) = opt_created_at_secs options
     \<and> decoded_millis d = Some (opt_millis options) \<and> decoded_expiration d = opt_expiration options
     \<and> rumor_id (decoded_event d) = Some (rumor_hash cr (decoded_event d)))"

lemma decodes_toI:
  assumes "codec_laws cr" "list_all plain_tag extra"
    and "encode_event cr (build_event cr author kind content options extra) = Inr bs"
    and "rumor_kind_of cr (build_event cr author kind content options extra) (opt_expiration options) = Inr k"
  shows "decodes_to cr bs author options k"
  using decode_encoded [OF assms(1-3)] assms(4) build_event_id [OF assms(1)]
  by (simp add: decodes_to_def build_event_fields)

text \<open>
  C30. What the codec encodes it decodes: the strict decoder returns, for an encoded message, typing
  indicator, receipt or reaction, the same author, times, expiration, body, receipt type and referenced
  events, marked as the current protocol and with a verified id.
\<close>

theorem pairwise_codec_roundtrip:
  assumes "codec_laws cr" "encode_message cr author body options = Inr b1" "encode_typing cr author options = Inr b2"
    and "encode_receipt cr author t ids options = Inr b3" "encode_reaction cr author target emoji options = Inr b4"
  shows "decodes_to cr b1 author options (Message body [] (opt_expiration options))
    \<and> decodes_to cr b2 author options (Typing (opt_expiration options))
    \<and> decodes_to cr b3 author options (Receipt t ids (opt_expiration options))
    \<and> decodes_to cr b4 author options (Reaction emoji (Some target) (opt_expiration options))"
proof (intro conjI)
  note refs = build_event_references [OF assms(1)]
  show "decodes_to cr b1 author options (Message body [] (opt_expiration options))"
    using assms(2) refs [where ids = "[]"] by (intro decodes_toI [OF assms(1), where extra = "[]"])
      (auto simp: encode_message_def codec_message_event_def rumor_kind_of_def build_event_fields codec_kind_defs)
  show "decodes_to cr b2 author options (Typing (opt_expiration options))"
    using assms(3) by (intro decodes_toI [OF assms(1), where extra = "[]"])
      (auto simp: encode_typing_def typing_event_def rumor_kind_of_def build_event_fields codec_kind_defs)
  show "decodes_to cr b3 author options (Receipt t ids (opt_expiration options))"
    using assms(4) refs [where ids = ids] by (intro decodes_toI [OF assms(1), where extra = "map (\<lambda>i. [''e'', i]) ids"])
      (auto simp: encode_receipt_def receipt_event_def rumor_kind_of_def build_event_fields codec_kind_defs receipt_roundtrip
        list_all_iff plain_tag_def control_tag_defs)
  show "decodes_to cr b4 author options (Reaction emoji (Some target) (opt_expiration options))"
    using assms(5) refs [where ids = "[target]"] by (intro decodes_toI [OF assms(1), where extra = "[[''e'', target]]"])
      (auto simp: encode_reaction_def reaction_event_def rumor_kind_of_def build_event_fields codec_kind_defs
        plain_tag_def control_tag_defs list_get_def)
qed

text \<open>
  C31. Chat settings lose one of their three meanings: seconds other than zero and the disabling of
  expiration are decoded as they were encoded, but the clearing of the override is decoded as the
  disabling of expiration, because its absent time to live is written as null.
\<close>

theorem chat_settings_clear_lost:
  assumes "codec_laws cr" "encode_chat_settings cr author ttl created ms = Inr bs"
  shows "decodes_to cr bs author (encode_options_new created ms) (ChatSettings
    (case ttl of Seconds n \<Rightarrow> if n = 0 then DisablePeerExpiration else Seconds n
       | DisablePeerExpiration \<Rightarrow> DisablePeerExpiration | ClearPeerOverride \<Rightarrow> DisablePeerExpiration))"
proof -
  let ?fields = "\<lambda>v. [(''type'', JString ''chat-settings''), (''v'', JNumber (PosInt 1)),
    (''messageTtlSeconds'', case v of None \<Rightarrow> Null | Some x \<Rightarrow> x)]"
  have parsed: "value_from_str cr (value_to_string cr (chat_settings_payload v)) = Some (object_of (?fields v))"
    if "v = None \<or> v = Some Null \<or> (\<exists>n. v = Some (JNumber (PosInt n)))" for v
    using assms(1) that unfolding chat_settings_payload_def codec_laws_def wire_laws_def
    by (auto simp: plain_value_def split: option.splits)
  have settings: "parse_chat_settings cr (value_to_string cr (chat_settings_payload v)) =
      Inr (case v of Some (JNumber (PosInt n)) \<Rightarrow> if n = 0 then DisablePeerExpiration else Seconds n | _ \<Rightarrow> DisablePeerExpiration)"
    if "v = None \<or> v = Some Null \<or> (\<exists>n. v = Some (JNumber (PosInt n)))" for v
    using that parsed [OF that] by (auto simp: parse_chat_settings_def value_field_object)
  show ?thesis
  proof (rule decodes_toI [OF assms(1), where extra = "[]"])
    show "encode_event cr (build_event cr author CHAT_SETTINGS_KIND (value_to_string cr (chat_settings_payload (case ttl of
        ClearPeerOverride \<Rightarrow> None | DisablePeerExpiration \<Rightarrow> Some Null | Seconds seconds \<Rightarrow> Some (JNumber (PosInt seconds)))))
      (encode_options_new created ms) []) = Inr bs"
      using assms(2) by (simp add: encode_chat_settings_def chat_settings_event_def)
  qed (cases ttl; simp add: rumor_kind_of_def build_event_fields codec_kind_defs settings)+
qed

section \<open>A concrete codec\<close>

definition demo_to_vec :: "UnsignedEvent \<Rightarrow> bytes option" where
  "demo_to_vec r = Some (string_bytes (code_option code_str (rumor_id r) @ code_str (rumor_pubkey r)
     @ code_text (u64_to_string (rumor_created_at r)) @ code_text (u64_to_string (ucast (rumor_kind r)))
     @ unary (length (rumor_tags r)) @ concat (map (\<lambda>t. unary (length t) @ concat (map code_text t)) (rumor_tags r))
     @ code_text (rumor_content r)))"

fun read_texts :: "nat \<Rightarrow> string \<Rightarrow> string list \<times> string" where
  "read_texts 0 s = ([], s)"
| "read_texts (Suc n) s = (case uncode_text s of (t, r) \<Rightarrow> (case read_texts n r of (ts, r') \<Rightarrow> (t # ts, r')))"

fun read_tags :: "nat \<Rightarrow> string \<Rightarrow> string list list \<times> string" where
  "read_tags 0 s = ([], s)"
| "read_tags (Suc n) s = (case read_unary s of (k, r) \<Rightarrow> (case read_texts k r of (t, r') \<Rightarrow>
     (case read_tags n r' of (ts, r'') \<Rightarrow> (t # ts, r''))))"

definition demo_from_slice :: "bytes \<Rightarrow> UnsignedEvent option" where
  "demo_from_slice bs =
     (case uncode_option uncode (map byte_char bs) of (i, r1) \<Rightarrow> case uncode r1 of (pk, r2) \<Rightarrow>
      case uncode_text r2 of (at, r3) \<Rightarrow> case uncode_text r3 of (k, r4) \<Rightarrow>
      case read_unary r4 of (n, r5) \<Rightarrow> case read_tags n r5 of (ts, r6) \<Rightarrow> case uncode_text r6 of (c, _) \<Rightarrow>
        Some \<lparr>rumor_id = i, rumor_pubkey = pk, rumor_created_at = the (parse_u64 at), rumor_kind = ucast (the (parse_u64 k)),
          rumor_tags = ts, rumor_content = c\<rparr>)"

lemma read_texts_code: "read_texts (length ts) (concat (map code_text ts) @ r) = (ts, r)"
  by (induction ts) simp_all

lemma read_tags_code:
  "read_tags (length ts) (concat (map (\<lambda>t. unary (length t) @ concat (map code_text t)) ts) @ r) = (ts, r)"
  by (induction ts) (simp_all add: read_texts_code)

lemma demo_slice: "demo_to_vec r = Some bs \<Longrightarrow> demo_from_slice bs = Some r"
proof -
  assume "demo_to_vec r = Some bs"
  then have "map byte_char bs = code_option code_str (rumor_id r) @ code_str (rumor_pubkey r)
     @ code_text (u64_to_string (rumor_created_at r)) @ code_text (u64_to_string (ucast (rumor_kind r)))
     @ unary (length (rumor_tags r)) @ concat (map (\<lambda>t. unary (length t) @ concat (map code_text t)) (rumor_tags r))
     @ code_text (rumor_content r)"
    by (auto simp: demo_to_vec_def bytes_of_string)
  moreover have "uncode_text (code_text s) = (s, [])" for s using uncode_text [of s "[]"] by simp
  moreover have "ucast (ucast (k :: 16 word) :: u64) = k" for k by (simp add: ucast_down_ucast_id is_down)
  ultimately show ?thesis
    by (simp add: demo_from_slice_def uncode_code parse_u64_print read_tags_code)
qed

definition demo_codec_ext :: "'x \<Rightarrow> 'x codec_crypto_scheme" where
  "demo_codec_ext x = demo_wire_ext (codec_crypto_ext demo_to_vec demo_from_slice x)"

definition demo_codec :: codec_crypto where
  "demo_codec = demo_codec_ext ()"

lemma demo_codec_laws: "codec_laws (demo_codec_ext x)"
proof -
  have "unsigned_to_vec (demo_codec_ext x) = demo_to_vec" "strict_rumor_from_slice (demo_codec_ext x) = demo_from_slice"
    "rumor_hash (demo_codec_ext x) = rumor_pubkey" "built_id (demo_codec_ext x) = (\<lambda>r. None)"
    by (simp_all add: demo_codec_ext_def demo_wire_ext_def demo_ext_def)
  then show ?thesis
    using demo_slice demo_wire_laws [of "codec_crypto_ext demo_to_vec demo_from_slice x", folded demo_codec_ext_def]
    by (simp add: codec_laws_def)
qed

lemmas demo_codec_laws' = demo_codec_laws [of "()", folded demo_codec_def]

definition demo_options :: EncodeOptions where
  "demo_options = with_expiration (encode_options_new 1710000000 1710000000123) 1710000900"

theorem pairwise_codec_roundtrip_witness:
  "\<exists>b1 b2 b3 b4. decodes_to demo_codec b1 [7] demo_options (Message ''hello'' [] (Some 1710000900))
    \<and> decodes_to demo_codec b2 [7] demo_options (Typing (Some 1710000900))
    \<and> decodes_to demo_codec b3 [7] demo_options (Receipt Seen [''x'', ''y''] (Some 1710000900))
    \<and> decodes_to demo_codec b4 [7] demo_options (Reaction ''+'' (Some ''x'') (Some 1710000900))"
proof -
  have ok: "\<exists>bs. encode_event demo_codec r = Inr bs" for r
    by (simp add: encode_event_def demo_codec_def demo_codec_ext_def demo_wire_ext_def demo_ext_def demo_to_vec_def)
  obtain b1 b2 b3 b4 where "encode_message demo_codec [7] ''hello'' demo_options = Inr b1"
    "encode_typing demo_codec [7] demo_options = Inr b2"
    "encode_receipt demo_codec [7] Seen [''x'', ''y''] demo_options = Inr b3"
    "encode_reaction demo_codec [7] ''x'' ''+'' demo_options = Inr b4"
    unfolding encode_message_def encode_typing_def encode_receipt_def encode_reaction_def using ok by metis
  from pairwise_codec_roundtrip [OF demo_codec_laws' this] show ?thesis
    by (auto simp: demo_options_def with_expiration_def)
qed

theorem chat_settings_clear_lost_witness:
  "\<exists>bs. encode_chat_settings demo_codec [7] ClearPeerOverride 5 6 = Inr bs
    \<and> decodes_to demo_codec bs [7] (encode_options_new 5 6) (ChatSettings DisablePeerExpiration)"
proof -
  have "\<exists>bs. encode_chat_settings demo_codec [7] ClearPeerOverride 5 6 = Inr bs"
    by (simp add: encode_chat_settings_def encode_event_def demo_codec_def demo_codec_ext_def demo_wire_ext_def demo_ext_def
      demo_to_vec_def)
  then show ?thesis using chat_settings_clear_lost [OF demo_codec_laws', where ttl = ClearPeerOverride] by fastforce
qed

end
