(* ===== verification/Pairwise_State.thy ===== *)
theory Pairwise_State
  imports Pairwise_Codec
begin

text \<open>
  The durable state of the pairwise runtime (\<^verbatim>\<open>state.rs\<close>, \<^verbatim>\<open>action.rs\<close> and \<^verbatim>\<open>error.rs\<close> of the crate
  \<^verbatim>\<open>nostr-double-ratchet-pairwise\<close>): limits, peers with their sessions, the windows of seen events, the
  queue of pending actions, and the validation that guards every commit.

  Sizes are natural numbers; the one sum the code checks for overflow is checked at 64 bits. The text of
  an error of another crate is not kept.
\<close>

declare split_paired_All [simp del] split_paired_Ex [simp del]

section \<open>Checks in order\<close>

text \<open>A sequence of early returns, and a loop that stops at the first error.\<close>

fun first_error :: "(bool \<times> 'e) list \<Rightarrow> 'e + unit" where
  "first_error [] = Inr ()"
| "first_error ((failed, e) # checks) = (if failed then Inl e else first_error checks)"

fun fold_res :: "('a \<Rightarrow> 's \<Rightarrow> 'e + 's) \<Rightarrow> 'a list \<Rightarrow> 's \<Rightarrow> 'e + 's" where
  "fold_res f [] s = Inr s"
| "fold_res f (x # xs) s = and_then (f x s) (fold_res f xs)"

lemma first_error_ok [simp]: "first_error checks = Inr u \<longleftrightarrow> list_all (\<lambda>c. \<not> fst c) checks"
  by (induction checks rule: first_error.induct) auto

section \<open>Errors (error.rs)\<close>

datatype PairwiseError =
    PwInvalidKey
  | PwInvalidEvent string
  | PwPeerMismatch string string
  | PwOwnerDeviceMismatch
  | PwSessionNotReady string
  | PwQueueFull string
  | PwInvalidLimits
  | PwInputTooLarge string nat
  | PwIdentityMismatch string string
  | PwUnsupportedFormat u32
  | PwUnsupportedSchema u32
  | PwCorruptState string
  | PwStorage string
  | PwCrypto
  | PwSerialization
  | PwRngExhausted \<comment> \<open>the model's random source ended\<close>

type_synonym 'a pres = "PairwiseError + 'a"

text \<open>The \<^verbatim>\<open>From\<close> implementations.\<close>

definition from_core :: "Error \<Rightarrow> PairwiseError" where
  "from_core e = (if e = Domain CannotSendYet \<or> e = Domain SessionNotReady then PwSessionNotReady ''peer''
     else if e = RngExhausted then PwRngExhausted else PwCrypto)"

definition from_wire :: "WireError \<Rightarrow> PairwiseError" where
  "from_wire e = PwInvalidEvent ''wire''"

definition from_codec :: "CodecError \<Rightarrow> PairwiseError" where
  "from_codec e = PwInvalidEvent ''codec''"

section \<open>Actions (action.rs)\<close>

datatype PairwiseActionKind =
    Publish string string "string option"
  | OutOfBand string string string
  | Subscribe string string
  | Unsubscribe string
  | Delivery string string string string "u64 option"

record PairwiseAction =
  action_id :: string
  action_kind :: PairwiseActionKind

record PairwiseAcceptResult =
  accepted_peer_pubkey_hex :: string
  created_new_session :: bool

record PairwiseSendResult =
  sent_inner_event_id :: string
  sent_outer_event_id :: string

record PairwiseSessionInfo =
  send_ready :: bool
  receive_ready :: bool
  info_tracked_sender_pubkeys :: "string list"

section \<open>Limits and state\<close>

definition STATE_SCHEMA_VERSION :: u32 where "STATE_SCHEMA_VERSION = 1"
definition STORAGE_FORMAT_VERSION :: u32 where "STORAGE_FORMAT_VERSION = 2"
definition LEGACY_STORAGE_FORMAT_VERSION :: u32 where "LEGACY_STORAGE_FORMAT_VERSION = 1"
definition MAX_PERSISTED_STATE_BYTES :: nat where "MAX_PERSISTED_STATE_BYTES = 32 * 1024 * 1024"

record RuntimeLimits =
  max_peers :: nat
  max_pending_outbound :: nat
  max_pending_deliveries :: nat
  max_seen_event_ids :: nat
  max_seen_inner_event_ids :: nat
  max_sessions_per_peer :: nat
  max_event_bytes :: nat
  max_inner_event_bytes :: nat
  max_text_bytes :: nat
  max_persisted_state_bytes :: nat
  max_total_tracked_sender_keys :: nat
  max_total_skipped_message_keys :: nat
  max_subscription_authors :: nat

definition limits_default :: RuntimeLimits where
  "limits_default = \<lparr>max_peers = 2048, max_pending_outbound = 128, max_pending_deliveries = 128,
     max_seen_event_ids = 8192, max_seen_inner_event_ids = 8192, max_sessions_per_peer = 8,
     max_event_bytes = 65536, max_inner_event_bytes = 65536, max_text_bytes = 32768,
     max_persisted_state_bytes = MAX_PERSISTED_STATE_BYTES, max_total_tracked_sender_keys = 8192,
     max_total_skipped_message_keys = 32768, max_subscription_authors = 4096\<rparr>"

definition limits_validate :: "RuntimeLimits \<Rightarrow> unit pres" where
  "limits_validate l =
     (if max_sessions_per_peer l = 0 \<or> max_seen_event_ids l = 0 \<or> max_seen_inner_event_ids l = 0
        \<or> max_pending_outbound l > MAX_SKIP \<or> max_persisted_state_bytes l = 0
        \<or> max_persisted_state_bytes l > MAX_PERSISTED_STATE_BYTES \<or> max_total_tracked_sender_keys l = 0
        \<or> max_total_skipped_message_keys l = 0 \<or> max_subscription_authors l = 0
        \<or> max_subscription_authors l > max_total_tracked_sender_keys l
      then Inl PwInvalidLimits else Inr ())"

record SessionRecord =
  handshake_id :: string
  handshake_created_at :: u64
  record_state :: SessionState
  invite_response_event_json :: "string option"
  bootstrap_event_json :: "string option"
  accepted_response_event_id :: "string option"

record PeerState =
  peer_pubkey_hex :: string
  peer_sessions :: "SessionRecord list"

record PairwiseState =
  schema_version :: u32
  generation :: u64
  local_pubkey_hex :: string
  local_invite :: Invite
  peers :: "(string, PeerState) btmap"
  seen_event_ids :: "string list"
  seen_inner_event_ids :: "string list"
  response_event_peers :: "(string, string) btmap"
  pending_actions :: "PairwiseAction list"
  last_message_millis :: u64
  message_subscription_id :: string

record LegacyStorageEnvelope =
  legacy_format_version :: u32
  legacy_generation :: u64
  legacy_identity_pubkey_hex :: string
  legacy_ciphertext :: string

text \<open>
  What the runtime takes from \<^verbatim>\<open>serde_json\<close>, \<^verbatim>\<open>nostr\<close> and \<^verbatim>\<open>chacha20poly1305\<close>. \<open>message_filter_json\<close> is the
  JSON of the filter for messages by a list of authors.
\<close>

record pairwise_crypto = codec_crypto +
  event_to_json :: "Event \<Rightarrow> string option"
  event_from_json :: "string \<Rightarrow> Event option"
  unsigned_to_json :: "UnsignedEvent \<Rightarrow> string option"
  invite_json_len :: "Invite \<Rightarrow> nat option"
  message_filter_json :: "PublicKey list \<Rightarrow> string option"
  state_to_vec :: "PairwiseState \<Rightarrow> bytes option"
  state_from_slice :: "bytes \<Rightarrow> PairwiseState option"
  legacy_from_slice :: "bytes \<Rightarrow> LegacyStorageEnvelope option"
  aead_encrypt :: "bytes \<Rightarrow> bytes \<Rightarrow> bytes \<Rightarrow> bytes \<Rightarrow> bytes option" \<comment> \<open>key, nonce, associated data, plaintext\<close>
  aead_decrypt :: "bytes \<Rightarrow> bytes \<Rightarrow> bytes \<Rightarrow> bytes \<Rightarrow> bytes option"

section \<open>Sessions of a peer\<close>

definition rank :: "SessionRecord \<Rightarrow> u64 \<times> string" where
  "rank r = (handshake_created_at r, handshake_id r)"

definition session_sender_keys :: "SessionState \<Rightarrow> DevicePubkey list" where
  "session_sender_keys st =
     (if metadata_privacy_version st \<noteq> METADATA_PRIVACY_VERSION then []
      else bt_keys (bs_of_list (
        (case their_current_nostr_public_key st of None \<Rightarrow> [] | Some k \<Rightarrow> [k])
        @ (case their_next_nostr_public_key st of None \<Rightarrow> [] | Some k \<Rightarrow> [k])
        @ bt_keys (skipped_keys st))))"

definition winning_rank :: "PeerState \<Rightarrow> (u64 \<times> string) option" where
  "winning_rank p = (if peer_sessions p = [] then None else Some (rank (last (peer_sessions p))))"

text \<open>\<^verbatim>\<open>install_session\<close> returns whether a session was created and the sessions it retires.\<close>

definition install_session ::
  "PeerState \<Rightarrow> SessionRecord \<Rightarrow> nat \<Rightarrow> (bool \<times> SessionRecord list) pres \<times> PeerState" where
  "install_session p r max_sessions =
     (if (case winning_rank p of None \<Rightarrow> False | Some w \<Rightarrow> w > rank r)
      then (Inl (PwInvalidEvent ''handshake is older than the active pairwise session''), p)
      else
        let existing = List.find (\<lambda>s. handshake_id s = handshake_id r) (peer_sessions p) in
        if (case existing of None \<Rightarrow> False | Some s \<Rightarrow> handshake_created_at s \<noteq> handshake_created_at r)
        then (Inl (PwCorruptState ''matching handshake ids have different timestamps''), p)
        else
          let retired = peer_sessions p; p' = p\<lparr>peer_sessions := sort_key rank [r]\<rparr> in
          if length (peer_sessions p') > max_sessions then (Inl (PwQueueFull ''sessions''), p')
          else (Inr (existing = None, retired), p'))"

definition preferred_send_session_index :: "PeerState \<Rightarrow> nat option" where
  "preferred_send_session_index p =
     List.find (\<lambda>i. can_send (session_from_state (record_state (peer_sessions p ! i))))
       (rev [0 ..< length (peer_sessions p)])"

definition tracked_sender_pubkeys :: "'x crypto_scheme \<Rightarrow> PeerState \<Rightarrow> PublicKey list" where
  "tracked_sender_pubkeys cr p =
     bt_keys (bs_of_list (concat (map (\<lambda>r. List.map_filter (\<lambda>d. case device_to_nostr cr d of Inr pk \<Rightarrow> Some pk | Inl _ \<Rightarrow> None)
       (session_sender_keys (record_state r))) (peer_sessions p))))"

definition pairwise_owner_claim_is_valid :: "Invite \<Rightarrow> bool" where
  "pairwise_owner_claim_is_valid iv \<longleftrightarrow>
     (case inviter_owner_pubkey iv of None \<Rightarrow> True | Some ow \<Rightarrow> owner_bytes ow = device_bytes (inviter_device_pubkey iv))
     \<and> (case invite_owner_public_key iv of None \<Rightarrow> True | Some pk \<Rightarrow> pk = device_bytes (inviter_device_pubkey iv))"

section \<open>The state\<close>

definition uuid_simple :: "string \<Rightarrow> string" where
  "uuid_simple u = filter (\<lambda>c. c \<noteq> CHR ''-'') u"

definition state_new :: "'x event_crypto_scheme \<Rightarrow> nat \<Rightarrow> string \<Rightarrow> Invite \<Rightarrow> PairwiseState" where
  "state_new cr draw hex iv = \<lparr>schema_version = STATE_SCHEMA_VERSION, generation = 0, local_pubkey_hex = hex,
     local_invite = iv, peers = bt_empty, seen_event_ids = [], seen_inner_event_ids = [],
     response_event_peers = bt_empty, pending_actions = [], last_message_millis = 0,
     message_subscription_id = ''ndr-pairwise-'' @ uuid_simple (uuid_v4 cr draw)\<rparr>"

definition find_session :: "PairwiseState \<Rightarrow> string \<Rightarrow> (string \<times> SessionRecord) option" where
  "find_session st session_id =
     List.find (\<lambda>(_, s). handshake_id s = session_id)
       (concat (map (\<lambda>(hex, p). map (\<lambda>s. (hex, s)) (peer_sessions p)) (bt_entries (peers st))))"

definition action_prefix :: "string \<Rightarrow> string" where
  "action_prefix hex = ''pairwise-action:'' @ hex @ '':''"

definition next_action :: "'x event_crypto_scheme \<Rightarrow> nat \<Rightarrow> PairwiseState \<Rightarrow> PairwiseActionKind \<Rightarrow> PairwiseAction" where
  "next_action cr draw st kind = \<lparr>action_id = action_prefix (local_pubkey_hex st) @ uuid_v4 cr draw, action_kind = kind\<rparr>"

definition private_event_json :: "'x pairwise_crypto_scheme \<Rightarrow> string \<Rightarrow> bool" where
  "private_event_json cr j = (case event_from_json cr j of None \<Rightarrow> False | Some ev \<Rightarrow> has_metadata_privacy_version ev)"

definition is_pending_outbound :: "'x pairwise_crypto_scheme \<Rightarrow> PairwiseAction \<Rightarrow> bool" where
  "is_pending_outbound cr a = (case action_kind a of
     Publish _ j _ \<Rightarrow> private_event_json cr j | OutOfBand _ _ j \<Rightarrow> private_event_json cr j | _ \<Rightarrow> False)"

definition pending_outbound_count :: "'x pairwise_crypto_scheme \<Rightarrow> PairwiseState \<Rightarrow> nat" where
  "pending_outbound_count cr st = length (filter (is_pending_outbound cr) (pending_actions st))"

definition is_delivery :: "PairwiseAction \<Rightarrow> bool" where
  "is_delivery a = (case action_kind a of Delivery _ _ _ _ _ \<Rightarrow> True | _ \<Rightarrow> False)"

definition pending_delivery_count :: "PairwiseState \<Rightarrow> nat" where
  "pending_delivery_count st = length (filter is_delivery (pending_actions st))"

definition has_seen_event :: "PairwiseState \<Rightarrow> string \<Rightarrow> bool" where
  "has_seen_event st event_id \<longleftrightarrow> event_id \<in> set (seen_event_ids st)"

definition has_seen_inner_event :: "PairwiseState \<Rightarrow> string \<Rightarrow> bool" where
  "has_seen_inner_event st event_id \<longleftrightarrow> event_id \<in> set (seen_inner_event_ids st)"

definition active_responses :: "PairwiseState \<Rightarrow> string list" where
  "active_responses st = List.map_filter accepted_response_event_id (concat (map peer_sessions (bt_values (peers st))))"

text \<open>The \<^verbatim>\<open>retain\<close> closure of \<^verbatim>\<open>push_seen_event\<close>: the oldest ids that no session needs go first.\<close>

fun retain_seen :: "string list \<Rightarrow> nat \<Rightarrow> string list \<Rightarrow> string list \<times> string list" where
  "retain_seen active excess [] = ([], [])"
| "retain_seen active excess (seen # rest) =
     (if excess = 0 \<or> seen \<in> set active
      then (case retain_seen active excess rest of (kept, dropped) \<Rightarrow> (seen # kept, dropped))
      else (case retain_seen active (excess - 1) rest of (kept, dropped) \<Rightarrow> (kept, seen # dropped)))"

definition push_seen_event :: "PairwiseState \<Rightarrow> string \<Rightarrow> nat \<Rightarrow> PairwiseState" where
  "push_seen_event st event_id limit =
     (if event_id \<in> set (seen_event_ids st) then st
      else
        let seen = seen_event_ids st @ [event_id] in
        if length seen > limit
        then case retain_seen (active_responses st) (length seen - limit) seen of (kept, dropped) \<Rightarrow>
          st\<lparr>seen_event_ids := kept, response_event_peers := fold bt_remove dropped (response_event_peers st)\<rparr>
        else st\<lparr>seen_event_ids := seen\<rparr>)"

definition push_seen_inner_event :: "PairwiseState \<Rightarrow> string \<Rightarrow> nat \<Rightarrow> PairwiseState" where
  "push_seen_inner_event st event_id limit =
     (if event_id \<in> set (seen_inner_event_ids st) then st
      else
        let seen = seen_inner_event_ids st @ [event_id] in
        st\<lparr>seen_inner_event_ids := drop (length seen - limit) seen\<rparr>)"

section \<open>Validation\<close>

definition str_contains :: "string \<Rightarrow> string \<Rightarrow> bool" where
  "str_contains s p \<longleftrightarrow> list_ex (\<lambda>i. take (length p) (drop i s) = p) [0 ..< Suc (length s)]"

definition validate_header :: "'x pairwise_crypto_scheme \<Rightarrow> PublicKey \<Rightarrow> RuntimeLimits \<Rightarrow> PairwiseState \<Rightarrow> unit pres" where
  "validate_header cr pk l st = first_error
     [(schema_version st \<noteq> STATE_SCHEMA_VERSION, PwUnsupportedSchema (schema_version st)),
      (local_pubkey_hex st \<noteq> hex_encode cr pk, PwIdentityMismatch (hex_encode cr pk) (local_pubkey_hex st)),
      (inviter (local_invite st) \<noteq> pk \<or> device_bytes (inviter_device_pubkey (local_invite st)) \<noteq> pk,
         PwCorruptState ''local invite identity does not match state identity''),
      (\<not> pairwise_owner_claim_is_valid (local_invite st),
         PwCorruptState ''local invite contains a non-pairwise owner claim''),
      (pending_outbound_count cr st > max_pending_outbound l,
         PwCorruptState ''pending outbound queue exceeds configured limit''),
      (pending_delivery_count st > max_pending_deliveries l,
         PwCorruptState ''pending delivery queue exceeds configured limit''),
      (length (seen_event_ids st) > max_seen_event_ids l, PwCorruptState ''seen-event set exceeds configured limit''),
      (length (seen_inner_event_ids st) > max_seen_inner_event_ids l,
         PwCorruptState ''seen-inner-event set exceeds configured limit''),
      (message_subscription_id st = [] \<or> length (message_subscription_id st) > 64
         \<or> str_contains (message_subscription_id st) (local_pubkey_hex st),
         PwCorruptState ''message subscription id is invalid''),
      (bt_len (response_event_peers st) > max_seen_event_ids l,
         PwCorruptState ''response-peer bindings exceed configured limit''),
      (list_ex (\<lambda>(event_id, hex). event_id \<notin> set (seen_event_ids st) \<or> pk_parse cr hex = None)
         (bt_entries (response_event_peers st)), PwCorruptState ''response-peer binding is invalid''),
      (bt_len (peers st) > max_peers l \<or> length (used_by (local_invite st)) > max_peers l
         \<or> length (used_response_contents (local_invite st)) > max_peers l,
         PwCorruptState ''peer or invite replay metadata exceeds configured limit'')]"

definition validate_action_kind ::
  "'x pairwise_crypto_scheme \<Rightarrow> RuntimeLimits \<Rightarrow> PairwiseState \<Rightarrow> PairwiseActionKind \<Rightarrow> unit pres" where
  "validate_action_kind cr l st kind = (case kind of
     Publish session_id j inner \<Rightarrow>
       (case find_session st session_id of
          None \<Rightarrow> Inl (PwCorruptState ''publish action references a retired session'')
        | Some (_, s) \<Rightarrow> first_error
            [(length j > max_event_bytes l \<or> (inner = None \<and> bootstrap_event_json s \<noteq> Some j),
              PwCorruptState ''pending publish does not match its session'')])
   | OutOfBand hex session_id j \<Rightarrow>
       (if length j > max_event_bytes l then Inl (PwCorruptState ''pending event exceeds configured size limit'')
        else case bt_get (peers st) hex of
          None \<Rightarrow> Inl (PwCorruptState ''out-of-band action references an unknown peer'')
        | Some p \<Rightarrow> first_error
            [(pk_parse cr hex = None \<or> \<not> list_ex (\<lambda>s. handshake_id s = session_id
                \<and> invite_response_event_json s = Some j) (peer_sessions p),
              PwCorruptState ''out-of-band action does not match its authenticated peer'')])
   | Delivery _ j _ _ _ \<Rightarrow> first_error
       [(length j > max_inner_event_bytes l, PwCorruptState ''pending inner event exceeds configured size limit'')]
   | Subscribe subid j \<Rightarrow> first_error
       [(subid \<noteq> message_subscription_id st \<or> length j > max_event_bytes l,
         PwCorruptState ''pending subscription action is invalid'')]
   | Unsubscribe subid \<Rightarrow> first_error
       [(subid \<noteq> message_subscription_id st, PwCorruptState ''pending unsubscription action is invalid'')])"

definition validate_action ::
  "'x pairwise_crypto_scheme \<Rightarrow> RuntimeLimits \<Rightarrow> PairwiseState \<Rightarrow> PairwiseAction \<Rightarrow> string list \<Rightarrow> string list pres" where
  "validate_action cr l st a ids =
     (if take (length (action_prefix (local_pubkey_hex st))) (action_id a) \<noteq> action_prefix (local_pubkey_hex st)
         \<or> action_id a \<in> set ids
      then Inl (PwCorruptState ''pending action id is invalid or duplicated'')
      else and_then (validate_action_kind cr l st (action_kind a)) (\<lambda>_. Inr (action_id a # ids)))"

text \<open>The accumulators of the loop over the peers: handshake ids, tracked sender keys, skipped keys.\<close>

type_synonym peer_acc = "string list \<times> DevicePubkey list \<times> nat"

definition checked_usize_add :: "nat \<Rightarrow> nat \<Rightarrow> nat option" where
  "checked_usize_add a b = (if int a + int b < 2 ^ 64 then Some (a + b) else None)"

definition bootstrap_events_ok :: "RuntimeLimits \<Rightarrow> PairwiseState \<Rightarrow> string \<Rightarrow> SessionRecord \<Rightarrow> bool" where
  "bootstrap_events_ok l st hex s =
     (case (invite_response_event_json s, bootstrap_event_json s, accepted_response_event_id s) of
        (Some response, Some bootstrap, None) \<Rightarrow> length response \<le> max_event_bytes l \<and> length bootstrap \<le> max_event_bytes l
      | (None, None, Some event_id) \<Rightarrow> bt_get (response_event_peers st) event_id = Some hex
      | _ \<Rightarrow> False)"

definition validate_session ::
  "'x pairwise_crypto_scheme \<Rightarrow> RuntimeLimits \<Rightarrow> PairwiseState \<Rightarrow> string \<Rightarrow> SessionRecord \<Rightarrow> peer_acc \<Rightarrow> peer_acc pres" where
  "validate_session cr l st hex s = (\<lambda>(ids, keys, skipped).
     and_then (first_error
       [(\<not> bootstrap_events_ok l st hex s, PwCorruptState ''session has incomplete or oversized bootstrap events''),
        (length (handshake_id s) \<noteq> 64 \<or> \<not> is_ok (hex_decode cr (handshake_id s)) \<or> handshake_id s \<in> set ids,
         PwCorruptState ''session handshake identity is invalid'')]) (\<lambda>_.
     and_then (fold_res (\<lambda>e n. ok_or (checked_usize_add n (bt_len (message_keys e)))
         (PwCorruptState ''skipped-message key count overflow'')) (bt_values (skipped_keys (record_state s))) skipped) (\<lambda>skipped'.
       Inr (handshake_id s # ids, session_sender_keys (record_state s) @ keys, skipped'))))"

definition validate_peer ::
  "'x pairwise_crypto_scheme \<Rightarrow> RuntimeLimits \<Rightarrow> PairwiseState \<Rightarrow> string \<times> PeerState \<Rightarrow> peer_acc \<Rightarrow> peer_acc pres" where
  "validate_peer cr l st = (\<lambda>(hex, p) acc.
     and_then (first_error
       [(hex \<noteq> peer_pubkey_hex p, PwCorruptState ''peer map key does not match peer identity''),
        (pk_parse cr hex = None, PwCorruptState ''invalid public key''),
        (peer_sessions p = [] \<or> length (peer_sessions p) > max_sessions_per_peer l,
         PwCorruptState ''peer has an invalid number of sessions''),
        (\<not> sorted_wrt (<) (map rank (peer_sessions p)),
         PwCorruptState ''peer sessions are not in deterministic handshake order'')]) (\<lambda>_.
     fold_res (validate_session cr l st hex) (peer_sessions p) acc))"

definition validate :: "'x pairwise_crypto_scheme \<Rightarrow> PublicKey \<Rightarrow> RuntimeLimits \<Rightarrow> PairwiseState \<Rightarrow> unit pres" where
  "validate cr pk l st =
     and_then (validate_header cr pk l st) (\<lambda>_.
     and_then (fold_res (validate_action cr l st) (pending_actions st) []) (\<lambda>_.
     and_then (fold_res (validate_peer cr l st) (bt_entries (peers st)) ([], [], 0)) (\<lambda>(ids, keys, skipped).
       let tracked = bt_len (bs_of_list keys) in
       if tracked > max_total_tracked_sender_keys l \<or> tracked > max_subscription_authors l
          \<or> skipped > max_total_skipped_message_keys l
       then Inl (PwCorruptState ''global ratchet-key limits exceeded'') else Inr ())))"

end
