(* ===== verification/Pairwise_Store.thy ===== *)
theory Pairwise_Store
  imports Pairwise_State
begin

text \<open>
  Persistence of the pairwise runtime: the sealed form of its state (\<^verbatim>\<open>persistence.rs\<close>) and the store it
  is committed to (the trait \<^verbatim>\<open>PairwiseStore\<close> and \<^verbatim>\<open>MemoryStore\<close> of \<^verbatim>\<open>storage.rs\<close>). The methods of a store are
  the fields of \<open>store_api\<close>; the locale \<open>pairwise_store\<close> is the contract the trait documents, interpreted on the
  memory store. A mutex is poisoned by a panic under the lock only, of which these methods have none.
\<close>

declare split_paired_All [simp del] split_paired_Ex [simp del]

section \<open>The sealed state\<close>

definition STORAGE_MAGIC :: bytes where "STORAGE_MAGIC = map of_char ''NDRPWST'' @ [0]"
definition STORAGE_HEADER_BYTES :: nat where "STORAGE_HEADER_BYTES = 8 + 4 + 8 + 32 + 24"
definition AEAD_TAG_BYTES :: nat where "AEAD_TAG_BYTES = 16"
definition STORAGE_KEY_SALT :: bytes where "STORAGE_KEY_SALT = map of_char ''nostr-double-ratchet/pairwise-storage/salt/v2''"
definition STORAGE_KEY_INFO :: bytes where "STORAGE_KEY_INFO = map of_char ''nostr-double-ratchet/pairwise-storage/key/v2''"

text \<open>\<^verbatim>\<open>to_be_bytes\<close> at a number of bytes, and \<^verbatim>\<open>from_be_bytes\<close>.\<close>

fun be_bytes :: "nat \<Rightarrow> 'a::len word \<Rightarrow> bytes" where
  "be_bytes 0 w = []"
| "be_bytes (Suc n) w = be_bytes n (w div 256) @ [ucast w]"

definition of_be_bytes :: "bytes \<Rightarrow> 'a::len word" where
  "of_be_bytes bs = foldl (\<lambda>acc b. 256 * acc + ucast b) 0 bs"

definition ensure_state_size :: "nat \<Rightarrow> nat \<Rightarrow> unit pres" where
  "ensure_state_size n max_bytes =
     (if n > max_bytes then Inl (PwCorruptState ''persisted pairwise state exceeds configured size limit'') else Inr ())"

definition storage_header :: "u64 \<Rightarrow> bytes \<Rightarrow> bytes \<Rightarrow> bytes" where
  "storage_header gen ident nonce =
     STORAGE_MAGIC @ be_bytes 4 STORAGE_FORMAT_VERSION @ be_bytes 8 gen @ ident @ nonce"

definition storage_key :: "'x crypto_scheme \<Rightarrow> bytes \<Rightarrow> bytes pres" where
  "storage_key cr sk =
     and_then (map_err (\<lambda>_. PwCrypto) (ck_derive cr sk (pk_of_sk cr sk))) (\<lambda>material.
       Inr (hkdf_sha256 cr STORAGE_KEY_SALT material STORAGE_KEY_INFO))"

definition seal_state :: "'x pairwise_crypto_scheme \<Rightarrow> PairwiseState \<Rightarrow> bytes \<Rightarrow> nat \<Rightarrow> bytes \<Rightarrow> bytes pres" where
  "seal_state cr st sk max_bytes nonce =
     and_then (ok_or (state_to_vec cr st) PwSerialization) (\<lambda>plaintext.
     and_then (ensure_state_size (length plaintext) max_bytes) (\<lambda>_.
     and_then (ok_or (Option.bind (checked_usize_add STORAGE_HEADER_BYTES (length plaintext))
         (\<lambda>n. checked_usize_add n AEAD_TAG_BYTES)) (PwCorruptState ''persisted state size overflow'')) (\<lambda>payload_len.
     and_then (ensure_state_size payload_len max_bytes) (\<lambda>_.
       let header = storage_header (generation st) (pk_of_sk cr sk) nonce in
     and_then (storage_key cr sk) (\<lambda>key.
     and_then (ok_or (aead_encrypt cr key nonce header plaintext) PwCrypto) (\<lambda>ciphertext.
       Inr (header @ ciphertext)))))))"

definition decode_and_validate_state ::
  "'x pairwise_crypto_scheme \<Rightarrow> bytes \<Rightarrow> u64 \<Rightarrow> bytes \<Rightarrow> RuntimeLimits \<Rightarrow> PairwiseState pres" where
  "decode_and_validate_state cr plaintext gen sk l =
     and_then (ok_or (state_from_slice cr plaintext) (PwCorruptState ''json'')) (\<lambda>st.
       if generation st \<noteq> gen then Inl (PwCorruptState ''encrypted state generation does not match envelope'')
       else and_then (validate cr (pk_of_sk cr sk) l st) (\<lambda>_. Inr st))"

definition open_current_state :: "'x pairwise_crypto_scheme \<Rightarrow> bytes \<Rightarrow> bytes \<Rightarrow> RuntimeLimits \<Rightarrow> PairwiseState pres" where
  "open_current_state cr payload sk l =
     (if length payload < STORAGE_HEADER_BYTES + AEAD_TAG_BYTES
      then Inl (PwCorruptState ''persisted pairwise state is truncated'')
      else
        let version = of_be_bytes (take 4 (drop 8 payload));
            gen = of_be_bytes (take 8 (drop 12 payload));
            stored_identity = take 32 (drop 20 payload);
            header = take STORAGE_HEADER_BYTES payload
        in if version \<noteq> STORAGE_FORMAT_VERSION then Inl (PwUnsupportedFormat version)
           else if stored_identity \<noteq> pk_of_sk cr sk
           then Inl (PwIdentityMismatch (hex_encode cr (pk_of_sk cr sk)) (hex_encode cr stored_identity))
           else and_then (storage_key cr sk) (\<lambda>key.
             and_then (ok_or (aead_decrypt cr key (take 24 (drop 52 header)) header (drop STORAGE_HEADER_BYTES payload))
                 (PwCorruptState ''persisted pairwise state authentication failed'')) (\<lambda>plaintext.
             and_then (ensure_state_size (length plaintext) (max_persisted_state_bytes l)) (\<lambda>_.
               decode_and_validate_state cr plaintext gen sk l))))"

definition open_legacy_state :: "'x pairwise_crypto_scheme \<Rightarrow> bytes \<Rightarrow> bytes \<Rightarrow> RuntimeLimits \<Rightarrow> PairwiseState pres" where
  "open_legacy_state cr payload sk l =
     and_then (ok_or (legacy_from_slice cr payload) (PwCorruptState ''json'')) (\<lambda>envelope.
       let expected = hex_encode cr (pk_of_sk cr sk) in
       if legacy_format_version envelope \<noteq> LEGACY_STORAGE_FORMAT_VERSION
       then Inl (PwUnsupportedFormat (legacy_format_version envelope))
       else if legacy_identity_pubkey_hex envelope \<noteq> expected
       then Inl (PwIdentityMismatch expected (legacy_identity_pubkey_hex envelope))
       else and_then (map_err (\<lambda>_. PwCorruptState ''nip44'')
           (nip44_decrypt cr sk (pk_of_sk cr sk) (legacy_ciphertext envelope))) (\<lambda>plaintext.
         and_then (ensure_state_size (length plaintext) (max_persisted_state_bytes l)) (\<lambda>_.
           decode_and_validate_state cr (string_bytes plaintext) (legacy_generation envelope) sk l)))"

definition is_legacy_state_payload :: "bytes \<Rightarrow> bool" where
  "is_legacy_state_payload payload \<longleftrightarrow> take (length STORAGE_MAGIC) payload \<noteq> STORAGE_MAGIC"

definition open_state :: "'x pairwise_crypto_scheme \<Rightarrow> bytes \<Rightarrow> bytes \<Rightarrow> RuntimeLimits \<Rightarrow> PairwiseState pres" where
  "open_state cr payload sk l =
     and_then (ensure_state_size (length payload) (max_persisted_state_bytes l)) (\<lambda>_.
       if take (length STORAGE_MAGIC) payload = STORAGE_MAGIC then open_current_state cr payload sk l
       else open_legacy_state cr payload sk l)"

section \<open>Stores\<close>

record 's store_api =
  store_load :: "'s \<Rightarrow> bytes option pres \<times> 's"
  store_commit :: "u64 \<Rightarrow> bytes \<Rightarrow> 's \<Rightarrow> unit pres \<times> 's"
  store_cleanup :: "u64 \<Rightarrow> 's \<Rightarrow> 's"

definition previous_generation :: "u64 \<Rightarrow> u64 pres" where
  "previous_generation gen =
     (if gen = 0 then Inl (PwStorage ''state generation zero cannot be committed'') else Inr (gen - 1))"

definition ensure_current_generation :: "u64 \<Rightarrow> u64 \<Rightarrow> u64 \<Rightarrow> unit pres" where
  "ensure_current_generation gen expected current =
     (if current \<noteq> expected then Inl (PwStorage ''stale state commit'') else Inr ())"

record MemoryStore =
  mem_generation :: u64
  mem_payload :: "bytes option"

definition memory_store_default :: MemoryStore where
  "memory_store_default = \<lparr>mem_generation = 0, mem_payload = None\<rparr>"

definition memory_load :: "MemoryStore \<Rightarrow> bytes option pres \<times> MemoryStore" where
  "memory_load s = (Inr (mem_payload s), s)"

definition memory_commit :: "u64 \<Rightarrow> bytes \<Rightarrow> MemoryStore \<Rightarrow> unit pres \<times> MemoryStore" where
  "memory_commit gen payload s =
     (case and_then (previous_generation gen) (\<lambda>expected. ensure_current_generation gen expected (mem_generation s)) of
        Inl e \<Rightarrow> (Inl e, s)
      | Inr _ \<Rightarrow> (Inr (), s\<lparr>mem_payload := Some payload, mem_generation := gen\<rparr>))"

definition memory_store :: "MemoryStore store_api" where
  "memory_store = \<lparr>store_load = memory_load, store_commit = memory_commit, store_cleanup = \<lambda>_ s. s\<rparr>"

section \<open>The contract of a store\<close>

text \<open>
  \<open>durable\<close> is the generation and the payload that survive. A cleanup is called with the durable generation. A commit succeeds only one generation above
  the durable one (zero when there is none), an unsuccessful commit changes nothing.
\<close>

locale pairwise_store =
  fixes api :: "'s store_api"
    and durable :: "'s \<Rightarrow> (u64 \<times> bytes) option"
    and store_inv :: "'s \<Rightarrow> bool"
  assumes load_durable: "store_inv s \<Longrightarrow> store_load api s = (Inr v, s') \<Longrightarrow> v = map_option snd (durable s)"
    and load_keeps: "store_inv s \<Longrightarrow> store_load api s = (r, s') \<Longrightarrow> durable s' = durable s \<and> store_inv s'"
    and commit_done: "store_inv s \<Longrightarrow> store_commit api gen payload s = (Inr u, s') \<Longrightarrow>
      gen \<noteq> 0 \<and> gen - 1 = (case durable s of None \<Rightarrow> 0 | Some d \<Rightarrow> fst d) \<and> durable s' = Some (gen, payload) \<and> store_inv s'"
    and commit_failed: "store_inv s \<Longrightarrow> store_commit api gen payload s = (Inl e, s') \<Longrightarrow> durable s' = durable s \<and> store_inv s'"
    and cleanup_keeps: "store_inv s \<Longrightarrow> durable s = Some (gen, payload) \<Longrightarrow>
      durable (store_cleanup api gen s) = durable s \<and> store_inv (store_cleanup api gen s)"

definition memory_durable :: "MemoryStore \<Rightarrow> (u64 \<times> bytes) option" where
  "memory_durable s = map_option (\<lambda>p. (mem_generation s, p)) (mem_payload s)"

definition memory_inv :: "MemoryStore \<Rightarrow> bool" where
  "memory_inv s \<longleftrightarrow> (mem_payload s = None \<longrightarrow> mem_generation s = 0)"

interpretation memory: pairwise_store memory_store memory_durable memory_inv
  by unfold_locales (auto simp: memory_store_def memory_load_def memory_commit_def memory_durable_def memory_inv_def
    previous_generation_def ensure_current_generation_def option.map_comp comp_def option.map_ident split: sum.splits if_splits option.splits)

section \<open>Sealing and opening\<close>

lemma length_be_bytes [simp]: "length (be_bytes n w) = n"
  by (induction n arbitrary: w) auto

lemma of_be_bytes_append: "of_be_bytes (bs @ [b]) = 256 * of_be_bytes bs + ucast b"
  by (simp add: of_be_bytes_def)

lemma of_be_bytes_be_bytes_nat:
  fixes w :: "'a::len word"
  assumes "8 < LENGTH('a)" "unat w < 256 ^ n"
  shows "of_be_bytes (be_bytes n w) = w"
  using assms(2)
proof (induction n arbitrary: w)
  case 0
  then show ?case by (simp add: of_be_bytes_def unat_eq_zero)
next
  case (Suc n)
  have u256: "unat (256 :: 'a word) = 256"
  proof -
    have "(2::nat) ^ 9 \<le> 2 ^ LENGTH('a)" using assms(1) by (intro power_increasing) auto
    then have "(256::nat) < 2 ^ LENGTH('a)" by simp
    then show ?thesis by (simp add: unsigned_numeral take_bit_nat_eq_self)
  qed
  have "unat (w div 256) < 256 ^ n" using Suc.prems u256 by (simp add: unat_div less_mult_imp_div_less mult.commute)
  then have "of_be_bytes (be_bytes n (w div 256)) = w div 256" by (rule Suc.IH)
  moreover have "ucast (ucast w :: u8) = w mod 256"
    using assms(1) by (simp add: unsigned_ucast_eq take_bit_eq_mod)
  ultimately show ?case
    by (simp add: of_be_bytes_append) (metis add.commute mult.commute word_mod_div_equality)
qed

end
