(* ===== verification/File_Store.thy ===== *)
theory File_Store
  imports Pairwise_Store
begin

text \<open>
  The file store (\<^verbatim>\<open>FileStore\<close> of \<^verbatim>\<open>storage.rs\<close>). A directory maps names to entries; every system call that may fail
  takes its outcome from an oracle. A generation is written to a temporary file, renamed to its final name and made
  durable, and older generations are removed after it.

  Every call holds the exclusive lock of the directory, so calls do not interleave and a file does not change while it
  is read. The log of the model lists the directories passed through, in which a crash may leave the store when the file
  system applies changes of a directory in their order. Permission bits
  and names that are not UTF-8, which the code skips, are left out.
\<close>

declare split_paired_All [simp del] split_paired_Ex [simp del]

section \<open>Names\<close>

definition STATE_PREFIX :: string where "STATE_PREFIX = ''ndr-pairwise-state-v1-''"
definition STATE_SUFFIX :: string where "STATE_SUFFIX = ''.json''"
definition TEMP_PREFIX :: string where "TEMP_PREFIX = ''.ndr-pairwise-state-v1-''"
definition TEMP_SUFFIX :: string where "TEMP_SUFFIX = ''.tmp''"
definition LOCK_FILE_NAME :: string where "LOCK_FILE_NAME = ''.ndr-pairwise-state-v1.lock''"
definition MAX_FILE_STORE_PAYLOAD_BYTES :: nat where "MAX_FILE_STORE_PAYLOAD_BYTES = 32 * 1024 * 1024"

definition starts_with :: "string \<Rightarrow> string \<Rightarrow> bool" where
  "starts_with s p \<longleftrightarrow> take (length p) s = p"

definition ends_with :: "string \<Rightarrow> string \<Rightarrow> bool" where
  "ends_with s p \<longleftrightarrow> length p \<le> length s \<and> drop (length s - length p) s = p"

text \<open>The format \<^verbatim>\<open>{generation:020}\<close>.\<close>

definition padded :: "u64 \<Rightarrow> string" where
  "padded g = replicate (20 - length (u64_to_string g)) (CHR ''0'') @ u64_to_string g"

definition state_path :: "u64 \<Rightarrow> string" where
  "state_path g = STATE_PREFIX @ padded g @ STATE_SUFFIX"

definition temporary_path :: "u64 \<Rightarrow> string \<Rightarrow> string" where
  "temporary_path g nonce = TEMP_PREFIX @ padded g @ ''.'' @ nonce @ TEMP_SUFFIX"

definition parse_generation_filename :: "string \<Rightarrow> u64 option pres" where
  "parse_generation_filename nm =
     (if \<not> starts_with nm STATE_PREFIX \<or> \<not> ends_with nm STATE_SUFFIX then Inr None
      else
        let raw = drop (length STATE_PREFIX) (take (length nm - length STATE_SUFFIX) nm) in
        if length raw \<noteq> 20 \<or> \<not> list_all is_digit raw then Inl (PwCorruptState ''invalid pairwise state filename'')
        else case parse_u64 raw of None \<Rightarrow> Inl (PwCorruptState ''invalid pairwise state filename'')
          | Some g \<Rightarrow> if padded g \<noteq> raw then Inl (PwCorruptState ''invalid pairwise state filename'') else Inr (Some g))"

text \<open>\<open>uuid_ok\<close>: \<^verbatim>\<open>Uuid::parse_str\<close> accepts a text that is in hyphenated form.\<close>

definition is_private_temporary_filename :: "(string \<Rightarrow> bool) \<Rightarrow> string \<Rightarrow> bool" where
  "is_private_temporary_filename uuid_ok nm =
     (if \<not> starts_with nm TEMP_PREFIX \<or> \<not> ends_with (drop (length TEMP_PREFIX) nm) TEMP_SUFFIX then False
      else
        let rest = drop (length TEMP_PREFIX) nm; body = take (length rest - length TEMP_SUFFIX) rest;
            gen = takeWhile (\<lambda>c. c \<noteq> CHR ''.'') body in
        if length gen = length body then False
        else if length gen \<noteq> 20 \<or> \<not> list_all is_digit gen \<or> parse_u64 gen = None then False
        else uuid_ok (drop (Suc (length gen)) body))"

section \<open>The directory and its calls\<close>

datatype Entry = File bytes | OtherEntry

type_synonym directory = "(string, Entry) btmap"

record FileStore =
  fs_files :: directory
  fs_log :: "directory list"
  fs_io :: "nat list" \<comment> \<open>outcomes of calls: \<open>0\<close> succeeds, \<open>Suc n\<close> fails after \<open>n\<close> bytes, all succeed at the end\<close>
  fs_removals :: "bool list" \<comment> \<open>whether a removal fails\<close>
  fs_draw :: nat \<comment> \<open>UUIDs drawn so far\<close>

definition set_files :: "directory \<Rightarrow> FileStore \<Rightarrow> FileStore" where
  "set_files d s = s\<lparr>fs_files := d, fs_log := fs_log s @ [d]\<rparr>"

definition io_result :: "FileStore \<Rightarrow> nat" where
  "io_result s = (case fs_io s of [] \<Rightarrow> 0 | n # _ \<Rightarrow> n)"

definition io_call :: "string \<Rightarrow> FileStore \<Rightarrow> unit pres \<times> FileStore" where
  "io_call what s = (if io_result s = 0 then Inr () else Inl (PwStorage what), s\<lparr>fs_io := tl (fs_io s)\<rparr>)"

text \<open>\<^verbatim>\<open>fs::remove_file\<close>; the error says whether the file was missing.\<close>

definition remove_file :: "string \<Rightarrow> FileStore \<Rightarrow> (bool + unit) \<times> FileStore" where
  "remove_file nm s =
     (let failed = (fs_removals s \<noteq> [] \<and> hd (fs_removals s)); s = s\<lparr>fs_removals := tl (fs_removals s)\<rparr> in
      case bt_get (fs_files s) nm of None \<Rightarrow> (Inl True, s)
      | Some OtherEntry \<Rightarrow> (Inl False, s)
      | Some (File _) \<Rightarrow> if failed then (Inl False, s) else (Inr (), set_files (bt_remove nm (fs_files s)) s))"

definition sync_directory :: "FileStore \<Rightarrow> unit pres \<times> FileStore" where
  "sync_directory s = then_do (io_call ''open state directory'' s) (\<lambda>_ s. io_call ''sync state directory'' s)"

definition ensure_file_payload_size :: "nat \<Rightarrow> unit pres" where
  "ensure_file_payload_size n =
     (if n > MAX_FILE_STORE_PAYLOAD_BYTES then Inl (PwInputTooLarge ''pairwise state'' MAX_FILE_STORE_PAYLOAD_BYTES) else Inr ())"

text \<open>The lock file is created when it is missing.\<close>

definition acquire_lock :: "FileStore \<Rightarrow> unit pres \<times> FileStore" where
  "acquire_lock s =
     then_do (io_call ''open state lock'' s) (\<lambda>_ s.
       let s = (if bt_contains_key (fs_files s) LOCK_FILE_NAME then s
                else set_files (bt_insert LOCK_FILE_NAME (File []) (fs_files s)) s) in
       then_do (io_call ''set private file permissions'' s) (\<lambda>_ s. io_call ''lock state file'' s))"

section \<open>Generations\<close>

text \<open>\<^verbatim>\<open>visit_generations_locked\<close> with the visitor of \<^verbatim>\<open>highest_generation_locked\<close>.\<close>

fun highest_loop :: "(string \<times> Entry) list \<Rightarrow> (u64 \<times> string) option \<Rightarrow> FileStore \<Rightarrow> (u64 \<times> string) option pres \<times> FileStore" where
  "highest_loop [] highest s = (Inr highest, s)"
| "highest_loop ((nm, entry) # entries) highest s =
     then_do (io_call ''read state entry'' s) (\<lambda>_ s.
     then_do (io_call ''read state entry type'' s) (\<lambda>_ s.
       if entry = OtherEntry then highest_loop entries highest s
       else case parse_generation_filename nm of
         Inl e \<Rightarrow> (Inl e, s)
       | Inr None \<Rightarrow> highest_loop entries highest s
       | Inr (Some g) \<Rightarrow> highest_loop entries
           (if (case highest of None \<Rightarrow> True | Some (current, _) \<Rightarrow> g > current) then Some (g, nm) else highest) s))"

definition highest_generation_locked :: "FileStore \<Rightarrow> (u64 \<times> string) option pres \<times> FileStore" where
  "highest_generation_locked s =
     then_do (io_call ''read state directory'' s) (\<lambda>_ s. highest_loop (bt_entries (fs_files s)) None s)"

text \<open>The first error of a loop that goes on, and whether it removed something.\<close>

type_synonym removal_acc = "bool \<times> PairwiseError option"

definition note_error :: "PairwiseError \<Rightarrow> removal_acc \<Rightarrow> removal_acc" where
  "note_error e = (\<lambda>(removed, err). (removed, if err = None then Some e else err))"

definition note_removal :: "string \<Rightarrow> bool + unit \<Rightarrow> removal_acc \<Rightarrow> removal_acc" where
  "note_removal what r acc = (case r of Inr _ \<Rightarrow> (True, snd acc) | Inl _ \<Rightarrow> note_error (PwStorage what) acc)"

definition finish_removal :: "removal_acc \<Rightarrow> FileStore \<Rightarrow> unit pres \<times> FileStore" where
  "finish_removal acc s =
     (case (if fst acc then (case sync_directory s of (Inl e, s) \<Rightarrow> (note_error e acc, s) | (Inr _, s) \<Rightarrow> (acc, s)) else (acc, s)) of
        (acc, s) \<Rightarrow> (case snd acc of Some e \<Rightarrow> (Inl e, s) | None \<Rightarrow> (Inr (), s)))"

fun recover_loop :: "(string \<Rightarrow> bool) \<Rightarrow> string list \<Rightarrow> removal_acc \<Rightarrow> FileStore \<Rightarrow> removal_acc \<times> FileStore" where
  "recover_loop uuid_ok [] acc s = (acc, s)"
| "recover_loop uuid_ok (nm # names) acc s =
     (case io_call ''read state entry for temp recovery'' s of
        (Inl e, s) \<Rightarrow> recover_loop uuid_ok names (note_error e acc) s
      | (Inr _, s) \<Rightarrow>
        if \<not> is_private_temporary_filename uuid_ok nm then recover_loop uuid_ok names acc s
        else case remove_file nm s of (r, s) \<Rightarrow>
          recover_loop uuid_ok names (note_removal ''remove stale temporary state'' r acc) s)"

definition recover_stale_temporaries_locked :: "(string \<Rightarrow> bool) \<Rightarrow> FileStore \<Rightarrow> unit pres \<times> FileStore" where
  "recover_stale_temporaries_locked uuid_ok s =
     then_do (io_call ''read state directory for temp recovery'' s) (\<lambda>_ s.
       case recover_loop uuid_ok (bt_keys (fs_files s)) (False, None) s of (acc, s) \<Rightarrow> finish_removal acc s)"

text \<open>The visitor removes older generations; an error of the visit ends the loop.\<close>

fun remove_older_loop :: "u64 \<Rightarrow> (string \<times> Entry) list \<Rightarrow> removal_acc \<Rightarrow> FileStore \<Rightarrow> removal_acc \<times> FileStore" where
  "remove_older_loop g [] acc s = (acc, s)"
| "remove_older_loop g ((nm, entry) # entries) acc s =
     (case then_do (io_call ''read state entry'' s) (\<lambda>_ s. io_call ''read state entry type'' s) of
        (Inl e, s) \<Rightarrow> (note_error e acc, s)
      | (Inr _, s) \<Rightarrow>
        if entry = OtherEntry then remove_older_loop g entries acc s
        else case parse_generation_filename nm of
          Inl e \<Rightarrow> (note_error e acc, s)
        | Inr None \<Rightarrow> remove_older_loop g entries acc s
        | Inr (Some stored) \<Rightarrow>
            if stored \<ge> g then remove_older_loop g entries acc s
            else case remove_file nm s of (r, s) \<Rightarrow>
              remove_older_loop g entries (note_removal ''remove older pairwise state'' r acc) s)"

definition remove_older_generations_locked :: "u64 \<Rightarrow> FileStore \<Rightarrow> unit pres \<times> FileStore" where
  "remove_older_generations_locked g s =
     (case io_call ''read state directory'' s of
        (Inl e, s) \<Rightarrow> (Inl e, s)
      | (Inr _, s) \<Rightarrow> (case remove_older_loop g (bt_entries (fs_files s)) (False, None) s of (acc, s) \<Rightarrow> finish_removal acc s))"

section \<open>Operations\<close>

definition file_store_new :: "(string \<Rightarrow> bool) \<Rightarrow> FileStore \<Rightarrow> unit pres \<times> FileStore" where
  "file_store_new uuid_ok s =
     then_do (io_call ''create state directory'' s) (\<lambda>_ s.
     then_do (io_call ''set state directory permissions'' s) (\<lambda>_ s.
     then_do (acquire_lock s) (\<lambda>_ s.
     then_do (sync_directory s) (\<lambda>_ s. recover_stale_temporaries_locked uuid_ok s))))"

definition read_state_locked :: "string \<Rightarrow> FileStore \<Rightarrow> bytes pres \<times> FileStore" where
  "read_state_locked nm s =
     then_do (io_call ''open pairwise state'' s) (\<lambda>_ s.
     case bt_get (fs_files s) nm of
       Some (File bs) \<Rightarrow>
         then_do (io_call ''read pairwise state metadata'' s) (\<lambda>_ s.
         if bs = [] then (Inl (PwCorruptState ''pairwise state file is empty''), s)
         else
         then_do (ensure_file_payload_size (length bs), s) (\<lambda>_ s.
         then_do (io_call ''allocate pairwise state buffer'' s) (\<lambda>_ s.
         then_do (io_call ''read pairwise state'' s) (\<lambda>_ s.
         then_do (io_call ''check pairwise state length'' s) (\<lambda>_ s.
         then_do (io_call ''recheck pairwise state metadata'' s) (\<lambda>_ s. (Inr bs, s)))))))
     | _ \<Rightarrow> (Inl (PwStorage ''open pairwise state''), s))"

definition file_load :: "(string \<Rightarrow> bool) \<Rightarrow> FileStore \<Rightarrow> bytes option pres \<times> FileStore" where
  "file_load uuid_ok s =
     then_do (acquire_lock s) (\<lambda>_ s.
     then_do (recover_stale_temporaries_locked uuid_ok s) (\<lambda>_ s.
     then_do (highest_generation_locked s) (\<lambda>highest s.
       case highest of None \<Rightarrow> (Inr None, s)
       | Some (_, nm) \<Rightarrow> then_do (read_state_locked nm s) (\<lambda>bs s. (Inr (Some bs), s)))))"

definition discard_temporary_locked :: "string \<Rightarrow> FileStore \<Rightarrow> unit pres \<times> FileStore" where
  "discard_temporary_locked nm s =
     (case remove_file nm s of
        (Inr _, s) \<Rightarrow> sync_directory s
      | (Inl missing, s) \<Rightarrow> (if missing then Inr () else Inl (PwStorage ''remove temporary state''), s))"

text \<open>The error returned is the cause, or the cause with the errors of the rollback.\<close>

definition rollback_publish_locked :: "string \<Rightarrow> string option \<Rightarrow> PairwiseError \<Rightarrow> FileStore \<Rightarrow> PairwiseError \<times> FileStore" where
  "rollback_publish_locked temporary destination cause s =
     (case (case destination of None \<Rightarrow> (Inr (), s) | Some nm \<Rightarrow> remove_file nm s) of (r1, s) \<Rightarrow>
      case remove_file temporary s of (r2, s) \<Rightarrow>
      case sync_directory s of (r3, s) \<Rightarrow>
        (if r1 = Inl False \<or> r2 = Inl False \<or> \<not> is_ok r3 then PwStorage ''rollback also failed'' else cause, s))"

definition publish_temporary_locked :: "string \<Rightarrow> string \<Rightarrow> FileStore \<Rightarrow> unit pres \<times> FileStore" where
  "publish_temporary_locked temporary destination s =
     (case io_call ''check pairwise state destination'' s of
        (Inl e, s) \<Rightarrow> (case rollback_publish_locked temporary None e s of (e, s) \<Rightarrow> (Inl e, s))
      | (Inr _, s) \<Rightarrow>
        if bt_contains_key (fs_files s) destination
        then case rollback_publish_locked temporary None (PwStorage ''refusing to replace existing pairwise state generation'') s of
          (e, s) \<Rightarrow> (Inl e, s)
        else case io_call ''publish pairwise state'' s of
          (Inl e, s) \<Rightarrow> (case rollback_publish_locked temporary None e s of (e, s) \<Rightarrow> (Inl e, s))
        | (Inr _, s) \<Rightarrow>
          (case bt_get (fs_files s) temporary of
             None \<Rightarrow> (case rollback_publish_locked temporary None (PwStorage ''publish pairwise state'') s of (e, s) \<Rightarrow> (Inl e, s))
           | Some entry \<Rightarrow> (Inr (), set_files (bt_insert destination entry (bt_remove temporary (fs_files s))) s)))"

text \<open>The closure that writes the temporary file; \<^verbatim>\<open>create_new\<close> refuses an existing name.\<close>

definition write_temporary :: "string \<Rightarrow> bytes \<Rightarrow> FileStore \<Rightarrow> unit pres \<times> FileStore" where
  "write_temporary nm payload s =
     then_do (io_call ''create temporary state'' s) (\<lambda>_ s.
       if bt_contains_key (fs_files s) nm then (Inl (PwStorage ''create temporary state''), s)
       else
         let s = set_files (bt_insert nm (File []) (fs_files s)) s;
             written = (if io_result s = 0 then payload else take (io_result s - 1) payload) in
         then_do (io_call ''write temporary state'' (set_files (bt_insert nm (File written) (fs_files s)) s)) (\<lambda>_ s.
         then_do (io_call ''flush temporary state'' s) (\<lambda>_ s. io_call ''sync temporary state'' s)))"

definition cleanup_after_durable_publish_locked :: "string \<Rightarrow> u64 \<Rightarrow> FileStore \<Rightarrow> FileStore" where
  "cleanup_after_durable_publish_locked temporary g s =
     snd (remove_older_generations_locked g (snd (discard_temporary_locked temporary s)))"

definition file_commit :: "(nat \<Rightarrow> string) \<Rightarrow> (string \<Rightarrow> bool) \<Rightarrow> u64 \<Rightarrow> bytes \<Rightarrow> FileStore \<Rightarrow> unit pres \<times> FileStore" where
  "file_commit uuid uuid_ok gen payload s =
     then_do (ensure_file_payload_size (length payload), s) (\<lambda>_ s.
     then_do (previous_generation gen, s) (\<lambda>expected s.
     then_do (acquire_lock s) (\<lambda>_ s.
     then_do (recover_stale_temporaries_locked uuid_ok s) (\<lambda>_ s.
     then_do (highest_generation_locked s) (\<lambda>highest s.
     then_do (ensure_current_generation gen expected (case highest of None \<Rightarrow> 0 | Some (current, _) \<Rightarrow> current), s) (\<lambda>_ s.
       let destination = state_path gen; temporary = temporary_path gen (uuid (fs_draw s)); s = s\<lparr>fs_draw := Suc (fs_draw s)\<rparr> in
       case write_temporary temporary payload s of
         (Inl e, s) \<Rightarrow> (case rollback_publish_locked temporary None e s of (e, s) \<Rightarrow> (Inl e, s))
       | (Inr _, s) \<Rightarrow>
         then_do (publish_temporary_locked temporary destination s) (\<lambda>_ s.
           case sync_directory s of
             (Inl e, s) \<Rightarrow> (case rollback_publish_locked temporary (Some destination) e s of (e, s) \<Rightarrow> (Inl e, s))
           | (Inr _, s) \<Rightarrow> (Inr (), cleanup_after_durable_publish_locked temporary gen s))))))))"

definition file_cleanup :: "u64 \<Rightarrow> FileStore \<Rightarrow> FileStore" where
  "file_cleanup g s = (case acquire_lock s of (Inl _, s) \<Rightarrow> s | (Inr _, s) \<Rightarrow> snd (remove_older_generations_locked g s))"

definition file_store :: "(nat \<Rightarrow> string) \<Rightarrow> (string \<Rightarrow> bool) \<Rightarrow> FileStore store_api" where
  "file_store uuid uuid_ok = \<lparr>store_load = file_load uuid_ok, store_commit = file_commit uuid uuid_ok, store_cleanup = file_cleanup\<rparr>"

end
