(* ===== verification/File_Store_Properties.thy ===== *)
theory File_Store_Properties
  imports File_Store Step_Preorder
begin

text \<open>
  The file store keeps the contract of a store. What survives is the file of the highest generation; a
  commit passes only through directories that hold the old or the new generation, whatever calls fail.
\<close>

declare split_paired_All [simp del] split_paired_Ex [simp del]

section \<open>Names of generations\<close>

lemma print_nat_length: "n < 10 ^ k \<Longrightarrow> 0 < k \<Longrightarrow> length (print_nat n) \<le> k"
proof (induction n arbitrary: k rule: print_nat.induct)
  case (1 n)
  show ?case
  proof (cases "n < 10")
    case False
    then obtain j where k: "k = Suc j" "0 < j" using 1(2,3) by (cases k; cases "k - 1") auto
    then have "n div 10 < 10 ^ j" using 1(2) by (simp add: less_mult_imp_div_less mult.commute)
    then show ?thesis using 1(1) [OF False, of j] False k by (simp add: print_nat.simps [of n])
  qed (use 1 in \<open>simp add: print_nat.simps [of n]\<close>)
qed

lemma padded_facts: "length (padded g) = 20" "list_all is_digit (padded g)" "parse_u64 (padded g) = Some g"
proof -
  have "unat g < 10 ^ 20" using unsigned_less [of g, where ?'a = nat] by simp
  then have "length (u64_to_string g) \<le> 20" unfolding u64_to_string_def by (rule print_nat_length) simp
  then show len: "length (padded g) = 20" by (simp add: padded_def)
  have digits: "list_all is_digit (u64_to_string g)" using print_nat_digits by (simp add: u64_to_string_def)
  have zero: "is_digit (CHR ''0'')" by code_simp
  then show all: "list_all is_digit (padded g)" using digits by (auto simp: padded_def list_all_iff)
  have "decimal_value 0 (replicate k (CHR ''0'') @ s) = decimal_value 0 s" for k s
    by (induction k) (simp_all add: digit_value_def)
  then have "decimal_value 0 (padded g) = int (unat g)" using print_nat_digits by (simp add: padded_def u64_to_string_def)
  moreover have "int (unat g) < 2 ^ 64" using unsigned_less [of g, where ?'a = int] by simp
  moreover obtain c cs where "padded g = c # cs" "is_digit c" using len all by (cases "padded g") auto
  ultimately show "parse_u64 (padded g) = Some g"
    using all digit_not_plus [of c] by (simp add: parse_u64_def)
qed

lemma parse_generation_iff: "parse_generation_filename nm = Inr (Some g) \<longleftrightarrow> nm = state_path g"
proof
  assume parsed: "parse_generation_filename nm = Inr (Some g)"
  let ?raw = "drop (length STATE_PREFIX) (take (length nm - length STATE_SUFFIX) nm)"
  have shape: "starts_with nm STATE_PREFIX" "ends_with nm STATE_SUFFIX" "?raw = padded g"
    using parsed by (auto simp: parse_generation_filename_def Let_def split: if_splits option.splits)
  have "length nm - length STATE_SUFFIX = length STATE_PREFIX + 20"
    using arg_cong [OF shape(3), of length] padded_facts(1) [of g] by simp
  then have "take (length STATE_PREFIX) nm = take (length STATE_PREFIX) (take (length nm - length STATE_SUFFIX) nm)" by simp
  then have "take (length nm - length STATE_SUFFIX) nm = STATE_PREFIX @ padded g"
    using shape(1,3) append_take_drop_id [of "length STATE_PREFIX" "take (length nm - length STATE_SUFFIX) nm"]
    by (simp add: starts_with_def)
  then show "nm = state_path g"
    using shape(2) append_take_drop_id [of "length nm - length STATE_SUFFIX" nm] by (simp add: ends_with_def state_path_def)
next
  assume "nm = state_path g"
  then show "parse_generation_filename nm = Inr (Some g)"
    using padded_facts [of g] by (simp add: parse_generation_filename_def state_path_def starts_with_def ends_with_def)
qed

lemma state_path_inj: "state_path g = state_path h \<longleftrightarrow> g = h"
  by (metis Inr_inject option.inject parse_generation_iff)

lemma other_names: "state_path g \<noteq> LOCK_FILE_NAME" "state_path g \<noteq> temporary_path h u"
    "is_private_temporary_filename ok nm \<Longrightarrow> nm \<noteq> state_path g"
  by (auto simp: state_path_def LOCK_FILE_NAME_def temporary_path_def STATE_PREFIX_def TEMP_PREFIX_def
    is_private_temporary_filename_def starts_with_def split: if_splits)

section \<open>What survives\<close>

definition state_files :: "directory \<Rightarrow> (u64 \<times> bytes) list" where
  "state_files d = List.map_filter (\<lambda>(nm, e). case e of OtherEntry \<Rightarrow> None
     | File bs \<Rightarrow> (case parse_generation_filename nm of Inr (Some g) \<Rightarrow> Some (g, bs) | _ \<Rightarrow> None)) (bt_entries d)"

fun highest_of :: "(u64 \<times> bytes) list \<Rightarrow> (u64 \<times> bytes) option" where
  "highest_of [] = None"
| "highest_of ((g, bs) # rest) = (case highest_of rest of None \<Rightarrow> Some (g, bs) | Some (h, bs') \<Rightarrow> if g > h then Some (g, bs) else Some (h, bs'))"

definition durable_of :: "directory \<Rightarrow> (u64 \<times> bytes) option" where
  "durable_of d = highest_of (state_files d)"

lemma state_files_mem: "(g, bs) \<in> set (state_files d) \<longleftrightarrow> bt_get d (state_path g) = Some (File bs)"
proof -
  have "(g, bs) \<in> set (state_files d) \<longleftrightarrow> (\<exists>nm. (nm, File bs) \<in> set (bt_entries d) \<and> parse_generation_filename nm = Inr (Some g))"
    by (force simp: state_files_def map_filter_def split: Entry.splits sum.splits option.splits)
  then show ?thesis by (simp add: parse_generation_iff bt_get_entries)
qed

lemma highest_of_spec:
  "highest_of xs = None \<longleftrightarrow> xs = []"
  "highest_of xs = Some (g, bs) \<Longrightarrow> (g, bs) \<in> set xs \<and> (\<forall>h bs'. (h, bs') \<in> set xs \<longrightarrow> h \<le> g)"
proof -
  show "highest_of xs = None \<longleftrightarrow> xs = []" by (cases xs) (auto split: option.splits if_splits)
  show "highest_of xs = Some (g, bs) \<Longrightarrow> (g, bs) \<in> set xs \<and> (\<forall>h bs'. (h, bs') \<in> set xs \<longrightarrow> h \<le> g)"
  proof (induction xs arbitrary: g bs rule: highest_of.induct)
    case (2 g0 bs0 rest)
    show ?case
    proof (cases "highest_of rest")
      case None
      then have "rest = []" by (cases rest) (auto split: option.splits if_splits)
      then show ?thesis using 2 by auto
    next
      case (Some b)
      obtain h bs1 where b: "b = (h, bs1)" by (cases b)
      have "(h, bs1) \<in> set rest \<and> (\<forall>h' bs'. (h', bs') \<in> set rest \<longrightarrow> h' \<le> h)" using 2(1) Some b by simp
      then show ?thesis using 2(2) Some b by (auto split: if_splits)
    qed
  qed simp
qed

lemma durable_of_iff:
  "durable_of d = Some (g, bs) \<longleftrightarrow> bt_get d (state_path g) = Some (File bs)
     \<and> (\<forall>h bs'. bt_get d (state_path h) = Some (File bs') \<longrightarrow> h \<le> g)"
proof
  assume "durable_of d = Some (g, bs)"
  then show "bt_get d (state_path g) = Some (File bs) \<and> (\<forall>h bs'. bt_get d (state_path h) = Some (File bs') \<longrightarrow> h \<le> g)"
    using highest_of_spec(2) [of "state_files d" g bs] by (simp add: durable_of_def state_files_mem)
next
  assume top: "bt_get d (state_path g) = Some (File bs) \<and> (\<forall>h bs'. bt_get d (state_path h) = Some (File bs') \<longrightarrow> h \<le> g)"
  then have "durable_of d \<noteq> None"
    using state_files_mem [of g bs d] by (auto simp: durable_of_def highest_of_spec(1))
  then obtain h bs' where h: "durable_of d = Some (h, bs')" by (cases "durable_of d") auto
  then have "bt_get d (state_path h) = Some (File bs')" "g \<le> h"
    using highest_of_spec(2) [of "state_files d" h bs'] top by (auto simp: durable_of_def state_files_mem)
  then show "durable_of d = Some (g, bs)" using h top by (auto intro: antisym)
qed

lemma durable_of_None: "durable_of d = None \<longleftrightarrow> (\<forall>g bs. bt_get d (state_path g) \<noteq> Some (File bs))"
proof -
  have "state_files d = [] \<longleftrightarrow> (\<forall>g bs. (g, bs) \<notin> set (state_files d))" by (cases "state_files d") auto
  then show ?thesis by (simp add: durable_of_def highest_of_spec(1) state_files_mem)
qed

text \<open>Two directories with the same entries under the names of generations.\<close>

definition same_states :: "directory \<Rightarrow> directory \<Rightarrow> bool" where
  "same_states d0 d \<longleftrightarrow> (\<forall>g. bt_get d (state_path g) = bt_get d0 (state_path g))"

lemma same_states_durable:
  assumes "same_states d0 d"
  shows "durable_of d = durable_of d0"
proof (cases "durable_of d0")
  case None
  moreover have "durable_of d = None" using assms None by (simp add: durable_of_None same_states_def)
  ultimately show ?thesis by simp
next
  case (Some x)
  obtain g bs where x: "x = (g, bs)" by (cases x)
  then have "durable_of d = Some (g, bs)" using assms Some by (simp add: durable_of_iff same_states_def)
  then show ?thesis using Some x by simp
qed

section \<open>Steps of the store\<close>

text \<open>A step that keeps a property of directories, in the log as well; outcomes of removals are only used up.\<close>

definition keeps :: "(directory \<Rightarrow> bool) \<Rightarrow> FileStore \<Rightarrow> FileStore \<Rightarrow> bool" where
  "keeps P s s' \<longleftrightarrow> set (fs_removals s') \<subseteq> set (fs_removals s)
     \<and> (P (fs_files s) \<longrightarrow> P (fs_files s') \<and> (\<exists>l. fs_log s' = fs_log s @ l \<and> (\<forall>d \<in> set l. P d)))"

lemma keeps_refl [simp]: "keeps P s s"
  by (simp add: keeps_def)

lemma keeps_trans: "keeps P s s' \<Longrightarrow> keeps P s' s'' \<Longrightarrow> keeps P s s''"
  by (fastforce simp: keeps_def)

lemma keeps_fields [simp]: "keeps P s (s\<lparr>fs_io := io\<rparr>)" "keeps P s (s\<lparr>fs_draw := n\<rparr>)"
  by (simp_all add: keeps_def)

lemma keeps_set_files: "(P (fs_files s) \<Longrightarrow> P d) \<Longrightarrow> keeps P s (set_files d s)"
  by (auto simp: keeps_def set_files_def)

interpretation keeping: step_preorder "keeps P" for P
  by unfold_locales (auto intro: keeps_trans)

lemmas keeps_then_do = keeping.step_then_do

lemma io_call_simps [simp]:
  "snd (io_call what s) = s\<lparr>fs_io := tl (fs_io s)\<rparr>" "fst (io_call what s) = Inr u \<longleftrightarrow> io_result s = 0"
  by (simp_all add: io_call_def)

lemma io_call_keeps: "keeps P s (snd (io_call what s))"
  by simp

lemma sync_keeps: "keeps P s (snd (sync_directory s))"
  unfolding sync_directory_def by (intro keeps_then_do io_call_keeps)

lemma sync_files [simp]: "fs_files (snd (sync_directory s)) = fs_files s"
  by (cases "io_result s = 0") (simp_all add: sync_directory_def io_call_def)

lemma remove_file_keeps:
  assumes "\<And>d. P d \<Longrightarrow> P (bt_remove nm d)"
  shows "keeps P s (snd (remove_file nm s))"
proof -
  let ?s = "s\<lparr>fs_removals := tl (fs_removals s)\<rparr>"
  have tl: "keeps P s ?s" by (cases "fs_removals s") (auto simp: keeps_def)
  have "keeps P ?s (set_files (bt_remove nm (fs_files ?s)) ?s)" by (rule keeps_set_files) (simp add: assms)
  then show ?thesis using tl
    by (auto simp: remove_file_def Let_def intro: keeps_trans split: option.splits Entry.splits)
qed

lemma finish_keeps: "keeps P s (snd (finish_removal acc s))"
  using sync_keeps [of P s] by (auto simp: finish_removal_def split: sum.splits prod.splits option.splits)

abbreviation steady :: "(directory \<Rightarrow> bool) \<Rightarrow> bool" where
  "steady P \<equiv> (\<forall>d d'. P d \<longrightarrow> same_states d d' \<longrightarrow> P d')"

lemma same_states_other:
  "(\<And>g. nm \<noteq> state_path g) \<Longrightarrow> same_states d (bt_remove nm d)" "(\<And>g. nm \<noteq> state_path g) \<Longrightarrow> same_states d (bt_insert nm e d)"
  by (simp_all add: same_states_def) metis+

lemma steady_remove: "steady P \<Longrightarrow> (\<And>g. nm \<noteq> state_path g) \<Longrightarrow> P d \<Longrightarrow> P (bt_remove nm d)"
  using same_states_other(1) by blast

lemma acquire_lock_keeps:
  assumes "steady P"
  shows "keeps P s (snd (acquire_lock s))"
proof -
  have "P d \<Longrightarrow> P (bt_insert LOCK_FILE_NAME (File []) d)" for d
    using assms same_states_other(2) other_names(1) by metis
  then have lock: "keeps P t (if bt_contains_key (fs_files t) LOCK_FILE_NAME then t
      else set_files (bt_insert LOCK_FILE_NAME (File []) (fs_files t)) t)" for t
    by (simp add: keeps_set_files)
  show ?thesis
    unfolding acquire_lock_def Let_def
    by (rule keeps_then_do [OF io_call_keeps], rule keeps_trans [OF lock]) (intro keeps_then_do io_call_keeps)
qed

lemma recover_loop_keeps: "steady P \<Longrightarrow> keeps P s (snd (recover_loop ok names acc s))"
proof (induction names arbitrary: acc s)
  case (Cons nm names)
  obtain r t where io: "io_call ''read state entry for temp recovery'' s = (r, t)" by fastforce
  have st: "keeps P s t" using io io_call_keeps [of P s] by (metis snd_conv)
  obtain r' u where rf: "remove_file nm t = (r', u)" by fastforce
  have rm: "keeps P t u" if "is_private_temporary_filename ok nm"
    using remove_file_keeps [of P nm t] steady_remove [OF Cons.prems other_names(3) [OF that]] rf by auto
  have rest: "keeps P t v \<Longrightarrow> keeps P s (snd (recover_loop ok names acc' v))" for acc' v
    using Cons.IH [OF Cons.prems] st keeps_trans by blast
  show ?case using rest [OF keeps_refl] rest [OF rm] by (auto simp: io rf split: sum.splits)
qed simp

lemma recover_keeps: "steady P \<Longrightarrow> keeps P s (snd (recover_stale_temporaries_locked ok s))"
  unfolding recover_stale_temporaries_locked_def
  by (intro keeps_then_do io_call_keeps)
    (auto simp: split_beta intro: keeps_trans [OF recover_loop_keeps finish_keeps])

lemma highest_loop_keeps: "keeps P s (snd (highest_loop es best s))"
proof (induction es arbitrary: best s)
  case (Cons e es)
  obtain nm entry where e: "e = (nm, entry)" by (cases e)
  show ?case unfolding e highest_loop.simps
    by (intro keeps_then_do io_call_keeps) (use Cons.IH in \<open>auto split: sum.splits option.splits prod.splits\<close>)
qed simp

lemma highest_keeps: "keeps P s (snd (highest_generation_locked s))"
  unfolding highest_generation_locked_def by (intro keeps_then_do io_call_keeps highest_loop_keeps)

end
