(* ===== verification/Pairwise_Manager.thy ===== *)
theory Pairwise_Manager
  imports Pairwise_Store
begin

text \<open>
  The pairwise runtime (\<^verbatim>\<open>manager.rs\<close> and \<^verbatim>\<open>manager/subscriptions.rs\<close>). Every operation computes the next state
  from a copy and makes it current by \<open>commit_next\<close>, which numbers, validates, seals and stores it; an error
  before or in the commit leaves the manager as it was.

  The operating system's random source is the field \<open>pm_ctx\<close>: blocks for keys and nonces, and the index of the next
  draw for encryptions and UUIDs. The current time is an argument.
\<close>

declare split_paired_All [simp del] split_paired_Ex [simp del]

record 's PairwiseManager =
  pm_store :: 's
  pm_secret :: bytes \<comment> \<open>\<^verbatim>\<open>identity_keys\<close>\<close>
  pm_state :: PairwiseState
  pm_limits :: RuntimeLimits
  installed_message_authors :: "string list"
  pm_ctx :: ctx

abbreviation pm_public :: "'x crypto_scheme \<Rightarrow> 's PairwiseManager \<Rightarrow> PublicKey" where
  "pm_public cr m \<equiv> pk_of_sk cr (pm_secret m)"

definition MAX_INVITE_FUTURE_SKEW_SECONDS :: u64 where "MAX_INVITE_FUTURE_SKEW_SECONDS = 10 * 60"

section \<open>Checks\<close>

definition ensure_size :: "nat \<Rightarrow> nat \<Rightarrow> string \<Rightarrow> unit pres" where
  "ensure_size n limit input = (if n > limit then Inl (PwInputTooLarge input limit) else Inr ())"

definition ensure_event_size :: "'x pairwise_crypto_scheme \<Rightarrow> Event \<Rightarrow> nat \<Rightarrow> string \<Rightarrow> unit pres" where
  "ensure_event_size cr ev limit input =
     and_then (ok_or (event_to_json cr ev) PwSerialization) (\<lambda>j. ensure_size (length j) limit input)"

definition validate_invite_peer :: "'x crypto_scheme \<Rightarrow> Invite \<Rightarrow> PublicKey \<Rightarrow> unit pres" where
  "validate_invite_peer cr iv authenticated_peer =
     and_then (map_err from_core (device_to_nostr cr (inviter_device_pubkey iv))) (\<lambda>actual.
       if actual \<noteq> authenticated_peer
       then Inl (PwPeerMismatch (hex_encode cr authenticated_peer) (hex_encode cr actual))
       else if \<not> pairwise_owner_claim_is_valid iv then Inl PwOwnerDeviceMismatch else Inr ())"

definition validate_response_peer :: "'x crypto_scheme \<Rightarrow> InviteResponse \<Rightarrow> PublicKey \<Rightarrow> unit pres" where
  "validate_response_peer cr response authenticated_peer =
     (if invitee_identity response \<noteq> authenticated_peer
      then Inl (PwPeerMismatch (hex_encode cr authenticated_peer) (hex_encode cr (invitee_identity response)))
      else
        let device = device_bytes (invitee_device_pubkey response) in
        if device \<noteq> authenticated_peer
          \<or> (case invitee_owner_pubkey response of None \<Rightarrow> False | Some ow \<Rightarrow> owner_bytes ow \<noteq> device)
          \<or> (case response_owner_public_key response of None \<Rightarrow> False | Some ow \<Rightarrow> ow \<noteq> authenticated_peer)
        then Inl PwOwnerDeviceMismatch else Inr ())"

definition validate_relay_publish :: "'x event_crypto_scheme \<Rightarrow> Event \<Rightarrow> unit pres" where
  "validate_relay_publish cr ev = first_error
     [(\<not> has_metadata_privacy_version ev, PwInvalidEvent ''publication requires a new private handshake''),
      (ev_kind ev \<noteq> ucast MESSAGE_EVENT_KIND, PwInvalidEvent ''relay publish must be kind 1060''),
      (\<not> event_verify cr ev, PwInvalidEvent ''signature''),
      (list_ex (\<lambda>tag. tag_name tag = Some ''p'') (ev_tags ev),
         PwInvalidEvent ''pairwise relay publish must not reveal a recipient key'')]"

definition ensure_outbound_capacity ::
  "'x pairwise_crypto_scheme \<Rightarrow> PairwiseState \<Rightarrow> RuntimeLimits \<Rightarrow> nat \<Rightarrow> unit pres" where
  "ensure_outbound_capacity cr st l additional =
     (if pending_outbound_count cr st + additional > max_pending_outbound l then Inl (PwQueueFull ''outbound'') else Inr ())"

definition ensure_peer_capacity :: "PairwiseState \<Rightarrow> RuntimeLimits \<Rightarrow> string \<Rightarrow> unit pres" where
  "ensure_peer_capacity st l peer_hex =
     (if \<not> bt_contains_key (peers st) peer_hex \<and> bt_len (peers st) \<ge> max_peers l then Inl (PwQueueFull ''peers'') else Inr ())"

definition ensure_winning_handshake :: "PairwiseState \<Rightarrow> string \<Rightarrow> u64 \<Rightarrow> string \<Rightarrow> unit pres" where
  "ensure_winning_handshake st peer_hex created session_id =
     (case bt_get (peers st) peer_hex of None \<Rightarrow> Inr ()
      | Some p \<Rightarrow> (case winning_rank p of None \<Rightarrow> Inr ()
          | Some w \<Rightarrow> if w > (created, session_id)
              then Inl (PwInvalidEvent ''handshake is older than the active pairwise session'') else Inr ()))"

definition action_session_id :: "PairwiseActionKind \<Rightarrow> string option" where
  "action_session_id kind = (case kind of Publish s _ _ \<Rightarrow> Some s | OutOfBand _ s _ \<Rightarrow> Some s | _ \<Rightarrow> None)"

definition retire_sessions :: "PairwiseState \<Rightarrow> SessionRecord list \<Rightarrow> PairwiseState" where
  "retire_sessions st retired =
     (if retired = [] then st
      else st\<lparr>pending_actions := filter (\<lambda>a. case action_session_id (action_kind a) of None \<Rightarrow> True
        | Some s \<Rightarrow> s \<notin> handshake_id ` set retired) (pending_actions st)\<rparr>)"

definition has_pending_out_of_band_event :: "PairwiseState \<Rightarrow> string \<Rightarrow> string \<Rightarrow> string \<Rightarrow> bool" where
  "has_pending_out_of_band_event st hex session_id j \<longleftrightarrow>
     list_ex (\<lambda>a. action_kind a = OutOfBand hex session_id j) (pending_actions st)"

definition has_pending_publish_event :: "PairwiseState \<Rightarrow> string \<Rightarrow> string \<Rightarrow> bool" where
  "has_pending_publish_event st session_id j \<longleftrightarrow>
     list_ex (\<lambda>a. case action_kind a of Publish s pending _ \<Rightarrow> s = session_id \<and> pending = j | _ \<Rightarrow> False) (pending_actions st)"

definition handshake_id_of :: "'x crypto_scheme \<Rightarrow> Invite \<Rightarrow> PublicKey \<Rightarrow> string" where
  "handshake_id_of cr iv invitee =
     hex_encode cr (sha256 cr (device_bytes (inviter_device_pubkey iv) @ device_bytes (inviter_ephemeral_public_key iv)
       @ shared_secret iv @ be_bytes 8 (invite_created_at iv) @ invitee))"

definition push_action ::
  "'x event_crypto_scheme \<Rightarrow> PairwiseActionKind \<Rightarrow> PairwiseState \<times> nat \<Rightarrow> PairwiseState \<times> nat" where
  "push_action cr kind = (\<lambda>(st, draw).
     (st\<lparr>pending_actions := pending_actions st @ [next_action cr draw st kind]\<rparr>, Suc draw))"

definition saturating_mul :: "u64 \<Rightarrow> u64 \<Rightarrow> u64" where
  "saturating_mul a b = (if uint a * uint b < 2 ^ 64 then a * b else - 1)"

definition fill_24 :: "bytes \<Rightarrow> bytes" where
  "fill_24 block = take 24 (block @ replicate 24 0)"

section \<open>Subscriptions (manager/subscriptions.rs)\<close>

definition message_authors :: "'x crypto_scheme \<Rightarrow> RuntimeLimits \<Rightarrow> PairwiseState \<Rightarrow> string list pres" where
  "message_authors cr l st =
     and_then (fold_res (\<lambda>p authors.
         let authors' = fold bs_insert (map (hex_encode cr) (tracked_sender_pubkeys cr p)) authors in
         if bt_len authors' > max_subscription_authors l then Inl (PwQueueFull ''subscription-authors'') else Inr authors')
       (bt_values (peers st)) bt_empty) (\<lambda>authors. Inr (bt_keys authors))"

fun parse_all :: "'x wire_crypto_scheme \<Rightarrow> string list \<Rightarrow> PublicKey list option" where
  "parse_all cr [] = Some []"
| "parse_all cr (s # ss) = Option.bind (pk_parse cr s) (\<lambda>pk. Option.bind (parse_all cr ss) (\<lambda>pks. Some (pk # pks)))"

definition refresh_subscription_actions ::
  "'x pairwise_crypto_scheme \<Rightarrow> string list \<Rightarrow> bool \<Rightarrow> RuntimeLimits \<Rightarrow> PairwiseState \<times> nat \<Rightarrow>
   (string list \<times> PairwiseState \<times> nat) pres" where
  "refresh_subscription_actions cr installed force l = (\<lambda>(st, draw).
     and_then (message_authors cr l st) (\<lambda>authors.
       let subid = message_subscription_id st in
     and_then (ok_or (parse_all cr authors) PwInvalidKey) (\<lambda>pubkeys.
     and_then (ok_or (message_filter_json cr pubkeys) PwSerialization) (\<lambda>expected_filter.
       let has_pending_subscribe = list_ex (\<lambda>a. action_kind a = Subscribe subid expected_filter) (pending_actions st);
           has_pending_unsubscribe = list_ex (\<lambda>a. action_kind a = Unsubscribe subid) (pending_actions st) in
       if installed = [] \<and> (has_pending_subscribe \<or> (authors = [] \<and> has_pending_unsubscribe)) then Inr (authors, st, draw)
       else if \<not> force \<and> authors = installed then Inr (authors, st, draw)
       else
         let st = st\<lparr>pending_actions := filter (\<lambda>a. case action_kind a of
               Subscribe pending _ \<Rightarrow> pending \<noteq> subid | Unsubscribe pending \<Rightarrow> pending \<noteq> subid | _ \<Rightarrow> True) (pending_actions st)\<rparr>;
             (st, draw) = (if authors = [] \<and> installed \<noteq> [] then push_action cr (Unsubscribe subid) (st, draw) else (st, draw));
             (st, draw) = (if authors \<noteq> [] then push_action cr (Subscribe subid expected_filter) (st, draw) else (st, draw))
         in Inr (authors, st, draw)))))"

section \<open>Commit\<close>

definition commit_next ::
  "'x pairwise_crypto_scheme \<Rightarrow> 's store_api \<Rightarrow> PairwiseState \<Rightarrow> string list \<Rightarrow> 's PairwiseManager \<Rightarrow>
   unit pres \<times> 's PairwiseManager" where
  "commit_next cr api nxt authors m =
     (case checked_add (generation (pm_state m)) 1 of
        None \<Rightarrow> (Inl (PwStorage ''state generation overflow''), m)
      | Some gen \<Rightarrow>
        let nxt = nxt\<lparr>generation := gen\<rparr> in
        case validate cr (pm_public cr m) (pm_limits m) nxt of
          Inl e \<Rightarrow> (Inl e, m)
        | Inr _ \<Rightarrow>
          (case draw_block (fst (pm_ctx m)) of
             (Inl _, rng) \<Rightarrow> (Inl PwRngExhausted, m\<lparr>pm_ctx := (rng, snd (pm_ctx m))\<rparr>)
           | (Inr block, rng) \<Rightarrow>
             let m = m\<lparr>pm_ctx := (rng, snd (pm_ctx m))\<rparr> in
             case seal_state cr nxt (pm_secret m) (max_persisted_state_bytes (pm_limits m)) (fill_24 block) of
               Inl e \<Rightarrow> (Inl e, m)
             | Inr payload \<Rightarrow>
               (case store_commit api gen payload (pm_store m) of
                  (Inl e, s) \<Rightarrow> (Inl e, m\<lparr>pm_store := s\<rparr>)
                | (Inr _, s) \<Rightarrow>
                  (Inr (), m\<lparr>pm_store := s, pm_state := nxt, installed_message_authors := authors\<rparr>))))"

text \<open>
  The last steps of most operations: refresh the subscription for the next state, then commit. The draws
  made so far are kept by the context.
\<close>

definition refresh_and_commit ::
  "'x pairwise_crypto_scheme \<Rightarrow> 's store_api \<Rightarrow> PairwiseState \<times> nat \<Rightarrow> 's PairwiseManager \<Rightarrow> unit pres \<times> 's PairwiseManager" where
  "refresh_and_commit cr api nd m =
     (case refresh_subscription_actions cr (installed_message_authors m) False (pm_limits m) nd of
        Inl e \<Rightarrow> (Inl e, m)
      | Inr (authors, nxt, draw) \<Rightarrow> commit_next cr api nxt authors (m\<lparr>pm_ctx := (fst (pm_ctx m), draw)\<rparr>))"

definition refresh_message_subscription ::
  "'x pairwise_crypto_scheme \<Rightarrow> 's store_api \<Rightarrow> bool \<Rightarrow> 's PairwiseManager \<Rightarrow> unit pres \<times> 's PairwiseManager" where
  "refresh_message_subscription cr api force m =
     (case refresh_subscription_actions cr (installed_message_authors m) force (pm_limits m) (pm_state m, snd (pm_ctx m)) of
        Inl e \<Rightarrow> (Inl e, m)
      | Inr (authors, nxt, draw) \<Rightarrow>
        let m = m\<lparr>pm_ctx := (fst (pm_ctx m), draw)\<rparr> in
        if pending_actions nxt = pending_actions (pm_state m) then (Inr (), m\<lparr>installed_message_authors := authors\<rparr>)
        else commit_next cr api nxt authors m)"

section \<open>Opening\<close>

definition upgrade_invite :: "u64 \<Rightarrow> PairwiseState \<Rightarrow> PairwiseState \<times> bool" where
  "upgrade_invite now st =
     (if invite_metadata_privacy_version (local_invite st) \<noteq> METADATA_PRIVACY_VERSION
      then (st\<lparr>local_invite := (local_invite st)\<lparr>invite_metadata_privacy_version := METADATA_PRIVACY_VERSION,
              invite_created_at := max now (saturating_add (invite_created_at (local_invite st)) 1)\<rparr>\<rparr>, True)
      else (st, False))"

definition initial_state_of ::
  "'x pairwise_crypto_scheme \<Rightarrow> 's store_api \<Rightarrow> bytes \<Rightarrow> RuntimeLimits \<Rightarrow> u64 \<Rightarrow> 's \<times> ctx \<Rightarrow>
   (PairwiseState \<times> bool) pres \<times> 's \<times> ctx" where
  "initial_state_of cr api sk l now = (\<lambda>(s, rng, draw).
     case store_load api s of
       (Inl e, s) \<Rightarrow> (Inl e, s, rng, draw)
     | (Inr (Some payload), s) \<Rightarrow>
         (case open_state cr payload sk l of
            Inl e \<Rightarrow> (Inl e, s, rng, draw)
          | Inr st \<Rightarrow> (Inr (st, is_legacy_state_payload payload), store_cleanup api (generation st) s, rng, draw))
     | (Inr None, s) \<Rightarrow>
         (case create_new cr now rng (pk_of_sk cr sk) None None of
            (Inl e, rng) \<Rightarrow> (Inl (from_core e), s, rng, draw)
          | (Inr iv, rng) \<Rightarrow>
            let iv = iv\<lparr>inviter_owner_pubkey := Some (OwnerPubkey (pk_of_sk cr sk)),
                        invite_owner_public_key := Some (pk_of_sk cr sk)\<rparr>
            in (Inr (state_new cr draw (hex_encode cr (pk_of_sk cr sk)) iv, True), s, rng, Suc draw)))"

definition manager_open ::
  "'x pairwise_crypto_scheme \<Rightarrow> 's store_api \<Rightarrow> 's \<Rightarrow> bytes \<Rightarrow> RuntimeLimits \<Rightarrow> u64 \<Rightarrow> ctx \<Rightarrow>
   's PairwiseManager pres \<times> 's" where
  "manager_open cr api s sk l now ctx =
     (case limits_validate l of Inl e \<Rightarrow> (Inl e, s)
      | Inr _ \<Rightarrow>
        (case initial_state_of cr api sk l now (s, ctx) of
           (Inl e, s, _) \<Rightarrow> (Inl e, s)
         | (Inr (st, needs_commit), s, ctx) \<Rightarrow>
           let (st, upgraded) = upgrade_invite now st;
               m = \<lparr>pm_store = s, pm_secret = sk, pm_state = st, pm_limits = l, installed_message_authors = [], pm_ctx = ctx\<rparr>
           in case (if needs_commit \<or> upgraded then commit_next cr api st [] m else (Inr (), m)) of
             (Inl e, m) \<Rightarrow> (Inl e, pm_store m)
           | (Inr _, m) \<Rightarrow>
             (case refresh_message_subscription cr api True m of
                (Inl e, m) \<Rightarrow> (Inl e, pm_store m)
              | (Inr _, m) \<Rightarrow> (Inr m, pm_store m))))"

section \<open>Invites\<close>

definition current_invite_event_json :: "'x pairwise_crypto_scheme \<Rightarrow> 's PairwiseManager \<Rightarrow> string pres" where
  "current_invite_event_json cr m =
     and_then (map_err from_wire (invite_unsigned_event cr (local_invite (pm_state m)))) (\<lambda>u.
     and_then (ok_or (sign_with_keys cr (pm_secret m) u) (PwInvalidEvent ''signature'')) (\<lambda>ev.
     ok_or (event_to_json cr ev) PwSerialization))"

definition current_invite_url :: "'x pairwise_crypto_scheme \<Rightarrow> string \<Rightarrow> 's PairwiseManager \<Rightarrow> string pres" where
  "current_invite_url cr root m = map_err from_wire (invite_url cr (local_invite (pm_state m)) root)"

definition accept_invite_checks ::
  "'x pairwise_crypto_scheme \<Rightarrow> Invite \<Rightarrow> PublicKey \<Rightarrow> u64 \<Rightarrow> 's PairwiseManager \<Rightarrow> unit pres" where
  "accept_invite_checks cr iv authenticated_peer now m =
     and_then (ok_or (invite_json_len cr iv) PwSerialization) (\<lambda>n.
     and_then (ensure_size n (max_event_bytes (pm_limits m)) ''invite'') (\<lambda>_.
     and_then (validate_invite_peer cr iv authenticated_peer) (\<lambda>_.
     if invite_created_at iv > saturating_add now MAX_INVITE_FUTURE_SKEW_SECONDS
     then Inl (PwInvalidEvent ''invite timestamp is unreasonably far in the future'')
     else ensure_peer_capacity (pm_state m) (pm_limits m) (hex_encode cr authenticated_peer))))"

text \<open>The events of a handshake that was answered before.\<close>

definition answered_handshake :: "PairwiseState \<Rightarrow> string \<Rightarrow> string \<Rightarrow> (string \<times> string) option" where
  "answered_handshake st peer_hex hid =
     Option.bind (bt_get (peers st) peer_hex) (\<lambda>p.
     Option.bind (List.find (\<lambda>s. handshake_id s = hid
         \<and> metadata_privacy_version (record_state s) = METADATA_PRIVACY_VERSION) (peer_sessions p)) (\<lambda>s.
     Option.bind (invite_response_event_json s) (\<lambda>response.
     Option.bind (bootstrap_event_json s) (\<lambda>bootstrap. Some (response, bootstrap)))))"

definition accept_invite_again ::
  "'x pairwise_crypto_scheme \<Rightarrow> 's store_api \<Rightarrow> string \<Rightarrow> string \<Rightarrow> string \<times> string \<Rightarrow> 's PairwiseManager \<Rightarrow>
   PairwiseAcceptResult pres \<times> 's PairwiseManager" where
  "accept_invite_again cr api peer_hex hid = (\<lambda>(response, bootstrap) m.
     let st = pm_state m;
         response_missing = \<not> has_pending_out_of_band_event st peer_hex hid response;
         bootstrap_missing = \<not> has_pending_publish_event st hid bootstrap;
         missing = (if response_missing then 1 else 0) + (if bootstrap_missing then 1 else 0);
         result = \<lparr>accepted_peer_pubkey_hex = peer_hex, created_new_session = False\<rparr>
     in if missing > 0
        then case ensure_outbound_capacity cr st (pm_limits m) missing of Inl e \<Rightarrow> (Inl e, m)
          | Inr _ \<Rightarrow>
            let nd = (st, snd (pm_ctx m));
                nd = (if response_missing then push_action cr (OutOfBand peer_hex hid response) nd else nd);
                (nxt, draw) = (if bootstrap_missing then push_action cr (Publish hid bootstrap None) nd else nd)
            in then_do (commit_next cr api nxt (installed_message_authors m) (m\<lparr>pm_ctx := (fst (pm_ctx m), draw)\<rparr>))
                 (\<lambda>_ m. (Inr result, m))
        else (Inr result, m))"

text \<open>A new session for the invite, its response event and the bootstrap message, as JSON.\<close>

definition start_handshake ::
  "'x pairwise_crypto_scheme \<Rightarrow> Invite \<Rightarrow> u64 \<Rightarrow> 's PairwiseManager \<Rightarrow>
   (SessionState \<times> string \<times> string) pres \<times> 's PairwiseManager" where
  "start_handshake cr iv now m =
     (case pm_ctx m of (rng, draw) \<Rightarrow>
      case accept_with_owner_context cr draw now rng iv (DevicePubkey (pm_public cr m)) (pm_secret m)
             (Some (OwnerPubkey (pm_public cr m))) of
        (Inl e, rng) \<Rightarrow> (Inl (from_core e), m\<lparr>pm_ctx := (rng, draw + 3)\<rparr>)
      | (Inr (session, response), rng) \<Rightarrow>
        (and_then (map_err from_wire (invite_response_event cr response)) (\<lambda>response_event.
         and_then (ok_or (event_to_json cr response_event) PwSerialization) (\<lambda>response_json.
           let bootstrap = ensure_id cr (typing_event cr (pm_public cr m)
                 (with_expiration (encode_options_new now (saturating_mul now 1000)) 1)) in
         and_then (ok_or (unsigned_to_vec cr bootstrap) PwSerialization) (\<lambda>payload.
         and_then (map_err from_core (plan_send cr (draw + 3) session payload now)) (\<lambda>plan.
         and_then (map_err from_wire (message_event cr (send_envelope plan))) (\<lambda>bootstrap_event.
         and_then (validate_relay_publish cr bootstrap_event) (\<lambda>_.
         and_then (ensure_event_size cr bootstrap_event (max_event_bytes (pm_limits m)) ''bootstrap event'') (\<lambda>_.
         and_then (ok_or (event_to_json cr bootstrap_event) PwSerialization) (\<lambda>bootstrap_json.
           Inr (send_next_state plan, response_json, bootstrap_json))))))))),
         m\<lparr>pm_ctx := (rng, draw + 5)\<rparr>))"

definition peer_or_new :: "PairwiseState \<Rightarrow> string \<Rightarrow> PeerState" where
  "peer_or_new st peer_hex =
     (case bt_get (peers st) peer_hex of Some p \<Rightarrow> p | None \<Rightarrow> \<lparr>peer_pubkey_hex = peer_hex, peer_sessions = []\<rparr>)"

text \<open>Install a record at its peer and retire the sessions it replaces.\<close>

definition install_record ::
  "PairwiseState \<Rightarrow> string \<Rightarrow> SessionRecord \<Rightarrow> nat \<Rightarrow> (bool \<times> PairwiseState) pres" where
  "install_record st peer_hex r max_sessions =
     (case install_session (peer_or_new st peer_hex) r max_sessions of
        (Inl e, _) \<Rightarrow> Inl e
      | (Inr (created, retired), p) \<Rightarrow>
          Inr (created, retire_sessions (st\<lparr>peers := bt_insert peer_hex p (peers st)\<rparr>) retired))"

definition accept_invite_new ::
  "'x pairwise_crypto_scheme \<Rightarrow> 's store_api \<Rightarrow> Invite \<Rightarrow> string \<Rightarrow> string \<Rightarrow> u64 \<Rightarrow> 's PairwiseManager \<Rightarrow>
   PairwiseAcceptResult pres \<times> 's PairwiseManager" where
  "accept_invite_new cr api iv peer_hex hid now m =
     (case ensure_winning_handshake (pm_state m) peer_hex (invite_created_at iv) hid of Inl e \<Rightarrow> (Inl e, m)
      | Inr _ \<Rightarrow>
        then_do (start_handshake cr iv now m) (\<lambda>(session_state, response_json, bootstrap_json) m.
        case install_record (pm_state m) peer_hex
               \<lparr>handshake_id = hid, handshake_created_at = invite_created_at iv, record_state = session_state,
                invite_response_event_json = Some response_json, bootstrap_event_json = Some bootstrap_json,
                accepted_response_event_id = None\<rparr> (max_sessions_per_peer (pm_limits m)) of
          Inl e \<Rightarrow> (Inl e, m)
        | Inr (created, nxt) \<Rightarrow>
          (case ensure_outbound_capacity cr nxt (pm_limits m) 2 of Inl e \<Rightarrow> (Inl e, m)
           | Inr _ \<Rightarrow>
             then_do (refresh_and_commit cr api
                 (push_action cr (Publish hid bootstrap_json None)
                   (push_action cr (OutOfBand peer_hex hid response_json) (nxt, snd (pm_ctx m)))) m) (\<lambda>_ m.
               (Inr \<lparr>accepted_peer_pubkey_hex = peer_hex, created_new_session = created\<rparr>, m)))))"

definition accept_invite ::
  "'x pairwise_crypto_scheme \<Rightarrow> 's store_api \<Rightarrow> Invite \<Rightarrow> PublicKey \<Rightarrow> u64 \<Rightarrow> 's PairwiseManager \<Rightarrow>
   PairwiseAcceptResult pres \<times> 's PairwiseManager" where
  "accept_invite cr api iv authenticated_peer now m =
     (case accept_invite_checks cr iv authenticated_peer now m of Inl e \<Rightarrow> (Inl e, m)
      | Inr _ \<Rightarrow>
        let peer_hex = hex_encode cr authenticated_peer; hid = handshake_id_of cr iv (pm_public cr m) in
        case answered_handshake (pm_state m) peer_hex hid of
          Some events \<Rightarrow> accept_invite_again cr api peer_hex hid events m
        | None \<Rightarrow> accept_invite_new cr api iv peer_hex hid now m)"

definition accept_invite_from_event ::
  "'x pairwise_crypto_scheme \<Rightarrow> 's store_api \<Rightarrow> Event \<Rightarrow> PublicKey \<Rightarrow> u64 \<Rightarrow> 's PairwiseManager \<Rightarrow>
   PairwiseAcceptResult pres \<times> 's PairwiseManager" where
  "accept_invite_from_event cr api ev authenticated_peer now m =
     (case and_then (ensure_event_size cr ev (max_event_bytes (pm_limits m)) ''invite event'') (\<lambda>_.
             map_err from_wire (parse_invite_event cr ev)) of
        Inl e \<Rightarrow> (Inl e, m)
      | Inr iv \<Rightarrow> accept_invite cr api iv authenticated_peer now m)"

section \<open>Responses\<close>

definition response_checks ::
  "'x pairwise_crypto_scheme \<Rightarrow> Event \<Rightarrow> 's PairwiseManager \<Rightarrow> InviteResponseEnvelope pres" where
  "response_checks cr ev m =
     and_then (ensure_event_size cr ev (max_event_bytes (pm_limits m)) ''invite response event'') (\<lambda>_.
     if ev_kind ev \<noteq> ucast INVITE_RESPONSE_KIND then Inl (PwInvalidEvent ''out-of-band response must be kind 1059'')
     else and_then (map_err from_wire (parse_invite_response_event cr ev)) (\<lambda>envelope.
       if response_recipient envelope \<noteq> inviter_ephemeral_public_key (local_invite (pm_state m))
       then Inl (PwInvalidEvent ''invite response recipient does not match local invite'')
       else Inr envelope))"

definition seen_response :: "PairwiseState \<Rightarrow> string \<Rightarrow> string \<Rightarrow> unit pres" where
  "seen_response st event_id peer_hex =
     (case bt_get (response_event_peers st) event_id of
        Some bound_peer \<Rightarrow> if bound_peer = peer_hex then Inr () else Inl (PwPeerMismatch bound_peer peer_hex)
      | None \<Rightarrow> Inl (PwInvalidEvent ''seen response is missing authenticated peer binding''))"

definition process_new_response ::
  "'x pairwise_crypto_scheme \<Rightarrow> 's store_api \<Rightarrow> string \<Rightarrow> InviteResponseEnvelope \<Rightarrow> PublicKey \<Rightarrow> 's PairwiseManager \<Rightarrow>
   unit pres \<times> 's PairwiseManager" where
  "process_new_response cr api event_id envelope authenticated_peer m =
     (case process_response cr (local_invite (pm_state m)) (fst (pm_ctx m)) envelope (pm_secret m) of
        (r, iv, rng) \<Rightarrow>
        let m = m\<lparr>pm_ctx := (rng, snd (pm_ctx m))\<rparr>; st = pm_state m; peer_hex = hex_encode cr authenticated_peer;
            hid = handshake_id_of cr iv authenticated_peer in
        case and_then (map_err from_core r) (\<lambda>response.
             and_then (validate_response_peer cr response authenticated_peer) (\<lambda>_.
             and_then (ensure_peer_capacity st (pm_limits m) peer_hex) (\<lambda>_.
             and_then (ensure_winning_handshake st peer_hex (invite_created_at iv) hid) (\<lambda>_.
             install_record (st\<lparr>local_invite := iv\<rparr>) peer_hex
               \<lparr>handshake_id = hid, handshake_created_at = invite_created_at iv, record_state = state (response_session response),
                invite_response_event_json = None, bootstrap_event_json = None, accepted_response_event_id = Some event_id\<rparr>
               (max_sessions_per_peer (pm_limits m)))))) of
          Inl e \<Rightarrow> (Inl e, m)
        | Inr (_, nxt) \<Rightarrow>
          refresh_and_commit cr api
            (push_seen_event (nxt\<lparr>response_event_peers := bt_insert event_id peer_hex (response_event_peers nxt)\<rparr>)
               event_id (max_seen_event_ids (pm_limits m)), snd (pm_ctx m)) m)"

definition process_out_of_band_response ::
  "'x pairwise_crypto_scheme \<Rightarrow> 's store_api \<Rightarrow> Event \<Rightarrow> PublicKey \<Rightarrow> 's PairwiseManager \<Rightarrow> unit pres \<times> 's PairwiseManager" where
  "process_out_of_band_response cr api ev authenticated_peer m =
     (case response_checks cr ev m of Inl e \<Rightarrow> (Inl e, m)
      | Inr envelope \<Rightarrow>
        let event_id = hex_encode cr (ev_id ev) in
        if has_seen_event (pm_state m) event_id
        then (seen_response (pm_state m) event_id (hex_encode cr authenticated_peer), m)
        else process_new_response cr api event_id envelope authenticated_peer m)"

section \<open>Sending\<close>

text \<open>\<^verbatim>\<open>peers.get_mut(..).and_then(|peer| peer.sessions.get_mut(..))\<close> and the assignment of its state.\<close>

definition set_session_state :: "PairwiseState \<Rightarrow> string \<Rightarrow> nat \<Rightarrow> SessionState \<Rightarrow> PairwiseState pres" where
  "set_session_state st peer_hex i new_state =
     (case bt_get (peers st) peer_hex of None \<Rightarrow> Inl (PwCorruptState ''selected session disappeared'')
      | Some p \<Rightarrow> if i < length (peer_sessions p)
          then Inr (st\<lparr>peers := bt_insert peer_hex (p\<lparr>peer_sessions := (peer_sessions p)[i :=
            (peer_sessions p ! i)\<lparr>record_state := new_state\<rparr>]\<rparr>) (peers st)\<rparr>)
          else Inl (PwCorruptState ''selected session disappeared''))"

definition note_millis :: "u64 option \<Rightarrow> PairwiseState \<Rightarrow> PairwiseState" where
  "note_millis ms st = (case ms of None \<Rightarrow> st | Some t \<Rightarrow> st\<lparr>last_message_millis := max (last_message_millis st) t\<rparr>)"

text \<open>The checks, the plan and the event of a message to a peer.\<close>

definition plan_message ::
  "'x pairwise_crypto_scheme \<Rightarrow> PublicKey \<Rightarrow> UnsignedEvent \<Rightarrow> u64 \<Rightarrow> 's PairwiseManager \<Rightarrow>
   (string \<times> nat \<times> string \<times> SendPlan \<times> Event \<times> string) pres" where
  "plan_message cr peer raw now m =
     (if rumor_pubkey raw \<noteq> pm_public cr m
      then Inl (PwPeerMismatch (hex_encode cr (pm_public cr m)) (hex_encode cr (rumor_pubkey raw)))
      else
        let inner = ensure_id cr raw; peer_hex = hex_encode cr peer in
        if \<not> verify_id cr inner then Inl (PwInvalidEvent ''id'')
        else and_then (ok_or (rumor_id inner) (PwInvalidEvent ''inner event is missing id'')) (\<lambda>inner_id.
          and_then (ok_or (bt_get (peers (pm_state m)) peer_hex) (PwSessionNotReady peer_hex)) (\<lambda>p.
          and_then (ok_or (preferred_send_session_index p) (PwSessionNotReady peer_hex)) (\<lambda>i.
          and_then (ok_or (unsigned_to_vec cr inner) PwSerialization) (\<lambda>payload.
          and_then (map_err from_core (plan_send cr (snd (pm_ctx m)) (session_from_state (record_state (peer_sessions p ! i)))
            payload now)) (\<lambda>plan.
          and_then (map_err from_wire (message_event cr (send_envelope plan))) (\<lambda>ev.
          and_then (validate_relay_publish cr ev) (\<lambda>_.
          and_then (ensure_event_size cr ev (max_event_bytes (pm_limits m)) ''relay event'') (\<lambda>_.
            Inr (hex_encode cr inner_id, i, handshake_id (peer_sessions p ! i), plan, ev, peer_hex))))))))))"

definition send_inner_event ::
  "'x pairwise_crypto_scheme \<Rightarrow> 's store_api \<Rightarrow> PublicKey \<Rightarrow> UnsignedEvent \<Rightarrow> u64 \<Rightarrow> u64 option \<Rightarrow> 's PairwiseManager \<Rightarrow>
   PairwiseSendResult pres \<times> 's PairwiseManager" where
  "send_inner_event cr api peer raw now message_millis m =
     (case and_then (plan_message cr peer raw now m) (\<lambda>(inner_id, i, session_id, plan, ev, peer_hex).
             and_then (set_session_state (pm_state m) peer_hex i (send_next_state plan)) (\<lambda>nxt.
             and_then (ok_or (event_to_json cr ev) PwSerialization) (\<lambda>j.
               Inr (inner_id, session_id, ev, j, nxt)))) of
        Inl e \<Rightarrow> (Inl e, m)
      | Inr (inner_id, session_id, ev, j, nxt) \<Rightarrow>
        (case push_action cr (Publish session_id j (Some inner_id)) (note_millis message_millis nxt, snd (pm_ctx m) + 2) of
           (nxt, draw) \<Rightarrow>
           then_do (commit_next cr api nxt (installed_message_authors m) (m\<lparr>pm_ctx := (fst (pm_ctx m), draw)\<rparr>)) (\<lambda>_ m.
             (Inr \<lparr>sent_inner_event_id = inner_id, sent_outer_event_id = hex_encode cr (ev_id ev)\<rparr>, m))))"

definition validate_and_send_unsigned_event ::
  "'x pairwise_crypto_scheme \<Rightarrow> 's store_api \<Rightarrow> PublicKey \<Rightarrow> UnsignedEvent \<Rightarrow> u64 \<Rightarrow> u64 option \<Rightarrow> 's PairwiseManager \<Rightarrow>
   PairwiseSendResult pres \<times> 's PairwiseManager" where
  "validate_and_send_unsigned_event cr api peer inner now message_millis m =
     (case and_then (ensure_outbound_capacity cr (pm_state m) (pm_limits m) 1) (\<lambda>_.
             and_then (ok_or (unsigned_to_vec cr inner) PwSerialization) (\<lambda>encoded.
             and_then (ensure_size (length encoded) (max_inner_event_bytes (pm_limits m)) ''inner event'') (\<lambda>_.
             map_err from_codec (decode_strict cr encoded)))) of
        Inl e \<Rightarrow> (Inl e, m)
      | Inr decoded \<Rightarrow> send_inner_event cr api peer (decoded_event decoded) now (or_opt message_millis (decoded_millis decoded)) m)"

definition send_unsigned_event where
  "send_unsigned_event cr api peer inner now m = validate_and_send_unsigned_event cr api peer inner now None m"

definition send_text ::
  "'x pairwise_crypto_scheme \<Rightarrow> 's store_api \<Rightarrow> PublicKey \<Rightarrow> string \<Rightarrow> u64 option \<Rightarrow> u64 \<Rightarrow> u64 \<Rightarrow> 's PairwiseManager \<Rightarrow>
   PairwiseSendResult pres \<times> 's PairwiseManager" where
  "send_text cr api peer text expires now millis m =
     (case and_then (ensure_size (length text) (max_text_bytes (pm_limits m)) ''message text'') (\<lambda>_.
             ok_or (checked_add (last_message_millis (pm_state m)) 1) (PwInvalidEvent ''message timestamp exhausted'')) of
        Inl e \<Rightarrow> (Inl e, m)
      | Inr next_millis \<Rightarrow>
        let message_millis = max millis next_millis;
            options = encode_options_new now message_millis;
            options = (case expires of Some e \<Rightarrow> with_expiration options e | None \<Rightarrow> options);
            inner = ensure_id cr (codec_message_event cr (pm_public cr m) text options)
        in validate_and_send_unsigned_event cr api peer inner now (Some message_millis) m)"

section \<open>Receiving\<close>

definition session_candidates :: "PairwiseState \<Rightarrow> (string \<times> nat \<times> SessionRecord) list" where
  "session_candidates st =
     concat (map (\<lambda>(hex, p). map (\<lambda>(i, r). (hex, i, r)) (enumerate 0 (peer_sessions p))) (bt_entries (peers st)))"

text \<open>The two nested loops over peers and sessions, up to the first plan.\<close>

fun try_sessions ::
  "'x session_crypto_scheme \<Rightarrow> MessageEnvelope \<Rightarrow> (string \<times> nat \<times> SessionRecord) list \<Rightarrow> bytes list \<Rightarrow>
   (string \<times> nat \<times> ReceivePlan) option \<times> bytes list" where
  "try_sessions cr envelope [] rng = (None, rng)"
| "try_sessions cr envelope ((hex, i, r) # rest) rng =
     (let session = session_from_state (record_state r) in
      if \<not> matches_sender session (env_sender envelope) then try_sessions cr envelope rest rng
      else case plan_receive cr session rng envelope of
        (Inl _, rng) \<Rightarrow> try_sessions cr envelope rest rng
      | (Inr plan, rng) \<Rightarrow> (Some (hex, i, plan), rng))"

definition incoming_envelope :: "'x pairwise_crypto_scheme \<Rightarrow> Event \<Rightarrow> MessageEnvelope pres" where
  "incoming_envelope cr ev =
     and_then (map_err from_wire (parse_message_event cr ev)) (\<lambda>envelope.
       if env_recipient envelope \<noteq> None then Inl (PwInvalidEvent ''pairwise relay input must not reveal a recipient key'')
       else Inr envelope)"

definition relay_checks :: "'x pairwise_crypto_scheme \<Rightarrow> Event \<Rightarrow> 's PairwiseManager \<Rightarrow> unit pres" where
  "relay_checks cr ev m =
     and_then (ensure_event_size cr ev (max_event_bytes (pm_limits m)) ''relay event'') (\<lambda>_. first_error
       [(ev_kind ev \<noteq> ucast MESSAGE_EVENT_KIND, PwInvalidEvent ''pairwise relay input must be kind 1060''),
        (\<not> event_verify cr ev, PwInvalidEvent ''signature'')])"

text \<open>The next state after a decrypted message, with its delivery if it is due.\<close>

definition receive_message ::
  "'x pairwise_crypto_scheme \<Rightarrow> u64 \<Rightarrow> string \<Rightarrow> string \<times> nat \<times> ReceivePlan \<Rightarrow> 's PairwiseManager \<Rightarrow>
   (PairwiseState \<times> nat) pres" where
  "receive_message cr now event_id = (\<lambda>(peer_hex, i, plan) m.
     and_then (map_err from_codec (decode_strict cr (receive_payload plan))) (\<lambda>decoded.
     and_then (ensure_size (length (receive_payload plan)) (max_inner_event_bytes (pm_limits m)) ''decrypted inner event'') (\<lambda>_.
     and_then (ok_or (pk_parse cr peer_hex) PwInvalidKey) (\<lambda>peer_pubkey.
     if rumor_pubkey (decoded_event decoded) \<noteq> peer_pubkey
     then Inl (PwPeerMismatch peer_hex (hex_encode cr (rumor_pubkey (decoded_event decoded))))
     else and_then (ok_or (map_option (hex_encode cr) (rumor_id (decoded_event decoded)))
         (PwInvalidEvent ''inner event is missing id'')) (\<lambda>inner_id.
       let expires = decoded_expiration decoded;
           should_deliver = (case expires of None \<Rightarrow> True | Some e \<Rightarrow> e > now);
           inner_was_seen = has_seen_inner_event (pm_state m) inner_id in
       if should_deliver \<and> \<not> inner_was_seen \<and> pending_delivery_count (pm_state m) \<ge> max_pending_deliveries (pm_limits m)
       then Inl (PwQueueFull ''delivery'')
       else and_then (set_session_state (pm_state m) peer_hex i (receive_next_state plan)) (\<lambda>nxt.
         let nxt = push_seen_event nxt event_id (max_seen_event_ids (pm_limits m));
             nxt = push_seen_inner_event nxt inner_id (max_seen_inner_event_ids (pm_limits m)) in
         if should_deliver \<and> \<not> inner_was_seen
         then and_then (ok_or (unsigned_to_json cr (decoded_event decoded)) PwSerialization) (\<lambda>j.
           Inr (push_action cr (Delivery peer_hex j inner_id event_id expires) (nxt, snd (pm_ctx m))))
         else Inr (nxt, snd (pm_ctx m))))))))"

definition process_event_at ::
  "'x pairwise_crypto_scheme \<Rightarrow> 's store_api \<Rightarrow> Event \<Rightarrow> u64 \<Rightarrow> 's PairwiseManager \<Rightarrow> unit pres \<times> 's PairwiseManager" where
  "process_event_at cr api ev now m =
     (case relay_checks cr ev m of Inl e \<Rightarrow> (Inl e, m)
      | Inr _ \<Rightarrow>
        let event_id = hex_encode cr (ev_id ev) in
        if has_seen_event (pm_state m) event_id then (Inr (), m)
        else case incoming_envelope cr ev of Inl e \<Rightarrow> (Inl e, m)
          | Inr envelope \<Rightarrow>
            (case try_sessions cr envelope (session_candidates (pm_state m)) (fst (pm_ctx m)) of
               (found, rng) \<Rightarrow>
               let m = m\<lparr>pm_ctx := (rng, snd (pm_ctx m))\<rparr> in
               case found of
                 None \<Rightarrow> (Inl (PwInvalidEvent ''message does not match an authenticated pairwise session''), m)
               | Some plan \<Rightarrow>
                 (case receive_message cr now event_id plan m of Inl e \<Rightarrow> (Inl e, m)
                  | Inr nd \<Rightarrow> refresh_and_commit cr api nd m)))"

section \<open>The queue of actions\<close>

definition expired_delivery :: "u64 \<Rightarrow> PairwiseAction \<Rightarrow> bool" where
  "expired_delivery now a = (case action_kind a of Delivery _ _ _ _ (Some e) \<Rightarrow> e \<le> now | _ \<Rightarrow> False)"

definition is_reportable :: "'x pairwise_crypto_scheme \<Rightarrow> PairwiseAction \<Rightarrow> bool" where
  "is_reportable cr a = (case action_kind a of
     Publish _ j _ \<Rightarrow> private_event_json cr j | OutOfBand _ _ j \<Rightarrow> private_event_json cr j | _ \<Rightarrow> True)"

definition pending_actions_at ::
  "'x pairwise_crypto_scheme \<Rightarrow> 's store_api \<Rightarrow> u64 \<Rightarrow> 's PairwiseManager \<Rightarrow> PairwiseAction list pres \<times> 's PairwiseManager" where
  "pending_actions_at cr api now m =
     (let kept = filter (\<lambda>a. \<not> expired_delivery now a) (pending_actions (pm_state m)) in
      then_do (if length kept \<noteq> length (pending_actions (pm_state m))
           then commit_next cr api ((pm_state m)\<lparr>pending_actions := kept\<rparr>) (installed_message_authors m) m
           else (Inr (), m)) (\<lambda>_ m.
        (Inr (filter (is_reportable cr) (pending_actions (pm_state m))), m)))"

definition ack_actions ::
  "'x pairwise_crypto_scheme \<Rightarrow> 's store_api \<Rightarrow> string list \<Rightarrow> 's PairwiseManager \<Rightarrow> unit pres \<times> 's PairwiseManager" where
  "ack_actions cr api ids m =
     (if ids = [] then (Inr (), m)
      else
        let kept = filter (\<lambda>a. action_id a \<notin> set ids) (pending_actions (pm_state m)) in
        if length kept = length (pending_actions (pm_state m)) then (Inr (), m)
        else commit_next cr api ((pm_state m)\<lparr>pending_actions := kept\<rparr>) (installed_message_authors m) m)"

definition retire_peer ::
  "'x pairwise_crypto_scheme \<Rightarrow> 's store_api \<Rightarrow> PublicKey \<Rightarrow> 's PairwiseManager \<Rightarrow> bool pres \<times> 's PairwiseManager" where
  "retire_peer cr api peer m =
     (let peer_hex = hex_encode cr peer in
      case bt_get (peers (pm_state m)) peer_hex of None \<Rightarrow> (Inr False, m)
      | Some p \<Rightarrow>
        let nxt = retire_sessions ((pm_state m)\<lparr>peers := bt_remove peer_hex (peers (pm_state m))\<rparr>) (peer_sessions p);
            nxt = nxt\<lparr>pending_actions := filter (\<lambda>a. case action_kind a of
              Delivery hex _ _ _ _ \<Rightarrow> hex \<noteq> peer_hex | _ \<Rightarrow> True) (pending_actions nxt)\<rparr>
        in then_do (refresh_and_commit cr api (nxt, snd (pm_ctx m)) m) (\<lambda>_ m. (Inr True, m)))"

section \<open>Queries\<close>

definition known_peer_pubkeys :: "'s PairwiseManager \<Rightarrow> string list" where
  "known_peer_pubkeys m = bt_keys (peers (pm_state m))"

definition session_info :: "'x crypto_scheme \<Rightarrow> PublicKey \<Rightarrow> 's PairwiseManager \<Rightarrow> PairwiseSessionInfo option" where
  "session_info cr peer m =
     map_option (\<lambda>p. let tracked = map (hex_encode cr) (tracked_sender_pubkeys cr p) in
       \<lparr>send_ready = preferred_send_session_index p \<noteq> None, receive_ready = tracked \<noteq> [],
        info_tracked_sender_pubkeys = tracked\<rparr>) (bt_get (peers (pm_state m)) (hex_encode cr peer))"

definition total_sessions :: "'s PairwiseManager \<Rightarrow> nat" where
  "total_sessions m = sum_list (map (\<lambda>p. length (peer_sessions p)) (bt_values (peers (pm_state m))))"

end
