(* ===== verification/Pairwise_Commit.thy ===== *)
theory Pairwise_Commit
  imports Pairwise_Manager Session_Sync Wire_Properties
begin

text \<open>
  The transactions of the pairwise runtime: a sealed state opens to itself, and every operation either
  leaves the manager as it was or commits exactly one next state. The lemmas in the context of \<open>pairwise_store\<close> follow every operation and every
  run, restarts included, on any store that keeps its contract.
\<close>

declare split_paired_All [simp del] split_paired_Ex [simp del]

section \<open>What the runtime relies on\<close>

text \<open>The JSON of a state is read back, the cipher decrypts what it encrypted and adds its tag, and public keys
  have 32 bytes.\<close>

definition pairwise_laws :: "'x pairwise_crypto_scheme \<Rightarrow> bool" where
  "pairwise_laws cr \<longleftrightarrow>
     (\<forall>st bs. state_to_vec cr st = Some bs \<longrightarrow> state_from_slice cr bs = Some st) \<and>
     (\<forall>k n ad p c. aead_encrypt cr k n ad p = Some c \<longrightarrow> aead_decrypt cr k n ad c = Some p \<and> length c = length p + AEAD_TAG_BYTES) \<and>
     (\<forall>sk. length (pk_of_sk cr sk) = 32)"

lemma storage_header_parts:
  assumes "length ident = 32" "length nonce = 24"
  shows "length (storage_header gen ident nonce) = STORAGE_HEADER_BYTES"
    and "take (length STORAGE_MAGIC) (storage_header gen ident nonce @ r) = STORAGE_MAGIC"
    and "of_be_bytes (take 4 (drop 8 (storage_header gen ident nonce @ r))) = STORAGE_FORMAT_VERSION"
    and "of_be_bytes (take 8 (drop 12 (storage_header gen ident nonce @ r))) = gen"
    and "take 32 (drop 20 (storage_header gen ident nonce @ r)) = ident"
    and "take 24 (drop 52 (storage_header gen ident nonce)) = nonce"
proof -
  have magic: "length STORAGE_MAGIC = 8" by (simp add: STORAGE_MAGIC_def)
  have version: "of_be_bytes (be_bytes 4 STORAGE_FORMAT_VERSION) = STORAGE_FORMAT_VERSION"
    by (rule of_be_bytes_be_bytes_nat) (simp_all add: STORAGE_FORMAT_VERSION_def)
  have gen: "of_be_bytes (be_bytes 8 gen) = gen"
    using unsigned_less [of gen] by (intro of_be_bytes_be_bytes_nat) simp_all
  show "length (storage_header gen ident nonce) = STORAGE_HEADER_BYTES"
    by (simp add: storage_header_def magic assms STORAGE_HEADER_BYTES_def del: be_bytes.simps)
  show "take (length STORAGE_MAGIC) (storage_header gen ident nonce @ r) = STORAGE_MAGIC"
    by (simp add: storage_header_def)
  show "of_be_bytes (take 4 (drop 8 (storage_header gen ident nonce @ r))) = STORAGE_FORMAT_VERSION"
    "of_be_bytes (take 8 (drop 12 (storage_header gen ident nonce @ r))) = gen"
    "take 32 (drop 20 (storage_header gen ident nonce @ r)) = ident"
    "take 24 (drop 52 (storage_header gen ident nonce)) = nonce"
    using version gen by (simp_all add: storage_header_def magic assms del: be_bytes.simps)
qed

lemma seal_open:
  assumes laws: "pairwise_laws cr" and sealed: "seal_state cr st sk (max_persisted_state_bytes l) nonce = Inr payload"
    and valid: "validate cr (pk_of_sk cr sk) l st = Inr ()" and nonce: "length nonce = 24"
  shows "open_state cr payload sk l = Inr st" and "\<not> is_legacy_state_payload payload"
proof -
  let ?max = "max_persisted_state_bytes l"
  let ?header = "storage_header (generation st) (pk_of_sk cr sk) nonce"
  obtain plaintext key ciphertext where p: "state_to_vec cr st = Some plaintext" "storage_key cr sk = Inr key"
    "aead_encrypt cr key nonce ?header plaintext = Some ciphertext" "payload = ?header @ ciphertext"
    "length plaintext \<le> ?max" "STORAGE_HEADER_BYTES + length plaintext + AEAD_TAG_BYTES \<le> ?max"
    using sealed by (auto simp: seal_state_def result_simps ensure_state_size_def checked_usize_add_def Let_def
      split: if_splits option.splits)
  have ident: "length (pk_of_sk cr sk) = 32" using laws by (simp add: pairwise_laws_def)
  have c: "aead_decrypt cr key nonce ?header ciphertext = Some plaintext" "length ciphertext = length plaintext + AEAD_TAG_BYTES"
    "state_from_slice cr plaintext = Some st"
    using laws p(1,3) by (auto simp: pairwise_laws_def)
  note header = storage_header_parts [OF ident nonce]
  have "open_current_state cr payload sk l = Inr st"
    using header c p valid
    by (simp add: open_current_state_def p(4) Let_def ensure_state_size_def decode_and_validate_state_def)
  then show "open_state cr payload sk l = Inr st"
    using header(1,2) c(2) p(4,6) by (simp add: open_state_def ensure_state_size_def)
  show "\<not> is_legacy_state_payload payload" using header(2) p(4) by (simp add: is_legacy_state_payload_def)
qed

lemma length_fill_24 [simp]: "length (fill_24 b) = 24"
  by (simp add: fill_24_def)

section \<open>What a committed state may change\<close>

text \<open>
  Every next state keeps the subscription id, never turns the message clock back, and gives a peer a single new
  session or as many sessions as before; the ids of seen events stay distinct. The authors committed with it are the tracked keys of the next
  state, or those of the current state if these are the same.
\<close>

definition peers_step :: "PairwiseState \<Rightarrow> PairwiseState \<Rightarrow> bool" where
  "peers_step st nxt \<longleftrightarrow> (\<forall>hex p. bt_get (peers nxt) hex = Some p \<longrightarrow> (\<exists>r. peer_sessions p = [r])
     \<or> (\<exists>p0. bt_get (peers st) hex = Some p0 \<and> length (peer_sessions p) = length (peer_sessions p0)))"

definition seen_step :: "PairwiseState \<Rightarrow> PairwiseState \<Rightarrow> bool" where
  "seen_step st nxt \<longleftrightarrow> (distinct (seen_event_ids st) \<longrightarrow> distinct (seen_event_ids nxt))"

definition call_effect :: "'x pairwise_crypto_scheme \<Rightarrow> 's PairwiseManager \<Rightarrow> PairwiseState \<Rightarrow> string list \<Rightarrow> bool" where
  "call_effect cr m nxt authors \<longleftrightarrow> peers_step (pm_state m) nxt
     \<and> message_subscription_id nxt = message_subscription_id (pm_state m)
     \<and> last_message_millis (pm_state m) \<le> last_message_millis nxt \<and> seen_step (pm_state m) nxt
     \<and> (message_authors cr (pm_limits m) nxt = Inr authors
        \<or> authors = installed_message_authors m \<and> message_authors cr (pm_limits m) nxt = message_authors cr (pm_limits m) (pm_state m))"

lemma message_authors_peers:
  assumes "map (tracked_sender_pubkeys cr) (bt_values (peers st')) = map (tracked_sender_pubkeys cr) (bt_values (peers st))"
  shows "message_authors cr l st' = message_authors cr l st"
proof -
  have "map f ps = map f qs \<Longrightarrow> fold_res (\<lambda>p. g (f p)) ps s = fold_res (\<lambda>p. g (f p)) qs s"
    for f :: "PeerState \<Rightarrow> PublicKey list" and g :: "PublicKey list \<Rightarrow> (string, unit) btmap \<Rightarrow> (string, unit) btmap pres" and ps qs s
  proof (induction ps arbitrary: qs s)
    case (Cons p ps)
    then obtain q qs' where "qs = q # qs'" "f p = f q" "map f ps = map f qs'" by (cases qs) auto
    moreover from this(3) have "fold_res (\<lambda>p. g (f p)) ps = fold_res (\<lambda>p. g (f p)) qs'" by (intro ext Cons.IH)
    ultimately show ?case by simp
  qed simp
  from this [OF assms, where g = "\<lambda>ks authors. let authors' = fold bs_insert (map (hex_encode cr) ks) authors in
      if bt_len authors' > max_subscription_authors l then Inl (PwQueueFull ''subscription-authors'') else Inr authors'"]
  show ?thesis by (simp add: message_authors_def)
qed

lemma message_authors_update [simp]:
  "message_authors cr l (st\<lparr>pending_actions := acts\<rparr>) = message_authors cr l st"
  "message_authors cr l (st\<lparr>last_message_millis := t\<rparr>) = message_authors cr l st"
  "message_authors cr l (st\<lparr>generation := g\<rparr>) = message_authors cr l st"
  "message_authors cr l (st\<lparr>local_invite := iv\<rparr>) = message_authors cr l st"
  by (rule message_authors_peers, simp)+

lemma al_insert_values:
  "ordered_keys xs \<Longrightarrow> al_get xs k = Some w \<Longrightarrow> f v = f w \<Longrightarrow> map (\<lambda>e. f (snd e)) (al_insert k v xs) = map (\<lambda>e. f (snd e)) xs"
  by (induction k v xs rule: al_insert.induct) (auto split: if_splits dest!: al_get_SomeD)

lemma bt_values_insert:
  "bt_get m k = Some w \<Longrightarrow> f v = f w \<Longrightarrow> map f (bt_values (bt_insert k v m)) = map f (bt_values m)"
  using al_insert_values [of "bt_entries m" k w f v] bt_keys_ordered [of m]
  by (simp add: bt_values_def bt_entries_insert bt_get_code bt_keys_def comp_def)

lemma peers_step_same: "peers nxt = peers st \<Longrightarrow> peers_step st nxt"
  by (simp add: peers_step_def)

lemma set_session_stateE:
  assumes "set_session_state st hex i new = Inr nxt"
  obtains p where "bt_get (peers st) hex = Some p" "i < length (peer_sessions p)"
    "nxt = st\<lparr>peers := bt_insert hex (p\<lparr>peer_sessions := (peer_sessions p)[i := (peer_sessions p ! i)\<lparr>record_state := new\<rparr>]\<rparr>) (peers st)\<rparr>"
  using assms by (auto simp: set_session_state_def split: option.splits if_splits)

lemma set_session_state_step: "set_session_state st hex i new = Inr nxt \<Longrightarrow> peers_step st nxt"
  by (elim set_session_stateE) (auto simp: peers_step_def)

text \<open>A send leaves the tracked keys alone.\<close>

lemma session_sender_keys_frame: "send_frame st st' \<Longrightarrow> session_sender_keys st' = session_sender_keys st"
  by (simp add: send_frame_def session_sender_keys_def)

lemma set_session_state_authors:
  assumes "set_session_state st hex i new = Inr nxt" "bt_get (peers st) hex = Some p"
    and "session_sender_keys new = session_sender_keys (record_state (peer_sessions p ! i))"
  shows "message_authors cr l nxt = message_authors cr l st"
proof (rule message_authors_peers)
  let ?p = "p\<lparr>peer_sessions := (peer_sessions p)[i := (peer_sessions p ! i)\<lparr>record_state := new\<rparr>]\<rparr>"
  have nxt: "nxt = st\<lparr>peers := bt_insert hex ?p (peers st)\<rparr>" using assms(1,2) by (elim set_session_stateE) auto
  have "map (\<lambda>r. session_sender_keys (record_state r)) (peer_sessions ?p) = map (\<lambda>r. session_sender_keys (record_state r)) (peer_sessions p)"
    using assms(3) by (simp add: map_update list_update_same_conv [symmetric])
      (metis (mono_tags, lifting) length_map list_update_beyond list_update_id linorder_not_less nth_map)
  then have "map (\<lambda>r. List.map_filter g (session_sender_keys (record_state r))) (peer_sessions ?p)
      = map (\<lambda>r. List.map_filter g (session_sender_keys (record_state r))) (peer_sessions p)" for g :: "DevicePubkey \<Rightarrow> PublicKey option"
    by (auto dest!: arg_cong [where f = "map (List.map_filter g)"] simp: comp_def)
  then have "tracked_sender_pubkeys cr ?p = tracked_sender_pubkeys cr p" by (simp add: tracked_sender_pubkeys_def)
  then show "map (tracked_sender_pubkeys cr) (bt_values (peers nxt)) = map (tracked_sender_pubkeys cr) (bt_values (peers st))"
    using bt_values_insert [OF assms(2)] by (simp add: nxt)
qed

lemma retain_seen_sets:
  "retain_seen active excess xs = (kept, dropped) \<Longrightarrow> set kept \<union> set dropped = set xs \<and> set dropped \<inter> set active = {}"
  by (induction active excess xs arbitrary: kept dropped rule: retain_seen.induct) (auto split: if_splits prod.splits)

lemma retain_seen_distinct: "retain_seen active excess xs = (kept, dropped) \<Longrightarrow> distinct xs \<Longrightarrow> distinct kept"
  by (induction active excess xs arbitrary: kept dropped rule: retain_seen.induct)
    (auto split: if_splits prod.splits, (use retain_seen_sets in blast)+)

lemma retain_seen_length:
  "retain_seen active excess xs = (kept, dropped) \<Longrightarrow>
   length kept + min excess (length (filter (\<lambda>x. x \<notin> set active) xs)) = length xs"
  by (induction active excess xs arbitrary: kept dropped rule: retain_seen.induct) (auto split: if_splits prod.splits)

lemma push_seen_event_distinct [simp]:
  "distinct (seen_event_ids st) \<Longrightarrow> distinct (seen_event_ids (push_seen_event st e n))"
  by (auto simp: push_seen_event_def Let_def dest: retain_seen_distinct split: prod.splits)

lemma push_seen_keeps [simp]:
  "peers (push_seen_event st e n) = peers st" "message_subscription_id (push_seen_event st e n) = message_subscription_id st"
  "last_message_millis (push_seen_event st e n) = last_message_millis st"
  "pending_actions (push_seen_event st e n) = pending_actions st"
  by (simp_all add: push_seen_event_def Let_def split: prod.splits)

lemma push_seen_inner_keeps [simp]:
  "peers (push_seen_inner_event st e n) = peers st"
  "message_subscription_id (push_seen_inner_event st e n) = message_subscription_id st"
  "last_message_millis (push_seen_inner_event st e n) = last_message_millis st"
  "pending_actions (push_seen_inner_event st e n) = pending_actions st"
  "seen_event_ids (push_seen_inner_event st e n) = seen_event_ids st"
  by (simp_all add: push_seen_inner_event_def Let_def)

lemma push_action_simps [simp]:
  "fst (push_action cr kind nd) = (fst nd)\<lparr>pending_actions := pending_actions (fst nd) @ [next_action cr (snd nd) (fst nd) kind]\<rparr>"
  "snd (push_action cr kind nd) = Suc (snd nd)"
  by (simp_all add: push_action_def split_beta)

lemma retire_sessions_keeps [simp]:
  "peers (retire_sessions st rs) = peers st" "message_subscription_id (retire_sessions st rs) = message_subscription_id st"
  "last_message_millis (retire_sessions st rs) = last_message_millis st"
  "response_event_peers (retire_sessions st rs) = response_event_peers st" "seen_event_ids (retire_sessions st rs) = seen_event_ids st"
  by (simp_all add: retire_sessions_def)

text \<open>What a refreshed next state has to satisfy.\<close>

definition state_step :: "PairwiseState \<Rightarrow> PairwiseState \<Rightarrow> bool" where
  "state_step st nxt \<longleftrightarrow> peers_step st nxt \<and> message_subscription_id nxt = message_subscription_id st
     \<and> last_message_millis st \<le> last_message_millis nxt \<and> seen_step st nxt"

lemma install_sessionE:
  assumes "install_session p r n = (Inr (created, retired), p')"
  shows "p' = p\<lparr>peer_sessions := [r]\<rparr>" "retired = peer_sessions p"
  using assms by (auto simp: install_session_def Let_def split: if_splits)

lemma install_record_step:
  assumes "install_record st hex r n = Inr (created, nxt)"
  shows "state_step st nxt"
proof -
  obtain retired p where p: "install_session (peer_or_new st hex) r n = (Inr (created, retired), p)"
      "nxt = retire_sessions (st\<lparr>peers := bt_insert hex p (peers st)\<rparr>) retired"
    using assms by (auto simp: install_record_def split: prod.splits sum.splits)
  have "peer_sessions p = [r]" using install_sessionE(1) [OF p(1)] by simp
  then show ?thesis by (auto simp: p(2) state_step_def peers_step_def seen_step_def split: if_splits)
qed

section \<open>Subscription refreshes\<close>

definition is_subscription :: "PairwiseAction \<Rightarrow> bool" where
  "is_subscription a = (case action_kind a of Subscribe _ _ \<Rightarrow> True | Unsubscribe _ \<Rightarrow> True | _ \<Rightarrow> False)"

lemma next_action_kind [simp]: "action_kind (next_action cr draw st kind) = kind"
  by (simp add: next_action_def)

text \<open>A refresh changes subscription actions only.\<close>

lemma refresh_keeps:
  assumes "refresh_subscription_actions cr installed force l (st, draw) = Inr (authors, st', draw')"
  shows "st' = st\<lparr>pending_actions := pending_actions st'\<rparr>"
    and "filter (\<lambda>a. \<not> is_subscription a) (pending_actions st') = filter (\<lambda>a. \<not> is_subscription a) (pending_actions st)"
    and "message_authors cr l st = Inr authors"
proof -
  let ?keep = "\<lambda>a. case action_kind a of Subscribe pending _ \<Rightarrow> pending \<noteq> message_subscription_id st
    | Unsubscribe pending \<Rightarrow> pending \<noteq> message_subscription_id st | _ \<Rightarrow> True"
  have kept: "filter (\<lambda>a. \<not> is_subscription a) (filter ?keep xs) = filter (\<lambda>a. \<not> is_subscription a) xs" for xs
    by (auto simp: is_subscription_def intro!: filter_cong split: PairwiseActionKind.splits)
  obtain pubkeys expected where ok: "message_authors cr l st = Inr authors" "parse_all cr authors = Some pubkeys"
      "message_filter_json cr pubkeys = Some expected"
    using assms by (auto simp: refresh_subscription_actions_def result_simps Let_def split: if_splits prod.splits)
  have "st' = st \<or> (\<exists>acts. st' = st\<lparr>pending_actions := filter ?keep (pending_actions st) @ acts\<rparr> \<and> list_all is_subscription acts)"
    using assms by (cases "st' = st", simp, intro disjI2 exI [of _ "drop (length (filter ?keep (pending_actions st))) (pending_actions st')"])
      (auto simp: refresh_subscription_actions_def ok Let_def push_action_def is_subscription_def split: if_splits)
  then show "st' = st\<lparr>pending_actions := pending_actions st'\<rparr>"
    and "filter (\<lambda>a. \<not> is_subscription a) (pending_actions st') = filter (\<lambda>a. \<not> is_subscription a) (pending_actions st)"
    using kept [of "pending_actions st"] by (auto simp: list_all_iff filter_empty_conv)
  show "message_authors cr l st = Inr authors" by (rule ok(1))
qed

section \<open>Transactions\<close>

text \<open>The manager with another random source, and what an operation may do with a manager.\<close>

abbreviation with_ctx :: "'s PairwiseManager \<Rightarrow> ctx \<Rightarrow> 's PairwiseManager" where
  "with_ctx m c \<equiv> m\<lparr>pm_ctx := c\<rparr>"

definition transaction ::
  "'x pairwise_crypto_scheme \<Rightarrow> 's store_api \<Rightarrow> 's PairwiseManager \<Rightarrow> 'a pres \<times> 's PairwiseManager \<Rightarrow> bool" where
  "transaction cr api m = (\<lambda>(r, m'). (\<exists>c. m' = with_ctx m c)
     \<or> (\<exists>nxt authors c u. commit_next cr api nxt authors (with_ctx m c) = (u, m') \<and> (is_ok u \<longleftrightarrow> is_ok r) \<and> call_effect cr m nxt authors))"

lemma with_ctx_same: "with_ctx m (pm_ctx m) = m"
  by simp

lemma call_effect_ctx [simp]: "call_effect cr (with_ctx m c) nxt authors \<longleftrightarrow> call_effect cr m nxt authors"
  by (simp add: call_effect_def)

lemma transaction_same [simp]: "transaction cr api m (r, m)" "transaction cr api m (r, with_ctx m c)"
  by (auto simp: transaction_def intro: exI [of _ "pm_ctx m"])

lemma transaction_commit:
  assumes "call_effect cr m nxt authors"
  shows "transaction cr api m (commit_next cr api nxt authors (with_ctx m c))"
proof -
  obtain u m' where "commit_next cr api nxt authors (with_ctx m c) = (u, m')"
    by (cases "commit_next cr api nxt authors (with_ctx m c)")
  then show ?thesis using assms unfolding transaction_def by (simp only: prod.case) blast
qed

lemma queue_effect: "call_effect cr m ((pm_state m)\<lparr>pending_actions := acts\<rparr>) (installed_message_authors m)"
  by (simp add: call_effect_def peers_step_same seen_step_def)

lemma transaction_queue: "transaction cr api m (commit_next cr api ((pm_state m)\<lparr>pending_actions := acts\<rparr>) (installed_message_authors m) (with_ctx m c))"
  by (rule transaction_commit [OF queue_effect])

lemma transaction_queue_same: "transaction cr api m (commit_next cr api ((pm_state m)\<lparr>pending_actions := acts\<rparr>) (installed_message_authors m) m)"
  using transaction_queue [of cr api m acts "pm_ctx m"] by simp

lemma transaction_ctx: "transaction cr api (with_ctx m c) x \<Longrightarrow> transaction cr api m x"
  by (cases x) (auto simp: transaction_def)

lemma transaction_then:
  assumes "transaction cr api m x" "\<And>v m'. \<exists>w. f v m' = (Inr w, m')"
  shows "transaction cr api m (then_do x f)"
proof (cases "fst x")
  case (Inl e)
  then show ?thesis using assms(1) by (cases x) (auto simp: transaction_def)
next
  case (Inr v)
  then obtain m' where x: "x = (Inr v, m')" by (cases x) auto
  obtain w where "f v m' = (Inr w, m')" using assms(2) by blast
  then show ?thesis using assms(1) x by (auto simp: transaction_def)
qed

lemma transaction_first:
  assumes "\<exists>r c. x = (r, with_ctx m c)" "\<And>v c. transaction cr api m (f v (with_ctx m c))"
  shows "transaction cr api m (then_do x f)"
proof -
  obtain r c where x: "x = (r, with_ctx m c)" using assms(1) by blast
  then show ?thesis using assms(2) by (cases r) auto
qed

lemma refresh_and_commit_transaction:
  assumes "state_step (pm_state m) (fst nd)"
  shows "transaction cr api m (refresh_and_commit cr api nd m)"
proof (cases "refresh_subscription_actions cr (installed_message_authors m) False (pm_limits m) nd")
  case (Inr x)
  obtain authors nxt draw where x: "x = (authors, nxt, draw)" by (cases x)
  obtain st0 d0 where nd: "nd = (st0, d0)" by (cases nd)
  note r = Inr [unfolded x nd]
  have nxt: "nxt = st0\<lparr>pending_actions := pending_actions nxt\<rparr>" by (rule refresh_keeps(1) [OF r])
  have "peers nxt = peers st0" "message_subscription_id nxt = message_subscription_id st0"
      "last_message_millis nxt = last_message_millis st0" "seen_event_ids nxt = seen_event_ids st0"
    by (subst nxt, simp)+
  moreover have "message_authors cr (pm_limits m) nxt = Inr authors"
    using refresh_keeps(3) [OF r] by (subst nxt) simp
  ultimately have "call_effect cr m nxt authors"
    using assms by (simp add: call_effect_def state_step_def nd peers_step_def seen_step_def)
  then show ?thesis by (simp add: refresh_and_commit_def Inr x transaction_commit)
qed (simp add: refresh_and_commit_def)

lemma accept_invite_transaction: "transaction cr api m (accept_invite cr api iv peer now m)"
proof -
  have again: "transaction cr api m (accept_invite_again cr api hex hid ev m)" for hex hid ev
    unfolding accept_invite_again_def Let_def
    by (auto intro!: transaction_then transaction_queue simp: push_action_def split: sum.splits prod.splits)
  have start: "\<exists>r c. start_handshake cr iv now m = (r, with_ctx m c)"
    by (auto simp: start_handshake_def split: prod.splits sum.splits)
  have new: "transaction cr api m (accept_invite_new cr api iv hex hid now m)" for hex hid
    unfolding accept_invite_new_def
    by (auto intro!: transaction_first [OF start] transaction_ctx [OF transaction_then [OF refresh_and_commit_transaction]]
      simp: state_step_def peers_step_def seen_step_def dest!: install_record_step split: sum.splits prod.splits)
  show ?thesis
    using again new by (auto simp: accept_invite_def Let_def split: sum.splits option.splits)
qed

lemma accept_invite_from_event_transaction: "transaction cr api m (accept_invite_from_event cr api ev peer now m)"
  using accept_invite_transaction by (auto simp: accept_invite_from_event_def split: sum.splits)

lemma process_response_transaction: "transaction cr api m (process_out_of_band_response cr api ev peer m)"
proof -
  have "transaction cr api m (process_new_response cr api eid env peer m)" for eid env
    unfolding process_new_response_def Let_def
    by (auto intro!: transaction_ctx [OF refresh_and_commit_transaction] simp: state_step_def peers_step_def seen_step_def result_simps
      dest!: install_record_step split: prod.splits sum.splits)
  then show ?thesis by (auto simp: process_out_of_band_response_def Let_def split: sum.splits)
qed

lemma note_millis_simps [simp]:
  "peers (note_millis ms st) = peers st" "message_subscription_id (note_millis ms st) = message_subscription_id st"
  "message_authors cr l (note_millis ms st) = message_authors cr l st" "seen_event_ids (note_millis ms st) = seen_event_ids st"
  by (simp_all add: note_millis_def split: option.splits)

lemma send_effect:
  assumes "plan_message cr peer raw now m = Inr (inner_id, i, sid, plan, ev, hex)"
    and "set_session_state (pm_state m) hex i (send_next_state plan) = Inr nxt"
  shows "call_effect cr m ((note_millis ms nxt)\<lparr>pending_actions := acts\<rparr>) (installed_message_authors m)"
proof -
  obtain p payload where p: "bt_get (peers (pm_state m)) hex = Some p"
    "plan_send cr (snd (pm_ctx m)) (session_from_state (record_state (peer_sessions p ! i))) payload now = Inr plan"
    using assms(1) by (auto simp: plan_message_def Let_def result_simps split: if_splits)
  have "session_sender_keys (send_next_state plan) = session_sender_keys (record_state (peer_sessions p ! i))"
    using session_sender_keys_frame [OF plan_send_frame [OF p(2)]] by (simp add: session_from_state_def)
  then have "message_authors cr (pm_limits m) nxt = message_authors cr (pm_limits m) (pm_state m)"
    by (rule set_session_state_authors [OF assms(2) p(1)])
  moreover have "peers_step (pm_state m) nxt" by (rule set_session_state_step [OF assms(2)])
  moreover have "message_subscription_id nxt = message_subscription_id (pm_state m)"
    "last_message_millis nxt = last_message_millis (pm_state m)" "seen_event_ids nxt = seen_event_ids (pm_state m)"
    using assms(2) by (auto elim: set_session_stateE)
  ultimately show ?thesis by (auto simp: call_effect_def peers_step_def seen_step_def note_millis_def split: option.splits)
qed

lemma send_transaction: "transaction cr api m (validate_and_send_unsigned_event cr api peer inner now ms m)"
proof -
  have "transaction cr api m (send_inner_event cr api peer raw now ms' m)" for raw ms'
    unfolding send_inner_event_def
    by (auto intro!: transaction_then transaction_commit simp: result_simps push_action_def send_effect split: prod.splits sum.splits)
  then show ?thesis by (auto simp: validate_and_send_unsigned_event_def split: sum.splits)
qed

lemma send_text_transaction: "transaction cr api m (send_text cr api peer text expires now ms m)"
  using send_transaction by (auto simp: send_text_def Let_def split: sum.splits)

lemma send_unsigned_event_transaction: "transaction cr api m (send_unsigned_event cr api peer inner now m)"
  unfolding send_unsigned_event_def by (rule send_transaction)

lemma receive_message_step:
  assumes "receive_message cr now eid (hex, i, plan) m = Inr nd"
  shows "state_step (pm_state m) (fst nd)"
proof -
  obtain nxt where nxt: "set_session_state (pm_state m) hex i (receive_next_state plan) = Inr nxt"
    "peers (fst nd) = peers nxt" "message_subscription_id (fst nd) = message_subscription_id nxt"
    "last_message_millis (fst nd) = last_message_millis nxt" "seen_step nxt (fst nd)"
    using assms by (auto simp: receive_message_def Let_def result_simps seen_step_def split: if_splits)
  have "peers_step (pm_state m) nxt" by (rule set_session_state_step [OF nxt(1)])
  moreover have "message_subscription_id nxt = message_subscription_id (pm_state m)"
    "last_message_millis nxt = last_message_millis (pm_state m)" "seen_event_ids nxt = seen_event_ids (pm_state m)"
    using nxt(1) by (auto elim: set_session_stateE)
  ultimately show ?thesis using nxt(2-) by (simp add: state_step_def peers_step_def seen_step_def)
qed

lemma process_event_transaction: "transaction cr api m (process_event_at cr api ev now m)"
  unfolding process_event_at_def Let_def
  by (auto intro!: transaction_ctx [OF refresh_and_commit_transaction] dest: receive_message_step
    split: prod.splits sum.splits option.splits)

lemma pending_actions_transaction: "transaction cr api m (pending_actions_at cr api now m)"
  unfolding pending_actions_at_def Let_def by (auto intro!: transaction_then transaction_queue_same)

lemma ack_transaction: "transaction cr api m (ack_actions cr api ids m)"
  unfolding ack_actions_def Let_def by (auto intro!: transaction_queue_same)

lemma retire_peer_transaction: "transaction cr api m (retire_peer cr api peer m)"
  unfolding retire_peer_def Let_def
  by (auto intro!: transaction_then refresh_and_commit_transaction simp: state_step_def peers_step_def seen_step_def split: option.splits if_splits)

lemmas transactions = accept_invite_transaction accept_invite_from_event_transaction process_response_transaction
  send_text_transaction send_unsigned_event_transaction process_event_transaction pending_actions_transaction
  ack_transaction retire_peer_transaction

section \<open>Runs\<close>

datatype pairwise_call =
    AcceptInvite Invite PublicKey u64
  | AcceptInviteEvent Event PublicKey u64
  | ProcessResponse Event PublicKey
  | SendText PublicKey string "u64 option" u64 u64
  | SendEvent PublicKey UnsignedEvent u64
  | ProcessEvent Event u64
  | PendingActions u64
  | AckActions "string list"
  | RetirePeer PublicKey

text \<open>Whether a call succeeds, and the manager after it.\<close>

definition outcome :: "'a pres \<times> 's PairwiseManager \<Rightarrow> unit pres \<times> 's PairwiseManager" where
  "outcome x = (and_then (fst x) (\<lambda>_. Inr ()), snd x)"

definition do_call ::
  "'x pairwise_crypto_scheme \<Rightarrow> 's store_api \<Rightarrow> pairwise_call \<Rightarrow> 's PairwiseManager \<Rightarrow> unit pres \<times> 's PairwiseManager" where
  "do_call cr api call m = (case call of
     AcceptInvite iv peer now \<Rightarrow> outcome (accept_invite cr api iv peer now m)
   | AcceptInviteEvent ev peer now \<Rightarrow> outcome (accept_invite_from_event cr api ev peer now m)
   | ProcessResponse ev peer \<Rightarrow> process_out_of_band_response cr api ev peer m
   | SendText peer text expires now ms \<Rightarrow> outcome (send_text cr api peer text expires now ms m)
   | SendEvent peer inner now \<Rightarrow> outcome (send_unsigned_event cr api peer inner now m)
   | ProcessEvent ev now \<Rightarrow> process_event_at cr api ev now m
   | PendingActions now \<Rightarrow> outcome (pending_actions_at cr api now m)
   | AckActions ids \<Rightarrow> ack_actions cr api ids m
   | RetirePeer peer \<Rightarrow> outcome (retire_peer cr api peer m))"

lemma outcome_transaction:
  fixes x :: "'b pres \<times> 's PairwiseManager"
  shows "transaction cr api m x \<Longrightarrow> transaction cr api m (outcome x)"
proof -
  have "is_ok (and_then r (\<lambda>_. Inr ())) \<longleftrightarrow> is_ok r" for r :: "'b pres" by (cases r) simp_all
  then show "transaction cr api m x \<Longrightarrow> transaction cr api m (outcome x)"
    by (simp add: transaction_def outcome_def split_beta)
qed

lemma do_call_transaction: "transaction cr api m (do_call cr api call m)"
  by (cases call) (auto simp: do_call_def intro: outcome_transaction transactions)

text \<open>A manager opened on an empty store, used by any calls, and opened again after any of them.\<close>

inductive pairwise_run ::
  "'x pairwise_crypto_scheme \<Rightarrow> 's store_api \<Rightarrow> ('s \<Rightarrow> bool) \<Rightarrow> bytes \<Rightarrow> RuntimeLimits \<Rightarrow> 's PairwiseManager \<Rightarrow> bool"
  for cr api empty_store sk l where
  start: "empty_store s \<Longrightarrow> manager_open cr api s sk l now ctx = (Inr m, s') \<Longrightarrow> pairwise_run cr api empty_store sk l m"
| call: "pairwise_run cr api empty_store sk l m \<Longrightarrow> do_call cr api c m = (r, m') \<Longrightarrow> pairwise_run cr api empty_store sk l m'"
| restart: "pairwise_run cr api empty_store sk l m \<Longrightarrow> manager_open cr api (pm_store m) sk l now ctx = (Inr m', s') \<Longrightarrow>
    pairwise_run cr api empty_store sk l m'"

section \<open>Commits on a store\<close>

lemma commit_next_Inl_state:
  assumes "commit_next cr api nxt authors m = (Inl e, m')"
  shows "pm_state m' = pm_state m" "installed_message_authors m' = installed_message_authors m"
    "pm_secret m' = pm_secret m" "pm_limits m' = pm_limits m"
  using assms by (auto simp: commit_next_def Let_def split: option.splits sum.splits prod.splits)

lemma commit_next_InrE:
  assumes "commit_next cr api nxt authors m = (Inr u, m')"
  obtains gen block payload s c where "unat gen = unat (generation (pm_state m)) + 1"
    "validate cr (pm_public cr m) (pm_limits m) (nxt\<lparr>generation := gen\<rparr>) = Inr ()"
    "seal_state cr (nxt\<lparr>generation := gen\<rparr>) (pm_secret m) (max_persisted_state_bytes (pm_limits m)) (fill_24 block) = Inr payload"
    "store_commit api gen payload (pm_store m) = (Inr (), s)"
    "m' = m\<lparr>pm_ctx := c, pm_store := s, pm_state := nxt\<lparr>generation := gen\<rparr>, installed_message_authors := authors\<rparr>"
  using assms by (auto simp: commit_next_def Let_def checked_add_Some split: option.splits sum.splits prod.splits)

lemma state_unchanged:
  "\<exists>gen. st = st\<lparr>generation := gen\<rparr>"
  "\<exists>gen acts. st = st\<lparr>generation := gen, pending_actions := acts\<rparr> \<and> filter P acts = filter P (pending_actions st)"
  for st :: PairwiseState
proof -
  have "st = st\<lparr>generation := generation st\<rparr>" "st = st\<lparr>generation := generation st, pending_actions := pending_actions st\<rparr>" by simp_all
  then show "\<exists>gen. st = st\<lparr>generation := gen\<rparr>"
    "\<exists>gen acts. st = st\<lparr>generation := gen, pending_actions := acts\<rparr> \<and> filter P acts = filter P (pending_actions st)" by blast+
qed

text \<open>The manager and its store agree: the state is valid, and the durable payload opens to it.\<close>

definition in_sync ::
  "'x pairwise_crypto_scheme \<Rightarrow> ('s \<Rightarrow> (u64 \<times> bytes) option) \<Rightarrow> 's PairwiseManager \<Rightarrow> bool" where
  "in_sync cr durable m \<longleftrightarrow> validate cr (pm_public cr m) (pm_limits m) (pm_state m) = Inr ()
     \<and> (\<exists>payload. durable (pm_store m) = Some (generation (pm_state m), payload)
          \<and> open_state cr payload (pm_secret m) (pm_limits m) = Inr (pm_state m))"

text \<open>The tail of \<open>manager_open\<close>, from the loaded or new state.\<close>

abbreviation open_tail ::
  "'x pairwise_crypto_scheme \<Rightarrow> 's store_api \<Rightarrow> bool \<Rightarrow> 's PairwiseManager \<Rightarrow> 's PairwiseManager pres \<times> 's" where
  "open_tail cr api needs m0 \<equiv> (case (if needs then commit_next cr api (pm_state m0) [] m0 else (Inr (), m0)) of
      (Inl e, m) \<Rightarrow> (Inl e, pm_store m)
    | (Inr _, m) \<Rightarrow> (case refresh_message_subscription cr api True m of
        (Inl e, m) \<Rightarrow> (Inl e, pm_store m) | (Inr _, m) \<Rightarrow> (Inr m, pm_store m)))"

context pairwise_store
begin

lemma commit_done_sync:
  assumes laws: "pairwise_laws cr" and "commit_next cr api nxt authors m = (Inr u, m')" "store_inv (pm_store m)"
  shows "in_sync cr durable m'" "store_inv (pm_store m')" "pm_secret m' = pm_secret m" "pm_limits m' = pm_limits m"
proof -
  obtain gen block payload s c where
    v: "validate cr (pm_public cr m) (pm_limits m) (nxt\<lparr>generation := gen\<rparr>) = Inr ()"
    and sealed: "seal_state cr (nxt\<lparr>generation := gen\<rparr>) (pm_secret m) (max_persisted_state_bytes (pm_limits m)) (fill_24 block) = Inr payload"
    and commit: "store_commit api gen payload (pm_store m) = (Inr (), s)"
    and m': "m' = m\<lparr>pm_ctx := c, pm_store := s, pm_state := nxt\<lparr>generation := gen\<rparr>, installed_message_authors := authors\<rparr>"
    using assms(2) by (rule commit_next_InrE)
  have "open_state cr payload (pm_secret m) (pm_limits m) = Inr (nxt\<lparr>generation := gen\<rparr>)"
    using seal_open(1) [OF laws sealed v] by simp
  then show "in_sync cr durable m'" "store_inv (pm_store m')" "pm_secret m' = pm_secret m" "pm_limits m' = pm_limits m"
    using v commit_done [OF assms(3) commit] m' by (auto simp: in_sync_def)
qed

lemma commit_failed_same:
  assumes "commit_next cr api nxt authors m = (Inl e, m')" "store_inv (pm_store m)"
  shows "durable (pm_store m') = durable (pm_store m)" "store_inv (pm_store m')"
  using assms commit_failed [OF assms(2)]
  by (auto simp: commit_next_def Let_def split: option.splits sum.splits prod.splits)

lemma transaction_error:
  assumes "transaction cr api m (Inl e, m')" "store_inv (pm_store m)"
  shows "pm_state m' = pm_state m" "installed_message_authors m' = installed_message_authors m"
    "durable (pm_store m') = durable (pm_store m)"
proof -
  have "pm_state m' = pm_state m \<and> installed_message_authors m' = installed_message_authors m
    \<and> durable (pm_store m') = durable (pm_store m)"
  proof (cases "\<exists>c. m' = with_ctx m c")
    case False
    then obtain nxt authors c u where u: "commit_next cr api nxt authors (with_ctx m c) = (u, m')" "\<not> is_ok u"
      using assms(1) by (auto simp: transaction_def)
    then obtain e' where "commit_next cr api nxt authors (with_ctx m c) = (Inl e', m')" by (cases u) auto
    from commit_next_Inl_state [OF this] commit_failed_same [OF this] show ?thesis using assms(2) by simp
  qed auto
  then show "pm_state m' = pm_state m" "installed_message_authors m' = installed_message_authors m"
    "durable (pm_store m') = durable (pm_store m)" by auto
qed

text \<open>Every transaction keeps the manager and its store in agreement.\<close>

lemma transaction_sync:
  assumes laws: "pairwise_laws cr" and "transaction cr api m (r, m')" "in_sync cr durable m" "store_inv (pm_store m)"
  shows "in_sync cr durable m' \<and> store_inv (pm_store m') \<and> pm_secret m' = pm_secret m \<and> pm_limits m' = pm_limits m"
proof (cases "\<exists>c. m' = with_ctx m c")
  case True
  then show ?thesis using assms(3,4) by (auto simp: in_sync_def)
next
  case False
  then obtain nxt authors c u where commit: "commit_next cr api nxt authors (with_ctx m c) = (u, m')"
    using assms(2) by (auto simp: transaction_def)
  show ?thesis
  proof (cases u)
    case (Inl e)
    then have "commit_next cr api nxt authors (with_ctx m c) = (Inl e, m')" using commit by simp
    from commit_next_Inl_state [OF this] commit_failed_same [OF this] show ?thesis
      using assms(3,4) by (auto simp: in_sync_def)
  next
    case (Inr v)
    then show ?thesis using commit_done_sync [OF laws, of nxt authors "with_ctx m c" v m'] commit assms(4) by simp
  qed
qed

lemma refresh_message_subscription_sync:
  assumes laws: "pairwise_laws cr" and "refresh_message_subscription cr api force m = (Inr u, m')" "in_sync cr durable m" "store_inv (pm_store m)"
  shows "in_sync cr durable m'" "store_inv (pm_store m')" "pm_secret m' = pm_secret m" "pm_limits m' = pm_limits m"
    and "\<exists>gen acts. pm_state m' = (pm_state m)\<lparr>generation := gen, pending_actions := acts\<rparr>
      \<and> filter (\<lambda>a. \<not> is_subscription a) acts = filter (\<lambda>a. \<not> is_subscription a) (pending_actions (pm_state m))"
proof -
  obtain authors nxt draw where r: "refresh_subscription_actions cr (installed_message_authors m) force (pm_limits m)
      (pm_state m, snd (pm_ctx m)) = Inr (authors, nxt, draw)"
    using assms(2) by (auto simp: refresh_message_subscription_def split: sum.splits prod.splits)
  let ?m = "with_ctx m (fst (pm_ctx m), draw)"
  have "in_sync cr durable m' \<and> store_inv (pm_store m') \<and> pm_secret m' = pm_secret m \<and> pm_limits m' = pm_limits m
    \<and> (\<exists>gen acts. pm_state m' = (pm_state m)\<lparr>generation := gen, pending_actions := acts\<rparr>
      \<and> filter (\<lambda>a. \<not> is_subscription a) acts = filter (\<lambda>a. \<not> is_subscription a) (pending_actions (pm_state m)))"
  proof (cases "pending_actions nxt = pending_actions (pm_state m)")
    case True
    then have "m' = ?m\<lparr>installed_message_authors := authors\<rparr>"
      using assms(2) r by (simp add: refresh_message_subscription_def)
    then show ?thesis using assms(3,4) state_unchanged(2) by (simp add: in_sync_def)
  next
    case False
    then have commit: "commit_next cr api nxt authors ?m = (Inr u, m')"
      using assms(2) r by (simp add: refresh_message_subscription_def)
    obtain gen where "pm_state m' = nxt\<lparr>generation := gen\<rparr>" using commit by (elim commit_next_InrE) auto
    moreover have "nxt = (pm_state m)\<lparr>pending_actions := pending_actions nxt\<rparr>" by (rule refresh_keeps(1) [OF r])
    ultimately have "pm_state m' = (pm_state m)\<lparr>generation := gen, pending_actions := pending_actions nxt\<rparr>"
      by (metis PairwiseState.surjective PairwiseState.update_convs(2,9))
    then show ?thesis using commit_done_sync [OF laws commit] assms(4) refresh_keeps(2) [OF r] by auto
  qed
  then show "in_sync cr durable m'" "store_inv (pm_store m')" "pm_secret m' = pm_secret m" "pm_limits m' = pm_limits m"
    and "\<exists>gen acts. pm_state m' = (pm_state m)\<lparr>generation := gen, pending_actions := acts\<rparr>
      \<and> filter (\<lambda>a. \<not> is_subscription a) acts = filter (\<lambda>a. \<not> is_subscription a) (pending_actions (pm_state m))" by auto
qed

lemma finish_open:
  assumes laws: "pairwise_laws cr" and run: "open_tail cr api needs m = (Inr m', s')"
    and "store_inv (pm_store m)" "\<not> needs \<Longrightarrow> in_sync cr durable m"
  shows "in_sync cr durable m'" "store_inv (pm_store m')" "pm_secret m' = pm_secret m" "pm_limits m' = pm_limits m"
    and "\<exists>gen acts. pm_state m' = (pm_state m)\<lparr>generation := gen, pending_actions := acts\<rparr>
      \<and> filter (\<lambda>a. \<not> is_subscription a) acts = filter (\<lambda>a. \<not> is_subscription a) (pending_actions (pm_state m))"
proof -
  obtain u m1 where first: "(if needs then commit_next cr api (pm_state m) [] m else (Inr (), m)) = (Inr u, m1)"
    and rest: "\<exists>v. refresh_message_subscription cr api True m1 = (Inr v, m')"
    using run by (auto split: prod.splits sum.splits)
  have m1: "in_sync cr durable m1 \<and> store_inv (pm_store m1) \<and> pm_secret m1 = pm_secret m \<and> pm_limits m1 = pm_limits m
    \<and> (\<exists>gen. pm_state m1 = (pm_state m)\<lparr>generation := gen\<rparr>)"
  proof (cases needs)
    case True
    then have commit: "commit_next cr api (pm_state m) [] m = (Inr u, m1)" using first by simp
    moreover have "\<exists>gen. pm_state m1 = (pm_state m)\<lparr>generation := gen\<rparr>" using commit by (elim commit_next_InrE) auto
    ultimately show ?thesis using commit_done_sync [OF laws commit assms(3)] by simp
  next
    case False
    then show ?thesis using first assms(3,4) state_unchanged(1) [of "pm_state m"] by simp
  qed
  obtain v where r: "refresh_message_subscription cr api True m1 = (Inr v, m')" using rest by blast
  note m' = refresh_message_subscription_sync [OF laws r]
  show "in_sync cr durable m'" "store_inv (pm_store m')" "pm_secret m' = pm_secret m" "pm_limits m' = pm_limits m"
    using m' m1 by auto
  show "\<exists>gen acts. pm_state m' = (pm_state m)\<lparr>generation := gen, pending_actions := acts\<rparr>
      \<and> filter (\<lambda>a. \<not> is_subscription a) acts = filter (\<lambda>a. \<not> is_subscription a) (pending_actions (pm_state m))"
  proof -
    obtain gen acts g1 where *: "pm_state m' = (pm_state m1)\<lparr>generation := gen, pending_actions := acts\<rparr>"
        "pm_state m1 = (pm_state m)\<lparr>generation := g1\<rparr>"
        "filter (\<lambda>a. \<not> is_subscription a) acts = filter (\<lambda>a. \<not> is_subscription a) (pending_actions (pm_state m1))"
      using m'(5) m1 by blast
    then have "pm_state m' = (pm_state m)\<lparr>generation := gen, pending_actions := acts\<rparr>"
      "filter (\<lambda>a. \<not> is_subscription a) acts = filter (\<lambda>a. \<not> is_subscription a) (pending_actions (pm_state m))" by simp_all
    then show ?thesis by blast
  qed
qed

lemma open_validates: "open_state cr payload sk l = Inr st \<Longrightarrow> validate cr (pk_of_sk cr sk) l st = Inr ()"
  by (auto simp: open_state_def open_current_state_def open_legacy_state_def decode_and_validate_state_def result_simps Let_def
    split: if_splits)

lemma open_empty:
  assumes laws: "pairwise_laws cr" and "manager_open cr api s sk l now ctx = (Inr m, s')" "durable s = None" "store_inv s"
  shows "in_sync cr durable m" "store_inv (pm_store m)" "pm_secret m = sk" "pm_limits m = l"
proof -
  obtain st needs s1 c1 where init: "initial_state_of cr api sk l now (s, ctx) = (Inr (st, needs), s1, c1)"
    using assms(2) by (auto simp: manager_open_def split: sum.splits prod.splits)
  have fresh: "needs" "store_inv s1"
    using init load_durable [OF assms(4)] load_keeps [OF assms(4)] assms(3)
    by (auto simp: initial_state_of_def Let_def split: prod.splits sum.splits option.splits)
  obtain st1 up where u: "upgrade_invite now st = (st1, up)" by (cases "upgrade_invite now st")
  let ?m = "\<lparr>pm_store = s1, pm_secret = sk, pm_state = st1, pm_limits = l, installed_message_authors = [], pm_ctx = c1\<rparr>"
  have "open_tail cr api (needs \<or> up) ?m = (Inr m, s')"
    using assms(2) init u by (auto simp: manager_open_def Let_def split: sum.splits)
  from finish_open [OF laws this] have "in_sync cr durable m \<and> store_inv (pm_store m) \<and> pm_secret m = sk \<and> pm_limits m = l"
    using fresh by simp
  then show "in_sync cr durable m" "store_inv (pm_store m)" "pm_secret m = sk" "pm_limits m = l" by auto
qed

text \<open>Opening a store that holds the state of a manager.\<close>

lemma open_again:
  assumes laws: "pairwise_laws cr" and "manager_open cr api (pm_store m) (pm_secret m) (pm_limits m) now ctx = (Inr m', s')"
    and sync: "in_sync cr durable m" "store_inv (pm_store m)"
  shows "in_sync cr durable m'" "store_inv (pm_store m')" "pm_secret m' = pm_secret m" "pm_limits m' = pm_limits m"
    and "\<exists>gen acts. pm_state m' = (fst (upgrade_invite now (pm_state m)))\<lparr>generation := gen, pending_actions := acts\<rparr>
      \<and> filter (\<lambda>a. \<not> is_subscription a) acts = filter (\<lambda>a. \<not> is_subscription a) (pending_actions (pm_state m))"
proof -
  obtain payload where p: "durable (pm_store m) = Some (generation (pm_state m), payload)"
      "open_state cr payload (pm_secret m) (pm_limits m) = Inr (pm_state m)"
    using sync(1) by (auto simp: in_sync_def)
  obtain st needs s1 c1 where init: "initial_state_of cr api (pm_secret m) (pm_limits m) now (pm_store m, ctx) = (Inr (st, needs), s1, c1)"
    using assms(2) by (auto simp: manager_open_def split: sum.splits prod.splits)
  have loaded: "st = pm_state m \<and> durable s1 = durable (pm_store m) \<and> store_inv s1"
  proof -
    obtain v s0 where load: "store_load api (pm_store m) = (Inr v, s0)"
      using init by (auto simp: initial_state_of_def split: prod.splits sum.splits)
    then have "v = Some payload" "durable s0 = durable (pm_store m)" "store_inv s0"
      using load_durable [OF sync(2) load] load_keeps [OF sync(2) load] p(1) by auto
    then show ?thesis using init load p cleanup_keeps [of s0 "generation (pm_state m)" payload] by (auto simp: initial_state_of_def)
  qed
  obtain st1 up where u: "upgrade_invite now (pm_state m) = (st1, up)" by (cases "upgrade_invite now (pm_state m)")
  have st1: "pending_actions st1 = pending_actions (pm_state m)" "\<not> up \<Longrightarrow> st1 = pm_state m"
    using u by (auto simp: upgrade_invite_def split: if_splits)
  let ?m = "\<lparr>pm_store = s1, pm_secret = pm_secret m, pm_state = st1, pm_limits = pm_limits m, installed_message_authors = [], pm_ctx = c1\<rparr>"
  have "\<not> (needs \<or> up) \<Longrightarrow> in_sync cr durable ?m" using sync(1) p st1(2) loaded by (auto simp: in_sync_def)
  moreover have "open_tail cr api (needs \<or> up) ?m = (Inr m', s')"
    using assms(2) init u loaded by (auto simp: manager_open_def Let_def split: sum.splits)
  ultimately have fin: "in_sync cr durable m' \<and> store_inv (pm_store m') \<and> pm_secret m' = pm_secret m \<and> pm_limits m' = pm_limits m
    \<and> (\<exists>gen acts. pm_state m' = st1\<lparr>generation := gen, pending_actions := acts\<rparr>
      \<and> filter (\<lambda>a. \<not> is_subscription a) acts = filter (\<lambda>a. \<not> is_subscription a) (pending_actions st1))"
    using finish_open [OF laws, of "needs \<or> up" ?m m' s'] loaded by (simp only: PairwiseManager.simps simp_thms)
  then show "in_sync cr durable m'" "store_inv (pm_store m')" "pm_secret m' = pm_secret m" "pm_limits m' = pm_limits m" by auto
  show "\<exists>gen acts. pm_state m' = (fst (upgrade_invite now (pm_state m)))\<lparr>generation := gen, pending_actions := acts\<rparr>
      \<and> filter (\<lambda>a. \<not> is_subscription a) acts = filter (\<lambda>a. \<not> is_subscription a) (pending_actions (pm_state m))"
    using fin unfolding u st1(1) fst_conv by blast
qed

text \<open>The invariant of runs.\<close>

lemma run_sync:
  assumes laws: "pairwise_laws cr" and "pairwise_run cr api (\<lambda>s. durable s = None \<and> store_inv s) sk l m"
  shows "in_sync cr durable m \<and> store_inv (pm_store m) \<and> pm_secret m = sk \<and> pm_limits m = l"
  using assms(2)
proof induction
  case (start s now ctx m s')
  then show ?case using open_empty [OF laws start(2)] by simp
next
  case (call m c r m')
  have "transaction cr api m (r, m')" using do_call_transaction [of cr api m c] call(2) by simp
  then show ?case using transaction_sync [OF laws] call(3) by blast
next
  case (restart m now ctx m' s')
  then show ?case using open_again [OF laws, of m now ctx m' s'] by simp
qed

end

end
