(* ===== verification/Pairwise_Validity.thy ===== *)
theory Pairwise_Validity
  imports Pairwise_State
begin

text \<open>
  What validation accepts. \<open>well_formed\<close> says it without loops and accumulators; the theorem at the end states that
  the code's loops decide exactly this predicate.
\<close>

declare split_paired_All [simp del] split_paired_Ex [simp del]

section \<open>Well-formed states\<close>

definition all_sessions :: "PairwiseState \<Rightarrow> SessionRecord list" where
  "all_sessions st = concat (map peer_sessions (bt_values (peers st)))"

definition skipped_count :: "SessionRecord \<Rightarrow> nat" where
  "skipped_count s = sum_list (map (\<lambda>e. bt_len (message_keys e)) (bt_values (skipped_keys (record_state s))))"

definition sender_keys :: "PairwiseState \<Rightarrow> DevicePubkey set" where
  "sender_keys st = (\<Union>s \<in> set (all_sessions st). set (session_sender_keys (record_state s)))"

definition session_ok :: "'x pairwise_crypto_scheme \<Rightarrow> RuntimeLimits \<Rightarrow> PairwiseState \<Rightarrow> string \<Rightarrow> SessionRecord \<Rightarrow> bool" where
  "session_ok cr l st hex s \<longleftrightarrow> bootstrap_events_ok l st hex s \<and> length (handshake_id s) = 64 \<and> is_ok (hex_decode cr (handshake_id s))"

definition peer_ok :: "'x pairwise_crypto_scheme \<Rightarrow> RuntimeLimits \<Rightarrow> PairwiseState \<Rightarrow> string \<times> PeerState \<Rightarrow> bool" where
  "peer_ok cr l st = (\<lambda>(hex, p). peer_pubkey_hex p = hex \<and> pk_parse cr hex \<noteq> None
     \<and> peer_sessions p \<noteq> [] \<and> length (peer_sessions p) \<le> max_sessions_per_peer l
     \<and> sorted_wrt (<) (map rank (peer_sessions p)) \<and> (\<forall>s \<in> set (peer_sessions p). session_ok cr l st hex s))"

definition action_ok :: "'x pairwise_crypto_scheme \<Rightarrow> RuntimeLimits \<Rightarrow> PairwiseState \<Rightarrow> PairwiseAction \<Rightarrow> bool" where
  "action_ok cr l st a \<longleftrightarrow>
     take (length (action_prefix (local_pubkey_hex st))) (action_id a) = action_prefix (local_pubkey_hex st)
     \<and> (case action_kind a of
          Publish sid j inner \<Rightarrow> (\<exists>hex s. find_session st sid = Some (hex, s) \<and> length j \<le> max_event_bytes l
            \<and> (inner = None \<longrightarrow> bootstrap_event_json s = Some j))
        | OutOfBand hex sid j \<Rightarrow> length j \<le> max_event_bytes l \<and> pk_parse cr hex \<noteq> None
            \<and> (\<exists>p s. bt_get (peers st) hex = Some p \<and> s \<in> set (peer_sessions p) \<and> handshake_id s = sid
                \<and> invite_response_event_json s = Some j)
        | Delivery hex j inner outer expires \<Rightarrow> length j \<le> max_inner_event_bytes l
        | Subscribe subid j \<Rightarrow> subid = message_subscription_id st \<and> length j \<le> max_event_bytes l
        | Unsubscribe subid \<Rightarrow> subid = message_subscription_id st)"

definition identity_ok :: "'x pairwise_crypto_scheme \<Rightarrow> PublicKey \<Rightarrow> PairwiseState \<Rightarrow> bool" where
  "identity_ok cr pk st \<longleftrightarrow> schema_version st = STATE_SCHEMA_VERSION \<and> local_pubkey_hex st = hex_encode cr pk
     \<and> inviter (local_invite st) = pk \<and> inviter_device_pubkey (local_invite st) = DevicePubkey pk
     \<and> pairwise_owner_claim_is_valid (local_invite st)
     \<and> message_subscription_id st \<noteq> [] \<and> length (message_subscription_id st) \<le> 64
     \<and> \<not> str_contains (message_subscription_id st) (local_pubkey_hex st)"

definition within_limits :: "'x pairwise_crypto_scheme \<Rightarrow> RuntimeLimits \<Rightarrow> PairwiseState \<Rightarrow> bool" where
  "within_limits cr l st \<longleftrightarrow> pending_outbound_count cr st \<le> max_pending_outbound l
     \<and> pending_delivery_count st \<le> max_pending_deliveries l
     \<and> length (seen_event_ids st) \<le> max_seen_event_ids l
     \<and> length (seen_inner_event_ids st) \<le> max_seen_inner_event_ids l
     \<and> bt_len (response_event_peers st) \<le> max_seen_event_ids l
     \<and> bt_len (peers st) \<le> max_peers l
     \<and> length (used_by (local_invite st)) \<le> max_peers l \<and> length (used_response_contents (local_invite st)) \<le> max_peers l
     \<and> card (sender_keys st) \<le> max_total_tracked_sender_keys l \<and> card (sender_keys st) \<le> max_subscription_authors l
     \<and> sum_list (map skipped_count (all_sessions st)) \<le> max_total_skipped_message_keys l
     \<and> sum_list (map skipped_count (all_sessions st)) < 2 ^ 64"

definition well_formed :: "'x pairwise_crypto_scheme \<Rightarrow> PublicKey \<Rightarrow> RuntimeLimits \<Rightarrow> PairwiseState \<Rightarrow> bool" where
  "well_formed cr pk l st \<longleftrightarrow> identity_ok cr pk st \<and> within_limits cr l st
     \<and> (\<forall>eid hex. bt_get (response_event_peers st) eid = Some hex \<longrightarrow> eid \<in> set (seen_event_ids st) \<and> pk_parse cr hex \<noteq> None)
     \<and> distinct (map action_id (pending_actions st)) \<and> (\<forall>a \<in> set (pending_actions st). action_ok cr l st a)
     \<and> distinct (map handshake_id (all_sessions st)) \<and> (\<forall>e \<in> set (bt_entries (peers st)). peer_ok cr l st e)"

section \<open>The loops\<close>

lemma validate_action_kind_ok:
  "take (length (action_prefix (local_pubkey_hex st))) (action_id a) = action_prefix (local_pubkey_hex st)
     \<and> validate_action_kind cr l st (action_kind a) = Inr () \<longleftrightarrow> action_ok cr l st a"
  by (cases "action_kind a")
    (auto simp: validate_action_kind_def action_ok_def list_ex_iff simp del: first_error.simps split: option.splits prod.splits)

lemma validate_actions_ok:
  "fold_res (validate_action cr l st) acts ids = Inr ids' \<longleftrightarrow>
     (\<forall>a \<in> set acts. action_ok cr l st a) \<and> distinct (map action_id acts) \<and> set (map action_id acts) \<inter> set ids = {}
     \<and> ids' = rev (map action_id acts) @ ids"
proof (induction acts arbitrary: ids)
  case (Cons a acts)
  have step: "validate_action cr l st a ids = Inr ids1 \<longleftrightarrow> action_ok cr l st a \<and> action_id a \<notin> set ids \<and> ids1 = action_id a # ids" for ids1
    using validate_action_kind_ok [of st a cr l] by (auto simp: validate_action_def result_simps)
  show ?case using Cons.IH [of "action_id a # ids"] by (auto simp: result_simps step)
qed auto

lemma skipped_sum_ok:
  assumes "n < 2 ^ 64"
  shows "fold_res (\<lambda>e n. ok_or (checked_usize_add n (bt_len (message_keys e))) err) es n = Inr n' \<longleftrightarrow>
    n' = n + sum_list (map (\<lambda>e. bt_len (message_keys e)) es) \<and> n' < 2 ^ 64"
  using assms
proof (induction es arbitrary: n)
  case (Cons e es)
  have add: "checked_usize_add a b = (if a + b < 2 ^ 64 then Some (a + b) else None)" for a b
  proof -
    have "int a + int b < 2 ^ 64 \<longleftrightarrow> a + b < 2 ^ 64" by (metis of_nat_add of_nat_less_iff of_nat_numeral of_nat_power)
    then show ?thesis by (simp add: checked_usize_add_def)
  qed
  show ?case using Cons.IH [of "n + bt_len (message_keys e)"] by (auto simp: result_simps add split: if_splits)
qed auto

lemma validate_session_ok:
  assumes "n < 2 ^ 64"
  shows "validate_session cr l st hex s (ids, keys, n) = Inr acc \<longleftrightarrow>
    session_ok cr l st hex s \<and> handshake_id s \<notin> set ids \<and> n + skipped_count s < 2 ^ 64
    \<and> acc = (handshake_id s # ids, session_sender_keys (record_state s) @ keys, n + skipped_count s)"
  by (auto simp: validate_session_def result_simps skipped_sum_ok [OF assms] session_ok_def skipped_count_def)

lemma validate_sessions_ok:
  assumes "n < 2 ^ 64"
  shows "fold_res (validate_session cr l st hex) ss (ids, keys, n) = Inr acc \<longleftrightarrow>
    (\<forall>s \<in> set ss. session_ok cr l st hex s) \<and> distinct (map handshake_id ss) \<and> set (map handshake_id ss) \<inter> set ids = {}
    \<and> n + sum_list (map skipped_count ss) < 2 ^ 64
    \<and> acc = (rev (map handshake_id ss) @ ids,
        concat (map (\<lambda>s. session_sender_keys (record_state s)) (rev ss)) @ keys, n + sum_list (map skipped_count ss))"
  using assms
proof (induction ss arbitrary: ids keys n)
  case (Cons s ss)
  show ?case
    using Cons.IH [of "n + skipped_count s" "handshake_id s # ids" "session_sender_keys (record_state s) @ keys"]
    by (auto simp: result_simps validate_session_ok [OF Cons.prems])
qed auto

lemma validate_peers_ok:
  assumes "n < 2 ^ 64"
  shows "fold_res (validate_peer cr l st) es (ids, keys, n) = Inr acc \<longleftrightarrow>
    (let ss = concat (map (\<lambda>e. peer_sessions (snd e)) es) in
      (\<forall>e \<in> set es. peer_ok cr l st e) \<and> distinct (map handshake_id ss) \<and> set (map handshake_id ss) \<inter> set ids = {}
      \<and> n + sum_list (map skipped_count ss) < 2 ^ 64
      \<and> acc = (rev (map handshake_id ss) @ ids,
          concat (map (\<lambda>s. session_sender_keys (record_state s)) (rev ss)) @ keys, n + sum_list (map skipped_count ss)))"
  using assms
proof (induction es arbitrary: ids keys n)
  case (Cons e es)
  obtain hex p where e: "e = (hex, p)" by (cases e)
  let ?ss = "peer_sessions p"
  have step: "validate_peer cr l st e (ids, keys, n) = Inr acc1 \<longleftrightarrow>
      peer_ok cr l st e \<and> distinct (map handshake_id ?ss) \<and> set (map handshake_id ?ss) \<inter> set ids = {}
      \<and> n + sum_list (map skipped_count ?ss) < 2 ^ 64
      \<and> acc1 = (rev (map handshake_id ?ss) @ ids, concat (map (\<lambda>s. session_sender_keys (record_state s)) (rev ?ss)) @ keys,
          n + sum_list (map skipped_count ?ss))" for acc1
    by (auto simp: validate_peer_def e result_simps validate_sessions_ok [OF Cons.prems] peer_ok_def)
  have "fold_res (validate_peer cr l st) (e # es) (ids, keys, n) = Inr acc \<longleftrightarrow>
      (\<exists>acc1. validate_peer cr l st e (ids, keys, n) = Inr acc1 \<and> fold_res (validate_peer cr l st) es acc1 = Inr acc)"
    by (auto simp: result_simps)
  also have "\<dots> \<longleftrightarrow> peer_ok cr l st e \<and> distinct (map handshake_id ?ss) \<and> set (map handshake_id ?ss) \<inter> set ids = {}
      \<and> n + sum_list (map skipped_count ?ss) < 2 ^ 64
      \<and> fold_res (validate_peer cr l st) es (rev (map handshake_id ?ss) @ ids,
          concat (map (\<lambda>s. session_sender_keys (record_state s)) (rev ?ss)) @ keys, n + sum_list (map skipped_count ?ss)) = Inr acc"
    unfolding step by blast
  finally have unfolded: "fold_res (validate_peer cr l st) (e # es) (ids, keys, n) = Inr acc \<longleftrightarrow> \<dots>" .
  show ?case
  proof (cases "n + sum_list (map skipped_count ?ss) < 2 ^ 64")
    case True
    define rest where "rest = concat (map (\<lambda>e. peer_sessions (snd e)) es)"
    have all: "concat (map (\<lambda>e. peer_sessions (snd e)) (e # es)) = ?ss @ rest" by (simp add: e rest_def)
    have disjoint: "handshake_id ` set ?ss \<inter> set ids = {} \<and> handshake_id ` set rest \<inter> (handshake_id ` set ?ss \<union> set ids) = {}
      \<longleftrightarrow> handshake_id ` set ?ss \<inter> handshake_id ` set rest = {} \<and> (handshake_id ` set ?ss \<union> handshake_id ` set rest) \<inter> set ids = {}"
      by blast
    show ?thesis unfolding unfolded Cons.IH [OF True, unfolded Let_def, folded rest_def] Let_def all
      using True disjoint by (auto simp add: image_Un simp del: fold_res.simps)
  next
    case False
    then show ?thesis unfolding unfolded by (simp add: e Let_def del: fold_res.simps)
  qed
qed auto

lemma bs_len_card: "bt_len (bs_of_list ks) = card (set ks)"
proof -
  have "map_of (rev (map (\<lambda>k. (k, ())) ks)) k \<noteq> None \<longleftrightarrow> k \<in> set ks" for k
    by (auto simp: map_of_eq_None_iff image_image)
  then have "{k. bt_get (bs_of_list ks) k \<noteq> None} = set ks" by (auto simp: bt_get_of_list)
  then show ?thesis by (simp add: bt_len_card)
qed

text \<open>
  C38. Validation decides well-formedness: the loops of \<^verbatim>\<open>validate\<close> accept a state if and only if its
  identity is the expected one, every queue, window and key count is within its limit, response bindings
  point to seen events, pending actions have distinct ids and match their sessions, and the peers carry
  distinct, ordered and complete sessions.
\<close>

theorem validate_exact: "validate cr pk l st = Inr () \<longleftrightarrow> well_formed cr pk l st"
proof -
  have header: "validate_header cr pk l st = Inr () \<longleftrightarrow> identity_ok cr pk st
      \<and> pending_outbound_count cr st \<le> max_pending_outbound l \<and> pending_delivery_count st \<le> max_pending_deliveries l
      \<and> length (seen_event_ids st) \<le> max_seen_event_ids l \<and> length (seen_inner_event_ids st) \<le> max_seen_inner_event_ids l
      \<and> bt_len (response_event_peers st) \<le> max_seen_event_ids l
      \<and> (\<forall>eid hex. bt_get (response_event_peers st) eid = Some hex \<longrightarrow> eid \<in> set (seen_event_ids st) \<and> pk_parse cr hex \<noteq> None)
      \<and> bt_len (peers st) \<le> max_peers l \<and> length (used_by (local_invite st)) \<le> max_peers l
      \<and> length (used_response_contents (local_invite st)) \<le> max_peers l"
    by (cases "inviter_device_pubkey (local_invite st)")
      (auto simp: validate_header_def identity_ok_def list_ex_iff bt_get_entries)
  have sessions: "concat (map (\<lambda>e. peer_sessions (snd e)) (bt_entries (peers st))) = all_sessions st"
    by (simp add: all_sessions_def bt_values_def comp_def)
  have keys: "set (concat (map (\<lambda>s. session_sender_keys (record_state s)) (rev (all_sessions st)))) = sender_keys st"
    by (auto simp: sender_keys_def)
  have "validate cr pk l st = Inr () \<longleftrightarrow> validate_header cr pk l st = Inr ()
      \<and> (\<exists>ids. fold_res (validate_action cr l st) (pending_actions st) [] = Inr ids)
      \<and> (\<exists>ids ks n. fold_res (validate_peer cr l st) (bt_entries (peers st)) ([], [], 0) = Inr (ids, ks, n)
          \<and> card (set ks) \<le> max_total_tracked_sender_keys l \<and> card (set ks) \<le> max_subscription_authors l
          \<and> n \<le> max_total_skipped_message_keys l)"
    unfolding validate_def by (cases "fold_res (validate_peer cr l st) (bt_entries (peers st)) ([], [], 0)")
      (auto simp: result_simps Let_def bs_len_card not_less split: if_splits)
  also have "\<dots> \<longleftrightarrow> well_formed cr pk l st"
    unfolding header validate_actions_ok validate_peers_ok [OF zero_less_power [OF zero_less_numeral]] sessions Let_def
    using keys by (auto simp: well_formed_def within_limits_def)
  finally show ?thesis .
qed

end
