(* ===== verification/Pairwise_Runs.thy ===== *)
theory Pairwise_Runs
  imports Pairwise_Commit Pairwise_Validity
begin

text \<open>
  Runs of the pairwise runtime: the invariants of every manager reached from an empty store by any calls and
  restarts, first on any store that keeps its contract, then on the memory store.
\<close>

declare split_paired_All [simp del] split_paired_Ex [simp del]

section \<open>Commits and tracked keys\<close>

lemma transactionE:
  assumes "transaction cr api m (r, m')"
  obtains (same) "pm_state m' = pm_state m" "installed_message_authors m' = installed_message_authors m"
      "pm_limits m' = pm_limits m"
  | (next_state) nxt gen where "call_effect cr m nxt (installed_message_authors m')" "pm_state m' = nxt\<lparr>generation := gen\<rparr>"
      "pm_limits m' = pm_limits m" "is_ok r"
proof (cases "\<exists>c. m' = with_ctx m c")
  case True
  then show ?thesis using same by auto
next
  case False
  then obtain nxt authors c u where u: "commit_next cr api nxt authors (with_ctx m c) = (u, m')" "is_ok u \<longleftrightarrow> is_ok r"
      "call_effect cr m nxt authors"
    using assms by (auto simp: transaction_def)
  show ?thesis
  proof (cases u)
    case (Inl e)
    then show ?thesis using same commit_next_Inl_state [of cr api nxt authors "with_ctx m c" e m'] u(1) by simp
  next
    case (Inr v)
    then have "commit_next cr api nxt authors (with_ctx m c) = (Inr v, m')" using u(1) by simp
    then show ?thesis using u(2,3) Inr by (elim commit_next_InrE) (rule next_state, auto)
  qed
qed

text \<open>The set of keys the runtime has to be subscribed to: every key from which a peer may send next.\<close>

definition tracked_authors :: "'x crypto_scheme \<Rightarrow> PairwiseState \<Rightarrow> string set" where
  "tracked_authors cr st = (\<Union>hex p. {hex_encode cr k |k. bt_get (peers st) hex = Some p \<and> k \<in> set (tracked_sender_pubkeys cr p)})"

lemma set_fold_bs_insert: "set (bt_keys (fold bs_insert xs s)) = set xs \<union> set (bt_keys s)"
  by (induction xs arbitrary: s) (auto simp: set_bt_keys)

lemma message_authors_tracked:
  assumes "message_authors cr l st = Inr authors"
  shows "set authors = tracked_authors cr st" "distinct authors" "length authors \<le> max_subscription_authors l \<or> authors = []"
proof -
  let ?step = "\<lambda>p authors. let authors' = fold bs_insert (map (hex_encode cr) (tracked_sender_pubkeys cr p)) authors in
         if bt_len authors' > max_subscription_authors l then Inl (PwQueueFull ''subscription-authors'') else Inr authors'"
  have "set (bt_keys t) = (\<Union>p \<in> set ps. hex_encode cr ` set (tracked_sender_pubkeys cr p)) \<union> set (bt_keys s)
      \<and> (bt_len t \<le> max_subscription_authors l \<or> t = s)"
    if "fold_res ?step ps s = Inr t" for ps s t
    using that
  proof (induction ps arbitrary: s)
    case (Cons p ps)
    define s1 where "s1 = fold bs_insert (map (hex_encode cr) (tracked_sender_pubkeys cr p)) s"
    have "\<not> bt_len s1 > max_subscription_authors l" "fold_res ?step ps s1 = Inr t"
      using Cons.prems by (auto simp: result_simps Let_def s1_def [symmetric] split: if_splits)
    then show ?case using Cons.IH [of s1] by (auto simp: s1_def set_fold_bs_insert)
  qed auto
  then have *: "fold_res ?step (bt_values (peers st)) bt_empty = Inr t \<Longrightarrow>
      set (bt_keys t) = (\<Union>p \<in> set (bt_values (peers st)). hex_encode cr ` set (tracked_sender_pubkeys cr p))
      \<and> (bt_len t \<le> max_subscription_authors l \<or> t = bt_empty)" for t by fastforce
  obtain t where t: "fold_res ?step (bt_values (peers st)) bt_empty = Inr t" "authors = bt_keys t"
    using assms by (auto simp: message_authors_def result_simps)
  have "set (bt_values (peers st)) = {p. \<exists>hex. bt_get (peers st) hex = Some p}"
    by (force simp: bt_values_def bt_get_entries)
  then show "set authors = tracked_authors cr st" "distinct authors" "length authors \<le> max_subscription_authors l \<or> authors = []"
    using * [OF t(1)] t(2) by (auto simp: tracked_authors_def)
qed

definition single_sessions :: "PairwiseState \<Rightarrow> bool" where
  "single_sessions st \<longleftrightarrow> (\<forall>hex p. bt_get (peers st) hex = Some p \<longrightarrow> (\<exists>s. peer_sessions p = [s]))"

text \<open>The invariant of the running manager.\<close>

definition run_inv :: "'x pairwise_crypto_scheme \<Rightarrow> 's PairwiseManager \<Rightarrow> bool" where
  "run_inv cr m \<longleftrightarrow> single_sessions (pm_state m) \<and> distinct (seen_event_ids (pm_state m))
     \<and> message_authors cr (pm_limits m) (pm_state m) = Inr (installed_message_authors m)"

lemma transaction_inv:
  assumes "transaction cr api m (r, m')" "run_inv cr m"
  shows "run_inv cr m'"
  using assms(1)
proof (cases rule: transactionE)
  case same
  then show ?thesis using assms(2) by (simp add: run_inv_def)
next
  case (next_state nxt gen)
  have "single_sessions nxt"
    unfolding single_sessions_def
  proof (intro allI impI)
    fix hex p assume p: "bt_get (peers nxt) hex = Some p"
    show "\<exists>s. peer_sessions p = [s]"
    proof (cases "\<exists>p0. bt_get (peers (pm_state m)) hex = Some p0 \<and> length (peer_sessions p) = length (peer_sessions p0)")
      case True
      then have "length (peer_sessions p) = 1" using assms(2) by (force simp: run_inv_def single_sessions_def)
      then show ?thesis by (cases "peer_sessions p") auto
    next
      case False
      then show ?thesis using p next_state(1) unfolding call_effect_def peers_step_def by blast
    qed
  qed
  moreover have "message_authors cr (pm_limits m) nxt = Inr (installed_message_authors m')"
    using next_state(1) assms(2) by (auto simp: call_effect_def run_inv_def)
  moreover have "distinct (seen_event_ids nxt)" using next_state(1) assms(2) by (auto simp: call_effect_def run_inv_def seen_step_def)
  ultimately show ?thesis by (simp add: run_inv_def next_state(2,3) single_sessions_def)
qed

lemma refresh_message_subscription_authors:
  assumes "refresh_message_subscription cr api force m = (Inr u, m')"
  shows "message_authors cr (pm_limits m') (pm_state m') = Inr (installed_message_authors m')"
proof -
  obtain authors nxt draw where r: "refresh_subscription_actions cr (installed_message_authors m) force (pm_limits m)
      (pm_state m, snd (pm_ctx m)) = Inr (authors, nxt, draw)"
    using assms by (auto simp: refresh_message_subscription_def split: sum.splits prod.splits)
  let ?m = "with_ctx m (fst (pm_ctx m), draw)"
  have authors: "message_authors cr (pm_limits m) (pm_state m) = Inr authors" by (rule refresh_keeps(3) [OF r])
  have "nxt = (pm_state m)\<lparr>pending_actions := pending_actions nxt\<rparr>" by (rule refresh_keeps(1) [OF r])
  then have nxt: "message_authors cr (pm_limits m) nxt = Inr authors"
    using authors by (metis message_authors_update(1))
  show ?thesis
  proof (cases "pending_actions nxt = pending_actions (pm_state m)")
    case True
    then show ?thesis using assms r authors by (auto simp: refresh_message_subscription_def)
  next
    case False
    then have "commit_next cr api nxt authors ?m = (Inr u, m')" using assms r by (simp add: refresh_message_subscription_def)
    then show ?thesis using nxt by (elim commit_next_InrE) auto
  qed
qed

lemma open_authors:
  assumes "manager_open cr api s sk l now ctx = (Inr m, s')"
  shows "message_authors cr (pm_limits m) (pm_state m) = Inr (installed_message_authors m)"
  using assms by (auto simp: manager_open_def Let_def intro: refresh_message_subscription_authors split: sum.splits prod.splits)

context pairwise_store
begin

lemma open_empty_peers:
  assumes laws: "pairwise_laws cr" and "manager_open cr api s sk l now ctx = (Inr m, s')" "durable s = None" "store_inv s"
  shows "peers (pm_state m) = bt_empty" "seen_event_ids (pm_state m) = []" "last_message_millis (pm_state m) = 0"
proof -
  obtain st needs s1 c1 where init: "initial_state_of cr api sk l now (s, ctx) = (Inr (st, needs), s1, c1)"
    using assms(2) by (auto simp: manager_open_def split: sum.splits prod.splits)
  have fresh: "needs" "store_inv s1" "\<exists>draw hex iv. st = state_new cr draw hex iv"
    using init load_durable [OF assms(4)] load_keeps [OF assms(4)] assms(3)
    by (auto simp: initial_state_of_def Let_def split: prod.splits sum.splits option.splits)
  obtain st1 up where u: "upgrade_invite now st = (st1, up)" by (cases "upgrade_invite now st")
  have st1: "peers st1 = bt_empty" "seen_event_ids st1 = []" "last_message_millis st1 = 0"
    using u fresh(3) by (auto simp: upgrade_invite_def state_new_def split: if_splits)
  let ?m = "\<lparr>pm_store = s1, pm_secret = sk, pm_state = st1, pm_limits = l, installed_message_authors = [], pm_ctx = c1\<rparr>"
  have "open_tail cr api (needs \<or> up) ?m = (Inr m, s')"
    using assms(2) init u by (auto simp: manager_open_def Let_def split: sum.splits)
  from finish_open(5) [OF laws this] fresh obtain gen acts where "pm_state m = st1\<lparr>generation := gen, pending_actions := acts\<rparr>"
    by auto
  then show "peers (pm_state m) = bt_empty" "seen_event_ids (pm_state m) = []" "last_message_millis (pm_state m) = 0"
    using st1 by simp_all
qed

lemma run_keeps_inv:
  assumes laws: "pairwise_laws cr" and "pairwise_run cr api (\<lambda>s. durable s = None \<and> store_inv s) sk l m"
  shows "run_inv cr m"
  using assms(2)
proof induction
  case (start s now ctx m s')
  then show ?case using open_empty_peers [OF laws start(2)] open_authors [OF start(2)]
    by (simp add: run_inv_def single_sessions_def)
next
  case (call m c r m')
  have "transaction cr api m (r, m')" using do_call_transaction [of cr api m c] call(2) by simp
  then show ?case using transaction_inv call(3) by blast
next
  case (restart m now ctx m' s')
  note sync = run_sync [OF laws restart(1)]
  from open_again(5) [OF laws, of m now ctx m' s'] restart(2) sync obtain gen acts where
    "pm_state m' = (fst (upgrade_invite now (pm_state m)))\<lparr>generation := gen, pending_actions := acts\<rparr>" by auto
  then have "peers (pm_state m') = peers (pm_state m)" "seen_event_ids (pm_state m') = seen_event_ids (pm_state m)"
    by (simp_all add: upgrade_invite_def)
  then show ?case using restart(3) open_authors [OF restart(2)] by (simp add: run_inv_def single_sessions_def)
qed

end

section \<open>Receiving\<close>

lemma try_sessionsE:
  assumes "try_sessions cr envelope cs rng = (Some (hex, i, plan), rng')"
  obtains r rng0 where "(hex, i, r) \<in> set cs" "matches_sender (session_from_state (record_state r)) (env_sender envelope)"
    "fst (plan_receive cr (session_from_state (record_state r)) rng0 envelope) = Inr plan"
  using assms
proof (induction cs arbitrary: rng)
  case (Cons c cs)
  obtain hex1 i1 r1 where c: "c = (hex1, i1, r1)" by (cases c)
  show ?case
  proof (cases "try_sessions cr envelope cs rng = (Some (hex, i, plan), rng')
      \<or> (\<exists>rng1. try_sessions cr envelope cs rng1 = (Some (hex, i, plan), rng'))")
    case True
    then show ?thesis using Cons.IH Cons.prems(1) by (metis list.set_intros(2))
  next
    case False
    let ?s = "session_from_state (record_state r1)"
    have "matches_sender ?s (env_sender envelope)" "hex1 = hex" "i1 = i" "fst (plan_receive cr ?s rng envelope) = Inr plan"
      using Cons.prems(2) False by (auto simp: c Let_def split: if_splits sum.splits prod.splits)
    then show ?thesis using Cons.prems(1) [of r1 rng] by (simp add: c)
  qed
qed simp

lemma session_candidates_mem:
  "(hex, i, r) \<in> set (session_candidates st) \<longleftrightarrow>
     (\<exists>p. bt_get (peers st) hex = Some p \<and> i < length (peer_sessions p) \<and> r = peer_sessions p ! i)"
  by (force simp: session_candidates_def bt_get_entries in_set_enumerate_eq)

text \<open>The cases of a successful \<open>process_event_at\<close>.\<close>

lemma process_event_cases:
  assumes "process_event_at cr api ev now m = (Inr u, m')"
  obtains (seen) "has_seen_event (pm_state m) (hex_encode cr (ev_id ev))" "m' = m" "relay_checks cr ev m = Inr ()"
  | (received) envelope hex i plan c nd where "\<not> has_seen_event (pm_state m) (hex_encode cr (ev_id ev))"
      "relay_checks cr ev m = Inr ()" "incoming_envelope cr ev = Inr envelope"
      "fst (try_sessions cr envelope (session_candidates (pm_state m)) (fst (pm_ctx m))) = Some (hex, i, plan)"
      "receive_message cr now (hex_encode cr (ev_id ev)) (hex, i, plan) (with_ctx m c) = Inr nd"
      "refresh_and_commit cr api nd (with_ctx m c) = (Inr u, m')"
  using assms by (auto simp: process_event_at_def Let_def split: sum.splits if_splits prod.splits option.splits)

lemma refresh_and_commitE:
  assumes "refresh_and_commit cr api (st, draw) m = (Inr u, m')"
  obtains gen acts where "pm_state m' = st\<lparr>generation := gen, pending_actions := acts\<rparr>"
    "filter (\<lambda>a. \<not> is_subscription a) acts = filter (\<lambda>a. \<not> is_subscription a) (pending_actions st)"
    "pm_limits m' = pm_limits m" "pm_secret m' = pm_secret m"
proof -
  obtain authors nxt d where r: "refresh_subscription_actions cr (installed_message_authors m) False (pm_limits m) (st, draw)
      = Inr (authors, nxt, d)"
    and commit: "commit_next cr api nxt authors (with_ctx m (fst (pm_ctx m), d)) = (Inr u, m')"
    using assms by (auto simp: refresh_and_commit_def split: sum.splits prod.splits)
  from commit obtain gen where "pm_state m' = nxt\<lparr>generation := gen\<rparr>" "pm_limits m' = pm_limits m" "pm_secret m' = pm_secret m"
    by (elim commit_next_InrE) auto
  moreover have "nxt = st\<lparr>pending_actions := pending_actions nxt\<rparr>" by (rule refresh_keeps(1) [OF r])
  ultimately show ?thesis
    using that [where gen = gen and acts = "pending_actions nxt"] refresh_keeps(2) [OF r]
    by (metis PairwiseState.surjective PairwiseState.update_convs(2,9))
qed

end
