(* ===== verification/File_Store_Contract.thy ===== *)
theory File_Store_Contract
  imports File_Store_Properties Pairwise_Runs
begin

text \<open>
  The commit of the file store, step by step, and the contract of a store: the runtime on a file store has
  the invariants of the runtime on any store.
\<close>

declare split_paired_All [simp del] split_paired_Ex [simp del]

section \<open>Reading the highest generation\<close>

lemma then_do_done:
  assumes "then_do m f = (Inr y, s')"
  obtains x t where "m = (Inr x, t)" "f x t = (Inr y, s')"
  using assms by (cases "(m, f)" rule: then_do.cases) auto

lemma highest_loop_Cons:
  assumes "highest_loop ((nm, entry) # es) best s = (Inr h, s')"
  obtains (other) t where "entry = OtherEntry" "highest_loop es best t = (Inr h, s')"
  | (skip) bs t where "entry = File bs" "parse_generation_filename nm = Inr None" "highest_loop es best t = (Inr h, s')"
  | (state) bs g t where "entry = File bs" "parse_generation_filename nm = Inr (Some g)"
      "highest_loop es (if (case best of None \<Rightarrow> True | Some (current, _) \<Rightarrow> g > current) then Some (g, nm) else best) t
        = (Inr h, s')"
proof -
  obtain t where t: "(if entry = OtherEntry then highest_loop es best t
       else case parse_generation_filename nm of
         Inl e \<Rightarrow> (Inl e, t)
       | Inr None \<Rightarrow> highest_loop es best t
       | Inr (Some g) \<Rightarrow> highest_loop es
           (if (case best of None \<Rightarrow> True | Some (current, _) \<Rightarrow> g > current) then Some (g, nm) else best) t) = (Inr h, s')"
    using assms unfolding highest_loop.simps by (elim then_do_done)
  show thesis
  proof (cases entry)
    case (File bs)
    show thesis
    proof (cases "parse_generation_filename nm")
      case (Inr r)
      then show thesis using t File skip [of bs t] state [of bs _ t] by (cases r) auto
    qed (use t File in auto)
  qed (use t other in auto)
qed

lemma highest_loop_None:
  "highest_loop es best s = (Inr None, s') \<Longrightarrow>
     best = None \<and> (\<forall>nm bs g. (nm, File bs) \<in> set es \<longrightarrow> parse_generation_filename nm \<noteq> Inr (Some g))"
proof (induction es arbitrary: best s)
  case (Cons e es)
  obtain nm entry where e: "e = (nm, entry)" by (cases e)
  show ?case using Cons.prems [unfolded e]
  proof (cases rule: highest_loop_Cons)
    case (state bs g t)
    then show ?thesis using Cons.IH [OF state(3)] by (auto split: if_splits option.splits)
  qed (use Cons.IH e in \<open>fastforce+\<close>)
qed simp

lemma highest_loop_Some:
  "highest_loop es best s = (Inr (Some (g, nm)), s') \<Longrightarrow>
     (best = Some (g, nm) \<or> (\<exists>bs. (nm, File bs) \<in> set es \<and> parse_generation_filename nm = Inr (Some g)))
     \<and> (\<forall>nm' bs' g'. (nm', File bs') \<in> set es \<longrightarrow> parse_generation_filename nm' = Inr (Some g') \<longrightarrow> g' \<le> g)
     \<and> (\<forall>g' nm'. best = Some (g', nm') \<longrightarrow> g' \<le> g)"
proof (induction es arbitrary: best s)
  case (Cons e es)
  obtain nm0 entry where e: "e = (nm0, entry)" by (cases e)
  show ?case using Cons.prems [unfolded e]
  proof (cases rule: highest_loop_Cons)
    case (other t)
    then show ?thesis using Cons.IH [OF other(2)] e by auto
  next
    case (skip bs t)
    then show ?thesis using Cons.IH [OF skip(3)] e by auto
  next
    case (state bs g0 t)
    note IH = Cons.IH [OF state(3)]
    show ?thesis
    proof (cases best)
      case None
      then show ?thesis using IH state(1,2) e by auto
    next
      case (Some b)
      obtain g1 nm1 where b: "b = (g1, nm1)" by (cases b)
      show ?thesis
      proof (cases "g0 > g1")
        case True
        then show ?thesis using IH state(1,2) e Some b by auto
      next
        case False
        then show ?thesis using IH state(1,2) e Some b by auto
      qed
    qed
  qed
qed simp

lemma highest_durable:
  assumes "highest_generation_locked s = (Inr h, s')"
  shows "h = map_option (\<lambda>d. (fst d, state_path (fst d))) (durable_of (fs_files s))" "fs_files s' = fs_files s"
proof -
  obtain u s1 where io: "io_call ''read state directory'' s = (Inr u, s1)"
    and run: "highest_loop (bt_entries (fs_files s1)) None s1 = (Inr h, s')"
    using assms unfolding highest_generation_locked_def by (elim then_do_done)
  have s1: "fs_files s1 = fs_files s" using io by (auto simp: io_call_def)
  show "fs_files s' = fs_files s"
    using highest_loop_keeps [of "\<lambda>d. d = fs_files s1" s1 "bt_entries (fs_files s1)" None] run s1 by (simp add: keeps_def)
  have mem: "(nm, File bs) \<in> set (bt_entries (fs_files s1)) \<and> parse_generation_filename nm = Inr (Some g) \<longleftrightarrow>
      nm = state_path g \<and> bt_get (fs_files s) (state_path g) = Some (File bs)" for nm bs g
    using s1 by (auto simp: parse_generation_iff bt_get_entries)
  show "h = map_option (\<lambda>d. (fst d, state_path (fst d))) (durable_of (fs_files s))"
  proof (cases h)
    case None
    then have "durable_of (fs_files s) = None"
      using highest_loop_None [of _ None s1 s'] run mem by (metis durable_of_None)
    then show ?thesis using None by simp
  next
    case (Some x)
    obtain g nm where x: "x = (g, nm)" by (cases x)
    note spec = highest_loop_Some [OF run [unfolded Some x]]
    obtain bs where bs: "bt_get (fs_files s) (state_path g) = Some (File bs)" "nm = state_path g"
      using spec mem by auto
    moreover have "g' \<le> g" if "bt_get (fs_files s) (state_path g') = Some (File bs')" for g' bs'
      using spec mem that by blast
    ultimately have "durable_of (fs_files s) = Some (g, bs)" by (auto simp: durable_of_iff)
    then show ?thesis using Some x bs(2) by simp
  qed
qed

section \<open>The steps of a commit\<close>

lemma steady_same_states: "steady (same_states d0)"
  by (auto simp: same_states_def)

lemma write_temporary_keeps:
  assumes "steady P" "\<And>g. nm \<noteq> state_path g"
  shows "keeps P s (snd (write_temporary nm payload s))"
proof -
  have put: "keeps P s' (set_files (bt_insert nm e (fs_files s')) s')" for e s'
    using assms same_states_other(2) [OF assms(2)] by (intro keeps_set_files) blast
  show ?thesis
    unfolding write_temporary_def Let_def
    by (rule keeps_then_do [OF io_call_keeps], rule keeping.step_if, simp, rule keeps_trans [OF put], rule keeps_trans [OF put],
        rule keeps_then_do [OF io_call_keeps])
      (intro keeps_then_do io_call_keeps)
qed

lemma io_call_done: "io_call what s = (Inr u, t) \<Longrightarrow> io_result s = 0 \<and> t = s\<lparr>fs_io := tl (fs_io s)\<rparr>"
  by (simp add: io_call_def split: if_splits)

lemma set_files_simps [simp]: "fs_files (set_files d s) = d" "io_result (set_files d s) = io_result s"
  by (simp_all add: set_files_def io_result_def)

lemma write_temporary_done: "write_temporary nm payload s = (Inr u, s') \<Longrightarrow> bt_get (fs_files s') nm = Some (File payload)"
  unfolding write_temporary_def Let_def
  by (auto split: if_splits elim!: then_do_done dest!: io_call_done)

lemma rollback_snd: "snd (rollback_publish_locked tmp (Some dest) e s) =
    snd (sync_directory (snd (remove_file tmp (snd (remove_file dest s)))))"
  by (simp add: rollback_publish_locked_def split_beta)

lemma rollback_keeps:
  assumes "\<And>d. P d \<Longrightarrow> P (bt_remove tmp d)" "\<And>dest d. destination = Some dest \<Longrightarrow> P d \<Longrightarrow> P (bt_remove dest d)"
  shows "keeps P s (snd (rollback_publish_locked tmp destination e s))"
proof -
  let ?x1 = "case destination of None \<Rightarrow> (Inr (), s) | Some nm \<Rightarrow> remove_file nm s"
  let ?x2 = "remove_file tmp (snd ?x1)"
  have "keeps P s (snd ?x1)" using assms(2) by (auto intro: remove_file_keeps split: option.splits)
  moreover have "keeps P (snd ?x1) (snd ?x2)" by (rule remove_file_keeps) (rule assms(1))
  moreover have "keeps P (snd ?x2) (snd (sync_directory (snd ?x2)))" by (rule sync_keeps)
  moreover have "snd (rollback_publish_locked tmp destination e s) = snd (sync_directory (snd ?x2))"
    by (simp add: rollback_publish_locked_def split_beta)
  ultimately show ?thesis by (metis keeps_trans)
qed

lemma publish_cases:
  assumes "publish_temporary_locked tmp dest s = (r, s')" "\<And>g. tmp \<noteq> state_path g"
  obtains (failed) e where "r = Inl e" "\<And>P. steady P \<Longrightarrow> keeps P s s'"
  | (renamed) entry s1 where "r = Inr ()" "bt_get (fs_files s) tmp = Some entry" "\<not> bt_contains_key (fs_files s) dest"
      "\<And>P. keeps P s s1" "fs_files s1 = fs_files s" "s' = set_files (bt_insert dest entry (bt_remove tmp (fs_files s))) s1"
proof -
  have io: "keeps P s (s\<lparr>fs_io := i\<rparr>)" for P i by simp
  have roll: "keeps P s (snd (rollback_publish_locked tmp None e (s\<lparr>fs_io := i\<rparr>)))" if "steady P" for P e i
    using keeps_trans [OF io rollback_keeps [of P tmp None "s\<lparr>fs_io := i\<rparr>" e]] steady_remove [OF that assms(2)] by auto
  show ?thesis
  proof (cases r)
    case (Inl e)
    have "keeps P s s'" if "steady P" for P
      using assms(1) roll [OF that] Inl
      by (auto simp: publish_temporary_locked_def io_call_def split_beta split: if_splits option.splits sum.splits)
    then show ?thesis using failed Inl by blast
  next
    case (Inr u)
    let ?s1 = "s\<lparr>fs_io := tl (tl (fs_io s))\<rparr>"
    obtain entry where "bt_get (fs_files s) tmp = Some entry" "\<not> bt_contains_key (fs_files s) dest"
        "s' = set_files (bt_insert dest entry (bt_remove tmp (fs_files s))) ?s1"
      using assms(1) Inr
      by (auto simp: publish_temporary_locked_def io_call_def split_beta split: if_splits option.splits sum.splits)
    then show ?thesis using renamed [of entry ?s1] Inr by simp
  qed
qed

lemma durable_insert:
  assumes "\<And>h bs. bt_get d (state_path h) = Some (File bs) \<Longrightarrow> h \<le> gen"
  shows "durable_of (bt_insert (state_path gen) (File payload) d) = Some (gen, payload)"
  using assms by (auto simp: durable_of_iff state_path_inj)

lemma remove_older_keeps: "keeps (\<lambda>d. durable_of d = Some (gen, bs)) s (snd (remove_older_generations_locked gen s))"
proof -
  let ?P = "\<lambda>d. durable_of d = Some (gen, bs)"
  have rm: "keeps ?P s' (snd (remove_file (state_path g) s'))" if "g < gen" for g s'
    using that by (intro remove_file_keeps) (auto simp: durable_of_iff state_path_inj)
  have loop: "keeps ?P s' (snd (remove_older_loop gen es acc s'))" for es acc s'
  proof (induction es arbitrary: acc s')
    case (Cons e es)
    obtain nm entry where e: "e = (nm, entry)" by (cases e)
    let ?io = "then_do (io_call ''read state entry'' s') (\<lambda>_ s. io_call ''read state entry type'' s)"
    have io: "keeps ?P s' (snd ?io)" by (intro keeps_then_do io_call_keeps)
    have step: "keeps ?P s0 (snd (case remove_file nm s0 of (r, s) \<Rightarrow> remove_older_loop gen es (f r) s))"
      if "parse_generation_filename nm = Inr (Some g)" "\<not> g \<ge> gen" for g f s0
      using keeps_trans [OF rm [of g s0] Cons.IH] that by (auto simp: parse_generation_iff split_beta)
    have "keeps ?P (snd ?io) (snd (remove_older_loop gen ((nm, entry) # es) acc s'))" if "fst ?io = Inr u" for u
      using that Cons.IH step [of _ _ "\<lambda>r. note_removal ''remove older pairwise state'' r acc"]
      by (auto simp: split_beta split: sum.splits option.splits)
    moreover have "keeps ?P (snd ?io) (snd (remove_older_loop gen ((nm, entry) # es) acc s'))" if "fst ?io = Inl x" for x
      using that by (auto simp: split_beta split: sum.splits)
    ultimately have "keeps ?P (snd ?io) (snd (remove_older_loop gen ((nm, entry) # es) acc s'))" by (cases "fst ?io") auto
    then show ?case using io e keeps_trans by blast
  qed simp
  show ?thesis unfolding remove_older_generations_locked_def
    by (auto simp: io_call_def split_beta intro!: keeps_trans [OF _ keeps_trans [OF loop finish_keeps]])
qed

section \<open>The commit\<close>

text \<open>The checks of a commit, and the write that follows them.\<close>

definition commit_check :: "(string \<Rightarrow> bool) \<Rightarrow> u64 \<Rightarrow> bytes \<Rightarrow> FileStore \<Rightarrow> unit pres \<times> FileStore" where
  "commit_check ok gen payload s =
     then_do (ensure_file_payload_size (length payload), s) (\<lambda>_ s.
     then_do (previous_generation gen, s) (\<lambda>expected s.
     then_do (acquire_lock s) (\<lambda>_ s.
     then_do (recover_stale_temporaries_locked ok s) (\<lambda>_ s.
     then_do (highest_generation_locked s) (\<lambda>highest s.
       (ensure_current_generation gen expected (case highest of None \<Rightarrow> 0 | Some (current, _) \<Rightarrow> current), s))))))"

definition commit_write :: "(nat \<Rightarrow> string) \<Rightarrow> u64 \<Rightarrow> bytes \<Rightarrow> FileStore \<Rightarrow> unit pres \<times> FileStore" where
  "commit_write uuid gen payload s =
     (let temporary = temporary_path gen (uuid (fs_draw s)) in
       case write_temporary temporary payload (s\<lparr>fs_draw := Suc (fs_draw s)\<rparr>) of
         (Inl e, s) \<Rightarrow> (case rollback_publish_locked temporary None e s of (e, s) \<Rightarrow> (Inl e, s))
       | (Inr _, s) \<Rightarrow>
         then_do (publish_temporary_locked temporary (state_path gen) s) (\<lambda>_ s.
           case sync_directory s of
             (Inl e, s) \<Rightarrow> (case rollback_publish_locked temporary (Some (state_path gen)) e s of (e, s) \<Rightarrow> (Inl e, s))
           | (Inr _, s) \<Rightarrow> (Inr (), cleanup_after_durable_publish_locked temporary gen s)))"

lemma then_do_assoc: "then_do (then_do m f) g = then_do m (\<lambda>x s. then_do (f x s) g)"
  by (cases "(m, f)" rule: then_do.cases) auto

lemma file_commit_split: "file_commit uuid ok gen payload s =
    then_do (commit_check ok gen payload s) (\<lambda>_. commit_write uuid gen payload)"
  by (simp add: file_commit_def commit_check_def commit_write_def [abs_def] then_do_assoc Let_def)

lemma commit_check_keeps: "steady P \<Longrightarrow> keeps P s (snd (commit_check ok gen payload s))"
  unfolding commit_check_def
  by (intro keeping.step_check keeps_then_do acquire_lock_keeps recover_keeps highest_keeps keeping.step_return) assumption+

lemma steady_durable: "steady (\<lambda>d. durable_of d = D)"
  using same_states_durable by auto

lemma keeps_files: "keeps P s s' \<Longrightarrow> P (fs_files s) \<Longrightarrow> P (fs_files s')"
  by (simp add: keeps_def)

lemma keeps_weaken: "keeps P s s' \<Longrightarrow> P (fs_files s) \<Longrightarrow> (\<And>d. P d \<Longrightarrow> Q d) \<Longrightarrow> keeps Q s s'"
  by (fastforce simp: keeps_def)

definition current_of :: "(u64 \<times> bytes) option \<Rightarrow> u64" where
  "current_of d = (case d of None \<Rightarrow> 0 | Some x \<Rightarrow> fst x)"

lemma commit_check_done:
  assumes "commit_check ok gen payload s = (Inr u, t)"
  shows "gen \<noteq> 0 \<and> gen - 1 = current_of (durable_of (fs_files s))"
proof -
  obtain expected s1 s2 h x1 x2 where e: "previous_generation gen = Inr expected"
    and s1: "acquire_lock s = (Inr x1, s1)" and s2: "recover_stale_temporaries_locked ok s1 = (Inr x2, s2)"
    and h: "highest_generation_locked s2 = (Inr h, t)"
    and c: "ensure_current_generation gen expected (case h of None \<Rightarrow> 0 | Some (current, _) \<Rightarrow> current) = Inr u"
    using assms unfolding commit_check_def by (auto elim!: then_do_done)
  let ?D = "durable_of (fs_files s)"
  have "durable_of (fs_files s1) = ?D"
    using keeps_files [OF acquire_lock_keeps [OF steady_durable [of ?D], of s]] s1 by simp
  then have "durable_of (fs_files s2) = ?D"
    using keeps_files [OF recover_keeps [OF steady_durable [of ?D], of s1 ok]] s2 by simp
  then have "(case h of None \<Rightarrow> 0 | Some (current, _) \<Rightarrow> current) = current_of ?D"
    using highest_durable(1) [OF h] by (cases ?D) (auto simp: current_of_def)
  then show ?thesis
    using e c by (auto simp: previous_generation_def ensure_current_generation_def split: if_splits)
qed

lemma commit_write_cases:
  assumes "commit_write uuid gen payload s = (r, s')"
  obtains (failed) e where "r = Inl e" "\<And>P. steady P \<Longrightarrow> keeps P s s'"
  | (published) tmp t t1 u where "\<And>g. tmp \<noteq> state_path g" "\<And>P. steady P \<Longrightarrow> keeps P s t" "bt_get (fs_files t) (state_path gen) = None"
      "\<And>P. keeps P t t1" "fs_files t1 = fs_files t"
      "u = snd (sync_directory (set_files (bt_insert (state_path gen) (File payload) (bt_remove tmp (fs_files t))) t1))"
      "r = Inr () \<and> s' = cleanup_after_durable_publish_locked tmp gen u
        \<or> (\<exists>e e'. r = Inl e' \<and> s' = snd (rollback_publish_locked tmp (Some (state_path gen)) e u))"
proof -
  let ?tmp = "temporary_path gen (uuid (fs_draw s))" and ?s = "s\<lparr>fs_draw := Suc (fs_draw s)\<rparr>"
  have tmp: "?tmp \<noteq> state_path g" for g using other_names(2) by metis
  obtain w t where wt: "write_temporary ?tmp payload ?s = (w, t)" by fastforce
  have st: "keeps P s t" if "steady P" for P
    using keeps_trans [OF keeps_fields(2) write_temporary_keeps [OF that tmp]] wt by (metis snd_conv)
  show thesis
  proof (cases w)
    case (Inl e)
    obtain e' where "r = Inl e'" "s' = snd (rollback_publish_locked ?tmp None e t)"
      using assms wt Inl by (auto simp: commit_write_def Let_def split: prod.splits)
    moreover have "keeps P t (snd (rollback_publish_locked ?tmp None e t))" if "steady P" for P
      using rollback_keeps [of P ?tmp None] steady_remove [OF that tmp] by simp
    ultimately show thesis using failed [of e'] keeps_trans [OF st] by simp
  next
    case (Inr x)
    obtain p v where pv: "publish_temporary_locked ?tmp (state_path gen) t = (p, v)" by fastforce
    have rest: "then_do (p, v) (\<lambda>_ s. case sync_directory s of
             (Inl e, s) \<Rightarrow> (case rollback_publish_locked ?tmp (Some (state_path gen)) e s of (e, s) \<Rightarrow> (Inl e, s))
           | (Inr _, s) \<Rightarrow> (Inr (), cleanup_after_durable_publish_locked ?tmp gen s)) = (r, s')"
      using assms wt Inr pv by (simp add: commit_write_def Let_def)
    from pv tmp show thesis
    proof (cases rule: publish_cases)
      case (failed e)
      then have "r = Inl e" "s' = v" using rest by simp_all
      moreover have "keeps P s v" if "steady P" for P using keeps_trans [OF st [OF that] failed(2) [OF that]] .
      ultimately show thesis using that(1) by simp
    next
      case (renamed entry t1)
      have "entry = File payload" using write_temporary_done [of ?tmp payload ?s x t] wt Inr renamed(2) by simp
      moreover have "bt_get (fs_files t) (state_path gen) = None" using renamed(3) by (simp add: bt_contains_key_def)
      moreover obtain q u where "sync_directory v = (q, u)" by fastforce
      ultimately show thesis
        using published [OF tmp st _ renamed(4,5) refl] rest renamed(1,6) by (cases q) (auto simp: split_beta)
    qed
  qed
qed

lemma published_effect:
  assumes bounds: "\<forall>h bs. bt_get (fs_files t) (state_path h) = Some (File bs) \<longrightarrow> h \<le> gen"
    and new: "bt_get (fs_files t) (state_path gen) = None" and tmp: "\<And>g. tmp \<noteq> state_path g"
    and t1: "\<And>P. keeps P t t1" "fs_files t1 = fs_files t"
    and u: "u = snd (sync_directory (set_files (bt_insert (state_path gen) (File payload) (bt_remove tmp (fs_files t))) t1))"
  defines "Q \<equiv> \<lambda>d. durable_of d \<in> {durable_of (fs_files t), Some (gen, payload)}"
  shows "durable_of (fs_files u) = Some (gen, payload)" "keeps Q t u"
    "keeps Q u (snd (rollback_publish_locked tmp (Some (state_path gen)) e u))"
    "True \<notin> set (fs_removals t) \<Longrightarrow>
      durable_of (fs_files (snd (rollback_publish_locked tmp (Some (state_path gen)) e u))) = durable_of (fs_files t)"
proof -
  let ?d = "fs_files t" and ?u = "bt_insert (state_path gen) (File payload) (bt_remove tmp (fs_files t))"
  note bound = bounds [rule_format]
  have files: "fs_files u = ?u" by (simp add: u)
  have [simp]: "state_path h \<noteq> tmp" for h using tmp by metis
  show dur: "durable_of (fs_files u) = Some (gen, payload)"
    unfolding files using bound by (intro durable_insert) simp
  have "keeps Q t1 u"
    unfolding u using dur files by (intro keeps_trans [OF keeps_set_files sync_keeps]) (simp add: Q_def)
  then show "keeps Q t u" using t1 keeps_trans by blast
  define R where "R d \<longleftrightarrow> (\<forall>h. h \<noteq> gen \<longrightarrow> bt_get d (state_path h) = bt_get ?d (state_path h))
    \<and> bt_get d (state_path gen) \<in> {None, Some (File payload)}" for d
  have RQ: "Q d" if "R d" for d
  proof (cases "bt_get d (state_path gen)")
    case None
    then have "same_states ?d d" using that new unfolding R_def same_states_def by metis
    then show ?thesis using same_states_durable by (simp add: Q_def)
  next
    case (Some x)
    have "h \<le> gen" if "bt_get d (state_path h) = Some (File bs)" for h bs
      using \<open>R d\<close> bound [of h bs] that unfolding R_def by (cases "h = gen") auto
    then have "durable_of d = Some (gen, payload)" using Some that by (auto simp: durable_of_iff R_def)
    then show ?thesis by (simp add: Q_def)
  qed
  have Ru: "R (fs_files u)" by (auto simp: R_def files state_path_inj)
  have tmpR: "R d \<Longrightarrow> R (bt_remove tmp d)" for d by (simp add: R_def)
  have destR: "R d \<Longrightarrow> R (bt_remove (state_path gen) d)" for d by (auto simp: R_def state_path_inj)
  have "keeps R u (snd (rollback_publish_locked tmp (Some (state_path gen)) e u))"
    using tmpR destR by (intro rollback_keeps) blast+
  then show "keeps Q u (snd (rollback_publish_locked tmp (Some (state_path gen)) e u))"
    using Ru RQ by (rule keeps_weaken)
  assume ok: "True \<notin> set (fs_removals t)"
  let ?v = "snd (remove_file (state_path gen) u)"
  have "set (fs_removals u) \<subseteq> set (fs_removals t)" using \<open>keeps Q t u\<close> by (simp add: keeps_def)
  then have "\<not> (fs_removals u \<noteq> [] \<and> hd (fs_removals u))" using ok hd_in_set by force
  then have "fs_files ?v = bt_remove (state_path gen) ?u" by (auto simp: remove_file_def files Let_def)
  then have "same_states ?d (fs_files ?v)" using new by (auto simp: same_states_def state_path_inj)
  moreover have "keeps (same_states ?d) ?v (snd (rollback_publish_locked tmp (Some (state_path gen)) e u))"
    unfolding rollback_snd by (rule keeps_trans [OF remove_file_keeps sync_keeps]) (simp add: same_states_def)
  ultimately show "durable_of (fs_files (snd (rollback_publish_locked tmp (Some (state_path gen)) e u))) = durable_of ?d"
    using keeps_files same_states_durable by blast
qed

lemma current_bound:
  assumes "gen \<noteq> 0" "gen - 1 = current_of (durable_of d)" "bt_get d (state_path h) = Some (File bs)"
  shows "h \<le> gen"
proof -
  obtain g b where d: "durable_of d = Some (g, b)" using assms(3) durable_of_None [of d] by (cases "durable_of d") auto
  then have "h \<le> g" using assms(3) durable_of_iff by blast
  moreover have "g < gen" using assms(1,2) d by (simp add: current_of_def) (metis measure_unat word_less_nat_alt)
  ultimately show ?thesis by simp
qed

lemma cleanup_publish_keeps:
  assumes "\<And>g. tmp \<noteq> state_path g"
  shows "keeps (\<lambda>d. durable_of d = Some (gen, bs)) s (snd (discard_temporary_locked tmp s))"
    "keeps (\<lambda>d. durable_of d = Some (gen, bs)) s (cleanup_after_durable_publish_locked tmp gen s)"
proof -
  have "keeps (\<lambda>d. durable_of d = Some (gen, bs)) s (snd (remove_file tmp s))"
    using steady_remove [OF steady_durable assms] by (intro remove_file_keeps)
  then show discard: "keeps (\<lambda>d. durable_of d = Some (gen, bs)) s (snd (discard_temporary_locked tmp s))"
    using keeps_trans [OF _ sync_keeps] by (auto simp: discard_temporary_locked_def split: prod.splits sum.splits)
  show "keeps (\<lambda>d. durable_of d = Some (gen, bs)) s (cleanup_after_durable_publish_locked tmp gen s)"
    unfolding cleanup_after_durable_publish_locked_def by (rule keeps_trans [OF discard remove_older_keeps])
qed

lemma file_commit_effect:
  assumes "file_commit uuid ok gen payload s = (r, s')"
  defines "D \<equiv> durable_of (fs_files s)"
  shows "keeps (\<lambda>d. durable_of d \<in> {D, Some (gen, payload)}) s s'"
    "r = Inr u \<Longrightarrow> gen \<noteq> 0 \<and> gen - 1 = current_of D \<and> durable_of (fs_files s') = Some (gen, payload)"
    "r = Inl e \<Longrightarrow> True \<notin> set (fs_removals s) \<Longrightarrow> durable_of (fs_files s') = D"
proof -
  let ?Q = "\<lambda>d. durable_of d \<in> {D, Some (gen, payload)}"
  have Q: "steady ?Q" using same_states_durable by auto
  obtain c t where ct: "commit_check ok gen payload s = (c, t)" by fastforce
  have st: "keeps P s t" if "steady P" for P using commit_check_keeps [OF that] ct by (metis snd_conv)
  have D: "durable_of (fs_files t) = D" using keeps_files [OF st [OF steady_durable]] D_def by blast
  have "keeps ?Q s s' \<and> (r = Inr () \<longrightarrow> gen \<noteq> 0 \<and> gen - 1 = current_of D \<and> durable_of (fs_files s') = Some (gen, payload))
    \<and> (is_ok r \<or> True \<in> set (fs_removals s) \<or> durable_of (fs_files s') = D)"
  proof (cases c)
    case (Inl e)
    then have "r = Inl e" "s' = t" using assms(1) ct by (simp_all add: file_commit_split)
    then show ?thesis using st [OF Q] D by simp
  next
    case (Inr x)
    then have w: "commit_write uuid gen payload t = (r, s')" using assms(1) ct by (simp add: file_commit_split)
    have gen: "gen \<noteq> 0" "gen - 1 = current_of D" using commit_check_done ct Inr unfolding D_def by blast+
    from w show ?thesis
    proof (cases rule: commit_write_cases)
      case (failed e)
      then show ?thesis
        using keeps_trans [OF st [OF Q] failed(2) [OF Q]] keeps_files [OF failed(2) [OF steady_durable] D] by simp
    next
      case (published tmp t2 t1 u)
      have D2: "durable_of (fs_files t2) = D" by (rule keeps_files [OF published(2) [OF steady_durable] D])
      have bound: "\<forall>h bs. bt_get (fs_files t2) (state_path h) = Some (File bs) \<longrightarrow> h \<le> gen"
        using current_bound [of gen "fs_files t2"] gen D2 by simp
      note eff = published_effect [OF bound published(3,1,4,5,6), unfolded D2]
      have su: "keeps ?Q s u" by (rule keeps_trans [OF st [OF Q] keeps_trans [OF published(2) [OF Q] eff(2)]])
      show ?thesis using published(7)
      proof (elim disjE conjE exE)
        assume ok: "r = Inr ()" "s' = cleanup_after_durable_publish_locked tmp gen u"
        note kc = cleanup_publish_keeps(2) [OF published(1), of gen payload u]
        have "keeps ?Q u s'" using keeps_weaken [where Q = ?Q, OF kc] eff(1) ok(2) by simp
        then show ?thesis using keeps_trans [OF su] gen keeps_files [OF kc] eff(1) ok by simp
      next
        fix e e' assume f: "r = Inl e'" "s' = snd (rollback_publish_locked tmp (Some (state_path gen)) e u)"
        have "set (fs_removals t2) \<subseteq> set (fs_removals s)"
          using keeps_trans [OF st [OF Q] published(2) [OF Q]] by (simp add: keeps_def)
        then show ?thesis using keeps_trans [OF su eff(3) [of e]] eff(4) [of e] f by auto
      qed
    qed
  qed
  then show "keeps ?Q s s'" "r = Inr u \<Longrightarrow> gen \<noteq> 0 \<and> gen - 1 = current_of D \<and> durable_of (fs_files s') = Some (gen, payload)"
    "r = Inl e \<Longrightarrow> True \<notin> set (fs_removals s) \<Longrightarrow> durable_of (fs_files s') = D" by auto
qed

section \<open>Load and cleanup\<close>

lemma file_load_keeps: "steady P \<Longrightarrow> keeps P s (snd (file_load ok s))"
  unfolding file_load_def read_state_locked_def
  by (intro keeps_then_do acquire_lock_keeps recover_keeps highest_keeps keeping.step_option keeping.step_return)
    (auto simp: split_beta simp del: io_call_simps intro!: keeps_then_do io_call_keeps keeping.step_if keeping.step_return
      keeping.step_check split: option.splits Entry.splits)

lemma read_state_done: "read_state_locked nm s = (Inr bs, s') \<Longrightarrow> bt_get (fs_files s) nm = Some (File bs)"
  unfolding read_state_locked_def
  by (auto elim!: then_do_done dest!: io_call_done split: option.splits Entry.splits if_splits)

lemma file_load_done:
  assumes "file_load ok s = (Inr v, s')"
  shows "v = map_option snd (durable_of (fs_files s))"
proof -
  let ?D = "durable_of (fs_files s)"
  obtain s1 s2 h t x1 x2 where s1: "acquire_lock s = (Inr x1, s1)" and s2: "recover_stale_temporaries_locked ok s1 = (Inr x2, s2)"
    and h: "highest_generation_locked s2 = (Inr h, t)"
    and v: "(case h of None \<Rightarrow> (Inr None, t) | Some (_, nm) \<Rightarrow> then_do (read_state_locked nm t) (\<lambda>bs s. (Inr (Some bs), s))) = (Inr v, s')"
    using assms unfolding file_load_def by (elim then_do_done)
  have "durable_of (fs_files s1) = ?D" using keeps_files [OF acquire_lock_keeps [OF steady_durable [of ?D], of s]] s1 by simp
  then have "durable_of (fs_files s2) = ?D" using keeps_files [OF recover_keeps [OF steady_durable [of ?D], of s1 ok]] s2 by simp
  then have hD: "h = map_option (\<lambda>d. (fst d, state_path (fst d))) ?D" and tD: "durable_of (fs_files t) = ?D"
    using highest_durable [OF h] by simp_all
  show ?thesis
  proof (cases ?D)
    case None
    then show ?thesis using v hD by simp
  next
    case (Some x)
    obtain g b where x: "x = (g, b)" by (cases x)
    then have "durable_of (fs_files t) = Some (g, b)" using tD Some by simp
    then have "bt_get (fs_files t) (state_path g) = Some (File b)" unfolding durable_of_iff by blast
    moreover have "then_do (read_state_locked (state_path g) t) (\<lambda>bs s. (Inr (Some bs), s)) = (Inr v, s')"
      using v by (simp add: hD Some x)
    then obtain bs where "read_state_locked (state_path g) t = (Inr bs, s')" "v = Some bs" by (auto elim: then_do_done)
    ultimately show ?thesis using read_state_done [of "state_path g" t bs s'] Some x by simp
  qed
qed

lemma file_cleanup_keeps: "keeps (\<lambda>d. durable_of d = Some (gen, bs)) s (file_cleanup gen s)"
proof -
  obtain r t where a: "acquire_lock s = (r, t)" by fastforce
  have st: "keeps (\<lambda>d. durable_of d = Some (gen, bs)) s t" using acquire_lock_keeps [OF steady_durable, of "Some (gen, bs)" s] a by simp
  then show ?thesis using keeps_trans [OF st remove_older_keeps] by (auto simp: file_cleanup_def a split: sum.splits)
qed

section \<open>The contract\<close>

abbreviation file_durable :: "FileStore \<Rightarrow> (u64 \<times> bytes) option" where
  "file_durable s \<equiv> durable_of (fs_files s)"

text \<open>No removal of a file fails.\<close>

abbreviation removals_succeed :: "FileStore \<Rightarrow> bool" where
  "removals_succeed s \<equiv> True \<notin> set (fs_removals s)"

lemma keeps_removals: "keeps P s s' \<Longrightarrow> removals_succeed s \<Longrightarrow> removals_succeed s'"
  by (auto simp: keeps_def)

interpretation files: pairwise_store "file_store uuid ok" file_durable removals_succeed for uuid ok
proof unfold_locales
  fix s v s' assume "store_load (file_store uuid ok) s = (Inr v, s')"
  then show "v = map_option snd (file_durable s)" using file_load_done by (simp add: file_store_def)
next
  fix s r s' assume a: "removals_succeed s" "store_load (file_store uuid ok) s = (r, s')"
  then have "keeps (\<lambda>d. durable_of d = file_durable s) s s'"
    using file_load_keeps [OF steady_durable, of "file_durable s" s ok] by (simp add: file_store_def)
  then show "file_durable s' = file_durable s \<and> removals_succeed s'" using a(1) keeps_removals keeps_files by blast
next
  fix s gen payload u s' assume a: "removals_succeed s" "store_commit (file_store uuid ok) gen payload s = (Inr u, s')"
  then have "file_commit uuid ok gen payload s = (Inr u, s')" by (simp add: file_store_def)
  note eff = file_commit_effect(1,2) [OF this]
  show "gen \<noteq> 0 \<and> gen - 1 = (case file_durable s of None \<Rightarrow> 0 | Some d \<Rightarrow> fst d) \<and> file_durable s' = Some (gen, payload) \<and> removals_succeed s'"
    using eff(2) [OF refl] keeps_removals [OF eff(1) a(1)] by (simp add: current_of_def)
next
  fix s gen payload e s' assume a: "removals_succeed s" "store_commit (file_store uuid ok) gen payload s = (Inl e, s')"
  then have "file_commit uuid ok gen payload s = (Inl e, s')" by (simp add: file_store_def)
  note eff = file_commit_effect(1,3) [OF this]
  show "file_durable s' = file_durable s \<and> removals_succeed s'" using eff(2) [OF refl a(1)] keeps_removals [OF eff(1) a(1)] by simp
next
  fix s gen payload assume a: "removals_succeed s" "file_durable s = Some (gen, payload)"
  note k = file_cleanup_keeps [of gen payload s]
  show "file_durable (store_cleanup (file_store uuid ok) gen s) = file_durable s
      \<and> removals_succeed (store_cleanup (file_store uuid ok) gen s)"
    using keeps_removals [OF k a(1)] keeps_files [OF k a(2)] a(2) by (simp add: file_store_def)
qed

section \<open>Durability\<close>

text \<open>
  C39. A commit to the file store is atomic, whatever calls to the system fail and wherever it stops. In every directory
  that it passes through, the highest generation is the old one or the new payload, and a load from this directory that
  succeeds returns one of the two. When the commit succeeds, the new payload is durable and its generation is one above the
  old one; when it fails and no removal of a file failed, the old generation is.
\<close>

theorem file_commit_atomic:
  assumes "file_commit uuid ok gen payload s = (r, s')"
  shows "(\<exists>l. fs_log s' = fs_log s @ l \<and> (\<forall>d \<in> set (fs_files s' # l).
        (durable_of d = durable_of (fs_files s) \<or> durable_of d = Some (gen, payload))
        \<and> (\<forall>ok t v t'. fs_files t = d \<longrightarrow> file_load ok t = (Inr v, t') \<longrightarrow>
             v = map_option snd (durable_of (fs_files s)) \<or> v = Some payload)))
    \<and> (r = Inr () \<longrightarrow> durable_of (fs_files s') = Some (gen, payload) \<and> gen \<noteq> 0
        \<and> gen - 1 = (case durable_of (fs_files s) of None \<Rightarrow> 0 | Some (g, _) \<Rightarrow> g))
    \<and> (r \<noteq> Inr () \<and> True \<notin> set (fs_removals s) \<longrightarrow> durable_of (fs_files s') = durable_of (fs_files s))"
proof (intro conjI)
  let ?Q = "\<lambda>d. durable_of d \<in> {durable_of (fs_files s), Some (gen, payload)}"
  note eff = file_commit_effect [OF assms]
  obtain l where l: "fs_log s' = fs_log s @ l" "\<forall>d \<in> set (fs_files s' # l). ?Q d"
    using eff(1) unfolding keeps_def by auto
  have "v = map_option snd (durable_of (fs_files s)) \<or> v = Some payload"
    if "?Q (fs_files t)" "file_load ok t = (Inr v, t')" for ok t v t'
    using file_load_done [OF that(2)] that(1) by auto
  then show "\<exists>l. fs_log s' = fs_log s @ l \<and> (\<forall>d \<in> set (fs_files s' # l).
        (durable_of d = durable_of (fs_files s) \<or> durable_of d = Some (gen, payload))
        \<and> (\<forall>ok t v t'. fs_files t = d \<longrightarrow> file_load ok t = (Inr v, t') \<longrightarrow>
             v = map_option snd (durable_of (fs_files s)) \<or> v = Some payload))"
    using l by (intro exI [of _ l]) blast
  show "r = Inr () \<longrightarrow> durable_of (fs_files s') = Some (gen, payload) \<and> gen \<noteq> 0
        \<and> gen - 1 = (case durable_of (fs_files s) of None \<Rightarrow> 0 | Some (g, _) \<Rightarrow> g)"
    using eff(2) by (simp add: current_of_def split: option.splits prod.splits)
  show "r \<noteq> Inr () \<and> True \<notin> set (fs_removals s) \<longrightarrow> durable_of (fs_files s') = durable_of (fs_files s)"
    using eff(3) by (cases r) auto
qed

text \<open>
  C40. The runtime on a file store whose removals succeed, whatever other calls fail: after any calls and restarts its state
  is well-formed, the highest generation of the directory is the one of the state, and whoever loads this directory
  opens exactly this state under the identity's key.
\<close>

theorem file_state_durable:
  assumes "pairwise_laws cr"
    "pairwise_run cr (file_store uuid ok) (\<lambda>s. file_durable s = None \<and> removals_succeed s) sk l m"
  shows "well_formed cr (pk_of_sk cr sk) l (pm_state m)
    \<and> (\<exists>payload. durable_of (fs_files (pm_store m)) = Some (generation (pm_state m), payload)
        \<and> open_state cr payload sk l = Inr (pm_state m))
    \<and> (\<forall>ok t v t'. fs_files t = fs_files (pm_store m) \<longrightarrow> file_load ok t = (Inr v, t') \<longrightarrow>
        (\<exists>payload. v = Some payload \<and> open_state cr payload sk l = Inr (pm_state m)))"
proof -
  obtain payload where d: "durable_of (fs_files (pm_store m)) = Some (generation (pm_state m), payload)"
    "open_state cr payload sk l = Inr (pm_state m)" and "well_formed cr (pk_of_sk cr sk) l (pm_state m)"
    using files.run_sync [OF assms] by (auto simp: in_sync_def validate_exact)
  then show ?thesis using file_load_done by fastforce
qed

end
