(* ===== verification/Pairwise_Properties.thy ===== *)
theory Pairwise_Properties
  imports Pairwise_Runs
begin

text \<open>
  The properties of the pairwise runtime: what holds of every manager reached on a memory store, what a
  failed call and a restart leave, and what sending, receiving and retiring do.
\<close>

declare split_paired_All [simp del] split_paired_Ex [simp del]

abbreviation empty_memory :: "MemoryStore \<Rightarrow> bool" where
  "empty_memory s \<equiv> memory_durable s = None \<and> memory_inv s"

section \<open>Runs on a memory store\<close>

text \<open>
  C32. After any calls and restarts, the state of a manager is well-formed within its limits, the store holds
  its generation, and the stored payload opens to exactly this state under the identity's key.
\<close>

theorem pairwise_state_durable:
  assumes "pairwise_laws cr" "pairwise_run cr memory_store empty_memory sk l m"
  shows "well_formed cr (pk_of_sk cr sk) l (pm_state m) \<and> mem_generation (pm_store m) = generation (pm_state m)
    \<and> (\<exists>payload. mem_payload (pm_store m) = Some payload \<and> open_state cr payload sk l = Inr (pm_state m))"
  using memory.run_sync [OF assms] by (auto simp: in_sync_def validate_exact memory_durable_def)

text \<open>
  C33. In every reached manager a peer has exactly one session, no event id is kept twice, and the installed
  subscription lists, without repetition and within the limit, exactly the keys from which some peer may send next.
\<close>

theorem pairwise_subscribed:
  assumes "pairwise_laws cr" "pairwise_run cr memory_store empty_memory sk l m"
  shows "single_sessions (pm_state m) \<and> distinct (seen_event_ids (pm_state m))
    \<and> set (installed_message_authors m) = tracked_authors cr (pm_state m) \<and> distinct (installed_message_authors m)
    \<and> (length (installed_message_authors m) \<le> max_subscription_authors l \<or> installed_message_authors m = [])"
proof -
  have "run_inv cr m" by (rule memory.run_keeps_inv [OF assms])
  moreover have "pm_limits m = l" using memory.run_sync [OF assms] by simp
  ultimately show ?thesis using message_authors_tracked [of cr l "pm_state m"] by (auto simp: run_inv_def)
qed

text \<open>
  C34. A call that fails changes neither the state of the manager, nor its installed subscription, nor what
  the store holds.
\<close>

theorem pairwise_failed_call:
  assumes "do_call cr memory_store call m = (Inl e, m')" "memory_inv (pm_store m)"
  shows "pm_state m' = pm_state m \<and> installed_message_authors m' = installed_message_authors m
    \<and> memory_durable (pm_store m') = memory_durable (pm_store m)"
proof -
  have "transaction cr memory_store m (Inl e :: unit pres, m')"
    using do_call_transaction [of cr memory_store m call] assms(1) by simp
  from memory.transaction_error [OF this assms(2)] show ?thesis by simp
qed

text \<open>
  C35. A manager opened again on its store has the peers with their sessions, the windows of seen events, the
  response bindings, the message clock and all pending actions but subscriptions it had before, at any later time.
\<close>

theorem pairwise_restart:
  assumes "pairwise_laws cr" "pairwise_run cr memory_store empty_memory sk l m"
    and "manager_open cr memory_store (pm_store m) sk l now ctx = (Inr m', s')"
  shows "peers (pm_state m') = peers (pm_state m) \<and> seen_event_ids (pm_state m') = seen_event_ids (pm_state m)
    \<and> seen_inner_event_ids (pm_state m') = seen_inner_event_ids (pm_state m)
    \<and> response_event_peers (pm_state m') = response_event_peers (pm_state m)
    \<and> last_message_millis (pm_state m') = last_message_millis (pm_state m)
    \<and> filter (\<lambda>a. \<not> is_subscription a) (pending_actions (pm_state m'))
        = filter (\<lambda>a. \<not> is_subscription a) (pending_actions (pm_state m))"
proof -
  have sync: "in_sync cr memory_durable m" "memory_inv (pm_store m)" "pm_secret m = sk" "pm_limits m = l"
    using memory.run_sync [OF assms(1,2)] by auto
  from memory.open_again(5) [OF assms(1) _ sync(1,2), of now ctx m' s'] assms(3) sync(3,4) obtain gen acts where
    "pm_state m' = (fst (upgrade_invite now (pm_state m)))\<lparr>generation := gen, pending_actions := acts\<rparr>"
    "filter (\<lambda>a. \<not> is_subscription a) acts = filter (\<lambda>a. \<not> is_subscription a) (pending_actions (pm_state m))" by auto
  then show ?thesis by (simp add: upgrade_invite_def)
qed

section \<open>Receiving\<close>

lemma receive_messageE:
  assumes "receive_message cr now eid (hex, i, plan) m = Inr nd"
  obtains decoded inner nxt where "decode_strict cr (receive_payload plan) = Inr decoded"
    "pk_parse cr hex = Some (rumor_pubkey (decoded_event decoded))"
    "map_option (hex_encode cr) (rumor_id (decoded_event decoded)) = Some inner"
    "set_session_state (pm_state m) hex i (receive_next_state plan) = Inr nxt"
    "seen_event_ids (fst nd) = seen_event_ids (push_seen_event nxt eid (max_seen_event_ids (pm_limits m)))"
    "pending_actions (fst nd) = pending_actions (pm_state m) \<or>
     (\<exists>a j. pending_actions (fst nd) = pending_actions (pm_state m) @ [a]
       \<and> action_kind a = Delivery hex j inner eid (decoded_expiration decoded)
       \<and> unsigned_to_json cr (decoded_event decoded) = Some j
       \<and> (case decoded_expiration decoded of None \<Rightarrow> True | Some e \<Rightarrow> e > now) \<and> \<not> has_seen_inner_event (pm_state m) inner)"
proof -
  from assms obtain decoded inner nxt where d: "decode_strict cr (receive_payload plan) = Inr decoded"
    "pk_parse cr hex = Some (rumor_pubkey (decoded_event decoded))"
    "map_option (hex_encode cr) (rumor_id (decoded_event decoded)) = Some inner"
    "set_session_state (pm_state m) hex i (receive_next_state plan) = Inr nxt"
    and rest: "let due = (case decoded_expiration decoded of None \<Rightarrow> True | Some e \<Rightarrow> e > now)
        \<and> \<not> has_seen_inner_event (pm_state m) inner;
        nxt' = push_seen_inner_event (push_seen_event nxt eid (max_seen_event_ids (pm_limits m))) inner
          (max_seen_inner_event_ids (pm_limits m)) in
      if due then (\<exists>j. unsigned_to_json cr (decoded_event decoded) = Some j
        \<and> nd = push_action cr (Delivery hex j inner eid (decoded_expiration decoded)) (nxt', snd (pm_ctx m)))
      else nd = (nxt', snd (pm_ctx m))"
    by (auto simp: receive_message_def Let_def result_simps split: if_splits)
  have "pending_actions nxt = pending_actions (pm_state m)" using d(4) by (elim set_session_stateE) simp
  then show ?thesis using rest that [OF d] by (auto simp: Let_def split: if_splits)
qed

lemma new_action_origin:
  assumes "filter (\<lambda>a. \<not> is_subscription a) acts = filter (\<lambda>a. \<not> is_subscription a) (as @ bs)"
    and "a \<in> set acts" "a \<notin> set as" "\<not> is_subscription a"
  shows "a \<in> set bs"
proof -
  have "a \<in> set (filter (\<lambda>a. \<not> is_subscription a) acts)" using assms(2,4) by simp
  then show ?thesis using assms(1,3) by auto
qed

text \<open>
  C36. Authenticated delivery: an inner event is queued for delivery only while processing a signed event that
  was not seen before, that a session of the named peer decrypts, and whose content is a valid, unexpired inner event
  written by this peer with an id that was not delivered before.
\<close>

theorem pairwise_delivery_sound:
  assumes "process_event_at cr api ev now m = (Inr (), m')" "action_kind a = Delivery hex j inner outer expires"
    and "a \<in> set (pending_actions (pm_state m'))" "a \<notin> set (pending_actions (pm_state m))"
  shows "event_verify cr ev \<and> outer = hex_encode cr (ev_id ev)
    \<and> \<not> has_seen_event (pm_state m) outer \<and> \<not> has_seen_inner_event (pm_state m) inner
    \<and> (case expires of None \<Rightarrow> True | Some e \<Rightarrow> e > now)
    \<and> (\<exists>p s envelope rng plan decoded. bt_get (peers (pm_state m)) hex = Some p \<and> s \<in> set (peer_sessions p)
        \<and> parse_message_event cr ev = Inr envelope
        \<and> fst (plan_receive cr (session_from_state (record_state s)) rng envelope) = Inr plan
        \<and> decode_strict cr (receive_payload plan) = Inr decoded \<and> unsigned_to_json cr (decoded_event decoded) = Some j
        \<and> map_option (hex_encode cr) (rumor_id (decoded_event decoded)) = Some inner
        \<and> pk_parse cr hex = Some (rumor_pubkey (decoded_event decoded)))"
  using assms(1)
proof (cases rule: process_event_cases)
  case seen
  then show ?thesis using assms(3,4) by simp
next
  case (received envelope hex' i plan c nd)
  have verify: "event_verify cr ev" using received(2) by (auto simp: relay_checks_def result_simps)
  have envelope: "parse_message_event cr ev = Inr envelope"
    using received(3) by (auto simp: incoming_envelope_def result_simps split: if_splits)
  obtain p s rng where s: "bt_get (peers (pm_state m)) hex' = Some p" "s \<in> set (peer_sessions p)"
      "fst (plan_receive cr (session_from_state (record_state s)) rng envelope) = Inr plan"
    using received(4) by (metis nth_mem prod.collapse session_candidates_mem try_sessionsE)
  obtain st d where nd: "nd = (st, d)" by (cases nd)
  have not_sub: "\<not> is_subscription a" using assms(2) by (simp add: is_subscription_def)
  from received(5) obtain decoded inner' nxt where d: "decode_strict cr (receive_payload plan) = Inr decoded"
    "pk_parse cr hex' = Some (rumor_pubkey (decoded_event decoded))"
    "map_option (hex_encode cr) (rumor_id (decoded_event decoded)) = Some inner'"
    "pending_actions st = pending_actions (pm_state m) \<or>
     (\<exists>a j. pending_actions st = pending_actions (pm_state m) @ [a]
       \<and> action_kind a = Delivery hex' j inner' (hex_encode cr (ev_id ev)) (decoded_expiration decoded)
       \<and> unsigned_to_json cr (decoded_event decoded) = Some j
       \<and> (case decoded_expiration decoded of None \<Rightarrow> True | Some e \<Rightarrow> e > now) \<and> \<not> has_seen_inner_event (pm_state m) inner')"
    by (elim receive_messageE) (auto simp: nd)
  from received(6) obtain gen acts where acts: "pm_state m' = st\<lparr>generation := gen, pending_actions := acts\<rparr>"
      "filter (\<lambda>a. \<not> is_subscription a) acts = filter (\<lambda>a. \<not> is_subscription a) (pending_actions st)"
    unfolding nd by (rule refresh_and_commitE)
  have "a \<in> set acts" using assms(3) acts(1) by simp
  have "pending_actions st \<noteq> pending_actions (pm_state m)"
    using new_action_origin [of acts "pending_actions (pm_state m)" "[]" a] acts(2) \<open>a \<in> set acts\<close> assms(4) not_sub by auto
  then obtain a' j' where a': "pending_actions st = pending_actions (pm_state m) @ [a']"
       "action_kind a' = Delivery hex' j' inner' (hex_encode cr (ev_id ev)) (decoded_expiration decoded)"
       "unsigned_to_json cr (decoded_event decoded) = Some j'"
       "case decoded_expiration decoded of None \<Rightarrow> True | Some e \<Rightarrow> e > now" "\<not> has_seen_inner_event (pm_state m) inner'"
    using d(4) by blast
  have "a = a'" using new_action_origin [of acts "pending_actions (pm_state m)" "[a']" a] acts(2) \<open>a \<in> set acts\<close> assms(4) not_sub a'(1)
    by simp
  then have "hex = hex'" "j = j'" "inner = inner'" "outer = hex_encode cr (ev_id ev)" "expires = decoded_expiration decoded"
    using a'(2) assms(2) by simp_all
  then show ?thesis using verify envelope s d(1-3) a'(3-5) received(1) by blast
qed

section \<open>Replays\<close>

lemma retain_seen_last:
  "n \<le> length (filter (\<lambda>x. x \<notin> set active) xs) \<Longrightarrow> e \<in> set (fst (retain_seen active n (xs @ [e])))"
proof (induction xs arbitrary: n)
  case (Cons x xs)
  then show ?case using Cons.IH [of n] Cons.IH [of "n - 1"] by (auto simp: split_beta split: if_splits)
qed simp

lemma push_seen_event_mem:
  assumes "distinct (seen_event_ids st)" "length (seen_event_ids st) \<le> limit" "length (active_responses st) < limit"
  shows "e \<in> set (seen_event_ids (push_seen_event st e limit))"
proof (cases "e \<in> set (seen_event_ids st) \<or> length (seen_event_ids st) < limit")
  case True
  then show ?thesis by (auto simp: push_seen_event_def Let_def)
next
  case False
  let ?seen = "seen_event_ids st" and ?active = "active_responses st"
  have full: "length ?seen = limit" using False assms(2) by simp
  have "\<not> set ?seen \<subseteq> set ?active"
  proof
    assume "set ?seen \<subseteq> set ?active"
    then have "card (set ?seen) \<le> card (set ?active)" by (intro card_mono) auto
    then show False using assms(1,3) full card_length [of ?active] by (simp add: distinct_card)
  qed
  then obtain x where "x \<in> set (filter (\<lambda>x. x \<notin> set ?active) ?seen)" by auto
  then have "1 \<le> length (filter (\<lambda>x. x \<notin> set ?active) ?seen)" by (metis One_nat_def Suc_leI length_pos_if_in_set)
  from retain_seen_last [OF this, of e] show ?thesis
    using False full by (simp add: push_seen_event_def split_beta Let_def)
qed

lemma active_responses_length:
  assumes "single_sessions st"
  shows "length (active_responses st) \<le> bt_len (peers st)"
proof -
  have filter_le: "length (List.map_filter f xs) \<le> length xs" for f :: "SessionRecord \<Rightarrow> string option" and xs
    by (induction xs) (auto simp: map_filter_simps split: option.splits)
  have "length (concat (map peer_sessions ps)) = length ps" if "\<forall>p \<in> set ps. \<exists>s. peer_sessions p = [s]" for ps
    using that by (induction ps) auto
  moreover have "\<forall>p \<in> set (bt_values (peers st)). \<exists>s. peer_sessions p = [s]"
    using assms by (force simp: single_sessions_def bt_values_def bt_get_entries)
  ultimately have "length (concat (map peer_sessions (bt_values (peers st)))) = length (bt_values (peers st))" by blast
  then have "length (concat (map peer_sessions (bt_values (peers st)))) = bt_len (peers st)"
    by (simp add: bt_values_def bt_len_entries)
  then show ?thesis using filter_le unfolding active_responses_def by metis
qed

text \<open>
  C37. Replays are ignored: when the window of seen events is larger than the number of peers, as in the default
  limits, an event that a manager with the invariants of every run has processed is accepted again, at any time,
  without changing anything.
\<close>

theorem pairwise_replay_ignored:
  assumes "well_formed cr (pm_public cr m) (pm_limits m) (pm_state m)" "single_sessions (pm_state m)"
    and "distinct (seen_event_ids (pm_state m))" "max_peers (pm_limits m) < max_seen_event_ids (pm_limits m)"
    and "process_event_at cr api ev now m = (Inr (), m')"
  shows "process_event_at cr api ev now' m' = (Inr (), m')"
  using assms(5)
proof (cases rule: process_event_cases)
  case seen
  then show ?thesis by (simp add: process_event_at_def)
next
  case (received envelope hex i plan c nd)
  let ?eid = "hex_encode cr (ev_id ev)" and ?max = "max_seen_event_ids (pm_limits m)"
  obtain st d where nd: "nd = (st, d)" by (cases nd)
  have wf: "length (seen_event_ids (pm_state m)) \<le> ?max" "bt_len (peers (pm_state m)) \<le> max_peers (pm_limits m)"
    using assms(1) by (auto simp: well_formed_def within_limits_def)
  from received(5) obtain nxt where nxt: "set_session_state (pm_state m) hex i (receive_next_state plan) = Inr nxt"
      "seen_event_ids st = seen_event_ids (push_seen_event nxt ?eid ?max)"
    by (elim receive_messageE) (auto simp: nd)
  from nxt(1) obtain p where p: "bt_get (peers (pm_state m)) hex = Some p" "nxt = (pm_state m)\<lparr>peers := bt_insert hex
      (p\<lparr>peer_sessions := (peer_sessions p)[i := (peer_sessions p ! i)\<lparr>record_state := receive_next_state plan\<rparr>]\<rparr>) (peers (pm_state m))\<rparr>"
    "i < length (peer_sessions p)"
    by (rule set_session_stateE)
  obtain s where "peer_sessions p = [s]" using assms(2) p(1) by (auto simp: single_sessions_def)
  then have single: "single_sessions nxt" using assms(2) p(3) by (auto simp: p(2) single_sessions_def)
  have "bt_len (peers nxt) = bt_len (peers (pm_state m))" "seen_event_ids nxt = seen_event_ids (pm_state m)"
    using p(1) by (simp_all add: p(2))
  then have "?eid \<in> set (seen_event_ids st)"
    using push_seen_event_mem [of nxt ?max ?eid] active_responses_length [OF single] wf assms(3,4) by (simp add: nxt(2))
  moreover from received(6) obtain gen acts where "pm_state m' = st\<lparr>generation := gen, pending_actions := acts\<rparr>" "pm_limits m' = pm_limits m"
    unfolding nd by (auto elim: refresh_and_commitE)
  ultimately show ?thesis using received(2) by (simp add: process_event_at_def relay_checks_def has_seen_event_def)
qed

section \<open>Sending and retiring\<close>

text \<open>
  A sent text queues one publication: an event that fits the limit, verifies, has the private message kind and no
  recipient tag, under the ids that are returned; its time stamp is later than that of every message before.
\<close>

theorem pairwise_send_text:
  assumes "send_text cr api peer text expires now ms m = (Inr res, m')"
  shows "last_message_millis (pm_state m') = max ms (last_message_millis (pm_state m) + 1)
    \<and> last_message_millis (pm_state m) < last_message_millis (pm_state m')
    \<and> (\<exists>aid sid j ev. pending_actions (pm_state m') = pending_actions (pm_state m)
          @ [\<lparr>action_id = aid, action_kind = Publish sid j (Some (sent_inner_event_id res))\<rparr>]
        \<and> event_to_json cr ev = Some j \<and> length j \<le> max_event_bytes (pm_limits m)
        \<and> sent_outer_event_id res = hex_encode cr (ev_id ev) \<and> event_verify cr ev
        \<and> ev_kind ev = ucast MESSAGE_EVENT_KIND \<and> (\<forall>tag \<in> set (ev_tags ev). tag_name tag \<noteq> Some ''p''))"
proof -
  obtain t raw where t: "checked_add (last_message_millis (pm_state m)) 1 = Some t"
    and send: "send_inner_event cr api peer raw now (Some (max ms t)) m = (Inr res, m')"
    using assms by (auto simp: send_text_def validate_and_send_unsigned_event_def Let_def result_simps split: sum.splits)
  have later: "t = last_message_millis (pm_state m) + 1" "last_message_millis (pm_state m) < t"
    using t checked_add_Some [of "last_message_millis (pm_state m)" 1 t]
    by (simp_all add: checked_add_def word_less_nat_alt split: if_splits)
  obtain inner i sid plan ev hex nxt j where
      pl: "plan_message cr peer raw now m = Inr (inner, i, sid, plan, ev, hex)"
    and st: "set_session_state (pm_state m) hex i (send_next_state plan) = Inr nxt"
    and j: "event_to_json cr ev = Some j"
    and c: "commit_next cr api ((note_millis (Some (max ms t)) nxt)\<lparr>pending_actions := pending_actions nxt
        @ [next_action cr (snd (pm_ctx m) + 2) (note_millis (Some (max ms t)) nxt) (Publish sid j (Some inner))]\<rparr>) (installed_message_authors m)
        (with_ctx m (fst (pm_ctx m), Suc (Suc (Suc (snd (pm_ctx m)))))) = (Inr (), m')"
    and res: "res = \<lparr>sent_inner_event_id = inner, sent_outer_event_id = hex_encode cr (ev_id ev)\<rparr>"
    using send by (auto simp: send_inner_event_def result_simps push_action_def note_millis_def split: sum.splits prod.splits)
  have nxt: "pending_actions nxt = pending_actions (pm_state m)" "last_message_millis nxt = last_message_millis (pm_state m)"
    using st by (auto elim: set_session_stateE)
  have "validate_relay_publish cr ev = Inr ()" "ensure_event_size cr ev (max_event_bytes (pm_limits m)) ''relay event'' = Inr ()"
    using pl by (auto simp: plan_message_def Let_def result_simps split: if_splits)
  then have ev: "length j \<le> max_event_bytes (pm_limits m)" "event_verify cr ev" "ev_kind ev = ucast MESSAGE_EVENT_KIND"
      "\<forall>tag \<in> set (ev_tags ev). tag_name tag \<noteq> Some ''p''"
    using j by (auto simp: validate_relay_publish_def ensure_event_size_def ensure_size_def result_simps list_ex_iff split: if_splits)
  from c obtain gen a where st': "pm_state m' = (note_millis (Some (max ms t)) nxt)\<lparr>pending_actions := pending_actions nxt @ [a], generation := gen\<rparr>"
    and a: "action_kind a = Publish sid j (Some inner)"
    by (elim commit_next_InrE) (auto simp: next_action_def)
  have "a = \<lparr>action_id = action_id a, action_kind = Publish sid j (Some inner)\<rparr>" using a by simp
  moreover have "last_message_millis (pm_state m') = max (last_message_millis (pm_state m)) (max ms t)"
    by (simp add: st' note_millis_def nxt)
  ultimately show ?thesis using later ev j res st' nxt(1)
    by (auto simp: note_millis_def max_def split: if_splits)
qed

text \<open>
  Retiring a peer removes its sessions and every pending action that refers to them or delivers from the peer; the
  other peers and all other actions but subscriptions stay as they are.
\<close>

theorem pairwise_retire_peer:
  assumes "retire_peer cr api peer m = (Inr True, m')"
  shows "\<exists>p. bt_get (peers (pm_state m)) (hex_encode cr peer) = Some p
    \<and> (\<forall>hex. bt_get (peers (pm_state m')) hex = (if hex = hex_encode cr peer then None else bt_get (peers (pm_state m)) hex))
    \<and> filter (\<lambda>a. \<not> is_subscription a) (pending_actions (pm_state m')) = filter (\<lambda>a. case action_kind a of
        Publish sid _ _ \<Rightarrow> sid \<notin> handshake_id ` set (peer_sessions p)
      | OutOfBand _ sid _ \<Rightarrow> sid \<notin> handshake_id ` set (peer_sessions p)
      | Delivery hex _ _ _ _ \<Rightarrow> hex \<noteq> hex_encode cr peer
      | _ \<Rightarrow> False) (pending_actions (pm_state m))"
proof -
  let ?hex = "hex_encode cr peer"
  obtain p where p: "bt_get (peers (pm_state m)) ?hex = Some p"
    using assms by (auto simp: retire_peer_def Let_def split: option.splits)
  define nxt where "nxt = retire_sessions ((pm_state m)\<lparr>peers := bt_remove ?hex (peers (pm_state m))\<rparr>) (peer_sessions p)"
  define kept where "kept = filter (\<lambda>a. case action_kind a of Delivery hex _ _ _ _ \<Rightarrow> hex \<noteq> ?hex | _ \<Rightarrow> True) (pending_actions nxt)"
  obtain u where "refresh_and_commit cr api (nxt\<lparr>pending_actions := kept\<rparr>, snd (pm_ctx m)) m = (Inr u, m')"
    using assms p by (auto simp: retire_peer_def Let_def result_simps nxt_def kept_def)
  then obtain gen acts where st': "pm_state m' = nxt\<lparr>generation := gen, pending_actions := acts\<rparr>"
      "filter (\<lambda>a. \<not> is_subscription a) acts = filter (\<lambda>a. \<not> is_subscription a) kept"
    by (elim refresh_and_commitE) auto
  have "filter (\<lambda>a. \<not> is_subscription a) kept = filter (\<lambda>a. case action_kind a of
        Publish sid _ _ \<Rightarrow> sid \<notin> handshake_id ` set (peer_sessions p)
      | OutOfBand _ sid _ \<Rightarrow> sid \<notin> handshake_id ` set (peer_sessions p)
      | Delivery hex _ _ _ _ \<Rightarrow> hex \<noteq> ?hex | _ \<Rightarrow> False) (pending_actions (pm_state m))"
    by (auto simp: kept_def nxt_def retire_sessions_def is_subscription_def action_session_id_def intro!: filter_cong
      split: PairwiseActionKind.splits)
  then have "filter (\<lambda>a. \<not> is_subscription a) (pending_actions (pm_state m')) = \<dots>" using st' by simp
  then show ?thesis using p st'(1) by (intro exI [of _ p]) (simp add: nxt_def)
qed

end
