(* ===== verification/Pairwise_Demo.thy ===== *)
theory Pairwise_Demo
  imports Pairwise_Properties Pairwise_Codec_Properties
begin

text \<open>
  A concrete instance of the functions the pairwise runtime takes from other crates, and a conversation in it.
\<close>

declare split_paired_All [simp del] split_paired_Ex [simp del]

section \<open>The instance\<close>

definition hex_digit :: "u8 \<Rightarrow> char" where
  "hex_digit n = ''0123456789abcdef'' ! unat n"

definition hex_of :: "bytes \<Rightarrow> string" where
  "hex_of bs = concat (map (\<lambda>b. [hex_digit (b div 16), hex_digit (b mod 16)]) bs)"

definition digit_of :: "char \<Rightarrow> u8" where
  "digit_of c = of_nat (length (takeWhile (\<lambda>d. d \<noteq> c) ''0123456789abcdef''))"

fun unhex :: "string \<Rightarrow> bytes" where
  "unhex (a # b # s) = (16 * digit_of a + digit_of b) # unhex s"
| "unhex _ = []"

definition key_32 :: "bytes \<Rightarrow> bytes" where
  "key_32 bs = take 32 (bs @ replicate 32 0)"

definition demo_pairwise :: "(PairwiseState \<Rightarrow> bytes option) \<Rightarrow> (bytes \<Rightarrow> PairwiseState option) \<Rightarrow> pairwise_crypto" where
  "demo_pairwise to_vec from_slice = (demo_codec_ext (pairwise_crypto_ext
       (\<lambda>ev. Some (hex_of (ev_id ev))) (\<lambda>s. None) (\<lambda>r. Some (rumor_content r)) (\<lambda>iv. Some 100)
       (\<lambda>pks. Some (concat (map hex_of pks))) to_vec from_slice (\<lambda>_. None)
       (\<lambda>k n ad p. Some (p @ replicate AEAD_TAG_BYTES 0)) (\<lambda>k n ad c. Some (take (length c - AEAD_TAG_BYTES) c)) ()))
     \<lparr>pk_of_sk := key_32, ck_derive := \<lambda>a b. Inr (replicate 32 3), hkdf_sha256 := \<lambda>_ _ _. replicate 32 2,
      sha256 := \<lambda>_. replicate 32 1, v2_encrypt := \<lambda>n k m. Inr m, v2_decrypt := \<lambda>k c. Inr c,
      nip44_encrypt := \<lambda>n a b m. Inr m, nip44_decrypt := \<lambda>a b c. Inr c,
      b64_encode := map byte_char, b64_decode := \<lambda>s. Inr (string_bytes s), hex_encode := hex_of, hex_decode := \<lambda>s. Inr (unhex s),
      pk_add_tweak := \<lambda>p t. Some p, sk_add_tweak := \<lambda>s t. Some s, event_verify := \<lambda>_. True,
      uuid_v4 := \<lambda>n. replicate n (CHR ''u''), pk_parse := \<lambda>s. if length s = 64 then Some (unhex s) else None\<rparr>"

definition demo_limits :: RuntimeLimits where
  "demo_limits = \<lparr>max_peers = 2, max_pending_outbound = 4, max_pending_deliveries = 4,
     max_seen_event_ids = 3, max_seen_inner_event_ids = 3, max_sessions_per_peer = 1,
     max_event_bytes = 1000, max_inner_event_bytes = 1000, max_text_bytes = 100,
     max_persisted_state_bytes = 1000, max_total_tracked_sender_keys = 8,
     max_total_skipped_message_keys = 8, max_subscription_authors = 4\<rparr>"

lemma limits_validate_code [code]:
  "limits_validate l =
     (if max_sessions_per_peer l = 0 \<or> max_seen_event_ids l = 0 \<or> max_seen_inner_event_ids l = 0
        \<or> max_pending_outbound l > MAX_SKIP \<or> max_persisted_state_bytes l = 0
        \<or> int (max_persisted_state_bytes l) > 33554432 \<or> max_total_tracked_sender_keys l = 0
        \<or> max_total_skipped_message_keys l = 0 \<or> max_subscription_authors l = 0
        \<or> max_subscription_authors l > max_total_tracked_sender_keys l
      then Inl PwInvalidLimits else Inr ())"
  by (simp add: limits_validate_def MAX_PERSISTED_STATE_BYTES_def)

section \<open>A new manager\<close>

definition blocks :: "u8 list \<Rightarrow> bytes list" where "blocks = map (replicate 32)"

abbreviation alice_sk :: bytes where "alice_sk \<equiv> replicate 32 10"
abbreviation bob_sk :: bytes where "bob_sk \<equiv> replicate 32 11"

abbreviation alice_open :: "pairwise_crypto \<Rightarrow> MemoryStore PairwiseManager pres \<times> MemoryStore" where
  "alice_open cr \<equiv> manager_open cr memory_store memory_store_default alice_sk demo_limits 1 (blocks [20, 21, 22, 23], 0)"

text \<open>The state after opening does not depend on its JSON; the second instance encodes just this state, as one byte.\<close>

definition any_json :: pairwise_crypto where
  "any_json = demo_pairwise (\<lambda>_. Some [0]) (\<lambda>_. None)"

definition alice_state :: PairwiseState where
  "alice_state = pm_state (projr (fst (alice_open any_json)))"

definition alice_json :: pairwise_crypto where
  "alice_json = demo_pairwise (\<lambda>st. if st = alice_state then Some [7] else None)
     (\<lambda>bs. if bs = [7] then Some alice_state else None)"

definition alice_new :: "MemoryStore PairwiseManager" where
  "alice_new = projr (fst (alice_open alice_json))"

lemma alice_laws: "pairwise_laws alice_json"
  by (auto simp: pairwise_laws_def alice_json_def demo_pairwise_def demo_codec_ext_def demo_wire_ext_def demo_ext_def key_32_def
    split: if_splits)

lemma alice_opens: "alice_open alice_json = (Inr alice_new, pm_store alice_new)"
  by code_simp

lemma alice_run: "pairwise_run alice_json memory_store empty_memory alice_sk demo_limits alice_new"
  by (rule pairwise_run.start [OF _ alice_opens]) (simp add: memory_durable_def memory_inv_def memory_store_default_def)

theorem pairwise_state_durable_witness:
  "well_formed alice_json (pk_of_sk alice_json alice_sk) demo_limits (pm_state alice_new)
    \<and> mem_generation (pm_store alice_new) = generation (pm_state alice_new)
    \<and> (\<exists>payload. mem_payload (pm_store alice_new) = Some payload
        \<and> open_state alice_json payload alice_sk demo_limits = Inr (pm_state alice_new))"
  by (rule pairwise_state_durable [OF alice_laws alice_run])

theorem pairwise_subscribed_witness:
  "single_sessions (pm_state alice_new) \<and> distinct (seen_event_ids (pm_state alice_new))
    \<and> set (installed_message_authors alice_new) = tracked_authors alice_json (pm_state alice_new)
    \<and> distinct (installed_message_authors alice_new)
    \<and> (length (installed_message_authors alice_new) \<le> max_subscription_authors demo_limits \<or> installed_message_authors alice_new = [])"
  by (rule pairwise_subscribed [OF alice_laws alice_run])

lemma alice_reopens:
  "manager_open alice_json memory_store (pm_store alice_new) alice_sk demo_limits 9 ([], 5) =
     (Inr (alice_new\<lparr>pm_ctx := ([], 5)\<rparr>), pm_store alice_new)"
  by code_simp

theorem pairwise_restart_witness:
  "manager_open alice_json memory_store (pm_store alice_new) alice_sk demo_limits 9 ([], 5) =
     (Inr (alice_new\<lparr>pm_ctx := ([], 5)\<rparr>), pm_store alice_new)
   \<and> peers (pm_state (alice_new\<lparr>pm_ctx := ([], 5)\<rparr>)) = peers (pm_state alice_new)"
  using pairwise_restart [OF alice_laws alice_run alice_reopens] alice_reopens by blast

section \<open>A conversation\<close>

definition demo_invite_of :: "bytes \<Rightarrow> Invite" where
  "demo_invite_of pk = \<lparr>invite_metadata_privacy_version = METADATA_PRIVACY_VERSION, inviter_device_pubkey = DevicePubkey pk,
     inviter_ephemeral_public_key = DevicePubkey (replicate 32 20), shared_secret = replicate 32 21,
     inviter_ephemeral_private_key = Some (replicate 32 20), max_uses = None, used_by = [], used_response_contents = [],
     invite_created_at = 1, inviter_owner_pubkey = Some (OwnerPubkey pk), purpose = None, inviter = pk, invite_device_id = None,
     invite_owner_public_key = Some pk\<rparr>"

text \<open>A manager with one peer and one session, whose handshake was answered by event \<open>e\<close> if there is one.\<close>

definition demo_manager :: "bytes \<Rightarrow> bytes \<Rightarrow> Session \<Rightarrow> string option \<Rightarrow> MemoryStore PairwiseManager" where
  "demo_manager sk peer s e = \<lparr>pm_store = \<lparr>mem_generation = 4, mem_payload = Some []\<rparr>, pm_secret = sk,
     pm_state = \<lparr>schema_version = STATE_SCHEMA_VERSION, generation = 4, local_pubkey_hex = hex_of sk,
       local_invite = demo_invite_of sk,
       peers = bt_of_list [(hex_of peer, \<lparr>peer_pubkey_hex = hex_of peer, peer_sessions = [\<lparr>handshake_id = hex_of (replicate 32 1),
         handshake_created_at = 1, record_state = state s,
         invite_response_event_json = (if e = None then Some ''r'' else None),
         bootstrap_event_json = (if e = None then Some ''b'' else None), accepted_response_event_id = e\<rparr>]\<rparr>)],
       seen_event_ids = (case e of None \<Rightarrow> [] | Some i \<Rightarrow> [i]), seen_inner_event_ids = [],
       response_event_peers = bt_of_list (case e of None \<Rightarrow> [] | Some i \<Rightarrow> [(i, hex_of peer)]),
       pending_actions = [], last_message_millis = 3, message_subscription_id = ''ndr''\<rparr>,
     pm_limits = demo_limits, installed_message_authors = [], pm_ctx = (blocks [30, 31, 32], 50)\<rparr>"

definition alice_talks :: "MemoryStore PairwiseManager" where
  "alice_talks = demo_manager alice_sk bob_sk (projr (fst (new_responder any_json [replicate 32 22] (DevicePubkey (replicate 32 40))
     (replicate 32 20) (replicate 32 21)))) (Some ''e'')"

definition bob_session :: Session where
  "bob_session = projr (fst (new_initiator any_json [replicate 32 41] (DevicePubkey (replicate 32 20)) (replicate 32 40) (replicate 32 21)))"

definition bob_talks :: "MemoryStore PairwiseManager" where
  "bob_talks = demo_manager bob_sk alice_sk bob_session None"

definition bob_says :: Event where
  "bob_says = ok_value (message_event any_json (send_envelope (projr (plan_send any_json 3 bob_session
     (the (unsigned_to_vec any_json (ensure_id any_json (codec_message_event any_json bob_sk ''hi'' (encode_options_new 2 7))))) 2)))) blank_event"

theorem pairwise_failed_call_witness:
  "\<exists>e m'. do_call any_json memory_store (SendText bob_sk ''hi'' None 2 7) alice_talks = (Inl e, m')
    \<and> pm_state m' = pm_state alice_talks \<and> memory_durable (pm_store m') = memory_durable (pm_store alice_talks)"
proof -
  let ?x = "do_call any_json memory_store (SendText bob_sk ''hi'' None 2 7) alice_talks"
  have "fst ?x = Inl (PwSessionNotReady (hex_of bob_sk))" by code_simp
  then have x: "?x = (Inl (PwSessionNotReady (hex_of bob_sk)), snd ?x)" by (simp add: prod_eq_iff)
  have "memory_inv (pm_store alice_talks)" by (simp add: memory_inv_def alice_talks_def demo_manager_def)
  from pairwise_failed_call [OF x this] x show ?thesis by blast
qed

text \<open>What Alice has queued for delivery after Bob's message.\<close>

definition hi_delivery :: PairwiseAction where
  "hi_delivery = \<lparr>action_id = ''pairwise-action:'' @ hex_of alice_sk @ '':'' @ replicate 50 (CHR ''u''),
     action_kind = Delivery (hex_of bob_sk) ''hi'' (hex_of bob_sk) (hex_of (ev_id bob_says)) None\<rparr>"

abbreviation alice_hears :: "unit pres \<times> MemoryStore PairwiseManager" where
  "alice_hears \<equiv> process_event_at any_json memory_store bob_says 3 alice_talks"

lemma alice_hears_ok: "alice_hears = (Inr (), snd alice_hears) \<and> hi_delivery \<in> set (pending_actions (pm_state (snd alice_hears)))"
proof -
  have "(let x = alice_hears in fst x = Inr () \<and> hi_delivery \<in> set (pending_actions (pm_state (snd x))))" by code_simp
  then show ?thesis by (simp add: Let_def prod_eq_iff)
qed

theorem pairwise_delivery_sound_witness:
  "hi_delivery \<in> set (pending_actions (pm_state (snd alice_hears)))
   \<and> event_verify any_json bob_says \<and> \<not> has_seen_event (pm_state alice_talks) (hex_of (ev_id bob_says))
   \<and> \<not> has_seen_inner_event (pm_state alice_talks) (hex_of bob_sk)
   \<and> (\<exists>p s envelope rng plan decoded. bt_get (peers (pm_state alice_talks)) (hex_of bob_sk) = Some p \<and> s \<in> set (peer_sessions p)
       \<and> parse_message_event any_json bob_says = Inr envelope
       \<and> fst (plan_receive any_json (session_from_state (record_state s)) rng envelope) = Inr plan
       \<and> decode_strict any_json (receive_payload plan) = Inr decoded
       \<and> unsigned_to_json any_json (decoded_event decoded) = Some ''hi''
       \<and> map_option (hex_encode any_json) (rumor_id (decoded_event decoded)) = Some (hex_of bob_sk)
       \<and> pk_parse any_json (hex_of bob_sk) = Some (rumor_pubkey (decoded_event decoded)))"
proof -
  have hears: "alice_hears = (Inr (), snd alice_hears)" and queued: "hi_delivery \<in> set (pending_actions (pm_state (snd alice_hears)))"
    using alice_hears_ok by auto
  have kind: "action_kind hi_delivery = Delivery (hex_of bob_sk) ''hi'' (hex_of bob_sk) (hex_of (ev_id bob_says)) None"
    by (simp add: hi_delivery_def)
  have "hi_delivery \<notin> set (pending_actions (pm_state alice_talks))" by (simp add: alice_talks_def demo_manager_def)
  from pairwise_delivery_sound [OF hears kind queued this] queued show ?thesis by blast
qed

theorem pairwise_replay_ignored_witness:
  "process_event_at any_json memory_store bob_says 9 (snd alice_hears) = (Inr (), snd alice_hears)"
proof (rule pairwise_replay_ignored)
  show "alice_hears = (Inr (), snd alice_hears)" using alice_hears_ok by simp
  have "validate any_json (pm_public any_json alice_talks) (pm_limits alice_talks) (pm_state alice_talks) = Inr ()" by code_simp
  then show "well_formed any_json (pm_public any_json alice_talks) (pm_limits alice_talks) (pm_state alice_talks)"
    by (simp add: validate_exact)
  show "single_sessions (pm_state alice_talks)"
    by (auto simp: single_sessions_def alice_talks_def demo_manager_def bt_of_list_def split: if_splits)
  show "distinct (seen_event_ids (pm_state alice_talks))" "max_peers (pm_limits alice_talks) < max_seen_event_ids (pm_limits alice_talks)"
    by (simp_all add: alice_talks_def demo_manager_def demo_limits_def)
qed

theorem pairwise_send_text_witness:
  "\<exists>res m'. send_text any_json memory_store alice_sk ''hi'' None 2 7 bob_talks = (Inr res, m') \<and> last_message_millis (pm_state m') = 7
    \<and> length (pending_actions (pm_state m')) = 1"
proof -
  let ?x = "send_text any_json memory_store alice_sk ''hi'' None 2 7 bob_talks"
  have "is_ok (fst ?x)" by code_simp
  then obtain res where x: "?x = (Inr res, snd ?x)" by (cases ?x, cases "fst ?x") auto
  have "last_message_millis (pm_state bob_talks) = 3" "pending_actions (pm_state bob_talks) = []"
    by (simp_all add: bob_talks_def demo_manager_def)
  then show ?thesis using pairwise_send_text [OF x] x by fastforce
qed

theorem pairwise_retire_peer_witness:
  "\<exists>m'. retire_peer any_json memory_store bob_sk alice_talks = (Inr True, m')
    \<and> bt_get (peers (pm_state m')) (hex_encode any_json bob_sk) = None"
proof -
  let ?x = "retire_peer any_json memory_store bob_sk alice_talks"
  have "fst ?x = Inr True" by code_simp
  then have x: "?x = (Inr True, snd ?x)" by (simp add: prod_eq_iff)
  from pairwise_retire_peer [OF x] x show ?thesis by fastforce
qed

end
