(* ===== verification/File_Store_Demo.thy ===== *)
theory File_Store_Demo
  imports File_Store_Contract Pairwise_Demo
begin

text \<open>The pairwise runtime of the example, on a file store in an empty directory.\<close>

declare split_paired_All [simp del] split_paired_Ex [simp del]

lemma ensure_file_payload_size_code [code]:
  "ensure_file_payload_size n =
     (if int n > 33554432 then Inl (PwInputTooLarge ''pairwise state'' MAX_FILE_STORE_PAYLOAD_BYTES) else Inr ())"
  by (simp add: ensure_file_payload_size_def MAX_FILE_STORE_PAYLOAD_BYTES_def)

abbreviation empty_directory :: "nat list \<Rightarrow> FileStore" where
  "empty_directory io \<equiv> \<lparr>fs_files = bt_empty, fs_log = [], fs_io = io, fs_removals = [], fs_draw = 0\<rparr>"

abbreviation demo_files :: "FileStore store_api" where
  "demo_files \<equiv> file_store (\<lambda>_. ''nonce'') (\<lambda>_. True)"

abbreviation alice_file_open :: "FileStore PairwiseManager pres \<times> FileStore" where
  "alice_file_open \<equiv> manager_open alice_json demo_files (empty_directory []) alice_sk demo_limits 1 (blocks [20, 21, 22, 23], 0)"

definition alice_file :: "FileStore PairwiseManager" where
  "alice_file = projr (fst alice_file_open)"

lemma alice_file_opens: "alice_file_open = (Inr alice_file, pm_store alice_file)"
  by code_simp

lemma alice_file_run: "pairwise_run alice_json demo_files (\<lambda>s. file_durable s = None \<and> removals_succeed s) alice_sk demo_limits alice_file"
  by (rule pairwise_run.start [OF _ alice_file_opens]) (simp add: durable_of_None)

theorem file_state_durable_witness:
  "well_formed alice_json (pk_of_sk alice_json alice_sk) demo_limits (pm_state alice_file)
    \<and> (\<exists>payload. durable_of (fs_files (pm_store alice_file)) = Some (generation (pm_state alice_file), payload)
        \<and> open_state alice_json payload alice_sk demo_limits = Inr (pm_state alice_file))"
  using file_state_durable [OF alice_laws alice_file_run] by blast

text \<open>The directory cannot be opened for the sync that follows the rename: the file is removed again.\<close>

abbreviation unsynced :: "unit pres \<times> FileStore" where
  "unsynced \<equiv> file_commit (\<lambda>_. ''nonce'') (\<lambda>_. True) 1 [7] (empty_directory (replicate 14 0 @ [1]))"

lemma unsynced_states: "map durable_of (fs_log (snd unsynced)) = [None, None, None, Some (1, [7]), None]" "fst unsynced \<noteq> Inr ()"
  by code_simp+

theorem file_commit_atomic_witness:
  "(\<exists>d \<in> set (fs_log (snd unsynced)). durable_of d = Some (1, [7])) \<and> fst unsynced \<noteq> Inr ()
    \<and> durable_of (fs_files (snd unsynced)) = None"
proof -
  have "durable_of (fs_files (empty_directory (replicate 14 0 @ [1]))) = None" by (simp add: durable_of_None)
  moreover have "Some (1, [7]) \<in> set (map durable_of (fs_log (snd unsynced)))" unfolding unsynced_states(1) by simp
  ultimately show ?thesis
    using file_commit_atomic [OF surjective_pairing, of "\<lambda>_. ''nonce''" "\<lambda>_. True" 1 "[7]" "empty_directory (replicate 14 0 @ [1])"]
      unsynced_states(2) by auto
qed

end
