(* ===== verification/Spec2Isabelle.thy ===== *)
theory Spec2Isabelle
  imports Session_Properties Sender_Key_Properties Roster App_Keys_Index App_Keys_Codec Invite_Properties
    Session_Manager_Delivery Group_Demo_Receive Subscription_Properties Wire_Instance Pairwise_Codec_Properties
    File_Store_Demo
begin

text \<open>
  A verification library of the Rust crates of nostr double ratchet: the protocol crate
  \<^verbatim>\<open>nostr-double-ratchet\<close>, the codec \<^verbatim>\<open>nostr-double-ratchet-pairwise-codec\<close> and the runtime
  \<^verbatim>\<open>nostr-double-ratchet-pairwise\<close>, all under \<^verbatim>\<open>src/rust/crates\<close>.

  \<^bold>\<open>The program.\<close> A device talks to another device over a double ratchet \<^emph>\<open>session\<close> (\<^verbatim>\<open>session.rs\<close>). Sessions begin with
  an \<^emph>\<open>invite\<close> (\<^verbatim>\<open>invite.rs\<close>) and its response. An owner publishes which devices are theirs, as a roster
  (\<^verbatim>\<open>roster.rs\<close>) or as signed AppKeys (\<^verbatim>\<open>app_keys.rs\<close>, \<^verbatim>\<open>multi_device.rs\<close>). The \<^emph>\<open>session manager\<close>
  (\<^verbatim>\<open>session_manager.rs\<close> and \<^verbatim>\<open>session_manager/\<close>) keeps the sessions of all devices of all known owners, sends to the
  authorized ones and receives from them. The \<^emph>\<open>group manager\<close> (\<^verbatim>\<open>group_manager.rs\<close>, \<^verbatim>\<open>group_manager/\<close>) runs groups on top
  of it, with sender keys (\<^verbatim>\<open>sender_key.rs\<close>, \<^verbatim>\<open>sender_key/blind.rs\<close>). Envelopes, invites and rosters become Nostr events in
  \<^verbatim>\<open>wire.rs\<close>; \<^verbatim>\<open>direct_message_subscriptions.rs\<close> tracks what a client has subscribed to. The \<^emph>\<open>pairwise runtime\<close> uses invites,
  sessions, the wire format and the codec, without the managers: it keeps its own state durable in a store and hands out actions to perform.

  \<^bold>\<open>Theories and sources.\<close>
  \<^item> \<open>BTree_Map\<close>, \<open>Prelude\<close>: ordered maps, machine integers, results, state-passing \<open>then_do\<close>. \<open>Protocol_Types\<close>: \<^verbatim>\<open>ids.rs\<close>,
    \<^verbatim>\<open>error.rs\<close>, \<^verbatim>\<open>utils.rs\<close>, \<^verbatim>\<open>metadata_privacy.rs\<close> and the interface to the cryptographic crates. \<open>Nostr_Event\<close>: events and strings.
  \<^item> Interfaces as locales: \<open>Symmetric_Chain\<close>, \<open>Snapshot_Register\<close>, \<open>Entry_Merge\<close>, \<open>Secondary_Index\<close>, \<open>Step_Preorder\<close>, the
    map laws of \<open>BTree_Map\<close>, \<open>counted_index\<close> of \<open>Subscription_Tracking\<close>, \<open>group_updates\<close> of \<open>Group_Calls\<close> and \<open>pairwise_store\<close> of
    \<open>Pairwise_Store\<close>; each is interpreted on the definitions of the model.
  \<^item> \<open>Session_Ratchet\<close> models \<^verbatim>\<open>session.rs\<close>; \<open>Session_Invariants\<close>, \<open>Session_Sync\<close> and \<open>Session_Properties\<close> show delivery in any
    order, the exchange of turns, the invariant of reachable sessions, replay protection and the bound on skipped keys.
  \<^item> \<open>Sender_Key\<close>, \<open>Sender_Key_Search\<close>, \<open>Sender_Key_Properties\<close>: \<^verbatim>\<open>sender_key.rs\<close> and \<^verbatim>\<open>blind.rs\<close>; the blind search agrees with
    decryption by number.
  \<^item> \<open>Roster\<close>, \<open>App_Keys\<close>, \<open>App_Keys_Index\<close>, \<open>App_Keys_Codec\<close>, \<open>Multi_Device\<close>: device sets, their merge, the index of verified evidence
    and its abstract membership.
  \<^item> \<open>Invite\<close>, \<open>Invite_Properties\<close>: the handshake, its authentication and its limits.
  \<^item> \<open>Device_Record\<close>, \<open>Session_Manager\<close>, \<open>Session_Manager_Traffic\<close>, \<open>Session_Manager_Lifecycle\<close>: the session manager. Its
    invariant is kept by every operation (\<open>Session_Manager_Steps\<close>) and by restarts (\<open>Session_Manager_Restore\<close>), hence in every run
    (\<open>Session_Manager_Runs\<close>); \<open>Session_Manager_Properties\<close> and \<open>Session_Manager_Delivery\<close> state what follows.
  \<^item> \<open>Group_Types\<close>, \<open>Group_Record\<close>, \<open>Group_Manager\<close>, \<open>Group_Receive\<close>, \<open>Group_Traffic\<close>: the group manager; the other \<open>Group\<close>
    theories hold its invariant, runs, authority, secrecy of sender keys, delivery, replay, search in slices and repair.
  \<^item> \<open>Subscriptions\<close>, \<open>Subscription_Tracking\<close>, \<open>Subscription_Properties\<close>: subscription trackers refine a set of tracked keys.
  \<^item> \<open>Wire\<close>, \<open>Wire_Properties\<close>, \<open>Pairwise_Codec\<close>, \<open>Pairwise_Codec_Properties\<close>: event formats and their round trips.
  \<^item> \<open>Pairwise_State\<close> (\<^verbatim>\<open>state.rs\<close>, \<^verbatim>\<open>action.rs\<close>, \<^verbatim>\<open>error.rs\<close>), \<open>Pairwise_Store\<close> (\<^verbatim>\<open>persistence.rs\<close>, \<^verbatim>\<open>storage.rs\<close>),
    \<open>Pairwise_Manager\<close> (\<^verbatim>\<open>manager.rs\<close>, \<^verbatim>\<open>manager/subscriptions.rs\<close>): the runtime. \<open>Pairwise_Validity\<close> characterises the states that
    validation accepts; \<open>Pairwise_Commit\<close> shows that each call is one transaction, \<open>Pairwise_Runs\<close> the invariants of any sequence
    of calls and restarts, \<open>Pairwise_Properties\<close> durability, atomic failure, authenticated delivery and replay.
  \<^item> \<open>File_Store\<close> (the file store of \<^verbatim>\<open>storage.rs\<close>): every system call takes its outcome from an oracle. \<open>File_Store_Properties\<close> relates
    directories along its steps, \<open>File_Store_Contract\<close> shows that a commit is atomic and that the file store is a \<open>pairwise_store\<close>.
  \<^item> \<open>Crate_Instance\<close>, \<open>Full_Instance\<close>, \<open>Wire_Instance\<close>, \<open>Group_Demo\<close>, \<open>Group_Demo_Receive\<close>, \<open>Pairwise_Demo\<close>, \<open>File_Store_Demo\<close>: concrete instances of the
    third-party interfaces, on which the hypotheses hold and the definitions compute.

  \<^bold>\<open>Conventions.\<close> Structs are records, enums datatypes, \<^verbatim>\<open>Result\<close> a sum with the error on the left; integers are words of their width,
  sizes natural numbers, with the checked sums at 64 bits. \<^verbatim>\<open>BTreeMap\<close> is the type \<open>btmap\<close>; a \<^verbatim>\<open>HashMap\<close> whose order is not observed is one, too.
  Operations pass their state explicitly and return it on errors as well. Third-party crates are fields of records of functions, the first
  argument of what uses them; laws are named predicates (\<open>keys_ok\<close>, \<open>invite_laws\<close>, \<open>wire_laws\<close>, \<open>codec_laws\<close>, \<open>pairwise_laws\<close>, ...).
  Randomness of a caller is a list of blocks, its end is the error \<open>RngExhausted\<close>; randomness of the operating system is the index of a
  draw. \<open>Panicked\<close> stands for a panic. Time is an argument.

  \<^bold>\<open>Bounds.\<close> Loops are structurally recursive or proved to end. The rejection loop for keys runs until its list of blocks ends. The search of a
  group message tries at most 12,002 keys of a stream, which is enough: the theorems of \<open>Group_Slices\<close> state that it always decides.

  \<^bold>\<open>Not modelled.\<close> The JSON of group payloads (\<^verbatim>\<open>group_wire.rs\<close>, \<^verbatim>\<open>group_wire/codec.rs\<close>) and of snapshots, which are serde derivations and enter
  as parameters; \<^verbatim>\<open>message_builders.rs\<close>, \<^verbatim>\<open>one_to_many.rs\<close>, \<^verbatim>\<open>shared_channel.rs\<close>, \<^verbatim>\<open>device_link.rs\<close> and \<^verbatim>\<open>receive_fingerprint.rs\<close>,
  which no modelled component calls; the wrapper \<^verbatim>\<open>ndr-pairwise-ffi\<close>; the bindings in other languages; zeroising of memory, permission
  bits and concurrency (a manager is used through an exclusive reference).
\<close>

end
